(* ===== verification/Prelude.thy ===== *)
theory Prelude
  imports
    Complex_Main
    "HOL-Library.AList"
    "HOL-Library.Char_ord"
    "HOL-Library.List_Lexorder"
begin

text \<open>
  The part of Python the modelled modules share, and the lemma library the component
  theories rest on.

  A value that the source types as \<open>Any\<close> is a \<open>pyval\<close>: the values of JSON plus Python's
  non-finite floats. A \<open>dict\<close> with string keys is an association list in insertion order;
  \<open>AList.update\<close> and \<open>AList.delete\<close> are item assignment and \<open>pop\<close>. Lists and tuples are
  one constructor, as every test in the sources is \<open>isinstance(x, (list, tuple))\<close> or
  consumes a JSON value. A finite float carries its exact rational value and the text
  \<open>repr\<close> prints for it. Strings are lists of \<open>char\<close>; character classes (white space,
  digits, case) are those of ASCII.

  An exception is a value of \<open>pyexc\<close>, a fallible call has type \<open>pyexc + 'a\<close>. Exceptions
  the source raises itself carry its message; those of the interpreter carry none.
\<close>

named_theorems dict_simps \<open>lookups in dictionaries built by update, pop and literals\<close>
named_theorems py_simps \<open>unfolding of the Python coercions on concrete values\<close>
named_theorems step_defs \<open>definitions of the state-changing operations of a component\<close>

section \<open>Values\<close>

datatype pyfloat = FFin rat string | FNan | FInf bool

datatype pyval =
    PNone
  | PBool bool
  | PInt int
  | PFloat pyfloat
  | PStr string
  | PList "pyval list"
  | PDict "(string \<times> pyval) list"

type_synonym pydict = "(string \<times> pyval) list"

datatype pyexc =
    ValueError string
  | TypeError string
  | OverflowError string
  | AttributeError string
  | KeyError string
  | RuntimeError string
  | OSError string

definition ebind :: "'e + 'a \<Rightarrow> ('a \<Rightarrow> 'e + 'b) \<Rightarrow> 'e + 'b" where
  "ebind r f = (case r of Inl e \<Rightarrow> Inl e | Inr a \<Rightarrow> f a)"

fun truthy :: "pyval \<Rightarrow> bool" where
  "truthy PNone = False"
| "truthy (PBool b) = b"
| "truthy (PInt i) = (i \<noteq> 0)"
| "truthy (PFloat (FFin q _)) = (q \<noteq> 0)"
| "truthy (PFloat FNan) = True"
| "truthy (PFloat (FInf _)) = True"
| "truthy (PStr s) = (s \<noteq> [])"
| "truthy (PList xs) = (xs \<noteq> [])"
| "truthy (PDict d) = (d \<noteq> [])"

definition py_or :: "pyval \<Rightarrow> pyval \<Rightarrow> pyval" where
  "py_or a b = (if truthy a then a else b)"

definition dget :: "pydict \<Rightarrow> string \<Rightarrow> pyval" where
  "dget d k = (case map_of d k of None \<Rightarrow> PNone | Some v \<Rightarrow> v)"

definition has_key :: "('k \<times> 'v) list \<Rightarrow> 'k \<Rightarrow> bool" where
  "has_key d k = (k \<in> fst ` set d)"

fun is_dict :: "pyval \<Rightarrow> bool" where
  "is_dict (PDict _) = True"
| "is_dict _ = False"

fun dict_of :: "pyval \<Rightarrow> pydict" where
  "dict_of (PDict d) = d"
| "dict_of _ = []"

text \<open>Type tests and projections; a projection is used where the test has succeeded.\<close>

fun is_int :: "pyval \<Rightarrow> bool" where
  "is_int (PInt _) = True"
| "is_int _ = False"

fun is_list :: "pyval \<Rightarrow> bool" where
  "is_list (PList _) = True"
| "is_list _ = False"

fun is_text :: "pyval \<Rightarrow> bool" where
  "is_text (PStr _) = True"
| "is_text _ = False"

fun int_val :: "pyval \<Rightarrow> int" where
  "int_val (PInt i) = i"
| "int_val _ = 0"

fun list_val :: "pyval \<Rightarrow> pyval list" where
  "list_val (PList xs) = xs"
| "list_val _ = []"

section \<open>Text\<close>

definition is_space :: "char \<Rightarrow> bool" where
  "is_space c = (let n = of_char c :: nat in n = 32 \<or> (9 \<le> n \<and> n \<le> 13) \<or> (28 \<le> n \<and> n \<le> 31))"

definition is_digit :: "char \<Rightarrow> bool" where
  "is_digit c = (let n = of_char c :: nat in 48 \<le> n \<and> n \<le> 57)"

definition is_lower :: "char \<Rightarrow> bool" where
  "is_lower c = (let n = of_char c :: nat in 97 \<le> n \<and> n \<le> 122)"

definition is_upper :: "char \<Rightarrow> bool" where
  "is_upper c = (let n = of_char c :: nat in 65 \<le> n \<and> n \<le> 90)"

definition is_word :: "char \<Rightarrow> bool" where
  "is_word c = (is_digit c \<or> is_lower c \<or> is_upper c \<or> c = CHR ''_'')"

definition char_lower :: "char \<Rightarrow> char" where
  "char_lower c = (if is_upper c then char_of (of_char c + 32 :: nat) else c)"

definition py_lower :: "string \<Rightarrow> string" where
  "py_lower = map char_lower"

definition py_strip :: "string \<Rightarrow> string" where
  "py_strip s = rev (dropWhile is_space (rev (dropWhile is_space s)))"

fun join :: "string \<Rightarrow> string list \<Rightarrow> string" where
  "join sep [] = []"
| "join sep [x] = x"
| "join sep (x # y # ys) = x @ sep @ join sep (y # ys)"

fun split_on :: "char \<Rightarrow> string \<Rightarrow> string list" where
  "split_on c [] = [[]]"
| "split_on c (x # xs) =
     (if x = c then [] # split_on c xs
      else (case split_on c xs of [] \<Rightarrow> [[x]] | w # ws \<Rightarrow> (x # w) # ws))"

fun has_sub :: "string \<Rightarrow> string \<Rightarrow> bool" where
  "has_sub p [] = (p = [])"
| "has_sub p (c # s) = (take (length p) (c # s) = p \<or> has_sub p s)"

definition digit_char :: "nat \<Rightarrow> char" where
  "digit_char n = char_of (48 + n)"

definition digit_val :: "char \<Rightarrow> nat" where
  "digit_val c = of_char c - 48"

fun nat_str :: "nat \<Rightarrow> string" where
  "nat_str n = (if n < 10 then [digit_char n] else nat_str (n div 10) @ [digit_char (n mod 10)])"

declare nat_str.simps [simp del]

definition int_str :: "int \<Rightarrow> string" where
  "int_str i = (if i < 0 then CHR ''-'' # nat_str (nat (- i)) else nat_str (nat i))"

definition hex_char :: "nat \<Rightarrow> char" where
  "hex_char n = (if n < 10 then char_of (48 + n) else char_of (87 + n))"

definition repr_char :: "char \<Rightarrow> char \<Rightarrow> string" where
  "repr_char q c = (let n = of_char c :: nat in
     if c = q \<or> n = 92 then [CHR 0x5C, c]
     else if n = 9 then [CHR 0x5C, CHR ''t'']
     else if n = 10 then [CHR 0x5C, CHR ''n'']
     else if n = 13 then [CHR 0x5C, CHR ''r'']
     else if n < 32 \<or> 127 \<le> n then [CHR 0x5C, CHR ''x'', hex_char (n div 16), hex_char (n mod 16)]
     else [c])"

definition str_repr :: "string \<Rightarrow> string" where
  "str_repr s =
     (let q = (if CHR 0x27 \<in> set s \<and> CHR 0x22 \<notin> set s then CHR 0x22 else CHR 0x27)
      in q # concat (map (repr_char q) s) @ [q])"

fun float_repr :: "pyfloat \<Rightarrow> string" where
  "float_repr (FFin _ r) = r"
| "float_repr FNan = ''nan''"
| "float_repr (FInf neg) = (if neg then ''-inf'' else ''inf'')"

fun py_repr :: "pyval \<Rightarrow> string" where
  "py_repr PNone = ''None''"
| "py_repr (PBool b) = (if b then ''True'' else ''False'')"
| "py_repr (PInt i) = int_str i"
| "py_repr (PFloat f) = float_repr f"
| "py_repr (PStr s) = str_repr s"
| "py_repr (PList xs) = ''['' @ join '', '' (map py_repr xs) @ '']''"
| "py_repr (PDict d) = ''{'' @ join '', '' (map (\<lambda>kv. str_repr (fst kv) @ '': '' @ py_repr (snd kv)) d) @ ''}''"

fun py_str :: "pyval \<Rightarrow> string" where
  "py_str (PStr s) = s"
| "py_str v = py_repr v"

text \<open>
  \<open>json.dumps(v, sort_keys=True, separators=(',', ':'), ensure_ascii=True)\<close>: keys sorted at every
  depth, no white space, every character outside printable ASCII escaped.
\<close>

fun sort_keys :: "pyval \<Rightarrow> pyval" where
  "sort_keys (PList xs) = PList (map sort_keys xs)"
| "sort_keys (PDict d) = PDict (sort_key fst (map (\<lambda>kv. (fst kv, sort_keys (snd kv))) d))"
| "sort_keys v = v"

definition json_char :: "char \<Rightarrow> string" where
  "json_char c = (let n = of_char c :: nat in
     if n = 34 \<or> n = 92 then [CHR 0x5C, c]
     else if n = 8 then [CHR 0x5C, CHR ''b'']
     else if n = 9 then [CHR 0x5C, CHR ''t'']
     else if n = 10 then [CHR 0x5C, CHR ''n'']
     else if n = 12 then [CHR 0x5C, CHR ''f'']
     else if n = 13 then [CHR 0x5C, CHR ''r'']
     else if n < 32 \<or> 127 \<le> n
     then [CHR 0x5C, CHR ''u'', CHR ''0'', CHR ''0'', hex_char (n div 16), hex_char (n mod 16)]
     else [c])"

definition json_str :: "string \<Rightarrow> string" where
  "json_str s = CHR 0x22 # concat (map json_char s) @ [CHR 0x22]"

fun json_float :: "pyfloat \<Rightarrow> string" where
  "json_float (FFin _ r) = r"
| "json_float FNan = ''NaN''"
| "json_float (FInf neg) = (if neg then ''-Infinity'' else ''Infinity'')"

fun json_text :: "pyval \<Rightarrow> string" where
  "json_text PNone = ''null''"
| "json_text (PBool b) = (if b then ''true'' else ''false'')"
| "json_text (PInt i) = int_str i"
| "json_text (PFloat f) = json_float f"
| "json_text (PStr s) = json_str s"
| "json_text (PList xs) = ''['' @ join '','' (map json_text xs) @ '']''"
| "json_text (PDict d) = ''{'' @ join '','' (map (\<lambda>kv. json_str (fst kv) @ '':'' @ json_text (snd kv)) d) @ ''}''"

definition json_dumps :: "pyval \<Rightarrow> string" where
  "json_dumps v = json_text (sort_keys v)"

text \<open>\<open>d.update(items)\<close>, and the dictionary a comprehension over \<open>items\<close> builds.\<close>

definition dupdate :: "('k \<times> 'v) list \<Rightarrow> ('k \<times> 'v) list \<Rightarrow> ('k \<times> 'v) list" where
  "dupdate d items = fold (\<lambda>kv. AList.update (fst kv) (snd kv)) items d"

section \<open>Numbers\<close>

fun dec_digits :: "nat \<Rightarrow> string \<Rightarrow> nat option" where
  "dec_digits acc [] = Some acc"
| "dec_digits acc (c # cs) =
     (if is_digit c then dec_digits (10 * acc + digit_val c) cs
      else if c = CHR ''_'' \<and> cs \<noteq> [] \<and> is_digit (hd cs) then dec_digits acc cs
      else None)"

text \<open>
  \<open>int(s)\<close>: surrounding white space, one sign, digits with single underscores between
  them, at most 4300 digits (the interpreter's limit).
\<close>

definition int_of_str :: "string \<Rightarrow> int option" where
  "int_of_str s =
     (let t = py_strip s;
          neg = (t \<noteq> [] \<and> hd t = CHR ''-'');
          body = (if t \<noteq> [] \<and> (hd t = CHR ''-'' \<or> hd t = CHR ''+'') then tl t else t)
      in if body \<noteq> [] \<and> is_digit (hd body) \<and> length (filter is_digit body) \<le> 4300
         then map_option (\<lambda>n. if neg then - int n else int n) (dec_digits 0 body)
         else None)"

definition rat_trunc :: "rat \<Rightarrow> int" where
  "rat_trunc q = (if 0 \<le> q then floor q else ceiling q)"

fun py_int :: "pyval \<Rightarrow> pyexc + int" where
  "py_int PNone = Inl (TypeError [])"
| "py_int (PBool b) = Inr (if b then 1 else 0)"
| "py_int (PInt i) = Inr i"
| "py_int (PFloat (FFin q _)) = Inr (rat_trunc q)"
| "py_int (PFloat FNan) = Inl (ValueError [])"
| "py_int (PFloat (FInf _)) = Inl (OverflowError [])"
| "py_int (PStr s) = (case int_of_str s of None \<Rightarrow> Inl (ValueError []) | Some i \<Rightarrow> Inr i)"
| "py_int (PList _) = Inl (TypeError [])"
| "py_int (PDict _) = Inl (TypeError [])"

section \<open>Sequences\<close>

text \<open>\<open>dict.fromkeys\<close> used as an order-preserving duplicate remover.\<close>

fun dedup :: "'a list \<Rightarrow> 'a list" where
  "dedup [] = []"
| "dedup (x # xs) = x # filter (\<lambda>y. y \<noteq> x) (dedup xs)"

text \<open>\<open>xs[-n:]\<close> for \<open>n > 0\<close>: the newest \<open>n\<close> elements.\<close>

definition lastn :: "nat \<Rightarrow> 'a list \<Rightarrow> 'a list" where
  "lastn n xs = drop (length xs - n) xs"

section \<open>Lemmas\<close>

lemma ebind_simps [simp]:
  "ebind (Inl e) f = Inl e"
  "ebind (Inr a) f = f a"
  by (simp_all add: ebind_def)

lemma ebind_Inr_iff: "ebind r f = Inr b \<longleftrightarrow> (\<exists>a. r = Inr a \<and> f a = Inr b)"
  by (cases r) auto

lemma ebind_Inl_iff: "ebind r f = Inl e \<longleftrightarrow> r = Inl e \<or> (\<exists>a. r = Inr a \<and> f a = Inl e)"
  by (cases r) auto

lemma set_dedup [simp]: "set (dedup xs) = set xs"
  by (induction xs) auto

lemma distinct_dedup [simp]: "distinct (dedup xs)"
  by (induction xs) auto

lemma dedup_eq_Nil [simp]: "dedup xs = [] \<longleftrightarrow> xs = []"
  by (cases xs) auto

lemma dedup_distinct: "distinct xs \<Longrightarrow> dedup xs = xs"
proof (induction xs)
  case (Cons x xs)
  then have "filter (\<lambda>y. y \<noteq> x) xs = xs" by (auto simp: filter_id_conv)
  with Cons show ?case by simp
qed simp

lemma sort_eq_Nil [simp]: "sort xs = [] \<longleftrightarrow> xs = []"
  by (metis length_0_conv length_sort)

lemma length_lastn [simp]: "length (lastn n xs) = min n (length xs)"
  by (auto simp: lastn_def)

lemma set_lastn: "set (lastn n xs) \<subseteq> set xs"
  by (simp add: lastn_def set_drop_subset)

lemma lastn_all: "length xs \<le> n \<Longrightarrow> lastn n xs = xs"
  by (simp add: lastn_def)

lemma digit_char_inj: "m < 10 \<Longrightarrow> n < 10 \<Longrightarrow> digit_char m = digit_char n \<longleftrightarrow> m = n"
proof -
  assume *: "m < 10" "n < 10"
  have "of_char (digit_char k) = 48 + k" if "k < 10" for k :: nat
    using that by (simp add: digit_char_def)
  with * show ?thesis by (metis add_left_cancel)
qed

lemma digit_char_is_digit: "n < 10 \<Longrightarrow> is_digit (digit_char n)"
  by (simp add: is_digit_def digit_char_def)

lemma nat_str_nonempty [simp]: "nat_str n \<noteq> []"
  by (subst nat_str.simps) simp

lemma nat_str_digits: "c \<in> set (nat_str n) \<Longrightarrow> is_digit c"
proof (induction n rule: nat_str.induct)
  case (1 n)
  show ?case
  proof (cases "n < 10")
    case True
    with "1.prems" show ?thesis by (simp add: nat_str.simps [of n] digit_char_is_digit)
  next
    case False
    with "1" show ?thesis by (auto simp: nat_str.simps [of n] digit_char_is_digit)
  qed
qed

lemma nat_str_inj: "nat_str m = nat_str n \<longleftrightarrow> m = n"
proof (induction m arbitrary: n rule: nat_str.induct)
  case (1 m)
  have single: "nat_str k = [c] \<Longrightarrow> k < 10" for k c
    by (subst (asm) nat_str.simps) (auto split: if_splits)
  show ?case
  proof (cases "m < 10")
    case True
    show ?thesis
    proof (cases "n < 10")
      case True
      with \<open>m < 10\<close> show ?thesis by (simp add: nat_str.simps [of m] nat_str.simps [of n] digit_char_inj)
    next
      case False
      have "nat_str m = [digit_char m]" using True by (simp add: nat_str.simps [of m])
      with single [of n "digit_char m"] False True show ?thesis by auto
    qed
  next
    case False
    show ?thesis
    proof (cases "n < 10")
      case True
      have "nat_str n = [digit_char n]" using True by (simp add: nat_str.simps [of n])
      with single [of m "digit_char n"] False True show ?thesis by auto
    next
      case nf: False
      have "nat_str m = nat_str n \<longleftrightarrow>
          nat_str (m div 10) = nat_str (n div 10) \<and> digit_char (m mod 10) = digit_char (n mod 10)"
        using False nf by (simp add: nat_str.simps [of m] nat_str.simps [of n])
      also have "\<dots> \<longleftrightarrow> m div 10 = n div 10 \<and> m mod 10 = n mod 10"
        using "1.IH" [OF False, of "n div 10"] by (simp add: digit_char_inj)
      also have "\<dots> \<longleftrightarrow> m = n" by (metis div_mult_mod_eq)
      finally show ?thesis .
    qed
  qed
qed

lemma dget_Nil [dict_simps]: "dget [] k = PNone"
  by (simp add: dget_def)

lemma dget_Cons [dict_simps]: "dget ((k', v) # d) k = (if k = k' then v else dget d k)"
  by (auto simp: dget_def)

lemma has_key_map_of: "has_key d k \<longleftrightarrow> map_of d k \<noteq> None"
  by (auto simp: has_key_def dom_map_of_conv_image_fst [symmetric])

lemma map_of_update [dict_simps]: "map_of (AList.update k v d) k' = (if k' = k then Some v else map_of d k')"
  by (simp add: update_conv' fun_upd_def)

lemma map_of_delete [dict_simps]: "map_of (AList.delete k d) k' = (if k' = k then None else map_of d k')"
  by (simp add: delete_conv' fun_upd_def)

lemma dupdate_simps [dict_simps]:
  "dupdate d [] = d"
  "dupdate d ((k, v) # items) = dupdate (AList.update k v d) items"
  by (simp_all add: dupdate_def)

lemma map_of_dupdate: "map_of (dupdate d items) k = (case map_of (rev items) k of None \<Rightarrow> map_of d k | Some v \<Rightarrow> Some v)"
  by (induction items arbitrary: d) (auto simp: dict_simps map_add_def split: option.splits)

lemma update_new: "k \<notin> fst ` set d \<Longrightarrow> AList.update k v d = d @ [(k, v)]"
  by (induction d) auto

lemma delete_update_new: "k \<notin> fst ` set d \<Longrightarrow> AList.delete k (AList.update k v d) = d"
  by (induction d) (auto simp: AList.delete_eq filter_id_conv)

lemma keys_update: "fst ` set (AList.update k v d) = insert k (fst ` set d)"
  by (simp add: dom_map_of_conv_image_fst [symmetric] update_conv' fun_upd_def dom_if) auto

lemma keys_delete: "fst ` set (AList.delete k d) = fst ` set d - {k}"
  by (auto simp: AList.delete_eq)

lemma distinct_update_keys: "distinct (map fst d) \<Longrightarrow> distinct (map fst (AList.update k v d))"
  by (rule distinct_update)

lemma distinct_delete_keys: "distinct (map fst d) \<Longrightarrow> distinct (map fst (AList.delete k d))"
  by (rule distinct_delete)

lemma in_set_map_of: "distinct (map fst d) \<Longrightarrow> (k, v) \<in> set d \<longleftrightarrow> map_of d k = Some v"
  by simp

lemma dget_update [dict_simps]: "dget (AList.update k v d) k' = (if k' = k then v else dget d k')"
  by (simp add: dget_def map_of_update)

lemma map_of_sort_key:
  assumes "distinct (map fst d)"
  shows "map_of (sort_key fst d) = map_of d"
proof -
  from assms have "distinct (map fst (sort_key fst d))" by (simp add: distinct_map)
  with assms show ?thesis by (intro map_of_inject_set [THEN iffD2]) simp_all
qed

lemma dget_sort_key: "distinct (map fst d) \<Longrightarrow> dget (sort_key fst d) k = dget d k"
  by (simp add: dget_def map_of_sort_key)

lemma map_of_map_snd: "map_of (map (\<lambda>kv. (fst kv, f (snd kv))) d) k = map_option f (map_of d k)"
  by (induction d) auto

lemma map_fst_map_snd: "map fst (map (\<lambda>kv. (fst kv, f (snd kv))) d) = map fst d"
  by simp

lemma distinct_sort_key: "distinct (map fst d) \<Longrightarrow> distinct (map fst (sort_key fst d))"
  by (simp add: distinct_map)

lemma filter_notin_take:
  "distinct xs \<Longrightarrow> filter (\<lambda>x. x \<notin> set (take n xs)) xs = drop n xs"
proof (induction xs arbitrary: n)
  case (Cons x xs)
  show ?case
  proof (cases n)
    case (Suc m)
    have "filter (\<lambda>y. y \<notin> set (take n (x # xs))) (x # xs) = filter (\<lambda>y. y \<notin> set (take m xs)) xs"
      using Cons.prems Suc by (auto intro: filter_cong)
    with Cons Suc show ?thesis by simp
  qed simp
qed simp

section \<open>Reachable states\<close>

text \<open>
  The states a component reaches from its initial ones, and the proof rule for invariants. Each
  state machine of the development interprets the locale with its own step relation.
\<close>

inductive reach :: "('s \<Rightarrow> bool) \<Rightarrow> ('s \<Rightarrow> 's \<Rightarrow> bool) \<Rightarrow> 's \<Rightarrow> bool" for init step where
  reach_init: "init s \<Longrightarrow> reach init step s"
| reach_step: "reach init step s \<Longrightarrow> step s s' \<Longrightarrow> reach init step s'"

locale invariant_system =
  fixes init :: "'s \<Rightarrow> bool"
    and step :: "'s \<Rightarrow> 's \<Rightarrow> bool"
    and inv :: "'s \<Rightarrow> bool"
  assumes inv_init: "init s \<Longrightarrow> inv s"
    and inv_step: "inv s \<Longrightarrow> step s s' \<Longrightarrow> inv s'"
begin

lemma reach_inv: "reach init step s \<Longrightarrow> inv s"
  by (induction rule: reach.induct) (auto intro: inv_init inv_step)

end

section \<open>Bounded logs\<close>

text \<open>
  Appending to a list that keeps the newest entries, the pattern of the audit lists and of
  \<open>deque(maxlen=n)\<close>. A component that logs this way interprets the locale with its own
  state, its capacity and its append operation.
\<close>

definition push_bounded :: "nat \<Rightarrow> 'a \<Rightarrow> 'a list \<Rightarrow> 'a list" where
  "push_bounded n x xs = lastn n (xs @ [x])"

lemma push_bounded_room: "length xs < n \<Longrightarrow> push_bounded n x xs = xs @ [x]"
  by (simp add: push_bounded_def lastn_all)

lemma push_bounded_full: "length xs = n \<Longrightarrow> push_bounded n x xs = tl (xs @ [x])"
  by (cases xs) (simp_all add: push_bounded_def lastn_def)

lemma lastn_append_lastn: "lastn n (lastn n xs @ ys) = lastn n (xs @ ys)"
proof (cases "length xs \<le> n")
  case True
  then show ?thesis by (simp add: lastn_all)
next
  case False
  then have "length xs + length ys - n = (length xs - n) + length ys" by simp
  with False show ?thesis by (simp add: lastn_def add.commute)
qed

locale bounded_log =
  fixes rows :: "'s \<Rightarrow> 'a list"
    and cap :: "'s \<Rightarrow> nat"
    and row :: "'s \<Rightarrow> 'e \<Rightarrow> 'a"
    and push :: "'e \<Rightarrow> 's \<Rightarrow> 's"
  assumes rows_push: "length (rows s) \<le> cap s \<Longrightarrow> rows (push e s) = push_bounded (cap s) (row s e) (rows s)"
    and cap_push: "cap (push e s) = cap s"
begin

lemma push_keeps_bound: "length (rows s) \<le> cap s \<Longrightarrow> length (rows (push e s)) \<le> cap s"
  by (simp add: rows_push push_bounded_def)

lemma pushes_bounded: "length (rows s) \<le> cap s \<Longrightarrow> length (rows (fold push es s)) \<le> cap s"
proof (induction es arbitrary: s)
  case (Cons e es)
  have "length (rows (push e s)) \<le> cap (push e s)" using push_keeps_bound [OF Cons.prems] by (simp add: cap_push)
  from Cons.IH [OF this] show ?case by (simp add: cap_push)
qed simp

lemma newest_kept: "length (rows s) \<le> cap s \<Longrightarrow> 0 < cap s \<Longrightarrow> last (rows (push e s)) = row s e"
  by (simp add: rows_push push_bounded_def lastn_def last_drop)

lemma rows_only_age: "length (rows s) \<le> cap s \<Longrightarrow> \<exists>k new. rows (fold push es s) = drop k (rows s) @ new"
proof (induction es arbitrary: s)
  case Nil
  show ?case by (intro exI [of _ 0] exI [of _ "[]"]) simp
next
  case (Cons e es)
  have "length (rows (push e s)) \<le> cap (push e s)" using push_keeps_bound [OF Cons.prems] by (simp add: cap_push)
  from Cons.IH [OF this] obtain k new where *: "rows (fold push es (push e s)) = drop k (rows (push e s)) @ new" by blast
  obtain j where "rows (push e s) = drop j (rows s @ [row s e])"
    using rows_push [OF Cons.prems, of e] unfolding push_bounded_def lastn_def by blast
  with * have "rows (fold push (e # es) s) = drop (k + j) (rows s @ [row s e]) @ new" by (simp del: drop_append)
  then have "rows (fold push (e # es) s) = drop (k + j) (rows s) @ drop (k + j - length (rows s)) [row s e] @ new" by simp
  then show ?case by blast
qed

end

end
