(* ===== verification/Arbiter.thy ===== *)
theory Arbiter
  imports Prelude
begin

text \<open>
  The action arbiter (\<open>py/azazel_edge/arbiter/action.py\<close>): a policy read from a partly
  untrusted mapping, and \<open>decide\<close>, which turns a NOC and a SOC evaluation (and an optional
  client impact) into one of five actions with its evidence, the alternatives it rejected
  and an audit trace. SHA-256 is the parameter \<open>sha256\<close> (hex digest of a text).
\<close>

section \<open>Data\<close>

datatype action = Observe | Notify | Throttle | Redirect | Isolate

fun action_name :: "action \<Rightarrow> string" where
  "action_name Observe = ''observe''"
| "action_name Notify = ''notify''"
| "action_name Throttle = ''throttle''"
| "action_name Redirect = ''redirect''"
| "action_name Isolate = ''isolate''"

record profile =
  reversible :: bool
  approval_required :: bool
  audited :: bool
  effect :: string
  mode :: string

definition ACTION_PROFILES :: "(string \<times> profile) list" where
  "ACTION_PROFILES =
    [(''observe'', \<lparr>reversible = True, approval_required = False, audited = True,
        effect = ''visibility_only'', mode = ''passive''\<rparr>),
     (''notify'', \<lparr>reversible = True, approval_required = False, audited = True,
        effect = ''operator_notification'', mode = ''human_loop''\<rparr>),
     (''throttle'', \<lparr>reversible = True, approval_required = True, audited = True,
        effect = ''traffic_shaping'', mode = ''bounded_control''\<rparr>),
     (''redirect'', \<lparr>reversible = True, approval_required = True, audited = True,
        effect = ''controlled_redirect'', mode = ''bounded_control''\<rparr>),
     (''isolate'', \<lparr>reversible = True, approval_required = True, audited = True,
        effect = ''segment_isolation'', mode = ''high_risk_control''\<rparr>)]"

definition REQUIRED_NOC_KEYS :: "string list" where
  "REQUIRED_NOC_KEYS = [''availability'', ''path_health'', ''device_health'', ''client_health'', ''summary'', ''evidence_ids'']"

definition REQUIRED_SOC_KEYS :: "string list" where
  "REQUIRED_SOC_KEYS = [''suspicion'', ''confidence'', ''technique_likelihood'', ''blast_radius'', ''summary'', ''evidence_ids'']"

definition FRAGILE_LABELS :: "string list" where
  "FRAGILE_LABELS = [''poor'', ''critical'', ''unknown'']"

record gate =
  suspicion_min :: int
  confidence_min :: int
  blast_min :: int

record policy =
  version :: string
  policy_notes :: string
  gate_isolate :: gate
  gate_redirect :: gate
  throttle_confidence_min :: int
  throttle_blast_min :: int
  strong_soc_confidence_min :: int

record arbiter =
  arb_policy :: policy
  policy_hash :: string

record trace =
  selected_action :: action
  selected_reason :: string
  tr_noc_fragile :: bool
  tr_strong_soc :: bool
  availability_label :: string
  path_label :: string
  device_label :: string
  capacity_label :: string
  client_inventory_label :: string
  config_drift_label :: string
  suspicion_label :: string
  suspicion_score :: int
  confidence_score :: int
  blast_score :: int
  client_impact_score :: int
  critical_client_count :: int
  safety_profile :: profile

record decision =
  act :: action
  reason :: string
  control_mode :: string
  release_condition :: string
  chosen_evidence_ids :: "string list"
  rejected_alternatives :: "(action \<times> string) list"
  client_impact :: pyval
  act_profile :: profile
  decision_trace :: trace
  policy_version :: string
  policy_digest :: string

section \<open>Operations\<close>

definition to_int :: "pyval \<Rightarrow> int \<Rightarrow> int" where
  "to_int v dflt = (case py_int v of Inl _ \<Rightarrow> dflt | Inr i \<Rightarrow> i)"

text \<open>\<open>(action_mapping.get(name) or {}).get(field)\<close>: a truthy section that is no mapping has no \<open>get\<close>.\<close>

definition mapping_int :: "pydict \<Rightarrow> string \<Rightarrow> string \<Rightarrow> int \<Rightarrow> pyexc + int" where
  "mapping_int m name field dflt =
     (case py_or (dget m name) (PDict []) of
        PDict d \<Rightarrow> Inr (to_int (dget d field) dflt)
      | _ \<Rightarrow> Inl (AttributeError []))"

definition mapping_gate :: "pydict \<Rightarrow> string \<Rightarrow> int \<Rightarrow> int \<Rightarrow> int \<Rightarrow> pyexc + gate" where
  "mapping_gate m name s c b =
     ebind (mapping_int m name ''suspicion_min'' s) (\<lambda>s'.
     ebind (mapping_int m name ''confidence_min'' c) (\<lambda>c'.
     ebind (mapping_int m name ''blast_min'' b) (\<lambda>b'.
     Inr \<lparr>suspicion_min = s', confidence_min = c', blast_min = b'\<rparr>)))"

fun gate_dict :: "gate \<Rightarrow> pyval" where
  "gate_dict g = PDict [(''suspicion_min'', PInt (suspicion_min g)),
     (''confidence_min'', PInt (confidence_min g)), (''blast_min'', PInt (blast_min g))]"

text \<open>The dictionary \<open>self.policy\<close>, whose \<open>str\<close> is hashed.\<close>

definition policy_dict :: "policy \<Rightarrow> pyval" where
  "policy_dict p = PDict
     [(''version'', PStr (version p)), (''notes'', PStr (policy_notes p)),
      (''action_mapping'', PDict
        [(''isolate'', gate_dict (gate_isolate p)),
         (''redirect'', gate_dict (gate_redirect p)),
         (''throttle'', PDict [(''confidence_min'', PInt (throttle_confidence_min p)),
            (''blast_min'', PInt (throttle_blast_min p))]),
         (''strong_soc'', PDict [(''confidence_min'', PInt (strong_soc_confidence_min p))])])]"

definition init_arbiter :: "(string \<Rightarrow> string) \<Rightarrow> pyval \<Rightarrow> pyexc + arbiter" where
  "init_arbiter sha256 pol =
     (let base = dict_of pol;
          m = dict_of (dget base ''action_mapping'')
      in ebind (mapping_gate m ''isolate'' 95 90 80) (\<lambda>gi.
         ebind (mapping_gate m ''redirect'' 90 80 70) (\<lambda>gr.
         ebind (mapping_int m ''throttle'' ''confidence_min'' 60) (\<lambda>tc.
         ebind (mapping_int m ''throttle'' ''blast_min'' 40) (\<lambda>tb.
         ebind (mapping_int m ''strong_soc'' ''confidence_min'' 60) (\<lambda>sc.
         let p = \<lparr>version = py_str (py_or (dget base ''version'') (PStr ''soc-policy-v1'')),
                  policy_notes = py_str (py_or (dget base ''notes'') (PStr [])),
                  gate_isolate = gi, gate_redirect = gr, throttle_confidence_min = tc,
                  throttle_blast_min = tb, strong_soc_confidence_min = sc\<rparr>
         in Inr \<lparr>arb_policy = p, policy_hash = take 16 (sha256 (py_str (policy_dict p)))\<rparr>))))))"

fun release_condition_of :: "action \<Rightarrow> string" where
  "release_condition_of Throttle = ''no_repeated_failures_for_300_seconds''"
| "release_condition_of Redirect = ''no_repeated_failures_for_300_seconds''"
| "release_condition_of Isolate = ''manual_review_and_no_high_risk_signals_for_600_seconds''"
| "release_condition_of Notify = ''operator_acknowledged_or_signal_stabilized''"
| "release_condition_of Observe = ''observe_only_no_control_applied''"

definition validate_schema :: "pyval \<Rightarrow> string list \<Rightarrow> string \<Rightarrow> pyexc + pydict" where
  "validate_schema payload required name =
     (case payload of
        PDict d \<Rightarrow>
          (let missing = sort (filter (\<lambda>k. \<not> has_key d k) required)
           in if missing \<noteq> [] then Inl (ValueError (name @ ''_missing_keys:'' @ join '','' missing)) else Inr d)
      | _ \<Rightarrow> Inl (ValueError (name @ ''_input_not_dict'')))"

definition section_of :: "pydict \<Rightarrow> string \<Rightarrow> pydict" where
  "section_of source key = dict_of (dget source key)"

definition health_label :: "pydict \<Rightarrow> string \<Rightarrow> string" where
  "health_label source key =
     (let label = dget (section_of source key) ''label'' in if truthy label then py_str label else ''unknown'')"

fun list_items :: "pyval \<Rightarrow> pyval list" where
  "list_items (PList xs) = xs"
| "list_items _ = []"

definition evidence_ids :: "pydict \<Rightarrow> string \<Rightarrow> pyval list" where
  "evidence_ids source key = list_items (dget (section_of source key) ''evidence_ids'')"

definition chosen_candidates :: "action \<Rightarrow> pydict \<Rightarrow> pydict \<Rightarrow> pyval list" where
  "chosen_candidates a noc soc =
     (case a of
        Observe \<Rightarrow> list_items (dget noc ''evidence_ids'') @ list_items (dget soc ''evidence_ids'')
      | Notify \<Rightarrow>
          concat (map (evidence_ids noc)
            [''availability'', ''path_health'', ''device_health'', ''capacity_health'',
             ''client_inventory_health'', ''config_drift_health''])
          @ evidence_ids soc ''suspicion''
      | _ \<Rightarrow>
          evidence_ids soc ''suspicion'' @ evidence_ids soc ''blast_radius''
          @ evidence_ids noc ''availability'' @ evidence_ids noc ''path_health''
          @ evidence_ids noc ''capacity_health'' @ evidence_ids noc ''client_inventory_health''
          @ evidence_ids noc ''config_drift_health'')"

definition chosen_ids :: "action \<Rightarrow> pydict \<Rightarrow> pydict \<Rightarrow> string list" where
  "chosen_ids a noc soc = sort (dedup (filter (\<lambda>s. s \<noteq> []) (map py_str (chosen_candidates a noc soc))))"

definition rejected_of :: "action \<Rightarrow> bool \<Rightarrow> bool \<Rightarrow> int \<Rightarrow> (action \<times> string) list" where
  "rejected_of a fragile strong blast =
     (if a \<noteq> Observe then
        [(Observe, if strong then ''insufficient_response_for_detected_threat''
                   else ''deferred_to_higher_visibility_action'')] else [])
     @ (if a \<noteq> Notify then
        [(Notify, if fragile \<and> strong then ''control_path_was_not_safe_due_to_availability_risk''
                  else ''operator_notification_not_primary_choice'')] else [])
     @ (if a \<noteq> Throttle then
          (if \<not> strong then [(Throttle, ''threat_signal_not_strong_enough'')]
           else if fragile then [(Throttle, ''availability_risk_too_high'')]
           else if blast < 40 then [(Throttle, ''blast_radius_too_small_for_control'')]
           else []) else [])
     @ (if a \<noteq> Redirect then
        [(Redirect, if \<not> strong then ''threat_signal_not_strong_enough''
                    else if fragile then ''availability_risk_too_high''
                    else ''redirect_gate_not_satisfied'')] else [])
     @ (if a \<noteq> Isolate then
        [(Isolate, if \<not> strong then ''threat_signal_not_strong_enough''
                   else if fragile then ''availability_risk_too_high''
                   else ''isolate_gate_not_satisfied'')] else [])"

definition action_profile :: "string \<Rightarrow> profile" where
  "action_profile name =
     (let key = (if name = [] then ''observe'' else name)
      in case map_of ACTION_PROFILES key of
           Some p \<Rightarrow> p
         | None \<Rightarrow> the (map_of ACTION_PROFILES ''observe''))"

definition decision_trace_of ::
    "pydict \<Rightarrow> pydict \<Rightarrow> action \<Rightarrow> string \<Rightarrow> bool \<Rightarrow> bool \<Rightarrow> int \<Rightarrow> int \<Rightarrow> pyval \<Rightarrow> pyexc + trace" where
  "decision_trace_of noc soc a rsn fragile strong blast conf impact =
     (case py_or impact (PDict []) of
        PDict ci \<Rightarrow> Inr
          \<lparr>selected_action = a, selected_reason = rsn, tr_noc_fragile = fragile, tr_strong_soc = strong,
           availability_label = health_label noc ''availability'',
           path_label = health_label noc ''path_health'',
           device_label = health_label noc ''device_health'',
           capacity_label = health_label noc ''capacity_health'',
           client_inventory_label = health_label noc ''client_inventory_health'',
           config_drift_label = health_label noc ''config_drift_health'',
           suspicion_label = py_str (py_or (dget (section_of soc ''suspicion'') ''label'') (PStr ''unknown'')),
           suspicion_score = to_int (dget (section_of soc ''suspicion'') ''score'') 0,
           confidence_score = conf,
           blast_score = blast,
           client_impact_score = to_int (dget ci ''score'') 0,
           critical_client_count = to_int (dget ci ''critical_client_count'') 0,
           safety_profile = action_profile (action_name a)\<rparr>
      | _ \<Rightarrow> Inl (AttributeError []))"

definition noc_fragile :: "pydict \<Rightarrow> bool" where
  "noc_fragile noc =
     (health_label noc ''availability'' \<in> set FRAGILE_LABELS
      \<or> health_label noc ''path_health'' \<in> set FRAGILE_LABELS
      \<or> health_label noc ''device_health'' \<in> set FRAGILE_LABELS)"

definition strong_soc :: "policy \<Rightarrow> string \<Rightarrow> int \<Rightarrow> bool" where
  "strong_soc p label conf \<longleftrightarrow> label \<in> {''high'', ''critical''} \<and> conf \<ge> strong_soc_confidence_min p"

definition gate_open :: "gate \<Rightarrow> int \<Rightarrow> int \<Rightarrow> int \<Rightarrow> bool" where
  "gate_open g susp conf blast \<longleftrightarrow> susp \<ge> suspicion_min g \<and> conf \<ge> confidence_min g \<and> blast \<ge> blast_min g"

text \<open>The \<open>if\<close>/\<open>elif\<close> chain of \<open>decide\<close>: action, reason and control mode before the client-impact check.\<close>

definition select_action :: "policy \<Rightarrow> bool \<Rightarrow> bool \<Rightarrow> int \<Rightarrow> int \<Rightarrow> int \<Rightarrow> action \<times> string \<times> string" where
  "select_action p fragile strong susp conf blast =
     (if strong \<and> \<not> fragile \<and> gate_open (gate_isolate p) susp conf blast
      then (Isolate, ''soc_extreme_and_target_is_narrow_enough'', ''segment_isolation'')
      else if strong \<and> \<not> fragile \<and> gate_open (gate_redirect p) susp conf blast
      then (Redirect, ''soc_high_confidence_redirect_is_preferred'', ''opencanary_redirect'')
      else if strong \<and> \<not> fragile \<and> conf \<ge> throttle_confidence_min p \<and> blast \<ge> throttle_blast_min p
      then (Throttle, ''soc_high_and_reversible_control_is_safe'', ''route_preference'')
      else if strong then (Notify, ''soc_high_but_noc_fragile'', ''none'')
      else if fragile then (Notify, ''noc_degraded_requires_operator_attention'', ''none'')
      else (Observe, ''baseline'', ''none''))"

fun is_control :: "action \<Rightarrow> bool" where
  "is_control Throttle = True"
| "is_control Redirect = True"
| "is_control Isolate = True"
| "is_control _ = False"

text \<open>The client-impact check: an impact that cannot be read as a number raises.\<close>

definition impact_check :: "pyval \<Rightarrow> action \<times> string \<times> string \<Rightarrow> pyexc + (action \<times> string \<times> string)" where
  "impact_check impact sel =
     (case (is_control (fst sel), impact) of
        (True, PDict ci) \<Rightarrow>
          ebind (py_int (py_or (dget ci ''score'') (PInt 0))) (\<lambda>score.
          ebind (py_int (py_or (dget ci ''critical_client_count'') (PInt 0))) (\<lambda>critical.
          Inr (if score \<ge> 70 \<or> critical > 0
               then (Notify, ''client_impact_too_high_for_control'', ''none'') else sel)))
      | _ \<Rightarrow> Inr sel)"

definition soc_score :: "pydict \<Rightarrow> string \<Rightarrow> int" where
  "soc_score soc key = to_int (dget (section_of soc key) ''score'') 0"

definition soc_label :: "pydict \<Rightarrow> string" where
  "soc_label soc = py_str (py_or (dget (section_of soc ''suspicion'') ''label'') (PStr ''low''))"

definition is_strong :: "arbiter \<Rightarrow> pydict \<Rightarrow> bool" where
  "is_strong self soc = strong_soc (arb_policy self) (soc_label soc) (soc_score soc ''confidence'')"

definition selection :: "arbiter \<Rightarrow> pydict \<Rightarrow> pydict \<Rightarrow> action \<times> string \<times> string" where
  "selection self noc soc = select_action (arb_policy self) (noc_fragile noc) (is_strong self soc)
     (soc_score soc ''suspicion'') (soc_score soc ''confidence'') (soc_score soc ''blast_radius'')"

definition decide :: "arbiter \<Rightarrow> pyval \<Rightarrow> pyval \<Rightarrow> pyval \<Rightarrow> pyexc + decision" where
  "decide self noc_in soc_in impact =
     ebind (validate_schema noc_in REQUIRED_NOC_KEYS ''noc'') (\<lambda>noc.
     ebind (validate_schema soc_in REQUIRED_SOC_KEYS ''soc'') (\<lambda>soc.
     ebind (impact_check impact (selection self noc soc)) (\<lambda>(a, rsn, cm).
     ebind (decision_trace_of noc soc a rsn (noc_fragile noc) (is_strong self soc)
              (soc_score soc ''blast_radius'') (soc_score soc ''confidence'') impact) (\<lambda>tr.
     Inr \<lparr>act = a, reason = rsn, control_mode = cm, release_condition = release_condition_of a,
          chosen_evidence_ids = chosen_ids a noc soc,
          rejected_alternatives =
            rejected_of a (noc_fragile noc) (is_strong self soc) (soc_score soc ''blast_radius''),
          client_impact = py_or impact (PDict []),
          act_profile = action_profile (action_name a),
          decision_trace = tr,
          policy_version = version (arb_policy self), policy_digest = policy_hash self\<rparr>))))"

text \<open>The shipped policy and small evaluations, used where a property is evaluated.\<close>

definition default_arbiter :: arbiter where
  "default_arbiter = \<lparr>arb_policy = \<lparr>version = ''soc-policy-v1'', policy_notes = [],
      gate_isolate = \<lparr>suspicion_min = 95, confidence_min = 90, blast_min = 80\<rparr>,
      gate_redirect = \<lparr>suspicion_min = 90, confidence_min = 80, blast_min = 70\<rparr>,
      throttle_confidence_min = 60, throttle_blast_min = 40, strong_soc_confidence_min = 60\<rparr>,
     policy_hash = ''00''\<rparr>"

definition ex_noc :: "pyval \<Rightarrow> pydict" where
  "ex_noc avail = [(''availability'', avail),
     (''path_health'', PDict [(''label'', PStr ''good''), (''evidence_ids'', PList [PStr ''n2'', PStr ''n1''])]),
     (''device_health'', PDict [(''label'', PStr ''good'')]), (''client_health'', PNone),
     (''summary'', PNone), (''evidence_ids'', PList [])]"

definition ex_soc :: "int \<Rightarrow> int \<Rightarrow> int \<Rightarrow> pydict" where
  "ex_soc susp conf blast = [(''suspicion'', PDict [(''label'', PStr ''critical''), (''score'', PInt susp),
       (''evidence_ids'', PList [PStr ''s1'', PStr ''n1''])]),
     (''confidence'', PDict [(''score'', PInt conf)]), (''technique_likelihood'', PNone),
     (''blast_radius'', PDict [(''score'', PInt blast)]), (''summary'', PNone), (''evidence_ids'', PList [])]"

definition good_health :: pyval where
  "good_health = PDict [(''label'', PStr ''good'')]"

section \<open>Lemmas\<close>

lemmas decide_splits = ebind_Inr_iff Let_def split_def

lemma to_int_PInt [simp]: "to_int (PInt i) d = i"
  by (simp add: to_int_def)

lemma validate_schema_Inr:
  "validate_schema v req name = Inr d \<longleftrightarrow> v = PDict d \<and> (\<forall>k\<in>set req. has_key d k)"
  by (auto simp: validate_schema_def Let_def filter_empty_conv split: pyval.splits if_splits)

lemma validate_schema_Inl:
  "validate_schema v req name = Inl e \<Longrightarrow> \<exists>msg. e = ValueError (name @ msg)"
  by (auto simp: validate_schema_def Let_def split: pyval.splits if_splits)

lemma health_label_falsy: "\<not> truthy (dget (section_of noc key) ''label'') \<Longrightarrow> health_label noc key = ''unknown''"
  by (simp add: health_label_def)

lemma section_not_dict: "\<not> is_dict (dget noc key) \<Longrightarrow> section_of noc key = []"
  by (cases "dget noc key") (auto simp: section_of_def)

lemma select_action_fragile: "\<exists>r. select_action p True strong s c b = (Notify, r, ''none'')"
  by (auto simp: select_action_def)

lemma select_action_mode: "\<not> is_control (fst (select_action p f st s c b)) \<Longrightarrow> snd (snd (select_action p f st s c b)) = ''none''"
  by (auto simp: select_action_def split: if_splits)

lemma impact_check_cases:
  "impact_check ci sel = Inr r \<Longrightarrow>
     r = sel \<or> is_control (fst sel) \<and> r = (Notify, ''client_impact_too_high_for_control'', ''none'')"
  by (auto simp: impact_check_def ebind_Inr_iff split: bool.splits pyval.splits if_splits)

lemma impact_check_no_dict: "\<not> is_dict ci \<Longrightarrow> impact_check ci sel = Inr sel"
  by (cases ci) (auto simp: impact_check_def split: bool.splits)

lemma impact_check_no_control: "\<not> is_control (fst sel) \<Longrightarrow> impact_check ci sel = Inr sel"
  by (simp add: impact_check_def)

lemma decide_inputs:
  assumes "decide self n s ci = Inr d"
  obtains noc soc where "n = PDict noc" "s = PDict soc"
    "validate_schema n REQUIRED_NOC_KEYS ''noc'' = Inr noc" "validate_schema s REQUIRED_SOC_KEYS ''soc'' = Inr soc"
  using assms by (auto simp: decide_def ebind_Inr_iff validate_schema_Inr)

lemma decide_facts:
  assumes "decide self (PDict noc) (PDict soc) ci = Inr d"
  shows "impact_check ci (selection self noc soc) = Inr (act d, reason d, control_mode d)"
    and "decision_trace_of noc soc (act d) (reason d) (noc_fragile noc) (is_strong self soc)
          (soc_score soc ''blast_radius'') (soc_score soc ''confidence'') ci = Inr (decision_trace d)"
    and "rejected_alternatives d =
          rejected_of (act d) (noc_fragile noc) (is_strong self soc) (soc_score soc ''blast_radius'')"
    and "chosen_evidence_ids d = chosen_ids (act d) noc soc"
    and "act_profile d = action_profile (action_name (act d))"
    and "release_condition d = release_condition_of (act d)"
  using assms by (auto simp: decide_def ebind_Inr_iff validate_schema_Inr split_def)

lemma decision_trace_fields:
  assumes "decision_trace_of noc soc a r f st b c ci = Inr tr"
  shows "selected_action tr = a" "selected_reason tr = r" "tr_noc_fragile tr = f" "tr_strong_soc tr = st"
    "availability_label tr = health_label noc ''availability''"
    "path_label tr = health_label noc ''path_health''"
    "device_label tr = health_label noc ''device_health''"
    "confidence_score tr = c" "blast_score tr = b"
    "suspicion_score tr = to_int (dget (section_of soc ''suspicion'') ''score'') 0"
    "safety_profile tr = action_profile (action_name a)"
  using assms by (auto simp: decision_trace_of_def split: pyval.splits)

lemma decision_trace_defined:
  "is_dict (py_or ci (PDict [])) \<Longrightarrow> \<exists>tr. decision_trace_of noc soc a r f st b c ci = Inr tr"
  by (cases "py_or ci (PDict [])") (auto simp: decision_trace_of_def)

lemma rejected_of_names:
  "map fst (rejected_of a f st b) =
     filter (\<lambda>x. x \<noteq> a \<and> (x = Throttle \<longrightarrow> \<not> st \<or> f \<or> b < 40)) [Observe, Notify, Throttle, Redirect, Isolate]"
  by (cases a) (auto simp: rejected_of_def)

fun rank :: "action \<Rightarrow> nat" where
  "rank Observe = 0"
| "rank Notify = 1"
| "rank Throttle = 2"
| "rank Redirect = 3"
| "rank Isolate = 4"

lemma gate_open_mono: "gate_open g s c b \<Longrightarrow> s \<le> s' \<Longrightarrow> c \<le> c' \<Longrightarrow> b \<le> b' \<Longrightarrow> gate_open g s' c' b'"
  by (auto simp: gate_open_def)

lemma strong_soc_mono: "strong_soc p l c \<Longrightarrow> c \<le> c' \<Longrightarrow> strong_soc p l c'"
  by (auto simp: strong_soc_def)

lemma decide_selected:
  assumes "decide self (PDict noc) (PDict soc) ci = Inr d" and "selection self noc soc = (a, r, m)"
  shows "act d = a \<and> reason d = r \<and> control_mode d = m \<or>
    is_control a \<and> act d = Notify \<and> reason d = ''client_impact_too_high_for_control'' \<and> control_mode d = ''none''"
  using impact_check_cases [OF decide_facts(1) [OF assms(1)]] assms(2) by auto

lemma selection_fragile: "noc_fragile noc \<Longrightarrow> \<exists>r. selection self noc soc = (Notify, r, ''none'')"
  by (simp add: selection_def select_action_fragile)

lemmas decide_eval = decide_def default_arbiter_def ex_noc_def ex_soc_def good_health_def validate_schema_def
  REQUIRED_NOC_KEYS_def REQUIRED_SOC_KEYS_def has_key_def selection_def select_action_def gate_open_def
  noc_fragile_def health_label_def section_of_def FRAGILE_LABELS_def is_strong_def strong_soc_def soc_score_def
  soc_label_def to_int_def impact_check_def decision_trace_of_def py_or_def dget_def chosen_ids_def
  chosen_candidates_def evidence_ids_def rejected_of_def action_profile_def ACTION_PROFILES_def

lemma select_action_control:
  assumes "select_action p f st s c b = (a, r, m)" and "is_control a"
  shows "st \<and> \<not> f \<and> (a = Isolate \<longrightarrow> gate_open (gate_isolate p) s c b)
    \<and> (a = Redirect \<longrightarrow> gate_open (gate_redirect p) s c b)
    \<and> (a = Throttle \<longrightarrow> c \<ge> throttle_confidence_min p \<and> b \<ge> throttle_blast_min p)"
  using assms by (auto simp: select_action_def split: if_splits)

lemma impact_check_control:
  assumes "impact_check (PDict ci) sel = Inr (a, r, m)" and "is_control a"
  shows "\<exists>score critical. py_int (py_or (dget ci ''score'') (PInt 0)) = Inr score \<and> score < 70 \<and>
     py_int (py_or (dget ci ''critical_client_count'') (PInt 0)) = Inr critical \<and> critical \<le> 0"
  using assms
  by (auto simp: impact_check_def ebind_Inr_iff not_le not_less split: bool.splits if_splits)

lemma select_action_rank_mono:
  assumes "s \<le> s'" "c \<le> c'" "b \<le> b'" "st \<longrightarrow> st'"
  shows "rank (fst (select_action p f st s c b)) \<le> rank (fst (select_action p f st' s' c' b'))"
  using assms gate_open_mono [of _ s c b s' c' b'] by (auto simp: select_action_def)

lemma is_strong_mono:
  "soc_label soc = soc_label soc' \<Longrightarrow> soc_score soc ''confidence'' \<le> soc_score soc' ''confidence'' \<Longrightarrow>
   is_strong self soc \<longrightarrow> is_strong self soc'"
  by (auto simp: is_strong_def intro: strong_soc_mono)

section \<open>Properties\<close>

text \<open>
  The arbiter degrades conservatively: when any of the three NOC health sections the
  decision reads (availability, path, device) is missing a usable label, because the section
  is not a mapping or its label is absent, empty or null, the decision is to notify and no
  control is applied, whatever the SOC evaluation says.
\<close>

theorem decide_missing_health_notifies:
  assumes "decide self (PDict noc) soc ci = Inr d"
    and "key \<in> {''availability'', ''path_health'', ''device_health''}"
    and "\<not> is_dict (dget noc key) \<or> \<not> truthy (dget (section_of noc key) ''label'')"
  shows "act d = Notify \<and> control_mode d = ''none'' \<and> tr_noc_fragile (decision_trace d)"
proof -
  have "health_label noc key = ''unknown''"
    using assms(3) by (auto simp: health_label_falsy section_not_dict dget_def)
  then have frag: "noc_fragile noc" using assms(2) by (auto simp: noc_fragile_def FRAGILE_LABELS_def)
  from assms(1) obtain soc' where soc: "soc = PDict soc'" by (auto elim: decide_inputs)
  from frag obtain r where sel: "selection self noc soc' = (Notify, r, ''none'')"
    using selection_fragile by blast
  show ?thesis
    using decide_selected [OF assms(1) [unfolded soc] sel]
      decision_trace_fields(3) [OF decide_facts(2) [OF assms(1) [unfolded soc]]] frag by auto
qed

theorem decide_missing_health_notifies_witness:
  "\<exists>d. decide default_arbiter (PDict (ex_noc PNone)) (PDict (ex_soc 99 99 99)) PNone = Inr d \<and> act d = Notify"
proof -
  have "\<exists>d. decide default_arbiter (PDict (ex_noc PNone)) (PDict (ex_soc 99 99 99)) PNone = Inr d"
    by (simp add: decide_eval)
  then obtain d where d: "decide default_arbiter (PDict (ex_noc PNone)) (PDict (ex_soc 99 99 99)) PNone = Inr d" ..
  have "\<not> is_dict (dget (ex_noc PNone) ''availability'') \<or>
      \<not> truthy (dget (section_of (ex_noc PNone) ''availability'') ''label'')"
    by (simp add: ex_noc_def dget_def)
  then have "act d = Notify" using decide_missing_health_notifies [OF d, of "''availability''"] by simp
  with d show ?thesis by blast
qed

text \<open>
  C36. A control (throttle, redirect, isolate) is only decided when the SOC signal is strong,
  the NOC is not fragile, the thresholds the policy sets for that very action are met, and,
  where a client impact was given, its score is below 70 and it names no critical client.
\<close>

theorem decide_control_is_gated:
  assumes "decide self (PDict noc) (PDict soc) ci = Inr d" and "is_control (act d)"
  shows "is_strong self soc \<and> \<not> noc_fragile noc
    \<and> (act d = Isolate \<longrightarrow> gate_open (gate_isolate (arb_policy self)) (soc_score soc ''suspicion'')
          (soc_score soc ''confidence'') (soc_score soc ''blast_radius''))
    \<and> (act d = Redirect \<longrightarrow> gate_open (gate_redirect (arb_policy self)) (soc_score soc ''suspicion'')
          (soc_score soc ''confidence'') (soc_score soc ''blast_radius''))
    \<and> (act d = Throttle \<longrightarrow> soc_score soc ''confidence'' \<ge> throttle_confidence_min (arb_policy self)
          \<and> soc_score soc ''blast_radius'' \<ge> throttle_blast_min (arb_policy self))
    \<and> (\<forall>m. ci = PDict m \<longrightarrow> (\<exists>score critical.
          py_int (py_or (dget m ''score'') (PInt 0)) = Inr score \<and> score < 70 \<and>
          py_int (py_or (dget m ''critical_client_count'') (PInt 0)) = Inr critical \<and> critical \<le> 0))"
proof -
  obtain a r m where sel: "selection self noc soc = (a, r, m)" by (cases "selection self noc soc")
  have "act d = a" using decide_selected [OF assms(1) sel] assms(2) by auto
  then have "is_control a" using assms(2) by simp
  note gated = select_action_control [OF sel [unfolded selection_def] this]
  have "\<forall>m. ci = PDict m \<longrightarrow> (\<exists>score critical.
          py_int (py_or (dget m ''score'') (PInt 0)) = Inr score \<and> score < 70 \<and>
          py_int (py_or (dget m ''critical_client_count'') (PInt 0)) = Inr critical \<and> critical \<le> 0)"
    using impact_check_control [of _ "selection self noc soc"] decide_facts(1) [OF assms(1)] assms(2) by blast
  with gated \<open>act d = a\<close> show ?thesis by blast
qed

theorem decide_control_is_gated_witness:
  "\<exists>d. decide default_arbiter (PDict (ex_noc good_health)) (PDict (ex_soc 92 85 75)) (PDict [(''score'', PInt 10)]) = Inr d
     \<and> act d = Redirect \<and> \<not> noc_fragile (ex_noc good_health)"
proof -
  have "\<exists>d. decide default_arbiter (PDict (ex_noc good_health)) (PDict (ex_soc 92 85 75)) (PDict [(''score'', PInt 10)]) = Inr d
     \<and> act d = Redirect"
    by (simp add: decide_eval)
  then show ?thesis using decide_control_is_gated [of default_arbiter "ex_noc good_health" "ex_soc 92 85 75"] by fastforce
qed

text \<open>
  Nothing but the schema and an unreadable client impact can make \<open>decide\<close> fail: with the
  required keys present and no client impact it returns a decision for every value the
  sections may hold, and without the schema it raises the error naming the offending input.
\<close>

theorem decide_defined:
  "(\<exists>d. decide self n s PNone = Inr d) \<longleftrightarrow>
     (\<exists>noc soc. n = PDict noc \<and> s = PDict soc \<and>
        list_all (has_key noc) REQUIRED_NOC_KEYS \<and> list_all (has_key soc) REQUIRED_SOC_KEYS)"
  (is "?L = ?R")
proof
  assume ?L
  then show ?R by (auto elim!: decide_inputs simp: validate_schema_Inr list_all_iff)
next
  assume ?R
  then obtain noc soc where io: "n = PDict noc" "s = PDict soc"
    and v: "validate_schema n REQUIRED_NOC_KEYS ''noc'' = Inr noc" "validate_schema s REQUIRED_SOC_KEYS ''soc'' = Inr soc"
    by (auto simp: validate_schema_Inr list_all_iff)
  have "\<exists>tr. decision_trace_of noc soc (fst (selection self noc soc)) (fst (snd (selection self noc soc)))
      (noc_fragile noc) (is_strong self soc) (soc_score soc ''blast_radius'') (soc_score soc ''confidence'') PNone = Inr tr"
    by (rule decision_trace_defined) (simp add: py_or_def)
  then show ?L by (auto simp: decide_def v impact_check_no_dict split_def)
qed

text \<open>
  The rejected alternatives of a decision name every action except the chosen one, each
  once and in the fixed order, with one exception: throttle is left out when the signal was
  strong, the NOC was not fragile and the blast radius was at least 40.
\<close>

theorem decide_rejected_alternatives:
  assumes "decide self (PDict noc) (PDict soc) ci = Inr d"
  shows "map fst (rejected_alternatives d) =
    filter (\<lambda>x. x \<noteq> act d \<and> \<not> (x = Throttle \<and> is_strong self soc \<and> \<not> noc_fragile noc \<and> 40 \<le> soc_score soc ''blast_radius''))
      [Observe, Notify, Throttle, Redirect, Isolate]"
  unfolding decide_facts(3) [OF assms] rejected_of_names by (rule filter_cong) auto

theorem decide_rejected_alternatives_witness:
  "\<exists>d. decide default_arbiter (PDict (ex_noc good_health)) (PDict (ex_soc 92 85 75)) PNone = Inr d \<and>
     map fst (rejected_alternatives d) = [Observe, Notify, Isolate]"
proof -
  have "\<exists>d. decide default_arbiter (PDict (ex_noc good_health)) (PDict (ex_soc 92 85 75)) PNone = Inr d
     \<and> act d = Redirect"
    by (simp add: decide_eval)
  then obtain d where d: "decide default_arbiter (PDict (ex_noc good_health)) (PDict (ex_soc 92 85 75)) PNone = Inr d"
    "act d = Redirect" by blast
  have "is_strong default_arbiter (ex_soc 92 85 75)" "\<not> noc_fragile (ex_noc good_health)"
    "soc_score (ex_soc 92 85 75) ''blast_radius'' = 75"
    by (simp_all add: decide_eval)
  with d show ?thesis using decide_rejected_alternatives [OF d(1)] by simp
qed

text \<open>
  Raising the SOC scores never lowers the response: with the same labels, NOC evaluation,
  policy and no client impact, scores that are at least as high select an action of at least the
  same rank, for every policy, also one whose thresholds are not nested.
\<close>

theorem decide_escalation_monotone:
  assumes "decide self (PDict noc) (PDict soc) PNone = Inr d"
    and "decide self (PDict noc) (PDict soc') PNone = Inr d'"
    and "soc_label soc = soc_label soc'"
    and "soc_score soc ''suspicion'' \<le> soc_score soc' ''suspicion''"
    and "soc_score soc ''confidence'' \<le> soc_score soc' ''confidence''"
    and "soc_score soc ''blast_radius'' \<le> soc_score soc' ''blast_radius''"
  shows "rank (act d) \<le> rank (act d')"
proof -
  have "act d = fst (selection self noc soc)" "act d' = fst (selection self noc soc')"
    using decide_facts(1) [OF assms(1)] decide_facts(1) [OF assms(2)] by (auto simp: impact_check_no_dict)
  then show ?thesis
    using select_action_rank_mono [OF assms(4,5,6) is_strong_mono [OF assms(3,5)]] by (simp add: selection_def)
qed

theorem decide_escalation_monotone_witness:
  "\<exists>d d'. decide default_arbiter (PDict (ex_noc good_health)) (PDict (ex_soc 70 65 45)) PNone = Inr d \<and>
     decide default_arbiter (PDict (ex_noc good_health)) (PDict (ex_soc 96 91 85)) PNone = Inr d' \<and>
     rank (act d) \<le> rank (act d')"
proof -
  have "\<exists>d. decide default_arbiter (PDict (ex_noc good_health)) (PDict (ex_soc 70 65 45)) PNone = Inr d"
    "\<exists>d. decide default_arbiter (PDict (ex_noc good_health)) (PDict (ex_soc 96 91 85)) PNone = Inr d"
    by (simp_all add: decide_eval)
  then obtain d d' where d: "decide default_arbiter (PDict (ex_noc good_health)) (PDict (ex_soc 70 65 45)) PNone = Inr d"
    "decide default_arbiter (PDict (ex_noc good_health)) (PDict (ex_soc 96 91 85)) PNone = Inr d'" by blast
  have "rank (act d) \<le> rank (act d')"
    by (rule decide_escalation_monotone [OF d]) (simp_all add: decide_eval)
  with d show ?thesis by blast
qed

text \<open>
  The evidence a decision cites is sorted, free of duplicates and empty ids, and consists
  exactly of the ids found in the evaluation sections the chosen action reads.
\<close>

theorem decide_evidence_ids:
  assumes "decide self (PDict noc) (PDict soc) ci = Inr d"
  shows "sorted (chosen_evidence_ids d) \<and> distinct (chosen_evidence_ids d) \<and>
    set (chosen_evidence_ids d) = py_str ` set (chosen_candidates (act d) noc soc) - {[]}"
  unfolding decide_facts(4) [OF assms] by (auto simp: chosen_ids_def)

theorem decide_evidence_ids_witness:
  "\<exists>d. decide default_arbiter (PDict (ex_noc good_health)) (PDict (ex_soc 92 85 75)) PNone = Inr d \<and>
     chosen_evidence_ids d = [''n1'', ''n2'', ''s1''] \<and> distinct (chosen_evidence_ids d)"
proof -
  have "\<exists>d. decide default_arbiter (PDict (ex_noc good_health)) (PDict (ex_soc 92 85 75)) PNone = Inr d
     \<and> chosen_evidence_ids d = [''n1'', ''n2'', ''s1'']"
    by (simp add: decide_eval)
  then show ?thesis using decide_evidence_ids by blast
qed

text \<open>
  A strong SOC signal on a healthy network that misses the throttle gate is reported with the
  reason \<open>soc_high_but_noc_fragile\<close> although the trace of the same decision records that
  the NOC is not fragile: the reason code does not follow from the state it names.
\<close>

theorem decide_reason_names_fragile_noc_wrongly:
  "\<exists>d. decide default_arbiter (PDict (ex_noc good_health)) (PDict (ex_soc 92 85 10)) PNone = Inr d \<and>
     reason d = ''soc_high_but_noc_fragile'' \<and> \<not> tr_noc_fragile (decision_trace d)"
  by (simp add: decide_eval)

end
