(* ===== verification/Scorer.thy ===== *)
theory Scorer
  imports Prelude
begin

text \<open>
  The tactical risk score (\<open>py/azazel_edge/tactics_engine/scorer.py\<close>): resolution of the
  threat classes of one Suricata alert, the additive score with its caps and floors, the
  list of factors explaining it, and the comparison with the optional shared kernel.

  The kernel is code outside the repository (\<open>azazel_mio.fast_assessment\<close>) and is the
  parameter \<open>kernel\<close>: not installed, failing to import, or a function of the assessment
  input that raises or returns two arbitrary values (its \<open>score\<close> and \<open>factors\<close> attributes).
  The token patterns of the source are alternations of literals with optional word
  boundaries; each is written as the list of its literals.
\<close>

section \<open>Tables\<close>

definition DECEPTION_SIDS :: "int list" where
  "DECEPTION_SIDS = [9901101, 9901102, 9901103, 9901201, 9901202, 9901203, 9901211,
     9901221, 9901222, 9901231, 9901232, 9901241, 9901261, 9901251]"

definition SID_CLASS :: "(int \<times> string) list" where
  "SID_CLASS = [(9901251, ''c2''), (9901231, ''exfil''), (9901232, ''exfil''), (9901241, ''cred''),
     (9901261, ''cred''), (9901211, ''mitm''), (9901221, ''scan''), (9901222, ''scan''),
     (9901201, ''phishing''), (9901202, ''phishing''), (9901203, ''phishing''),
     (9901101, ''recon''), (9901102, ''recon''), (9901103, ''recon'')]"

definition CLASSTYPE_CLASS :: "(string \<times> string) list" where
  "CLASSTYPE_CLASS = [(''trojan-activity'', ''c2''), (''social-engineering'', ''phishing''),
     (''network-scan'', ''scan''), (''attempted-recon'', ''recon''),
     (''attempted-admin'', ''cred''), (''attempted-user'', ''cred'')]"

text \<open>A literal, with a word boundary required on its left and on its right.\<close>

datatype lit_pat = LP bool string bool

definition TOKEN_PATTERNS :: "(lit_pat list \<times> string) list" where
  "TOKEN_PATTERNS =
    [([LP True ''beacon'' True, LP True ''c2'' True], ''c2''),
     ([LP True ''exfil'' True, LP True ''tunnel'' True], ''exfil''),
     ([LP True ''arp spoof'' True, LP True ''arpspoof'' True, LP True ''poison'' True], ''mitm''),
     ([LP True ''port scan'' True, LP True ''portscan'' True, LP True ''nmap'' True], ''scan''),
     ([LP True ''brute'' True, LP True ''credential'' True, LP False ''password='' False], ''cred''),
     ([LP False ''phish'' False, LP True ''fake'' True], ''phishing'')]"

definition BENIGN_GUARD :: "lit_pat list" where
  "BENIGN_GUARD = [LP False ''av scan'' False, LP False ''antivirus'' False, LP False ''scanner update'' False,
     LP False ''password change'' False, LP False ''password reset'' False, LP False ''vuln feed'' False]"

definition BENIGN_CLASSTYPES :: "string list" where
  "BENIGN_CLASSTYPES = [''not-suspicious'', ''unknown'', ''misc-activity'', ''protocol-command-decode'',
     ''tcp-connection'', ''policy-violation'', ''bad-unknown'']"

definition CLASS_WEIGHT :: "(string \<times> int) list" where
  "CLASS_WEIGHT = [(''rce'', 50), (''c2'', 48), (''exfil'', 46), (''cred'', 44), (''phishing'', 42),
     (''mitm'', 40), (''scan'', 36), (''recon'', 30)]"

definition TOKEN_CEILING :: int where "TOKEN_CEILING = 39"
definition BENIGN_LEVEL :: int where "BENIGN_LEVEL = 25"
definition DECEPTION_FLOOR :: int where "DECEPTION_FLOOR = 60"
definition SEV1_NO_THREAT_CAP :: int where "SEV1_NO_THREAT_CAP = 35"

definition severity_base :: "int \<Rightarrow> int" where
  "severity_base sev = (case map_of [(1, 38), (2, 30), (3, 24), (4, 18)] sev of Some b \<Rightarrow> b | None \<Rightarrow> 16)"

section \<open>Operations\<close>

text \<open>\<open>_as_int\<close> catches \<open>ValueError\<close> and \<open>TypeError\<close> only.\<close>

fun as_int :: "pyval \<Rightarrow> pyexc + int" where
  "as_int v = (case py_int v of
      Inl (ValueError _) \<Rightarrow> Inr 0
    | Inl (TypeError _) \<Rightarrow> Inr 0
    | r \<Rightarrow> r)"

record features =
  severity :: int
  sid :: int
  signature :: string
  category :: string
  verdict :: string
  target_port :: int

definition text_field :: "pydict \<Rightarrow> string \<Rightarrow> string \<Rightarrow> string" where
  "text_field d k dflt = py_lower (py_str (py_or (dget d k) (PStr dflt)))"

definition read_features :: "pydict \<Rightarrow> pyexc + features" where
  "read_features d =
     ebind (as_int (dget d ''suricata_sev'')) (\<lambda>sev.
     ebind (as_int (dget d ''suricata_sid'')) (\<lambda>s.
     ebind (as_int (dget d ''target_port'')) (\<lambda>port.
     Inr \<lparr>severity = sev, sid = s, signature = text_field d ''suricata_signature'' [],
          category = text_field d ''suricata_category'' [],
          verdict = text_field d ''suricata_action'' ''allowed'', target_port = port\<rparr>)))"

definition starts_word :: "string \<Rightarrow> bool" where
  "starts_word s = (s \<noteq> [] \<and> is_word (hd s))"

fun lit_at :: "bool \<Rightarrow> lit_pat \<Rightarrow> string \<Rightarrow> bool" where
  "lit_at prev (LP lb lit rb) s =
     (take (length lit) s = lit
      \<and> (lb \<longrightarrow> prev \<noteq> starts_word s)
      \<and> (rb \<longrightarrow> (if lit = [] then prev else is_word (last lit)) \<noteq> starts_word (drop (length lit) s)))"

fun search_lit :: "bool \<Rightarrow> lit_pat \<Rightarrow> string \<Rightarrow> bool" where
  "search_lit prev p [] = lit_at prev p []"
| "search_lit prev p (c # s) = (lit_at prev p (c # s) \<or> search_lit (is_word c) p s)"

definition search_any :: "lit_pat list \<Rightarrow> string \<Rightarrow> bool" where
  "search_any ps s = (\<exists>p\<in>set ps. search_lit False p s)"

definition authoritative :: "features \<Rightarrow> string list" where
  "authoritative f =
     (case map_of SID_CLASS (sid f) of Some c \<Rightarrow> [c] | None \<Rightarrow> [])
     @ (case map_of CLASSTYPE_CLASS (category f) of Some c \<Rightarrow> [c] | None \<Rightarrow> [])"

definition token_classes :: "features \<Rightarrow> string list" where
  "token_classes f =
     (if signature f \<noteq> [] \<and> \<not> search_any BENIGN_GUARD (signature f)
      then map snd (filter (\<lambda>pc. search_any (fst pc) (signature f)) TOKEN_PATTERNS)
      else [])"

definition matched :: "features \<Rightarrow> string list" where
  "matched f = sort (dedup (authoritative f @ token_classes f))"

definition token_only :: "features \<Rightarrow> bool" where
  "token_only f = (matched f \<noteq> [] \<and> authoritative f = [])"

definition class_weight :: "string \<Rightarrow> int" where
  "class_weight c = (case map_of CLASS_WEIGHT c of Some w \<Rightarrow> w | None \<Rightarrow> 0)"

definition threat_weight :: "features \<Rightarrow> int" where
  "threat_weight f = foldr max (map class_weight (matched f)) 0"

type_synonym scored = "int \<times> string list"

definition add_sid :: "features \<Rightarrow> scored \<Rightarrow> scored" where
  "add_sid f = (\<lambda>(s, fs). if threat_weight f > 0 \<or> sid f \<in> set DECEPTION_SIDS
     then (s + 5, fs @ [''sid_present'']) else (s, fs))"

definition add_threat :: "features \<Rightarrow> scored \<Rightarrow> scored" where
  "add_threat f = (\<lambda>(s, fs). if threat_weight f > 0
     then (s + threat_weight f,
           fs @ map (\<lambda>c. ''threat_class='' @ c @ ''('' @ int_str (class_weight c) @ '')'') (matched f))
     else (s, fs))"

definition port_kind :: "features \<Rightarrow> string option" where
  "port_kind f =
     (if threat_weight f > 0 then
        (if target_port f \<in> {22, 23, 445, 3389, 5900} then Some ''admin''
         else if target_port f \<in> {80, 443} then Some ''web''
         else if target_port f = 53 then Some ''dns'' else None)
      else None)"

definition decoy_port :: "features \<Rightarrow> bool" where
  "decoy_port f = (target_port f \<in> {12222, 18080})"

definition port_signals :: "features \<Rightarrow> (string \<times> int) list" where
  "port_signals f = (case port_kind f of Some k \<Rightarrow> [(k, target_port f)] | None \<Rightarrow> [])
     @ (if decoy_port f then [(''decoy'', target_port f)] else [])"

definition add_port :: "features \<Rightarrow> scored \<Rightarrow> scored" where
  "add_port f = (\<lambda>(s, fs). case port_kind f of
      Some k \<Rightarrow> (s + 8, fs @ [k @ ''_port='' @ int_str (target_port f)])
    | None \<Rightarrow> (s, fs))"

definition add_decoy :: "features \<Rightarrow> scored \<Rightarrow> scored" where
  "add_decoy f = (\<lambda>(s, fs). if decoy_port f
     then (s + 10, fs @ [''decoy_port='' @ int_str (target_port f)]) else (s, fs))"

definition contained :: "features \<Rightarrow> bool" where
  "contained f = (verdict f \<in> {''blocked'', ''drop'', ''rejected''})"

definition add_verdict :: "features \<Rightarrow> scored \<Rightarrow> scored" where
  "add_verdict f = (\<lambda>(s, fs). if contained f
     then (s + 2, fs @ [''action='' @ verdict f @ ''(contained)'']) else (s, fs))"

definition cap_token :: "features \<Rightarrow> scored \<Rightarrow> scored" where
  "cap_token f = (\<lambda>(s, fs). if token_only f then (min s TOKEN_CEILING, fs @ [''token_only_ceiling'']) else (s, fs))"

definition cap_sev1 :: "features \<Rightarrow> scored \<Rightarrow> scored" where
  "cap_sev1 f = (\<lambda>(s, fs). if severity f = 1 \<and> threat_weight f = 0
     then (min s SEV1_NO_THREAT_CAP, fs @ [''sev1_no_threat_cap'']) else (s, fs))"

definition benign_classless :: "features \<Rightarrow> bool" where
  "benign_classless f = (threat_weight f = 0 \<and> category f \<in> set BENIGN_CLASSTYPES)"

definition floor_or_dampen :: "features \<Rightarrow> scored \<Rightarrow> scored" where
  "floor_or_dampen f = (\<lambda>(s, fs).
     if sid f \<in> set DECEPTION_SIDS then
       (if s < DECEPTION_FLOOR then (DECEPTION_FLOOR, fs @ [''deception_floor'']) else (s, fs))
     else if benign_classless f then (BENIGN_LEVEL, fs @ [''benign_dampener''])
     else (s, fs))"

definition clamp :: "scored \<Rightarrow> scored" where
  "clamp = (\<lambda>(s, fs). (max 0 (min 100 s), fs))"

definition raw_score :: "features \<Rightarrow> scored" where
  "raw_score f = add_verdict f (add_decoy f (add_port f (add_threat f (add_sid f
     (severity_base (severity f), [''severity='' @ int_str (severity f)])))))"

definition local_score :: "features \<Rightarrow> scored" where
  "local_score f = clamp (floor_or_dampen f (cap_sev1 f (cap_token f (raw_score f))))"

record kernel_input =
  k_severity :: int
  k_classes :: "string list"
  k_token_only :: bool
  k_ports :: "(string \<times> int) list"
  k_action :: string
  k_deception_sid :: bool
  k_benign_classless :: bool

datatype kernel =
    PackageUnavailable
  | ImportFailed
  | Installed "kernel_input \<Rightarrow> pyexc + (pyval \<times> pyval)"

record shadow =
  sh_status :: string
  sh_reason :: "string option"
  sh_result :: "(int \<times> string list \<times> bool) option"

record breakdown =
  score_value :: int
  factors :: "string list"
  shadow_info :: shadow
  score_source :: string

definition kernel_input_of :: "features \<Rightarrow> kernel_input" where
  "kernel_input_of f = \<lparr>k_severity = severity f, k_classes = matched f, k_token_only = token_only f,
     k_ports = port_signals f, k_action = verdict f, k_deception_sid = (sid f \<in> set DECEPTION_SIDS),
     k_benign_classless = benign_classless f\<rparr>"

fun is_str :: "pyval \<Rightarrow> bool" where
  "is_str (PStr _) = True"
| "is_str _ = False"

text \<open>The shared result is used only after its types and range are checked.\<close>

fun shared_result :: "pyexc + (pyval \<times> pyval) \<Rightarrow> (int \<times> string list) option" where
  "shared_result (Inr (PInt s, PList fs)) =
     (if 0 \<le> s \<and> s \<le> 100 \<and> list_all is_str fs then Some (s, map py_str fs) else None)"
| "shared_result _ = None"

definition compare_kernel :: "kernel \<Rightarrow> features \<Rightarrow> scored \<Rightarrow> breakdown" where
  "compare_kernel k f loc =
     (case k of
        PackageUnavailable \<Rightarrow> \<lparr>score_value = fst loc, factors = snd loc,
           shadow_info = \<lparr>sh_status = ''unavailable'', sh_reason = Some ''package_unavailable'', sh_result = None\<rparr>,
           score_source = ''edge_local''\<rparr>
      | ImportFailed \<Rightarrow> \<lparr>score_value = fst loc, factors = snd loc,
           shadow_info = \<lparr>sh_status = ''degraded'', sh_reason = Some ''import_failed'', sh_result = None\<rparr>,
           score_source = ''edge_local''\<rparr>
      | Installed assess \<Rightarrow>
          (case shared_result (assess (kernel_input_of f)) of
             None \<Rightarrow> \<lparr>score_value = fst loc, factors = snd loc,
               shadow_info = \<lparr>sh_status = ''degraded'', sh_reason = Some ''assessment_failed'', sh_result = None\<rparr>,
               score_source = ''edge_local''\<rparr>
           | Some (ss, sf) \<Rightarrow>
               (let matches = (ss = fst loc \<and> sf = snd loc) in
                \<lparr>score_value = (if matches then ss else fst loc), factors = (if matches then sf else snd loc),
                 shadow_info = \<lparr>sh_status = ''complete'', sh_reason = None, sh_result = Some (ss, sf, matches)\<rparr>,
                 score_source = (if matches then ''shared_core'' else ''edge_local'')\<rparr>)))"

definition score :: "kernel \<Rightarrow> pydict \<Rightarrow> pyexc + breakdown" where
  "score k d = ebind (read_features d) (\<lambda>f. Inr (compare_kernel k f (local_score f)))"

definition score_with_features :: "kernel \<Rightarrow> pydict \<Rightarrow> pyexc + (int \<times> string list)" where
  "score_with_features k d = ebind (score k d) (\<lambda>r. Inr (score_value r, factors r))"

section \<open>Lemmas\<close>

lemma step_scores:
  "fst (add_sid f x) = fst x + (if threat_weight f > 0 \<or> sid f \<in> set DECEPTION_SIDS then 5 else 0)"
  "fst (add_threat f x) = fst x + (if threat_weight f > 0 then threat_weight f else 0)"
  "fst (add_port f x) = fst x + (if port_kind f = None then 0 else 8)"
  "fst (add_decoy f x) = fst x + (if decoy_port f then 10 else 0)"
  "fst (add_verdict f x) = fst x + (if contained f then 2 else 0)"
  by (auto simp: add_sid_def add_threat_def add_port_def add_decoy_def add_verdict_def split_def split: option.splits)

lemma cap_scores:
  "fst (cap_token f x) = (if token_only f then min (fst x) 39 else fst x)"
  "fst (cap_sev1 f x) = (if severity f = 1 \<and> threat_weight f = 0 then min (fst x) 35 else fst x)"
  "fst (floor_or_dampen f x) = (if sid f \<in> set DECEPTION_SIDS then max 60 (fst x)
     else if benign_classless f then 25 else fst x)"
  "fst (clamp x) = max 0 (min 100 (fst x))"
  by (auto simp: cap_token_def cap_sev1_def floor_or_dampen_def clamp_def split_def TOKEN_CEILING_def
      SEV1_NO_THREAT_CAP_def DECEPTION_FLOOR_def BENIGN_LEVEL_def)

lemma severity_base_bounds: "16 \<le> severity_base v \<and> severity_base v \<le> 38"
  by (auto simp: severity_base_def)

lemma foldr_max_nonneg [simp]: "(0::int) \<le> foldr max xs 0"
  by (induction xs) auto

lemma threat_weight_nonneg [simp]: "0 \<le> threat_weight f"
  by (simp add: threat_weight_def)

lemma matched_Nil_iff: "matched f = [] \<longleftrightarrow> authoritative f = [] \<and> token_classes f = []"
  by (simp add: matched_def)

lemma threat_weight_classless: "matched f = [] \<Longrightarrow> threat_weight f = 0"
  by (simp add: threat_weight_def)

lemma deception_has_class: "sid f \<in> set DECEPTION_SIDS \<Longrightarrow> authoritative f \<noteq> []"
  by (auto simp: authoritative_def DECEPTION_SIDS_def SID_CLASS_def)

lemma raw_score_value:
  "fst (raw_score f) = severity_base (severity f)
     + (if threat_weight f > 0 \<or> sid f \<in> set DECEPTION_SIDS then 5 else 0)
     + (if threat_weight f > 0 then threat_weight f else 0)
     + (if port_kind f = None then 0 else 8) + (if decoy_port f then 10 else 0) + (if contained f then 2 else 0)"
  by (simp add: raw_score_def step_scores)

lemma raw_score_classless:
  "threat_weight f = 0 \<Longrightarrow> sid f \<notin> set DECEPTION_SIDS \<Longrightarrow> fst (raw_score f) \<le> 50"
  using severity_base_bounds [of "severity f"] by (simp add: raw_score_value port_kind_def)

lemma local_score_unearned:
  assumes "authoritative f = []"
  shows "fst (local_score f) \<le> 50" "matched f \<noteq> [] \<Longrightarrow> fst (local_score f) \<le> 39"
proof -
  have nd: "sid f \<notin> set DECEPTION_SIDS" using assms deception_has_class by blast
  show "fst (local_score f) \<le> 50"
  proof (cases "matched f = []")
    case True
    then show ?thesis
      using raw_score_classless [OF threat_weight_classless nd] nd by (auto simp: local_score_def cap_scores)
  next
    case False
    then show ?thesis using assms nd by (auto simp: local_score_def cap_scores token_only_def)
  qed
  show "matched f \<noteq> [] \<Longrightarrow> fst (local_score f) \<le> 39"
    using assms nd by (auto simp: local_score_def cap_scores token_only_def)
qed

lemma compare_kernel_local [simp]:
  "score_value (compare_kernel k f loc) = fst loc" "factors (compare_kernel k f loc) = snd loc"
  by (auto simp: compare_kernel_def Let_def split: kernel.splits option.splits)

lemma score_Inr:
  "score k d = Inr r \<longleftrightarrow> (\<exists>f. read_features d = Inr f \<and> r = compare_kernel k f (local_score f))"
  by (auto simp: score_def ebind_Inr_iff)

lemma verdict_frame [simp]:
  "authoritative (f\<lparr>verdict := v\<rparr>) = authoritative f" "token_classes (f\<lparr>verdict := v\<rparr>) = token_classes f"
  "matched (f\<lparr>verdict := v\<rparr>) = matched f" "token_only (f\<lparr>verdict := v\<rparr>) = token_only f"
  "threat_weight (f\<lparr>verdict := v\<rparr>) = threat_weight f" "port_kind (f\<lparr>verdict := v\<rparr>) = port_kind f"
  "decoy_port (f\<lparr>verdict := v\<rparr>) = decoy_port f" "benign_classless (f\<lparr>verdict := v\<rparr>) = benign_classless f"
  by (simp_all add: authoritative_def token_classes_def matched_def token_only_def threat_weight_def
      port_kind_def decoy_port_def benign_classless_def)

lemma caps_frame:
  "cap_token (f\<lparr>verdict := v\<rparr>) = cap_token f" "cap_sev1 (f\<lparr>verdict := v\<rparr>) = cap_sev1 f"
  "floor_or_dampen (f\<lparr>verdict := v\<rparr>) = floor_or_dampen f"
  by (simp_all add: cap_token_def cap_sev1_def floor_or_dampen_def cong: if_cong)

lemma caps_mono:
  assumes "fst x \<le> fst y"
  shows "fst (clamp (floor_or_dampen f (cap_sev1 f (cap_token f x)))) \<le> fst (clamp (floor_or_dampen f (cap_sev1 f (cap_token f y))))"
proof -
  have "fst (cap_token f x) \<le> fst (cap_token f y)" using assms by (auto simp: cap_scores(1) min_def max_def)
  then have "fst (cap_sev1 f (cap_token f x)) \<le> fst (cap_sev1 f (cap_token f y))" by (auto simp: cap_scores(2) min_def max_def)
  then have "fst (floor_or_dampen f (cap_sev1 f (cap_token f x))) \<le> fst (floor_or_dampen f (cap_sev1 f (cap_token f y)))"
    by (auto simp: cap_scores(3) min_def max_def)
  then show ?thesis by (auto simp: cap_scores(4) min_def max_def)
qed

lemma as_int_cases:
  "as_int v = Inl e \<longleftrightarrow> e = OverflowError [] \<and> (\<exists>b. v = PFloat (FInf b))"
  by (cases v rule: py_int.cases) (auto split: option.splits)

lemma ebind3_Inl:
  "ebind A (\<lambda>a. ebind B (\<lambda>b. ebind C (\<lambda>c. Inr (g a b c)))) = Inl e \<longleftrightarrow>
     A = Inl e \<or> (\<exists>a. A = Inr a) \<and> (B = Inl e \<or> (\<exists>b. B = Inr b) \<and> C = Inl e)"
  by (cases A; cases B; cases C) auto

lemmas score_eval = score_def read_features_def text_field_def py_or_def dget_def py_lower_def char_lower_def
  is_upper_def local_score_def raw_score_def add_sid_def add_threat_def add_port_def add_decoy_def add_verdict_def
  cap_token_def cap_sev1_def floor_or_dampen_def clamp_def threat_weight_def matched_def authoritative_def
  token_classes_def search_any_def BENIGN_GUARD_def TOKEN_PATTERNS_def SID_CLASS_def CLASSTYPE_CLASS_def
  DECEPTION_SIDS_def CLASS_WEIGHT_def class_weight_def severity_base_def token_only_def contained_def decoy_port_def
  port_kind_def starts_word_def is_word_def is_digit_def is_lower_def benign_classless_def BENIGN_CLASSTYPES_def

section \<open>Properties\<close>

text \<open>
  The optional shared kernel has no influence on the score: for every kernel, missing, broken,
  raising, malformed, agreeing or disagreeing, \<open>score\<close> returns the score and factors of the local
  calculation, within 0 and 100, and says \<open>shared_core\<close> only when the kernel reproduced both.
\<close>

theorem score_ignores_kernel:
  assumes "score k d = Inr r"
  shows "(\<exists>r'. score PackageUnavailable d = Inr r' \<and> score_value r' = score_value r \<and> factors r' = factors r)
    \<and> 0 \<le> score_value r \<and> score_value r \<le> 100
    \<and> (score_source r = ''shared_core'' \<longrightarrow>
         sh_result (shadow_info r) = Some (score_value r, factors r, True))"
proof -
  from assms obtain f where f: "read_features d = Inr f" and r: "r = compare_kernel k f (local_score f)"
    by (auto simp: score_Inr)
  have "0 \<le> fst (local_score f) \<and> fst (local_score f) \<le> 100"
    by (simp add: local_score_def cap_scores)
  moreover have "score_source r = ''shared_core'' \<longrightarrow> sh_result (shadow_info r) = Some (score_value r, factors r, True)"
    unfolding r by (auto simp: compare_kernel_def Let_def split: kernel.splits option.splits)
  ultimately show ?thesis using f r by (auto simp: score_Inr)
qed

theorem score_ignores_kernel_witness:
  "\<exists>r r'. score (Installed (\<lambda>_. Inr (PInt 7, PList []))) [(''suricata_sev'', PInt 2)] = Inr r \<and>
     score PackageUnavailable [(''suricata_sev'', PInt 2)] = Inr r' \<and> score_value r' = score_value r"
proof -
  have "\<exists>r. score (Installed (\<lambda>_. Inr (PInt 7, PList []))) [(''suricata_sev'', PInt 2)] = Inr r"
    by (simp add: score_def read_features_def dget_def)
  then obtain r where r: "score (Installed (\<lambda>_. Inr (PInt 7, PList []))) [(''suricata_sev'', PInt 2)] = Inr r" ..
  from score_ignores_kernel [OF r] r show ?thesis by blast
qed

text \<open>
  C40. Detection has to be earned: without an authoritative threat class (a known rule id or a mapped
  classtype) the score stays at or below 50, under the detection gate of 60, and a match on free-text
  tokens alone stays at or below 39, under the advisory floor of 40.
\<close>

theorem detection_is_earned:
  assumes "read_features d = Inr f" and "score k d = Inr r" and "authoritative f = []"
  shows "score_value r \<le> 50 \<and> (token_classes f \<noteq> [] \<longrightarrow> score_value r \<le> 39)"
  using assms local_score_unearned [OF assms(3)] by (auto simp: score_Inr matched_Nil_iff)

theorem detection_is_earned_witness:
  "\<exists>f r. read_features [(''suricata_signature'', PStr ''c2''), (''suricata_sev'', PInt 1)] = Inr f \<and>
     score PackageUnavailable [(''suricata_signature'', PStr ''c2''), (''suricata_sev'', PInt 1)] = Inr r \<and>
     token_classes f = [''c2''] \<and> score_value r \<le> 39"
proof -
  have "\<exists>f. read_features [(''suricata_signature'', PStr ''c2''), (''suricata_sev'', PInt 1)] = Inr f \<and>
     token_classes f = [''c2''] \<and> authoritative f = []"
    by (simp add: score_eval)
  then obtain f where f: "read_features [(''suricata_signature'', PStr ''c2''), (''suricata_sev'', PInt 1)] = Inr f"
    "token_classes f = [''c2'']" "authoritative f = []" by blast
  then obtain r where r: "score PackageUnavailable [(''suricata_signature'', PStr ''c2''), (''suricata_sev'', PInt 1)] = Inr r"
    by (auto simp: score_Inr)
  from detection_is_earned [OF f(1) r f(3)] f r show ?thesis by simp
qed

text \<open>
  Every alert of a deception rule reaches the detection gate: its score is at least 60 for any
  severity, ports, verdict and text.
\<close>

theorem deception_floor_holds:
  assumes "read_features d = Inr f" and "score k d = Inr r" and "sid f \<in> set DECEPTION_SIDS"
  shows "60 \<le> score_value r"
  using assms by (auto simp: score_Inr local_score_def cap_scores)

theorem deception_floor_holds_witness:
  "\<exists>r. score PackageUnavailable [(''suricata_sid'', PInt 9901101)] = Inr r \<and> 60 \<le> score_value r"
proof -
  have "\<exists>f. read_features [(''suricata_sid'', PInt 9901101)] = Inr f \<and> sid f \<in> set DECEPTION_SIDS"
    by (simp add: score_eval)
  then obtain f where f: "read_features [(''suricata_sid'', PInt 9901101)] = Inr f" "sid f \<in> set DECEPTION_SIDS" by blast
  then obtain r where "score PackageUnavailable [(''suricata_sid'', PInt 9901101)] = Inr r" by (auto simp: score_Inr)
  with deception_floor_holds [OF f(1) this f(2)] show ?thesis by blast
qed

text \<open>
  The reported verdict can only raise the score: whatever verdict an alert carries, reporting it
  as blocked instead never gives a lower score.
\<close>

theorem contained_verdict_never_lowers:
  "fst (local_score (f\<lparr>verdict := v\<rparr>)) \<le> fst (local_score (f\<lparr>verdict := ''blocked''\<rparr>))"
proof -
  have "fst (raw_score (f\<lparr>verdict := v\<rparr>)) \<le> fst (raw_score (f\<lparr>verdict := ''blocked''\<rparr>))"
    by (simp add: raw_score_value contained_def)
  then show ?thesis unfolding local_score_def caps_frame by (rule caps_mono)
qed

text \<open>
  A malformed number in an alert degrades to a default, with one exception the coercion does not
  catch: \<open>score\<close> raises exactly when one of its three integer fields is an infinite float
  (as the JSON number \<open>1e999\<close> is read), and then it raises \<open>OverflowError\<close>.
\<close>

theorem score_raises_on_infinity:
  "score k d = Inl e \<longleftrightarrow> e = OverflowError [] \<and>
     (\<exists>b. dget d ''suricata_sev'' = PFloat (FInf b) \<or> dget d ''suricata_sid'' = PFloat (FInf b) \<or> dget d ''target_port'' = PFloat (FInf b))"
proof -
  have finite_iff: "(\<exists>a. as_int v = Inr a) \<longleftrightarrow> \<not> (\<exists>b. v = PFloat (FInf b))" for v
    using as_int_cases [of v "OverflowError []"] as_int_cases [of v] by (cases "as_int v") (auto simp del: as_int.simps)
  have "score k d = Inl e \<longleftrightarrow> read_features d = Inl e"
    by (auto simp: score_def ebind_Inl_iff)
  also have "\<dots> \<longleftrightarrow> e = OverflowError [] \<and>
     (\<exists>b. dget d ''suricata_sev'' = PFloat (FInf b) \<or> dget d ''suricata_sid'' = PFloat (FInf b) \<or> dget d ''target_port'' = PFloat (FInf b))"
    unfolding read_features_def ebind3_Inl as_int_cases finite_iff by blast
  finally show ?thesis .
qed

end
