(* ===== verification/Hypotheses.thy ===== *)
theory Hypotheses
  imports Prelude
begin

text \<open>
  The hypothesis lifecycle of the reasoning loop (\<open>py/azazel_edge/mio/lifecycle.py\<close>, first
  part): statuses and the transition policy, the evidence each status needs, the all-or-nothing
  update a model may propose, and the audit entries each step leaves.
\<close>

section \<open>Data\<close>

datatype hstatus = Proposed | Active | Weakened | Strengthened | Falsified | Unresolved | Superseded

fun hstatus_value :: "hstatus \<Rightarrow> string" where
  "hstatus_value Proposed = ''proposed''"
| "hstatus_value Active = ''active''"
| "hstatus_value Weakened = ''weakened''"
| "hstatus_value Strengthened = ''strengthened''"
| "hstatus_value Falsified = ''falsified''"
| "hstatus_value Unresolved = ''unresolved''"
| "hstatus_value Superseded = ''superseded''"

record hypothesis =
  hypothesis_id :: string
  statement :: string
  status :: hstatus
  supporting_evidence_refs :: "string list"
  contradicting_evidence_refs :: "string list"
  assumptions :: "string list"
  falsification_conditions :: "string list"
  expected_observations :: "string list"
  missing_evidence :: "string list"

definition TERMINAL_HYPOTHESIS_STATUSES :: "hstatus list" where
  "TERMINAL_HYPOTHESIS_STATUSES = [Falsified, Superseded]"

definition ENTRY_HYPOTHESIS_STATUSES :: "hstatus list" where
  "ENTRY_HYPOTHESIS_STATUSES = [Proposed, Active]"

definition FROM_ACTIVE :: "hstatus list" where
  "FROM_ACTIVE = [Active, Strengthened, Weakened, Falsified, Unresolved, Superseded]"

fun ALLOWED_HYPOTHESIS_TRANSITIONS :: "hstatus \<Rightarrow> hstatus list" where
  "ALLOWED_HYPOTHESIS_TRANSITIONS Proposed = Proposed # FROM_ACTIVE"
| "ALLOWED_HYPOTHESIS_TRANSITIONS Active = FROM_ACTIVE"
| "ALLOWED_HYPOTHESIS_TRANSITIONS Strengthened = FROM_ACTIVE"
| "ALLOWED_HYPOTHESIS_TRANSITIONS Weakened = FROM_ACTIVE"
| "ALLOWED_HYPOTHESIS_TRANSITIONS Unresolved = FROM_ACTIVE"
| "ALLOWED_HYPOTHESIS_TRANSITIONS Falsified = [Falsified]"
| "ALLOWED_HYPOTHESIS_TRANSITIONS Superseded = [Superseded]"

record audit_entry =
  ae_hypothesis_id :: string
  from_status :: string
  to_status :: string
  ae_reason :: string
  ae_evidence_refs :: "string list"
  ae_falsification_conditions :: "string list"
  ae_statement :: string

record lifecycle_result =
  lr_ok :: bool
  lr_hypotheses :: "hypothesis list"
  lr_audit :: "audit_entry list"
  lr_errors :: "string list"

section \<open>Operations\<close>

definition audit_entry_dict :: "audit_entry \<Rightarrow> pyval" where
  "audit_entry_dict e = PDict
     [(''hypothesis_id'', PStr (ae_hypothesis_id e)), (''from_status'', PStr (from_status e)),
      (''to_status'', PStr (to_status e)), (''reason'', PStr (ae_reason e)),
      (''evidence_refs'', PList (map PStr (ae_evidence_refs e))),
      (''falsification_conditions'', PList (map PStr (ae_falsification_conditions e))),
      (''statement'', PStr (ae_statement e))]"

definition cited_refs :: "hypothesis \<Rightarrow> string list" where
  "cited_refs h = dedup (supporting_evidence_refs h @ contradicting_evidence_refs h)"

definition entry :: "hypothesis \<Rightarrow> string \<Rightarrow> string \<Rightarrow> audit_entry" where
  "entry h from rsn = \<lparr>ae_hypothesis_id = hypothesis_id h, from_status = from,
     to_status = hstatus_value (status h), ae_reason = rsn, ae_evidence_refs = cited_refs h,
     ae_falsification_conditions = falsification_conditions h, ae_statement = statement h\<rparr>"

definition refs_outside :: "hypothesis \<Rightarrow> string list \<Rightarrow> string list option \<Rightarrow> string list" where
  "refs_outside h refs allowed =
     (case allowed of
        None \<Rightarrow> []
      | Some ok \<Rightarrow> map (\<lambda>r. ''lifecycle_ref_outside_context:'' @ hypothesis_id h @ '':'' @ r)
          (filter (\<lambda>r. r \<notin> set ok) refs))"

definition evidence_errors :: "hypothesis \<Rightarrow> string list option \<Rightarrow> string list" where
  "evidence_errors h allowed =
     (case status h of
        Strengthened \<Rightarrow>
          (if supporting_evidence_refs h = []
           then [''strengthened_without_supporting_evidence:'' @ hypothesis_id h] else [])
          @ refs_outside h (supporting_evidence_refs h) allowed
      | Weakened \<Rightarrow>
          (if contradicting_evidence_refs h = [] \<and> missing_evidence h = []
           then [''weakened_without_refuting_evidence_or_gap:'' @ hypothesis_id h] else [])
          @ refs_outside h (contradicting_evidence_refs h) allowed
      | Falsified \<Rightarrow> refs_outside h (contradicting_evidence_refs h) allowed
      | _ \<Rightarrow> [])"

definition validate_initial_hypotheses :: "hypothesis list \<Rightarrow> string list" where
  "validate_initial_hypotheses hs =
     map (\<lambda>h. ''initial_hypothesis_must_start_proposed:'' @ hypothesis_id h @ '':'' @ hstatus_value (status h))
       (filter (\<lambda>h. status h \<notin> set ENTRY_HYPOTHESIS_STATUSES) hs)"

definition record_initial :: "hypothesis list \<Rightarrow> audit_entry list" where
  "record_initial hs = map (\<lambda>h. entry h [] ''proposed_by_model'') hs"

text \<open>\<open>{h.hypothesis_id: h for h in previous}\<close>: of equal ids the last entry counts.\<close>

definition prior_of :: "hypothesis list \<Rightarrow> string \<Rightarrow> hypothesis option" where
  "prior_of previous i = map_of (rev (map (\<lambda>h. (hypothesis_id h, h)) previous)) i"

text \<open>One turn of the loop over the proposed hypotheses: the errors, audit entries and output it appends.\<close>

definition update_one ::
    "(string \<Rightarrow> hypothesis option) \<Rightarrow> string list option \<Rightarrow> hypothesis \<Rightarrow>
     string list \<times> audit_entry list \<times> hypothesis list" where
  "update_one prior allowed h =
     (case prior (hypothesis_id h) of
        None \<Rightarrow>
          ((if status h \<notin> set ENTRY_HYPOTHESIS_STATUSES
            then [''new_hypothesis_must_start_proposed:'' @ hypothesis_id h @ '':'' @ hstatus_value (status h)] else []),
           [entry h [] ''proposed_in_update''], [h])
      | Some before \<Rightarrow>
          if status h \<notin> set (ALLOWED_HYPOTHESIS_TRANSITIONS (status before)) then
            ([''invalid_hypothesis_transition:'' @ hypothesis_id h @ '':'' @ hstatus_value (status before) @ ''->''
               @ hstatus_value (status h)], [], [])
          else if status before \<in> set TERMINAL_HYPOTHESIS_STATUSES then
            ((if h \<noteq> before
              then [''terminal_hypothesis_modified:'' @ hypothesis_id h @ '':'' @ hstatus_value (status before)] else []),
             [], [before])
          else
            (evidence_errors h allowed
             @ (if status h = Falsified \<and> falsification_conditions h = [] \<and> falsification_conditions before = []
                then [''falsified_without_falsification_condition:'' @ hypothesis_id h] else [])
             @ (if status h = Falsified \<and> contradicting_evidence_refs h = []
                then [''falsified_without_contradicting_evidence:'' @ hypothesis_id h] else []),
             (if status h \<noteq> status before then [entry h (hstatus_value (status before)) ''revised_by_evidence'']
              else if h \<noteq> before then [entry h (hstatus_value (status before)) ''content_revised''] else []),
             [h]))"

definition carried :: "hypothesis list \<Rightarrow> hypothesis list \<Rightarrow> hypothesis list" where
  "carried previous proposed = filter (\<lambda>b. hypothesis_id b \<notin> hypothesis_id ` set proposed) previous"

definition carried_entry :: "hypothesis \<Rightarrow> audit_entry" where
  "carried_entry b = \<lparr>ae_hypothesis_id = hypothesis_id b, from_status = hstatus_value (status b),
     to_status = hstatus_value (status b), ae_reason = ''carried_forward_omitted_by_update'',
     ae_evidence_refs = [], ae_falsification_conditions = falsification_conditions b, ae_statement = statement b\<rparr>"

definition update_errors :: "hypothesis list \<Rightarrow> hypothesis list \<Rightarrow> string list option \<Rightarrow> string list" where
  "update_errors previous proposed allowed =
     concat (map (\<lambda>h. fst (update_one (prior_of previous) allowed h)) proposed)"

definition apply_hypothesis_update ::
    "hypothesis list \<Rightarrow> hypothesis list \<Rightarrow> string list option \<Rightarrow> lifecycle_result" where
  "apply_hypothesis_update previous proposed allowed =
     (let turns = map (update_one (prior_of previous) allowed) proposed;
          errors = concat (map fst turns);
          audit = concat (map (\<lambda>r. fst (snd r)) turns) @ map carried_entry (carried previous proposed);
          out = concat (map (\<lambda>r. snd (snd r)) turns) @ carried previous proposed
      in if errors \<noteq> [] then \<lparr>lr_ok = False, lr_hypotheses = previous, lr_audit = [], lr_errors = errors\<rparr>
         else \<lparr>lr_ok = True, lr_hypotheses = out, lr_audit = audit, lr_errors = []\<rparr>)"

definition supersede_all :: "hypothesis list \<Rightarrow> string \<Rightarrow> audit_entry list" where
  "supersede_all hs rsn =
     map (\<lambda>h. \<lparr>ae_hypothesis_id = hypothesis_id h, from_status = hstatus_value (status h),
            to_status = hstatus_value Superseded, ae_reason = rsn, ae_evidence_refs = cited_refs h,
            ae_falsification_conditions = falsification_conditions h, ae_statement = statement h\<rparr>)
       (filter (\<lambda>h. status h \<notin> set TERMINAL_HYPOTHESIS_STATUSES) hs)"

text \<open>A run of updates, each applied to the outcome of the one before; rejected updates change nothing.\<close>

fun run_updates :: "hypothesis list \<Rightarrow> (hypothesis list \<times> string list option) list \<Rightarrow> hypothesis list" where
  "run_updates hs [] = hs"
| "run_updates hs ((p, a) # us) = run_updates (lr_hypotheses (apply_hypothesis_update hs p a)) us"

section \<open>Lemmas\<close>

lemma prior_of_Some: "prior_of hs i = Some h \<Longrightarrow> h \<in> set hs \<and> hypothesis_id h = i"
  by (auto simp: prior_of_def dest!: map_of_SomeD)

lemma prior_of_None: "prior_of hs i = None \<longleftrightarrow> i \<notin> hypothesis_id ` set hs"
  by (auto simp: prior_of_def map_of_eq_None_iff image_image)

lemma prior_of_distinct:
  assumes "distinct (map hypothesis_id hs)" and "h \<in> set hs"
  shows "prior_of hs (hypothesis_id h) = Some h"
  unfolding prior_of_def using assms
  by (intro map_of_is_SomeI) (auto simp: rev_map [symmetric] o_def)

lemma update_ok_iff:
  "lr_ok (apply_hypothesis_update prev props allowed) \<longleftrightarrow>
     (\<forall>h\<in>set props. fst (update_one (prior_of prev) allowed h) = [])"
  by (auto simp: apply_hypothesis_update_def Let_def)

lemma update_rejected:
  "\<not> lr_ok (apply_hypothesis_update prev props allowed) \<Longrightarrow>
     lr_hypotheses (apply_hypothesis_update prev props allowed) = prev
     \<and> lr_audit (apply_hypothesis_update prev props allowed) = []"
  by (auto simp: apply_hypothesis_update_def Let_def split: if_splits)

text \<open>An accepted turn outputs the proposed hypothesis itself, unless it only repeated a terminal one.\<close>

lemma update_one_output: "fst (update_one prior allowed h) = [] \<Longrightarrow> snd (snd (update_one prior allowed h)) = [h]"
  by (auto simp: update_one_def split: option.splits if_splits)

lemma update_ok_hypotheses:
  assumes "lr_ok (apply_hypothesis_update prev props allowed)"
  shows "lr_hypotheses (apply_hypothesis_update prev props allowed) = props @ carried prev props"
proof -
  have "concat (map (\<lambda>r. snd (snd r)) (map (update_one (prior_of prev) allowed) props)) = props"
    using assms unfolding update_ok_iff by (induction props) (auto simp: update_one_output)
  then show ?thesis using assms
    by (auto simp: apply_hypothesis_update_def Let_def split: if_splits)
qed

lemma update_one_terminal:
  assumes "fst (update_one prior allowed h) = []" and "prior (hypothesis_id h) = Some b"
    and "status b \<in> set TERMINAL_HYPOTHESIS_STATUSES"
  shows "h = b"
  using assms by (auto simp: update_one_def split: if_splits)

lemma refs_outside_Nil: "refs_outside h refs allowed = [] \<longleftrightarrow> (\<forall>ok. allowed = Some ok \<longrightarrow> set refs \<subseteq> set ok)"
  by (auto simp: refs_outside_def filter_empty_conv split: option.splits)

lemma distinct_ids_update:
  assumes "distinct (map hypothesis_id prev)" and "distinct (map hypothesis_id props)"
  shows "distinct (map hypothesis_id (lr_hypotheses (apply_hypothesis_update prev props allowed)))"
proof (cases "lr_ok (apply_hypothesis_update prev props allowed)")
  case True
  have "distinct (map hypothesis_id (carried prev props))"
    using assms(1) by (simp add: carried_def distinct_map_filter)
  moreover have "hypothesis_id ` set props \<inter> hypothesis_id ` set (carried prev props) = {}"
    by (auto simp: carried_def) (metis imageI)
  ultimately show ?thesis using assms(2) by (simp add: update_ok_hypotheses [OF True])
next
  case False
  with assms(1) show ?thesis by (simp add: update_rejected)
qed

lemma terminal_kept_one:
  assumes d: "distinct (map hypothesis_id prev)" and h: "h \<in> set prev"
    and t: "status h \<in> set TERMINAL_HYPOTHESIS_STATUSES"
  shows "h \<in> set (lr_hypotheses (apply_hypothesis_update prev props allowed))"
proof (cases "lr_ok (apply_hypothesis_update prev props allowed)")
  case True
  show ?thesis
  proof (cases "hypothesis_id h \<in> hypothesis_id ` set props")
    case in_prop: True
    then obtain p where p: "p \<in> set props" "hypothesis_id p = hypothesis_id h" by auto
    with True have "fst (update_one (prior_of prev) allowed p) = []" by (auto simp: update_ok_iff)
    then have "p = h" using update_one_terminal [of "prior_of prev" allowed p h] prior_of_distinct [OF d h] p t by simp
    with p show ?thesis by (simp add: update_ok_hypotheses [OF True])
  next
    case False
    with h show ?thesis by (simp add: update_ok_hypotheses [OF True] carried_def)
  qed
next
  case False
  with h show ?thesis by (simp add: update_rejected)
qed

lemmas update_eval = apply_hypothesis_update_def update_one_def prior_of_def carried_def evidence_errors_def
  refs_outside_def FROM_ACTIVE_def TERMINAL_HYPOTHESIS_STATUSES_def ENTRY_HYPOTHESIS_STATUSES_def

section \<open>Properties\<close>

text \<open>
  Falsified and superseded hypotheses are final: through any sequence of proposed updates,
  accepted or rejected, a terminal hypothesis stays in the set unchanged in every field. The
  proposals are assumed to name each hypothesis once, which the grounding validator has checked
  before an update is applied.
\<close>

theorem terminal_hypotheses_are_final:
  assumes "distinct (map hypothesis_id hs)" and "\<forall>(p, a)\<in>set us. distinct (map hypothesis_id p)"
    and "h \<in> set hs" and "status h \<in> set TERMINAL_HYPOTHESIS_STATUSES"
  shows "h \<in> set (run_updates hs us)"
  using assms
proof (induction us arbitrary: hs)
  case (Cons u us)
  obtain p a where u: "u = (p, a)" by (cases u)
  have d: "distinct (map hypothesis_id p)" using Cons.prems(2) u by simp
  show ?case
    unfolding u run_updates.simps
    by (rule Cons.IH) (use Cons.prems d distinct_ids_update terminal_kept_one in auto)
qed simp

definition ex_hyp :: "string \<Rightarrow> hstatus \<Rightarrow> hypothesis" where
  "ex_hyp i s = \<lparr>hypothesis_id = i, statement = ''s'', status = s, supporting_evidence_refs = [''ev:auth:1''],
     contradicting_evidence_refs = [''ev:dns:2''], assumptions = [], falsification_conditions = [''c''],
     expected_observations = [], missing_evidence = []\<rparr>"

theorem terminal_hypotheses_are_final_witness:
  "ex_hyp ''h1'' Falsified \<in> set (run_updates [ex_hyp ''h1'' Falsified, ex_hyp ''h2'' Active]
     [([ex_hyp ''h1'' Active], None), ([ex_hyp ''h2'' Strengthened], Some [''ev:auth:1''])])"
  by (rule terminal_hypotheses_are_final) (simp_all add: ex_hyp_def TERMINAL_HYPOTHESIS_STATUSES_def)

text \<open>
  An update is applied completely or not at all, and never loses a hypothesis: when it is
  rejected the set is the previous one with no audit entry; when it is accepted the set consists of
  the proposed hypotheses followed by exactly those of the previous ones the proposal omitted.
\<close>

theorem update_all_or_nothing:
  "(\<not> lr_ok r \<longrightarrow> lr_hypotheses r = prev \<and> lr_audit r = [] \<and> lr_errors r \<noteq> [])
   \<and> (lr_ok r \<longrightarrow> lr_errors r = [] \<and>
        lr_hypotheses r = props @ filter (\<lambda>b. hypothesis_id b \<notin> hypothesis_id ` set props) prev)"
  if "r = apply_hypothesis_update prev props allowed"
  using that update_ok_hypotheses [of prev props allowed] update_rejected [of prev props allowed]
  by (auto simp: carried_def) (auto simp: apply_hypothesis_update_def Let_def split: if_splits)

theorem update_all_or_nothing_witness:
  "lr_hypotheses (apply_hypothesis_update [ex_hyp ''h1'' Falsified] [ex_hyp ''h1'' Active] None)
     = [ex_hyp ''h1'' Falsified]"
proof -
  have "\<not> lr_ok (apply_hypothesis_update [ex_hyp ''h1'' Falsified] [ex_hyp ''h1'' Active] None)"
    by (simp add: update_eval ex_hyp_def)
  then show ?thesis using update_all_or_nothing [OF refl, of "[ex_hyp ''h1'' Falsified]" "[ex_hyp ''h1'' Active]" None]
    by simp
qed

text \<open>
  What an accepted update guarantees for each proposed hypothesis: a new one enters as proposed
  or active; a known one makes an allowed transition; a strengthened one cites supporting evidence, a
  weakened one refuting evidence or a named gap, a falsified one contradicting evidence and a
  falsification condition; and where a context is given, the refs these statuses rest on belong to it.
\<close>

theorem accepted_update_is_grounded:
  assumes "lr_ok (apply_hypothesis_update prev props allowed)" and "h \<in> set props"
  shows "(case prior_of prev (hypothesis_id h) of
      None \<Rightarrow> status h \<in> {Proposed, Active}
    | Some b \<Rightarrow> status h \<in> set (ALLOWED_HYPOTHESIS_TRANSITIONS (status b)) \<and>
        (status b \<in> {Falsified, Superseded} \<longrightarrow> h = b) \<and>
        (status b \<notin> {Falsified, Superseded} \<longrightarrow>
          (status h = Strengthened \<longrightarrow> supporting_evidence_refs h \<noteq> [] \<and>
             (\<forall>ok. allowed = Some ok \<longrightarrow> set (supporting_evidence_refs h) \<subseteq> set ok)) \<and>
          (status h = Weakened \<longrightarrow> (contradicting_evidence_refs h \<noteq> [] \<or> missing_evidence h \<noteq> []) \<and>
             (\<forall>ok. allowed = Some ok \<longrightarrow> set (contradicting_evidence_refs h) \<subseteq> set ok)) \<and>
          (status h = Falsified \<longrightarrow> contradicting_evidence_refs h \<noteq> [] \<and>
             (falsification_conditions h \<noteq> [] \<or> falsification_conditions b \<noteq> []) \<and>
             (\<forall>ok. allowed = Some ok \<longrightarrow> set (contradicting_evidence_refs h) \<subseteq> set ok))))"
proof -
  have e: "fst (update_one (prior_of prev) allowed h) = []" using assms by (auto simp: update_ok_iff)
  show ?thesis
  proof (cases "prior_of prev (hypothesis_id h)")
    case None
    with e show ?thesis by (auto simp: update_one_def ENTRY_HYPOTHESIS_STATUSES_def split: if_splits)
  next
    case (Some b)
    with e show ?thesis
      by (auto simp: update_one_def TERMINAL_HYPOTHESIS_STATUSES_def evidence_errors_def refs_outside_Nil
          split: if_splits)
  qed
qed

theorem accepted_update_is_grounded_witness:
  "lr_ok (apply_hypothesis_update [ex_hyp ''h1'' Active] [ex_hyp ''h1'' Falsified] (Some [''ev:dns:2'']))
   \<and> contradicting_evidence_refs (ex_hyp ''h1'' Falsified) \<noteq> []"
proof -
  have ok: "lr_ok (apply_hypothesis_update [ex_hyp ''h1'' Active] [ex_hyp ''h1'' Falsified] (Some [''ev:dns:2'']))"
    by (simp add: update_eval ex_hyp_def)
  have "prior_of [ex_hyp ''h1'' Active] (hypothesis_id (ex_hyp ''h1'' Falsified)) = Some (ex_hyp ''h1'' Active)"
    "status (ex_hyp ''h1'' Active) = Active" "status (ex_hyp ''h1'' Falsified) = Falsified"
    by (simp_all add: prior_of_def ex_hyp_def)
  then show ?thesis using accepted_update_is_grounded [OF ok, of "ex_hyp ''h1'' Falsified"] ok by simp
qed

end
