(* ===== verification/Coordinator.thy ===== *)
theory Coordinator
  imports Hypotheses
begin

text \<open>
  The reasoning coordinator (\<open>py/azazel_edge/mio/lifecycle.py\<close>, second part): the material
  digest of a situation frame, cycle tickets, the bounded audit log, and the state machine that
  opens, supersedes, cancels, completes, evicts and restarts reasoning cycles.

  One call of a method is one step: each runs under the coordinator's lock. SHA-256 is the
  parameter \<open>sha\<close> of \<open>begin_cycle\<close>. An offered ticket is \<open>None\<close> when it is not a
  \<open>CycleTicket\<close> with the field types \<open>begin\<close> mints. A broker is an identity; closing it
  appends it to \<open>closed_brokers\<close>. JSON text is represented by the value it encodes, with sorted
  keys, since \<open>loads\<close> inverts \<open>dumps\<close> on it.
\<close>

section \<open>Data\<close>

record frame =
  schema_version :: string
  frame_id :: string
  trace_id :: string
  created_at :: string
  mission :: string
  current_defensive_state :: string
  threat_level :: string
  noc_summary :: string
  soc_summary :: string
  known_facts :: "string list"
  unknowns :: "string list"
  contradictions :: "string list"
  frame_evidence_refs :: "string list"
  knowledge_refs :: "string list"
  knowledge_status :: string
  deception_status :: string
  provenance :: "(string \<times> string list) list"
  freshness_seconds :: int
  truncated :: bool
  actors :: "pydict list"
  actions :: "pydict list"
  deception_context :: pyval

definition str_list :: "string list \<Rightarrow> pyval" where
  "str_list xs = PList (map PStr xs)"

definition frame_to_dict :: "frame \<Rightarrow> pydict" where
  "frame_to_dict f =
     [(''schema_version'', PStr (schema_version f)), (''frame_id'', PStr (frame_id f)), (''trace_id'', PStr (trace_id f)),
      (''created_at'', PStr (created_at f)), (''mission'', PStr (mission f)),
      (''current_defensive_state'', PStr (current_defensive_state f)), (''threat_level'', PStr (threat_level f)),
      (''noc_summary'', PStr (noc_summary f)), (''soc_summary'', PStr (soc_summary f)),
      (''known_facts'', str_list (known_facts f)), (''unknowns'', str_list (unknowns f)),
      (''contradictions'', str_list (contradictions f)), (''evidence_refs'', str_list (frame_evidence_refs f)),
      (''knowledge_refs'', str_list (knowledge_refs f)), (''knowledge_status'', PStr (knowledge_status f)),
      (''deception_status'', PStr (deception_status f)),
      (''provenance'', PDict (map (\<lambda>gs. (fst gs, str_list (snd gs))) (provenance f))),
      (''freshness_seconds'', PInt (freshness_seconds f)), (''truncated'', PBool (truncated f)),
      (''actors'', PList (map PDict (actors f))), (''actions'', PList (map PDict (actions f))),
      (''deception_context'', deception_context f)]"

datatype cstatus = InFlight | Accepted | CSuperseded | Cancelled | AbandonedOnRestart | RestoredStale

fun cstatus_value :: "cstatus \<Rightarrow> string" where
  "cstatus_value InFlight = ''in_flight''"
| "cstatus_value Accepted = ''accepted''"
| "cstatus_value CSuperseded = ''superseded''"
| "cstatus_value Cancelled = ''cancelled''"
| "cstatus_value AbandonedOnRestart = ''abandoned_on_restart''"
| "cstatus_value RestoredStale = ''restored_stale''"

record ticket =
  t_trace :: string
  t_cycle :: string
  t_epoch :: int
  t_frame :: string
  t_digest :: string
  deduplicated :: bool

record cycle =
  c_ticket :: ticket
  c_status :: cstatus
  c_outcome_state :: string
  c_advisory_id :: string
  c_discards :: nat

record outcome =
  o_state :: string
  o_hypotheses :: "hypothesis list"
  o_advisory_id :: string

record completion =
  accepted :: bool
  cycle_status :: string
  cr_reason :: string
  cr_outcome :: "outcome option"

record coord =
  max_traces :: nat
  max_retained :: nat
  max_audit :: nat
  epoch :: int
  next_cycle :: nat
  cycles :: "(string \<times> cycle) list"
  latest :: "(string \<times> string) list"
  current :: "(string \<times> outcome option) list"
  audit :: "pyval list"
  audit_seq :: int
  audit_dropped :: nat
  unattributed :: "(string \<times> nat) list"
  brokers :: "(string \<times> nat) list"
  closed_brokers :: "nat list"

section \<open>Material frame identity\<close>

definition NON_MATERIAL_ACTOR_FIELDS :: "string list" where
  "NON_MATERIAL_ACTOR_FIELDS = [''event_count'', ''first_seen'', ''last_seen'', ''distinct_target_ports'', ''evidence_refs'']"

definition NON_MATERIAL_FRAME_FIELDS :: "string list" where
  "NON_MATERIAL_FRAME_FIELDS = [''frame_id'', ''created_at'', ''freshness_seconds'', ''provenance'']"

definition UNORDERED_FRAME_LISTS :: "string list" where
  "UNORDERED_FRAME_LISTS = [''known_facts'', ''unknowns'', ''contradictions'', ''evidence_refs'', ''knowledge_refs'']"

fun material_actors :: "pyval \<Rightarrow> pyval" where
  "material_actors (PList xs) =
     PList (map (\<lambda>a. PDict (filter (\<lambda>kv. fst kv \<notin> set NON_MATERIAL_ACTOR_FIELDS) (dict_of a))) xs)"
| "material_actors v = v"

text \<open>\<open>sorted\<close> on a list of strings.\<close>

fun sorted_value :: "pyval \<Rightarrow> pyval" where
  "sorted_value (PList xs) = str_list (sort (map py_str xs))"
| "sorted_value v = v"

definition on_key :: "(pyval \<Rightarrow> pyval) \<Rightarrow> string \<Rightarrow> pydict \<Rightarrow> pydict" where
  "on_key g k d = AList.update k (g (dget d k)) d"

definition material_payload :: "frame \<Rightarrow> pydict" where
  "material_payload f =
     (let payload = filter (\<lambda>kv. fst kv \<notin> set NON_MATERIAL_FRAME_FIELDS) (frame_to_dict f)
      in fold (on_key sorted_value) UNORDERED_FRAME_LISTS (on_key material_actors ''actors'' payload))"

definition material_frame_digest :: "(string \<Rightarrow> string) \<Rightarrow> frame \<Rightarrow> string" where
  "material_frame_digest sha f = sha (json_dumps (PDict (material_payload f)))"

section \<open>Audit\<close>

definition AUDIT_TEXT_LIMIT :: nat where "AUDIT_TEXT_LIMIT = 160"
definition AUDIT_LIST_LIMIT :: nat where "AUDIT_LIST_LIMIT = 8"
definition AUDIT_HYPOTHESES_LIMIT :: nat where "AUDIT_HYPOTHESES_LIMIT = 6"
definition ID_LIMIT :: nat where "ID_LIMIT = 192"

text \<open>The recursion of \<open>_bound\<close> with the depth still allowed (three levels of containers).\<close>

fun bound :: "nat \<Rightarrow> pyval \<Rightarrow> pyval" where
  "bound n PNone = PNone"
| "bound n (PBool b) = PBool b"
| "bound n (PInt i) = PInt i"
| "bound n (PFloat f) = PStr (take AUDIT_TEXT_LIMIT (float_repr f))"
| "bound n (PStr s) = PStr (take AUDIT_TEXT_LIMIT s)"
| "bound n (PList xs) =
     (if n < 3 then PList (take AUDIT_LIST_LIMIT (map (bound (Suc n)) xs))
      else PStr (take AUDIT_TEXT_LIMIT (py_repr (PList xs))))"
| "bound n (PDict d) =
     (if n < 3 then PDict (dupdate [] (take 16 (map (\<lambda>kv. (take 64 (fst kv), bound (Suc n) (snd kv))) d)))
      else PStr (take AUDIT_TEXT_LIMIT (py_repr (PDict d))))"

definition cycle_fields :: "cycle \<Rightarrow> pydict" where
  "cycle_fields c = [(''trace_id'', PStr (t_trace (c_ticket c))), (''cycle_id'', PStr (t_cycle (c_ticket c))),
     (''frame_id'', PStr (t_frame (c_ticket c))), (''cycle_status'', PStr (cstatus_value (c_status c)))]"

definition log_row :: "coord \<Rightarrow> string \<Rightarrow> cycle option \<Rightarrow> pydict \<Rightarrow> pyval" where
  "log_row s event c extra =
     PDict (dupdate
       ([(''seq'', PInt (audit_seq s + 1)), (''epoch'', PInt (epoch s)), (''event'', PStr event)]
        @ (case c of None \<Rightarrow> [] | Some c' \<Rightarrow> cycle_fields c'))
       extra)"

definition log_event :: "string \<Rightarrow> cycle option \<Rightarrow> pydict \<Rightarrow> coord \<Rightarrow> coord" where
  "log_event event c extra s =
     (let rows = audit s @ [bound 0 (log_row s event c extra)];
          s' = s\<lparr>audit_seq := audit_seq s + 1, audit := rows\<rparr>
      in if length rows > max_audit s
         then s'\<lparr>audit := tl rows, audit_dropped := Suc (audit_dropped s)\<rparr> else s')"

definition audit_rows :: "coord \<Rightarrow> string option \<Rightarrow> pyval list" where
  "audit_rows s tr =
     filter (\<lambda>r. case tr of None \<Rightarrow> True | Some t \<Rightarrow> dget (dict_of r) ''trace_id'' = PStr t) (audit s)"

definition discards_for :: "coord \<Rightarrow> string \<Rightarrow> nat option" where
  "discards_for s cid = map_option c_discards (map_of (cycles s) cid)"

definition unattributed_discards :: "coord \<Rightarrow> (string \<times> nat) list" where
  "unattributed_discards s = sort_key fst (unattributed s)"

section \<open>Cycles\<close>

definition init_coord :: "int \<Rightarrow> int \<Rightarrow> int \<Rightarrow> int \<Rightarrow> pyexc + coord" where
  "init_coord traces retained audit_max ep =
     (if ep < 0 then Inl (ValueError ''invalid_coordinator_epoch'')
      else Inr \<lparr>max_traces = nat (max 1 traces), max_retained = nat (max 1 retained), max_audit = nat (max 1 audit_max),
        epoch = ep, next_cycle = 1, cycles = [], latest = [], current = [], audit = [], audit_seq = 0,
        audit_dropped = 0, unattributed = [], brokers = [], closed_brokers = []\<rparr>)"

definition is_in_flight :: "cycle \<Rightarrow> bool" where
  "is_in_flight c = (c_status c = InFlight)"

definition finished_ids :: "coord \<Rightarrow> string list" where
  "finished_ids s = map fst (filter (\<lambda>kc. \<not> is_in_flight (snd kc)) (cycles s))"

definition in_flight_ids :: "coord \<Rightarrow> string list" where
  "in_flight_ids s = map fst (filter (\<lambda>kc. is_in_flight (snd kc)) (cycles s))"

definition evict :: "string \<Rightarrow> coord \<Rightarrow> coord" where
  "evict cid s =
     (case map_of (cycles s) cid of
        None \<Rightarrow> s
      | Some c \<Rightarrow>
          (let tr = t_trace (c_ticket c);
               s1 = s\<lparr>cycles := AList.delete cid (cycles s)\<rparr>;
               s2 = (if map_of (latest s) tr = Some cid
                     then (let s' = s1\<lparr>latest := AList.delete tr (latest s), current := AList.delete tr (current s)\<rparr>
                           in case map_of (current s) tr of
                                Some (Some _) \<Rightarrow> log_event ''current_advisory_evicted'' (Some c) [] s'
                              | _ \<Rightarrow> s')
                     else s1)
           in log_event ''cycle_evicted'' (Some c) [] s2))"

definition prune :: "coord \<Rightarrow> coord" where
  "prune s = fold evict (take (length (finished_ids s) - max_retained s) (finished_ids s)) s"

definition close_broker :: "string \<Rightarrow> coord \<Rightarrow> coord" where
  "close_broker cid s =
     (case map_of (brokers s) cid of
        None \<Rightarrow> s
      | Some b \<Rightarrow> s\<lparr>brokers := AList.delete cid (brokers s), closed_brokers := closed_brokers s @ [b]\<rparr>)"

text \<open>
  \<open>begin\<close> looks the latest cycle up only under a non-empty identity; \<open>cancel\<close> looks up the
  empty identity when the trace has none.
\<close>

definition latest_cycle :: "coord \<Rightarrow> string \<Rightarrow> cycle option" where
  "latest_cycle s tr =
     (case map_of (latest s) tr of
        None \<Rightarrow> None
      | Some cid \<Rightarrow> if cid = [] then None else map_of (cycles s) cid)"

definition cancel_target :: "coord \<Rightarrow> string \<Rightarrow> cycle option" where
  "cancel_target s tr = map_of (cycles s) (case map_of (latest s) tr of None \<Rightarrow> [] | Some cid \<Rightarrow> cid)"

definition cycle_id_text :: "string \<Rightarrow> int \<Rightarrow> nat \<Rightarrow> string" where
  "cycle_id_text tr ep n = tr @ '':e'' @ int_str ep @ '':c'' @ nat_str n"

definition put_cycle :: "cycle \<Rightarrow> coord \<Rightarrow> coord" where
  "put_cycle c s = s\<lparr>cycles := AList.update (t_cycle (c_ticket c)) c (cycles s)\<rparr>"

definition supersede :: "string \<Rightarrow> cycle \<Rightarrow> coord \<Rightarrow> coord" where
  "supersede new_id c s =
     (let c' = c\<lparr>c_status := CSuperseded\<rparr>
      in close_broker (t_cycle (c_ticket c))
           (log_event ''cycle_superseded'' (Some c') [(''superseded_by'', PStr new_id)] (put_cycle c' s)))"

definition retire :: "string \<Rightarrow> string \<Rightarrow> cycle \<Rightarrow> coord \<Rightarrow> coord" where
  "retire tr new_id c s =
     log_event ''current_advisory_retired'' (Some c) [(''superseded_by'', PStr new_id)]
       (s\<lparr>current := AList.delete tr (current s)\<rparr>)"

definition start_cycle :: "ticket \<Rightarrow> coord \<Rightarrow> coord" where
  "start_cycle tk s =
     (let c = \<lparr>c_ticket = tk, c_status = InFlight, c_outcome_state = [], c_advisory_id = [], c_discards = 0\<rparr>
      in prune (log_event ''cycle_started'' (Some c) [(''material_digest'', PStr (t_digest tk))]
           ((put_cycle c s)\<lparr>latest := AList.update (t_trace tk) (t_cycle tk) (latest s)\<rparr>)))"

definition open_cycle :: "cycle option \<Rightarrow> bool" where
  "open_cycle lat = (case lat of Some c \<Rightarrow> is_in_flight c | None \<Rightarrow> False)"

text \<open>The two conditional steps of \<open>begin\<close> on the trace's latest cycle, once a ticket is minted.\<close>

definition displace :: "cycle option \<Rightarrow> ticket \<Rightarrow> coord \<Rightarrow> coord" where
  "displace lat tk s =
     (case lat of
        None \<Rightarrow> s
      | Some c \<Rightarrow>
          (let s1 = (if is_in_flight c then supersede (t_cycle tk) c s else s);
               c1 = (if is_in_flight c then c\<lparr>c_status := CSuperseded\<rparr> else c)
           in if has_key (current s1) (t_trace tk) \<and> t_digest (c_ticket c) \<noteq> t_digest tk
              then retire (t_trace tk) (t_cycle tk) c1 s1 else s1))"

definition mint :: "(string \<Rightarrow> string) \<Rightarrow> frame \<Rightarrow> coord \<Rightarrow> ticket" where
  "mint sha f s = \<lparr>t_trace = trace_id f, t_cycle = cycle_id_text (trace_id f) (epoch s) (next_cycle s), t_epoch = epoch s,
     t_frame = frame_id f, t_digest = material_frame_digest sha f, deduplicated = False\<rparr>"

definition begin_cycle :: "(string \<Rightarrow> string) \<Rightarrow> frame \<Rightarrow> coord \<Rightarrow> (pyexc + ticket) \<times> coord" where
  "begin_cycle sha f s =
     (let lat = latest_cycle s (trace_id f);
          reuse = (case lat of
              Some c \<Rightarrow> if is_in_flight c \<and> t_digest (c_ticket c) = material_frame_digest sha f then Some c else None
            | None \<Rightarrow> None)
      in case reuse of
           Some c \<Rightarrow> (Inr ((c_ticket c)\<lparr>deduplicated := True\<rparr>),
             log_event ''frame_not_material'' (Some c) [(''new_frame_id'', PStr (frame_id f))] s)
         | None \<Rightarrow>
             if \<not> open_cycle lat \<and> length (in_flight_ids s) \<ge> max_traces s
             then (Inl (RuntimeError ''reasoning_coordinator_backpressure''),
                   log_event ''begin_rejected_backpressure'' None
                     [(''trace_id'', PStr (trace_id f)), (''frame_id'', PStr (frame_id f))] s)
             else (Inr (mint sha f s),
                   start_cycle (mint sha f s)
                     (displace lat (mint sha f s) (s\<lparr>next_cycle := Suc (next_cycle s)\<rparr>))))"

definition same_cycle :: "ticket \<Rightarrow> ticket \<Rightarrow> bool" where
  "same_cycle t own \<longleftrightarrow> t_cycle t = t_cycle own \<and> t_trace t = t_trace own \<and> t_epoch t = t_epoch own
     \<and> t_frame t = t_frame own \<and> t_digest t = t_digest own"

definition ticket_status :: "coord \<Rightarrow> ticket option \<Rightarrow> cstatus option" where
  "ticket_status s tk =
     (case tk of
        None \<Rightarrow> None
      | Some t \<Rightarrow>
          (case map_of (cycles s) (t_cycle t) of
             None \<Rightarrow> None
           | Some c \<Rightarrow> if t_epoch t \<noteq> epoch s \<or> \<not> same_cycle t (c_ticket c) then None else Some (c_status c)))"

definition is_current :: "coord \<Rightarrow> ticket option \<Rightarrow> bool" where
  "is_current s tk = (ticket_status s tk = Some InFlight)"

definition cancel_check :: "coord \<Rightarrow> ticket option \<Rightarrow> bool" where
  "cancel_check s tk = (ticket_status s tk = Some Cancelled)"

definition stale_check :: "coord \<Rightarrow> ticket option \<Rightarrow> bool" where
  "stale_check s tk = (ticket_status s tk \<notin> {Some InFlight, Some Cancelled})"

definition cancel :: "string \<Rightarrow> string \<Rightarrow> coord \<Rightarrow> bool \<times> coord" where
  "cancel tr rsn s =
     (case cancel_target s tr of
        None \<Rightarrow> (False, s)
      | Some c \<Rightarrow>
          if \<not> is_in_flight c then (False, s)
          else (let c' = c\<lparr>c_status := Cancelled\<rparr>
                in (True, prune (close_broker (t_cycle (c_ticket c))
                     (log_event ''cycle_cancelled'' (Some c') [(''reason'', PStr (take 64 rsn))] (put_cycle c' s))))))"

text \<open>\<open>_stale_reason\<close>: both texts are empty exactly for the current in-flight cycle.\<close>

definition stale_reason :: "coord \<Rightarrow> ticket option \<Rightarrow> cycle option \<Rightarrow> string \<times> string" where
  "stale_reason s tk c =
     (case tk of
        None \<Rightarrow> (''stale_ticket_mismatch'', ''unknown'')
      | Some t \<Rightarrow>
          if (case c of Some c' \<Rightarrow> \<not> same_cycle t (c_ticket c') | None \<Rightarrow> False)
          then (''stale_ticket_mismatch'', ''unknown'')
          else if t_epoch t < epoch s then (''stale_pre_restart_cycle'', ''abandoned_on_restart'')
          else (case c of
              None \<Rightarrow> (''stale_unknown_or_evicted_cycle'', ''unknown'')
            | Some c' \<Rightarrow>
                if t_epoch t \<noteq> epoch s then (''stale_unknown_or_evicted_cycle'', ''unknown'')
                else (case c_status c' of
                    InFlight \<Rightarrow> ([], [])
                  | Cancelled \<Rightarrow> (''stale_cycle_cancelled'', cstatus_value Cancelled)
                  | Accepted \<Rightarrow> (''stale_cycle_already_completed'', cstatus_value Accepted)
                  | AbandonedOnRestart \<Rightarrow> (''stale_pre_restart_cycle'', cstatus_value AbandonedOnRestart)
                  | RestoredStale \<Rightarrow> (''stale_pre_restart_cycle'', cstatus_value RestoredStale)
                  | CSuperseded \<Rightarrow> (''stale_cycle_superseded'', cstatus_value CSuperseded))))"

definition outcome_state_of :: "outcome option \<Rightarrow> string" where
  "outcome_state_of oc = (case oc of None \<Rightarrow> [] | Some o' \<Rightarrow> o_state o')"

definition advisory_of :: "outcome option \<Rightarrow> string" where
  "advisory_of oc = (case oc of None \<Rightarrow> [] | Some o' \<Rightarrow> o_advisory_id o')"

definition audited_hypotheses :: "outcome option \<Rightarrow> hypothesis list" where
  "audited_hypotheses oc = (case oc of None \<Rightarrow> [] | Some o' \<Rightarrow> take AUDIT_HYPOTHESES_LIMIT (o_hypotheses o'))"

definition count_unattributed :: "string \<Rightarrow> coord \<Rightarrow> coord" where
  "count_unattributed rsn s = s\<lparr>unattributed :=
     AList.update rsn (Suc (case map_of (unattributed s) rsn of None \<Rightarrow> 0 | Some n \<Rightarrow> n)) (unattributed s)\<rparr>"

definition discard_for :: "ticket \<Rightarrow> cycle \<Rightarrow> string \<Rightarrow> outcome option \<Rightarrow> coord \<Rightarrow> coord" where
  "discard_for t c rsn oc s =
     (let c' = c\<lparr>c_discards := Suc (c_discards c)\<rparr>;
          s' = put_cycle c' s;
          h_reason = (if rsn = ''stale_cycle_cancelled'' then ''cycle_cancelled_by_operator''
                      else ''cycle_superseded_by_newer_frame'')
      in if c_discards c' = 1
         then log_event ''stale_result_discarded'' (Some c')
                [(''reason'', PStr rsn), (''ticket_epoch'', PInt (t_epoch t)), (''outcome_state'', PStr (outcome_state_of oc)),
                 (''advisory_id'', PStr (advisory_of oc)),
                 (''hypotheses'', PList (map audit_entry_dict (supersede_all (audited_hypotheses oc) h_reason)))] s'
         else s')"

definition accept :: "cycle \<Rightarrow> outcome option \<Rightarrow> coord \<Rightarrow> coord" where
  "accept c oc s =
     (let c' = c\<lparr>c_status := Accepted, c_outcome_state := take 64 (outcome_state_of oc),
                 c_advisory_id := take ID_LIMIT (advisory_of oc)\<rparr>;
          s' = put_cycle c' s
      in prune (log_event ''result_accepted'' (Some c')
           [(''outcome_state'', PStr (outcome_state_of oc)), (''advisory_id'', PStr (advisory_of oc))]
           (s'\<lparr>current := AList.update (t_trace (c_ticket c)) oc (current s')\<rparr>)))"

definition complete :: "ticket option \<Rightarrow> outcome option \<Rightarrow> coord \<Rightarrow> completion \<times> coord" where
  "complete tk oc s =
     (let c = (case tk of None \<Rightarrow> None | Some t \<Rightarrow> map_of (cycles s) (t_cycle t));
          r = stale_reason s tk c
      in if fst r \<noteq> [] then
           (\<lparr>accepted = False, cycle_status = snd r, cr_reason = fst r, cr_outcome = None\<rparr>,
            (case (tk, c) of
               (Some t, Some c') \<Rightarrow>
                 if same_cycle t (c_ticket c') then discard_for t c' (fst r) oc s else count_unattributed (fst r) s
             | _ \<Rightarrow> count_unattributed (fst r) s))
         else (case c of
             Some c' \<Rightarrow> (\<lparr>accepted = True, cycle_status = cstatus_value Accepted, cr_reason = ''current'', cr_outcome = oc\<rparr>,
                         accept c' oc s)
           | None \<Rightarrow> (\<lparr>accepted = False, cycle_status = [], cr_reason = [], cr_outcome = None\<rparr>, s)))"

definition attach_broker :: "ticket \<Rightarrow> nat \<Rightarrow> coord \<Rightarrow> coord" where
  "attach_broker t b s =
     (let s' = s\<lparr>brokers := AList.update (t_cycle t) b (brokers s)\<rparr>
      in case map_of (cycles s) (t_cycle t) of
           Some c \<Rightarrow> if is_in_flight c then s' else close_broker (t_cycle t) s'
         | None \<Rightarrow> close_broker (t_cycle t) s')"

definition detach_broker :: "ticket \<Rightarrow> coord \<Rightarrow> coord" where
  "detach_broker t s = close_broker (t_cycle t) s"

text \<open>
  \<open>run_cycle\<close>: \<open>loop\<close> is what happens between \<open>begin\<close> and \<open>complete\<close>, the other
  threads' calls on the coordinator and the outcome of \<open>loop.run\<close> or the exception it raised;
  \<open>new_broker\<close> is the broker \<open>for_new_cycle\<close> made, if the loop's broker has that method.
\<close>

definition run_cycle ::
    "(string \<Rightarrow> string) \<Rightarrow> frame \<Rightarrow> nat option \<Rightarrow> (coord \<Rightarrow> (pyexc + outcome option) \<times> coord) \<Rightarrow> coord \<Rightarrow>
     (pyexc + completion) \<times> coord" where
  "run_cycle sha f new_broker loop s =
     (case begin_cycle sha f s of
        (Inl e, s1) \<Rightarrow> (Inl e, s1)
      | (Inr tk, s1) \<Rightarrow>
          if deduplicated tk
          then (Inr \<lparr>accepted = False, cycle_status = cstatus_value InFlight, cr_reason = ''frame_not_material'', cr_outcome = None\<rparr>, s1)
          else
            (let s2 = (case new_broker of None \<Rightarrow> s1 | Some b \<Rightarrow> attach_broker tk b s1);
                 (res, s3) = loop s2;
                 s4 = (case new_broker of None \<Rightarrow> s3 | Some b \<Rightarrow> detach_broker tk s3)
             in case res of
                  Inl e \<Rightarrow> (Inl e, s4)
                | Inr oc \<Rightarrow> (let (r, s5) = complete (Some tk) oc s4 in (Inr r, s5))))"

definition current_outcome :: "coord \<Rightarrow> string \<Rightarrow> outcome option" where
  "current_outcome s tr = (case map_of (current s) tr of None \<Rightarrow> None | Some oc \<Rightarrow> oc)"

section \<open>Restart\<close>

definition SNAPSHOT_KEYS :: "string list" where
  "SNAPSHOT_KEYS = [''schema'', ''epoch'', ''next_cycle'', ''latest'', ''cycles'', ''audit'', ''audit_dropped'']"

definition CYCLE_TEXT_KEYS :: "string list" where
  "CYCLE_TEXT_KEYS = [''cycle_id'', ''trace_id'', ''frame_id'', ''material_digest'', ''status'', ''outcome_state'', ''advisory_id'']"

definition CYCLE_KEYS_LEGACY :: "string list" where
  "CYCLE_KEYS_LEGACY = ''epoch'' # CYCLE_TEXT_KEYS"

definition CYCLE_KEYS :: "string list" where
  "CYCLE_KEYS = ''discards'' # CYCLE_KEYS_LEGACY"

definition SNAPSHOT_SCHEMA :: string where
  "SNAPSHOT_SCHEMA = ''mio.reasoning_coordinator.v1''"

definition cycle_row :: "cycle \<Rightarrow> pydict" where
  "cycle_row c =
     [(''cycle_id'', PStr (t_cycle (c_ticket c))), (''trace_id'', PStr (t_trace (c_ticket c))),
      (''epoch'', PInt (t_epoch (c_ticket c))), (''frame_id'', PStr (t_frame (c_ticket c))),
      (''material_digest'', PStr (t_digest (c_ticket c))), (''status'', PStr (cstatus_value (c_status c))),
      (''outcome_state'', PStr (c_outcome_state c)), (''advisory_id'', PStr (c_advisory_id c)),
      (''discards'', PInt (int (c_discards c)))]"

definition snapshot :: "coord \<Rightarrow> pyval" where
  "snapshot s = sort_keys (PDict
     [(''schema'', PStr SNAPSHOT_SCHEMA), (''epoch'', PInt (epoch s)), (''next_cycle'', PInt (int (next_cycle s))),
      (''latest'', PDict (sort_key fst (map (\<lambda>tc. (fst tc, PStr (snd tc))) (latest s)))),
      (''cycles'', PList (map (\<lambda>kc. PDict (cycle_row (snd kc))) (cycles s))),
      (''audit'', PList (audit s)), (''audit_dropped'', PInt (int (audit_dropped s)))])"

definition cstatus_of :: "string \<Rightarrow> cstatus option" where
  "cstatus_of v =
     find (\<lambda>st. cstatus_value st = v) [InFlight, Accepted, CSuperseded, Cancelled, AbandonedOnRestart, RestoredStale]"

abbreviation malformed :: "pyexc + 'a" where
  "malformed \<equiv> Inl (ValueError ''malformed_coordinator_snapshot'')"

text \<open>The loop over \<open>payload["cycles"]\<close>; \<open>seen\<close> maps the cycle identities met to their traces.\<close>

fun check_rows :: "int \<Rightarrow> (string \<times> string) list \<Rightarrow> pyval list \<Rightarrow> pyexc + (string \<times> string) list" where
  "check_rows ep seen [] = Inr seen"
| "check_rows ep seen (v # vs) =
     (let row = dict_of v; keys = set (map fst row)
      in if \<not> is_dict v \<or> (keys \<noteq> set CYCLE_KEYS \<and> keys \<noteq> set CYCLE_KEYS_LEGACY) then malformed
         else if has_key row ''discards'' \<and> (\<not> is_int (dget row ''discards'') \<or> int_val (dget row ''discards'') < 0) then malformed
         else if (\<exists>k \<in> set CYCLE_TEXT_KEYS. \<not> is_text (dget row k) \<or> length (py_str (dget row k)) > ID_LIMIT) then malformed
         else if \<not> is_int (dget row ''epoch'') \<or> \<not> (0 \<le> int_val (dget row ''epoch'') \<and> int_val (dget row ''epoch'') \<le> ep)
         then Inl (ValueError ''invalid_cycle_epoch_in_snapshot'')
         else if cstatus_of (py_str (dget row ''status'')) = None then malformed
         else if has_key seen (py_str (dget row ''cycle_id'')) then Inl (ValueError ''duplicate_cycle_in_snapshot'')
         else check_rows ep (AList.update (py_str (dget row ''cycle_id'')) (py_str (dget row ''trace_id'')) seen) vs)"

definition latest_ok :: "(string \<times> string) list \<Rightarrow> string \<times> pyval \<Rightarrow> bool" where
  "latest_ok seen tc = (is_text (snd tc) \<and> map_of seen (py_str (snd tc)) = Some (fst tc))"

definition audit_row_ok :: "pyval \<Rightarrow> bool" where
  "audit_row_ok r = (is_dict r \<and> is_int (dget (dict_of r) ''seq'') \<and> is_text (dget (dict_of r) ''event''))"

text \<open>\<open>None\<close> stands for bytes that do not decode to JSON.\<close>

definition validate_snapshot :: "pyval option \<Rightarrow> pyexc + pydict" where
  "validate_snapshot snap =
     (case snap of
        None \<Rightarrow> malformed
      | Some v \<Rightarrow>
          (let d = dict_of v
           in if \<not> is_dict v \<or> dget d ''schema'' \<noteq> PStr SNAPSHOT_SCHEMA then Inl (ValueError ''unsupported_coordinator_snapshot'')
              else if set (map fst d) \<noteq> set SNAPSHOT_KEYS then malformed
              else if \<not> is_int (dget d ''epoch'') \<or> int_val (dget d ''epoch'') < 0
                      \<or> \<not> is_int (dget d ''next_cycle'') \<or> int_val (dget d ''next_cycle'') < 1 then malformed
              else if \<not> is_int (dget d ''audit_dropped'') \<or> int_val (dget d ''audit_dropped'') < 0 then malformed
              else if \<not> is_list (dget d ''cycles'') \<or> \<not> is_dict (dget d ''latest'') \<or> \<not> is_list (dget d ''audit'') then malformed
              else ebind (check_rows (int_val (dget d ''epoch'')) [] (list_val (dget d ''cycles''))) (\<lambda>seen.
                if \<not> list_all (latest_ok seen) (dict_of (dget d ''latest''))
                then Inl (ValueError ''inconsistent_latest_in_snapshot'')
                else if \<not> list_all audit_row_ok (list_val (dget d ''audit'')) then malformed
                else Inr d)))"

definition row_cycle :: "pydict \<Rightarrow> cycle" where
  "row_cycle row =
     \<lparr>c_ticket = \<lparr>t_trace = py_str (dget row ''trace_id''), t_cycle = py_str (dget row ''cycle_id''),
        t_epoch = int_val (dget row ''epoch''), t_frame = py_str (dget row ''frame_id''),
        t_digest = py_str (dget row ''material_digest''), deduplicated = False\<rparr>,
      c_status = (case cstatus_of (py_str (dget row ''status'')) of None \<Rightarrow> InFlight | Some st \<Rightarrow> st),
      c_outcome_state = py_str (dget row ''outcome_state''), c_advisory_id = py_str (dget row ''advisory_id''),
      c_discards = nat (int_val (dget row ''discards''))\<rparr>"

definition restore_cycle :: "cycle \<Rightarrow> coord \<Rightarrow> coord" where
  "restore_cycle c s =
     (case c_status c of
        InFlight \<Rightarrow>
          (let c' = c\<lparr>c_status := AbandonedOnRestart\<rparr>
           in log_event ''cycle_abandoned_on_restart'' (Some c') [] (put_cycle c' s))
      | Accepted \<Rightarrow>
          (let c' = c\<lparr>c_status := RestoredStale\<rparr>
           in log_event ''advisory_restored_as_stale'' (Some c') [(''advisory_id'', PStr (c_advisory_id c'))] (put_cycle c' s))
      | _ \<Rightarrow> put_cycle c s)"

text \<open>\<open>max((r["seq"] for r in rows), default=0)\<close>, with the \<open>KeyError\<close> of the subscript.\<close>

definition max_seq :: "pyval list \<Rightarrow> pyexc + int" where
  "max_seq rows =
     (if \<not> list_all (\<lambda>r. has_key (dict_of r) ''seq'') rows then Inl (KeyError ''seq'')
      else Inr (case map (\<lambda>r. int_val (dget (dict_of r) ''seq'')) rows of [] \<Rightarrow> 0 | x # xs \<Rightarrow> fold max xs x))"

definition restore :: "int \<Rightarrow> int \<Rightarrow> int \<Rightarrow> pyval option \<Rightarrow> pyexc + coord" where
  "restore traces retained audit_max snap =
     ebind (validate_snapshot snap) (\<lambda>d.
     ebind (init_coord traces retained audit_max (int_val (dget d ''epoch'') + 1)) (\<lambda>s0.
     let rows = lastn (max_audit s0) (map (bound 0) (list_val (dget d ''audit'')))
     in ebind (max_seq rows) (\<lambda>sq.
     Inr (prune (fold restore_cycle (map (\<lambda>v. row_cycle (dict_of v)) (list_val (dget d ''cycles'')))
       (s0\<lparr>next_cycle := nat (int_val (dget d ''next_cycle'')),
           latest := map (\<lambda>tc. (fst tc, py_str (snd tc))) (dict_of (dget d ''latest'')),
           audit := rows, audit_seq := sq, audit_dropped := nat (int_val (dget d ''audit_dropped''))\<rparr>))))))"

end
