(* ===== verification/Coordination.thy ===== *)
theory Coordination
  imports Coordinator
begin

text \<open>
  What the reasoning coordinator guarantees: its structural invariant is kept by every call and
  over restarts, a result becomes current exactly when its ticket names the in-flight cycle of its
  trace in this epoch, an advisory never outlives the material situation it was computed for, and
  a restart keeps the record but none of the authority.
\<close>

declare map_of_eq_Some_iff [simp del] Some_eq_map_of_iff [simp del]

section \<open>Invariant\<close>

definition in_flight_set :: "(string \<Rightarrow> cycle option) \<Rightarrow> string set" where
  "in_flight_set C = {k. \<exists>c. C k = Some c \<and> is_in_flight c}"

definition minted :: "coord \<Rightarrow> string \<Rightarrow> cycle \<Rightarrow> bool" where
  "minted s k c \<longleftrightarrow> t_cycle (c_ticket c) = k \<and> t_epoch (c_ticket c) \<le> epoch s \<and> 0 \<le> t_epoch (c_ticket c)
     \<and> \<not> deduplicated (c_ticket c) \<and> (\<exists>n < next_cycle s. k = cycle_id_text (t_trace (c_ticket c)) (t_epoch (c_ticket c)) n)"

definition well_keyed :: "coord \<Rightarrow> bool" where
  "well_keyed s \<longleftrightarrow> distinct (map fst (cycles s)) \<and> distinct (map fst (latest s)) \<and> distinct (map fst (current s))
     \<and> distinct (map fst (brokers s)) \<and> 0 < next_cycle s \<and> 0 \<le> epoch s"

text \<open>
  Every retained cycle carries the identity it is stored under; a trace's latest entry names a
  retained cycle of that trace; a cycle in flight is its trace's latest, of this epoch; only traces
  with a latest cycle have a current outcome; no ended cycle keeps a broker.
\<close>

definition linked :: "coord \<Rightarrow> bool" where
  "linked s \<longleftrightarrow>
     (\<forall>k c. map_of (cycles s) k = Some c \<longrightarrow> minted s k c)
     \<and> (\<forall>tr k. map_of (latest s) tr = Some k \<longrightarrow> (\<exists>c. map_of (cycles s) k = Some c \<and> t_trace (c_ticket c) = tr))
     \<and> (\<forall>k c. map_of (cycles s) k = Some c \<longrightarrow> is_in_flight c \<longrightarrow>
           map_of (latest s) (t_trace (c_ticket c)) = Some k \<and> t_epoch (c_ticket c) = epoch s)
     \<and> (\<forall>tr. map_of (current s) tr \<noteq> None \<longrightarrow> map_of (latest s) tr \<noteq> None)
     \<and> (\<forall>k c. map_of (cycles s) k = Some c \<longrightarrow> c_status c \<in> {CSuperseded, Cancelled} \<longrightarrow> map_of (brokers s) k = None)"

definition within_limits :: "coord \<Rightarrow> bool" where
  "within_limits s \<longleftrightarrow> card (in_flight_set (map_of (cycles s))) \<le> max_traces s \<and> length (audit s) \<le> max_audit s
     \<and> 0 < max_traces s \<and> 0 < max_retained s \<and> 0 < max_audit s"

definition core_inv :: "coord \<Rightarrow> bool" where
  "core_inv s \<longleftrightarrow> well_keyed s \<and> linked s \<and> within_limits s"

definition coord_inv :: "coord \<Rightarrow> bool" where
  "coord_inv s \<longleftrightarrow> core_inv s \<and> length (finished_ids s) \<le> max_retained s"

section \<open>What the elementary operations change\<close>

lemma log_event_simps [simp]:
  "max_traces (log_event e c x s) = max_traces s"
  "max_retained (log_event e c x s) = max_retained s"
  "max_audit (log_event e c x s) = max_audit s"
  "epoch (log_event e c x s) = epoch s"
  "next_cycle (log_event e c x s) = next_cycle s"
  "cycles (log_event e c x s) = cycles s"
  "latest (log_event e c x s) = latest s"
  "current (log_event e c x s) = current s"
  "unattributed (log_event e c x s) = unattributed s"
  "brokers (log_event e c x s) = brokers s"
  "closed_brokers (log_event e c x s) = closed_brokers s"
  by (simp_all add: log_event_def Let_def)

lemma log_event_audit:
  "length (audit s) \<le> max_audit s \<Longrightarrow>
   audit (log_event e c x s) = push_bounded (max_audit s) (bound 0 (log_row s e c x)) (audit s)"
  by (cases "length (audit s) = max_audit s") (auto simp: log_event_def Let_def push_bounded_full push_bounded_room)

interpretation coord_audit: bounded_log audit max_audit
  "\<lambda>s (e, c, x). bound 0 (log_row s e c x)" "\<lambda>(e, c, x) s. log_event e c x (s :: coord)"
  by unfold_locales (auto simp: log_event_audit)

lemma audit_bounded [simp]:
  "length (audit s) \<le> max_audit s \<Longrightarrow> n = max_audit s \<Longrightarrow> length (audit (log_event e c x s)) \<le> n"
  using coord_audit.push_keeps_bound [of s "(e, c, x)"] by simp

lemma put_cycle_simps [simp]:
  "max_traces (put_cycle c s) = max_traces s"
  "max_retained (put_cycle c s) = max_retained s"
  "max_audit (put_cycle c s) = max_audit s"
  "epoch (put_cycle c s) = epoch s"
  "next_cycle (put_cycle c s) = next_cycle s"
  "cycles (put_cycle c s) = AList.update (t_cycle (c_ticket c)) c (cycles s)"
  "latest (put_cycle c s) = latest s"
  "current (put_cycle c s) = current s"
  "audit (put_cycle c s) = audit s"
  "unattributed (put_cycle c s) = unattributed s"
  "brokers (put_cycle c s) = brokers s"
  "closed_brokers (put_cycle c s) = closed_brokers s"
  by (simp_all add: put_cycle_def)

lemma close_broker_simps [simp]:
  "max_traces (close_broker k s) = max_traces s"
  "max_retained (close_broker k s) = max_retained s"
  "max_audit (close_broker k s) = max_audit s"
  "epoch (close_broker k s) = epoch s"
  "next_cycle (close_broker k s) = next_cycle s"
  "cycles (close_broker k s) = cycles s"
  "latest (close_broker k s) = latest s"
  "current (close_broker k s) = current s"
  "audit (close_broker k s) = audit s"
  "unattributed (close_broker k s) = unattributed s"
  by (simp_all add: close_broker_def split: option.split)

lemma brokers_close [simp]: "brokers (close_broker k s) = AList.delete k (brokers s)"
proof (cases "map_of (brokers s) k")
  case None
  then have "k \<notin> fst ` set (brokers s)" by (simp add: map_of_eq_None_iff)
  with None show ?thesis by (simp add: close_broker_def)
qed (simp add: close_broker_def)

lemma evict_simps [simp]:
  "max_traces (evict k s) = max_traces s"
  "max_retained (evict k s) = max_retained s"
  "max_audit (evict k s) = max_audit s"
  "epoch (evict k s) = epoch s"
  "next_cycle (evict k s) = next_cycle s"
  "unattributed (evict k s) = unattributed s"
  "brokers (evict k s) = brokers s"
  "closed_brokers (evict k s) = closed_brokers s"
  by (simp_all add: evict_def Let_def split: option.split)

lemma cycles_evict [simp]: "cycles (evict k s) = AList.delete k (cycles s)"
proof (cases "map_of (cycles s) k")
  case None
  then have "k \<notin> fst ` set (cycles s)" by (simp add: map_of_eq_None_iff)
  with None show ?thesis by (simp add: evict_def)
qed (simp add: evict_def Let_def split: option.split)

definition evicts_latest :: "string \<Rightarrow> coord \<Rightarrow> string \<Rightarrow> bool" where
  "evicts_latest k s tr \<longleftrightarrow> map_of (latest s) tr = Some k \<and> (\<exists>c. map_of (cycles s) k = Some c \<and> t_trace (c_ticket c) = tr)"

lemma latest_evict: "map_of (latest (evict k s)) tr = (if evicts_latest k s tr then None else map_of (latest s) tr)"
  by (auto simp: evict_def evicts_latest_def Let_def map_of_delete split: option.split)

lemma current_evict: "map_of (current (evict k s)) tr = (if evicts_latest k s tr then None else map_of (current s) tr)"
  by (auto simp: evict_def evicts_latest_def Let_def map_of_delete split: option.split)

lemma keys_evict:
  "distinct (map fst (latest s)) \<Longrightarrow> distinct (map fst (latest (evict k s)))"
  "distinct (map fst (current s)) \<Longrightarrow> distinct (map fst (current (evict k s)))"
  by (auto simp: evict_def Let_def distinct_delete_keys split: option.split)

lemma audit_evict: "length (audit s) \<le> max_audit s \<Longrightarrow> length (audit (evict k s)) \<le> max_audit s"
  by (auto simp: evict_def Let_def split: option.split)

section \<open>Preservation\<close>

lemma set_in_flight_ids: "distinct (map fst (cycles s)) \<Longrightarrow> set (in_flight_ids s) = in_flight_set (map_of (cycles s))"
  by (force simp: in_flight_ids_def in_flight_set_def map_of_eq_Some_iff)

lemma length_in_flight:
  assumes "distinct (map fst (cycles s))"
  shows "length (in_flight_ids s) = card (in_flight_set (map_of (cycles s)))"
proof -
  have "distinct (in_flight_ids s)" using assms by (simp add: in_flight_ids_def distinct_map_filter)
  with set_in_flight_ids [OF assms] show ?thesis by (metis distinct_card)
qed

lemma finite_in_flight [simp]: "finite (in_flight_set (map_of d))"
  by (rule finite_subset [of _ "dom (map_of d)"]) (auto simp: in_flight_set_def finite_dom_map_of)

lemma in_flight_set_upd:
  "in_flight_set (C(k \<mapsto> c)) = (if is_in_flight c then insert k (in_flight_set C) else in_flight_set C - {k})"
  by (auto simp: in_flight_set_def)

lemma in_flight_set_del: "in_flight_set (C(k := None)) = in_flight_set C - {k}"
  by (auto simp: in_flight_set_def)

lemma card_in_flight_le:
  "in_flight_set (map_of d') \<subseteq> in_flight_set (map_of d) \<Longrightarrow> card (in_flight_set (map_of d)) \<le> n \<Longrightarrow>
   card (in_flight_set (map_of d')) \<le> n"
  using card_mono [OF finite_in_flight] order_trans by blast

lemma log_event_inv [simp]:
  "well_keyed (log_event e c x s) = well_keyed s"
  "linked (log_event e c x s) = linked s"
  "within_limits s \<Longrightarrow> within_limits (log_event e c x s)"
  by (simp_all add: well_keyed_def linked_def minted_def within_limits_def)

lemma core_log [simp]: "core_inv s \<Longrightarrow> core_inv (log_event e c x s)"
  by (simp add: core_inv_def)

lemma core_evict:
  assumes inv: "core_inv s" and ended: "\<And>c. map_of (cycles s) k = Some c \<Longrightarrow> \<not> is_in_flight c"
  shows "core_inv (evict k s)"
proof -
  have L: "linked s" and W: "well_keyed s" and B: "within_limits s" using inv by (simp_all add: core_inv_def)
  have own: "evicts_latest k s tr \<longleftrightarrow> map_of (latest s) tr = Some k" for tr
    using L by (auto simp: linked_def evicts_latest_def)
  have "linked (evict k s)"
    using L ended unfolding linked_def minted_def
    by (auto simp: latest_evict current_evict own map_of_delete)
  moreover have "well_keyed (evict k s)"
    using W by (simp add: well_keyed_def keys_evict distinct_delete_keys)
  moreover have "within_limits (evict k s)"
    using B by (auto simp: within_limits_def audit_evict delete_conv' in_flight_set_del intro: order_trans [OF card_Diff1_le])
  ultimately show ?thesis by (simp add: core_inv_def)
qed

definition victims :: "coord \<Rightarrow> string list" where
  "victims s = take (length (finished_ids s) - max_retained s) (finished_ids s)"

lemma prune_victims: "prune s = fold evict (victims s) s"
  by (simp add: prune_def victims_def)

lemma evicts_simps [simp]:
  "max_traces (fold evict ks s) = max_traces s"
  "max_retained (fold evict ks s) = max_retained s"
  "max_audit (fold evict ks s) = max_audit s"
  "epoch (fold evict ks s) = epoch s"
  "next_cycle (fold evict ks s) = next_cycle s"
  "unattributed (fold evict ks s) = unattributed s"
  "brokers (fold evict ks s) = brokers s"
  "closed_brokers (fold evict ks s) = closed_brokers s"
  by (induction ks arbitrary: s) simp_all

lemma cycles_evicts: "cycles (fold evict ks s) = filter (\<lambda>kc. fst kc \<notin> set ks) (cycles s)"
proof (induction ks arbitrary: s)
  case (Cons k ks)
  then show ?case by (auto simp: AList.delete_eq intro: filter_cong)
qed simp

lemma core_evicts:
  "core_inv s \<Longrightarrow> (\<And>k c. k \<in> set ks \<Longrightarrow> map_of (cycles s) k = Some c \<Longrightarrow> \<not> is_in_flight c) \<Longrightarrow> core_inv (fold evict ks s)"
proof (induction ks arbitrary: s)
  case (Cons k ks)
  have "core_inv (evict k s)" using Cons.prems by (intro core_evict) auto
  moreover have "\<not> is_in_flight c" if "k' \<in> set ks" "map_of (cycles (evict k s)) k' = Some c" for k' c
    using that Cons.prems by (auto simp: map_of_delete split: if_splits)
  ultimately have "core_inv (fold evict ks (evict k s))" by (rule Cons.IH)
  then show ?case by simp
qed simp

lemma victims_ended:
  "distinct (map fst (cycles s)) \<Longrightarrow> k \<in> set (victims s) \<Longrightarrow> map_of (cycles s) k = Some c \<Longrightarrow> \<not> is_in_flight c"
  by (auto simp: victims_def finished_ids_def map_of_eq_Some_iff dest!: in_set_takeD) (metis eq_key_imp_eq_value)

lemma core_distinct: "core_inv s \<Longrightarrow> distinct (map fst (cycles s))"
  by (simp add: core_inv_def well_keyed_def)

lemma core_prune: "core_inv s \<Longrightarrow> core_inv (prune s)"
  unfolding prune_victims by (rule core_evicts) (auto dest: core_distinct victims_ended)

lemma finished_prune:
  assumes "distinct (map fst (cycles s))"
  shows "finished_ids (prune s) = drop (length (finished_ids s) - max_retained s) (finished_ids s)"
proof -
  have "finished_ids (prune s) = filter (\<lambda>k. k \<notin> set (victims s)) (finished_ids s)"
    by (simp add: prune_victims finished_ids_def cycles_evicts filter_map o_def conj_commute)
  moreover have "distinct (finished_ids s)" using assms by (simp add: finished_ids_def distinct_map_filter)
  ultimately show ?thesis by (simp add: victims_def filter_notin_take)
qed

lemma inv_prune: "core_inv s \<Longrightarrow> coord_inv (prune s)"
  by (simp add: coord_inv_def core_prune finished_prune core_distinct) (simp add: prune_victims)

lemma linked_brokers:
  "linked s \<Longrightarrow> map_of (cycles s) k = Some c \<Longrightarrow> c_status c = CSuperseded \<or> c_status c = Cancelled \<Longrightarrow> map_of (brokers s) k = None"
  unfolding linked_def by blast

text \<open>A retained cycle changes status without going (back) in flight.\<close>

lemma linked_end:
  assumes "linked s" and "map_of (cycles s) k = Some c" and "c_ticket c' = c_ticket c" and "\<not> is_in_flight c'"
    and "cycles s' = AList.update k c' (cycles s)" and "latest s' = latest s"
    and "epoch s' = epoch s" and "next_cycle s' = next_cycle s"
    and "\<And>tr. map_of (current s') tr \<noteq> None \<Longrightarrow> map_of (latest s) tr \<noteq> None"
    and "\<And>j. map_of (brokers s') j \<noteq> None \<Longrightarrow> map_of (brokers s) j \<noteq> None"
    and "c_status c' \<in> {CSuperseded, Cancelled} \<Longrightarrow> map_of (brokers s') k = None"
  shows "linked s'"
proof -
  have "minted s' j d" if "map_of (cycles s') j = Some d" for j d
    using that assms(1-3,5,7,8) unfolding linked_def minted_def map_of_update by (auto simp: map_of_update split: if_splits)
  moreover have "\<exists>d. map_of (cycles s') j = Some d \<and> t_trace (c_ticket d) = tr" if "map_of (latest s') tr = Some j" for tr j
    using that assms(1-3,5,6) unfolding linked_def by (fastforce simp: map_of_update)
  moreover have "map_of (latest s') (t_trace (c_ticket d)) = Some j \<and> t_epoch (c_ticket d) = epoch s'"
    if "map_of (cycles s') j = Some d" "is_in_flight d" for j d
    using that assms(1,4-7) unfolding linked_def by (auto simp: map_of_update split: if_splits)
  moreover have "map_of (latest s') tr \<noteq> None" if "map_of (current s') tr \<noteq> None" for tr
    using that assms(6,9) by simp
  moreover have "map_of (brokers s') j = None" if "map_of (cycles s') j = Some d" "c_status d \<in> {CSuperseded, Cancelled}" for j d
  proof (cases "j = k")
    case True
    with that assms(5,11) show ?thesis by (simp add: map_of_update)
  next
    case False
    with that assms(1,5) have "map_of (brokers s) j = None" by (auto simp: map_of_update dest: linked_brokers)
    with assms(10) show ?thesis by blast
  qed
  ultimately show ?thesis unfolding linked_def by blast
qed

lemma within_end:
  assumes "within_limits s" and "\<not> is_in_flight c'" and "cycles s' = AList.update k c' (cycles s)"
    and "max_traces s' = max_traces s" and "max_retained s' = max_retained s" and "max_audit s' = max_audit s"
    and "length (audit s') \<le> max_audit s'"
  shows "within_limits s'"
  using assms by (auto simp: within_limits_def update_conv' in_flight_set_upd intro: order_trans [OF card_Diff1_le])

lemma minted_key: "core_inv s \<Longrightarrow> map_of (cycles s) k = Some c \<Longrightarrow> t_cycle (c_ticket c) = k"
  by (auto simp: core_inv_def linked_def minted_def)

lemma core_parts: "core_inv s \<Longrightarrow> well_keyed s" "core_inv s \<Longrightarrow> linked s" "core_inv s \<Longrightarrow> within_limits s"
  by (simp_all add: core_inv_def)

lemma current_latest: "core_inv s \<Longrightarrow> map_of (current s) tr \<noteq> None \<Longrightarrow> map_of (latest s) tr \<noteq> None"
  unfolding core_inv_def linked_def by blast

lemma core_audit: "core_inv s \<Longrightarrow> length (audit s) \<le> max_audit s"
  by (simp add: core_inv_def within_limits_def)

lemma core_close_end:
  assumes inv: "core_inv s" and own: "map_of (cycles s) (t_cycle (c_ticket c)) = Some c"
    and tk: "c_ticket c' = c_ticket c" and fin: "\<not> is_in_flight c'"
  shows "core_inv (close_broker (t_cycle (c_ticket c)) (log_event e d x (put_cycle c' s)))"
    (is "core_inv ?s'")
proof -
  have "linked ?s'"
    by (rule linked_end [OF core_parts(2) [OF inv] own tk fin])
       (use tk current_latest [OF inv] in \<open>auto simp: map_of_delete split: if_splits\<close>)
  moreover have "within_limits ?s'"
    by (rule within_end [OF core_parts(3) [OF inv] fin]) (use tk core_audit [OF inv] in simp_all)
  moreover have "well_keyed ?s'"
    using core_parts(1) [OF inv] by (simp add: well_keyed_def distinct_update_keys distinct_delete_keys)
  ultimately show ?thesis by (simp add: core_inv_def)
qed

lemma core_supersede:
  "core_inv s \<Longrightarrow> map_of (cycles s) (t_cycle (c_ticket c)) = Some c \<Longrightarrow> core_inv (supersede nid c s)"
  by (simp add: supersede_def Let_def core_close_end is_in_flight_def)

lemma core_current:
  assumes inv: "core_inv s" and dist: "distinct (map fst cur)"
    and sub: "\<And>tr. map_of cur tr \<noteq> None \<Longrightarrow> map_of (latest s) tr \<noteq> None"
  shows "core_inv (s\<lparr>current := cur\<rparr>)"
proof -
  have "linked s" "well_keyed s" "within_limits s" using inv by (simp_all add: core_inv_def)
  moreover from \<open>linked s\<close> have "linked (s\<lparr>current := cur\<rparr>)" using sub unfolding linked_def minted_def by simp
  ultimately show ?thesis using dist by (simp add: core_inv_def well_keyed_def within_limits_def)
qed

lemma core_retire:
  assumes "core_inv s"
  shows "core_inv (retire tr nid c s)"
  unfolding retire_def
proof (intro core_log core_current assms)
  show "distinct (map fst (AList.delete tr (current s)))"
    using core_parts(1) [OF assms] by (simp add: well_keyed_def distinct_delete_keys)
  show "map_of (latest s) t \<noteq> None" if "map_of (AList.delete tr (current s)) t \<noteq> None" for t
    using that current_latest [OF assms, of t] by (simp add: map_of_delete split: if_splits)
qed

lemma core_put_end:
  assumes inv: "core_inv s" and own: "map_of (cycles s) (t_cycle (c_ticket c)) = Some c"
    and tk: "c_ticket c' = c_ticket c" and fin: "\<not> is_in_flight c'"
    and st: "c_status c' \<in> {CSuperseded, Cancelled} \<Longrightarrow> c_status c = c_status c'"
  shows "core_inv (put_cycle c' s)"
proof -
  have "linked (put_cycle c' s)"
    by (rule linked_end [OF core_parts(2) [OF inv] own tk fin])
       (use tk own st current_latest [OF inv] linked_brokers [OF core_parts(2) [OF inv]] in auto)
  moreover have "within_limits (put_cycle c' s)"
    by (rule within_end [OF core_parts(3) [OF inv] fin]) (use tk core_audit [OF inv] in simp_all)
  moreover have "well_keyed (put_cycle c' s)"
    using core_parts(1) [OF inv] by (simp add: well_keyed_def distinct_update_keys)
  ultimately show "core_inv (put_cycle c' s)" by (simp add: core_inv_def)
qed

lemma core_set_current:
  assumes inv: "core_inv s" and cur: "map_of (latest s) tr \<noteq> None"
  shows "core_inv (s\<lparr>current := AList.update tr oc (current s)\<rparr>)"
proof (rule core_current [OF inv])
  show "distinct (map fst (AList.update tr oc (current s)))"
    using core_parts(1) [OF inv] by (simp add: well_keyed_def distinct_update_keys)
  show "map_of (latest s) t \<noteq> None" if "map_of (AList.update tr oc (current s)) t \<noteq> None" for t
    using that cur current_latest [OF inv, of t] by (auto simp: map_of_update split: if_splits)
qed

section \<open>Every call keeps the invariant\<close>

lemma takeWhile_rev_digits:
  "takeWhile is_digit (rev (xs @ CHR ''c'' # nat_str n)) = rev (nat_str n)"
  using nat_str_digits by (simp add: takeWhile_append2) (auto simp: takeWhile_append is_digit_def)

lemma cycle_id_seq: "cycle_id_text tr ep n = cycle_id_text tr' ep' n' \<Longrightarrow> n = n'"
proof -
  assume "cycle_id_text tr ep n = cycle_id_text tr' ep' n'"
  then have "takeWhile is_digit (rev (cycle_id_text tr ep n)) = takeWhile is_digit (rev (cycle_id_text tr' ep' n'))" by simp
  moreover have "takeWhile is_digit (rev (cycle_id_text t e m)) = rev (nat_str m)" for t e m
    using takeWhile_rev_digits [of "t @ '':e'' @ int_str e @ '':''" m] by (simp add: cycle_id_text_def)
  ultimately show "n = n'" by (simp add: nat_str_inj)
qed

lemma cycle_id_nonempty [simp]: "cycle_id_text tr ep n \<noteq> []"
  by (simp add: cycle_id_text_def)

lemma fresh_cycle_id:
  assumes "linked s" "next_cycle s \<le> n"
  shows "map_of (cycles s) (cycle_id_text tr ep n) = None"
proof (rule ccontr)
  assume "map_of (cycles s) (cycle_id_text tr ep n) \<noteq> None"
  then obtain c where "map_of (cycles s) (cycle_id_text tr ep n) = Some c" by blast
  with assms(1) obtain m where "m < next_cycle s" "cycle_id_text tr ep n = cycle_id_text (t_trace (c_ticket c)) (t_epoch (c_ticket c)) m"
    unfolding linked_def minted_def by blast
  with cycle_id_seq assms(2) show False by fastforce
qed

lemma core_next: "core_inv s \<Longrightarrow> core_inv (s\<lparr>next_cycle := Suc (next_cycle s)\<rparr>)"
proof -
  assume inv: "core_inv s"
  have "linked (s\<lparr>next_cycle := Suc (next_cycle s)\<rparr>)"
    using core_parts(2) [OF inv] unfolding linked_def minted_def by (auto simp: less_Suc_eq)
  with inv show ?thesis by (simp add: core_inv_def well_keyed_def within_limits_def)
qed

lemma latest_in_flight:
  assumes "linked s" "map_of (cycles s) k = Some c" "is_in_flight c"
  shows "latest_cycle s (t_trace (c_ticket c)) = Some c"
proof -
  from assms have "map_of (latest s) (t_trace (c_ticket c)) = Some k" unfolding linked_def by blast
  moreover have "k \<noteq> []" using assms unfolding linked_def minted_def by (metis cycle_id_nonempty)
  ultimately show ?thesis using assms(2) by (simp add: latest_cycle_def)
qed

lemma latest_cycle_own:
  assumes "linked s" "latest_cycle s tr = Some c"
  shows "map_of (cycles s) (t_cycle (c_ticket c)) = Some c" "t_trace (c_ticket c) = tr" "map_of (latest s) tr = Some (t_cycle (c_ticket c))"
proof -
  from assms(2) obtain k where k: "map_of (latest s) tr = Some k" "map_of (cycles s) k = Some c"
    by (auto simp: latest_cycle_def split: option.splits if_splits)
  with assms(1) have "t_cycle (c_ticket c) = k" unfolding linked_def minted_def by blast
  moreover from k assms(1) have "\<exists>c'. map_of (cycles s) k = Some c' \<and> t_trace (c_ticket c') = tr" unfolding linked_def by blast
  ultimately show "map_of (cycles s) (t_cycle (c_ticket c)) = Some c" "t_trace (c_ticket c) = tr"
    "map_of (latest s) tr = Some (t_cycle (c_ticket c))" using k by auto
qed

lemma displace_simps [simp]:
  "max_traces (displace lat tk s) = max_traces s"
  "max_retained (displace lat tk s) = max_retained s"
  "max_audit (displace lat tk s) = max_audit s"
  "epoch (displace lat tk s) = epoch s"
  "next_cycle (displace lat tk s) = next_cycle s"
  "latest (displace lat tk s) = latest s"
  "cycles (displace lat tk s) =
     (case lat of
        Some c \<Rightarrow> if is_in_flight c then AList.update (t_cycle (c_ticket c)) (c\<lparr>c_status := CSuperseded\<rparr>) (cycles s) else cycles s
      | None \<Rightarrow> cycles s)"
  by (simp_all add: displace_def Let_def supersede_def retire_def split: option.split)

lemma core_displace:
  assumes "core_inv s" "\<And>c. lat = Some c \<Longrightarrow> map_of (cycles s) (t_cycle (c_ticket c)) = Some c"
  shows "core_inv (displace lat tk s)"
  using assms by (auto simp: displace_def Let_def core_supersede core_retire split: option.split)

definition opened :: "ticket \<Rightarrow> coord \<Rightarrow> coord" where
  "opened tk s = (put_cycle \<lparr>c_ticket = tk, c_status = InFlight, c_outcome_state = [], c_advisory_id = [], c_discards = 0\<rparr> s)
     \<lparr>latest := AList.update (t_trace tk) (t_cycle tk) (latest s)\<rparr>"

lemma start_cycle_opened:
  "start_cycle tk s = prune (log_event ''cycle_started''
     (Some \<lparr>c_ticket = tk, c_status = InFlight, c_outcome_state = [], c_advisory_id = [], c_discards = 0\<rparr>)
     [(''material_digest'', PStr (t_digest tk))] (opened tk s))"
  by (simp add: start_cycle_def opened_def Let_def)

lemma core_opened:
  assumes inv: "core_inv s" and fresh: "map_of (cycles s) (t_cycle tk) = None"
    and id: "t_cycle tk = cycle_id_text (t_trace tk) (epoch s) n" "n < next_cycle s" and ep: "t_epoch tk = epoch s"
    and dd: "\<not> deduplicated tk"
    and alone: "\<And>k c. map_of (cycles s) k = Some c \<Longrightarrow> is_in_flight c \<Longrightarrow> t_trace (c_ticket c) \<noteq> t_trace tk"
    and room: "card (in_flight_set (map_of (cycles s))) < max_traces s"
  shows "core_inv (opened tk s)"
proof -
  have L: "linked s" and W: "well_keyed s" and B: "within_limits s" using inv by (simp_all add: core_inv_def)
  have "minted (opened tk s) k c" if "map_of (cycles (opened tk s)) k = Some c" for k c
    using that L id ep dd W unfolding linked_def minted_def well_keyed_def opened_def by (auto simp: map_of_update split: if_splits)
  moreover have "\<exists>c. map_of (cycles (opened tk s)) k = Some c \<and> t_trace (c_ticket c) = tr"
    if "map_of (latest (opened tk s)) tr = Some k" for tr k
    using that L fresh unfolding linked_def opened_def by (fastforce simp: map_of_update split: if_splits)
  moreover have "map_of (latest (opened tk s)) (t_trace (c_ticket c)) = Some k \<and> t_epoch (c_ticket c) = epoch (opened tk s)"
    if "map_of (cycles (opened tk s)) k = Some c" "is_in_flight c" for k c
    using that L ep alone [of k c] unfolding linked_def opened_def by (auto simp: map_of_update split: if_splits)
  moreover have "map_of (latest (opened tk s)) tr \<noteq> None" if "map_of (current (opened tk s)) tr \<noteq> None" for tr
    using that current_latest [OF inv, of tr] by (auto simp: opened_def map_of_update)
  moreover have "map_of (brokers (opened tk s)) k = None"
    if "map_of (cycles (opened tk s)) k = Some c" "c_status c \<in> {CSuperseded, Cancelled}" for k c
    using that L by (auto simp: opened_def map_of_update split: if_splits dest: linked_brokers)
  ultimately have "linked (opened tk s)" unfolding linked_def by blast
  moreover have "well_keyed (opened tk s)" using W by (simp add: well_keyed_def opened_def distinct_update_keys)
  moreover have "within_limits (opened tk s)"
    using B room card_insert_le_m1 by (auto simp: within_limits_def opened_def update_conv' in_flight_set_upd is_in_flight_def card_insert_if)
  ultimately show ?thesis by (simp add: core_inv_def)
qed

lemma displaced_alone:
  assumes inv: "core_inv s" and lat: "lat = latest_cycle s tr"
    and c: "map_of (cycles (displace lat tk s)) k = Some c" "is_in_flight c"
  shows "t_trace (c_ticket c) \<noteq> tr"
proof
  assume tr: "t_trace (c_ticket c) = tr"
  show False
  proof (cases "lat")
    case None
    with c tr lat latest_in_flight [OF core_parts(2) [OF inv]] show False by fastforce
  next
    case (Some d)
    have same: "c = d" "k = t_cycle (c_ticket d)" if old: "map_of (cycles s) k = Some c"
      using latest_in_flight [OF core_parts(2) [OF inv] old c(2)] tr Some lat minted_key [OF inv old] by auto
    show False
    proof (cases "is_in_flight d")
      case True
      with Some c same show False by (auto simp: map_of_update is_in_flight_def split: if_splits)
    next
      case False
      with Some c same show False by simp
    qed
  qed
qed

lemma displaced_room:
  assumes inv: "core_inv s" and lat: "lat = latest_cycle s tr"
    and room: "open_cycle lat \<or> length (in_flight_ids s) < max_traces s"
  shows "card (in_flight_set (map_of (cycles (displace lat tk s)))) < max_traces s"
proof (cases "open_cycle lat")
  case True
  then obtain c where c: "lat = Some c" "is_in_flight c" by (auto simp: open_cycle_def split: option.splits)
  let ?F = "in_flight_set (map_of (cycles s))"
  have "t_cycle (c_ticket c) \<in> ?F"
    using latest_cycle_own(1) [OF core_parts(2) [OF inv], of tr c] lat [symmetric] c by (simp add: in_flight_set_def)
  then have "card (?F - {t_cycle (c_ticket c)}) < card ?F" by (rule card_Diff1_less [OF finite_in_flight])
  moreover have "card ?F \<le> max_traces s" using inv by (simp add: core_inv_def within_limits_def)
  ultimately show ?thesis using c by (simp add: update_conv' in_flight_set_upd is_in_flight_def)
next
  case False
  then have "cycles (displace lat tk s) = cycles s" by (auto simp: open_cycle_def split: option.split)
  with False room inv show ?thesis by (simp add: length_in_flight core_distinct)
qed

lemma displaced_fresh:
  assumes "core_inv s" "lat = latest_cycle s tr"
  shows "map_of (cycles (displace lat tk s)) (cycle_id_text tr (epoch s) (next_cycle s)) = None"
proof -
  have fresh: "map_of (cycles s) (cycle_id_text tr (epoch s) (next_cycle s)) = None"
    using fresh_cycle_id [OF core_parts(2) [OF assms(1)] order_refl] .
  have "cycle_id_text tr (epoch s) (next_cycle s) \<noteq> t_cycle (c_ticket c)" if "lat = Some c" for c
    using latest_cycle_own(1) [OF core_parts(2) [OF assms(1)], of tr c] assms(2) that fresh by auto
  with fresh show ?thesis by (auto simp: map_of_update split: option.split)
qed

abbreviation stepped :: "coord \<Rightarrow> coord" where
  "stepped s \<equiv> s\<lparr>next_cycle := Suc (next_cycle s)\<rparr>"

definition begin_reuses :: "(string \<Rightarrow> string) \<Rightarrow> frame \<Rightarrow> coord \<Rightarrow> cycle \<Rightarrow> bool" where
  "begin_reuses sha f s c \<longleftrightarrow>
     latest_cycle s (trace_id f) = Some c \<and> is_in_flight c \<and> t_digest (c_ticket c) = material_frame_digest sha f"

definition begin_refused :: "frame \<Rightarrow> coord \<Rightarrow> bool" where
  "begin_refused f s \<longleftrightarrow> \<not> open_cycle (latest_cycle s (trace_id f)) \<and> max_traces s \<le> length (in_flight_ids s)"

lemma begin_cases [case_names reuse refuse start]:
  obtains c where "begin_reuses sha f s c"
      "begin_cycle sha f s = (Inr ((c_ticket c)\<lparr>deduplicated := True\<rparr>),
         log_event ''frame_not_material'' (Some c) [(''new_frame_id'', PStr (frame_id f))] s)"
  | "begin_refused f s"
      "begin_cycle sha f s = (Inl (RuntimeError ''reasoning_coordinator_backpressure''),
         log_event ''begin_rejected_backpressure'' None [(''trace_id'', PStr (trace_id f)), (''frame_id'', PStr (frame_id f))] s)"
  | "\<And>c. \<not> begin_reuses sha f s c" "\<not> begin_refused f s"
      "begin_cycle sha f s = (Inr (mint sha f s),
         start_cycle (mint sha f s) (displace (latest_cycle s (trace_id f)) (mint sha f s) (stepped s)))"
proof (cases "\<exists>c. begin_reuses sha f s c")
  case True
  then obtain c where "begin_reuses sha f s c" by blast
  then show thesis by (intro that(1)) (simp_all add: begin_reuses_def begin_cycle_def Let_def)
next
  case False
  then have "(case latest_cycle s (trace_id f) of
              Some c \<Rightarrow> if is_in_flight c \<and> t_digest (c_ticket c) = material_frame_digest sha f then Some c else None
            | None \<Rightarrow> None) = None"
    by (auto simp: begin_reuses_def split: option.split)
  with False show thesis
    using that(2,3) by (cases "begin_refused f s") (simp_all add: begin_cycle_def Let_def begin_refused_def)
qed

lemma begin_opened:
  assumes inv: "core_inv s" and ok: "\<not> begin_refused f s"
  shows "core_inv (opened (mint sha f s) (displace (latest_cycle s (trace_id f)) (mint sha f s) (stepped s)))"
proof -
  have inv': "core_inv (stepped s)" using inv by (rule core_next)
  have lat: "latest_cycle s (trace_id f) = latest_cycle (stepped s) (trace_id f)" 
    by (simp add: latest_cycle_def split: option.split)
  have own: "map_of (cycles (stepped s)) (t_cycle (c_ticket c)) = Some c" if "latest_cycle s (trace_id f) = Some c" for c
    using latest_cycle_own(1) [OF core_parts(2) [OF inv] that] by simp
  have cyc: "cycles (displace lt tk (stepped s)) = cycles (displace lt tk s)" for lt tk by (simp split: option.split)
  show ?thesis
  proof (rule core_opened [where n = "next_cycle s"])
    show "core_inv (displace (latest_cycle s (trace_id f)) (mint sha f s) (stepped s))"
      using core_displace [OF inv' own] by simp
    show "map_of (cycles (displace (latest_cycle s (trace_id f)) (mint sha f s) (stepped s))) (t_cycle (mint sha f s)) = None"
      using displaced_fresh [OF inv refl, where tr = "trace_id f"] by (simp add: mint_def cyc del: displace_simps(7))
    show "t_trace (c_ticket c) \<noteq> t_trace (mint sha f s)"
      if "map_of (cycles (displace (latest_cycle s (trace_id f)) (mint sha f s) (stepped s))) k = Some c" "is_in_flight c" for k c
      using displaced_alone [OF inv' lat that] by (simp add: mint_def)
    show "card (in_flight_set (map_of (cycles (displace (latest_cycle s (trace_id f)) (mint sha f s) (stepped s)))))
        < max_traces (displace (latest_cycle s (trace_id f)) (mint sha f s) (stepped s))"
      using displaced_room [OF inv refl, where tr = "trace_id f"] ok by (auto simp: begin_refused_def cyc simp del: displace_simps(7))
  qed (simp_all add: mint_def)
qed

lemma inv_log [simp]: "coord_inv s \<Longrightarrow> coord_inv (log_event e c x s)"
  by (simp add: coord_inv_def finished_ids_def)

lemma inv_begin: "coord_inv s \<Longrightarrow> coord_inv (snd (begin_cycle sha f s))"
  by (cases sha f s rule: begin_cases)
     (simp_all add: start_cycle_opened inv_prune begin_opened coord_inv_def [of s])

lemma inv_core: "coord_inv s \<Longrightarrow> core_inv s"
  by (simp add: coord_inv_def)

lemma cancel_target_own:
  assumes "core_inv s" "cancel_target s tr = Some c"
  shows "map_of (cycles s) (t_cycle (c_ticket c)) = Some c"
  using assms minted_key by (fastforce simp: cancel_target_def)

lemma inv_cancel: "coord_inv s \<Longrightarrow> coord_inv (snd (cancel tr r s))"
  using core_close_end [OF inv_core cancel_target_own [OF inv_core]]
  by (auto simp: cancel_def Let_def is_in_flight_def intro!: inv_prune split: option.split)

lemma stale_reason_current:
  "fst (stale_reason s (Some t) c) = [] \<longleftrightarrow>
   (\<exists>c'. c = Some c' \<and> same_cycle t (c_ticket c') \<and> t_epoch t = epoch s \<and> is_in_flight c')"
  by (auto simp: stale_reason_def is_in_flight_def split: option.split cstatus.split)

text \<open>
  The three ways a completion ends: the ticket names the in-flight cycle; it names an ended one, whose
  discards are counted; it names nothing that is retained.
\<close>

lemma complete_cases [case_names accept discard forged]:
  obtains t c where "tk = Some t" "map_of (cycles s) (t_cycle t) = Some c" "same_cycle t (c_ticket c)"
      "t_epoch t = epoch s" "is_in_flight c"
      "complete tk oc s = (\<lparr>accepted = True, cycle_status = cstatus_value Accepted, cr_reason = ''current'', cr_outcome = oc\<rparr>,
         accept c oc s)"
  | t c r where "tk = Some t" "map_of (cycles s) (t_cycle t) = Some c" "same_cycle t (c_ticket c)"
      "\<not> (t_epoch t = epoch s \<and> is_in_flight c)" "r = stale_reason s tk (Some c)" "fst r \<noteq> []"
      "complete tk oc s = (\<lparr>accepted = False, cycle_status = snd r, cr_reason = fst r, cr_outcome = None\<rparr>,
         discard_for t c (fst r) oc s)"
  | r where "\<And>t c. tk = Some t \<Longrightarrow> map_of (cycles s) (t_cycle t) = Some c \<Longrightarrow> \<not> same_cycle t (c_ticket c)" "fst r \<noteq> []"
      "complete tk oc s = (\<lparr>accepted = False, cycle_status = snd r, cr_reason = fst r, cr_outcome = None\<rparr>,
         count_unattributed (fst r) s)"
proof (cases "\<exists>t c. tk = Some t \<and> map_of (cycles s) (t_cycle t) = Some c \<and> same_cycle t (c_ticket c)")
  case True
  then obtain t c where tc: "tk = Some t" "map_of (cycles s) (t_cycle t) = Some c" "same_cycle t (c_ticket c)" by blast
  show thesis
  proof (cases "t_epoch t = epoch s \<and> is_in_flight c")
    case True
    then have "fst (stale_reason s (Some t) (Some c)) = []" using tc by (simp add: stale_reason_current)
    with tc True show thesis by (intro that(1) [OF tc]) (simp_all add: complete_def Let_def)
  next
    case False
    then have "fst (stale_reason s (Some t) (Some c)) \<noteq> []" using tc by (auto simp: stale_reason_current)
    with tc False show thesis by (intro that(2) [OF tc False refl]) (simp_all add: complete_def Let_def)
  qed
next
  case False
  define c where "c = (case tk of None \<Rightarrow> None | Some t \<Rightarrow> map_of (cycles s) (t_cycle t))"
  have ne: "fst (stale_reason s tk c) \<noteq> []"
    using False stale_reason_current by (cases tk) (auto simp: c_def stale_reason_def [of s None])
  show thesis
  proof (rule that(3) [OF _ ne])
    show "complete tk oc s = (\<lparr>accepted = False, cycle_status = snd (stale_reason s tk c), cr_reason = fst (stale_reason s tk c),
        cr_outcome = None\<rparr>, count_unattributed (fst (stale_reason s tk c)) s)"
      using False ne by (auto simp: complete_def Let_def c_def split: option.splits)
  qed (use False in blast)
qed

lemma count_unattributed_simps [simp]:
  "coord_inv (count_unattributed r s) = coord_inv s"
  by (simp add: count_unattributed_def coord_inv_def core_inv_def well_keyed_def linked_def minted_def within_limits_def
      finished_ids_def)

lemma filter_update_same:
  "map_of d k = Some c \<Longrightarrow> P c' = P c \<Longrightarrow>
   map fst (filter (\<lambda>kc. P (snd kc)) (AList.update k c' d)) = map fst (filter (\<lambda>kc. P (snd kc)) d)"
  by (induction d) (auto split: if_splits)

lemma same_cycle_key: "same_cycle t (c_ticket c) \<Longrightarrow> t_cycle (c_ticket c) = t_cycle t"
  by (simp add: same_cycle_def)

lemma in_flight_latest:
  "core_inv s \<Longrightarrow> map_of (cycles s) k = Some c \<Longrightarrow> is_in_flight c \<Longrightarrow>
   map_of (latest s) (t_trace (c_ticket c)) = Some k \<and> t_epoch (c_ticket c) = epoch s"
  unfolding core_inv_def linked_def by blast

lemma inv_accept:
  assumes inv: "coord_inv s" and own: "map_of (cycles s) (t_cycle (c_ticket c)) = Some c" and fl: "is_in_flight c"
  shows "coord_inv (accept c oc s)"
proof -
  let ?c = "c\<lparr>c_status := Accepted, c_outcome_state := take 64 (outcome_state_of oc), c_advisory_id := take ID_LIMIT (advisory_of oc)\<rparr>"
  have "core_inv (put_cycle ?c s)"
    by (rule core_put_end [OF inv_core [OF inv] own]) (simp_all add: is_in_flight_def)
  moreover have "map_of (latest (put_cycle ?c s)) (t_trace (c_ticket c)) \<noteq> None"
    using in_flight_latest [OF inv_core [OF inv] own fl] by simp
  ultimately have "core_inv ((put_cycle ?c s)\<lparr>current := AList.update (t_trace (c_ticket c)) oc (current (put_cycle ?c s))\<rparr>)"
    by (rule core_set_current)
  then show ?thesis by (simp add: accept_def Let_def inv_prune)
qed

lemma inv_discard:
  assumes inv: "coord_inv s" and own: "map_of (cycles s) (t_cycle (c_ticket c)) = Some c" and fin: "\<not> is_in_flight c"
  shows "coord_inv (discard_for t c r oc s)"
proof -
  let ?c = "c\<lparr>c_discards := Suc (c_discards c)\<rparr>"
  have "core_inv (put_cycle ?c s)"
    by (rule core_put_end [OF inv_core [OF inv] own]) (use fin in \<open>simp_all add: is_in_flight_def\<close>)
  moreover have "length (finished_ids (put_cycle ?c s)) \<le> max_retained s"
    using inv filter_update_same [OF own, of "\<lambda>c. \<not> is_in_flight c" ?c]
    by (simp add: coord_inv_def finished_ids_def is_in_flight_def)
  ultimately have "coord_inv (put_cycle ?c s)" by (simp add: coord_inv_def)
  then show ?thesis unfolding discard_for_def Let_def by (simp only: inv_log split: if_split) blast
qed

lemma inv_complete:
  assumes inv: "coord_inv s"
  shows "coord_inv (snd (complete tk oc s))"
proof (cases rule: complete_cases [where tk = tk and s = s and oc = oc])
  case (accept t c)
  with inv_accept [OF inv, of c oc] same_cycle_key [OF accept(3)] show ?thesis by simp
next
  case (discard t c r)
  have "\<not> is_in_flight c"
    using in_flight_latest [OF inv_core [OF inv] discard(2)] discard(3,4) by (auto simp: same_cycle_def)
  with discard inv_discard [OF inv, of c t "fst r" oc] same_cycle_key [OF discard(3)] show ?thesis by simp
next
  case (forged r)
  with inv show ?thesis by simp
qed

lemma inv_brokers:
  assumes inv: "coord_inv s" and dist: "distinct (map fst bs)"
    and sub: "\<And>k. map_of bs k \<noteq> None \<Longrightarrow> map_of (brokers s) k \<noteq> None \<or> (\<exists>c. map_of (cycles s) k = Some c \<and> is_in_flight c)"
  shows "coord_inv (s\<lparr>brokers := bs, closed_brokers := cl\<rparr>)"
proof -
  let ?s = "s\<lparr>brokers := bs, closed_brokers := cl\<rparr>"
  have L: "linked s" using inv by (simp add: coord_inv_def core_inv_def)
  have "map_of bs k = None" if "map_of (cycles s) k = Some c" "c_status c = CSuperseded \<or> c_status c = Cancelled" for k c
    using that sub [of k] linked_brokers [OF L that] by (cases "map_of bs k") (auto simp: is_in_flight_def)
  with L have "linked ?s" unfolding linked_def minted_def by simp
  with inv dist show ?thesis by (simp add: coord_inv_def core_inv_def well_keyed_def within_limits_def finished_ids_def)
qed

lemma close_broker_eq: "\<exists>cl. close_broker k s = s\<lparr>brokers := AList.delete k (brokers s), closed_brokers := cl\<rparr>"
proof (cases "map_of (brokers s) k")
  case None
  then have "AList.delete k (brokers s) = brokers s" by (simp add: map_of_eq_None_iff)
  with None show ?thesis by (intro exI [of _ "closed_brokers s"]) (simp add: close_broker_def)
qed (auto simp: close_broker_def)

lemma inv_detach: "coord_inv s \<Longrightarrow> coord_inv (detach_broker t s)"
proof -
  assume inv: "coord_inv s"
  obtain cl where "detach_broker t s = s\<lparr>brokers := AList.delete (t_cycle t) (brokers s), closed_brokers := cl\<rparr>"
    using close_broker_eq [of "t_cycle t" s] by (auto simp: detach_broker_def)
  moreover have "distinct (map fst (brokers s))" using inv by (simp add: coord_inv_def core_inv_def well_keyed_def)
  ultimately show ?thesis
    by (auto intro!: inv_brokers [OF inv] simp: distinct_delete_keys map_of_delete split: if_splits)
qed

lemma inv_attach: "coord_inv s \<Longrightarrow> coord_inv (attach_broker t b s)"
proof -
  assume inv: "coord_inv s"
  let ?s = "s\<lparr>brokers := AList.update (t_cycle t) b (brokers s)\<rparr>"
  have dist: "distinct (map fst (brokers s))" using inv by (simp add: coord_inv_def core_inv_def well_keyed_def)
  show ?thesis
  proof (cases "\<exists>c. map_of (cycles s) (t_cycle t) = Some c \<and> is_in_flight c")
    case True
    have "coord_inv (s\<lparr>brokers := AList.update (t_cycle t) b (brokers s), closed_brokers := closed_brokers s\<rparr>)"
      by (rule inv_brokers [OF inv]) (use True dist in \<open>auto simp: distinct_update_keys map_of_update split: if_splits\<close>)
    with True show ?thesis by (auto simp: attach_broker_def)
  next
    case False
    obtain cl where "close_broker (t_cycle t) ?s = ?s\<lparr>brokers := AList.delete (t_cycle t) (brokers ?s), closed_brokers := cl\<rparr>"
      using close_broker_eq by blast
    with False have "attach_broker t b s =
        s\<lparr>brokers := AList.delete (t_cycle t) (AList.update (t_cycle t) b (brokers s)), closed_brokers := cl\<rparr>"
      by (auto simp: attach_broker_def Let_def split: option.split)
    with dist show ?thesis
      by (auto intro!: inv_brokers [OF inv] simp: distinct_update_keys distinct_delete_keys map_of_update map_of_delete split: if_splits)
  qed
qed

section \<open>Restart\<close>

definition restart_status :: "cstatus \<Rightarrow> cstatus" where
  "restart_status st = (case st of InFlight \<Rightarrow> AbandonedOnRestart | Accepted \<Rightarrow> RestoredStale | _ \<Rightarrow> st)"

definition restarted :: "cycle \<Rightarrow> cycle" where
  "restarted c = c\<lparr>c_status := restart_status (c_status c)\<rparr>"

lemma same_status: "c_status c = st \<Longrightarrow> c\<lparr>c_status := st\<rparr> = (c :: cycle)"
  by (cases c) simp

lemma restore_cycle_simps [simp]:
  "max_traces (restore_cycle c s) = max_traces s"
  "max_retained (restore_cycle c s) = max_retained s"
  "max_audit (restore_cycle c s) = max_audit s"
  "epoch (restore_cycle c s) = epoch s"
  "next_cycle (restore_cycle c s) = next_cycle s"
  "cycles (restore_cycle c s) = AList.update (t_cycle (c_ticket c)) (restarted c) (cycles s)"
  "latest (restore_cycle c s) = latest s"
  "current (restore_cycle c s) = current s"
  "brokers (restore_cycle c s) = brokers s"
  "unattributed (restore_cycle c s) = unattributed s"
  by (simp_all add: restore_cycle_def restarted_def restart_status_def Let_def same_status split: cstatus.split)

lemma audit_restore_cycle: "length (audit s) \<le> max_audit s \<Longrightarrow> length (audit (restore_cycle c s)) \<le> max_audit s"
  by (simp add: restore_cycle_def Let_def split: cstatus.split)

lemma restore_cycles_simps [simp]:
  "max_traces (fold restore_cycle cs s) = max_traces s"
  "max_retained (fold restore_cycle cs s) = max_retained s"
  "max_audit (fold restore_cycle cs s) = max_audit s"
  "epoch (fold restore_cycle cs s) = epoch s"
  "next_cycle (fold restore_cycle cs s) = next_cycle s"
  "latest (fold restore_cycle cs s) = latest s"
  "current (fold restore_cycle cs s) = current s"
  "brokers (fold restore_cycle cs s) = brokers s"
  "unattributed (fold restore_cycle cs s) = unattributed s"
  by (induction cs arbitrary: s) simp_all

lemma audit_restore_cycles: "length (audit s) \<le> max_audit s \<Longrightarrow> length (audit (fold restore_cycle cs s)) \<le> max_audit s"
proof (induction cs arbitrary: s)
  case (Cons c cs)
  from Cons.IH [of "restore_cycle c s"] audit_restore_cycle [OF Cons.prems] show ?case by simp
qed simp

lemma cycles_restore:
  "distinct (map (\<lambda>c. t_cycle (c_ticket c)) cs) \<Longrightarrow> (\<And>c. c \<in> set cs \<Longrightarrow> t_cycle (c_ticket c) \<notin> fst ` set (cycles s)) \<Longrightarrow>
   cycles (fold restore_cycle cs s) = cycles s @ map (\<lambda>c. (t_cycle (c_ticket c), restarted c)) cs"
proof (induction cs arbitrary: s)
  case (Cons c cs)
  have one: "cycles (restore_cycle c s) = cycles s @ [(t_cycle (c_ticket c), restarted c)]"
    using Cons.prems by (simp add: update_new)
  have "cycles (fold restore_cycle cs (restore_cycle c s)) =
      cycles (restore_cycle c s) @ map (\<lambda>c. (t_cycle (c_ticket c), restarted c)) cs"
  proof (rule Cons.IH)
    show "t_cycle (c_ticket d) \<notin> fst ` set (cycles (restore_cycle c s))" if "d \<in> set cs" for d
      unfolding one using Cons.prems that by (auto simp: image_iff)
  qed (use Cons.prems in simp)
  with one show ?case by simp
qed simp

text \<open>Reading back what \<open>snapshot\<close> wrote.\<close>

lemma snapshot_dget:
  "dget (dict_of (snapshot s)) ''epoch'' = PInt (epoch s)"
  "dget (dict_of (snapshot s)) ''next_cycle'' = PInt (int (next_cycle s))"
  "dget (dict_of (snapshot s)) ''schema'' = PStr SNAPSHOT_SCHEMA"
  "dget (dict_of (snapshot s)) ''audit_dropped'' = PInt (int (audit_dropped s))"
  "dget (dict_of (snapshot s)) ''audit'' = PList (map sort_keys (audit s))"
  "dget (dict_of (snapshot s)) ''cycles'' = PList (map (\<lambda>kc. sort_keys (PDict (cycle_row (snd kc)))) (cycles s))"
  "dget (dict_of (snapshot s)) ''latest'' =
     sort_keys (PDict (sort_key fst (map (\<lambda>tc. (fst tc, PStr (snd tc))) (latest s))))"
  by (simp_all add: snapshot_def dget_sort_key dget_Cons dget_Nil del: sort_key_simps)

lemma cstatus_of_value [simp]: "cstatus_of (cstatus_value st) = Some st"
  by (cases st) (simp_all add: cstatus_of_def)

lemma row_dget:
  "dget (dict_of (sort_keys (PDict (cycle_row c)))) k = sort_keys (dget (cycle_row c) k)"
proof -
  have "distinct (map fst (cycle_row c))" by (simp add: cycle_row_def)
  then have "dget (dict_of (sort_keys (PDict (cycle_row c)))) k = dget (map (\<lambda>kv. (fst kv, sort_keys (snd kv))) (cycle_row c)) k"
    by (simp add: dget_sort_key o_def)
  then show ?thesis by (simp add: dget_def map_of_map_snd split: option.split)
qed

lemma row_cycle_roundtrip: "\<not> deduplicated (c_ticket c) \<Longrightarrow> row_cycle (dict_of (sort_keys (PDict (cycle_row c)))) = c"
  unfolding row_cycle_def row_dget by (cases c, cases "c_ticket c") (simp add: cycle_row_def dget_Cons)

lemma latest_roundtrip:
  fixes l :: "(string \<times> string) list"
  defines "l' \<equiv> map (\<lambda>tc. (fst tc, py_str (snd tc))) (dict_of (sort_keys (PDict (sort_key fst (map (\<lambda>tc. (fst tc, PStr (snd tc))) l)))))"
  assumes "distinct (map fst l)"
  shows "distinct (map fst l')" "map_of l' = map_of l"
proof -
  let ?m = "map (\<lambda>tc. (fst tc, PStr (snd tc))) l"
  have d: "distinct (map fst ?m)" using assms(2) by (simp add: o_def)
  let ?n = "map (\<lambda>kv. (fst kv, sort_keys (snd kv))) (sort_key fst ?m)"
  have d': "distinct (map fst ?n)" using distinct_sort_key [OF d] by (simp add: o_def)
  show "distinct (map fst l')" using distinct_sort_key [OF d'] by (simp add: l'_def o_def)
  have "map_of l' k = map_of l k" for k
    by (simp add: l'_def map_of_map_snd map_of_sort_key [OF d'] map_of_sort_key [OF d] option.map_comp o_def option.map_ident)
  then show "map_of l' = map_of l" by blast
qed

lemma validate_Inr: "validate_snapshot (Some v) = Inr d \<Longrightarrow> d = dict_of v"
  by (auto simp: validate_snapshot_def Let_def ebind_Inr_iff split: if_splits)

text \<open>What a coordinator rebuilt from its own snapshot holds before it is pruned.\<close>

definition rebuilt :: "coord \<Rightarrow> coord \<Rightarrow> bool" where
  "rebuilt s s1 \<longleftrightarrow> cycles s1 = map (\<lambda>kc. (fst kc, restarted (snd kc))) (cycles s)
     \<and> distinct (map fst (latest s1)) \<and> map_of (latest s1) = map_of (latest s) \<and> current s1 = [] \<and> brokers s1 = []
     \<and> unattributed s1 = [] \<and> epoch s1 = epoch s + 1 \<and> next_cycle s1 = next_cycle s
     \<and> 0 < max_traces s1 \<and> 0 < max_retained s1 \<and> 0 < max_audit s1 \<and> length (audit s1) \<le> max_audit s1"

lemma stored_key: "core_inv s \<Longrightarrow> kc \<in> set (cycles s) \<Longrightarrow> t_cycle (c_ticket (snd kc)) = fst kc \<and> \<not> deduplicated (c_ticket (snd kc))"
proof -
  assume inv: "core_inv s" and kc: "kc \<in> set (cycles s)"
  then have "map_of (cycles s) (fst kc) = Some (snd kc)" by (simp add: core_distinct map_of_eq_Some_iff)
  with inv have "minted s (fst kc) (snd kc)" unfolding core_inv_def linked_def by blast
  then show ?thesis by (simp add: minted_def)
qed

lemma restore_rebuilt:
  assumes inv: "core_inv s" and ok: "restore a b d (Some (snapshot s)) = Inr s'"
  shows "\<exists>s1. s' = prune s1 \<and> rebuilt s s1"
proof -
  have cs: "map (\<lambda>v. row_cycle (dict_of v)) (map (\<lambda>kc. sort_keys (PDict (cycle_row (snd kc)))) (cycles s)) = map snd (cycles s)"
    using stored_key [OF inv] by (simp add: row_cycle_roundtrip del: sort_keys.simps)
  have keys: "map (\<lambda>c. t_cycle (c_ticket c)) (map snd (cycles s)) = map fst (cycles s)"
    using stored_key [OF inv] by simp
  have dk: "distinct (map (\<lambda>c. t_cycle (c_ticket c)) (map snd (cycles s)))"
    unfolding keys by (rule core_distinct [OF inv])
  from ok obtain s0 rows sq where s0: "init_coord a b d (epoch s + 1) = Inr s0"
    and rows: "rows = lastn (max_audit s0) (map (bound 0) (list_val (dget (dict_of (snapshot s)) ''audit'')))"
    and s': "s' = prune (fold restore_cycle (map snd (cycles s))
       (s0\<lparr>next_cycle := next_cycle s,
           latest := map (\<lambda>tc. (fst tc, py_str (snd tc))) (dict_of (dget (dict_of (snapshot s)) ''latest'')),
           audit := rows, audit_seq := sq, audit_dropped := audit_dropped s\<rparr>))" (is "s' = prune (fold _ _ ?base)")
  proof -
    from ok obtain e where v: "validate_snapshot (Some (snapshot s)) = Inr e"
      and rest: "ebind (init_coord a b d (int_val (dget e ''epoch'') + 1)) (\<lambda>s0.
        let rows = lastn (max_audit s0) (map (bound 0) (list_val (dget e ''audit'')))
        in ebind (max_seq rows) (\<lambda>sq.
        Inr (prune (fold restore_cycle (map (\<lambda>v. row_cycle (dict_of v)) (list_val (dget e ''cycles'')))
          (s0\<lparr>next_cycle := nat (int_val (dget e ''next_cycle'')),
           latest := map (\<lambda>tc. (fst tc, py_str (snd tc))) (dict_of (dget e ''latest'')),
           audit := rows, audit_seq := sq, audit_dropped := nat (int_val (dget e ''audit_dropped''))\<rparr>))))) = Inr s'"
      unfolding restore_def ebind_Inr_iff by blast
    have "list_val (dget e ''cycles'') = map (\<lambda>kc. sort_keys (PDict (cycle_row (snd kc)))) (cycles s)"
      using validate_Inr [OF v] by (simp add: snapshot_dget)
    with rest that show thesis
      unfolding ebind_Inr_iff Let_def validate_Inr [OF v] by (auto simp: cs snapshot_dget simp del: sort_keys.simps map_map)
  qed
  have base: "cycles s0 = []" "current s0 = []" "brokers s0 = []" "unattributed s0 = []" "epoch s0 = epoch s + 1"
      "0 < max_traces s0" "0 < max_retained s0" "0 < max_audit s0"
    using s0 by (auto simp: init_coord_def split: if_splits)
  have "cycles (fold restore_cycle (map snd (cycles s)) ?base) = map (\<lambda>c. (t_cycle (c_ticket c), restarted c)) (map snd (cycles s))"
    using base cycles_restore [OF dk, of ?base] by simp
  also have "\<dots> = map (\<lambda>kc. (fst kc, restarted (snd kc))) (cycles s)" using stored_key [OF inv] by simp
  finally have "rebuilt s (fold restore_cycle (map snd (cycles s)) ?base)"
    using base latest_roundtrip [of "latest s"] core_parts(1) [OF inv] audit_restore_cycles [of ?base]
    by (simp add: rebuilt_def snapshot_dget well_keyed_def rows del: sort_keys.simps)
  with s' show ?thesis by blast
qed

lemma restart_not_in_flight [simp]: "\<not> is_in_flight (restarted c)"
  by (simp add: is_in_flight_def restarted_def restart_status_def split: cstatus.split)

lemma core_rebuilt:
  assumes inv: "core_inv s" and re: "rebuilt s s1"
  shows "core_inv s1"
proof -
  have C: "map_of (cycles s1) k = map_option restarted (map_of (cycles s) k)" for k
    using re by (simp add: rebuilt_def map_of_map_snd)
  have L: "linked s" and W: "well_keyed s" using inv by (simp_all add: core_inv_def)
  have tk: "c_ticket (restarted c) = c_ticket c" for c by (simp add: restarted_def)
  have "minted s1 k c" if "map_of (cycles s1) k = Some c" for k c
  proof -
    from that C obtain c0 where c0: "map_of (cycles s) k = Some c0" "c = restarted c0" by auto
    with L have "minted s k c0" unfolding linked_def by blast
    with c0 re show ?thesis by (auto simp: minted_def tk rebuilt_def)
  qed
  moreover have "\<exists>c. map_of (cycles s1) k = Some c \<and> t_trace (c_ticket c) = tr" if "map_of (latest s1) tr = Some k" for tr k
  proof -
    from that re L have "\<exists>c. map_of (cycles s) k = Some c \<and> t_trace (c_ticket c) = tr" unfolding linked_def rebuilt_def by auto
    then show ?thesis using C tk by auto
  qed
  moreover have "\<not> is_in_flight c" if "map_of (cycles s1) k = Some c" for k c
    using that C by auto
  ultimately have "linked s1" using re unfolding linked_def by (auto simp: rebuilt_def)
  moreover have "well_keyed s1" using re W by (auto simp: rebuilt_def well_keyed_def o_def)
  moreover have "in_flight_set (map_of (cycles s1)) = {}" using C by (auto simp: in_flight_set_def)
  ultimately show ?thesis using re by (simp add: core_inv_def within_limits_def rebuilt_def)
qed

lemma inv_restart: "coord_inv s \<Longrightarrow> restore a b d (Some (snapshot s)) = Inr s' \<Longrightarrow> coord_inv s'"
  using restore_rebuilt [OF inv_core] core_rebuilt [OF inv_core] inv_prune by blast

section \<open>Steps\<close>

text \<open>
  A state of the machine is the coordinator with a ghost: the material digest of the cycle whose
  outcome was last accepted for each trace. Tickets, outcomes, brokers and limits are arbitrary: a
  caller may offer any ticket at any time.
\<close>

type_synonym machine = "coord \<times> (string \<Rightarrow> string)"

inductive initial :: "machine \<Rightarrow> bool" where
  "init_coord a b d ep = Inr s \<Longrightarrow> initial (s, g)"

inductive step :: "(string \<Rightarrow> string) \<Rightarrow> machine \<Rightarrow> machine \<Rightarrow> bool" for sha where
  step_begin: "step sha (s, g) (snd (begin_cycle sha f s), g)"
| step_reject: "complete tk oc s = (r, s') \<Longrightarrow> \<not> accepted r \<Longrightarrow> step sha (s, g) (s', g)"
| step_accept: "complete (Some t) oc s = (r, s') \<Longrightarrow> accepted r \<Longrightarrow> step sha (s, g) (s', g(t_trace t := t_digest t))"
| step_cancel: "step sha (s, g) (snd (cancel tr r s), g)"
| step_attach: "step sha (s, g) (attach_broker t b s, g)"
| step_detach: "step sha (s, g) (detach_broker t s, g)"
| step_restart: "restore a b d (Some (snapshot s)) = Inr s' \<Longrightarrow> step sha (s, g) (s', g)"

lemma inv_initial: "init_coord a b d ep = Inr s \<Longrightarrow> coord_inv s"
  by (auto simp: init_coord_def coord_inv_def core_inv_def well_keyed_def linked_def within_limits_def finished_ids_def
      in_flight_set_def split: if_splits)

lemma inv_completeD: "complete tk oc s = (r, s') \<Longrightarrow> coord_inv s \<Longrightarrow> coord_inv s'"
  using inv_complete [of s tk oc] by simp

interpretation coord_machine: invariant_system initial "step sha" "\<lambda>m. coord_inv (fst m)" for sha
proof unfold_locales
  show "coord_inv (fst m)" if "initial m" for m
    using that by cases (auto intro: inv_initial)
  show "coord_inv (fst m')" if "coord_inv (fst m)" "step sha m m'" for m m'
    using that(2,1) by cases (auto intro: inv_begin inv_cancel inv_attach inv_detach inv_restart dest: inv_completeD)
qed

section \<open>An advisory never outlives its situation\<close>

definition latest_digest :: "coord \<Rightarrow> string \<Rightarrow> string option" where
  "latest_digest s tr = map_option (\<lambda>c. t_digest (c_ticket c)) (latest_cycle s tr)"

definition fresh :: "(string \<Rightarrow> string) \<Rightarrow> coord \<Rightarrow> bool" where
  "fresh g s \<longleftrightarrow> (\<forall>tr. map_of (current s) tr \<noteq> None \<longrightarrow> latest_digest s tr = Some (g tr))"

lemma latest_cycle_cong: "cycles s' = cycles s \<Longrightarrow> latest s' = latest s \<Longrightarrow> latest_cycle s' tr = latest_cycle s tr"
  by (simp add: latest_cycle_def split: option.split)

lemma fresh_cong:
  "cycles s' = cycles s \<Longrightarrow> latest s' = latest s \<Longrightarrow> current s' = current s \<Longrightarrow> fresh g s' = fresh g s"
  by (simp add: fresh_def latest_digest_def latest_cycle_cong [of s' s])

lemma fresh_log [simp]: "fresh g (log_event e c x s) = fresh g s"
  by (rule fresh_cong) simp_all

lemma fresh_close [simp]: "fresh g (close_broker k s) = fresh g s"
  by (rule fresh_cong) simp_all

lemma latest_digest_put:
  assumes "map_of (cycles s) (t_cycle (c_ticket c)) = Some c" "c_ticket c' = c_ticket c"
  shows "latest_digest (put_cycle c' s) tr = latest_digest s tr"
  using assms by (auto simp: latest_digest_def latest_cycle_def map_of_update split: option.split)

lemma fresh_put:
  "map_of (cycles s) (t_cycle (c_ticket c)) = Some c \<Longrightarrow> c_ticket c' = c_ticket c \<Longrightarrow> fresh g (put_cycle c' s) = fresh g s"
  by (simp add: fresh_def latest_digest_put)

lemma fresh_evict:
  assumes "linked s" "fresh g s"
  shows "fresh g (evict k s)"
  unfolding fresh_def
proof (intro allI impI)
  fix tr assume "map_of (current (evict k s)) tr \<noteq> None"
  then have nl: "\<not> evicts_latest k s tr" and "map_of (current s) tr \<noteq> None" by (auto simp: current_evict split: if_splits)
  with assms(2) have d: "latest_digest s tr = Some (g tr)" by (simp add: fresh_def)
  have "map_of (latest s) tr \<noteq> Some k" using nl assms(1) unfolding evicts_latest_def linked_def by blast
  with nl have "latest_cycle (evict k s) tr = latest_cycle s tr"
    by (auto simp: latest_cycle_def latest_evict map_of_delete split: option.split)
  with d show "latest_digest (evict k s) tr = Some (g tr)" by (simp add: latest_digest_def)
qed

lemma fresh_evicts:
  "core_inv s \<Longrightarrow> (\<And>k c. k \<in> set ks \<Longrightarrow> map_of (cycles s) k = Some c \<Longrightarrow> \<not> is_in_flight c) \<Longrightarrow> fresh g s \<Longrightarrow>
   fresh g (fold evict ks s)"
proof (induction ks arbitrary: s)
  case (Cons k ks)
  have "core_inv (evict k s)" using Cons.prems by (intro core_evict) auto
  moreover have "\<not> is_in_flight c" if "k' \<in> set ks" "map_of (cycles (evict k s)) k' = Some c" for k' c
    using that Cons.prems by (auto simp: map_of_delete split: if_splits)
  moreover have "fresh g (evict k s)" using Cons.prems core_parts(2) by (intro fresh_evict) auto
  ultimately have "fresh g (fold evict ks (evict k s))" by (rule Cons.IH)
  then show ?case by simp
qed simp

lemma fresh_prune: "core_inv s \<Longrightarrow> fresh g s \<Longrightarrow> fresh g (prune s)"
  unfolding prune_victims by (rule fresh_evicts) (auto dest: core_distinct victims_ended)

lemma latest_None:
  assumes inv: "core_inv s" and none: "latest_cycle s tr = None"
  shows "map_of (latest s) tr = None"
proof (rule ccontr)
  assume "map_of (latest s) tr \<noteq> None"
  then obtain k where k: "map_of (latest s) tr = Some k" by blast
  with core_parts(2) [OF inv] obtain c where c: "map_of (cycles s) k = Some c" unfolding linked_def by blast
  with core_parts(2) [OF inv] have "k \<noteq> []" unfolding linked_def minted_def by (metis cycle_id_nonempty)
  with k c none show False by (simp add: latest_cycle_def)
qed

lemma current_displace:
  assumes inv: "core_inv s" and lat: "lat = latest_cycle s (t_trace tk)"
    and cur: "map_of (current (displace lat tk s)) tr \<noteq> None"
  shows "map_of (current s) tr \<noteq> None" "tr = t_trace tk \<Longrightarrow> latest_digest s tr = Some (t_digest tk)"
proof -
  show old: "map_of (current s) tr \<noteq> None"
    using cur by (auto simp: displace_def supersede_def retire_def Let_def map_of_delete split: option.splits if_splits)
  assume tr: "tr = t_trace tk"
  have "map_of (latest s) tr \<noteq> None" by (rule current_latest [OF inv old])
  with latest_None [OF inv] lat tr obtain c where c: "lat = Some c" by fastforce
  have "t_digest (c_ticket c) = t_digest tk"
  proof (rule ccontr)
    assume "t_digest (c_ticket c) \<noteq> t_digest tk"
    with c tr cur old show False
      by (auto simp: displace_def supersede_def retire_def Let_def map_of_delete has_key_map_of split: if_splits)
  qed
  with c lat tr show "latest_digest s tr = Some (t_digest tk)" by (simp add: latest_digest_def)
qed

lemma latest_digest_displace:
  assumes "core_inv s" "lat = latest_cycle s tr'"
  shows "latest_digest (displace lat tk s) tr = latest_digest s tr"
proof (cases "\<exists>c. lat = Some c \<and> is_in_flight c")
  case True
  then obtain c where c: "lat = Some c" "is_in_flight c" by blast
  have "latest_cycle (displace lat tk s) tr = latest_cycle (put_cycle (c\<lparr>c_status := CSuperseded\<rparr>) s) tr"
    by (rule latest_cycle_cong) (simp_all add: c)
  moreover have "map_of (cycles s) (t_cycle (c_ticket c)) = Some c"
    using latest_cycle_own(1) [OF core_parts(2) [OF assms(1)]] assms(2) c by simp
  ultimately show ?thesis
    using latest_digest_put [of s c "c\<lparr>c_status := CSuperseded\<rparr>" tr] by (simp add: latest_digest_def)
next
  case False
  then have "latest_cycle (displace lat tk s) tr = latest_cycle s tr"
    by (intro latest_cycle_cong) (auto split: option.split)
  then show ?thesis by (simp add: latest_digest_def)
qed

lemma latest_digest_opened:
  assumes "linked s" "map_of (cycles s) (t_cycle tk) = None" "t_cycle tk \<noteq> []"
  shows "latest_digest (opened tk s) tr = (if tr = t_trace tk then Some (t_digest tk) else latest_digest s tr)"
proof -
  have "map_of (latest s) tr \<noteq> Some (t_cycle tk)" using assms(1,2) unfolding linked_def by fastforce
  with assms(3) show ?thesis
    by (auto simp: latest_digest_def latest_cycle_def opened_def map_of_update split: option.split)
qed

lemma fresh_begin:
  assumes inv: "coord_inv s" and fr: "fresh g s"
  shows "fresh g (snd (begin_cycle sha f s))"
proof (cases sha f s rule: begin_cases)
  case start
  let ?tk = "mint sha f s" and ?lat = "latest_cycle s (trace_id f)"
  let ?s = "displace ?lat ?tk (stepped s)"
  have cinv: "core_inv (stepped s)" by (rule core_next [OF inv_core [OF inv]])
  have lat: "?lat = latest_cycle (stepped s) (trace_id f)" by (rule latest_cycle_cong [symmetric]) simp_all
  have dig: "latest_digest ?s tr = latest_digest s tr" for tr
    using latest_digest_displace [OF cinv lat] latest_cycle_cong [of "stepped s" s] by (simp add: latest_digest_def)
  have L: "linked ?s"
    using core_displace [OF cinv, of ?lat ?tk] latest_cycle_own(1) [OF core_parts(2) [OF cinv]] lat core_parts(2) by simp
  have new: "map_of (cycles ?s) (t_cycle ?tk) = None"
    using displaced_fresh [OF inv_core [OF inv] refl, where tr = "trace_id f"]
    by (auto simp: mint_def split: option.splits if_splits)
  have "latest_digest (opened ?tk ?s) tr = Some (g tr)" if "map_of (current (opened ?tk ?s)) tr \<noteq> None" for tr
  proof -
    have "map_of (current ?s) tr \<noteq> None" using that by (simp add: opened_def)
    with current_displace [OF cinv, of ?lat ?tk tr] lat have "map_of (current s) tr \<noteq> None"
      "tr = t_trace ?tk \<Longrightarrow> latest_digest (stepped s) tr = Some (t_digest ?tk)" by (simp_all add: mint_def)
    with fr have g: "latest_digest s tr = Some (g tr)" by (simp add: fresh_def)
    have "latest_digest (stepped s) tr = latest_digest s tr"
      using latest_cycle_cong [of "stepped s" s] by (simp add: latest_digest_def)
    with g \<open>tr = t_trace ?tk \<Longrightarrow> _\<close> latest_digest_opened [OF L new] dig show ?thesis by (auto simp: mint_def)
  qed
  then have "fresh g (opened ?tk ?s)" by (simp add: fresh_def)
  moreover have "core_inv (opened ?tk ?s)" using begin_opened [OF inv_core [OF inv] start(2)] .
  ultimately show ?thesis using start(3) by (simp add: start_cycle_opened fresh_prune)
qed (use fr in simp_all)

lemma fresh_cancel: "coord_inv s \<Longrightarrow> fresh g s \<Longrightarrow> fresh g (snd (cancel tr r s))"
  using core_close_end [OF inv_core cancel_target_own [OF inv_core]] fresh_put [OF cancel_target_own [OF inv_core]]
  by (auto simp: cancel_def Let_def is_in_flight_def intro!: fresh_prune split: option.split)

lemma accept_shape:
  assumes inv: "coord_inv s" and own: "map_of (cycles s) (t_cycle (c_ticket c)) = Some c" and fl: "is_in_flight c"
  obtains s1 where "accept c oc s = prune s1" "core_inv s1" "\<And>tr. latest_digest s1 tr = latest_digest s tr"
    "\<And>tr. map_of (current s1) tr = (if tr = t_trace (c_ticket c) then Some oc else map_of (current s) tr)"
    "map_of (latest s1) (t_trace (c_ticket c)) = Some (t_cycle (c_ticket c))"
proof
  let ?c = "c\<lparr>c_status := Accepted, c_outcome_state := take 64 (outcome_state_of oc), c_advisory_id := take ID_LIMIT (advisory_of oc)\<rparr>"
  let ?p = "put_cycle ?c s"
  let ?s1 = "log_event ''result_accepted'' (Some ?c)
     [(''outcome_state'', PStr (outcome_state_of oc)), (''advisory_id'', PStr (advisory_of oc))]
     (?p\<lparr>current := AList.update (t_trace (c_ticket c)) oc (current ?p)\<rparr>)"
  show "accept c oc s = prune ?s1" by (simp add: accept_def Let_def)
  have "core_inv ?p" by (rule core_put_end [OF inv_core [OF inv] own]) (simp_all add: is_in_flight_def)
  moreover have lat: "map_of (latest ?p) (t_trace (c_ticket c)) = Some (t_cycle (c_ticket c))"
    using in_flight_latest [OF inv_core [OF inv] own fl] by simp
  ultimately show "core_inv ?s1" by (intro core_log core_set_current) simp_all
  show "latest_digest ?s1 tr = latest_digest s tr" for tr
    using latest_digest_put [OF own, of ?c tr] latest_cycle_cong [of ?s1 ?p tr] by (simp add: latest_digest_def)
  show "map_of (current ?s1) tr = (if tr = t_trace (c_ticket c) then Some oc else map_of (current s) tr)" for tr
    by (simp add: map_of_update)
  show "map_of (latest ?s1) (t_trace (c_ticket c)) = Some (t_cycle (c_ticket c))" using lat by simp
qed

lemma fresh_accept:
  assumes inv: "coord_inv s" and own: "map_of (cycles s) (t_cycle (c_ticket c)) = Some c" and fl: "is_in_flight c"
    and fr: "fresh g s"
  shows "fresh (g(t_trace (c_ticket c) := t_digest (c_ticket c))) (accept c oc s)"
proof -
  obtain s1 where s1: "accept c oc s = prune s1" "core_inv s1" "\<And>tr. latest_digest s1 tr = latest_digest s tr"
    "\<And>tr. map_of (current s1) tr = (if tr = t_trace (c_ticket c) then Some oc else map_of (current s) tr)"
    "map_of (latest s1) (t_trace (c_ticket c)) = Some (t_cycle (c_ticket c))"
    using accept_shape [OF inv own fl] by blast
  have "latest_digest s (t_trace (c_ticket c)) = Some (t_digest (c_ticket c))"
    using latest_in_flight [OF core_parts(2) [OF inv_core [OF inv]] own fl] by (simp add: latest_digest_def)
  with fr s1 have "fresh (g(t_trace (c_ticket c) := t_digest (c_ticket c))) s1" by (auto simp: fresh_def)
  with s1 show ?thesis by (simp add: fresh_prune)
qed

lemma fresh_discard:
  assumes "coord_inv s" "map_of (cycles s) (t_cycle (c_ticket c)) = Some c" "fresh g s"
  shows "fresh g (discard_for t c r oc s)"
proof -
  have "fresh g (put_cycle (c\<lparr>c_discards := Suc (c_discards c)\<rparr>) s)" using fresh_put [OF assms(2)] assms(3) by simp
  then show ?thesis unfolding discard_for_def Let_def by (simp only: fresh_log split: if_split) blast
qed

lemma complete_accepted:
  assumes "complete tk oc s = (r, s')" "accepted r"
  obtains t c where "tk = Some t" "map_of (cycles s) (t_cycle (c_ticket c)) = Some c" "same_cycle t (c_ticket c)"
    "is_in_flight c" "s' = accept c oc s" "cr_reason r = ''current''" "cr_outcome r = oc" "t_epoch t = epoch s"
proof (cases rule: complete_cases [where tk = tk and s = s and oc = oc])
  case (accept t c)
  with assms same_cycle_key [OF accept(3)] show thesis by (intro that [of t c]) auto
qed (use assms in auto)

lemma fresh_reject:
  assumes inv: "coord_inv s" and fr: "fresh g s" and c: "complete tk oc s = (r, s')" "\<not> accepted r"
  shows "fresh g s'"
proof (cases rule: complete_cases [where tk = tk and s = s and oc = oc])
  case (discard t c r')
  with c fresh_discard [OF inv _ fr] same_cycle_key [OF discard(3)] show ?thesis by simp
next
  case (forged r')
  have "fresh g (count_unattributed (fst r') s)"
    using fr fresh_cong [of "count_unattributed (fst r') s" s g] by (simp add: count_unattributed_def)
  with c forged show ?thesis by simp
qed (use c in auto)

lemma fresh_restart:
  assumes "coord_inv s" "restore a b d (Some (snapshot s)) = Inr s'"
  shows "current s' = []" "fresh g s'"
proof -
  from restore_rebuilt [OF inv_core [OF assms(1)] assms(2)] obtain s1 where s1: "s' = prune s1" "rebuilt s s1" by blast
  have "current (evict k u) = []" if "current u = []" for k and u :: coord
    using that by (simp add: evict_def Let_def split: option.split)
  then have "current (fold evict ks u) = []" if "current u = []" for ks and u :: coord
    using that by (induction ks arbitrary: u) simp_all
  with s1 show "current s' = []" by (simp add: prune_victims rebuilt_def)
  then show "fresh g s'" by (simp add: fresh_def)
qed

lemma fresh_attach: "fresh g s \<Longrightarrow> fresh g (attach_broker t b s)" "fresh g s \<Longrightarrow> fresh g (detach_broker t s)"
  by (simp_all add: attach_broker_def detach_broker_def Let_def fresh_cong [of "s\<lparr>brokers := _\<rparr>" s] split: option.split)

interpretation fresh_machine: invariant_system initial "step sha" "\<lambda>m. coord_inv (fst m) \<and> fresh (snd m) (fst m)" for sha
proof unfold_locales
  show "coord_inv (fst m) \<and> fresh (snd m) (fst m)" if "initial m" for m
    using that by cases (auto intro: inv_initial simp: fresh_def init_coord_def split: if_splits)
  show "coord_inv (fst m') \<and> fresh (snd m') (fst m')" if "coord_inv (fst m) \<and> fresh (snd m) (fst m)" "step sha m m'" for m m'
  proof
    show "coord_inv (fst m')" using that coord_machine.inv_step by blast
    from that(2,1) show "fresh (snd m') (fst m')"
    proof cases
      case (step_accept t oc s r s' g)
      from complete_accepted [OF step_accept(3,4)] obtain c where c: "map_of (cycles s) (t_cycle (c_ticket c)) = Some c"
        "same_cycle t (c_ticket c)" "is_in_flight c" "s' = accept c oc s" by (metis option.inject)
      with that(1) step_accept fresh_accept [of s c g oc] show ?thesis by (simp add: same_cycle_def)
    next
      case (step_restart a b d s s' g)
      with that(1) show ?thesis by (auto intro: fresh_restart(2))
    qed (auto intro: fresh_begin fresh_cancel fresh_attach fresh_reject)
  qed
qed

section \<open>No cycle comes back\<close>

lemma in_flight_evicts: "in_flight_set (map_of (cycles (fold evict ks s))) \<subseteq> in_flight_set (map_of (cycles s))"
proof (induction ks arbitrary: s)
  case (Cons k ks)
  have "in_flight_set (map_of (cycles (evict k s))) \<subseteq> in_flight_set (map_of (cycles s))"
    by (auto simp: delete_conv' in_flight_set_del)
  with Cons.IH [of "evict k s"] show ?case by simp
qed simp

lemma in_flight_prune: "in_flight_set (map_of (cycles (prune s))) \<subseteq> in_flight_set (map_of (cycles s))"
  unfolding prune_victims by (rule in_flight_evicts)

lemma in_flight_pruneD: "k \<in> in_flight_set (map_of (cycles (prune s))) \<Longrightarrow> k \<in> in_flight_set (map_of (cycles s))"
  using in_flight_prune by blast

lemma in_flight_put:
  "\<not> is_in_flight c \<Longrightarrow> in_flight_set (map_of (cycles (put_cycle c s))) \<subseteq> in_flight_set (map_of (cycles s))"
  by (auto simp: update_conv' in_flight_set_upd)

definition ended :: "string \<Rightarrow> coord \<Rightarrow> bool" where
  "ended k s \<longleftrightarrow> k \<notin> in_flight_set (map_of (cycles s)) \<and> (\<exists>n < next_cycle s. \<exists>tr ep. k = cycle_id_text tr ep n)"

lemma ended_mono:
  "ended k s \<Longrightarrow> in_flight_set (map_of (cycles s')) \<subseteq> in_flight_set (map_of (cycles s)) \<Longrightarrow> next_cycle s' = next_cycle s \<Longrightarrow> ended k s'"
  by (auto simp: ended_def)

lemma next_prune [simp]: "next_cycle (prune s) = next_cycle s" "epoch (prune s) = epoch s"
  by (simp_all add: prune_victims)

lemma ended_begin: "ended k s \<Longrightarrow> ended k (snd (begin_cycle sha f s))"
proof (cases sha f s rule: begin_cases)
  case start
  let ?tk = "mint sha f s" and ?s = "displace (latest_cycle s (trace_id f)) (mint sha f s) (stepped s)"
  assume k: "ended k s"
  then obtain n tr ep where n: "n < next_cycle s" "k = cycle_id_text tr ep n" by (auto simp: ended_def)
  have "k \<noteq> t_cycle ?tk" using n cycle_id_seq by (fastforce simp: mint_def)
  moreover have "in_flight_set (map_of (cycles ?s)) \<subseteq> in_flight_set (map_of (cycles s))"
    by (auto simp: update_conv' in_flight_set_upd is_in_flight_def split: option.split)
  ultimately have "k \<notin> in_flight_set (map_of (cycles (opened ?tk ?s)))"
    using k by (auto simp: ended_def opened_def update_conv' in_flight_set_upd split: if_splits)
  then have "k \<notin> in_flight_set (map_of (cycles (snd (begin_cycle sha f s))))"
    using start(3) by (auto simp: start_cycle_opened dest!: in_flight_pruneD)
  with n start(3) show ?thesis by (auto simp: ended_def start_cycle_opened opened_def less_Suc_eq)
qed (simp_all add: ended_def)

lemma ended_cancel: "ended k s \<Longrightarrow> ended k (snd (cancel tr r s))"
proof (erule ended_mono)
  show "in_flight_set (map_of (cycles (snd (cancel tr r s)))) \<subseteq> in_flight_set (map_of (cycles s))"
    by (auto simp: cancel_def Let_def is_in_flight_def update_conv' in_flight_set_upd split: option.split dest!: in_flight_pruneD)
  show "next_cycle (snd (cancel tr r s)) = next_cycle s" by (simp add: cancel_def Let_def split: option.split)
qed

lemma in_flight_accept:
  "in_flight_set (map_of (cycles (accept c oc s))) \<subseteq> in_flight_set (map_of (cycles s)) - {t_cycle (c_ticket c)}"
  by (auto simp: accept_def Let_def update_conv' in_flight_set_upd is_in_flight_def dest!: in_flight_pruneD)

lemma next_accept [simp]: "next_cycle (accept c oc s) = next_cycle s" "epoch (accept c oc s) = epoch s"
  by (simp_all add: accept_def Let_def)

lemma discard_simps [simp]:
  "cycles (discard_for t c r oc s) = AList.update (t_cycle (c_ticket c)) (c\<lparr>c_discards := Suc (c_discards c)\<rparr>) (cycles s)"
  "latest (discard_for t c r oc s) = latest s"
  "current (discard_for t c r oc s) = current s"
  "epoch (discard_for t c r oc s) = epoch s"
  "next_cycle (discard_for t c r oc s) = next_cycle s"
  "unattributed (discard_for t c r oc s) = unattributed s"
  unfolding discard_for_def Let_def by (simp_all split: if_split)

lemma count_fields [simp]:
  "cycles (count_unattributed r s) = cycles s"
  "latest (count_unattributed r s) = latest s"
  "current (count_unattributed r s) = current s"
  "epoch (count_unattributed r s) = epoch s"
  "next_cycle (count_unattributed r s) = next_cycle s"
  "audit (count_unattributed r s) = audit s"
  by (simp_all add: count_unattributed_def)

lemma ended_complete:
  assumes inv: "coord_inv s" and k: "ended k s"
  shows "ended k (snd (complete tk oc s))"
proof (cases rule: complete_cases [where tk = tk and s = s and oc = oc])
  case (accept t c)
  with k in_flight_accept [of c oc s] show ?thesis by (intro ended_mono [OF k]) auto
next
  case (discard t c r)
  have "\<not> is_in_flight c"
    using in_flight_latest [OF inv_core [OF inv] discard(2)] discard(3,4) by (auto simp: same_cycle_def)
  with discard show ?thesis
    by (intro ended_mono [OF k]) (auto simp: update_conv' in_flight_set_upd is_in_flight_def)
next
  case (forged r)
  with k show ?thesis by (simp add: ended_def)
qed

lemma ended_brokers: "ended k s \<Longrightarrow> ended k (attach_broker t b s)" "ended k s \<Longrightarrow> ended k (detach_broker t s)"
  by (simp_all add: ended_def attach_broker_def detach_broker_def Let_def split: option.split)

lemma restart_facts:
  assumes "coord_inv s" "restore a b d (Some (snapshot s)) = Inr s'"
  shows "in_flight_set (map_of (cycles s')) = {}" "next_cycle s' = next_cycle s" "epoch s' = epoch s + 1"
proof -
  from restore_rebuilt [OF inv_core [OF assms(1)] assms(2)] obtain s1 where s1: "s' = prune s1" "rebuilt s s1" by blast
  have "in_flight_set (map_of (cycles s1)) = {}" using s1(2) by (auto simp: rebuilt_def map_of_map_snd in_flight_set_def)
  with in_flight_prune [of s1] s1 show "in_flight_set (map_of (cycles s')) = {}" by simp
  from s1 show "next_cycle s' = next_cycle s" "epoch s' = epoch s + 1" by (simp_all add: rebuilt_def)
qed

lemma ended_restart: "coord_inv s \<Longrightarrow> restore a b d (Some (snapshot s)) = Inr s' \<Longrightarrow> ended k s \<Longrightarrow> ended k s'"
  by (simp add: ended_def restart_facts)

lemma ended_forever:
  assumes "coord_inv (fst m0)" "ended k (fst m0)" "reach (\<lambda>m. m = m0) (step sha) m"
  shows "coord_inv (fst m) \<and> ended k (fst m)"
proof -
  have "invariant_system (\<lambda>m. m = m0) (step sha) (\<lambda>m. coord_inv (fst m) \<and> ended k (fst m))"
  proof unfold_locales
    show "coord_inv (fst m') \<and> ended k (fst m')" if "coord_inv (fst m) \<and> ended k (fst m)" "step sha m m'" for m m'
    proof
      show "coord_inv (fst m')" using that coord_machine.inv_step by blast
      from that(2,1) show "ended k (fst m')"
      proof cases
        case (step_reject tk oc s r s' g)
        with that(1) ended_complete [of s k tk oc] show ?thesis by simp
      next
        case (step_accept t oc s r s' g)
        with that(1) ended_complete [of s k "Some t" oc] show ?thesis by simp
      next
        case (step_restart a b d s s' g)
        with that(1) show ?thesis by (auto intro: ended_restart)
      qed (auto intro: ended_begin ended_cancel ended_brokers)
    qed
  qed (use assms in auto)
  from invariant_system.reach_inv [OF this assms(3)] show ?thesis .
qed

section \<open>The audit rows survive a snapshot\<close>

definition row_ok :: "pyval \<Rightarrow> bool" where
  "row_ok r \<longleftrightarrow> (\<exists>d. r = PDict d \<and> distinct (map fst d) \<and> length d \<le> 16 \<and> (\<forall>kv \<in> set d. length (fst kv) \<le> 64)
     \<and> is_int (dget d ''seq'') \<and> is_text (dget d ''event''))"

definition rows_ok :: "coord \<Rightarrow> bool" where
  "rows_ok s \<longleftrightarrow> (\<forall>r \<in> set (audit s). row_ok r)"

definition extra_ok :: "pydict \<Rightarrow> bool" where
  "extra_ok x \<longleftrightarrow> length x \<le> 5 \<and> (\<forall>kv \<in> set x. fst kv \<noteq> ''seq'' \<and> fst kv \<noteq> ''event'' \<and> length (fst kv) \<le> 64)"

lemma dupdate_append: "distinct (map fst (d @ x)) \<Longrightarrow> dupdate d x = d @ x"
proof (induction x arbitrary: d)
  case (Cons kv x)
  then have "AList.update (fst kv) (snd kv) d = d @ [kv]" by (simp add: update_new)
  with Cons.IH [of "d @ [kv]"] Cons.prems show ?case by (simp add: dupdate_def)
qed (simp add: dupdate_def)

lemma dupdate_keys: "fst ` set (dupdate d x) = fst ` set d \<union> fst ` set x"
  by (induction x arbitrary: d) (auto simp: dupdate_def keys_update)

lemma dupdate_distinct: "distinct (map fst d) \<Longrightarrow> distinct (map fst (dupdate d x))"
  by (induction x arbitrary: d) (simp_all add: dupdate_def distinct_update_keys)

lemma length_update: "length (AList.update k v d) \<le> Suc (length d)"
  by (induction d) auto

lemma dupdate_length: "length (dupdate d x) \<le> length d + length x"
proof (induction x arbitrary: d)
  case (Cons kv x)
  from Cons.IH [of "AList.update (fst kv) (snd kv) d"] length_update [of "fst kv" "snd kv" d]
  show ?case by (simp add: dupdate_def)
qed (simp add: dupdate_def)

lemma dget_map_snd: "f PNone = PNone \<Longrightarrow> dget (map (\<lambda>kv. (fst kv, f (snd kv))) d) k = f (dget d k)"
  by (simp add: dget_def map_of_map_snd split: option.split)

lemma bound_dict:
  assumes "distinct (map fst d)" "length d \<le> 16" "\<forall>kv \<in> set d. length (fst kv) \<le> 64" "n < 3"
  shows "bound n (PDict d) = PDict (map (\<lambda>kv. (fst kv, bound (Suc n) (snd kv))) d)"
proof -
  have e: "map (\<lambda>kv. (take 64 (fst kv), bound (Suc n) (snd kv))) d = map (\<lambda>kv. (fst kv, bound (Suc n) (snd kv))) d"
    using assms(3) by simp
  show ?thesis
    using assms(1,2,4) dupdate_append [of "[]" "map (\<lambda>kv. (fst kv, bound (Suc n) (snd kv))) d"] by (simp add: e o_def)
qed

lemma scalar_bound: "is_int v \<Longrightarrow> is_int (bound n v)" "is_text v \<Longrightarrow> is_text (bound n v)"
  by (cases v; simp)+

lemma scalar_sort: "is_int v \<Longrightarrow> is_int (sort_keys v)" "is_text v \<Longrightarrow> is_text (sort_keys v)"
  by (cases v; simp)+

lemma row_ok_bound: "row_ok r \<Longrightarrow> row_ok (bound 0 r)"
  unfolding row_ok_def by (auto simp: bound_dict o_def dget_map_snd scalar_bound simp del: bound.simps(7))

lemma row_ok_sort: "row_ok r \<Longrightarrow> row_ok (sort_keys r)"
  unfolding row_ok_def
  by (auto simp: o_def dget_map_snd dget_sort_key scalar_sort distinct_sort_key)

lemma row_ok_log: "extra_ok x \<Longrightarrow> row_ok (bound 0 (log_row s e c x))"
proof (rule row_ok_bound)
  assume x: "extra_ok x"
  define base where "base = [(''seq'', PInt (audit_seq s + 1)), (''epoch'', PInt (epoch s)), (''event'', PStr e)]
        @ (case c of None \<Rightarrow> [] | Some c' \<Rightarrow> cycle_fields c')"
  have base: "distinct (map fst base)" "length base \<le> 7" "\<forall>kv \<in> set base. length (fst kv) \<le> 64"
    "dget base ''seq'' = PInt (audit_seq s + 1)" "dget base ''event'' = PStr e"
    by (cases c; auto simp: base_def cycle_fields_def dget_Cons)+
  have "dget (dupdate base x) k = dget base k" if "k \<in> {''seq'', ''event''}" for k
  proof -
    have "map_of (rev x) k = None" using x that by (auto simp: extra_ok_def map_of_eq_None_iff)
    then show ?thesis by (simp add: dget_def map_of_dupdate)
  qed
  moreover have "length (dupdate base x) \<le> 16" using dupdate_length [of base x] base(2) x by (simp add: extra_ok_def)
  moreover have "length (fst kv) \<le> 64" if "kv \<in> set (dupdate base x)" for kv
  proof -
    have "fst kv \<in> fst ` set base \<union> fst ` set x" using that dupdate_keys [of base x] by blast
    with base(3) x show ?thesis by (auto simp: extra_ok_def)
  qed
  moreover have "log_row s e c x = PDict (dupdate base x)" by (simp add: log_row_def base_def)
  ultimately show "row_ok (log_row s e c x)" using base dupdate_distinct [of base x] by (simp add: row_ok_def)
qed

lemma set_tl: "set (tl xs) \<subseteq> set xs"
  by (cases xs) auto

lemma rows_log: "rows_ok s \<Longrightarrow> extra_ok x \<Longrightarrow> rows_ok (log_event e c x s)"
  using row_ok_log [of x s e c] by (auto simp: rows_ok_def log_event_def Let_def dest!: subsetD [OF set_tl])

lemma rows_cong: "audit s' = audit s \<Longrightarrow> rows_ok s' = rows_ok s"
  by (simp add: rows_ok_def)

lemma rows_put [simp]: "rows_ok (put_cycle c s) = rows_ok s" by (rule rows_cong) simp
lemma rows_close [simp]: "rows_ok (close_broker k s) = rows_ok s" by (rule rows_cong) simp

lemma rows_evict: "rows_ok s \<Longrightarrow> rows_ok (evict k s)"
  by (auto simp: evict_def Let_def extra_ok_def intro!: rows_log split: option.split) (simp_all add: rows_ok_def)

lemma rows_prune: "rows_ok s \<Longrightarrow> rows_ok (prune s)"
proof -
  have "rows_ok u \<Longrightarrow> rows_ok (fold evict ks u)" for ks u
    by (induction ks arbitrary: u) (simp_all add: rows_evict)
  then show "rows_ok s \<Longrightarrow> rows_ok (prune s)" by (simp add: prune_victims)
qed

lemmas rows_intros = rows_prune rows_log

lemma rows_begin: "rows_ok s \<Longrightarrow> rows_ok (snd (begin_cycle sha f s))"
proof (cases sha f s rule: begin_cases)
  case start
  assume "rows_ok s"
  then have "rows_ok (stepped s)" by (simp add: rows_ok_def)
  then have "rows_ok (displace lat tk (stepped s))" for lat tk
    by (auto simp: displace_def Let_def supersede_def retire_def extra_ok_def rows_cong [of "u\<lparr>current := _\<rparr>" u for u]
        intro!: rows_log split: option.split)
  then have "rows_ok (opened tk (displace lat tk' (stepped s)))" for tk lat tk' by (simp add: opened_def rows_ok_def)
  with start(3) show ?thesis by (auto simp: start_cycle_opened extra_ok_def intro!: rows_intros)
qed (auto simp: extra_ok_def intro!: rows_log)

lemma rows_cancel: "rows_ok s \<Longrightarrow> rows_ok (snd (cancel tr r s))"
  by (auto simp: cancel_def Let_def extra_ok_def intro!: rows_intros split: option.split)

lemma rows_complete: "rows_ok s \<Longrightarrow> rows_ok (snd (complete tk oc s))"
proof (cases rule: complete_cases [where tk = tk and s = s and oc = oc])
  case (accept t c)
  assume "rows_ok s"
  with accept(6) show ?thesis
    by (auto simp: accept_def Let_def extra_ok_def rows_cong [of "u\<lparr>current := _\<rparr>" u for u] intro!: rows_intros)
next
  case (discard t c r)
  assume "rows_ok s"
  with discard(7) show ?thesis by (auto simp: discard_for_def Let_def extra_ok_def intro!: rows_log)
qed (simp add: rows_ok_def)

lemma rows_brokers: "rows_ok s \<Longrightarrow> rows_ok (attach_broker t b s)" "rows_ok s \<Longrightarrow> rows_ok (detach_broker t s)"
  by (simp_all add: rows_ok_def attach_broker_def detach_broker_def Let_def split: option.split)

lemma rows_restart:
  assumes rows: "rows_ok s" and ok: "restore a b d (Some (snapshot s)) = Inr s'"
  shows "rows_ok s'"
proof -
  from ok obtain s0 rs cs l n sq ad where
    s': "s' = prune (fold restore_cycle cs (s0\<lparr>next_cycle := n, latest := l, audit := rs, audit_seq := sq, audit_dropped := ad\<rparr>))"
    and rs: "rs = lastn (max_audit s0) (map (bound 0) (list_val (dget (dict_of (snapshot s)) ''audit'')))"
    unfolding restore_def ebind_Inr_iff Let_def by (auto dest!: validate_Inr)
  have all: "row_ok r" if "r \<in> set rs" for r
    using that rows rs set_lastn by (fastforce simp: snapshot_dget rows_ok_def intro: row_ok_bound row_ok_sort)
  have "rows_ok (restore_cycle c u)" if "rows_ok u" for c u
    using that by (auto simp: restore_cycle_def Let_def extra_ok_def intro!: rows_log split: cstatus.split)
  then have foldok: "rows_ok (fold restore_cycle cs u)" if "rows_ok u" for u
    using that by (induction cs arbitrary: u) simp_all
  show ?thesis unfolding s' by (intro rows_prune foldok) (simp add: rows_ok_def all)
qed

interpretation rows_machine: invariant_system initial "step sha" "\<lambda>m. rows_ok (fst m)" for sha
proof unfold_locales
  show "rows_ok (fst m)" if "initial m" for m
    using that by cases (auto simp: rows_ok_def init_coord_def split: if_splits)
  show "rows_ok (fst m')" if "rows_ok (fst m)" "step sha m m'" for m m'
    using that(2,1)
  proof cases
    case (step_reject tk oc s r s' g)
    with that(1) rows_complete [of s tk oc] show ?thesis by simp
  next
    case (step_accept t oc s r s' g)
    with that(1) rows_complete [of s "Some t" oc] show ?thesis by simp
  qed (auto intro: rows_begin rows_cancel rows_brokers rows_restart)
qed

section \<open>A snapshot restores\<close>

text \<open>
  The limits \<open>restore\<close> puts on the texts of a cycle. A frame built by \<open>MioSituationFrame.build\<close>
  has a trace identity of at most 96 characters, so the identities minted from it stay below them.
\<close>

definition short_cycle :: "cycle \<Rightarrow> bool" where
  "short_cycle c \<longleftrightarrow> length (t_cycle (c_ticket c)) \<le> ID_LIMIT \<and> length (t_trace (c_ticket c)) \<le> ID_LIMIT
     \<and> length (t_frame (c_ticket c)) \<le> ID_LIMIT \<and> length (t_digest (c_ticket c)) \<le> ID_LIMIT
     \<and> length (c_outcome_state c) \<le> ID_LIMIT \<and> length (c_advisory_id c) \<le> ID_LIMIT"

lemma row_keys: "fst ` set (dict_of (sort_keys (PDict (cycle_row c)))) = set CYCLE_KEYS"
  by (auto simp: cycle_row_def CYCLE_KEYS_def CYCLE_KEYS_LEGACY_def CYCLE_TEXT_KEYS_def)

lemma row_fields [simp]:
  "dget (cycle_row c) ''cycle_id'' = PStr (t_cycle (c_ticket c))"
  "dget (cycle_row c) ''trace_id'' = PStr (t_trace (c_ticket c))"
  "dget (cycle_row c) ''frame_id'' = PStr (t_frame (c_ticket c))"
  "dget (cycle_row c) ''material_digest'' = PStr (t_digest (c_ticket c))"
  "dget (cycle_row c) ''status'' = PStr (cstatus_value (c_status c))"
  "dget (cycle_row c) ''outcome_state'' = PStr (c_outcome_state c)"
  "dget (cycle_row c) ''advisory_id'' = PStr (c_advisory_id c)"
  "dget (cycle_row c) ''epoch'' = PInt (t_epoch (c_ticket c))"
  "dget (cycle_row c) ''discards'' = PInt (int (c_discards c))"
  by (simp_all add: cycle_row_def dget_Cons)

lemma row_texts:
  assumes "short_cycle c" "k \<in> set CYCLE_TEXT_KEYS"
  shows "is_text (dget (cycle_row c) k) \<and> length (py_str (dget (cycle_row c) k)) \<le> ID_LIMIT"
proof -
  have "length (cstatus_value (c_status c)) \<le> ID_LIMIT" by (cases "c_status c") (simp_all add: ID_LIMIT_def)
  with assms show ?thesis by (auto simp: CYCLE_TEXT_KEYS_def short_cycle_def)
qed

lemma check_row:
  assumes "short_cycle c" "0 \<le> t_epoch (c_ticket c)" "t_epoch (c_ticket c) \<le> ep" "t_cycle (c_ticket c) \<notin> fst ` set seen"
  shows "check_rows ep seen (sort_keys (PDict (cycle_row c)) # vs) = check_rows ep (seen @ [(t_cycle (c_ticket c), t_trace (c_ticket c))]) vs"
proof -
  have "sort_keys (dget (cycle_row c) k) = dget (cycle_row c) k" if "k \<in> set CYCLE_TEXT_KEYS" for k
    using row_texts [OF assms(1) that] by (cases "dget (cycle_row c) k") simp_all
  then have "\<not> (\<exists>k \<in> set CYCLE_TEXT_KEYS. \<not> is_text (dget (dict_of (sort_keys (PDict (cycle_row c)))) k)
      \<or> length (py_str (dget (dict_of (sort_keys (PDict (cycle_row c)))) k)) > ID_LIMIT)"
    unfolding row_dget using row_texts [OF assms(1)] by (auto simp: not_less)
  moreover have "is_dict (sort_keys (PDict (cycle_row c)))" by simp
  ultimately show ?thesis
    using assms row_keys [of c]
    by (simp add: row_dget Let_def has_key_def update_new del: sort_keys.simps(2))
qed

lemma check_all_rows:
  "\<forall>c \<in> set cs. short_cycle c \<and> 0 \<le> t_epoch (c_ticket c) \<and> t_epoch (c_ticket c) \<le> ep \<Longrightarrow>
   distinct (map fst seen @ map (\<lambda>c. t_cycle (c_ticket c)) cs) \<Longrightarrow>
   check_rows ep seen (map (\<lambda>c. sort_keys (PDict (cycle_row c))) cs) = Inr (seen @ map (\<lambda>c. (t_cycle (c_ticket c), t_trace (c_ticket c))) cs)"
proof (induction cs arbitrary: seen)
  case (Cons c cs)
  then have "t_cycle (c_ticket c) \<notin> fst ` set seen" by auto
  with Cons show ?case
    by (simp add: check_row del: sort_keys.simps check_rows.simps)
qed simp

lemma snapshot_keys: "fst ` set (dict_of (snapshot s)) = set SNAPSHOT_KEYS" "is_dict (snapshot s)"
  by (auto simp: snapshot_def SNAPSHOT_KEYS_def)

lemma own_rows_checked:
  assumes inv: "core_inv s" and short: "\<forall>kc \<in> set (cycles s). short_cycle (snd kc)"
  shows "check_rows (epoch s) [] (map (\<lambda>kc. sort_keys (PDict (cycle_row (snd kc)))) (cycles s)) =
    Inr (map (\<lambda>kc. (fst kc, t_trace (c_ticket (snd kc)))) (cycles s))"
proof -
  have ep: "0 \<le> t_epoch (c_ticket (snd kc)) \<and> t_epoch (c_ticket (snd kc)) \<le> epoch s" if "kc \<in> set (cycles s)" for kc
  proof -
    have "map_of (cycles s) (fst kc) = Some (snd kc)" using that core_distinct [OF inv] by (simp add: map_of_eq_Some_iff)
    with inv have "minted s (fst kc) (snd kc)" unfolding core_inv_def linked_def by blast
    then show ?thesis by (simp add: minted_def)
  qed
  have keys: "map (\<lambda>c. t_cycle (c_ticket c)) (map snd (cycles s)) = map fst (cycles s)" using stored_key [OF inv] by simp
  have "check_rows (epoch s) [] (map (\<lambda>c. sort_keys (PDict (cycle_row c))) (map snd (cycles s))) =
      Inr ([] @ map (\<lambda>c. (t_cycle (c_ticket c), t_trace (c_ticket c))) (map snd (cycles s)))"
    by (rule check_all_rows) (use ep short keys core_distinct [OF inv] in \<open>auto simp del: map_map\<close>)
  then show ?thesis using stored_key [OF inv] by (simp add: o_def del: sort_keys.simps(2) cong: map_cong)
qed

lemma own_latest_ok:
  assumes inv: "core_inv s"
  shows "list_all (latest_ok (map (\<lambda>kc. (fst kc, t_trace (c_ticket (snd kc)))) (cycles s)))
    (dict_of (sort_keys (PDict (sort_key fst (map (\<lambda>tc. (fst tc, PStr (snd tc))) (latest s))))))"
proof -
  have "\<exists>c. map_of (cycles s) k = Some c \<and> t_trace (c_ticket c) = tr" if "(tr, k) \<in> set (latest s)" for tr k
  proof -
    have "map_of (latest s) tr = Some k" using that inv by (simp add: core_inv_def well_keyed_def map_of_eq_Some_iff)
    with inv show ?thesis unfolding core_inv_def linked_def by blast
  qed
  then show ?thesis
    by (auto simp: list_all_iff latest_ok_def map_of_map_snd [where f = "\<lambda>c. t_trace (c_ticket c)"])
qed

lemma dget_present: "is_int (dget d k) \<Longrightarrow> has_key d k"
  by (cases "map_of d k") (simp_all add: dget_def has_key_map_of)

lemma row_ok_audit: "row_ok r \<Longrightarrow> audit_row_ok r \<and> has_key (dict_of r) ''seq''"
  by (auto simp: row_ok_def audit_row_ok_def intro: dget_present)

lemma is_dict_sort [simp]: "is_dict (sort_keys v) = is_dict v"
  by (cases v) simp_all

lemma restore_own:
  assumes inv: "coord_inv s" and rows: "rows_ok s" and short: "\<forall>kc \<in> set (cycles s). short_cycle (snd kc)"
  shows "\<exists>s'. restore a b d (Some (snapshot s)) = Inr s'"
proof -
  note core = inv_core [OF inv]
  have au: "list_all audit_row_ok (map sort_keys (audit s))"
    using rows row_ok_audit row_ok_sort by (auto simp: rows_ok_def list_all_iff)
  have "0 \<le> epoch s" "1 \<le> next_cycle s" using core by (auto simp: core_inv_def well_keyed_def)
  then have v: "validate_snapshot (Some (snapshot s)) = Inr (dict_of (snapshot s))"
    using snapshot_keys [of s] own_rows_checked [OF core short] own_latest_ok [OF core] au
    by (simp add: validate_snapshot_def snapshot_dget Let_def del: sort_keys.simps(2))
  obtain s0 where s0: "init_coord a b d (epoch s + 1) = Inr s0" using \<open>0 \<le> epoch s\<close> by (simp add: init_coord_def)
  have "list_all (\<lambda>r. has_key (dict_of r) ''seq'') (lastn n (map (bound 0) (map sort_keys (audit s))))" for n
    using rows set_lastn row_ok_audit row_ok_sort row_ok_bound by (fastforce simp: rows_ok_def list_all_iff)
  then obtain sq where "max_seq (lastn (max_audit s0) (map (bound 0) (map sort_keys (audit s)))) = Inr sq"
    by (simp add: max_seq_def)
  with v s0 show ?thesis by (simp add: restore_def snapshot_dget del: sort_keys.simps(2))
qed

end
