(* ===== verification/CoordinatorProperties.thy ===== *)
theory CoordinatorProperties
  imports Coordination
begin

text \<open>
  The properties of the reasoning coordinator, over the step relation of \<open>Coordination\<close>: bounds,
  exactness of acceptance, at most one acceptance per cycle, freshness of the served advisory, the
  ticket \<open>begin\<close> returns, restart, and what counts as a materially new frame.
\<close>

section \<open>Further lemmas\<close>

lemma finished_count: "length (finished_ids s) + length (in_flight_ids s) = length (cycles s)"
  using sum_length_filter_compl [of "\<lambda>kc. is_in_flight (snd kc)" "cycles s"]
  by (simp add: finished_ids_def in_flight_ids_def)

lemma prune_none: "length (finished_ids s) \<le> max_retained s \<Longrightarrow> prune s = s"
  by (simp add: prune_def)

lemma prune_keeps_in_flight:
  assumes "core_inv s" "map_of (cycles s) k = Some c" "is_in_flight c"
  shows "map_of (cycles (prune s)) k = Some c"
proof -
  have "k \<notin> set (victims s)" using assms victims_ended core_distinct by blast
  then have "map_of (filter (\<lambda>kc. fst kc \<notin> set (victims s)) d) k = map_of d k" for d :: "(string \<times> cycle) list"
    by (induction d) auto
  with assms(2) show ?thesis by (simp add: prune_victims cycles_evicts)
qed

lemma is_current_log [simp]: "is_current (log_event e c x s) tk = is_current s tk"
  by (simp add: is_current_def ticket_status_def split: option.split)

lemma length_update_present: "map_of d k \<noteq> None \<Longrightarrow> length (AList.update k v d) = length d"
  by (induction d) (auto split: if_splits)

lemma accept_finished:
  assumes inv: "coord_inv s" and own: "map_of (cycles s) (t_cycle (c_ticket c)) = Some c" and fl: "is_in_flight c"
    and c': "c_ticket c' = c_ticket c" "\<not> is_in_flight c'" and s1: "cycles s1 = AList.update (t_cycle (c_ticket c)) c' (cycles s)"
  shows "length (finished_ids s1) = Suc (length (finished_ids s))"
proof -
  let ?F = "in_flight_set (map_of (cycles s))"
  have d: "distinct (map fst (cycles s))" using inv inv_core core_distinct by blast
  have F: "t_cycle (c_ticket c) \<in> ?F" using own fl by (simp add: in_flight_set_def)
  have "length (in_flight_ids s1) = card (?F - {t_cycle (c_ticket c)})"
    using length_in_flight [of s1] d s1 c'(2) by (simp add: distinct_update_keys update_conv' in_flight_set_upd)
  moreover have "length (in_flight_ids s) = card ?F" by (rule length_in_flight [OF d])
  moreover have "card ?F = Suc (card (?F - {t_cycle (c_ticket c)}))" using card_Suc_Diff1 [OF finite_in_flight F] by simp
  moreover have "length (cycles s1) = length (cycles s)" using s1 own by (simp add: length_update_present)
  ultimately show ?thesis using finished_count [of s] finished_count [of s1] by simp
qed

section \<open>A concrete run\<close>

text \<open>Two traces, one retained cycle: \<open>ex_s2\<close> is reached by \<open>begin\<close> on each trace.\<close>

definition ex_sha :: "string \<Rightarrow> string" where "ex_sha x = ''d''"

definition ex_frame :: "string \<Rightarrow> frame" where
  "ex_frame tr = \<lparr>schema_version = [], frame_id = ''f'', trace_id = tr, created_at = [], mission = [],
     current_defensive_state = [], threat_level = [], noc_summary = [], soc_summary = [], known_facts = [], unknowns = [],
     contradictions = [], frame_evidence_refs = [], knowledge_refs = [], knowledge_status = [], deception_status = [],
     provenance = [], freshness_seconds = 0, truncated = False, actors = [], actions = [], deception_context = PNone\<rparr>"

definition ex_outcome :: outcome where
  "ex_outcome = \<lparr>o_state = ''recommended'', o_hypotheses = [], o_advisory_id = ''adv''\<rparr>"

definition ex_s0 :: coord where
  "ex_s0 = \<lparr>max_traces = 2, max_retained = 1, max_audit = 2, epoch = 0, next_cycle = 1, cycles = [], latest = [], current = [],
     audit = [], audit_seq = 0, audit_dropped = 0, unattributed = [], brokers = [], closed_brokers = []\<rparr>"

definition ex_s1 :: coord where "ex_s1 = snd (begin_cycle ex_sha (ex_frame ''a'') ex_s0)"
definition ex_s2 :: coord where "ex_s2 = snd (begin_cycle ex_sha (ex_frame ''b'') ex_s1)"

definition ex_ticket :: "string \<Rightarrow> nat \<Rightarrow> ticket" where
  "ex_ticket tr n = \<lparr>t_trace = tr, t_cycle = cycle_id_text tr 0 n, t_epoch = 0, t_frame = ''f'', t_digest = ''d'', deduplicated = False\<rparr>"

definition ex_s3 :: coord where "ex_s3 = snd (complete (Some (ex_ticket ''b'' 2)) (Some ex_outcome) ex_s2)"
definition ex_s4 :: coord where "ex_s4 = snd (complete (Some (ex_ticket ''a'' 1)) (Some ex_outcome) ex_s3)"

lemma ex_init: "initial (ex_s0, g)"
  by (rule initial.intros [of 2 1 2 0]) (simp add: init_coord_def ex_s0_def)

lemma ex_reach: "reach initial (step ex_sha) (ex_s0, g)" "reach initial (step ex_sha) (ex_s1, g)" "reach initial (step ex_sha) (ex_s2, g)"
proof -
  show r0: "reach initial (step ex_sha) (ex_s0, g)" using ex_init by (rule reach_init)
  show r1: "reach initial (step ex_sha) (ex_s1, g)" unfolding ex_s1_def using r0 step_begin by (rule reach_step)
  show "reach initial (step ex_sha) (ex_s2, g)" unfolding ex_s2_def using r1 step_begin by (rule reach_step)
qed

lemma cycle_id_neq: "n \<noteq> m \<Longrightarrow> cycle_id_text tr ep n \<noteq> cycle_id_text tr' ep' m"
  using cycle_id_seq by blast

lemma ex_digest: "material_frame_digest ex_sha f = ''d''"
  by (simp add: material_frame_digest_def ex_sha_def)

abbreviation ex_cycle :: "string \<Rightarrow> nat \<Rightarrow> cycle" where
  "ex_cycle tr n \<equiv> \<lparr>c_ticket = ex_ticket tr n, c_status = InFlight, c_outcome_state = [], c_advisory_id = [], c_discards = 0\<rparr>"

definition ex_done :: "string \<Rightarrow> nat \<Rightarrow> cycle" where
  "ex_done tr n = (ex_cycle tr n)\<lparr>c_status := Accepted, c_outcome_state := ''recommended'', c_advisory_id := ''adv''\<rparr>"

lemma ex_ticket_fields [simp]:
  "t_trace (ex_ticket tr n) = tr" "t_cycle (ex_ticket tr n) = cycle_id_text tr 0 n" "t_epoch (ex_ticket tr n) = 0"
  "t_frame (ex_ticket tr n) = ''f''" "t_digest (ex_ticket tr n) = ''d''"
  by (simp_all add: ex_ticket_def)

lemma ex_cycle_states:
  "is_in_flight (ex_cycle tr n)" "\<not> is_in_flight (ex_done tr n)" "c_ticket (ex_done tr n) = ex_ticket tr n"
  by (simp_all add: is_in_flight_def ex_done_def)

lemma ex_s0_fields:
  "cycles ex_s0 = []" "latest ex_s0 = []" "current ex_s0 = []" "epoch ex_s0 = 0" "next_cycle ex_s0 = 1" "max_traces ex_s0 = 2"
  "max_retained ex_s0 = 1"
  by (simp_all add: ex_s0_def)

lemma mint_ex: "epoch s = 0 \<Longrightarrow> mint ex_sha (ex_frame tr) s = ex_ticket tr (next_cycle s)"
  by (simp add: mint_def ex_ticket_def ex_frame_def ex_digest)

lemma ex_trace: "trace_id (ex_frame tr) = tr"
  by (simp add: ex_frame_def)

lemma begin_ex:
  assumes "epoch s = 0" "map_of (latest s) tr = None" "length (in_flight_ids s) < max_traces s" "finished_ids s = []"
    "cycle_id_text tr 0 (next_cycle s) \<notin> fst ` set (cycles s)" "tr \<notin> fst ` set (latest s)"
  defines "s' \<equiv> snd (begin_cycle ex_sha (ex_frame tr) s)"
  shows "fst (begin_cycle ex_sha (ex_frame tr) s) = Inr (ex_ticket tr (next_cycle s))"
    "cycles s' = cycles s @ [(cycle_id_text tr 0 (next_cycle s), ex_cycle tr (next_cycle s))]"
    "latest s' = latest s @ [(tr, cycle_id_text tr 0 (next_cycle s))]" "current s' = current s" "epoch s' = 0"
    "next_cycle s' = Suc (next_cycle s)" "max_traces s' = max_traces s" "max_retained s' = max_retained s"
proof -
  have lat: "latest_cycle s tr = None" using assms(2) by (simp add: latest_cycle_def)
  have b: "begin_cycle ex_sha (ex_frame tr) s =
      (Inr (ex_ticket tr (next_cycle s)), start_cycle (ex_ticket tr (next_cycle s)) (stepped s))"
    using assms(1,3) lat mint_ex [OF assms(1), of tr]
    by (simp add: begin_cycle_def Let_def ex_trace open_cycle_def displace_def)
  show "fst (begin_cycle ex_sha (ex_frame tr) s) = Inr (ex_ticket tr (next_cycle s))" by (simp add: b)
  have nf: "filter (\<lambda>kc. \<not> is_in_flight (snd kc)) (cycles s) = []" using assms(4) by (simp add: finished_ids_def)
  let ?o = "log_event ''cycle_started'' (Some (ex_cycle tr (next_cycle s))) [(''material_digest'', PStr ''d'')]
     (opened (ex_ticket tr (next_cycle s)) (stepped s))"
  have "finished_ids ?o = []"
    using assms(5) nf by (simp add: finished_ids_def opened_def update_new ex_cycle_states)
  then have s': "s' = ?o" using prune_none [of ?o] by (simp add: s'_def b start_cycle_opened)
  show "cycles s' = cycles s @ [(cycle_id_text tr 0 (next_cycle s), ex_cycle tr (next_cycle s))]"
    "latest s' = latest s @ [(tr, cycle_id_text tr 0 (next_cycle s))]" "current s' = current s" "epoch s' = 0"
    "next_cycle s' = Suc (next_cycle s)" "max_traces s' = max_traces s" "max_retained s' = max_retained s"
    using assms(1,5,6) by (simp_all add: s' opened_def update_new)
qed

lemma ex_s1_fields:
  "cycles ex_s1 = [(cycle_id_text ''a'' 0 1, ex_cycle ''a'' 1)]" "latest ex_s1 = [(''a'', cycle_id_text ''a'' 0 1)]" "current ex_s1 = []"
  "epoch ex_s1 = 0" "next_cycle ex_s1 = 2" "max_traces ex_s1 = 2" "max_retained ex_s1 = 1"
  unfolding ex_s1_def
  by (subst begin_ex; simp add: ex_s0_fields in_flight_ids_def finished_ids_def)+

lemma ex_s2_fields:
  "cycles ex_s2 = [(cycle_id_text ''a'' 0 1, ex_cycle ''a'' 1), (cycle_id_text ''b'' 0 2, ex_cycle ''b'' 2)]"
  "latest ex_s2 = [(''a'', cycle_id_text ''a'' 0 1), (''b'', cycle_id_text ''b'' 0 2)]" "current ex_s2 = []"
  "epoch ex_s2 = 0" "next_cycle ex_s2 = 3" "max_traces ex_s2 = 2" "max_retained ex_s2 = 1"
  unfolding ex_s2_def
  by (subst begin_ex; simp add: ex_s1_fields in_flight_ids_def finished_ids_def cycle_id_neq ex_cycle_states)+

lemma ex_accept:
  assumes "map_of (cycles s) (cycle_id_text tr 0 n) = Some (ex_cycle tr n)" "epoch s = 0"
  shows "complete (Some (ex_ticket tr n)) (Some ex_outcome) s =
    (\<lparr>accepted = True, cycle_status = cstatus_value Accepted, cr_reason = ''current'', cr_outcome = Some ex_outcome\<rparr>,
     prune (log_event ''result_accepted'' (Some (ex_done tr n))
       [(''outcome_state'', PStr ''recommended''), (''advisory_id'', PStr ''adv'')]
       (s\<lparr>cycles := AList.update (cycle_id_text tr 0 n) (ex_done tr n) (cycles s),
           current := AList.update tr (Some ex_outcome) (current s)\<rparr>)))"
  using assms
  by (simp add: complete_def stale_reason_def same_cycle_def accept_def Let_def put_cycle_def ex_done_def ex_outcome_def
      outcome_state_of_def advisory_of_def ID_LIMIT_def)

lemma ex_s3_fields:
  "cycles ex_s3 = [(cycle_id_text ''a'' 0 1, ex_cycle ''a'' 1), (cycle_id_text ''b'' 0 2, ex_done ''b'' 2)]"
  "latest ex_s3 = [(''a'', cycle_id_text ''a'' 0 1), (''b'', cycle_id_text ''b'' 0 2)]" "current ex_s3 = [(''b'', Some ex_outcome)]"
  "epoch ex_s3 = 0" "max_retained ex_s3 = 1"
proof -
  have "map_of (cycles ex_s2) (cycle_id_text ''b'' 0 2) = Some (ex_cycle ''b'' 2)" by (simp add: ex_s2_fields cycle_id_neq)
  note acc = ex_accept [OF this ex_s2_fields(4)]
  show "cycles ex_s3 = [(cycle_id_text ''a'' 0 1, ex_cycle ''a'' 1), (cycle_id_text ''b'' 0 2, ex_done ''b'' 2)]"
    "latest ex_s3 = [(''a'', cycle_id_text ''a'' 0 1), (''b'', cycle_id_text ''b'' 0 2)]" "current ex_s3 = [(''b'', Some ex_outcome)]"
    "epoch ex_s3 = 0" "max_retained ex_s3 = 1"
    by (simp_all add: ex_s3_def acc prune_def finished_ids_def ex_s2_fields ex_cycle_states cycle_id_neq)
qed

lemma ex_runs:
  "accepted (fst (complete (Some (ex_ticket ''b'' 2)) (Some ex_outcome) ex_s2))"
  "accepted (fst (complete (Some (ex_ticket ''a'' 1)) (Some ex_outcome) ex_s3))"
  "current_outcome ex_s4 ''a'' = None"
proof -
  have b: "map_of (cycles ex_s2) (cycle_id_text ''b'' 0 2) = Some (ex_cycle ''b'' 2)" by (simp add: ex_s2_fields cycle_id_neq)
  have a: "map_of (cycles ex_s3) (cycle_id_text ''a'' 0 1) = Some (ex_cycle ''a'' 1)" by (simp add: ex_s3_fields)
  show "accepted (fst (complete (Some (ex_ticket ''b'' 2)) (Some ex_outcome) ex_s2))" unfolding ex_accept [OF b ex_s2_fields(4)] by simp
  show "accepted (fst (complete (Some (ex_ticket ''a'' 1)) (Some ex_outcome) ex_s3))" unfolding ex_accept [OF a ex_s3_fields(4)] by simp
  show "current_outcome ex_s4 ''a'' = None"
    unfolding ex_s4_def ex_accept [OF a ex_s3_fields(4)]
    by (simp add: prune_def finished_ids_def ex_s3_fields ex_cycle_states evict_def Let_def current_outcome_def cycle_id_neq)
qed

lemma ex_reach3: "reach initial (step ex_sha) (ex_s3, g(''b'' := ''d''))"
proof -
  have "complete (Some (ex_ticket ''b'' 2)) (Some ex_outcome) ex_s2 =
      (fst (complete (Some (ex_ticket ''b'' 2)) (Some ex_outcome) ex_s2), ex_s3)" by (simp add: ex_s3_def)
  from step_accept [OF this ex_runs(1), of ex_sha g] ex_reach(3) [of g] show ?thesis by (auto intro: reach_step)
qed

section \<open>Properties\<close>

text \<open>In every reachable state, whatever tickets callers offer, at most \<open>max_traces\<close> cycles are in
  flight and never two for one trace, at most \<open>max_retained\<close> finished cycles and \<open>max_audit\<close> audit rows
  are kept.\<close>
theorem coordinator_memory_is_bounded:
  assumes "reach initial (step sha) (s, g)"
  shows "length (in_flight_ids s) \<le> max_traces s \<and> length (finished_ids s) \<le> max_retained s \<and> length (audit s) \<le> max_audit s
    \<and> (\<forall>k c k' c'. map_of (cycles s) k = Some c \<and> is_in_flight c \<and> map_of (cycles s) k' = Some c' \<and> is_in_flight c'
        \<and> t_trace (c_ticket c) = t_trace (c_ticket c') \<longrightarrow> k = k')"
proof -
  have inv: "coord_inv s" using coord_machine.reach_inv [OF assms] by simp
  have "length (in_flight_ids s) \<le> max_traces s"
    using inv inv_core by (simp add: length_in_flight core_distinct) (simp add: core_inv_def within_limits_def)
  moreover have "length (finished_ids s) \<le> max_retained s" using inv by (simp add: coord_inv_def)
  moreover have "k = k'" if "map_of (cycles s) k = Some c" "is_in_flight c" "map_of (cycles s) k' = Some c'" "is_in_flight c'"
    "t_trace (c_ticket c) = t_trace (c_ticket c')" for k k' c c'
    using in_flight_latest [OF inv_core [OF inv] that(1,2)] in_flight_latest [OF inv_core [OF inv] that(3,4)] that(5) by simp
  ultimately show ?thesis using core_audit [OF inv_core [OF inv]] by blast
qed

theorem coordinator_memory_is_bounded_witness:
  "length (in_flight_ids ex_s2) \<le> max_traces ex_s2 \<and> length (in_flight_ids ex_s2) = 2 \<and> length (audit ex_s2) \<le> max_audit ex_s2"
  using coordinator_memory_is_bounded [OF ex_reach(3)] by (simp add: ex_s2_fields in_flight_ids_def ex_cycle_states)

text \<open>C15. A completion is accepted exactly when its ticket is the one of the in-flight cycle of this epoch. A
  rejected one changes no advisory, no status and no latest cycle; a ticket that names no retained cycle exactly
  writes nothing into the audit either.\<close>
theorem completion_is_exact:
  "accepted (fst (complete tk oc s)) = is_current s tk
   \<and> (\<not> is_current s tk \<longrightarrow> current (snd (complete tk oc s)) = current s \<and> latest (snd (complete tk oc s)) = latest s
        \<and> (\<forall>k. map_option c_status (map_of (cycles (snd (complete tk oc s))) k) = map_option c_status (map_of (cycles s) k)))
   \<and> ((\<nexists>t c. tk = Some t \<and> map_of (cycles s) (t_cycle t) = Some c \<and> same_cycle t (c_ticket c)) \<longrightarrow>
        cycles (snd (complete tk oc s)) = cycles s \<and> audit (snd (complete tk oc s)) = audit s)"
proof (cases rule: complete_cases [where tk = tk and s = s and oc = oc])
  case (accept t c)
  then show ?thesis by (auto simp: is_current_def ticket_status_def is_in_flight_def)
next
  case (discard t c r)
  then show ?thesis
    using same_cycle_key [OF discard(3)] by (auto simp: is_current_def ticket_status_def is_in_flight_def map_of_update)
next
  case (forged r)
  then show ?thesis by (auto simp: is_current_def ticket_status_def split: option.splits)
qed

theorem completion_is_exact_witness:
  "\<not> is_current ex_s2 (Some (ex_ticket ''b'' 9)) \<and> current (snd (complete (Some (ex_ticket ''b'' 9)) None ex_s2)) = current ex_s2
   \<and> audit (snd (complete (Some (ex_ticket ''b'' 9)) None ex_s2)) = audit ex_s2"
proof -
  have none: "map_of (cycles ex_s2) (t_cycle (ex_ticket ''b'' 9)) = None" by (simp add: ex_s2_fields cycle_id_neq)
  then have "\<not> is_current ex_s2 (Some (ex_ticket ''b'' 9))" by (simp add: is_current_def ticket_status_def)
  with completion_is_exact [of "Some (ex_ticket ''b'' 9)" None ex_s2] none show ?thesis by simp
qed

text \<open>C19. Once a completion was accepted, no later call, and no restart, makes the coordinator accept the same
  ticket again.\<close>
theorem accepted_at_most_once:
  assumes "reach initial (step sha) (s, g)" and "complete (Some t) oc s = (r, s')" and "accepted r"
    and "reach (\<lambda>m. m = (s', g')) (step sha) (s2, g2)"
  shows "\<not> accepted (fst (complete (Some t) oc2 s2))"
proof -
  have inv: "coord_inv s" using coord_machine.reach_inv [OF assms(1)] by simp
  from complete_accepted [OF assms(2,3)] obtain c where c: "map_of (cycles s) (t_cycle (c_ticket c)) = Some c"
    "same_cycle t (c_ticket c)" "s' = accept c oc s" by (metis option.inject)
  have key: "t_cycle (c_ticket c) = t_cycle t" using same_cycle_key [OF c(2)] .
  have "ended (t_cycle t) s'"
    using inv c in_flight_accept [of c oc s] key core_parts(2) [OF inv_core [OF inv]] unfolding linked_def minted_def ended_def by fastforce
  with ended_forever [of "(s', g')" "t_cycle t" sha "(s2, g2)"] assms(4) inv_completeD [OF assms(2) inv]
  have "t_cycle t \<notin> in_flight_set (map_of (cycles s2))" by (simp add: ended_def)
  then show ?thesis
    by (cases rule: complete_cases [where tk = "Some t" and s = s2 and oc = oc2]) (auto simp: in_flight_set_def)
qed

theorem accepted_at_most_once_witness:
  "\<not> accepted (fst (complete (Some (ex_ticket ''b'' 2)) None ex_s3))"
proof -
  have "complete (Some (ex_ticket ''b'' 2)) (Some ex_outcome) ex_s2 =
      (fst (complete (Some (ex_ticket ''b'' 2)) (Some ex_outcome) ex_s2), ex_s3)" by (simp add: ex_s3_def)
  from accepted_at_most_once [OF ex_reach(3) this ex_runs(1) reach_init] show ?thesis by blast
qed

text \<open>C24. The advisory served for a trace was always accepted from a cycle of the same material digest as the
  trace's newest cycle: an advisory for an older material situation is never served.\<close>
theorem advisory_is_never_stale:
  assumes "reach initial (step sha) (s, g)" and "current_outcome s tr \<noteq> None"
  shows "\<exists>c. latest_cycle s tr = Some c \<and> t_digest (c_ticket c) = g tr"
proof -
  have "map_of (current s) tr \<noteq> None" using assms(2) by (auto simp: current_outcome_def split: option.splits)
  with fresh_machine.reach_inv [OF assms(1)] have "latest_digest s tr = Some (g tr)" by (simp add: fresh_def)
  then show ?thesis by (auto simp: latest_digest_def)
qed

theorem advisory_is_never_stale_witness:
  "current_outcome ex_s3 ''b'' = Some ex_outcome \<and> (\<exists>c. latest_cycle ex_s3 ''b'' = Some c \<and> t_digest (c_ticket c) = ''d'')"
proof -
  have cur: "current_outcome ex_s3 ''b'' = Some ex_outcome" by (simp add: current_outcome_def ex_s3_fields)
  with advisory_is_never_stale [OF ex_reach3 [of "\<lambda>_. []"], of "''b''"] show ?thesis by simp
qed

text \<open>\<open>begin\<close> either returns a ticket that is current at once, so that completing it right away is accepted,
  or raises the backpressure error, exactly when the trace has no cycle in flight and \<open>max_traces\<close> others do, and
  then changes nothing but the audit.\<close>
theorem begin_returns_a_current_ticket:
  assumes "reach initial (step sha) (s, g)"
  shows "case begin_cycle sha f s of
      (Inr tk, s') \<Rightarrow> is_current s' (Some tk) \<and> accepted (fst (complete (Some tk) oc s'))
    | (Inl e, s') \<Rightarrow> e = RuntimeError ''reasoning_coordinator_backpressure'' \<and> length (in_flight_ids s) = max_traces s
        \<and> (\<forall>k c. map_of (cycles s) k = Some c \<and> is_in_flight c \<longrightarrow> t_trace (c_ticket c) \<noteq> trace_id f)
        \<and> cycles s' = cycles s \<and> latest s' = latest s \<and> current s' = current s \<and> next_cycle s' = next_cycle s"
proof -
  have inv: "coord_inv s" using coord_machine.reach_inv [OF assms] by simp
  note core = inv_core [OF inv]
  have acc: "is_current s' (Some tk) \<Longrightarrow> accepted (fst (complete (Some tk) oc s'))" for s' tk
    by (cases rule: complete_cases [where tk = "Some tk" and s = s' and oc = oc])
       (auto simp: is_current_def ticket_status_def is_in_flight_def split: option.splits if_splits)
  show ?thesis
  proof (cases sha f s rule: begin_cases)
    case (reuse c)
    have "is_current s (Some ((c_ticket c)\<lparr>deduplicated := True\<rparr>))"
      using reuse(1) latest_cycle_own(1) [OF core_parts(2) [OF core], of "trace_id f" c]
        in_flight_latest [OF core, of "t_cycle (c_ticket c)" c]
      by (auto simp: begin_reuses_def is_current_def ticket_status_def same_cycle_def is_in_flight_def)
    then have "is_current (snd (begin_cycle sha f s)) (Some ((c_ticket c)\<lparr>deduplicated := True\<rparr>))"
      using reuse(2) by simp
    with reuse(2) acc show ?thesis by simp
  next
    case refuse
    have "length (in_flight_ids s) \<le> max_traces s"
      using core by (simp add: length_in_flight core_distinct) (simp add: core_inv_def within_limits_def)
    moreover have "t_trace (c_ticket c) \<noteq> trace_id f" if "map_of (cycles s) k = Some c" "is_in_flight c" for k c
      using latest_in_flight [OF core_parts(2) [OF core] that] that(2) refuse(1) by (auto simp: begin_refused_def open_cycle_def)
    ultimately show ?thesis using refuse by (auto simp: begin_refused_def)
  next
    case start
    let ?tk = "mint sha f s"
    let ?s = "displace (latest_cycle s (trace_id f)) ?tk (stepped s)"
    let ?c = "\<lparr>c_ticket = ?tk, c_status = InFlight, c_outcome_state = [], c_advisory_id = [], c_discards = 0\<rparr>"
    have "map_of (cycles (opened ?tk ?s)) (t_cycle ?tk) = Some ?c" by (simp add: opened_def map_of_update)
    then have "map_of (cycles (snd (begin_cycle sha f s))) (t_cycle ?tk) = Some ?c"
      using prune_keeps_in_flight [OF core_log [OF begin_opened [OF core start(2)]]] start(3)
      by (simp add: start_cycle_opened is_in_flight_def)
    moreover have "epoch (snd (begin_cycle sha f s)) = t_epoch ?tk"
      using start(3) by (simp add: start_cycle_opened opened_def) (simp add: mint_def)
    ultimately have "is_current (snd (begin_cycle sha f s)) (Some ?tk)"
      by (simp add: is_current_def ticket_status_def same_cycle_def)
    with start(3) acc show ?thesis by simp
  qed
qed

theorem begin_returns_a_current_ticket_witness:
  "is_current ex_s2 (Some (ex_ticket ''b'' 2)) \<and> fst (begin_cycle ex_sha (ex_frame ''b'') ex_s1) = Inr (ex_ticket ''b'' 2)"
proof -
  have "fst (begin_cycle ex_sha (ex_frame ''b'') ex_s1) = Inr (ex_ticket ''b'' 2)"
    by (subst begin_ex; simp add: ex_s1_fields in_flight_ids_def finished_ids_def cycle_id_neq ex_cycle_states)
  then show ?thesis
    using begin_returns_a_current_ticket [OF ex_reach(2), where f = "ex_frame ''b''" and oc = None]
    by (auto simp: ex_s2_def split: prod.splits)
qed

text \<open>A coordinator restarts from its own snapshot, whatever the new limits: the epoch advances, no advisory is
  served, nothing is in flight, and no ticket of an earlier epoch is ever accepted.\<close>
theorem restart_keeps_no_authority:
  assumes "reach initial (step sha) (s, g)" and "\<forall>kc \<in> set (cycles s). short_cycle (snd kc)"
  shows "\<exists>s'. restore a b d (Some (snapshot s)) = Inr s' \<and> epoch s' = epoch s + 1 \<and> current s' = [] \<and> in_flight_ids s' = []
    \<and> next_cycle s' = next_cycle s \<and> (\<forall>t oc. t_epoch t \<le> epoch s \<longrightarrow> \<not> accepted (fst (complete (Some t) oc s')))"
proof -
  have inv: "coord_inv s" and rows: "rows_ok s"
    using coord_machine.reach_inv [OF assms(1)] rows_machine.reach_inv [OF assms(1)] by simp_all
  obtain s' where s': "restore a b d (Some (snapshot s)) = Inr s'" using restore_own [OF inv rows assms(2)] by blast
  have "distinct (map fst (cycles s'))" using inv_restart [OF inv s'] inv_core core_distinct by blast
  then have "in_flight_ids s' = []" using set_in_flight_ids restart_facts(1) [OF inv s'] by (metis set_empty)
  moreover have "\<not> accepted (fst (complete (Some t) oc s'))" if "t_epoch t \<le> epoch s" for t oc
    using that restart_facts(3) [OF inv s']
    by (cases rule: complete_cases [where tk = "Some t" and s = s' and oc = oc]) auto
  ultimately show ?thesis using s' restart_facts [OF inv s'] fresh_restart(1) [OF inv s'] by blast
qed

theorem restart_keeps_no_authority_witness:
  "\<exists>s'. restore 2 1 2 (Some (snapshot ex_s2)) = Inr s' \<and> epoch s' = 1 \<and> in_flight_ids s' = [] \<and> length (in_flight_ids ex_s2) = 2"
proof -
  have "\<forall>kc \<in> set (cycles ex_s2). short_cycle (snd kc)"
    by (simp add: ex_s2_fields short_cycle_def ID_LIMIT_def cycle_id_text_def int_str_def nat_str.simps)
  from restart_keeps_no_authority [OF ex_reach(3) this, of 2 1 2] show ?thesis
    by (auto simp: ex_s2_fields in_flight_ids_def ex_cycle_states)
qed

text \<open>An accepted outcome is the one \<open>current\<close> serves from then on, provided fewer than \<open>max_retained\<close> finished
  cycles were retained when it was accepted.\<close>
theorem accepted_outcome_is_served:
  assumes "reach initial (step sha) (s, g)" and "complete (Some t) oc s = (r, s')" and "accepted r"
    and "length (finished_ids s) < max_retained s"
  shows "current_outcome s' (t_trace t) = oc"
proof -
  have inv: "coord_inv s" using coord_machine.reach_inv [OF assms(1)] by simp
  from complete_accepted [OF assms(2,3)] obtain c where c: "map_of (cycles s) (t_cycle (c_ticket c)) = Some c"
    "same_cycle t (c_ticket c)" "is_in_flight c" "s' = accept c oc s" by (metis option.inject)
  let ?c = "c\<lparr>c_status := Accepted, c_outcome_state := take 64 (outcome_state_of oc), c_advisory_id := take ID_LIMIT (advisory_of oc)\<rparr>"
  define s1 where "s1 = log_event ''result_accepted'' (Some ?c)
     [(''outcome_state'', PStr (outcome_state_of oc)), (''advisory_id'', PStr (advisory_of oc))]
     ((put_cycle ?c s)\<lparr>current := AList.update (t_trace (c_ticket c)) oc (current s)\<rparr>)"
  have "length (finished_ids s1) = Suc (length (finished_ids s))"
    by (rule accept_finished [OF inv c(1,3), of ?c]) (simp_all add: s1_def is_in_flight_def)
  with assms(4) have "prune s1 = s1" by (intro prune_none) (simp add: s1_def)
  then have "s' = s1" using c(4) by (simp add: accept_def Let_def s1_def)
  with c(2) show ?thesis by (simp add: s1_def current_outcome_def map_of_update same_cycle_def)
qed

theorem accepted_outcome_is_served_witness:
  "length (finished_ids ex_s2) = 0 \<and> current_outcome ex_s3 ''b'' = Some ex_outcome"
proof -
  have "complete (Some (ex_ticket ''b'' 2)) (Some ex_outcome) ex_s2 =
      (fst (complete (Some (ex_ticket ''b'' 2)) (Some ex_outcome) ex_s2), ex_s3)" by (simp add: ex_s3_def)
  from accepted_outcome_is_served [OF ex_reach(3) this ex_runs(1)] show ?thesis
    by (simp add: ex_s2_fields finished_ids_def ex_cycle_states)
qed

text \<open>Without that room an accepted outcome may never be served: pruning goes by the order in which cycles
  began, so accepting the oldest cycle can evict it, and its advisory, within the same call. The run \<open>ex_s3\<close> shows
  it: the completion is accepted with reason \<open>current\<close> and \<open>current\<close> returns nothing.\<close>
theorem accepted_outcome_evicted_at_once:
  "reach initial (step ex_sha) (ex_s3, (\<lambda>_. [])(''b'' := ''d''))
   \<and> accepted (fst (complete (Some (ex_ticket ''a'' 1)) (Some ex_outcome) ex_s3))
   \<and> current_outcome (snd (complete (Some (ex_ticket ''a'' 1)) (Some ex_outcome) ex_s3)) ''a'' = None"
  using ex_reach3 ex_runs(2,3) by (simp add: ex_s4_def)

text \<open>Two frames have the same material payload, hence the same digest, exactly when they agree on everything
  but identity, clock, freshness and provenance, on the unordered lists up to order and on the actors up to their
  moving counters.\<close>
theorem material_identity:
  "material_payload f = material_payload f' \<longleftrightarrow>
     schema_version f = schema_version f' \<and> trace_id f = trace_id f' \<and> mission f = mission f'
     \<and> current_defensive_state f = current_defensive_state f' \<and> threat_level f = threat_level f'
     \<and> noc_summary f = noc_summary f' \<and> soc_summary f = soc_summary f'
     \<and> sort (known_facts f) = sort (known_facts f') \<and> sort (unknowns f) = sort (unknowns f')
     \<and> sort (contradictions f) = sort (contradictions f') \<and> sort (frame_evidence_refs f) = sort (frame_evidence_refs f')
     \<and> sort (knowledge_refs f) = sort (knowledge_refs f')
     \<and> knowledge_status f = knowledge_status f' \<and> deception_status f = deception_status f' \<and> truncated f = truncated f'
     \<and> map (filter (\<lambda>kv. fst kv \<notin> set NON_MATERIAL_ACTOR_FIELDS)) (actors f)
       = map (filter (\<lambda>kv. fst kv \<notin> set NON_MATERIAL_ACTOR_FIELDS)) (actors f')
     \<and> actions f = actions f' \<and> deception_context f = deception_context f'"
proof -
  have inj: "map PStr xs = map PStr ys \<longleftrightarrow> xs = ys" "map PDict ds = map PDict es \<longleftrightarrow> ds = es" for xs ys ds es
    by (simp_all add: inj_map_eq_map inj_def)
  have comp: "map (\<lambda>a. PDict (filter P a)) xs = map (\<lambda>a. PDict (filter P a)) ys \<longleftrightarrow> map (filter P) xs = map (filter P) ys" for P xs ys
    using inj(2) [of "map (filter P) xs" "map (filter P) ys"] by (simp add: o_def)
  have payload: "material_payload u =
     [(''schema_version'', PStr (schema_version u)), (''trace_id'', PStr (trace_id u)), (''mission'', PStr (mission u)),
      (''current_defensive_state'', PStr (current_defensive_state u)), (''threat_level'', PStr (threat_level u)),
      (''noc_summary'', PStr (noc_summary u)), (''soc_summary'', PStr (soc_summary u)),
      (''known_facts'', str_list (sort (known_facts u))), (''unknowns'', str_list (sort (unknowns u))),
      (''contradictions'', str_list (sort (contradictions u))), (''evidence_refs'', str_list (sort (frame_evidence_refs u))),
      (''knowledge_refs'', str_list (sort (knowledge_refs u))), (''knowledge_status'', PStr (knowledge_status u)),
      (''deception_status'', PStr (deception_status u)), (''truncated'', PBool (truncated u)),
      (''actors'', PList (map (\<lambda>a. PDict (filter (\<lambda>kv. fst kv \<notin> set NON_MATERIAL_ACTOR_FIELDS) a)) (actors u))),
      (''actions'', PList (map PDict (actions u))), (''deception_context'', deception_context u)]" for u
    by (simp add: material_payload_def frame_to_dict_def NON_MATERIAL_FRAME_FIELDS_def UNORDERED_FRAME_LISTS_def on_key_def
        dget_Cons str_list_def o_def)
  show ?thesis unfolding payload by (auto simp: str_list_def inj comp)
qed

end
