(* ===== verification/Json.thy ===== *)
theory Json
  imports Prelude
begin

text \<open>
  The JSON text of a value determines the value up to its number tokens: \<open>json_text\<close> is injective on
  the tree of keys, strings and tokens. The audit chain and the material digest hash this text, so what
  a hash pins down is stated with \<open>jtree_of\<close>.
\<close>

section \<open>Trees of tokens\<close>

datatype jtree = JAtom string | JStr string | JList "jtree list" | JObj "(string \<times> jtree) list"

fun jtree_of :: "pyval \<Rightarrow> jtree" where
  "jtree_of (PStr s) = JStr s"
| "jtree_of (PList xs) = JList (map jtree_of xs)"
| "jtree_of (PDict d) = JObj (map (\<lambda>kv. (fst kv, jtree_of (snd kv))) d)"
| "jtree_of v = JAtom (json_text v)"

text \<open>A token is not empty and holds no character that delimits or opens a value.\<close>

definition is_delim :: "char \<Rightarrow> bool" where
  "is_delim c \<longleftrightarrow> c \<in> {CHR '','', CHR '']'', CHR ''}''}"

definition token_char :: "char \<Rightarrow> bool" where
  "token_char c \<longleftrightarrow> \<not> is_delim c \<and> c \<notin> {CHR 0x22, CHR ''['', CHR ''{''}"

definition token :: "string \<Rightarrow> bool" where
  "token s \<longleftrightarrow> s \<noteq> [] \<and> list_all token_char s"

text \<open>Every value of Python's \<open>json\<close> has number texts that are tokens; the model carries them as given.\<close>

fun wf_json :: "pyval \<Rightarrow> bool" where
  "wf_json (PFloat f) = token (json_float f)"
| "wf_json (PList xs) = list_all wf_json xs"
| "wf_json (PDict d) = list_all (\<lambda>kv. wf_json (snd kv)) d"
| "wf_json v = True"

section \<open>Strings\<close>

lemma hex_char_inj: "m < 16 \<Longrightarrow> n < 16 \<Longrightarrow> hex_char m = hex_char n \<longleftrightarrow> m = n"
proof -
  assume *: "m < 16" "n < 16"
  have "of_char (hex_char k) = (if k < 10 then 48 + k else 87 + k)" if "k < 16" for k :: nat
    using that by (simp add: hex_char_def)
  with * show ?thesis by (auto split: if_splits dest: arg_cong [where f = "of_char :: char \<Rightarrow> nat"])
qed

lemma of_char_inj: "(of_char c :: nat) = of_char d \<Longrightarrow> c = d"
  by (metis char_of_char)

lemma of_char_same: "of_char c = (n :: nat) \<Longrightarrow> of_char d = n \<Longrightarrow> c = d"
  by (rule of_char_inj) (simp only:)

lemma hex_pair: "(m :: nat) < 256 \<Longrightarrow> n < 256 \<Longrightarrow> hex_char (m div 16) = hex_char (n div 16) \<Longrightarrow>
    hex_char (m mod 16) = hex_char (n mod 16) \<Longrightarrow> m = n"
proof -
  assume *: "m < 256" "n < 256" "hex_char (m div 16) = hex_char (n div 16)" "hex_char (m mod 16) = hex_char (n mod 16)"
  then have "m div 16 = n div 16" "m mod 16 = n mod 16" by (simp_all add: hex_char_inj)
  then show "m = n" by (metis div_mult_mod_eq)
qed

definition escape :: "char \<Rightarrow> char option" where
  "escape c = map_of [(34 :: nat, CHR 0x22), (92, CHR 0x5C), (8, CHR ''b''), (9, CHR ''t''), (10, CHR ''n''), (12, CHR ''f''), (13, CHR ''r'')]
     (of_char c)"

lemma json_char_escape:
  "json_char c = (case escape c of
      Some x \<Rightarrow> [CHR 0x5C, x]
    | None \<Rightarrow> if of_char c < (32 :: nat) \<or> 127 \<le> (of_char c :: nat)
        then [CHR 0x5C, CHR ''u'', CHR ''0'', CHR ''0'', hex_char (of_char c div 16), hex_char (of_char c mod 16)]
        else [c])"
proof -
  have "c = CHR 0x22" if "of_char c = (34 :: nat)" using that by (intro of_char_inj) simp
  moreover have "c = CHR 0x5C" if "of_char c = (92 :: nat)" using that by (intro of_char_inj) simp
  ultimately show ?thesis by (auto simp: json_char_def escape_def Let_def)
qed

lemma escape_inj: "escape c = Some x \<Longrightarrow> escape d = Some x \<Longrightarrow> c = d"
  unfolding escape_def by (auto split: if_splits intro: of_char_same)

lemma escape_not_u: "escape c \<noteq> Some CHR ''u''"
  by (simp add: escape_def)

lemma escape_None: "escape c = None \<Longrightarrow> c \<noteq> CHR 0x5C \<and> c \<noteq> CHR 0x22"
  by (auto simp: escape_def split: if_splits)

lemma json_char_prefix:
  assumes "json_char c @ x = json_char d @ y"
  shows "c = d \<and> x = y"
proof (cases "escape c")
  case (Some p)
  then obtain q where "escape d = Some q"
    using assms escape_None [of d] escape_not_u [of c] by (cases "escape d") (auto simp: json_char_escape split: if_splits)
  with Some assms escape_inj show ?thesis by (auto simp: json_char_escape)
next
  case None
  then have "escape d = None"
    using assms escape_None [of c] escape_not_u [of d] by (cases "escape d") (auto simp: json_char_escape split: if_splits)
  have hex: "c = d" if "hex_char (of_char c div 16) = hex_char (of_char d div 16)" "hex_char (of_char c mod 16) = hex_char (of_char d mod 16)"
    using hex_pair [OF _ _ that] of_char_inj by simp
  show ?thesis
    using None \<open>escape d = None\<close> assms escape_None [of c] escape_None [of d] hex by (simp add: json_char_escape split: if_splits)
qed

lemma json_char_start: "json_char c @ x \<noteq> CHR 0x22 # y"
  using escape_None [of c] by (auto simp: json_char_escape split: option.splits if_splits)

lemma json_str_body: "concat (map json_char s) @ CHR 0x22 # x = concat (map json_char s') @ CHR 0x22 # y \<Longrightarrow> s = s' \<and> x = y"
proof (induction s arbitrary: s')
  case Nil
  then show ?case using json_char_start by (cases s') (auto, metis)
next
  case (Cons c s)
  show ?case
  proof (cases s')
    case Nil
    with Cons.prems json_char_start [of c "concat (map json_char s) @ CHR 0x22 # x" y] show ?thesis by simp
  next
    case (Cons d t)
    have "c = d \<and> concat (map json_char s) @ CHR 0x22 # x = concat (map json_char t) @ CHR 0x22 # y"
      using Cons.prems Cons by (intro json_char_prefix) simp
    with Cons.IH [of t] Cons show ?thesis by simp
  qed
qed

lemma json_str_prefix: "json_str s @ x = json_str s' @ y \<Longrightarrow> s = s' \<and> x = y"
proof -
  assume "json_str s @ x = json_str s' @ y"
  then have "concat (map json_char s) @ CHR 0x22 # x = concat (map json_char s') @ CHR 0x22 # y" by (simp add: json_str_def)
  then show ?thesis by (rule json_str_body)
qed

section \<open>Values\<close>

definition closes :: "string \<Rightarrow> bool" where
  "closes r \<longleftrightarrow> r = [] \<or> is_delim (hd r)"

lemma token_prefix:
  assumes "token s" "token s'" "closes x" "closes y" "s @ x = s' @ y"
  shows "s = s' \<and> x = y"
proof -
  have "takeWhile token_char (s @ x) = s" if "token s" "closes x" for s x
    using that by (cases x) (auto simp: token_def closes_def list_all_iff token_char_def takeWhile_append)
  with assms show ?thesis by (metis append_same_eq append_eq_append_conv)
qed

fun is_atom :: "pyval \<Rightarrow> bool" where
  "is_atom (PStr s) = False"
| "is_atom (PList xs) = False"
| "is_atom (PDict d) = False"
| "is_atom v = True"

lemma digit_token: "is_digit c \<Longrightarrow> token_char c"
  by (auto simp: is_digit_def token_char_def is_delim_def Let_def)

lemma int_str_token: "token (int_str i)"
  using nat_str_digits digit_token nat_str_nonempty
  by (auto simp: int_str_def token_def list_all_iff token_char_def is_delim_def)

lemma atom_token: "wf_json v \<Longrightarrow> is_atom v \<Longrightarrow> token (json_text v)"
  by (cases v) (auto simp: int_str_token, auto simp: token_def token_char_def is_delim_def)

lemma atom_tree: "is_atom v \<Longrightarrow> jtree_of v = JAtom (json_text v)"
  by (cases v) auto

lemma join_Cons: "join sep (x # xs) = x @ (if xs = [] then [] else sep @ join sep xs)"
  by (cases xs) simp_all

lemma join_prefix:
  assumes el: "\<And>x y r r'. x \<in> set xs \<Longrightarrow> y \<in> set ys \<Longrightarrow> closes r \<Longrightarrow> closes r' \<Longrightarrow> f x @ r = f y @ r' \<Longrightarrow> g x = g y \<and> r = r'"
    and start: "\<And>x. x \<in> set xs \<union> set ys \<Longrightarrow> f x \<noteq> [] \<and> \<not> is_delim (hd (f x))"
    and z: "is_delim z" "z \<noteq> CHR '',''"
    and eq: "join '','' (map f xs) @ z # r = join '','' (map f ys) @ z # r'"
  shows "map g xs = map g ys \<and> r = r'"
  using el start eq
proof (induction xs arbitrary: ys)
  case Nil
  show ?case
  proof (cases ys)
    case (Cons y ys')
    with Nil.prems(2) [of y] z Nil.prems(3) show ?thesis by (cases "f y") (auto simp: join_Cons)
  qed (use Nil in simp)
next
  case (Cons x xs)
  note prems = Cons.prems and IH = Cons.IH
  show ?case
  proof (cases ys)
    case Nil
    with prems(2) [of x] z prems(3) show ?thesis by (cases "f x") (auto simp: join_Cons)
  next
    case (Cons y ys')
    let ?t = "\<lambda>us r. (if us = [] then [] else CHR '','' # join '','' (map f us)) @ z # r"
    have cl: "closes (?t us r)" for us r using z by (simp add: closes_def is_delim_def)
    have eqt: "f x @ ?t xs r = f y @ ?t ys' r'" using prems(3) Cons by (auto simp: join_Cons split: if_splits)
    have "g x = g y \<and> ?t xs r = ?t ys' r'" by (rule prems(1) [OF _ _ cl cl eqt]) (simp_all add: Cons)
    then have gx: "g x = g y" and tails: "?t xs r = ?t ys' r'" by blast+
    have same: "xs = [] \<longleftrightarrow> ys' = []" using tails z by (auto split: if_splits)
    have "map g xs = map g ys' \<and> r = r'"
    proof (rule IH)
      show "join '','' (map f xs) @ z # r = join '','' (map f ys') @ z # r'" using tails same by (auto split: if_splits)
      show "g a = g b \<and> u = u'" if "a \<in> set xs" "b \<in> set ys'" "closes u" "closes u'" "f a @ u = f b @ u'" for a b u u'
        by (rule prems(1) [OF _ _ that(3-5)]) (use that Cons in simp_all)
      show "f a \<noteq> [] \<and> \<not> is_delim (hd (f a))" if "a \<in> set xs \<union> set ys'" for a
        using prems(2) that Cons by simp
    qed
    with gx Cons show ?thesis by simp
  qed
qed

lemma json_text_start: "wf_json v \<Longrightarrow> json_text v \<noteq> [] \<and> \<not> is_delim (hd (json_text v))"
proof (cases "is_atom v")
  case True
  assume "wf_json v"
  from atom_token [OF this True] show ?thesis by (cases "json_text v") (auto simp: token_def token_char_def)
next
  case False
  then show ?thesis by (cases v) (auto simp: json_str_def is_delim_def)
qed

lemma opening_char:
  "json_text (PStr s) = CHR 0x22 # concat (map json_char s) @ [CHR 0x22]"
  "json_text (PList xs) = CHR ''['' # join '','' (map json_text xs) @ '']''"
  "json_text (PDict d) = CHR ''{'' # join '','' (map (\<lambda>kv. json_str (fst kv) @ '':'' @ json_text (snd kv)) d) @ ''}''"
  by (simp_all add: json_str_def)

lemma atom_opening: "wf_json v \<Longrightarrow> is_atom v \<Longrightarrow> \<exists>c r. json_text v = c # r \<and> token_char c"
  using atom_token [of v] by (cases "json_text v") (auto simp: token_def)

lemma same_shape:
  assumes "wf_json v" "wf_json v'" "json_text v @ x = json_text v' @ y"
  shows "is_atom v \<and> is_atom v' \<or> (\<exists>s s'. v = PStr s \<and> v' = PStr s') \<or> (\<exists>xs ys. v = PList xs \<and> v' = PList ys)
    \<or> (\<exists>d d'. v = PDict d \<and> v' = PDict d')"
proof (cases "is_atom v")
  case True
  with atom_opening [OF assms(1)] obtain c r where "json_text v = c # r" "token_char c" by blast
  with True assms(3) show ?thesis by (cases v') (auto simp: json_str_def token_char_def)
next
  case False
  show ?thesis
  proof (cases "is_atom v'")
    case True
    with atom_opening [OF assms(2)] obtain c r where "json_text v' = c # r" "token_char c" by blast
    with False assms(3) show ?thesis by (cases v) (auto simp: json_str_def token_char_def)
  next
    case nf: False
    with False assms(3) show ?thesis by (cases v; cases v') (auto simp: json_str_def)
  qed
qed

text \<open>The text of a value, up to the character that ends it, determines its tree.\<close>

theorem json_text_prefix:
  "wf_json v \<Longrightarrow> wf_json v' \<Longrightarrow> closes x \<Longrightarrow> closes y \<Longrightarrow> json_text v @ x = json_text v' @ y \<Longrightarrow> jtree_of v = jtree_of v' \<and> x = y"
proof (induction v arbitrary: v' x y)
  case (PList xs)
  from same_shape [OF PList.prems(1,2,5)] obtain ys where v': "v' = PList ys" by auto
  have "map jtree_of xs = map jtree_of ys \<and> x = y"
  proof (rule join_prefix [where f = json_text and z = "CHR '']''"])
    show "jtree_of a = jtree_of b \<and> r = r'" if "a \<in> set xs" "b \<in> set ys" "closes r" "closes r'" "json_text a @ r = json_text b @ r'" for a b r r'
      using PList.IH [OF that(1) _ _ that(3-5)] PList.prems(1,2) that v' by (simp add: list_all_iff)
    show "json_text a \<noteq> [] \<and> \<not> is_delim (hd (json_text a))" if "a \<in> set xs \<union> set ys" for a
      using json_text_start PList.prems(1,2) that v' by (auto simp: list_all_iff)
    show "join '','' (map json_text xs) @ CHR '']'' # x = join '','' (map json_text ys) @ CHR '']'' # y"
      using PList.prems(5) v' by simp
  qed (simp_all add: is_delim_def)
  with v' show ?case by simp
next
  case (PDict d)
  from same_shape [OF PDict.prems(1,2,5)] obtain d' where v': "v' = PDict d'" by auto
  let ?f = "\<lambda>kv :: string \<times> pyval. json_str (fst kv) @ '':'' @ json_text (snd kv)"
  have "map (\<lambda>kv. (fst kv, jtree_of (snd kv))) d = map (\<lambda>kv. (fst kv, jtree_of (snd kv))) d' \<and> x = y"
  proof (rule join_prefix [where f = ?f and z = "CHR ''}''"])
    show "(fst a, jtree_of (snd a)) = (fst b, jtree_of (snd b)) \<and> r = r'"
      if ab: "a \<in> set d" "b \<in> set d'" "closes r" "closes r'" "?f a @ r = ?f b @ r'" for a b r r'
    proof -
      have "fst a = fst b \<and> '':'' @ json_text (snd a) @ r = '':'' @ json_text (snd b) @ r'"
        by (rule json_str_prefix) (use ab(5) in simp)
      then have "fst a = fst b" "json_text (snd a) @ r = json_text (snd b) @ r'" by simp_all
      moreover have "snd a \<in> Basic_BNFs.snds a" by (cases a) simp
      ultimately show ?thesis
        using PDict.IH [OF ab(1), of "snd a" "snd b" r r'] PDict.prems(1,2) ab v' by (auto simp: list_all_iff)
    qed
    show "?f a \<noteq> [] \<and> \<not> is_delim (hd (?f a))" for a by (simp add: json_str_def is_delim_def)
    show "join '','' (map ?f d) @ CHR ''}'' # x = join '','' (map ?f d') @ CHR ''}'' # y"
      using PDict.prems(5) v' by simp
  qed (simp_all add: is_delim_def)
  with v' show ?case by simp
next
  case (PStr s)
  from same_shape [OF PStr.prems(1,2,5)] obtain s' where v': "v' = PStr s'" by auto
  with PStr.prems(5) json_str_prefix [of s x s' y] show ?case by simp
qed (use same_shape token_prefix atom_token in \<open>metis atom_tree is_atom.simps pyval.distinct\<close>)+

section \<open>Canonical text\<close>

lemma wf_sort [simp]: "wf_json (sort_keys v) = wf_json v"
  by (induction v rule: sort_keys.induct) (auto simp: list_all_iff)

lemma json_dumps_tree:
  "wf_json v \<Longrightarrow> wf_json v' \<Longrightarrow> json_dumps v = json_dumps v' \<Longrightarrow> jtree_of (sort_keys v) = jtree_of (sort_keys v')"
  using json_text_prefix [of "sort_keys v" "sort_keys v'" "[]" "[]"] by (simp add: json_dumps_def closes_def)

lemma jtree_map_of: "map_of (map (\<lambda>kv. (fst kv, jtree_of (sort_keys (snd kv)))) d) k = map_option (\<lambda>v. jtree_of (sort_keys v)) (map_of d k)"
  using map_of_map_snd [where f = "\<lambda>v. jtree_of (sort_keys v)"] .

lemma tree_lookup:
  assumes "jtree_of (sort_keys (PDict d)) = jtree_of (sort_keys (PDict d'))" "distinct (map fst d)" "distinct (map fst d')"
  shows "map_option (\<lambda>v. jtree_of (sort_keys v)) (map_of d k) = map_option (\<lambda>v. jtree_of (sort_keys v)) (map_of d' k)"
proof -
  let ?s = "\<lambda>d. sort_key fst (map (\<lambda>kv. (fst kv, sort_keys (snd kv))) d)"
  have eq: "map (\<lambda>kv. (fst kv, jtree_of (snd kv))) (?s d) = map (\<lambda>kv. (fst kv, jtree_of (snd kv))) (?s d')"
    using assms(1) by simp
  have look: "map_of (map (\<lambda>kv. (fst kv, jtree_of (snd kv))) (?s u)) k = map_option (\<lambda>v. jtree_of (sort_keys v)) (map_of u k)"
    if "distinct (map fst u)" for u
  proof -
    have "distinct (map fst (map (\<lambda>kv. (fst kv, sort_keys (snd kv))) u))" using that by (simp add: o_def)
    then show ?thesis by (simp add: map_of_map_snd map_of_sort_key option.map_comp o_def)
  qed
  from look [OF assms(2)] look [OF assms(3)] eq show ?thesis by simp
qed

lemma tree_text:
  assumes "jtree_of (sort_keys (PDict d)) = jtree_of (sort_keys (PDict d'))" "distinct (map fst d)" "distinct (map fst d')"
    and "dget d k = PStr s"
  shows "dget d' k = PStr s"
proof -
  from assms(4) have "map_of d k = Some (PStr s)" by (simp add: dget_def split: option.splits)
  with tree_lookup [OF assms(1-3), of k] obtain v where v: "map_of d' k = Some v" "jtree_of (sort_keys v) = JStr s"
    by (cases "map_of d' k") auto
  then have "v = PStr s" by (cases v) auto
  with v show ?thesis by (simp add: dget_def)
qed

section \<open>Length\<close>

text \<open>A bound on the length of the text that is cheap to evaluate.\<close>

fun json_bound :: "pyval \<Rightarrow> nat" where
  "json_bound (PStr s) = 6 * length s + 2"
| "json_bound (PList xs) = 2 + sum_list (map (\<lambda>x. json_bound x + 1) xs)"
| "json_bound (PDict d) = 2 + sum_list (map (\<lambda>kv. 6 * length (fst kv) + 4 + json_bound (snd kv)) d)"
| "json_bound v = length (json_text v)"

lemma json_str_length: "length (json_str s) \<le> 6 * length s + 2"
proof -
  have "length (json_char c) \<le> 6" for c by (simp add: json_char_escape split: option.split)
  then have "length (concat (map json_char s)) \<le> 6 * length s"
  proof (induction s)
    case (Cons c s)
    from Cons.IH [OF Cons.prems] Cons.prems [of c] show ?case by simp
  qed simp
  then show ?thesis by (simp add: json_str_def)
qed

lemma join_length: "length (join '','' (map f xs)) \<le> sum_list (map (\<lambda>x. length (f x) + 1) xs)"
  by (induction xs) (auto simp: join_Cons)

lemma sum_list_map_le: "(\<And>x. x \<in> set xs \<Longrightarrow> f x \<le> g x) \<Longrightarrow> sum_list (map f xs) \<le> (sum_list (map g xs) :: nat)"
  by (rule sum_list_mono) simp

lemma json_text_length: "length (json_text v) \<le> json_bound v"
proof (induction v)
  case (PStr s)
  show ?case using json_str_length by simp
next
  case (PList xs)
  have "sum_list (map (\<lambda>x. length (json_text x) + 1) xs) \<le> sum_list (map (\<lambda>x. json_bound x + 1) xs)"
    using PList by (intro sum_list_map_le) simp
  with join_length [of json_text xs] show ?case by simp
next
  case (PDict d)
  let ?f = "\<lambda>kv :: string \<times> pyval. json_str (fst kv) @ '':'' @ json_text (snd kv)"
  have "sum_list (map (\<lambda>kv. length (?f kv) + 1) d) \<le> sum_list (map (\<lambda>kv. 6 * length (fst kv) + 4 + json_bound (snd kv)) d)"
  proof (rule sum_list_map_le)
    fix kv assume kv: "kv \<in> set d"
    have "snd kv \<in> Basic_BNFs.snds kv" by (cases kv) simp
    with PDict [OF kv] have "length (json_text (snd kv)) \<le> json_bound (snd kv)" by blast
    with json_str_length [of "fst kv"] show "length (?f kv) + 1 \<le> 6 * length (fst kv) + 4 + json_bound (snd kv)" by simp
  qed
  with join_length [of ?f d] show ?case by simp
qed simp_all

end
