(* ===== verification/Values.thy ===== *)
theory Values
  imports Json "HOL-Library.Log_Nat"
begin

text \<open>
  Coercions the components share: \<open>str(v or '')\<close>, \<open>d.get(k, v)\<close>, iteration, \<open>float(v)\<close> and the order of floats.
\<close>

definition text_of :: "pyval \<Rightarrow> string" where
  "text_of v = py_str (py_or v (PStr []))"

lemma text_of_str [simp]: "text_of (PStr s) = s"
  by (cases s) (simp_all add: text_of_def py_or_def)

text \<open>\<open>float(i)\<close>: the nearest number with 53 significant bits, ties to even.\<close>

definition round_double :: "int \<Rightarrow> int" where
  "round_double i =
     (let a = nat \<bar>i\<bar>; u = 2 ^ (floorlog 2 a - 53); q = a div u; r = a mod u;
          q' = (if u < 2 * r \<or> (u = 2 * r \<and> odd q) then Suc q else q)
      in sgn i * int (q' * u))"

text \<open>\<open>float(i)\<close> raises when the rounded value is not below \<open>2 ^ 1024\<close>.\<close>

definition float_too_large :: "int \<Rightarrow> bool" where
  "float_too_large i = (2 ^ 1024 - 2 ^ 970 \<le> \<bar>i\<bar>)"

text \<open>\<open>a < b\<close> on floats: no comparison with NaN holds.\<close>

fun float_less :: "pyfloat \<Rightarrow> pyfloat \<Rightarrow> bool" where
  "float_less (FFin a _) (FFin b _) = (a < b)"
| "float_less (FFin _ _) (FInf neg) = (\<not> neg)"
| "float_less (FInf neg) (FFin _ _) = neg"
| "float_less (FInf n1) (FInf n2) = (n1 \<and> \<not> n2)"
| "float_less _ _ = False"

text \<open>\<open>d.get(k, v)\<close> with a default.\<close>

definition dget_or :: "pydict \<Rightarrow> string \<Rightarrow> pyval \<Rightarrow> pyval" where
  "dget_or d k v = (if has_key d k then dget d k else v)"

text \<open>\<open>float(v)\<close>.\<close>

definition py_float :: "(string \<Rightarrow> pyfloat option) \<Rightarrow> pyval \<Rightarrow> pyexc + pyfloat" where
  "py_float read_float v =
     (case v of
        PFloat f \<Rightarrow> Inr f
      | PBool b \<Rightarrow> Inr (FFin (if b then 1 else 0) [])
      | PInt i \<Rightarrow> if float_too_large i then Inl (OverflowError []) else Inr (FFin (of_int (round_double i)) [])
      | PStr s \<Rightarrow> (case read_float s of None \<Rightarrow> Inl (ValueError []) | Some f \<Rightarrow> Inr f)
      | _ \<Rightarrow> Inl (TypeError []))"

text \<open>The elements a loop over a value visits.\<close>

definition iter_val :: "pyval \<Rightarrow> pyexc + pyval list" where
  "iter_val v =
     (case v of
        PList xs \<Rightarrow> Inr xs
      | PStr s \<Rightarrow> Inr (map (\<lambda>c. PStr [c]) s)
      | PDict d \<Rightarrow> Inr (map (\<lambda>kv. PStr (fst kv)) d)
      | _ \<Rightarrow> Inl (TypeError []))"

text \<open>Text outside ASCII stands as its UTF-8 bytes: \<open>utf8\<close> writes the code points of a literal (below 65536), \<open>char_count\<close> is \<open>len(s)\<close>, which
  counts every byte but the continuations.\<close>

definition utf8_char :: "nat \<Rightarrow> string" where
  "utf8_char n =
     (if n < 128 then [char_of n]
      else if n < 2048 then [char_of (192 + n div 64), char_of (128 + n mod 64)]
      else [char_of (224 + n div 4096), char_of (128 + n div 64 mod 64), char_of (128 + n mod 64)])"

definition utf8 :: "nat list \<Rightarrow> string" where
  "utf8 cs = concat (map utf8_char cs)"

definition is_continuation :: "char \<Rightarrow> bool" where
  "is_continuation c = (let n = of_char c :: nat in 128 \<le> n \<and> n < 192)"

definition char_count :: "string \<Rightarrow> nat" where
  "char_count s = length (filter (\<lambda>c. \<not> is_continuation c) s)"

lemma sort_key_Nil: "sort_key f xs = [] \<longleftrightarrow> xs = []"
  by (metis length_0_conv length_sort)

text \<open>\<open>sorted(set(xs))\<close>.\<close>

definition sorted_set :: "string list \<Rightarrow> string list" where
  "sorted_set xs = sort (dedup xs)"

text \<open>A comprehension whose body may raise.\<close>

fun emap :: "('a \<Rightarrow> 'e + 'b) \<Rightarrow> 'a list \<Rightarrow> 'e + 'b list" where
  "emap f [] = Inr []"
| "emap f (x # xs) = ebind (f x) (\<lambda>y. ebind (emap f xs) (\<lambda>ys. Inr (y # ys)))"

text \<open>\<open>s[:n]\<close> on text.\<close>

fun take_chars :: "nat \<Rightarrow> string \<Rightarrow> string" where
  "take_chars n [] = []"
| "take_chars n (c # s) = (if is_continuation c then c # take_chars n s else (case n of 0 \<Rightarrow> [] | Suc m \<Rightarrow> c # take_chars m s))"

lemma char_count_take: "char_count (take_chars n s) \<le> n"
  by (induction n s rule: take_chars.induct) (auto simp: char_count_def split: nat.splits)

lemma emap_Inr_iff: "emap f xs = Inr ys \<longleftrightarrow> map f xs = map Inr ys"
  by (induction xs arbitrary: ys) (auto simp: ebind_Inr_iff Cons_eq_map_conv)

lemma emap_Inl_mem: "emap f xs = Inl x \<Longrightarrow> \<exists>a \<in> set xs. f a = Inl x"
  by (induction xs) (auto simp: ebind_Inl_iff)

lemma emap_Inr: "(\<And>x. x \<in> set xs \<Longrightarrow> f x = Inr (g x)) \<Longrightarrow> emap f xs = Inr (map g xs)"
  by (induction xs) simp_all

lemma emap_ok: "emap f xs = Inr ys \<Longrightarrow> x \<in> set xs \<Longrightarrow> \<exists>y. f x = Inr y"
  by (induction xs arbitrary: ys) (auto simp: ebind_Inr_iff)

text \<open>A list of texts as a value.\<close>

definition texts_val :: "string list \<Rightarrow> pyval" where
  "texts_val xs = PList (map PStr xs)"

lemma dget_append_right: "k \<notin> set (map fst d) \<Longrightarrow> dget (d @ e) k = dget e k"
  by (simp add: dget_def map_add_def map_of_eq_None_iff [THEN iffD2] split: option.splits)

lemma dget_append_left: "k \<in> set (map fst d) \<Longrightarrow> dget (d @ e) k = dget d k"
proof -
  assume "k \<in> set (map fst d)"
  then obtain v where "map_of d k = Some v" by (cases "map_of d k") (auto simp: map_of_eq_None_iff)
  then show ?thesis by (simp add: dget_def map_add_def)
qed

end
