(* ===== verification/AuditChain.thy ===== *)
theory AuditChain
  imports Values
begin

text \<open>
  The hash-chained audit log (\<open>py/azazel_edge/audit/logger.py\<close>) and the reader of its rotated
  segments (\<open>py/azazel_edge/audit/segments.py\<close>).

  A file is the sequence of its complete lines and, when a write was cut off, the text after the last
  line feed. A line is the JSON value it holds, or text that is no JSON. SHA-256 is the parameter
  \<open>sha\<close>. What the operating system answers during one call (rotation, append, \<open>fsync\<close>) is a
  \<open>sys\<close> record. Everything \<open>log\<close> does runs under the logger's lock, so a call is one step; the
  listener thread's turn is a step of its own.
\<close>

section \<open>Files\<close>

datatype fline = Row pyval | Junk string

record afile =
  flines :: "fline list"
  torn :: "fline option"

text \<open>A directory: the active file and its rotated files \<open>.1\<close>, \<open>.2\<close>, ...\<close>

record adir =
  active :: "afile option"
  seg :: "nat \<Rightarrow> afile option"

fun line_text :: "fline \<Rightarrow> string" where
  "line_text (Row v) = json_text v"
| "line_text (Junk s) = s"

definition line_size :: "fline \<Rightarrow> nat" where
  "line_size l = Suc (length (line_text l))"

definition torn_size :: "afile \<Rightarrow> nat" where
  "torn_size f = (case torn f of None \<Rightarrow> 0 | Some l \<Rightarrow> length (line_text l))"

definition file_size :: "afile \<Rightarrow> nat" where
  "file_size f = sum_list (map line_size (flines f)) + torn_size f"

definition all_lines :: "afile \<Rightarrow> fline list" where
  "all_lines f = flines f @ (case torn f of None \<Rightarrow> [] | Some l \<Rightarrow> [l])"

text \<open>Writing a line behind a cut-off write continues that text.\<close>

definition append_line :: "pyval \<Rightarrow> afile option \<Rightarrow> afile" where
  "append_line v f =
     (case f of
        None \<Rightarrow> \<lparr>flines = [Row v], torn = None\<rparr>
      | Some f' \<Rightarrow>
          (case torn f' of
             None \<Rightarrow> f'\<lparr>flines := flines f' @ [Row v]\<rparr>
           | Some t \<Rightarrow> \<lparr>flines = flines f' @ [Junk (line_text t @ json_text v)], torn = None\<rparr>))"

fun line_dict :: "fline \<Rightarrow> pydict option" where
  "line_dict (Row (PDict d)) = Some d"
| "line_dict _ = None"

section \<open>Segments\<close>

definition MAX_SEGMENTS :: nat where "MAX_SEGMENTS = 16"
definition HEAD_MAX :: nat where "HEAD_MAX = 1048576"

definition chain_id_of :: "pydict \<Rightarrow> string" where
  "chain_id_of h =
     (case dget h ''chain_id'' of
        PStr (c # cs) \<Rightarrow> c # cs
      | _ \<Rightarrow> if text_of (dget h ''chain_prev'') \<noteq> [] then text_of (dget h ''chain_prev'') else text_of (dget h ''chain_hash''))"

text \<open>The first line, when it ends within the bytes read.\<close>

definition head_row :: "afile \<Rightarrow> pydict option" where
  "head_row f =
     (case flines f of
        [] \<Rightarrow> None
      | l # _ \<Rightarrow> if length (line_text l) < HEAD_MAX then line_dict l else None)"

text \<open>
  The read from the end of a file doubles its step from 64 KiB and stops once the window holds a line
  feed before its last character, the whole file, or \<open>HEAD_MAX\<close> bytes; these are the windows. A line
  cut by its window does not parse.
\<close>

definition tail_windows :: "nat list" where
  "tail_windows = [65536, 196608, 458752, 983040, 2031616]"

definition tail_window :: "nat \<Rightarrow> nat \<Rightarrow> nat" where
  "tail_window sz need =
     (case find (\<lambda>w. need \<le> w \<or> sz \<le> w) tail_windows of
        Some w \<Rightarrow> min w sz
      | None \<Rightarrow> min 2031616 sz)"

definition line_hash :: "fline \<Rightarrow> string" where
  "line_hash l = (case line_dict l of None \<Rightarrow> [] | Some d \<Rightarrow> text_of (dget d ''chain_hash''))"

definition seg_last_hash :: "afile \<Rightarrow> string" where
  "seg_last_hash f =
     (if flines f = [] then []
      else
        (let l = last (flines f);
             n = length (line_text l)
         in case torn f of
              None \<Rightarrow>
                (let need = (if butlast (flines f) = [] then Suc (file_size f) else n + 2)
                 in if n + 1 \<le> tail_window (file_size f) need then line_hash l else [])
            | Some t \<Rightarrow>
                (let k = length (line_text t)
                 in if k + 1 + n \<le> tail_window (file_size f) (k + 1) then line_hash l else [])))"

fun segs_from :: "(nat \<Rightarrow> afile option) \<Rightarrow> nat \<Rightarrow> nat \<Rightarrow> afile list" where
  "segs_from sg k 0 = []"
| "segs_from sg k (Suc n) = (case sg k of None \<Rightarrow> [] | Some f \<Rightarrow> f # segs_from sg (Suc k) n)"

definition open_snapshot :: "adir \<Rightarrow> afile list \<times> bool" where
  "open_snapshot d =
     (let segs = segs_from (seg d) 1 MAX_SEGMENTS;
          n = Suc (length segs)
      in ((case active d of None \<Rightarrow> [] | Some f \<Rightarrow> [f]) @ segs,
          \<not> (n \<le> MAX_SEGMENTS \<and> seg d (Suc n) \<noteq> None)))"

fun link_older :: "afile \<Rightarrow> afile list \<Rightarrow> afile list" where
  "link_older newer [] = []"
| "link_older newer (f # fs) =
     (case head_row newer of
        None \<Rightarrow> []
      | Some h \<Rightarrow> if text_of (dget h ''chain_prev'') \<noteq> seg_last_hash f then [] else f # link_older f fs)"

definition linked_files :: "afile list \<Rightarrow> afile list" where
  "linked_files fs =
     (case fs of
        [] \<Rightarrow> []
      | [f] \<Rightarrow> [f]
      | f # g # rest \<Rightarrow>
          if head_row f = None then f # g # link_older g rest else f # link_older f (g # rest))"

text \<open>The lines whose end lies in the last \<open>r\<close> bytes, newest first.\<close>

fun lines_within :: "nat \<Rightarrow> fline list \<Rightarrow> fline list" where
  "lines_within r [] = []"
| "lines_within r (l # ls) = (if r = 0 then [] else l # lines_within (r - line_size l) ls)"

definition read_window :: "nat \<Rightarrow> afile \<Rightarrow> fline list" where
  "read_window take_n f =
     (let ls = rev (lines_within (take_n - torn_size f) (rev (flines f)))
      in if take_n < file_size f then tl ls else ls)"

text \<open>The files newest first, within the byte budget: the lines oldest first, and whether any were left out.\<close>

fun read_parts :: "nat option \<Rightarrow> afile list \<Rightarrow> fline list \<times> bool" where
  "read_parts b [] = ([], False)"
| "read_parts None (f # fs) = (fst (read_parts None fs) @ flines f, snd (read_parts None fs))"
| "read_parts (Some b) (f # fs) =
     (if b = 0 then ([], True)
      else (let n = min (file_size f) b;
                older = read_parts (Some (b - n)) fs
            in (fst older @ read_window n f, n < file_size f \<or> snd older)))"

record chain_view =
  cv_lines :: "fline list"
  cv_truncated :: bool
  cv_anchored :: bool
  cv_chain_id :: string
  cv_segments :: nat
  cv_unlinked :: nat
  cv_bytes :: nat
  cv_synced :: bool
  cv_consistent :: bool

text \<open>\<open>read_chain\<close> while no rotation runs beside it; \<open>sync\<close> is the caller's \<open>fsync\<close> of a file.\<close>

definition read_chain :: "int option \<Rightarrow> (afile \<Rightarrow> bool) option \<Rightarrow> adir \<Rightarrow> chain_view" where
  "read_chain max_bytes sync d =
     (let fds = fst (open_snapshot d);
          kept = linked_files fds;
          hd_row = (if kept = [] then None else head_row (last kept));
          parts = read_parts (map_option (\<lambda>b. nat (max 0 b)) max_bytes) kept
      in \<lparr>cv_lines = fst parts, cv_truncated = snd parts,
          cv_anchored = (case hd_row of None \<Rightarrow> False | Some h \<Rightarrow> h \<noteq> [] \<and> text_of (dget h ''chain_prev'') \<noteq> []),
          cv_chain_id = (case hd_row of None \<Rightarrow> [] | Some h \<Rightarrow> if h = [] then [] else chain_id_of h),
          cv_segments = length kept, cv_unlinked = length fds - length kept,
          cv_bytes = sum_list (map file_size kept),
          cv_synced = (case sync of None \<Rightarrow> False | Some sy \<Rightarrow> kept \<noteq> [] \<and> list_all sy kept),
          cv_consistent = snd (open_snapshot d)\<rparr>)"

section \<open>Verification\<close>

definition compute_chain_hash :: "(string \<Rightarrow> string) \<Rightarrow> pydict \<Rightarrow> string" where
  "compute_chain_hash sha r = sha (json_dumps (PDict r))"

record verdict =
  v_ok :: bool
  v_entries :: nat
  v_error :: string

text \<open>\<open>_verify_lines\<close> with the number of lines already passed.\<close>

fun verify_from :: "(string \<Rightarrow> string) \<Rightarrow> nat \<Rightarrow> string \<Rightarrow> fline list \<Rightarrow> pyexc + verdict" where
  "verify_from sha n prev [] = Inr \<lparr>v_ok = True, v_entries = n, v_error = []\<rparr>"
| "verify_from sha n prev (Junk t # ls) = Inl (ValueError [])"
| "verify_from sha n prev (Row v # ls) =
     (if \<not> is_dict v then Inl (AttributeError [])
      else if text_of (dget (dict_of v) ''chain_prev'') \<noteq> prev
      then Inr \<lparr>v_ok = False, v_entries = n, v_error = ''chain_prev_mismatch_at:'' @ nat_str (Suc n)\<rparr>
      else if text_of (dget (dict_of v) ''chain_hash'') \<noteq> compute_chain_hash sha (AList.delete ''chain_hash'' (dict_of v))
      then Inr \<lparr>v_ok = False, v_entries = n, v_error = ''chain_hash_mismatch_at:'' @ nat_str (Suc n)\<rparr>
      else verify_from sha (Suc n) (text_of (dget (dict_of v) ''chain_hash'')) ls)"

definition verify_lines :: "(string \<Rightarrow> string) \<Rightarrow> fline list \<Rightarrow> string \<Rightarrow> pyexc + verdict" where
  "verify_lines sha ls prev = verify_from sha 0 prev ls"

definition verify_chain :: "(string \<Rightarrow> string) \<Rightarrow> afile option \<Rightarrow> pyexc + verdict" where
  "verify_chain sha f =
     (case f of
        None \<Rightarrow> Inr \<lparr>v_ok = True, v_entries = 0, v_error = []\<rparr>
      | Some f' \<Rightarrow> verify_lines sha (all_lines f') [])"

definition first_prev :: "fline list \<Rightarrow> pyexc + string" where
  "first_prev ls =
     (case ls of
        [] \<Rightarrow> Inr []
      | Junk _ # _ \<Rightarrow> Inl (ValueError [])
      | Row v # _ \<Rightarrow> if is_dict v then Inr (text_of (dget (dict_of v) ''chain_prev'')) else Inl (AttributeError []))"

definition verify_rotated_chain :: "(string \<Rightarrow> string) \<Rightarrow> adir \<Rightarrow> pyexc + (verdict \<times> chain_view)" where
  "verify_rotated_chain sha d =
     (let cv = read_chain None None d
      in ebind (if cv_anchored cv then first_prev (cv_lines cv) else Inr []) (\<lambda>prev.
         ebind (verify_lines sha (cv_lines cv) prev) (\<lambda>v. Inr (v, cv))))"

section \<open>The logger\<close>

definition VALID_KINDS :: "string list" where
  "VALID_KINDS = [''event_receive'', ''evaluation'', ''action_decision'', ''notification'', ''ai_assist'', ''triage_session_started'',
     ''triage_step_answered'', ''triage_state_changed'', ''triage_runbook_proposed'', ''triage_handoff'', ''triage_completed'']"

definition DURABLE_KINDS :: "string list" where
  "DURABLE_KINDS = [''action_decision'', ''notification'']"

definition DURABLE_HANDOFF_MAX :: nat where "DURABLE_HANDOFF_MAX = 4096"
definition DURABLE_DROPPED_KEEP :: nat where "DURABLE_DROPPED_KEEP = 4096"

datatype sync = Synced | SyncUnsupported | SyncFailed

text \<open>Clock readings and answers of the operating system during one \<open>log\<close> call. An append writes the whole line or, when
  \<open>append_ok\<close> is false, nothing; a line cut off by a crash is a \<open>torn\<close> file of the next logger.\<close>

record sys =
  sys_ts :: string
  sys_stamp :: int
  unlink_ok :: bool
  replace_ok :: bool
  append_ok :: bool
  sync_file :: sync
  sync_dir :: sync

record handed =
  h_seq :: nat
  h_line :: pyval
  h_durability :: string
  h_stamp :: int

record alog =
  dir :: adir
  max_bytes :: "nat option"
  last_chain_hash :: string
  chain_id :: string
  rotated_total :: nat
  rotate_failed_total :: nat
  fsync_unsupported_count :: nat
  listeners :: nat
  handoff :: "handed list"
  handoff_max :: nat
  durable_seq :: nat
  handed_count :: nat
  delivered_seq :: nat
  delivered_count :: nat
  handoff_dropped_total :: nat
  dropped :: "(nat \<times> string) list"

definition read_last_chain_hash :: "nat option \<Rightarrow> adir \<Rightarrow> string" where
  "read_last_chain_hash mb d =
     (let is_empty = (case active d of None \<Rightarrow> True | Some f \<Rightarrow> file_size f = 0);
          file = (if is_empty then (if mb = None then None else seg d 1) else active d)
      in case file of
           None \<Rightarrow> []
         | Some f \<Rightarrow> if all_lines f = [] then [] else line_hash (last (all_lines f)))"

definition init_logger :: "int option \<Rightarrow> int \<Rightarrow> adir \<Rightarrow> pyexc + alog" where
  "init_logger mb keep d =
     (if (case mb of None \<Rightarrow> False | Some b \<Rightarrow> b \<le> 0) then Inl (ValueError ''max_bytes must be positive'')
      else if keep \<noteq> 1 then Inl (ValueError ''only keep=1 is supported'')
      else
        (let mbn = map_option nat mb;
             lh = read_last_chain_hash mbn d
         in Inr \<lparr>dir = d, max_bytes = mbn, last_chain_hash = lh,
              chain_id = (if lh = [] then [] else cv_chain_id (read_chain (Some 0) None d)),
              rotated_total = 0, rotate_failed_total = 0, fsync_unsupported_count = 0, listeners = 0,
              handoff = [], handoff_max = DURABLE_HANDOFF_MAX, durable_seq = 0, handed_count = 0, delivered_seq = 0,
              delivered_count = 0, handoff_dropped_total = 0, dropped = []\<rparr>))"

definition add_durable_listener :: "alog \<Rightarrow> string \<times> alog" where
  "add_durable_listener s = (last_chain_hash s, s\<lparr>listeners := Suc (listeners s)\<rparr>)"

definition dropped_durable_since :: "nat \<Rightarrow> alog \<Rightarrow> nat \<times> string list" where
  "dropped_durable_since n s =
     (max (if dropped s = [] then n else fst (last (dropped s))) n,
      map snd (filter (\<lambda>sh. n < fst sh) (dropped s)))"

definition push_dropped :: "nat \<times> string \<Rightarrow> alog \<Rightarrow> alog" where
  "push_dropped sh s = s\<lparr>dropped := lastn DURABLE_DROPPED_KEEP (dropped s @ [sh])\<rparr>"

definition handoff_durable :: "pyval \<Rightarrow> string \<Rightarrow> string \<Rightarrow> int \<Rightarrow> alog \<Rightarrow> alog" where
  "handoff_durable line durability chash stamp s =
     (if listeners s = 0 then s
      else
        (let q = Suc (durable_seq s);
             s1 = s\<lparr>durable_seq := q\<rparr>
         in if handoff_max s \<le> length (handoff s)
            then (let s2 = s1\<lparr>handoff_dropped_total := Suc (handoff_dropped_total s)\<rparr>
                  in if chash \<noteq> [] then push_dropped (q, chash) s2 else s2)
            else s1\<lparr>handoff := handoff s @ [\<lparr>h_seq = q, h_line = line, h_durability = durability, h_stamp = stamp\<rparr>],
                     handed_count := Suc (handed_count s)\<rparr>))"

text \<open>One turn of the dispatcher: the oldest entry goes to every listener.\<close>

definition dispatch_durable :: "alog \<Rightarrow> handed option \<times> alog" where
  "dispatch_durable s =
     (case handoff s of
        [] \<Rightarrow> (None, s)
      | h # hs \<Rightarrow> (Some h, s\<lparr>handoff := hs, delivered_seq := h_seq h, delivered_count := Suc (delivered_count s)\<rparr>))"

definition rotate :: "sys \<Rightarrow> alog \<Rightarrow> alog" where
  "rotate y s =
     (if \<not> unlink_ok y then s\<lparr>rotate_failed_total := Suc (rotate_failed_total s)\<rparr>
      else if \<not> replace_ok y
      then s\<lparr>dir := (dir s)\<lparr>seg := (seg (dir s))(1 := None)\<rparr>, rotate_failed_total := Suc (rotate_failed_total s)\<rparr>
      else s\<lparr>dir := \<lparr>active = None, seg = (seg (dir s))(1 := active (dir s))\<rparr>, rotated_total := Suc (rotated_total s)\<rparr>)"

definition is_full :: "alog \<Rightarrow> bool" where
  "is_full s =
     (case (max_bytes s, active (dir s)) of
        (Some mb, Some f) \<Rightarrow> mb \<le> file_size f
      | _ \<Rightarrow> False)"

definition chain_record :: "string \<Rightarrow> string \<Rightarrow> string \<Rightarrow> string \<Rightarrow> pydict \<Rightarrow> bool \<Rightarrow> alog \<Rightarrow> pydict" where
  "chain_record ts kind trace source payload created s =
     (let r = AList.delete ''chain_id'' (dupdate
            [(''ts'', PStr ts), (''kind'', PStr kind), (''trace_id'', PStr trace), (''source'', PStr source),
             (''chain_prev'', PStr (last_chain_hash s))] payload)
      in if max_bytes s \<noteq> None \<and> created \<and> last_chain_hash s \<noteq> [] \<and> chain_id s \<noteq> []
         then AList.update ''chain_id'' (PStr (chain_id s)) r else r)"

definition seal :: "(string \<Rightarrow> string) \<Rightarrow> pydict \<Rightarrow> pydict" where
  "seal sha r = AList.update ''chain_hash'' (PStr (compute_chain_hash sha r)) r"

definition sync_result :: "sys \<Rightarrow> bool \<Rightarrow> sync" where
  "sync_result y created =
     (if sync_file y = SyncFailed then SyncFailed
      else if created \<and> sync_dir y = SyncFailed then SyncFailed
      else if sync_file y = Synced \<and> (\<not> created \<or> sync_dir y = Synced) then Synced
      else SyncUnsupported)"

definition settle :: "sys \<Rightarrow> string \<Rightarrow> bool \<Rightarrow> pydict \<Rightarrow> alog \<Rightarrow> (pyexc + (pydict \<times> string)) \<times> alog" where
  "settle y kind created r s =
     (if kind \<notin> set DURABLE_KINDS then (Inr (r, ''not_required''), s)
      else (case sync_result y created of
          SyncFailed \<Rightarrow> (Inl (OSError ''audit_record_not_durable''),
            handoff_durable (PDict r) ''fsync_failed'' (last_chain_hash s) (sys_stamp y) s)
        | Synced \<Rightarrow> (Inr (r, ''fsynced''), handoff_durable (PDict r) ''fsynced'' (last_chain_hash s) (sys_stamp y) s)
        | SyncUnsupported \<Rightarrow> (Inr (r, ''fsync_unsupported''),
            handoff_durable (PDict r) ''fsync_unsupported'' (last_chain_hash s) (sys_stamp y)
              (s\<lparr>fsync_unsupported_count := Suc (fsync_unsupported_count s)\<rparr>))))"

definition log_reporting_durability ::
    "(string \<Rightarrow> string) \<Rightarrow> sys \<Rightarrow> string \<Rightarrow> string \<Rightarrow> string \<Rightarrow> pydict \<Rightarrow> alog \<Rightarrow> (pyexc + (pydict \<times> string)) \<times> alog" where
  "log_reporting_durability sha y kind trace source payload s =
     (if kind \<notin> set VALID_KINDS then (Inl (ValueError (''invalid_audit_kind:'' @ kind)), s)
      else
        (let s1 = (if is_full s then rotate y s else s);
             created = (active (dir s1) = None);
             r = seal sha (chain_record (sys_ts y) kind trace source payload created s1)
         in if \<not> append_ok y then (Inl (OSError []), s1)
            else settle y kind created r
              (s1\<lparr>dir := (dir s1)\<lparr>active := Some (append_line (PDict r) (active (dir s1)))\<rparr>,
                  last_chain_hash := py_str (dget r ''chain_hash''),
                  chain_id := (if chain_id s1 = [] then chain_id_of r else chain_id s1)\<rparr>)))"

definition log_audit ::
    "(string \<Rightarrow> string) \<Rightarrow> sys \<Rightarrow> string \<Rightarrow> string \<Rightarrow> string \<Rightarrow> pydict \<Rightarrow> alog \<Rightarrow> (pyexc + pydict) \<times> alog" where
  "log_audit sha y kind trace source payload s =
     (let (r, s') = log_reporting_durability sha y kind trace source payload s
      in (case r of Inl e \<Rightarrow> Inl e | Inr rd \<Rightarrow> Inr (fst rd), s'))"

text \<open>The entry points of the callers, one per kind.\<close>

definition log_event_receive :: "(string \<Rightarrow> string) \<Rightarrow> sys \<Rightarrow> string \<Rightarrow> string \<Rightarrow> pydict \<Rightarrow> alog \<Rightarrow> (pyexc + pydict) \<times> alog" where
  "log_event_receive sha y trace source payload s = log_audit sha y ''event_receive'' trace source payload s"

definition log_evaluation :: "(string \<Rightarrow> string) \<Rightarrow> sys \<Rightarrow> string \<Rightarrow> string \<Rightarrow> pydict \<Rightarrow> alog \<Rightarrow> (pyexc + pydict) \<times> alog" where
  "log_evaluation sha y trace source payload s = log_audit sha y ''evaluation'' trace source payload s"

definition log_action_decision :: "(string \<Rightarrow> string) \<Rightarrow> sys \<Rightarrow> string \<Rightarrow> string \<Rightarrow> pydict \<Rightarrow> alog \<Rightarrow> (pyexc + pydict) \<times> alog" where
  "log_action_decision sha y trace source payload s = log_audit sha y ''action_decision'' trace source payload s"

definition log_notification :: "(string \<Rightarrow> string) \<Rightarrow> sys \<Rightarrow> string \<Rightarrow> string \<Rightarrow> pydict \<Rightarrow> alog \<Rightarrow> (pyexc + pydict) \<times> alog" where
  "log_notification sha y trace source payload s = log_audit sha y ''notification'' trace source payload s"

definition log_ai_assist :: "(string \<Rightarrow> string) \<Rightarrow> sys \<Rightarrow> string \<Rightarrow> string \<Rightarrow> pydict \<Rightarrow> alog \<Rightarrow> (pyexc + pydict) \<times> alog" where
  "log_ai_assist sha y trace source payload s = log_audit sha y ''ai_assist'' trace source payload s"

definition log_triage_session_started :: "(string \<Rightarrow> string) \<Rightarrow> sys \<Rightarrow> string \<Rightarrow> string \<Rightarrow> pydict \<Rightarrow> alog \<Rightarrow> (pyexc + pydict) \<times> alog" where
  "log_triage_session_started sha y trace source payload s = log_audit sha y ''triage_session_started'' trace source payload s"

definition log_triage_step_answered :: "(string \<Rightarrow> string) \<Rightarrow> sys \<Rightarrow> string \<Rightarrow> string \<Rightarrow> pydict \<Rightarrow> alog \<Rightarrow> (pyexc + pydict) \<times> alog" where
  "log_triage_step_answered sha y trace source payload s = log_audit sha y ''triage_step_answered'' trace source payload s"

definition log_triage_state_changed :: "(string \<Rightarrow> string) \<Rightarrow> sys \<Rightarrow> string \<Rightarrow> string \<Rightarrow> pydict \<Rightarrow> alog \<Rightarrow> (pyexc + pydict) \<times> alog" where
  "log_triage_state_changed sha y trace source payload s = log_audit sha y ''triage_state_changed'' trace source payload s"

definition log_triage_runbook_proposed :: "(string \<Rightarrow> string) \<Rightarrow> sys \<Rightarrow> string \<Rightarrow> string \<Rightarrow> pydict \<Rightarrow> alog \<Rightarrow> (pyexc + pydict) \<times> alog" where
  "log_triage_runbook_proposed sha y trace source payload s = log_audit sha y ''triage_runbook_proposed'' trace source payload s"

definition log_triage_handoff :: "(string \<Rightarrow> string) \<Rightarrow> sys \<Rightarrow> string \<Rightarrow> string \<Rightarrow> pydict \<Rightarrow> alog \<Rightarrow> (pyexc + pydict) \<times> alog" where
  "log_triage_handoff sha y trace source payload s = log_audit sha y ''triage_handoff'' trace source payload s"

definition log_triage_completed :: "(string \<Rightarrow> string) \<Rightarrow> sys \<Rightarrow> string \<Rightarrow> string \<Rightarrow> pydict \<Rightarrow> alog \<Rightarrow> (pyexc + pydict) \<times> alog" where
  "log_triage_completed sha y trace source payload s = log_audit sha y ''triage_completed'' trace source payload s"

end
