(* ===== verification/AuditChainProperties.thy ===== *)
theory AuditChainProperties
  imports AuditChain
begin

text \<open>
  What the audit chain guarantees: what the logger writes verifies, over rotations, failed system
  calls and restarts; a verified chain with a known last hash admits no other content; what the
  listeners are handed; and the two ways the format can be broken from outside.
\<close>

section \<open>Chains of rows\<close>

fun good :: "(string \<Rightarrow> string) \<Rightarrow> string \<Rightarrow> fline list \<Rightarrow> string \<Rightarrow> bool" where
  "good sha p [] q = (p = q)"
| "good sha p (l # ls) q =
     (case line_dict l of
        None \<Rightarrow> False
      | Some d \<Rightarrow> text_of (dget d ''chain_prev'') = p
          \<and> text_of (dget d ''chain_hash'') = compute_chain_hash sha (AList.delete ''chain_hash'' d)
          \<and> good sha (text_of (dget d ''chain_hash'')) ls q)"

lemma line_dict_Some: "line_dict l = Some d \<longleftrightarrow> l = Row (PDict d)"
  by (cases l rule: line_dict.cases) auto

lemma verify_good:
  "good sha p ls q \<Longrightarrow> verify_from sha n p ls = Inr \<lparr>v_ok = True, v_entries = n + length ls, v_error = []\<rparr>"
  by (induction ls arbitrary: n p) (auto simp: line_dict_Some split: option.splits)

lemma verify_no_dict: "line_dict l = None \<Longrightarrow> \<exists>e. verify_from sha n p (l # ls) = Inl e"
  by (cases l rule: line_dict.cases) auto

lemma good_verify:
  "verify_from sha n p ls = Inr v \<Longrightarrow> v_ok v \<Longrightarrow> \<exists>q. good sha p ls q"
proof (induction ls arbitrary: n p)
  case (Cons l ls)
  show ?case
  proof (cases "line_dict l")
    case None
    with verify_no_dict [of l sha n p ls] Cons.prems show ?thesis by auto
  next
    case (Some d)
    then have "l = Row (PDict d)" by (simp add: line_dict_Some)
    with Cons show ?thesis by (auto split: if_splits)
  qed
qed auto

lemma good_append: "good sha p (a @ b) q \<longleftrightarrow> (\<exists>m. good sha p a m \<and> good sha m b q)"
  by (induction a arbitrary: p) (auto split: option.splits)

lemma good_last: "good sha p ls q \<Longrightarrow> ls \<noteq> [] \<Longrightarrow> line_hash (last ls) = q"
  by (induction ls arbitrary: p) (auto simp: line_hash_def split: option.splits if_splits)

lemma good_first: "good sha p (l # ls) q \<Longrightarrow> \<exists>d. l = Row (PDict d) \<and> text_of (dget d ''chain_prev'') = p"
  by (auto simp: line_dict_Some split: option.splits)

section \<open>The record log writes\<close>

definition clean :: "pydict \<Rightarrow> bool" where
  "clean payload \<longleftrightarrow> \<not> has_key payload ''chain_prev'' \<and> \<not> has_key payload ''chain_hash''"

lemma map_of_rev_None: "map_of d k = None \<Longrightarrow> map_of (rev d) k = None"
  by (simp add: map_of_eq_None_iff)

lemma record_prev: "clean payload \<Longrightarrow> dget (chain_record ts kind trace source payload created s) ''chain_prev'' = PStr (last_chain_hash s)"
  using map_of_rev_None [of payload "''chain_prev''"]
  by (simp add: chain_record_def Let_def clean_def has_key_map_of dget_def map_of_update map_of_delete map_of_dupdate)

lemma record_no_hash:
  assumes "clean payload"
  shows "''chain_hash'' \<notin> fst ` set (chain_record ts kind trace source payload created s)"
proof -
  have "map_of (chain_record ts kind trace source payload created s) ''chain_hash'' = None"
    using assms map_of_rev_None [of payload "''chain_hash''"]
    by (simp add: chain_record_def Let_def clean_def has_key_map_of map_of_update map_of_delete map_of_dupdate)
  then show ?thesis by (simp add: map_of_eq_None_iff)
qed

lemma sealed_good:
  assumes "dget r ''chain_prev'' = PStr p" "''chain_hash'' \<notin> fst ` set r"
  shows "good sha p [Row (PDict (seal sha r))] (compute_chain_hash sha r)"
proof -
  have "AList.delete ''chain_hash'' (seal sha r) = r" using assms(2) by (simp add: seal_def delete_update_new)
  then show ?thesis using assms(1) by (simp add: seal_def dget_update)
qed

section \<open>Invariant\<close>

definition tidy :: "afile \<Rightarrow> bool" where
  "tidy f \<longleftrightarrow> torn f = None \<and> flines f \<noteq> []"

definition opt_good :: "(string \<Rightarrow> string) \<Rightarrow> string \<Rightarrow> afile option \<Rightarrow> string \<Rightarrow> bool" where
  "opt_good sha p f q \<longleftrightarrow> (case f of None \<Rightarrow> p = q | Some f' \<Rightarrow> tidy f' \<and> good sha p (flines f') q)"

definition short_file :: "afile option \<Rightarrow> bool" where
  "short_file f \<longleftrightarrow> (case f of None \<Rightarrow> True | Some f' \<Rightarrow> (\<forall>l \<in> set (flines f'). length (line_text l) < HEAD_MAX))"

definition named :: "string \<Rightarrow> afile option \<Rightarrow> bool" where
  "named i f \<longleftrightarrow> (case f of None \<Rightarrow> True | Some f' \<Rightarrow> (\<exists>d ls. flines f' = Row (PDict d) # ls \<and> chain_id_of d = i))"

abbreviation rotated :: "alog \<Rightarrow> afile option" where
  "rotated s \<equiv> seg (dir s) 1"

abbreviation current_file :: "alog \<Rightarrow> afile option" where
  "current_file s \<equiv> active (dir s)"

text \<open>
  The retained files form one chain that ends in the logger's last hash and names the logger's chain;
  the digest of a text is never empty (a hexadecimal SHA-256 is not).
\<close>

definition log_inv :: "(string \<Rightarrow> string) \<Rightarrow> alog \<Rightarrow> bool" where
  "log_inv sha s \<longleftrightarrow> (\<forall>x. sha x \<noteq> []) \<and> (\<forall>n \<ge> 2. seg (dir s) n = None)
     \<and> (\<exists>p m. opt_good sha p (rotated s) m \<and> opt_good sha m (current_file s) (last_chain_hash s)
          \<and> (max_bytes s = None \<longrightarrow> p = [] \<and> rotated s = None))
     \<and> (if rotated s = None \<and> current_file s = None then last_chain_hash s = [] \<and> chain_id s = []
        else last_chain_hash s \<noteq> [] \<and> chain_id s \<noteq> [])
     \<and> named (chain_id s) (rotated s) \<and> named (chain_id s) (current_file s)
     \<and> short_file (rotated s) \<and> short_file (current_file s)"

lemma inv_rotate:
  assumes inv: "log_inv sha s" and full: "is_full s"
  shows "log_inv sha (rotate y s)"
proof -
  from full obtain f mb where f: "current_file s = Some f" "max_bytes s = Some mb"
    by (auto simp: is_full_def split: option.splits)
  from inv obtain p m where pm: "opt_good sha p (rotated s) m" "opt_good sha m (current_file s) (last_chain_hash s)"
    by (auto simp: log_inv_def)
  from pm(2) have "opt_good sha m None m" "opt_good sha (last_chain_hash s) None (last_chain_hash s)" by (simp_all add: opt_good_def)
  with inv f pm show ?thesis by (auto simp: log_inv_def rotate_def named_def [of _ None] short_file_def [of None])
qed

lemma opt_good_append:
  assumes "opt_good sha m f p" "good sha p [Row (PDict r)] q"
  shows "opt_good sha m (Some (append_line (PDict r) f)) q"
  using assms by (auto simp: opt_good_def append_line_def tidy_def good_append split: option.splits)

lemma named_append:
  assumes "named i f" "opt_good sha m f p" "f = None \<Longrightarrow> chain_id_of r = i"
  shows "named i (Some (append_line (PDict r) f))"
  using assms by (auto simp: named_def append_line_def opt_good_def tidy_def split: option.splits)

lemma compute_nonempty: "\<forall>x. sha x \<noteq> [] \<Longrightarrow> compute_chain_hash sha r \<noteq> []"
  by (simp add: compute_chain_hash_def)

lemma seal_id:
  assumes "clean payload" "r = chain_record ts kind trace source payload created s"
    and "last_chain_hash s = [] \<Longrightarrow> chain_id s = []" and "last_chain_hash s \<noteq> [] \<Longrightarrow> created \<Longrightarrow> max_bytes s \<noteq> None \<and> chain_id s \<noteq> []"
    and "created"
  shows "chain_id_of (seal sha r) = (if last_chain_hash s = [] then compute_chain_hash sha r else chain_id s)"
proof -
  have prev: "dget (seal sha r) ''chain_prev'' = PStr (last_chain_hash s)"
    using record_prev [OF assms(1)] assms(2) by (simp add: seal_def dget_update)
  have hash: "dget (seal sha r) ''chain_hash'' = PStr (compute_chain_hash sha r)" by (simp add: seal_def dget_update)
  have cid: "dget (seal sha r) ''chain_id'' = (if last_chain_hash s = [] then PNone else PStr (chain_id s))"
    using assms(3-5) unfolding assms(2)
    by (auto simp: seal_def dget_update chain_record_def Let_def) (simp_all add: dget_def map_of_delete)
  show ?thesis
  proof (cases "last_chain_hash s = []")
    case True
    then show ?thesis by (simp add: chain_id_of_def cid prev hash)
  next
    case False
    with assms(4,5) obtain c cs where "chain_id s = c # cs" by (cases "chain_id s") auto
    with False show ?thesis by (simp add: chain_id_of_def cid)
  qed
qed

lemma settle_simps [simp]:
  "dir (snd (settle y kind created r s)) = dir s"
  "max_bytes (snd (settle y kind created r s)) = max_bytes s"
  "last_chain_hash (snd (settle y kind created r s)) = last_chain_hash s"
  "chain_id (snd (settle y kind created r s)) = chain_id s"
  by (simp_all add: settle_def handoff_durable_def push_dropped_def Let_def split: sync.split)

definition written :: "(string \<Rightarrow> string) \<Rightarrow> pydict \<Rightarrow> alog \<Rightarrow> alog" where
  "written sha r s = s\<lparr>dir := (dir s)\<lparr>active := Some (append_line (PDict r) (active (dir s)))\<rparr>,
     last_chain_hash := py_str (dget r ''chain_hash''), chain_id := (if chain_id s = [] then chain_id_of r else chain_id s)\<rparr>"

lemma inv_written:
  assumes inv: "log_inv sha s" and cl: "clean payload"
    and r: "r = chain_record ts kind trace source payload (current_file s = None) s"
    and short: "short_file (current_file (written sha (seal sha r) s))"
  shows "log_inv sha (written sha (seal sha r) s)"
proof -
  let ?s = "written sha (seal sha r) s" and ?h = "compute_chain_hash sha r"
  from inv obtain p m where pm: "opt_good sha p (rotated s) m" "opt_good sha m (current_file s) (last_chain_hash s)"
    "max_bytes s = None \<longrightarrow> p = [] \<and> rotated s = None" by (auto simp: log_inv_def)
  have g: "good sha (last_chain_hash s) [Row (PDict (seal sha r))] ?h"
    using sealed_good record_prev [OF cl] record_no_hash [OF cl] r by blast
  have last: "last_chain_hash ?s = ?h" by (simp add: written_def seal_def dget_update)
  have ne: "?h \<noteq> []" using inv compute_nonempty by (auto simp: log_inv_def)
  have fresh: "rotated s = None \<and> current_file s = None \<longleftrightarrow> last_chain_hash s = []"
    "last_chain_hash s = [] \<longleftrightarrow> chain_id s = []" using inv by (auto simp: log_inv_def split: if_splits)
  have mb: "max_bytes s \<noteq> None" if "last_chain_hash s \<noteq> []" "current_file s = None"
    using pm(3) fresh that by auto
  have id: "chain_id_of (seal sha r) = (if last_chain_hash s = [] then ?h else chain_id s)" if "current_file s = None"
    by (rule seal_id [OF cl r]) (use fresh mb that in auto)
  have cid: "chain_id ?s = (if last_chain_hash s = [] then ?h else chain_id s)"
    using fresh id by (auto simp: written_def)
  have nm: "named (chain_id s) (rotated s)" "named (chain_id s) (current_file s)" using inv by (simp_all add: log_inv_def)
  have nm': "named (chain_id ?s) (rotated s) \<and> named (chain_id ?s) (current_file s)"
  proof (cases "last_chain_hash s = []")
    case True
    with fresh(1) show ?thesis by (simp add: named_def)
  next
    case False
    with cid nm show ?thesis by simp
  qed
  have nm_cur: "named (chain_id ?s) (current_file ?s)"
    using named_append [OF _ pm(2), of "chain_id ?s" "seal sha r"] nm' id cid by (simp add: written_def)
  have same: "rotated ?s = rotated s" "seg (dir ?s) = seg (dir s)" "max_bytes ?s = max_bytes s" and cur: "current_file ?s \<noteq> None"
    by (simp_all add: written_def)
  have opt: "opt_good sha m (current_file ?s) (last_chain_hash ?s)" 
    unfolding last using opt_good_append [OF pm(2) g] by (simp add: written_def)
  have ids: "last_chain_hash ?s \<noteq> [] \<and> chain_id ?s \<noteq> []" using ne fresh by (simp add: last cid)
  have old: "\<forall>x. sha x \<noteq> []" "\<forall>n \<ge> 2. seg (dir s) n = None" "short_file (rotated s)" using inv by (simp_all add: log_inv_def)
  show ?thesis unfolding log_inv_def same
    by (intro conjI exI [of _ p] exI [of _ m]) (use pm(1,3) opt ids old cur short nm' nm_cur in \<open>simp_all only: if_False simp_thms\<close>)
qed

definition log_step :: "(string \<Rightarrow> string) \<Rightarrow> sys \<Rightarrow> string \<Rightarrow> string \<Rightarrow> string \<Rightarrow> pydict \<Rightarrow> alog \<Rightarrow> alog" where
  "log_step sha y kind trace source payload s = snd (log_reporting_durability sha y kind trace source payload s)"

lemma log_inv_cong:
  "dir s' = dir s \<Longrightarrow> max_bytes s' = max_bytes s \<Longrightarrow> last_chain_hash s' = last_chain_hash s \<Longrightarrow> chain_id s' = chain_id s \<Longrightarrow>
   log_inv sha s' = log_inv sha s"
  by (simp add: log_inv_def)

lemma log_step_eq:
  "log_step sha y kind trace source payload s =
     (if kind \<notin> set VALID_KINDS then s
      else (let s1 = (if is_full s then rotate y s else s);
                created = (current_file s1 = None);
                r = seal sha (chain_record (sys_ts y) kind trace source payload created s1)
            in if \<not> append_ok y then s1 else snd (settle y kind created r (written sha r s1))))"
  by (simp add: log_step_def log_reporting_durability_def written_def Let_def)

lemma chain_inv_log:
  assumes inv: "log_inv sha s" and cl: "clean payload"
    and short: "short_file (current_file (log_step sha y kind trace source payload s))"
  shows "log_inv sha (log_step sha y kind trace source payload s)"
proof -
  define s1 where "s1 = (if is_full s then rotate y s else s)"
  have inv1: "log_inv sha s1" using inv inv_rotate by (simp add: s1_def)
  define r where "r = chain_record (sys_ts y) kind trace source payload (current_file s1 = None) s1"
  show ?thesis
  proof (cases "kind \<in> set VALID_KINDS \<and> append_ok y")
    case True
    then have eq: "log_step sha y kind trace source payload s =
        snd (settle y kind (current_file s1 = None) (seal sha r) (written sha (seal sha r) s1))"
      by (simp add: log_step_eq s1_def r_def Let_def)
    then have "short_file (current_file (written sha (seal sha r) s1))" using short by simp
    from inv_written [OF inv1 cl r_def this] show ?thesis unfolding eq by (simp add: log_inv_def)
  next
    case False
    then have "log_step sha y kind trace source payload s = s \<or> log_step sha y kind trace source payload s = s1"
      by (simp add: log_step_eq s1_def Let_def)
    with inv inv1 show ?thesis by auto
  qed
qed

section \<open>Reading the retained files\<close>

lemma tail_window_covers: "a \<le> sz \<Longrightarrow> a \<le> need \<Longrightarrow> a \<le> 2031616 \<Longrightarrow> a \<le> tail_window sz need"
  by (auto simp: tail_window_def find_Some_iff split: option.split)

lemma last_line_size: "flines f \<noteq> [] \<Longrightarrow> length (line_text (last (flines f))) + 1 \<le> file_size f"
  by (cases "flines f" rule: rev_cases) (simp_all add: file_size_def line_size_def)

lemma seg_last_tidy:
  assumes "tidy f" "short_file (Some f)"
  shows "seg_last_hash f = line_hash (last (flines f))"
proof -
  let ?n = "length (line_text (last (flines f)))"
  have ne: "flines f \<noteq> []" "torn f = None" using assms(1) by (simp_all add: tidy_def)
  then have n: "?n + 1 \<le> file_size f" "?n + 1 \<le> 2031616"
    using last_line_size assms(2) by (auto simp: short_file_def HEAD_MAX_def dest!: bspec [of _ _ "last (flines f)"])
  have "?n + 1 \<le> tail_window (file_size f) (if butlast (flines f) = [] then Suc (file_size f) else ?n + 2)"
    by (rule tail_window_covers) (use n in auto)
  with ne show ?thesis by (simp add: seg_last_hash_def Let_def)
qed

lemma head_row_tidy:
  assumes "opt_good sha p (Some f) q" "short_file (Some f)"
  shows "\<exists>d ls. flines f = Row (PDict d) # ls \<and> head_row f = Some d \<and> text_of (dget d ''chain_prev'') = p"
proof -
  from assms(1) obtain l ls where l: "flines f = l # ls" "good sha p (l # ls) q" by (cases "flines f") (auto simp: opt_good_def tidy_def)
  with good_first obtain d where d: "l = Row (PDict d)" "text_of (dget d ''chain_prev'') = p" by blast
  have "length (line_text l) < HEAD_MAX" using assms(2) l(1) by (simp add: short_file_def)
  then show ?thesis using l(1) d by (simp add: head_row_def)
qed

lemma open_two:
  assumes "\<forall>n \<ge> 2. seg d n = None"
  shows "fst (open_snapshot d) = (case active d of None \<Rightarrow> [] | Some f \<Rightarrow> [f]) @ (case seg d 1 of None \<Rightarrow> [] | Some r \<Rightarrow> [r])"
proof -
  have "segs_from (seg d) 1 (Suc (Suc n)) = (case seg d 1 of None \<Rightarrow> [] | Some r \<Rightarrow> [r])" for n
    using assms by (simp add: numeral_2_eq_2 split: option.split)
  from this [of 14] show ?thesis by (simp add: open_snapshot_def Let_def MAX_SEGMENTS_def eval_nat_numeral)
qed

definition retained :: "adir \<Rightarrow> fline list" where
  "retained d = (case seg d 1 of None \<Rightarrow> [] | Some r \<Rightarrow> flines r) @ (case active d of None \<Rightarrow> [] | Some a \<Rightarrow> flines a)"

text \<open>The reader finds every retained file, knows the chain, and where the oldest record starts.\<close>

lemma read_inv:
  assumes inv: "log_inv sha s"
  obtains p where "good sha p (retained (dir s)) (last_chain_hash s)"
    "\<And>b sy. cv_chain_id (read_chain b sy (dir s)) = chain_id s"
    "\<And>sy. cv_lines (read_chain None sy (dir s)) = retained (dir s)"
    "\<And>b sy. cv_unlinked (read_chain b sy (dir s)) = 0"
    "\<And>b sy. cv_anchored (read_chain b sy (dir s)) = (p \<noteq> [] \<and> retained (dir s) \<noteq> [])"
    "max_bytes s = None \<longrightarrow> p = []"
proof -
  from inv obtain p m where pm: "opt_good sha p (rotated s) m" "opt_good sha m (current_file s) (last_chain_hash s)"
    "max_bytes s = None \<longrightarrow> p = [] \<and> rotated s = None" by (auto simp: log_inv_def)
  have mbp: "max_bytes s = None \<longrightarrow> p = []" using pm(3) by simp
  have segs: "\<forall>n \<ge> 2. seg (dir s) n = None" and sh: "short_file (rotated s)" "short_file (current_file s)"
    and nm: "named (chain_id s) (rotated s)" "named (chain_id s) (current_file s)"
    and none: "rotated s = None \<and> current_file s = None \<Longrightarrow> chain_id s = []"
    using inv by (auto simp: log_inv_def)
  have good: "good sha p (retained (dir s)) (last_chain_hash s)"
    using pm by (auto simp: retained_def opt_good_def good_append split: option.splits)
  have heads: "\<exists>d ls. flines f = Row (PDict d) # ls \<and> head_row f = Some d \<and> d \<noteq> [] \<and> chain_id_of d = chain_id s
      \<and> text_of (dget d ''chain_prev'') = u" if "opt_good sha u (Some f) q" "short_file (Some f)" "named (chain_id s) (Some f)"
      "chain_id s \<noteq> []" for u f q
  proof -
    from head_row_tidy [OF that(1,2)] obtain d ls where d: "flines f = Row (PDict d) # ls" "head_row f = Some d" "text_of (dget d ''chain_prev'') = u" by blast
    moreover have "chain_id_of d = chain_id s" using that(3) d(1) by (auto simp: named_def)
    moreover have "d \<noteq> []" using calculation that(4) by (auto simp: chain_id_of_def dget_Nil text_of_def py_or_def)
    ultimately show ?thesis by blast
  qed
  show thesis
  proof (cases "rotated s")
    case r: None
    show thesis
    proof (cases "current_file s")
      case None
      show thesis
        by (rule that [OF good]) (use None r none mbp in \<open>simp_all add: read_chain_def open_two [OF segs] linked_files_def retained_def Let_def\<close>)
    next
      case (Some a)
      then have "chain_id s \<noteq> []" using inv by (simp add: log_inv_def)
      with heads [of p a "last_chain_hash s"] pm r Some sh nm obtain d ls where
        "flines a = Row (PDict d) # ls" "head_row a = Some d" "d \<noteq> []" "chain_id_of d = chain_id s" "text_of (dget d ''chain_prev'') = p"
        by (auto simp: opt_good_def)
      note d = this
      show thesis
        by (rule that [OF good]) (use Some r d mbp in \<open>simp_all add: read_chain_def open_two [OF segs] linked_files_def retained_def Let_def\<close>)
    qed
  next
    case r: (Some rf)
    then have ci: "chain_id s \<noteq> []" using inv by (simp add: log_inv_def)
    with heads [of p rf m] pm(1) r sh nm obtain d ls where
      d: "flines rf = Row (PDict d) # ls" "head_row rf = Some d" "d \<noteq> []" "chain_id_of d = chain_id s" "text_of (dget d ''chain_prev'') = p"
      by auto
    show thesis
    proof (cases "current_file s")
      case None
      show thesis
        by (rule that [OF good]) (use None r d mbp in \<open>simp_all add: read_chain_def open_two [OF segs] linked_files_def retained_def Let_def\<close>)
    next
      case (Some a)
      with heads [of m a "last_chain_hash s"] pm(2) sh nm ci obtain e ks where
        e: "head_row a = Some e" "text_of (dget e ''chain_prev'') = m" by auto
      have "seg_last_hash rf = m"
        using seg_last_tidy [of rf] pm(1) r sh good_last [of sha p "flines rf" m] by (simp add: opt_good_def tidy_def)
      note m = this
      show thesis
        by (rule that [OF good]) (use Some r d e m mbp in \<open>simp_all add: read_chain_def open_two [OF segs] linked_files_def retained_def Let_def\<close>)
    qed
  qed
qed

section \<open>Steps\<close>

text \<open>
  The calls on a logger and a restart of the process on the same directory. Payloads leave the two
  chain fields to the logger, and records stay below the reader's head window of 1 MiB.
\<close>

inductive log_initial :: "(string \<Rightarrow> string) \<Rightarrow> alog \<Rightarrow> bool" for sha where
  "\<forall>x. sha x \<noteq> [] \<Longrightarrow> init_logger mb 1 \<lparr>active = None, seg = (\<lambda>_. None)\<rparr> = Inr s \<Longrightarrow> log_initial sha s"

inductive audit_step :: "(string \<Rightarrow> string) \<Rightarrow> alog \<Rightarrow> alog \<Rightarrow> bool" for sha where
  audit_log: "clean payload \<Longrightarrow> short_file (current_file (log_step sha y kind trace source payload s)) \<Longrightarrow>
     audit_step sha s (log_step sha y kind trace source payload s)"
| audit_listen: "audit_step sha s (snd (add_durable_listener s))"
| audit_dispatch: "audit_step sha s (snd (dispatch_durable s))"
| audit_restart: "init_logger (map_option int (max_bytes s)) 1 (dir s) = Inr s' \<Longrightarrow> audit_step sha s s'"

lemma restart_reads:
  assumes inv: "log_inv sha s" and re: "init_logger (map_option int (max_bytes s)) 1 (dir s) = Inr s'"
  shows "dir s' = dir s" "max_bytes s' = max_bytes s" "last_chain_hash s' = last_chain_hash s" "chain_id s' = chain_id s"
proof -
  from re have s': "dir s' = dir s" "max_bytes s' = map_option nat (map_option int (max_bytes s))"
      "last_chain_hash s' = read_last_chain_hash (map_option nat (map_option int (max_bytes s))) (dir s)"
      "chain_id s' = (if last_chain_hash s' = [] then [] else cv_chain_id (read_chain (Some 0) None (dir s)))"
    by (auto simp: init_logger_def Let_def split: if_splits)
  show dm: "dir s' = dir s" "max_bytes s' = max_bytes s" using s' by (simp_all add: option.map_comp o_def option.map_ident)
  from inv obtain p m where pm: "opt_good sha p (rotated s) m" "opt_good sha m (current_file s) (last_chain_hash s)"
    "max_bytes s = None \<longrightarrow> p = [] \<and> rotated s = None" by (auto simp: log_inv_def)
  have tidy_read: "all_lines f \<noteq> [] \<and> line_hash (last (all_lines f)) = q \<and> file_size f \<noteq> 0" if "opt_good sha u (Some f) q" for u f q
    using that good_last [of sha u "flines f" q] last_line_size [of f] by (auto simp: opt_good_def tidy_def all_lines_def)
  have "read_last_chain_hash (max_bytes s) (dir s) = last_chain_hash s"
  proof (cases "current_file s")
    case (Some a)
    with tidy_read [of m a "last_chain_hash s"] pm(2) show ?thesis by (simp add: read_last_chain_hash_def)
  next
    case None
    then have m: "m = last_chain_hash s" using pm(2) by (simp add: opt_good_def)
    show ?thesis
    proof (cases "rotated s")
      case None
      with \<open>current_file s = None\<close> inv show ?thesis by (simp add: read_last_chain_hash_def log_inv_def split: if_splits)
    next
      case (Some r)
      with tidy_read [of p r m] pm(1,3) m \<open>current_file s = None\<close> show ?thesis by (auto simp: read_last_chain_hash_def)
    qed
  qed
  with s' dm show lh: "last_chain_hash s' = last_chain_hash s" by (simp add: option.map_comp o_def option.map_ident)
  obtain q where "cv_chain_id (read_chain (Some 0) None (dir s)) = chain_id s" using read_inv [OF inv] by metis
  moreover have "last_chain_hash s = [] \<longrightarrow> chain_id s = []" using inv by (auto simp: log_inv_def split: if_splits)
  ultimately show "chain_id s' = chain_id s" using s' lh by simp
qed

interpretation audit_machine: invariant_system "log_initial sha" "audit_step sha" "log_inv sha" for sha
proof unfold_locales
  show "log_inv sha s" if "log_initial sha s" for s
    using that by cases (auto simp: log_inv_def init_logger_def opt_good_def named_def short_file_def read_last_chain_hash_def Let_def
        split: if_splits)
  show "log_inv sha s'" if "log_inv sha s" "audit_step sha s s'" for s s'
    using that(2)
  proof cases
    case (audit_log payload y kind trace source)
    with that(1) show ?thesis by (simp add: chain_inv_log)
  next
    case audit_listen
    with that(1) show ?thesis by (simp add: add_durable_listener_def log_inv_def)
  next
    case audit_dispatch
    with that(1) log_inv_cong [of "snd (dispatch_durable s)" s sha] show ?thesis by (simp add: dispatch_durable_def split: list.splits)
  next
    case audit_restart
    from restart_reads [OF that(1) this] that(1) show ?thesis by (simp add: log_inv_cong [of s' s])
  qed
qed

section \<open>Hand-off to the listeners\<close>

interpretation dropped_log: bounded_log dropped "\<lambda>_. DURABLE_DROPPED_KEEP" "\<lambda>_ sh. sh" push_dropped
  by unfold_locales (simp_all add: push_dropped_def push_bounded_def)

definition handoff_inv :: "alog \<Rightarrow> bool" where
  "handoff_inv s \<longleftrightarrow> durable_seq s = handed_count s + handoff_dropped_total s
     \<and> handed_count s = delivered_count s + length (handoff s) \<and> length (handoff s) \<le> handoff_max s
     \<and> sorted_wrt (<) (delivered_seq s # map h_seq (handoff s) @ [Suc (durable_seq s)])
     \<and> length (dropped s) \<le> DURABLE_DROPPED_KEEP \<and> length (dropped s) \<le> handoff_dropped_total s"

lemma push_dropped_length: "length (dropped (push_dropped sh s)) \<le> Suc (length (dropped s))"
  by (simp add: push_dropped_def)

lemma push_dropped_simps [simp]:
  "durable_seq (push_dropped sh s) = durable_seq s" "handed_count (push_dropped sh s) = handed_count s"
  "handoff_dropped_total (push_dropped sh s) = handoff_dropped_total s" "delivered_count (push_dropped sh s) = delivered_count s"
  "handoff (push_dropped sh s) = handoff s" "handoff_max (push_dropped sh s) = handoff_max s" "delivered_seq (push_dropped sh s) = delivered_seq s"
  by (simp_all add: push_dropped_def)

lemma handoff_keeps:
  assumes "handoff_inv s"
  shows "handoff_inv (handoff_durable l d h t s)"
proof (cases "listeners s = 0")
  case True
  with assms show ?thesis by (simp add: handoff_durable_def)
next
  case False
  let ?s2 = "s\<lparr>durable_seq := Suc (durable_seq s), handoff_dropped_total := Suc (handoff_dropped_total s)\<rparr>"
  show ?thesis
  proof (cases "handoff_max s \<le> length (handoff s)")
    case True
    have small: "length (dropped s) \<le> DURABLE_DROPPED_KEEP" "length (dropped s) \<le> handoff_dropped_total s"
      using assms by (simp_all add: handoff_inv_def)
    have "length (dropped (push_dropped (Suc (durable_seq s), h) ?s2)) \<le> DURABLE_DROPPED_KEEP"
      using dropped_log.push_keeps_bound [of ?s2] small(1) by simp
    moreover have "length (dropped (push_dropped (Suc (durable_seq s), h) ?s2)) \<le> Suc (handoff_dropped_total s)"
      using push_dropped_length [of "(Suc (durable_seq s), h)" ?s2] small(2) by simp
    ultimately show ?thesis
      using True False assms
      by (auto simp: handoff_durable_def Let_def handoff_inv_def sorted_wrt_append intro: less_SucI)
  next
    case nf: False
    with False assms show ?thesis
      by (auto simp: handoff_durable_def Let_def handoff_inv_def sorted_wrt_append intro: less_SucI)
  qed
qed

lemma handoff_cong:
  "durable_seq s' = durable_seq s \<Longrightarrow> handed_count s' = handed_count s \<Longrightarrow> handoff_dropped_total s' = handoff_dropped_total s \<Longrightarrow>
   delivered_count s' = delivered_count s \<Longrightarrow> handoff s' = handoff s \<Longrightarrow> handoff_max s' = handoff_max s \<Longrightarrow>
   delivered_seq s' = delivered_seq s \<Longrightarrow> dropped s' = dropped s \<Longrightarrow> handoff_inv s' = handoff_inv s"
  by (simp add: handoff_inv_def)

lemma handoff_settle: "handoff_inv s \<Longrightarrow> handoff_inv (snd (settle y kind created r s))"
  using handoff_cong [of "s\<lparr>fsync_unsupported_count := _\<rparr>" s] by (auto simp: settle_def intro!: handoff_keeps split: sync.split)

lemma handoff_log: "handoff_inv s \<Longrightarrow> handoff_inv (log_step sha y kind trace source payload s)"
proof -
  assume inv: "handoff_inv s"
  have rot: "handoff_inv (rotate y s)" using inv handoff_cong [of "rotate y s" s] by (simp add: rotate_def)
  have wr: "handoff_inv (written sha r u)" if "handoff_inv u" for r u
    using that handoff_cong [of "written sha r u" u] by (simp add: written_def)
  show ?thesis
    using inv rot by (auto simp: log_step_eq Let_def intro!: handoff_settle wr)
qed

lemma handoff_dispatch: "handoff_inv s \<Longrightarrow> handoff_inv (snd (dispatch_durable s))"
  by (auto simp: dispatch_durable_def handoff_inv_def split: list.split)

interpretation handoff_machine: invariant_system "log_initial sha" "audit_step sha" handoff_inv for sha
proof unfold_locales
  have init: "handoff_inv s" if "init_logger mb k d = Inr s" for mb k d s
    using that by (auto simp: init_logger_def handoff_inv_def Let_def split: if_splits)
  show "handoff_inv s" if "log_initial sha s" for s
    using that by cases (rule init)
  show "handoff_inv s'" if "handoff_inv s" "audit_step sha s s'" for s s'
    using that(2)
  proof cases
    case audit_listen
    with that(1) handoff_cong [of s' s] show ?thesis by (simp add: add_durable_listener_def)
  qed (use that(1) init in \<open>auto intro: handoff_log handoff_dispatch\<close>)
qed

section \<open>Two chains with one last hash\<close>

text \<open>An idealised SHA-256: no two texts collide and no digest is empty.\<close>

definition ideal_digest :: "(string \<Rightarrow> string) \<Rightarrow> bool" where
  "ideal_digest sha \<longleftrightarrow> (\<forall>x y. sha x = sha y \<longrightarrow> x = y) \<and> (\<forall>x. sha x \<noteq> [])"

text \<open>A row as the JSON parser returns it, with a text as its link.\<close>

definition proper_row :: "fline \<Rightarrow> bool" where
  "proper_row l \<longleftrightarrow> (\<exists>d. l = Row (PDict d) \<and> distinct (map fst d) \<and> wf_json (PDict d) \<and> is_text (dget d ''chain_prev''))"

text \<open>The content of a row that its hash covers: keys, texts and tokens, whatever the order of the keys.\<close>

definition content :: "fline \<Rightarrow> jtree" where
  "content l = (case line_dict l of None \<Rightarrow> JAtom [] | Some d \<Rightarrow> jtree_of (sort_keys (PDict (AList.delete ''chain_hash'' d))))"

lemma wf_delete: "wf_json (PDict d) \<Longrightarrow> wf_json (PDict (AList.delete k d))"
  by (auto simp: list_all_iff AList.delete_eq)

lemma one_row:
  assumes ideal: "ideal_digest sha" and x: "good sha m [x] q" "proper_row x" and y: "good sha m' [y] q" "proper_row y"
  shows "content x = content y \<and> m = m'"
proof -
  from x obtain d where d: "x = Row (PDict d)" "text_of (dget d ''chain_prev'') = m"
    "compute_chain_hash sha (AList.delete ''chain_hash'' d) = q" by (auto simp: line_dict_Some split: option.splits)
  from y obtain e where e: "y = Row (PDict e)" "text_of (dget e ''chain_prev'') = m'"
    "compute_chain_hash sha (AList.delete ''chain_hash'' e) = q" by (auto simp: line_dict_Some split: option.splits)
  let ?d = "AList.delete ''chain_hash'' d" and ?e = "AList.delete ''chain_hash'' e"
  have "json_dumps (PDict ?d) = json_dumps (PDict ?e)" using ideal d(3) e(3) by (simp add: ideal_digest_def compute_chain_hash_def)
  moreover have "wf_json (PDict ?d)" "wf_json (PDict ?e)" "distinct (map fst ?d)" "distinct (map fst ?e)"
    using x(2) y(2) d(1) e(1) wf_delete distinct_delete_keys by (auto simp: proper_row_def simp del: wf_json.simps)
  ultimately have tree: "jtree_of (sort_keys (PDict ?d)) = jtree_of (sort_keys (PDict ?e))" "distinct (map fst ?d)" "distinct (map fst ?e)"
    using json_dumps_tree by blast+
  obtain s where s: "dget d ''chain_prev'' = PStr s" using x(2) d(1) by (cases "dget d ''chain_prev''") (auto simp: proper_row_def)
  then have "dget ?d ''chain_prev'' = PStr s" by (simp add: dget_def map_of_delete)
  with tree_text [OF tree] have "dget ?e ''chain_prev'' = PStr s" by blast
  then have "dget e ''chain_prev'' = PStr s" by (simp add: dget_def map_of_delete)
  with s d e tree(1) show ?thesis by (simp add: content_def)
qed

lemma good_hash_nonempty:
  assumes "ideal_digest sha" "good sha p ls q" "ls \<noteq> []"
  shows "q \<noteq> []"
proof -
  from assms(3) obtain a l where l: "ls = a @ [l]" by (cases ls rule: rev_cases) auto
  with assms(2) obtain m where "good sha m [l] q" by (auto simp: good_append simp del: good.simps(2))
  then have "\<exists>x. q = sha x" by (auto simp: compute_chain_hash_def split: option.splits)
  with assms(1) show ?thesis by (auto simp: ideal_digest_def)
qed

lemma same_content:
  assumes ideal: "ideal_digest sha"
  shows "good sha [] ls q \<Longrightarrow> good sha [] ls' q \<Longrightarrow> \<forall>l \<in> set ls \<union> set ls'. proper_row l \<Longrightarrow> ls \<noteq> [] \<Longrightarrow> ls' \<noteq> [] \<Longrightarrow> map content ls = map content ls'"
proof (induction ls arbitrary: ls' q rule: rev_induct)
  case (snoc x xs)
  from snoc.prems(5) obtain ys y where ls': "ls' = ys @ [y]" by (cases ls' rule: rev_cases) auto
  from snoc.prems(1) obtain m where m: "good sha [] xs m" "good sha m [x] q" by (auto simp: good_append simp del: good.simps(2))
  from snoc.prems(2) ls' obtain m' where m': "good sha [] ys m'" "good sha m' [y] q" by (auto simp: good_append simp del: good.simps(2))
  have xy: "content x = content y" "m = m'" using one_row [OF ideal m(2) _ m'(2)] snoc.prems(3) ls' by auto
  have "xs = [] \<longleftrightarrow> ys = []"
    using good_hash_nonempty [OF ideal m(1)] good_hash_nonempty [OF ideal m'(1)] m m' xy by (cases xs; cases ys) auto
  then have "map content xs = map content ys"
    using snoc.IH [OF m(1), of ys] m'(1) xy snoc.prems(3) ls' by (cases "xs = []") auto
  with xy ls' show ?case by simp
qed simp

section \<open>Properties\<close>

definition ex_dir :: adir where "ex_dir = \<lparr>active = None, seg = (\<lambda>_. None)\<rparr>"
definition ex_sys :: sys where
  "ex_sys = \<lparr>sys_ts = ''t'', sys_stamp = 0, unlink_ok = True, replace_ok = True, append_ok = True, sync_file = Synced, sync_dir = Synced\<rparr>"
definition ex_hash :: "string \<Rightarrow> string" where "ex_hash x = ''h''"
definition ex_log0 :: alog where
  "ex_log0 = \<lparr>dir = ex_dir, max_bytes = Some 1, last_chain_hash = [], chain_id = [], rotated_total = 0, rotate_failed_total = 0,
     fsync_unsupported_count = 0, listeners = 0, handoff = [], handoff_max = DURABLE_HANDOFF_MAX, durable_seq = 0, handed_count = 0,
     delivered_seq = 0, delivered_count = 0, handoff_dropped_total = 0, dropped = []\<rparr>"
definition ex_log1 :: alog where "ex_log1 = log_step ex_hash ex_sys ''evaluation'' ''t1'' ''core'' [] ex_log0"
definition ex_log2 :: alog where "ex_log2 = log_step ex_hash ex_sys ''evaluation'' ''t2'' ''core'' [] ex_log1"

definition ex_rec :: "string \<Rightarrow> pydict \<Rightarrow> pydict" where
  "ex_rec tr rest = [(''ts'', PStr ''t''), (''kind'', PStr ''evaluation''), (''trace_id'', PStr tr), (''source'', PStr ''core'')] @ rest"

lemma ex_log0_init: "log_initial ex_hash ex_log0"
  by (rule log_initial.intros [of _ "Some 1"])
     (simp_all add: ex_hash_def ex_log0_def init_logger_def ex_dir_def read_last_chain_hash_def Let_def)

lemma log_plain:
  assumes "kind \<in> set VALID_KINDS" "kind \<notin> set DURABLE_KINDS" "append_ok y"
  shows "log_step sha y kind trace source payload s =
    (let s1 = (if is_full s then rotate y s else s)
     in written sha (seal sha (chain_record (sys_ts y) kind trace source payload (current_file s1 = None) s1)) s1)"
  using assms by (simp add: log_step_eq settle_def Let_def)

lemma ex_log1_fields:
  "current_file ex_log1 = Some \<lparr>flines = [Row (PDict (ex_rec ''t1'' [(''chain_prev'', PStr []), (''chain_hash'', PStr ''h'')]))], torn = None\<rparr>"
  "seg (dir ex_log1) = (\<lambda>_. None)" "last_chain_hash ex_log1 = ''h''" "chain_id ex_log1 = ''h''" "max_bytes ex_log1 = Some 1"
proof -
  have eq: "ex_log1 = written ex_hash (ex_rec ''t1'' [(''chain_prev'', PStr []), (''chain_hash'', PStr ''h'')]) ex_log0"
    unfolding ex_log1_def
    by (subst log_plain)
       (simp_all add: VALID_KINDS_def DURABLE_KINDS_def ex_sys_def Let_def is_full_def ex_log0_def ex_dir_def chain_record_def seal_def
         dupdate_simps compute_chain_hash_def ex_hash_def ex_rec_def)
  show "current_file ex_log1 = Some \<lparr>flines = [Row (PDict (ex_rec ''t1'' [(''chain_prev'', PStr []), (''chain_hash'', PStr ''h'')]))], torn = None\<rparr>"
    "seg (dir ex_log1) = (\<lambda>_. None)" "last_chain_hash ex_log1 = ''h''" "chain_id ex_log1 = ''h''" "max_bytes ex_log1 = Some 1"
    unfolding eq by (simp_all add: written_def ex_log0_def ex_dir_def append_line_def ex_rec_def dget_Cons chain_id_of_def dget_Nil)
qed

lemma ex_log2_fields:
  "current_file ex_log2 = Some \<lparr>flines = [Row (PDict (ex_rec ''t2'' [(''chain_prev'', PStr ''h''), (''chain_id'', PStr ''h''), (''chain_hash'', PStr ''h'')]))], torn = None\<rparr>"
  "rotated ex_log2 = current_file ex_log1"
proof -
  have full: "is_full ex_log1" by (simp add: is_full_def ex_log1_fields file_size_def line_size_def)
  have eq: "ex_log2 = written ex_hash (ex_rec ''t2'' [(''chain_prev'', PStr ''h''), (''chain_id'', PStr ''h''), (''chain_hash'', PStr ''h'')])
      (rotate ex_sys ex_log1)"
    unfolding ex_log2_def
    by (subst log_plain)
       (simp_all add: VALID_KINDS_def DURABLE_KINDS_def ex_sys_def Let_def full rotate_def ex_log1_fields chain_record_def seal_def
         dupdate_simps compute_chain_hash_def ex_hash_def ex_rec_def)
  show "current_file ex_log2 = Some \<lparr>flines = [Row (PDict (ex_rec ''t2'' [(''chain_prev'', PStr ''h''), (''chain_id'', PStr ''h''), (''chain_hash'', PStr ''h'')]))], torn = None\<rparr>"
    "rotated ex_log2 = current_file ex_log1"
    unfolding eq by (simp_all add: written_def rotate_def ex_sys_def append_line_def)
qed

lemma ex_short: "short_file (current_file ex_log1)" "short_file (current_file ex_log2)"
  unfolding short_file_def ex_log1_fields ex_log2_fields
  by (simp_all add: ex_rec_def HEAD_MAX_def order_le_less_trans [OF json_text_length] del: json_text.simps)

lemma ex_reach1: "reach (log_initial ex_hash) (audit_step ex_hash) ex_log1" "reach (log_initial ex_hash) (audit_step ex_hash) ex_log2"
proof -
  have "reach (log_initial ex_hash) (audit_step ex_hash) ex_log0" using ex_log0_init by (rule reach_init)
  then show one: "reach (log_initial ex_hash) (audit_step ex_hash) ex_log1"
    by (rule reach_step) (auto simp: ex_log1_def clean_def has_key_def ex_short(1) [unfolded ex_log1_def] intro!: audit_log)
  show "reach (log_initial ex_hash) (audit_step ex_hash) ex_log2"
    by (rule reach_step [OF one]) (auto simp: ex_log2_def clean_def has_key_def ex_short(2) [unfolded ex_log2_def] intro!: audit_log)
qed



text \<open>A process that stops at any point of a rotation (before it, after the old \<open>.1\<close> was removed, after the active
  file was renamed) and starts again on the same directory continues the same chain from the same last record.\<close>
theorem rotation_never_restarts_the_chain:
  assumes "reach (log_initial sha) (audit_step sha) s" and "is_full s"
    and "init_logger (map_option int (max_bytes s)) 1 (dir (rotate y s)) = Inr s'"
  shows "last_chain_hash s' = last_chain_hash s \<and> chain_id s' = chain_id s"
proof -
  have inv: "log_inv sha s" using audit_machine.reach_inv [OF assms(1)] .
  have "max_bytes (rotate y s) = max_bytes s" "last_chain_hash (rotate y s) = last_chain_hash s" "chain_id (rotate y s) = chain_id s"
    by (simp_all add: rotate_def)
  with restart_reads(3,4) [OF inv_rotate [OF inv assms(2), of y], of s'] assms(3) show ?thesis by simp
qed

theorem rotation_never_restarts_the_chain_witness:
  "\<exists>s'. init_logger (Some 1) 1 (dir (rotate ex_sys ex_log1)) = Inr s' \<and> last_chain_hash s' = ''h''"
proof -
  have full: "is_full ex_log1" by (simp add: is_full_def ex_log1_fields file_size_def line_size_def)
  obtain s' where s': "init_logger (Some 1) 1 (dir (rotate ex_sys ex_log1)) = Inr s'" by (simp add: init_logger_def Let_def)
  with rotation_never_restarts_the_chain [OF ex_reach1(1) full, of ex_sys s'] show ?thesis by (simp add: ex_log1_fields)
qed

text \<open>C2. With a collision-free digest, two verified chains that end in the same hash hold the same records: no record of a
  chain can be edited, inserted, removed or moved while its last hash is known.\<close>
theorem tampering_is_evident:
  assumes "ideal_digest sha" and "\<forall>l \<in> set ls \<union> set ls'. proper_row l" and "ls \<noteq> []" and "ls' \<noteq> []"
    and "verify_lines sha ls [] = Inr v" and "v_ok v" and "verify_lines sha ls' [] = Inr v'" and "v_ok v'"
    and "line_hash (last ls) = line_hash (last ls')"
  shows "map content ls = map content ls'"
proof -
  obtain q where q: "good sha [] ls q" using good_verify [of sha 0 "[]" ls v] assms(5,6) by (auto simp: verify_lines_def)
  obtain q' where q': "good sha [] ls' q'" using good_verify [of sha 0 "[]" ls' v'] assms(7,8) by (auto simp: verify_lines_def)
  have "q = q'" using good_last [OF q assms(3)] good_last [OF q' assms(4)] assms(9) by simp
  with same_content [OF assms(1) q _ assms(2-4)] q' show ?thesis by simp
qed

definition ex_digest_fun :: "string \<Rightarrow> string" where "ex_digest_fun x = CHR ''h'' # x"

definition ex_row :: "string \<Rightarrow> fline" where
  "ex_row tr = Row (PDict (seal ex_digest_fun [(''trace_id'', PStr tr), (''chain_prev'', PStr [])]))"

theorem tampering_is_evident_witness: "line_hash (ex_row ''a'') \<noteq> line_hash (ex_row ''b'')"
proof
  assume same: "line_hash (ex_row ''a'') = line_hash (ex_row ''b'')"
  have good: "good ex_digest_fun [] [ex_row tr] (compute_chain_hash ex_digest_fun [(''trace_id'', PStr tr), (''chain_prev'', PStr [])])" for tr
    unfolding ex_row_def by (rule sealed_good) (simp_all add: dget_Cons)
  have ver: "verify_lines ex_digest_fun [ex_row tr] [] = Inr \<lparr>v_ok = True, v_entries = 1, v_error = []\<rparr>" for tr
    using verify_good [OF good, of 0] by (simp add: verify_lines_def)
  have ideal: "ideal_digest ex_digest_fun" by (simp add: ideal_digest_def ex_digest_fun_def)
  have proper: "\<forall>l \<in> set [ex_row ''a''] \<union> set [ex_row ''b'']. proper_row l"
    by (simp add: ex_row_def proper_row_def seal_def dget_Cons)
  have "map content [ex_row ''a''] = map content [ex_row ''b'']"
    using tampering_is_evident [OF ideal proper _ _ ver _ ver] same by simp
  moreover have "content (ex_row ''a'') \<noteq> content (ex_row ''b'')" by (simp add: content_def ex_row_def seal_def)
  ultimately show False by simp
qed

text \<open>Every record of a durable kind reaches the listeners or is counted: records written while listeners are
  registered are numbered without gaps, each is handed on or counted as dropped, nothing handed on is lost before
  delivery, delivery follows the numbers, and the queues stay within their bounds.\<close>
theorem durable_handoff_is_accounted:
  assumes "reach (log_initial sha) (audit_step sha) s"
  shows "durable_seq s = delivered_count s + length (handoff s) + handoff_dropped_total s
    \<and> length (handoff s) \<le> handoff_max s \<and> length (dropped s) \<le> DURABLE_DROPPED_KEEP
    \<and> sorted_wrt (<) (delivered_seq s # map h_seq (handoff s) @ [Suc (durable_seq s)])"
  using handoff_machine.reach_inv [OF assms] unfolding handoff_inv_def
  by (elim conjE, intro conjI) (arith | assumption)+

theorem durable_handoff_is_accounted_witness:
  "\<exists>s. reach (log_initial ex_hash) (audit_step ex_hash) s \<and> listeners s = 1 \<and> durable_seq s = delivered_count s + length (handoff s) + handoff_dropped_total s"
proof -
  have "reach (log_initial ex_hash) (audit_step ex_hash) ex_log0" using ex_log0_init by (rule reach_init)
  then have r: "reach (log_initial ex_hash) (audit_step ex_hash) (snd (add_durable_listener ex_log0))"
    using audit_listen by (rule reach_step)
  with durable_handoff_is_accounted [OF r] show ?thesis
    by (intro exI [of _ "snd (add_durable_listener ex_log0)"]) (simp add: add_durable_listener_def ex_log0_def)
qed

lemma verify_append: "good sha p ls q \<Longrightarrow> verify_from sha n p (ls @ ls') = verify_from sha (n + length ls) q ls'"
  by (induction ls arbitrary: n p) (auto simp: line_dict_Some split: option.splits)

lemma append_line_tidy: "f = None \<or> torn (the f) = None \<Longrightarrow> last (flines (append_line v f)) = Row v"
  by (auto simp: append_line_def split: option.splits)



text \<open>A write cut off in the middle of a line is not recovered: the next logger starts over with an empty
  \<open>chain_prev\<close>, its first record continues the cut line, and verifying the file then raises.\<close>
theorem torn_write_restarts_the_chain:
  assumes "torn f = Some (Junk t)" and "t \<noteq> []" and "verify_lines sha (flines f) [] = Inr v" and "v_ok v"
    and "init_logger None 1 \<lparr>active = Some f, seg = sg\<rparr> = Inr s" and "kind \<in> set VALID_KINDS" and "append_ok y"
  shows "last_chain_hash s = [] \<and> verify_chain sha (active (dir (log_step sha y kind trace source payload s))) = Inl (ValueError [])"
proof -
  from assms(5) have s: "dir s = \<lparr>active = Some f, seg = sg\<rparr>" "max_bytes s = None" "last_chain_hash s = read_last_chain_hash None \<lparr>active = Some f, seg = sg\<rparr>"
    by (auto simp: init_logger_def Let_def)
  have "file_size f \<noteq> 0" using assms(1,2) by (simp add: file_size_def torn_size_def)
  then have lh: "last_chain_hash s = []" using s(3) assms(1) by (simp add: read_last_chain_hash_def all_lines_def line_hash_def)
  obtain r where act: "active (dir (log_step sha y kind trace source payload s)) = Some (append_line (PDict r) (Some f))"
    using assms(6,7) s by (simp add: log_step_eq Let_def is_full_def written_def)
  obtain q where q: "good sha [] (flines f) q" using good_verify [of sha 0 "[]" "flines f" v] assms(3,4) by (auto simp: verify_lines_def)
  have "verify_chain sha (active (dir (log_step sha y kind trace source payload s))) =
      verify_from sha 0 [] (flines f @ [Junk (t @ json_text (PDict r))])"
    unfolding act using assms(1) by (simp add: verify_chain_def verify_lines_def append_line_def all_lines_def)
  then show ?thesis using verify_append [OF q, of 0] lh by simp
qed

theorem torn_write_restarts_the_chain_witness:
  "verify_chain ex_hash (active (dir (log_step ex_hash ex_sys ''evaluation'' ''t'' ''core'' []
     (ex_log0\<lparr>dir := \<lparr>active = Some \<lparr>flines = [], torn = Some (Junk ''x'')\<rparr>, seg = (\<lambda>_. None)\<rparr>, max_bytes := None\<rparr>)))) = Inl (ValueError [])"
proof -
  have "init_logger None 1 \<lparr>active = Some \<lparr>flines = [], torn = Some (Junk ''x'')\<rparr>, seg = (\<lambda>_. None)\<rparr> =
      Inr (ex_log0\<lparr>dir := \<lparr>active = Some \<lparr>flines = [], torn = Some (Junk ''x'')\<rparr>, seg = (\<lambda>_. None)\<rparr>, max_bytes := None\<rparr>)"
    by (simp add: init_logger_def Let_def ex_log0_def read_last_chain_hash_def file_size_def torn_size_def all_lines_def line_hash_def)
  from torn_write_restarts_the_chain [OF _ _ _ _ this, of "''x''" ex_hash _ "''evaluation''" ex_sys] show ?thesis
    by (simp add: verify_lines_def VALID_KINDS_def ex_sys_def)
qed

text \<open>A caller's payload can break the chain: a field named \<open>chain_prev\<close> replaces the logger's own link, and the
  record that was written does not verify.\<close>
theorem payload_can_break_the_chain:
  assumes "reach (log_initial sha) (audit_step sha) s" and "max_bytes s = None" and "kind \<in> set VALID_KINDS" and "append_ok y"
    and "x \<noteq> last_chain_hash s"
  shows "verify_chain sha (active (dir (log_step sha y kind trace source [(''chain_prev'', PStr x)] s))) =
    Inr \<lparr>v_ok = False, v_entries = length (retained (dir s)), v_error = ''chain_prev_mismatch_at:'' @ nat_str (Suc (length (retained (dir s))))\<rparr>"
proof -
  have inv: "log_inv sha s" using audit_machine.reach_inv [OF assms(1)] .
  from inv assms(2) have good: "opt_good sha [] (current_file s) (last_chain_hash s)" and rot: "rotated s = None"
    by (auto simp: log_inv_def opt_good_def)
  let ?r = "seal sha (chain_record (sys_ts y) kind trace source [(''chain_prev'', PStr x)] (current_file s = None) s)"
  have act: "active (dir (log_step sha y kind trace source [(''chain_prev'', PStr x)] s)) = Some (append_line (PDict ?r) (current_file s))"
    using assms(2-4) by (simp add: log_step_eq Let_def is_full_def written_def)
  have prev: "dget ?r ''chain_prev'' = PStr x"
    using assms(2) by (simp add: seal_def chain_record_def Let_def dget_update) (simp add: dget_def map_of_delete map_of_dupdate)
  let ?ls = "case current_file s of None \<Rightarrow> [] | Some f \<Rightarrow> flines f"
  have lines: "all_lines (append_line (PDict ?r) (current_file s)) = ?ls @ [Row (PDict ?r)]"
    using good by (auto simp: all_lines_def append_line_def opt_good_def tidy_def split: option.splits)
  have g: "good sha [] ?ls (last_chain_hash s)" using good by (auto simp: opt_good_def split: option.splits)
  have "retained (dir s) = ?ls" using rot by (simp add: retained_def)
  then show ?thesis
    unfolding act verify_chain_def option.case verify_lines_def lines verify_append [OF g]
    using prev assms(5) by simp
qed

theorem payload_can_break_the_chain_witness:
  "\<exists>s. last_chain_hash s = [] \<and> verify_chain ex_hash (active (dir (log_step ex_hash ex_sys ''evaluation'' ''t'' ''core'' [(''chain_prev'', PStr ''x'')] s)))
     = Inr \<lparr>v_ok = False, v_entries = 0, v_error = ''chain_prev_mismatch_at:'' @ nat_str 1\<rparr>"
proof -
  let ?s = "ex_log0\<lparr>max_bytes := None\<rparr>"
  have "log_initial ex_hash ?s"
    by (rule log_initial.intros [of _ None])
       (simp_all add: ex_hash_def ex_log0_def init_logger_def ex_dir_def read_last_chain_hash_def Let_def)
  then have "reach (log_initial ex_hash) (audit_step ex_hash) ?s" by (rule reach_init)
  from payload_can_break_the_chain [OF this, of "''evaluation''" ex_sys "''x''" "''t''" "''core''"] show ?thesis
    by (intro exI [of _ ?s]) (simp add: VALID_KINDS_def ex_sys_def ex_log0_def ex_dir_def retained_def)
qed

end
