(* ===== verification/Broker.thy ===== *)
theory Broker
  imports Json
begin

text \<open>
  The capability broker (\<open>py/azazel_edge/mio/broker.py\<close>): registration, request validation, the
  sanitising of handler results and the audit record. Admission, worker accounting and their
  interleavings are in \<open>BrokerPool\<close>.

  The parameters are collected in \<open>benv\<close>: the keyed digest (\<open>hmac\<close> under the per-process key), the
  identifier grammar \<open>id_ok\<close> on a string (\<open>id_grammar.py\<close>), the conversion of a time to and from ISO text
  (\<open>datetime\<close>) and the clock readings of one call. A handler is a function from the arguments to what
  it returns or raises. Values are JSON values: a key that is no string, a tuple, an object of another
  class do not occur; \<open>rq_exact\<close> says whether the request object has the exact request type.
\<close>

section \<open>Text classes\<close>

definition NAME_RE :: "string \<Rightarrow> bool" where
  "NAME_RE s = (s \<noteq> [] \<and> is_lower (hd s) \<and> list_all (\<lambda>c. is_lower c \<or> is_digit c \<or> c = CHR ''_'') (tl s)
     \<and> 2 \<le> length (tl s) \<and> length (tl s) \<le> 63)"

definition PARAM_NAME_RE :: "string \<Rightarrow> bool" where
  "PARAM_NAME_RE s = (s \<noteq> [] \<and> is_lower (hd s) \<and> list_all (\<lambda>c. is_lower c \<or> is_digit c \<or> c = CHR ''_'') (tl s)
     \<and> length (tl s) \<le> 31)"

definition is_alnum :: "char \<Rightarrow> bool" where
  "is_alnum c = (is_lower c \<or> is_upper c \<or> is_digit c)"

definition IDENT_RE :: "string \<Rightarrow> bool" where
  "IDENT_RE s = (s \<noteq> [] \<and> is_alnum (hd s) \<and> list_all (\<lambda>c. is_alnum c \<or> c \<in> set '':._@#+=-'') (tl s) \<and> length (tl s) \<le> 127)"

definition text_forbidden :: "char \<Rightarrow> bool" where
  "text_forbidden c = (let n = of_char c :: nat in n \<le> 8 \<or> (11 \<le> n \<and> n \<le> 31) \<or> (127 \<le> n \<and> n \<le> 159))"

definition id_forbidden :: "char \<Rightarrow> bool" where
  "id_forbidden c = (let n = of_char c :: nat in n \<le> 31 \<or> (127 \<le> n \<and> n \<le> 159))"

definition REASON_RE :: "string \<Rightarrow> bool" where
  "REASON_RE s =
     (case split_on (CHR '':'') s of
        [] \<Rightarrow> False
      | w # ws \<Rightarrow> w \<noteq> [] \<and> is_lower (hd w) \<and> list_all (\<lambda>c. is_lower c \<or> is_digit c \<or> c = CHR ''_'') (tl w) \<and> length (tl w) \<le> 63
          \<and> length ws \<le> 2 \<and> list_all (\<lambda>u. u \<noteq> [] \<and> length u \<le> 64 \<and> list_all is_word u) ws)"

section \<open>The registry\<close>

datatype cap_status = OK | UNAVAILABLE | TIMEOUT | STALE | REJECTED | INVALID | TRUNCATED | ERROR

fun cap_status_value :: "cap_status \<Rightarrow> string" where
  "cap_status_value OK = ''ok''"
| "cap_status_value UNAVAILABLE = ''unavailable''"
| "cap_status_value TIMEOUT = ''timeout''"
| "cap_status_value STALE = ''stale''"
| "cap_status_value REJECTED = ''rejected''"
| "cap_status_value INVALID = ''invalid''"
| "cap_status_value TRUNCATED = ''truncated''"
| "cap_status_value ERROR = ''error''"

definition REFUSAL_STATUSES :: "cap_status list" where "REFUSAL_STATUSES = [REJECTED, INVALID]"

definition FORBIDDEN_NAME_TOKENS :: "string list" where
  "FORBIDDEN_NAME_TOKENS =
     [''run'', ''sh'', ''cmd'', ''eval'', ''put'', ''post'', ''patch'', ''rm'', ''set'', ''update'', ''create'',
      ''apply'', ''save'', ''store'', ''open'', ''file'', ''files'', ''kill'', ''block'', ''tc'', ''nft'',
      ''action'', ''act'', ''send'', ''exe'']"

definition FORBIDDEN_NAME_STEMS :: "string list" where
  "FORBIDDEN_NAME_STEMS =
     [''exec'', ''shell'', ''bash'', ''spawn'', ''command'', ''write'', ''delete'', ''remove'', ''upload'', ''download'',
      ''modif'', ''mutat'', ''commit'', ''http'', ''url'', ''fetch'', ''socket'', ''connect'', ''curl'', ''wget'',
      ''filesystem'', ''filename'', ''filepath'', ''path'', ''docker'', ''container'', ''enforce'', ''isolat'',
      ''redirect'', ''throttl'', ''quarantin'', ''firewall'', ''iptables'', ''nftables'', ''arbiter'', ''approv'',
      ''transition'', ''activat'', ''deploy'', ''trigger'', ''control'', ''az06'', ''decoy'']"

definition FORBIDDEN_PARAM_TOKENS :: "string list" where
  "FORBIDDEN_PARAM_TOKENS = [''uri'', ''port'', ''code'', ''args'', ''argv'', ''dir'', ''dest'', ''to'']"

definition FORBIDDEN_PARAM_STEMS :: "string list" where
  "FORBIDDEN_PARAM_STEMS =
     [''path'', ''file'', ''url'', ''host'', ''cmd'', ''command'', ''script'', ''shell'', ''exec'', ''endpoint'', ''socket'',
      ''folder'', ''target'']"

definition RESERVED_RESULT_KEYS :: "string list" where
  "RESERVED_RESULT_KEYS =
     [''source_component'', ''provenance'', ''status'', ''retrieved_at'', ''freshness'', ''trust'',
      ''age_seconds'', ''ok'', ''executable'', ''authority'', ''approved'', ''approval'', ''trusted'']"

definition MAX_RESULT_DEPTH :: nat where "MAX_RESULT_DEPTH = 4"
definition MAX_RESULT_NODES :: nat where "MAX_RESULT_NODES = 2048"
definition MAX_EVIDENCE_REFS :: nat where "MAX_EVIDENCE_REFS = 32"
definition MAX_AUDIT_RECORD_CHARS :: nat where "MAX_AUDIT_RECORD_CHARS = 2048"
definition MAX_PURPOSE_HYPOTHESIS_IDS :: nat where "MAX_PURPOSE_HYPOTHESIS_IDS = 8"
definition FUTURE_SKEW_SECONDS :: rat where "FUTURE_SKEW_SECONDS = 60"

datatype pkind = Text | Identifier | Integer | Boolean

fun pkind_value :: "pkind \<Rightarrow> string" where
  "pkind_value Text = ''text''"
| "pkind_value Identifier = ''identifier''"
| "pkind_value Integer = ''integer''"
| "pkind_value Boolean = ''boolean''"

record pspec =
  p_kind :: pkind
  p_max_length :: int
  p_required :: bool
  p_minimum :: int
  p_maximum :: int

definition param_spec :: "string \<Rightarrow> int \<Rightarrow> bool \<Rightarrow> int \<Rightarrow> int \<Rightarrow> pyexc + pspec" where
  "param_spec kind max_length required minimum maximum =
     (case find (\<lambda>k. pkind_value k = kind) [Text, Identifier, Integer, Boolean] of
        None \<Rightarrow> Inl (RuntimeError (''invalid_param_kind:'' @ kind))
      | Some k \<Rightarrow> Inr \<lparr>p_kind = k, p_max_length = max_length, p_required = required, p_minimum = minimum, p_maximum = maximum\<rparr>)"

definition DEFAULT_PARAMS :: "(string \<times> pspec) list" where
  "DEFAULT_PARAMS =
     [(''question'', \<lparr>p_kind = Text, p_max_length = 300, p_required = False, p_minimum = 0, p_maximum = 10000\<rparr>),
      (''frame_id'', \<lparr>p_kind = Identifier, p_max_length = 96, p_required = False, p_minimum = 0, p_maximum = 10000\<rparr>)]"

text \<open>What a handler returns or raises: data, \<open>CapabilityUnavailable\<close>, another exception by its class name.\<close>

datatype hout = Returned pyval | Unavailable | Raised string

record cspec =
  handler :: "pydict \<Rightarrow> hout"
  max_calls_per_cycle :: int
  max_result_chars :: int
  params :: "(string \<times> pspec) list"
  timeout_seconds :: rat
  max_concurrency :: int
  spec_max_age :: "int option"
  spec_component :: string

text \<open>
  A specification as registered: \<open>None\<close> stands for an object of another class, as a parameter
  \<open>None\<close> for an object that is no \<open>ParamSpec\<close>; a name may be any value.
\<close>

record raw_spec =
  raw_core :: cspec
  raw_params :: "(pyval \<times> pspec option) list option"

definition name_forbidden :: "string \<Rightarrow> string list \<Rightarrow> string list \<Rightarrow> bool" where
  "name_forbidden name tokens stems =
     (list_ex (\<lambda>w. w \<in> set tokens) (split_on (CHR ''_'') name) \<or> list_ex (\<lambda>st. has_sub st name) stems)"

fun check_params :: "string \<Rightarrow> (pyval \<times> pspec option) list \<Rightarrow> pyexc + (string \<times> pspec) list" where
  "check_params name [] = Inr []"
| "check_params name ((p, ps) # rest) =
     (if \<not> is_text p \<or> \<not> PARAM_NAME_RE (py_str p) then Inl (RuntimeError (''capability_param_name_malformed:'' @ name))
      else if name_forbidden (py_str p) FORBIDDEN_PARAM_TOKENS FORBIDDEN_PARAM_STEMS
      then Inl (RuntimeError (''capability_param_name_forbidden:'' @ name @ '':'' @ py_str p))
      else (case ps of
          None \<Rightarrow> Inl (RuntimeError (''capability_param_spec_invalid:'' @ name @ '':'' @ py_str p))
        | Some s \<Rightarrow> ebind (check_params name rest) (\<lambda>r. Inr ((py_str p, s) # r))))"

definition frozen_spec :: "pyval \<Rightarrow> raw_spec option \<Rightarrow> pyexc + (string \<times> cspec)" where
  "frozen_spec n spec =
     (if \<not> is_text n \<or> \<not> NAME_RE (py_str n) then Inl (RuntimeError ''capability_name_malformed'')
      else (let name = py_str n in
        if name_forbidden name FORBIDDEN_NAME_TOKENS FORBIDDEN_NAME_STEMS then Inl (RuntimeError (''capability_name_forbidden:'' @ name))
        else (case spec of
            None \<Rightarrow> Inl (RuntimeError (''capability_spec_invalid:'' @ name))
          | Some sp \<Rightarrow> (case raw_params sp of
                None \<Rightarrow> Inl (RuntimeError (''capability_params_invalid:'' @ name))
              | Some ps \<Rightarrow> ebind (check_params name ps) (\<lambda>checked.
                  let c = raw_core sp in
                  if \<not> (0 < timeout_seconds c \<and> timeout_seconds c \<le> 30) then Inl (RuntimeError (''capability_timeout_out_of_range:'' @ name))
                  else if \<not> (1 \<le> max_concurrency c \<and> max_concurrency c \<le> 8) then Inl (RuntimeError (''capability_concurrency_out_of_range:'' @ name))
                  else if \<not> IDENT_RE (spec_component c) then Inl (RuntimeError (''capability_source_component_invalid:'' @ name))
                  else if (case spec_max_age c of None \<Rightarrow> False | Some a \<Rightarrow> a < 0) then Inl (RuntimeError (''capability_max_age_invalid:'' @ name))
                  else Inr (name, c\<lparr>params := checked\<rparr>))))))"

fun freeze_registry :: "(pyval \<times> raw_spec option) list \<Rightarrow> pyexc + (string \<times> cspec) list" where
  "freeze_registry [] = Inr []"
| "freeze_registry ((n, s) # rest) = ebind (frozen_spec n s) (\<lambda>c. ebind (freeze_registry rest) (\<lambda>r. Inr (c # r)))"

section \<open>Sanitising a result\<close>

record san =
  nodes :: nat
  chars :: nat
  stripped :: nat

type_synonym reject = "cap_status \<times> string"

abbreviation too_large :: reject where "too_large \<equiv> (TRUNCATED, ''capability_result_too_large'')"
abbreviation too_deep :: reject where "too_deep \<equiv> (INVALID, ''capability_result_too_deep'')"
abbreviation not_json :: reject where "not_json \<equiv> (INVALID, ''capability_result_not_json'')"

definition reserved_key :: "string \<Rightarrow> bool" where
  "reserved_key k = (py_lower k \<in> set RESERVED_RESULT_KEYS)"

definition add_chars :: "int \<Rightarrow> nat \<Rightarrow> pyval \<Rightarrow> san \<Rightarrow> reject + (pyval \<times> san)" where
  "add_chars limit n v st =
     (let st' = st\<lparr>chars := chars st + n\<rparr> in if limit < int (chars st') then Inl too_large else Inr (v, st'))"

function (sequential) sanitize :: "int \<Rightarrow> nat \<Rightarrow> pyval \<Rightarrow> san \<Rightarrow> reject + (pyval \<times> san)"
  and sanitize_list :: "int \<Rightarrow> nat \<Rightarrow> pyval list \<Rightarrow> san \<Rightarrow> reject + (pyval list \<times> san)"
  and sanitize_items :: "int \<Rightarrow> nat \<Rightarrow> (string \<times> pyval) list \<Rightarrow> san \<Rightarrow> reject + (pydict \<times> san)" where
  "sanitize limit level v st0 =
     (let st = st0\<lparr>nodes := Suc (nodes st0)\<rparr> in
      if MAX_RESULT_NODES < nodes st then Inl too_large
      else (case v of
          PDict d \<Rightarrow> if MAX_RESULT_DEPTH < level then Inl too_deep
            else ebind (sanitize_items limit level d st) (\<lambda>(d', st'). Inr (PDict d', st'))
        | PList xs \<Rightarrow> if MAX_RESULT_DEPTH < level then Inl too_deep
            else ebind (sanitize_list limit level xs st) (\<lambda>(xs', st'). Inr (PList xs', st'))
        | PStr s \<Rightarrow> add_chars limit (length s + 2) v st
        | PNone \<Rightarrow> add_chars limit 8 v st
        | PBool _ \<Rightarrow> add_chars limit 8 v st
        | PInt i \<Rightarrow> if 10 ^ 18 < \<bar>i\<bar> then Inl not_json else add_chars limit 8 v st
        | PFloat (FFin q r) \<Rightarrow> add_chars limit 24 v st
        | PFloat _ \<Rightarrow> Inl not_json))"
| "sanitize_list limit level [] st = Inr ([], st)"
| "sanitize_list limit level (x # xs) st =
     ebind (sanitize limit (Suc level) x st) (\<lambda>(x', st1).
     ebind (sanitize_list limit level xs st1) (\<lambda>(xs', st2). Inr (x' # xs', st2)))"
| "sanitize_items limit level [] st = Inr ([], st)"
| "sanitize_items limit level ((k, x) # rest) st =
     (let st1 = st\<lparr>chars := chars st + (length k + 4)\<rparr> in
      if reserved_key k then sanitize_items limit level rest (st1\<lparr>stripped := Suc (stripped st1)\<rparr>)
      else ebind (sanitize limit (Suc level) x st1) (\<lambda>(x', st2).
           ebind (sanitize_items limit level rest st2) (\<lambda>(rest', st3). Inr ((k, x') # rest', st3))))"
  by pat_completeness auto
termination
  by (relation "measure (\<lambda>a. case a of Inl (_, _, v, _) \<Rightarrow> 2 * size v
        | Inr (Inl (_, _, xs, _)) \<Rightarrow> Suc (2 * size_list size xs)
        | Inr (Inr (_, _, d, _)) \<Rightarrow> Suc (2 * size_list (size_prod (\<lambda>_. 0) size) d))") auto

section \<open>Requests and results\<close>

record creq =
  rq_exact :: bool
  rq_request_id :: pyval
  rq_trace_id :: pyval
  rq_capability :: pyval
  rq_arguments :: pyval
  rq_purpose :: pyval
  rq_max_age :: pyval

record cres =
  r_request_id :: string
  r_capability :: string
  r_data :: pydict
  r_refs :: "string list"
  r_error :: string
  r_status :: cap_status
  r_component :: string
  r_source_timestamp :: string
  r_retrieved_at :: string
  r_age :: "int option"
  r_max_age :: "int option"
  r_latency_ms :: int
  r_chars :: nat
  r_truncated :: bool
  r_limitations :: "string list"

definition r_ok :: "cres \<Rightarrow> bool" where "r_ok r = (r_status r = OK)"

record benv =
  hmac :: "string \<Rightarrow> string"
  id_safe :: "string \<Rightarrow> bool"
  iso :: "rat \<Rightarrow> string"
  parse_iso :: "string \<Rightarrow> rat option"
  clk_check :: "string + rat"
  clk_result :: "rat option"
  latency :: int

fun type_name :: "pyval \<Rightarrow> string" where
  "type_name PNone = ''NoneType''"
| "type_name (PBool _) = ''bool''"
| "type_name (PInt _) = ''int''"
| "type_name (PFloat _) = ''float''"
| "type_name (PStr _) = ''str''"
| "type_name (PList _) = ''list''"
| "type_name (PDict _) = ''dict''"

fun key_digest :: "benv \<Rightarrow> pyval \<Rightarrow> string" where
  "key_digest e (PStr s) = hmac e s"
| "key_digest e v = ''<'' @ type_name v @ ''>''"

fun safe_label :: "benv \<Rightarrow> pyval \<Rightarrow> string" where
  "safe_label e (PStr s) = map (\<lambda>c. if id_forbidden c then CHR ''?'' else c) (take 128 s)"
| "safe_label e v = key_digest e v"

fun audit_id :: "benv \<Rightarrow> pyval \<Rightarrow> string" where
  "audit_id e (PStr s) = (if id_safe e s then s else ''h:'' @ hmac e s)"
| "audit_id e v = ''h:'' @ key_digest e v"

definition audit_reason :: "string \<Rightarrow> string" where
  "audit_reason s = (if s = [] \<or> REASON_RE s then s else ''reason_redacted'')"

definition cap_result :: "benv \<Rightarrow> (string \<times> cspec) list \<Rightarrow> creq \<Rightarrow> cap_status \<Rightarrow> string \<Rightarrow> cres" where
  "cap_result e reg rq status err =
     \<lparr>r_request_id = safe_label e (rq_request_id rq),
      r_capability = (if is_text (rq_capability rq) \<and> has_key reg (py_str (rq_capability rq)) then py_str (rq_capability rq) else []),
      r_data = [], r_refs = [], r_error = err, r_status = status, r_component = [], r_source_timestamp = [],
      r_retrieved_at = (case clk_result e of None \<Rightarrow> [] | Some t \<Rightarrow> iso e t),
      r_age = None, r_max_age = None, r_latency_ms = 0, r_chars = 0, r_truncated = False, r_limitations = []\<rparr>"

text \<open>\<open>**base\<close>: the component and the freshness limit the broker assigns.\<close>

definition with_base :: "cspec \<Rightarrow> int option \<Rightarrow> cres \<Rightarrow> cres" where
  "with_base spec max_age r = r\<lparr>r_component := spec_component spec, r_max_age := max_age\<rparr>"

section \<open>Arguments\<close>

text \<open>One supplied value against its schema: the audit entry and the error code, empty when it conforms.\<close>

definition check_value :: "benv \<Rightarrow> string \<Rightarrow> pspec \<Rightarrow> pyval \<Rightarrow> pydict \<times> string" where
  "check_value e name ps v =
     (let base = [(''kind'', PStr (pkind_value (p_kind ps))), (''type'', PStr (type_name v))];
          sized = base @ [(''length'', PInt (int (length (py_str v))))]
      in case p_kind ps of
           Text \<Rightarrow>
             if \<not> is_text v then (base, ''argument_type_mismatch:'' @ name)
             else if p_max_length ps < int (length (py_str v)) then (sized, ''argument_too_long:'' @ name)
             else if list_ex text_forbidden (py_str v) then (sized, ''argument_control_chars:'' @ name)
             else (sized, [])
         | Identifier \<Rightarrow>
             if \<not> is_text v then (base, ''argument_type_mismatch:'' @ name)
             else if p_max_length ps < int (length (py_str v)) then (sized, ''argument_too_long:'' @ name)
             else (let dug = sized @ [(''digest'', PStr (key_digest e v))]
                   in if \<not> IDENT_RE (py_str v) \<or> has_sub ''..'' (py_str v) then (dug, ''argument_malformed_identifier:'' @ name)
                      else (dug, []))
         | Integer \<Rightarrow>
             if \<not> is_int v then (base, ''argument_type_mismatch:'' @ name)
             else if \<not> (p_minimum ps \<le> int_val v \<and> int_val v \<le> p_maximum ps) then (base, ''argument_out_of_range:'' @ name)
             else (base, [])
         | Boolean \<Rightarrow> (case v of PBool _ \<Rightarrow> (base, []) | _ \<Rightarrow> (base, ''argument_type_mismatch:'' @ name)))"

fun validate_params :: "benv \<Rightarrow> (string \<times> pspec) list \<Rightarrow> pydict \<Rightarrow> pydict \<Rightarrow> pydict \<Rightarrow> pydict \<times> pydict \<times> string" where
  "validate_params e [] supplied out audit = (out, audit, [])"
| "validate_params e ((name, ps) # rest) supplied out audit =
     (case map_of supplied name of
        None \<Rightarrow> if p_required ps then ([], audit, ''missing_argument:'' @ name) else validate_params e rest supplied out audit
      | Some v \<Rightarrow>
          (let (entry, err) = check_value e name ps v;
               audit' = AList.update name (PDict entry) audit
           in if err \<noteq> [] then ([], audit', err) else validate_params e rest supplied (AList.update name v out) audit'))"

definition validate_arguments :: "benv \<Rightarrow> pyval \<Rightarrow> cspec \<Rightarrow> pydict \<times> pydict \<times> string" where
  "validate_arguments e arguments spec =
     (if \<not> is_dict arguments then ([], [], ''arguments_not_mapping'')
      else
        (let items = dict_of arguments;
             n = length (params spec);
             unknown = length (filter (\<lambda>kv. \<not> has_key (params spec) (fst kv)) items)
         in if n < length items
            then ([], [(''unknown_param_count'', PInt (max 1 (int (length items) - int n)))], ''unknown_argument'')
            else if 0 < unknown then ([], [(''unknown_param_count'', PInt (int unknown))], ''unknown_argument'')
            else validate_params e (params spec) items [] []))"

section \<open>Before admission\<close>

definition bad_id :: "nat \<Rightarrow> pyval \<Rightarrow> bool" where
  "bad_id limit v = (\<not> is_text v \<or> py_str v = [] \<or> limit < length (py_str v) \<or> list_ex id_forbidden (py_str v))"

text \<open>A request that passed every check: capability, specification, arguments, audit entries, freshness limit.\<close>

record prepared =
  pr_cap :: string
  pr_spec :: cspec
  pr_args :: pydict
  pr_audit :: pydict
  pr_max_age :: "int option"

definition prepare :: "benv \<Rightarrow> (string \<times> cspec) list \<Rightarrow> creq \<Rightarrow> (cres \<times> pydict) + prepared" where
  "prepare e reg rq =
     (let refuse = (\<lambda>status err audit. Inl (cap_result e reg rq status err, audit)) in
      if \<not> rq_exact rq then refuse INVALID ''request_type_invalid'' []
      else if bad_id 128 (rq_request_id rq) then refuse INVALID ''invalid_request_id'' []
      else if bad_id 128 (rq_trace_id rq) then refuse INVALID ''invalid_trace_id'' []
      else if \<not> is_list (rq_purpose rq) \<or> MAX_PURPOSE_HYPOTHESIS_IDS < length (list_val (rq_purpose rq))
           \<or> list_ex (bad_id 96) (list_val (rq_purpose rq))
      then refuse INVALID ''invalid_purpose_hypothesis_ids'' []
      else if \<not> is_text (rq_capability rq) \<or> \<not> NAME_RE (py_str (rq_capability rq))
      then refuse REJECTED ''capability_name_malformed'' []
      else (case map_of reg (py_str (rq_capability rq)) of
          None \<Rightarrow> refuse REJECTED ''capability_not_allowlisted'' []
        | Some spec \<Rightarrow>
            (let (args, audit, err) = validate_arguments e (rq_arguments rq) spec
             in if err \<noteq> [] then refuse INVALID err audit
                else (case rq_max_age rq of
                    PNone \<Rightarrow> Inr \<lparr>pr_cap = py_str (rq_capability rq), pr_spec = spec, pr_args = args, pr_audit = audit, pr_max_age = spec_max_age spec\<rparr>
                  | PInt a \<Rightarrow>
                      if a < 0 then refuse INVALID ''invalid_max_age_seconds'' audit
                      else Inr \<lparr>pr_cap = py_str (rq_capability rq), pr_spec = spec, pr_args = args, pr_audit = audit,
                             pr_max_age = Some (case spec_max_age spec of None \<Rightarrow> a | Some b \<Rightarrow> min b a)\<rparr>
                  | _ \<Rightarrow> refuse INVALID ''invalid_max_age_seconds'' audit))))"

section \<open>After the handler returned\<close>

text \<open>\<open>json.dumps(v, sort_keys=True, ensure_ascii=False)\<close>: separators with a space, only control characters escaped.\<close>

definition wide_char :: "char \<Rightarrow> string" where
  "wide_char c = (if 127 \<le> (of_char c :: nat) then [c] else json_char c)"

definition wide_str :: "string \<Rightarrow> string" where
  "wide_str s = CHR 0x22 # concat (map wide_char s) @ [CHR 0x22]"

fun wide_text :: "pyval \<Rightarrow> string" where
  "wide_text PNone = ''null''"
| "wide_text (PBool b) = (if b then ''true'' else ''false'')"
| "wide_text (PInt i) = int_str i"
| "wide_text (PFloat f) = json_float f"
| "wide_text (PStr s) = wide_str s"
| "wide_text (PList xs) = ''['' @ join '', '' (map wide_text xs) @ '']''"
| "wide_text (PDict d) = ''{'' @ join '', '' (map (\<lambda>kv. wide_str (fst kv) @ '': '' @ wide_text (snd kv)) d) @ ''}''"

definition rendered_length :: "pyval \<Rightarrow> nat" where
  "rendered_length v = length (wide_text (sort_keys v))"

definition clean_refs :: "pyval list \<Rightarrow> string list" where
  "clean_refs refs = dedup (map py_str (filter (\<lambda>r. is_text r \<and> IDENT_RE (py_str r)) (take (MAX_EVIDENCE_REFS * 4) refs)))"

text \<open>The references kept and the limitation noted, if any.\<close>

definition check_refs :: "pyval \<Rightarrow> string list \<times> string list" where
  "check_refs refs =
     (if is_list refs
      then
        (let xs = list_val refs; candidates = take (MAX_EVIDENCE_REFS * 4) xs; refs' = clean_refs xs
         in if MAX_EVIDENCE_REFS < length refs' \<or> length candidates < length xs then (take MAX_EVIDENCE_REFS refs', [''evidence_refs_capped''])
            else if length refs' < length candidates then (refs', [''evidence_refs_dropped''])
            else (refs', []))
      else ([], if truthy refs then [''evidence_refs_dropped''] else []))"

text \<open>A claimed timestamp: \<open>Inl\<close> when \<open>float\<close> overflows, \<open>None\<close> when it is unusable.\<close>

fun parse_timestamp :: "benv \<Rightarrow> pyval \<Rightarrow> string + rat option" where
  "parse_timestamp e (PInt i) =
     (if 2 ^ 1024 - 2 ^ 970 \<le> \<bar>i\<bar> then Inl ''OverflowError'' else Inr (if i < 0 then None else Some (of_int i)))"
| "parse_timestamp e (PFloat (FFin q _)) = Inr (if q < 0 then None else Some q)"
| "parse_timestamp e (PStr s) =
     Inr (if s = [] \<or> 64 < length s then None
          else (case parse_iso e s of None \<Rightarrow> None | Some q \<Rightarrow> if q < 0 then None else Some q))"
| "parse_timestamp e _ = Inr None"

definition internal_error :: "benv \<Rightarrow> (string \<times> cspec) list \<Rightarrow> creq \<Rightarrow> string \<Rightarrow> cres" where
  "internal_error e reg rq cls = cap_result e reg rq ERROR (''broker_internal_error:'' @ cls)"

definition finalize_result :: "benv \<Rightarrow> (string \<times> cspec) list \<Rightarrow> creq \<Rightarrow> cspec \<Rightarrow> pyval \<Rightarrow> int option \<Rightarrow> string + cres" where
  "finalize_result e reg rq spec raw max_age =
     (let res = (\<lambda>status err. with_base spec max_age (cap_result e reg rq status err)) in
      if \<not> is_dict raw then Inr (res ERROR ''capability_result_not_mapping'')
      else
        (let d = dict_of raw;
             refs = (case map_of d ''evidence_refs'' of None \<Rightarrow> PList [] | Some r \<Rightarrow> r);
             ts = dget d ''source_timestamp'';
             d1 = AList.delete ''source_timestamp'' (AList.delete ''evidence_refs'' d)
         in case sanitize (max_result_chars spec) 1 (PDict d1) \<lparr>nodes = 0, chars = 0, stripped = 0\<rparr> of
              Inl (status, reason) \<Rightarrow> Inr ((res status reason)\<lparr>r_truncated := (status = TRUNCATED)\<rparr>)
            | Inr (clean, st) \<Rightarrow>
                (let n = rendered_length clean;
                     (good, lim) = check_refs refs;
                     limits = (if 0 < stripped st then [''adapter_reserved_keys_ignored''] else []) @ lim
                 in if max_result_chars spec < int n
                    then Inr ((res TRUNCATED ''capability_result_too_large'')\<lparr>r_truncated := True, r_chars := n\<rparr>)
                    else ebind (clk_check e) (\<lambda>now.
                      ebind (if ts = PNone then Inr None else parse_timestamp e ts) (\<lambda>source_ts.
                        if ts \<noteq> PNone \<and> source_ts = None then Inr (res INVALID ''source_timestamp_invalid'')
                        else if ts \<noteq> PNone \<and> FUTURE_SKEW_SECONDS < the source_ts - now then Inr (res INVALID ''source_timestamp_in_future'')
                        else
                          (let age = map_option (\<lambda>q. max 0 (rat_trunc (now - q))) source_ts;
                               common = (\<lambda>r. r\<lparr>r_source_timestamp := (case source_ts of None \<Rightarrow> [] | Some q \<Rightarrow> iso e q),
                                              r_age := age, r_chars := n, r_limitations := limits\<rparr>)
                           in if (case (max_age, age) of (None, _) \<Rightarrow> False | (Some a, None) \<Rightarrow> True | (Some a, Some b) \<Rightarrow> a < b)
                              then Inr (common (res STALE (if age = None then ''source_timestamp_missing'' else ''result_stale'')))
                              else Inr ((common (res OK []))\<lparr>r_data := dict_of clean, r_refs := good\<rparr>)))))))"

section \<open>The audit record\<close>

definition opt_int :: "int option \<Rightarrow> pyval" where
  "opt_int a = (case a of None \<Rightarrow> PNone | Some i \<Rightarrow> PInt i)"

definition audit_record :: "benv \<Rightarrow> (string \<times> cspec) list \<Rightarrow> creq \<Rightarrow> cres \<Rightarrow> pydict \<Rightarrow> pydict" where
  "audit_record e reg rq res audit =
     (let cap = rq_capability rq;
          listed = (is_text cap \<and> has_key reg (py_str cap));
          purpose = map (\<lambda>x. PStr (audit_id e x)) (take 8 (list_val (rq_purpose rq)));
          refs = map (\<lambda>x. PStr (audit_id e (PStr x))) (r_refs res);
          rec = (\<lambda>pu ps rf.
            [(''schema'', PStr ''mio_capability_audit/v1''),
             (''request_id'', PStr (audit_id e (rq_request_id rq))),
             (''trace_id'', PStr (audit_id e (rq_trace_id rq))),
             (''purpose_hypothesis_ids'', PList pu),
             (''capability'', if listed then cap else PNone),
             (''capability_digest'', if listed then PNone else PStr (key_digest e cap)),
             (''decision'', PStr (if r_status res \<in> set REFUSAL_STATUSES then ''refused'' else ''allowed'')),
             (''status'', PStr (cap_status_value (r_status res))),
             (''reason'', PStr (audit_reason (r_error res))),
             (''params'', PDict ps),
             (''evidence_refs'', PList rf),
             (''source_component'', PStr (r_component res)),
             (''age_seconds'', opt_int (r_age res)),
             (''latency_ms'', PInt (r_latency_ms res)),
             (''result_chars'', PInt (int (r_chars res))),
             (''truncated'', PBool (r_truncated res))])
      in if MAX_AUDIT_RECORD_CHARS < rendered_length (PDict (rec purpose audit refs))
         then rec (take 2 purpose) [(''omitted'', PBool True)] (take 4 refs) @ [(''audit_truncated'', PBool True)]
         else rec purpose audit refs)"

end
