(* ===== verification/BrokerPool.thy ===== *)
theory BrokerPool
  imports Broker
begin

text \<open>
  Admission, budgets, worker slots and the quarantine of the capability broker
  (\<open>py/azazel_edge/mio/broker.py\<close>).

  \<open>pool\<close> is \<open>_SharedLimits\<close>, shared by a broker and every broker made from it with \<open>for_new_cycle\<close>;
  \<open>broker\<close> is what belongs to one cycle. \<open>submit\<close> is one call alone: what happens while it waits
  (thread started, handler finished in time, cycle closed) is an argument. \<open>pool_step\<close> is the same code as
  a system of threads: each step is one critical section (or one semaphore operation) of the submitting
  thread or of its worker, in any interleaving. The wake-up events only decide when a wait ends; in
  \<open>pool_step\<close> a wait may end at any time.
\<close>

section \<open>Shared limits\<close>

record pool =
  max_quarantined :: int
  global_slots :: nat
  capability_slots :: "string \<Rightarrow> nat"
  in_flight :: int
  in_flight_per_capability :: "string \<Rightarrow> int"
  quarantined :: int
  quarantined_per_capability :: "string \<Rightarrow> int"

record broker =
  capabilities :: "(string \<times> cspec) list"
  max_total_calls :: int
  total_calls :: int
  per_capability_calls :: "string \<Rightarrow> int"
  max_in_flight :: int
  bclosed :: bool
  baudit :: "pydict list"
  audit_capacity :: nat

definition cap_limit :: "(string \<times> cspec) list \<Rightarrow> string \<Rightarrow> nat" where
  "cap_limit reg c = (case map_of reg c of None \<Rightarrow> 0 | Some sp \<Rightarrow> nat (max_concurrency sp))"

definition shared_limits :: "(string \<times> cspec) list \<Rightarrow> int \<Rightarrow> int \<Rightarrow> pool" where
  "shared_limits reg mif mq =
     \<lparr>max_quarantined = mq, global_slots = nat mif,
      capability_slots = cap_limit reg,
      in_flight = 0, in_flight_per_capability = (\<lambda>_. 0), quarantined = 0, quarantined_per_capability = (\<lambda>_. 0)\<rparr>"

definition make_broker :: "(pyval \<times> raw_spec option) list \<Rightarrow> int \<Rightarrow> int \<Rightarrow> int \<Rightarrow> int \<Rightarrow> pyexc + (broker \<times> pool)" where
  "make_broker caps tot mif mq cap =
     ebind (freeze_registry caps) (\<lambda>reg.
       let mif' = max 1 (min mif 16) in
       Inr (\<lparr>capabilities = reg, max_total_calls = max 0 tot, total_calls = 0, per_capability_calls = (\<lambda>_. 0),
              max_in_flight = mif', bclosed = False, baudit = [], audit_capacity = nat (max 1 (min cap 4096))\<rparr>,
            shared_limits reg mif' (max 1 (min mq 16))))"

definition close_cycle :: "broker \<Rightarrow> broker" where
  "close_cycle b = b\<lparr>bclosed := True\<rparr>"

text \<open>The broker of the next cycle; it keeps using the same \<open>pool\<close>.\<close>

definition for_new_cycle :: "broker \<Rightarrow> broker" where
  "for_new_cycle b =
     \<lparr>capabilities = capabilities b, max_total_calls = max_total_calls b, total_calls = 0, per_capability_calls = (\<lambda>_. 0),
      max_in_flight = max_in_flight b, bclosed = bclosed b, baudit = [], audit_capacity = audit_capacity b\<rparr>"

definition capability_names :: "broker \<Rightarrow> string list" where
  "capability_names b = sort (map fst (capabilities b))"

section \<open>Admission\<close>

text \<open>The atomic section of \<open>_submit\<close>: the reason of a refusal, or the broker and the pool with the call admitted.\<close>

definition admit :: "string \<Rightarrow> cspec \<Rightarrow> broker \<Rightarrow> pool \<Rightarrow> string + (broker \<times> pool)" where
  "admit c sp b p =
     (let used = per_capability_calls b c;
          cap_quarantined = quarantined_per_capability p c
      in if bclosed b then Inl ''broker_closed''
         else if max_total_calls b \<le> total_calls b then Inl ''broker_total_budget_exhausted''
         else if max_calls_per_cycle sp \<le> used then Inl ''capability_budget_exhausted''
         else if max_quarantined p \<le> quarantined p + in_flight p
         then Inl (if quarantined p \<noteq> 0 then ''broker_quarantine_full'' else ''broker_overloaded'')
         else if max_concurrency sp \<le> cap_quarantined + in_flight_per_capability p c
         then Inl (if cap_quarantined \<noteq> 0 then ''capability_quarantined'' else ''capability_overloaded'')
         else if global_slots p = 0 then Inl ''broker_overloaded''
         else if capability_slots p c = 0 then Inl ''capability_overloaded''
         else Inr (b\<lparr>total_calls := total_calls b + 1, per_capability_calls := (per_capability_calls b)(c := used + 1)\<rparr>,
                   p\<lparr>global_slots := global_slots p - 1, capability_slots := (capability_slots p)(c := capability_slots p c - 1),
                     in_flight := in_flight p + 1,
                     in_flight_per_capability := (in_flight_per_capability p)(c := in_flight_per_capability p c + 1)\<rparr>))"

definition free_capability :: "string \<Rightarrow> pool \<Rightarrow> pool" where
  "free_capability c p = p\<lparr>capability_slots := (capability_slots p)(c := Suc (capability_slots p c))\<rparr>"

definition free_global :: "pool \<Rightarrow> pool" where
  "free_global p = p\<lparr>global_slots := Suc (global_slots p)\<rparr>"

definition leave_in_flight :: "string \<Rightarrow> pool \<Rightarrow> pool" where
  "leave_in_flight c p =
     p\<lparr>in_flight := in_flight p - 1,
       in_flight_per_capability := (in_flight_per_capability p)(c := in_flight_per_capability p c - 1)\<rparr>"

definition enter_quarantine :: "string \<Rightarrow> pool \<Rightarrow> pool" where
  "enter_quarantine c p =
     p\<lparr>quarantined := quarantined p + 1,
       quarantined_per_capability := (quarantined_per_capability p)(c := quarantined_per_capability p c + 1)\<rparr>"

definition leave_quarantine :: "string \<Rightarrow> pool \<Rightarrow> pool" where
  "leave_quarantine c p =
     p\<lparr>quarantined := quarantined p - 1,
       quarantined_per_capability := (quarantined_per_capability p)(c := quarantined_per_capability p c - 1)\<rparr>"

text \<open>\<open>_Slot.release\<close> when nothing runs beside it.\<close>

definition release_slot :: "string \<Rightarrow> pool \<Rightarrow> pool" where
  "release_slot c p = leave_in_flight c (free_global (free_capability c p))"

section \<open>One call\<close>

text \<open>What happens to a call after admission.\<close>

datatype waited = StartFailed | Finished bool | TimedOut bool

text \<open>The flag of \<open>Finished\<close> and \<open>TimedOut\<close> says whether the cycle was closed when the wait ended.\<close>

definition wait_closed :: "waited \<Rightarrow> bool" where
  "wait_closed w = (case w of StartFailed \<Rightarrow> False | Finished c \<Rightarrow> c | TimedOut c \<Rightarrow> c)"

definition after_wait :: "benv \<Rightarrow> (string \<times> cspec) list \<Rightarrow> creq \<Rightarrow> prepared \<Rightarrow> waited \<Rightarrow> string + cres" where
  "after_wait e reg rq pr w =
     (let res = (\<lambda>status err. with_base (pr_spec pr) (pr_max_age pr) (cap_result e reg rq status err)) in
      case w of
        StartFailed \<Rightarrow> Inr (res ERROR ''worker_start_failed'')
      | TimedOut c \<Rightarrow> Inr (if c then res STALE ''cycle_closed'' else res TIMEOUT ''capability_timeout'')
      | Finished c \<Rightarrow>
          if c then Inr (res STALE ''cycle_closed'')
          else (case handler (pr_spec pr) (pr_args pr) of
              Unavailable \<Rightarrow> Inr (res UNAVAILABLE ''capability_unavailable'')
            | Raised cls \<Rightarrow> Inr (res ERROR (take 96 (''handler_error:'' @ cls)))
            | Returned raw \<Rightarrow> finalize_result e reg rq (pr_spec pr) raw (pr_max_age pr)))"

text \<open>Whether the handler was called, and on which arguments, is the last component.\<close>

definition submit_inner :: "benv \<Rightarrow> waited \<Rightarrow> creq \<Rightarrow> broker \<Rightarrow> pool \<Rightarrow> cres \<times> pydict \<times> broker \<times> pool \<times> pydict option" where
  "submit_inner e w rq b p =
     (case prepare e (capabilities b) rq of
        Inl (res, audit) \<Rightarrow> (res, audit, b, p, None)
      | Inr pr \<Rightarrow>
          (case admit (pr_cap pr) (pr_spec pr) b p of
             Inl reason \<Rightarrow> (cap_result e (capabilities b) rq REJECTED reason, pr_audit pr, b, p, None)
           | Inr (b1, p1) \<Rightarrow>
               (let b2 = b1\<lparr>bclosed := wait_closed w\<rparr>;
                    p2 = (case w of
                        TimedOut _ \<Rightarrow> release_slot (pr_cap pr) (enter_quarantine (pr_cap pr) p1)
                      | _ \<Rightarrow> release_slot (pr_cap pr) p1);
                    hrun = (if w = StartFailed then None else Some (pr_args pr))
                in case after_wait e (capabilities b) rq pr w of
                     Inl cls \<Rightarrow> (internal_error e (capabilities b) rq cls, [], b2, p2, hrun)
                   | Inr res \<Rightarrow> (res, pr_audit pr, b2, p2, hrun))))"

definition append_audit :: "pydict \<Rightarrow> broker \<Rightarrow> broker" where
  "append_audit r b = b\<lparr>baudit := lastn (audit_capacity b) (baudit b @ [r])\<rparr>"

definition submit :: "benv \<Rightarrow> waited \<Rightarrow> creq \<Rightarrow> broker \<Rightarrow> pool \<Rightarrow> cres \<times> broker \<times> pool \<times> pydict option" where
  "submit e w rq b p =
     (let (res, audit, b1, p1, hrun) = submit_inner e w rq b p;
          res' = res\<lparr>r_latency_ms := latency e\<rparr>
      in (res', append_audit (audit_record e (capabilities b) rq res' audit) b1, p1, hrun))"

definition execute :: "benv \<Rightarrow> waited \<Rightarrow> creq \<Rightarrow> broker \<Rightarrow> pool \<Rightarrow> (pyexc + cres) \<times> broker \<times> pool" where
  "execute e w rq b p =
     (let (res, b1, p1, hrun) = submit e w rq b p
      in (if r_status res \<in> set REFUSAL_STATUSES then Inl (RuntimeError (r_error res)) else Inr res, b1, p1))"

section \<open>Threads\<close>

datatype thread = Submitter | Worker

text \<open>How far \<open>_Slot.release\<close> has come: claimed (the flag is set), then each of its three effects.\<close>

datatype relphase = Held | Claimed thread | CapFreed thread | GlobalFreed thread | Left

datatype spc = Starting | Waiting | Checking | Releasing | Over
datatype wpc = NotStarted | Running | Returning | Marking | Ended

record call =
  cl_broker :: nat
  cl_cap :: string
  rel :: relphase
  hung :: bool
  is_done :: bool
  spc :: spc
  wpc :: wpc

record sysst =
  pl :: pool
  brokers_of :: "broker list"
  calls :: "call list"

definition admitted_call :: "nat \<Rightarrow> string \<Rightarrow> call" where
  "admitted_call i c = \<lparr>cl_broker = i, cl_cap = c, rel = Held, hung = False, is_done = False, spc = Starting, wpc = NotStarted\<rparr>"

text \<open>A thread inside \<open>_Slot.release\<close>.\<close>

fun in_release :: "thread \<Rightarrow> call \<Rightarrow> bool" where
  "in_release Submitter k = (spc k = Releasing)"
| "in_release Worker k = (wpc k = Returning)"

fun leave_release :: "thread \<Rightarrow> call \<Rightarrow> call" where
  "leave_release Submitter k = k\<lparr>spc := Over\<rparr>"
| "leave_release Worker k = k\<lparr>wpc := Marking\<rparr>"

text \<open>The next step of \<open>_Slot.release\<close> by thread \<open>t\<close>; a thread that finds the slot claimed by the other returns at once.\<close>

definition release_step :: "thread \<Rightarrow> call \<Rightarrow> pool \<Rightarrow> call \<times> pool" where
  "release_step t k p =
     (if rel k = Held then (k\<lparr>rel := Claimed t\<rparr>, p)
      else if rel k = Claimed t then (k\<lparr>rel := CapFreed t\<rparr>, free_capability (cl_cap k) p)
      else if rel k = CapFreed t then (k\<lparr>rel := GlobalFreed t\<rparr>, free_global p)
      else if rel k = GlobalFreed t then (leave_release t (k\<lparr>rel := Left\<rparr>), leave_in_flight (cl_cap k) p)
      else (leave_release t k, p))"

definition check_step :: "call \<Rightarrow> pool \<Rightarrow> call \<times> pool" where
  "check_step k p =
     (if is_done k then (k\<lparr>spc := Over\<rparr>, p)
      else (k\<lparr>hung := True, spc := Releasing\<rparr>, enter_quarantine (cl_cap k) p))"

definition mark_step :: "call \<Rightarrow> pool \<Rightarrow> call \<times> pool" where
  "mark_step k p =
     (k\<lparr>is_done := True, wpc := Ended\<rparr>, if hung k then leave_quarantine (cl_cap k) p else p)"

definition on_call :: "nat \<Rightarrow> (call \<Rightarrow> pool \<Rightarrow> call \<times> pool) \<Rightarrow> sysst \<Rightarrow> sysst" where
  "on_call i f s = (let (k, p) = f (calls s ! i) (pl s) in s\<lparr>pl := p, calls := (calls s)[i := k]\<rparr>)"

inductive pool_step :: "sysst \<Rightarrow> sysst \<Rightarrow> bool" where
  step_admit: "j < length (brokers_of s) \<Longrightarrow> map_of (capabilities (brokers_of s ! j)) c = Some sp \<Longrightarrow>
    admit c sp (brokers_of s ! j) (pl s) = Inr (b, p) \<Longrightarrow>
    pool_step s (s\<lparr>pl := p, brokers_of := (brokers_of s)[j := b], calls := calls s @ [admitted_call j c]\<rparr>)"
| step_start: "i < length (calls s) \<Longrightarrow> spc (calls s ! i) = Starting \<Longrightarrow>
    pool_step s (on_call i (\<lambda>k p. (k\<lparr>spc := Waiting, wpc := Running\<rparr>, p)) s)"
| step_start_failed: "i < length (calls s) \<Longrightarrow> spc (calls s ! i) = Starting \<Longrightarrow>
    pool_step s (on_call i (\<lambda>k p. (k\<lparr>spc := Releasing\<rparr>, p)) s)"
| step_return: "i < length (calls s) \<Longrightarrow> wpc (calls s ! i) = Running \<Longrightarrow>
    pool_step s (on_call i (\<lambda>k p. (k\<lparr>wpc := Returning\<rparr>, p)) s)"
| step_release: "i < length (calls s) \<Longrightarrow> in_release t (calls s ! i) \<Longrightarrow> pool_step s (on_call i (release_step t) s)"
| step_mark: "i < length (calls s) \<Longrightarrow> wpc (calls s ! i) = Marking \<Longrightarrow> pool_step s (on_call i mark_step s)"
| step_wake: "i < length (calls s) \<Longrightarrow> spc (calls s ! i) = Waiting \<Longrightarrow>
    pool_step s (on_call i (\<lambda>k p. (k\<lparr>spc := Checking\<rparr>, p)) s)"
| step_check: "i < length (calls s) \<Longrightarrow> spc (calls s ! i) = Checking \<Longrightarrow> pool_step s (on_call i check_step s)"
| step_close: "j < length (brokers_of s) \<Longrightarrow> pool_step s (s\<lparr>brokers_of := (brokers_of s)[j := close_cycle (brokers_of s ! j)]\<rparr>)"
| step_new_cycle: "j < length (brokers_of s) \<Longrightarrow> pool_step s (s\<lparr>brokers_of := brokers_of s @ [for_new_cycle (brokers_of s ! j)]\<rparr>)"

inductive_cases pool_stepE: "pool_step s s'"

text \<open>A broker just made, alone: with the registry, the concurrency limit and the quarantine limit it was given.\<close>

inductive pool_initial :: "(string \<times> cspec) list \<Rightarrow> int \<Rightarrow> int \<Rightarrow> sysst \<Rightarrow> bool" where
  pool_made: "make_broker caps tot n m cap = Inr (b, p) \<Longrightarrow>
    pool_initial (capabilities b) (max_in_flight b) (max_quarantined p) \<lparr>pl = p, brokers_of = [b], calls = []\<rparr>"

end
