(* ===== verification/BrokerThreads.thy ===== *)
theory BrokerThreads
  imports BrokerPool
begin

text \<open>
  The accounting of worker threads under every interleaving: what each counter and semaphore of the
  pool stands for, that every step keeps it so, and the bounds that follow.
\<close>

section \<open>Counting calls\<close>

definition counted :: "(pool \<Rightarrow> int) \<Rightarrow> (call \<Rightarrow> bool) \<Rightarrow> sysst \<Rightarrow> bool" where
  "counted cnt P s = (cnt (pl s) = int (length (filter P (calls s))))"

lemma length_filter_update:
  "i < length xs \<Longrightarrow> int (length (filter P (xs[i := y]))) = int (length (filter P xs)) + of_bool (P y) - of_bool (P (xs ! i))"
proof (induction xs arbitrary: i)
  case (Cons x xs)
  then show ?case by (cases i) auto
qed simp

lemma counted_on_call:
  assumes "counted cnt P s" and "i < length (calls s)"
    and "cnt (snd (f (calls s ! i) (pl s))) + of_bool (P (calls s ! i)) = cnt (pl s) + of_bool (P (fst (f (calls s ! i) (pl s))))"
  shows "counted cnt P (on_call i f s)"
  using assms by (simp add: counted_def on_call_def case_prod_beta Let_def length_filter_update)

lemma counted_admit:
  assumes "counted cnt P s" and "cnt p = cnt (pl s) + of_bool (P k)"
  shows "counted cnt P (s\<lparr>pl := p, brokers_of := bs, calls := calls s @ [k]\<rparr>)"
  using assms by (simp add: counted_def)

text \<open>The calls each counter stands for.\<close>

definition holds_global :: "call \<Rightarrow> bool" where
  "holds_global k = (case rel k of Held \<Rightarrow> True | Claimed _ \<Rightarrow> True | CapFreed _ \<Rightarrow> True | _ \<Rightarrow> False)"

definition holds_capability :: "call \<Rightarrow> bool" where
  "holds_capability k = (case rel k of Held \<Rightarrow> True | Claimed _ \<Rightarrow> True | _ \<Rightarrow> False)"

definition flying :: "call \<Rightarrow> bool" where "flying k = (rel k \<noteq> Left)"
definition stranded :: "call \<Rightarrow> bool" where "stranded k = (hung k \<and> \<not> is_done k)"

text \<open>A call whose handler runs or is about to be started.\<close>

definition live :: "call \<Rightarrow> bool" where "live k = (spc k = Starting \<or> wpc k = Running)"

definition on_cap :: "string \<Rightarrow> (call \<Rightarrow> bool) \<Rightarrow> call \<Rightarrow> bool" where
  "on_cap c P k = (cl_cap k = c \<and> P k)"

section \<open>One call\<close>

text \<open>The control states the two threads of a call reach together.\<close>

definition owner_ok :: "call \<Rightarrow> bool" where
  "owner_ok k = (case rel k of
      Claimed t \<Rightarrow> in_release t k | CapFreed t \<Rightarrow> in_release t k | GlobalFreed t \<Rightarrow> in_release t k
    | Held \<Rightarrow> spc k \<noteq> Over \<and> wpc k \<notin> {Marking, Ended}
    | Left \<Rightarrow> True)"

definition call_ok :: "call \<Rightarrow> bool" where
  "call_ok k = (owner_ok k
     \<and> (is_done k \<longleftrightarrow> wpc k = Ended)
     \<and> (hung k \<longrightarrow> spc k \<in> {Releasing, Over})
     \<and> (spc k = Starting \<longrightarrow> wpc k = NotStarted \<and> rel k = Held)
     \<and> (wpc k = NotStarted \<longrightarrow> spc k \<in> {Starting, Releasing, Over} \<and> \<not> hung k)
     \<and> (spc k \<in> {Releasing, Over} \<longrightarrow> hung k \<or> is_done k \<or> wpc k = NotStarted)
     \<and> (wpc k = Running \<and> rel k \<noteq> Held \<longrightarrow> hung k))"

lemma in_release_eq: "in_release t k = (case t of Submitter \<Rightarrow> spc k = Releasing | Worker \<Rightarrow> wpc k = Returning)"
  by (cases t) simp_all

lemmas call_defs = call_ok_def owner_ok_def holds_global_def holds_capability_def flying_def stranded_def live_def on_cap_def
lemmas pool_ops = free_capability_def free_global_def leave_in_flight_def enter_quarantine_def leave_quarantine_def

lemma admitted_ok: "call_ok (admitted_call j c)"
  by (simp add: call_defs admitted_call_def)

lemma live_accounted: "call_ok k \<Longrightarrow> live k \<Longrightarrow> flying k \<or> stranded k"
  by (auto simp: call_defs)

lemma release_ok: "call_ok k \<Longrightarrow> in_release t k \<Longrightarrow> call_ok (fst (release_step t k p))"
  by (cases t; cases "rel k"; cases "spc k"; cases "wpc k") (auto simp: call_defs release_step_def in_release_eq split: thread.splits)

lemma mark_ok: "call_ok k \<Longrightarrow> wpc k = Marking \<Longrightarrow> call_ok (fst (mark_step k p))"
  by (cases "rel k"; cases "spc k") (auto simp: call_defs mark_step_def in_release_eq split: thread.splits)

lemma check_ok: "call_ok k \<Longrightarrow> spc k = Checking \<Longrightarrow> call_ok (fst (check_step k p))"
  by (cases "rel k"; cases "wpc k") (auto simp: call_defs check_step_def in_release_eq split: thread.splits)

lemma start_ok: "call_ok k \<Longrightarrow> spc k = Starting \<Longrightarrow> call_ok (k\<lparr>spc := Waiting, wpc := Running\<rparr>) \<and> call_ok (k\<lparr>spc := Releasing\<rparr>)"
  by (auto simp: call_defs)

lemma return_ok: "call_ok k \<Longrightarrow> wpc k = Running \<Longrightarrow> call_ok (k\<lparr>wpc := Returning\<rparr>)"
  by (cases "rel k") (auto simp: call_defs in_release_eq split: thread.splits)

lemma wake_ok: "call_ok k \<Longrightarrow> spc k = Waiting \<Longrightarrow> call_ok (k\<lparr>spc := Checking\<rparr>)"
  by (cases "rel k") (auto simp: call_defs in_release_eq split: thread.splits)

section \<open>The system\<close>

text \<open>
  \<open>mif\<close> and \<open>reg\<close> are the limit and the registry the pool was made with; every counter is the number
  of calls it stands for, every semaphore its limit less the calls that hold it.
\<close>

definition acct :: "int \<Rightarrow> (string \<times> cspec) list \<Rightarrow> sysst \<Rightarrow> bool" where
  "acct mif reg s = (counted in_flight flying s \<and> counted quarantined stranded s
     \<and> counted (\<lambda>p. mif - int (global_slots p)) holds_global s
     \<and> (\<forall>c. counted (\<lambda>p. in_flight_per_capability p c) (on_cap c flying) s)
     \<and> (\<forall>c. counted (\<lambda>p. quarantined_per_capability p c) (on_cap c stranded) s)
     \<and> (\<forall>c. counted (\<lambda>p. int (cap_limit reg c) - int (capability_slots p c)) (on_cap c holds_capability) s))"

definition live_bound :: "(string \<times> cspec) list \<Rightarrow> sysst \<Rightarrow> bool" where
  "live_bound reg s = (int (length (filter live (calls s))) \<le> max_quarantined (pl s)
     \<and> (\<forall>c sp. map_of reg c = Some sp \<longrightarrow> int (length (filter (on_cap c live) (calls s))) \<le> max_concurrency sp))"

definition pool_inv :: "int \<Rightarrow> (string \<times> cspec) list \<Rightarrow> int \<Rightarrow> sysst \<Rightarrow> bool" where
  "pool_inv mif reg mq s = (acct mif reg s \<and> live_bound reg s \<and> list_all call_ok (calls s)
     \<and> list_all (\<lambda>b. capabilities b = reg) (brokers_of s) \<and> max_quarantined (pl s) = mq)"

text \<open>A step of one call keeps the accounts when it moves every counter with the call.\<close>

definition balanced :: "call \<Rightarrow> pool \<Rightarrow> call \<times> pool \<Rightarrow> bool" where
  "balanced k p r = (
     in_flight (snd r) + of_bool (flying k) = in_flight p + of_bool (flying (fst r))
   \<and> quarantined (snd r) + of_bool (stranded k) = quarantined p + of_bool (stranded (fst r))
   \<and> int (global_slots p) + of_bool (holds_global k) = int (global_slots (snd r)) + of_bool (holds_global (fst r))
   \<and> (\<forall>c. in_flight_per_capability (snd r) c + of_bool (on_cap c flying k) = in_flight_per_capability p c + of_bool (on_cap c flying (fst r)))
   \<and> (\<forall>c. quarantined_per_capability (snd r) c + of_bool (on_cap c stranded k) = quarantined_per_capability p c + of_bool (on_cap c stranded (fst r)))
   \<and> (\<forall>c. int (capability_slots p c) + of_bool (on_cap c holds_capability k) = int (capability_slots (snd r) c) + of_bool (on_cap c holds_capability (fst r)))
   \<and> max_quarantined (snd r) = max_quarantined p
   \<and> (live (fst r) \<longrightarrow> live k) \<and> cl_cap (fst r) = cl_cap k)"

lemma balanced_release: "call_ok k \<Longrightarrow> in_release t k \<Longrightarrow> balanced k p (release_step t k p)"
  by (cases t) (auto simp: balanced_def call_defs release_step_def pool_ops split: relphase.splits)

lemma balanced_mark: "call_ok k \<Longrightarrow> wpc k = Marking \<Longrightarrow> balanced k p (mark_step k p)"
  by (auto simp: balanced_def call_defs mark_step_def pool_ops)

lemma balanced_check: "call_ok k \<Longrightarrow> spc k = Checking \<Longrightarrow> balanced k p (check_step k p)"
  by (auto simp: balanced_def call_defs check_step_def pool_ops)

lemma acct_on_call:
  assumes "acct mif reg s" and "i < length (calls s)" and "balanced (calls s ! i) (pl s) (f (calls s ! i) (pl s))"
  shows "acct mif reg (on_call i f s)"
proof -
  have "counted in_flight flying (on_call i f s)" "counted quarantined stranded (on_call i f s)"
    using assms by (auto intro!: counted_on_call simp: acct_def balanced_def)
  moreover have "counted (\<lambda>p. mif - int (global_slots p)) holds_global (on_call i f s)"
    using assms by (intro counted_on_call) (auto simp: acct_def balanced_def)
  moreover have "counted (\<lambda>p. in_flight_per_capability p c) (on_cap c flying) (on_call i f s)" for c
    using assms by (intro counted_on_call) (auto simp: acct_def balanced_def)
  moreover have "counted (\<lambda>p. quarantined_per_capability p c) (on_cap c stranded) (on_call i f s)" for c
    using assms by (intro counted_on_call) (auto simp: acct_def balanced_def)
  moreover have "counted (\<lambda>p. int (cap_limit reg c) - int (capability_slots p c)) (on_cap c holds_capability) (on_call i f s)" for c
  proof (intro counted_on_call)
    show "counted (\<lambda>p. int (cap_limit reg c) - int (capability_slots p c)) (on_cap c holds_capability) s"
      using assms(1) by (simp add: acct_def)
    have "int (capability_slots (pl s) c) + of_bool (on_cap c holds_capability (calls s ! i)) =
        int (capability_slots (snd (f (calls s ! i) (pl s))) c) + of_bool (on_cap c holds_capability (fst (f (calls s ! i) (pl s))))"
      using assms(3) by (simp add: balanced_def)
    then show "int (cap_limit reg c) - int (capability_slots (snd (f (calls s ! i) (pl s))) c)
        + of_bool (on_cap c holds_capability (calls s ! i)) =
      int (cap_limit reg c) - int (capability_slots (pl s) c)
        + of_bool (on_cap c holds_capability (fst (f (calls s ! i) (pl s))))" by linarith
  qed (use assms in auto)
  ultimately show ?thesis by (simp add: acct_def)
qed

lemma live_on_call:
  assumes "live_bound reg s" and "i < length (calls s)" and "balanced (calls s ! i) (pl s) (f (calls s ! i) (pl s))"
  shows "live_bound reg (on_call i f s)"
proof -
  let ?k = "calls s ! i" and ?r = "f (calls s ! i) (pl s)"
  from assms(3) have b: "live (fst ?r) \<longrightarrow> live ?k" "cl_cap (fst ?r) = cl_cap ?k" "max_quarantined (snd ?r) = max_quarantined (pl s)"
    by (auto simp: balanced_def)
  have "int (length (filter live (calls (on_call i f s)))) \<le> int (length (filter live (calls s)))"
    using b assms(2) by (simp add: on_call_def Let_def case_prod_beta length_filter_update)
  moreover have "int (length (filter (on_cap c live) (calls (on_call i f s)))) \<le> int (length (filter (on_cap c live) (calls s)))" for c
    using b assms(2) by (simp add: on_call_def Let_def case_prod_beta length_filter_update on_cap_def)
  moreover have "max_quarantined (pl (on_call i f s)) = max_quarantined (pl s)"
    using b by (simp add: on_call_def Let_def case_prod_beta)
  ultimately show ?thesis using assms(1) unfolding live_bound_def by (metis order_trans)
qed

lemma inv_on_call:
  assumes "pool_inv mif reg mq s" and "i < length (calls s)" and "balanced (calls s ! i) (pl s) (f (calls s ! i) (pl s))"
    and "call_ok (fst (f (calls s ! i) (pl s)))"
  shows "pool_inv mif reg mq (on_call i f s)"
proof -
  have "list_all call_ok (calls (on_call i f s))"
    using assms by (simp add: pool_inv_def on_call_def Let_def case_prod_beta list_all_length nth_list_update)
  moreover have "brokers_of (on_call i f s) = brokers_of s" by (simp add: on_call_def Let_def case_prod_beta)
  moreover have "max_quarantined (pl (on_call i f s)) = max_quarantined (pl s)"
    using assms(3) by (simp add: on_call_def Let_def case_prod_beta balanced_def)
  ultimately show ?thesis
    using assms acct_on_call [where f = f, OF _ assms(2,3)] live_on_call [where f = f, OF _ assms(2,3)] by (simp add: pool_inv_def)
qed

text \<open>An admission under the limits.\<close>

lemma length_filter_or: "(\<And>k. k \<in> set xs \<Longrightarrow> P k \<Longrightarrow> Q k \<or> R k) \<Longrightarrow> length (filter P xs) \<le> length (filter Q xs) + length (filter R xs)"
  by (induction xs) auto

lemma live_le_counters:
  assumes "acct mif reg s" and "list_all call_ok (calls s)"
  shows "int (length (filter live (calls s))) \<le> in_flight (pl s) + quarantined (pl s)"
    and "int (length (filter (on_cap c live) (calls s))) \<le> in_flight_per_capability (pl s) c + quarantined_per_capability (pl s) c"
proof -
  have "length (filter live (calls s)) \<le> length (filter flying (calls s)) + length (filter stranded (calls s))"
    using assms(2) live_accounted by (intro length_filter_or) (auto simp: list_all_iff)
  then show "int (length (filter live (calls s))) \<le> in_flight (pl s) + quarantined (pl s)"
    using assms(1) by (simp add: acct_def counted_def)
  have "length (filter (on_cap c live) (calls s)) \<le> length (filter (on_cap c flying) (calls s)) + length (filter (on_cap c stranded) (calls s))"
    using assms(2) live_accounted by (intro length_filter_or) (auto simp: list_all_iff on_cap_def)
  then show "int (length (filter (on_cap c live) (calls s))) \<le> in_flight_per_capability (pl s) c + quarantined_per_capability (pl s) c"
    using assms(1) by (simp add: acct_def counted_def)
qed

lemma admit_Inr:
  "admit c sp b p = Inr (b', p') \<longleftrightarrow> \<not> bclosed b \<and> total_calls b < max_total_calls b \<and> per_capability_calls b c < max_calls_per_cycle sp
     \<and> quarantined p + in_flight p < max_quarantined p
     \<and> quarantined_per_capability p c + in_flight_per_capability p c < max_concurrency sp
     \<and> 0 < global_slots p \<and> 0 < capability_slots p c
     \<and> b' = b\<lparr>total_calls := total_calls b + 1, per_capability_calls := (per_capability_calls b)(c := per_capability_calls b c + 1)\<rparr>
     \<and> p' = p\<lparr>global_slots := global_slots p - 1, capability_slots := (capability_slots p)(c := capability_slots p c - 1),
           in_flight := in_flight p + 1, in_flight_per_capability := (in_flight_per_capability p)(c := in_flight_per_capability p c + 1)\<rparr>"
  by (auto simp: admit_def Let_def)

lemma acct_admit:
  assumes "acct mif reg s" and "admit c sp b (pl s) = Inr (b', p')"
  shows "acct mif reg (s\<lparr>pl := p', brokers_of := bs, calls := calls s @ [admitted_call j c]\<rparr>)"
  using assms unfolding acct_def admit_Inr
  by (auto intro!: counted_admit simp: call_defs admitted_call_def)

lemma live_admit:
  assumes "pool_inv mif reg mq s" and "map_of reg c = Some sp" and "admit c sp b (pl s) = Inr (b', p')"
  shows "live_bound reg (s\<lparr>pl := p', brokers_of := bs, calls := calls s @ [admitted_call j c]\<rparr>)"
proof -
  from assms(1) have ok: "acct mif reg s" "list_all call_ok (calls s)" and lb: "live_bound reg s" by (auto simp: pool_inv_def)
  from assms(3) have adm: "quarantined (pl s) + in_flight (pl s) < max_quarantined (pl s)"
    "quarantined_per_capability (pl s) c + in_flight_per_capability (pl s) c < max_concurrency sp"
    and p': "max_quarantined p' = max_quarantined (pl s)" by (auto simp: admit_Inr)
  have "int (length (filter (on_cap c' live) (calls s @ [admitted_call j c]))) \<le> max_concurrency sp'" if "map_of reg c' = Some sp'" for c' sp'
  proof (cases "c' = c")
    case True
    with that assms(2) adm(2) live_le_counters(2) [OF ok, of c] show ?thesis by (simp add: on_cap_def)
  next
    case False
    with that lb show ?thesis by (simp add: live_bound_def on_cap_def admitted_call_def)
  qed
  with adm(1) live_le_counters(1) [OF ok] p' show ?thesis by (simp add: live_bound_def)
qed

lemma pool_inv_step: "pool_inv mif reg mq s \<Longrightarrow> pool_step s s' \<Longrightarrow> pool_inv mif reg mq s'"
proof (erule pool_stepE, goal_cases)
  case (1 j c sp b p)
  then have reg: "capabilities (brokers_of s ! j) = reg" by (auto simp: pool_inv_def list_all_length)
  from 1 have "map_of reg c = Some sp" by (simp add: reg)
  note live = live_admit [OF \<open>pool_inv mif reg mq s\<close> this 1(5)]
  have "capabilities b = reg" "max_quarantined p = mq" using 1 reg by (auto simp: admit_Inr pool_inv_def)
  with 1 live acct_admit [of mif reg s c sp "brokers_of s ! j" b p] show ?case
    by (auto simp: pool_inv_def admitted_ok list_all_length nth_append nth_list_update)
next
  case (2 i) show ?case unfolding 2(2) using 2 by (intro inv_on_call) (auto simp: balanced_def call_defs pool_inv_def list_all_length)
next
  case (3 i) show ?case unfolding 3(2) using 3 by (intro inv_on_call) (auto simp: balanced_def call_defs pool_inv_def list_all_length)
next
  case (4 i) show ?case unfolding 4(2) using 4
    by (intro inv_on_call) (auto simp: return_ok balanced_def flying_def stranded_def holds_global_def holds_capability_def live_def on_cap_def pool_inv_def list_all_length)
next
  case (5 i t) show ?case unfolding 5(2) using 5 by (intro inv_on_call balanced_release release_ok) (auto simp: pool_inv_def list_all_length)
next
  case (6 i) show ?case unfolding 6(2) using 6 by (intro inv_on_call balanced_mark mark_ok) (auto simp: pool_inv_def list_all_length)
next
  case (7 i) show ?case unfolding 7(2) using 7
    by (intro inv_on_call) (auto simp: wake_ok balanced_def flying_def stranded_def holds_global_def holds_capability_def live_def on_cap_def pool_inv_def list_all_length)
next
  case (8 i) show ?case unfolding 8(2) using 8 by (intro inv_on_call balanced_check check_ok) (auto simp: pool_inv_def list_all_length)
next
  case (9 j) then show ?case
    by (auto simp: pool_inv_def acct_def counted_def live_bound_def close_cycle_def list_all_length nth_list_update)
next
  case (10 j) then show ?case
    by (auto simp: pool_inv_def acct_def counted_def live_bound_def for_new_cycle_def list_all_length nth_append)
qed

lemma make_broker_Inr:
  "make_broker caps tot n m cap = Inr (b, p) \<longleftrightarrow> (\<exists>reg. freeze_registry caps = Inr reg
     \<and> b = \<lparr>capabilities = reg, max_total_calls = max 0 tot, total_calls = 0, per_capability_calls = (\<lambda>_. 0),
            max_in_flight = max 1 (min n 16), bclosed = False, baudit = [], audit_capacity = nat (max 1 (min cap 4096))\<rparr>
     \<and> p = shared_limits reg (max 1 (min n 16)) (max 1 (min m 16)))"
  by (auto simp: make_broker_def ebind_Inr_iff Let_def)

lemma frozen_concurrency: "freeze_registry caps = Inr reg \<Longrightarrow> map_of reg c = Some sp \<Longrightarrow> 1 \<le> max_concurrency sp \<and> max_concurrency sp \<le> 8"
proof (induction caps arbitrary: reg rule: freeze_registry.induct)
  case (2 n s rest)
  then obtain x r where x: "frozen_spec n s = Inr x" "freeze_registry rest = Inr r" "reg = x # r" by (auto simp: ebind_Inr_iff)
  then have "1 \<le> max_concurrency (snd x) \<and> max_concurrency (snd x) \<le> 8"
    by (auto simp: frozen_spec_def Let_def ebind_Inr_iff split: if_splits option.splits)
  with 2 x show ?case by (cases x) (auto split: if_splits)
qed simp

lemma shared_limits_simps [simp]:
  "max_quarantined (shared_limits reg mif mq) = mq" "global_slots (shared_limits reg mif mq) = nat mif"
  "in_flight (shared_limits reg mif mq) = 0" "quarantined (shared_limits reg mif mq) = 0"
  "in_flight_per_capability (shared_limits reg mif mq) = (\<lambda>_. 0)" "quarantined_per_capability (shared_limits reg mif mq) = (\<lambda>_. 0)"
  "capability_slots (shared_limits reg mif mq) = cap_limit reg"
  by (simp_all add: shared_limits_def)

lemma made_fields:
  assumes "make_broker caps tot n m cap = Inr (b, p)"
  shows "freeze_registry caps = Inr (capabilities b)" "p = shared_limits (capabilities b) (max_in_flight b) (max_quarantined p)"
    "1 \<le> max_in_flight b" "1 \<le> max_quarantined p" "\<not> bclosed b" "total_calls b = 0" "per_capability_calls b = (\<lambda>_. 0)" "0 \<le> max_total_calls b"
  using assms unfolding make_broker_Inr by (elim exE conjE; simp)+

lemma pool_inv_initial: "pool_initial reg mif mq s \<Longrightarrow> pool_inv mif reg mq s"
proof (induction rule: pool_initial.induct)
  case (pool_made caps tot n m cap b p)
  note made = made_fields [OF pool_made]
  let ?s = "\<lparr>pl = p, brokers_of = [b], calls = []\<rparr>"
  have "0 \<le> max_concurrency sp" if "map_of (capabilities b) c = Some sp" for c sp
    using frozen_concurrency [OF made(1) that] by simp
  then have "live_bound (capabilities b) ?s" using made(4) by (simp add: live_bound_def)
  moreover obtain mq where "p = shared_limits (capabilities b) (max_in_flight b) mq" using made(2) ..
  then have "acct (max_in_flight b) (capabilities b) ?s" using made(3) by (simp add: acct_def counted_def)
  ultimately show ?case by (simp add: pool_inv_def)
qed

interpretation worker_pool: invariant_system "pool_initial reg mif mq" pool_step "pool_inv mif reg mq" for reg mif mq
  by unfold_locales (auto intro: pool_inv_initial pool_inv_step)

section \<open>A worker between releasing its slot and reporting done\<close>

definition late_call :: "nat \<Rightarrow> string \<Rightarrow> call" where
  "late_call j c = \<lparr>cl_broker = j, cl_cap = c, rel = Left, hung = False, is_done = False, spc = Checking, wpc = Marking\<rparr>"

definition hung_call :: "nat \<Rightarrow> string \<Rightarrow> call" where
  "hung_call j c = \<lparr>cl_broker = j, cl_cap = c, rel = Left, hung = True, is_done = False, spc = Releasing, wpc = Marking\<rparr>"

lemma on_call_simps [simp]:
  "pl (on_call i f s) = snd (f (calls s ! i) (pl s))"
  "calls (on_call i f s) = (calls s)[i := fst (f (calls s ! i) (pl s))]"
  "brokers_of (on_call i f s) = brokers_of s"
  by (simp_all add: on_call_def Let_def case_prod_beta)

lemma late_worker:
  assumes r: "reach I pool_step s" and i: "i < length (calls s)" and k: "calls s ! i = admitted_call j c"
  shows "reach I pool_step (s\<lparr>pl := release_slot c (pl s), calls := (calls s)[i := late_call j c]\<rparr>)"
proof -
  let ?s1 = "on_call i (\<lambda>k p. (k\<lparr>spc := Waiting, wpc := Running\<rparr>, p)) s"
  let ?s2 = "on_call i (\<lambda>k p. (k\<lparr>wpc := Returning\<rparr>, p)) ?s1"
  let ?s3 = "on_call i (release_step Worker) ?s2"
  let ?s4 = "on_call i (release_step Worker) ?s3"
  let ?s5 = "on_call i (release_step Worker) ?s4"
  let ?s6 = "on_call i (release_step Worker) ?s5"
  let ?s7 = "on_call i (\<lambda>k p. (k\<lparr>spc := Checking\<rparr>, p)) ?s6"
  have 1: "reach I pool_step ?s1" using r by (rule reach_step) (intro step_start; simp add: i k admitted_call_def)
  have 2: "reach I pool_step ?s2" using 1 by (rule reach_step) (intro step_return; simp add: i k)
  have 3: "reach I pool_step ?s3" using 2 by (rule reach_step) (intro step_release; simp add: i k)
  have 4: "reach I pool_step ?s4" using 3 by (rule reach_step) (intro step_release; simp add: i k admitted_call_def release_step_def)
  have 5: "reach I pool_step ?s5" using 4 by (rule reach_step) (intro step_release; simp add: i k admitted_call_def release_step_def)
  have 6: "reach I pool_step ?s6" using 5 by (rule reach_step) (intro step_release; simp add: i k admitted_call_def release_step_def)
  have 7: "reach I pool_step ?s7" using 6 by (rule reach_step) (intro step_wake; simp add: i k admitted_call_def release_step_def)
  have "?s7 = s\<lparr>pl := release_slot c (pl s), calls := (calls s)[i := late_call j c]\<rparr>"
    by (rule sysst.equality) (simp_all add: i k admitted_call_def release_step_def release_slot_def late_call_def)
  with 7 show ?thesis by simp
qed

text \<open>Admitting one more call through a fresh cycle when the pool is idle.\<close>

lemma idle_admit:
  assumes "map_of reg c = Some sp" and "1 \<le> max_calls_per_cycle sp" and "1 \<le> max_concurrency sp" and "1 \<le> mif" and "1 \<le> mq"
    and "\<not> bclosed b" and "total_calls b = 0" and "1 \<le> max_total_calls b" and "per_capability_calls b c = 0"
  shows "\<exists>b' p'. admit c sp b (shared_limits reg mif mq) = Inr (b', p') \<and> release_slot c p' = shared_limits reg mif mq
    \<and> bclosed b' = bclosed b \<and> max_total_calls b' = max_total_calls b \<and> capabilities b' = capabilities b"
proof -
  have "0 < cap_limit reg c" using assms(1,3) by (simp add: cap_limit_def)
  with assms show ?thesis
    by (intro exI conjI) (rule admit_Inr [THEN iffD2], simp,
      simp_all add: release_slot_def pool_ops, simp add: shared_limits_def fun_eq_iff)
qed

lemma initial_limits: "pool_initial reg mif mq s \<Longrightarrow> 1 \<le> mif \<and> 1 \<le> mq \<and> (map_of reg c = Some sp \<longrightarrow> 1 \<le> max_concurrency sp)"
proof (induction rule: pool_initial.induct)
  case (pool_made caps tot n m cap b p)
  show ?case using made_fields(3,4) [OF pool_made] frozen_concurrency [OF made_fields(1) [OF pool_made]] by blast
qed

lemma late_calls_reachable:
  assumes "pool_initial reg mif mq s0" and "map_of reg c = Some sp" and "1 \<le> max_calls_per_cycle sp"
    and "1 \<le> max_total_calls (hd (brokers_of s0))"
  shows "\<exists>bs js. reach (pool_initial reg mif mq) pool_step \<lparr>pl = shared_limits reg mif mq, brokers_of = bs, calls = map (\<lambda>j. late_call j c) js\<rparr>
    \<and> length js = n \<and> bs \<noteq> [] \<and> capabilities (last bs) = reg \<and> \<not> bclosed (last bs) \<and> 1 \<le> max_total_calls (last bs)"
proof (induction n)
  case 0
  from assms(1) show ?case
  proof (cases rule: pool_initial.cases)
    case (pool_made caps tot n m cap b)
    with made_fields [OF pool_made(5)] assms(1,4) show ?thesis
      by (intro exI [of _ "[b]"] exI [of _ "[]"]) (auto intro!: reach_init)
  qed
next
  case (Suc n)
  then obtain bs js where r: "reach (pool_initial reg mif mq) pool_step \<lparr>pl = shared_limits reg mif mq, brokers_of = bs, calls = map (\<lambda>j. late_call j c) js\<rparr>"
    and bs: "length js = n" "bs \<noteq> []" "capabilities (last bs) = reg" "\<not> bclosed (last bs)" "1 \<le> max_total_calls (last bs)" by blast
  let ?b = "for_new_cycle (last bs)" and ?j = "length bs"
  have "pool_step \<lparr>pl = shared_limits reg mif mq, brokers_of = bs, calls = map (\<lambda>j. late_call j c) js\<rparr>
      \<lparr>pl = shared_limits reg mif mq, brokers_of = bs @ [?b], calls = map (\<lambda>j. late_call j c) js\<rparr>"
    using step_new_cycle [of "length bs - 1" "\<lparr>pl = shared_limits reg mif mq, brokers_of = bs, calls = map (\<lambda>j. late_call j c) js\<rparr>"] bs(2)
    by (simp add: last_conv_nth)
  with r have r1: "reach (pool_initial reg mif mq) pool_step \<lparr>pl = shared_limits reg mif mq, brokers_of = bs @ [?b], calls = map (\<lambda>j. late_call j c) js\<rparr>"
    by (rule reach_step)
  have lim: "1 \<le> mif" "1 \<le> mq" "1 \<le> max_concurrency sp"
    using initial_limits [OF assms(1), of c sp] assms(2) by simp_all
  obtain b' p' where adm: "admit c sp ?b (shared_limits reg mif mq) = Inr (b', p')" "release_slot c p' = shared_limits reg mif mq"
    "bclosed b' = bclosed ?b" "max_total_calls b' = max_total_calls ?b" "capabilities b' = capabilities ?b"
    using idle_admit [OF assms(2,3) lim(3,1,2), of ?b] bs(4,5) by (auto simp: for_new_cycle_def)
  have "pool_step \<lparr>pl = shared_limits reg mif mq, brokers_of = bs @ [?b], calls = map (\<lambda>j. late_call j c) js\<rparr>
      \<lparr>pl = p', brokers_of = bs @ [b'], calls = map (\<lambda>j. late_call j c) js @ [admitted_call ?j c]\<rparr>"
    using step_admit [of ?j "\<lparr>pl = shared_limits reg mif mq, brokers_of = bs @ [?b], calls = map (\<lambda>j. late_call j c) js\<rparr>" c sp b' p'] adm assms(2) bs(3)
    by (simp add: for_new_cycle_def nth_append list_update_append)
  with r1 have r2: "reach (pool_initial reg mif mq) pool_step \<lparr>pl = p', brokers_of = bs @ [b'], calls = map (\<lambda>j. late_call j c) js @ [admitted_call ?j c]\<rparr>"
    by (rule reach_step)
  have "reach (pool_initial reg mif mq) pool_step \<lparr>pl = shared_limits reg mif mq, brokers_of = bs @ [b'], calls = map (\<lambda>j. late_call j c) (js @ [?j])\<rparr>"
    using late_worker [OF r2, of n ?j c] bs(1) adm(2) by (simp add: nth_append list_update_append)
  then show ?case using bs adm(3-5)
    by (intro exI [of _ "bs @ [b']"] exI [of _ "js @ [?j]"]) (simp add: for_new_cycle_def)
qed

lemma check_late:
  assumes "reach I pool_step \<lparr>pl = p, brokers_of = bs, calls = map (\<lambda>j. hung_call j c) hs @ map (\<lambda>j. late_call j c) js\<rparr>"
  shows "\<exists>p' ks. reach I pool_step \<lparr>pl = p', brokers_of = bs, calls = ks\<rparr> \<and> quarantined p' = quarantined p + int (length js)"
  using assms
proof (induction js arbitrary: p hs)
  case Nil
  then show ?case by auto
next
  case (Cons j js)
  let ?s = "\<lparr>pl = p, brokers_of = bs, calls = map (\<lambda>j. hung_call j c) hs @ map (\<lambda>j. late_call j c) (j # js)\<rparr>"
  have "reach I pool_step (on_call (length hs) check_step ?s)"
    using Cons.prems by (rule reach_step) (intro step_check; simp add: nth_append late_call_def)
  moreover have "on_call (length hs) check_step ?s =
      \<lparr>pl = enter_quarantine c p, brokers_of = bs, calls = map (\<lambda>j. hung_call j c) (hs @ [j]) @ map (\<lambda>j. late_call j c) js\<rparr>"
    by (rule sysst.equality) (simp_all add: nth_append list_update_append check_step_def late_call_def hung_call_def)
  ultimately have "reach I pool_step \<lparr>pl = enter_quarantine c p, brokers_of = bs, calls = map (\<lambda>j. hung_call j c) (hs @ [j]) @ map (\<lambda>j. late_call j c) js\<rparr>" by simp
  from Cons.IH [OF this] show ?case by (auto simp: enter_quarantine_def)
qed

end
