(* ===== verification/BrokerResults.thy ===== *)
theory BrokerResults
  imports BrokerPool
begin

text \<open>
  Lemmas on one request of the capability broker: sanitised values, results, arguments, admission.
\<close>

section \<open>Sanitised values\<close>

fun no_reserved :: "pyval \<Rightarrow> bool" where
  "no_reserved (PList xs) = list_all no_reserved xs"
| "no_reserved (PDict d) = list_all (\<lambda>kv. \<not> reserved_key (fst kv) \<and> no_reserved (snd kv)) d"
| "no_reserved (PFloat (FFin _ _)) = True"
| "no_reserved (PFloat _) = False"
| "no_reserved _ = True"

text \<open>Containers nested at most \<open>n\<close> deep.\<close>

fun nested_within :: "nat \<Rightarrow> pyval \<Rightarrow> bool" where
  "nested_within n (PList xs) = (0 < n \<and> list_all (nested_within (n - 1)) xs)"
| "nested_within n (PDict d) = (0 < n \<and> list_all (\<lambda>kv. nested_within (n - 1) (snd kv)) d)"
| "nested_within n _ = True"

lemma add_chars_Inr: "add_chars limit n v st = Inr r \<Longrightarrow> fst r = v"
  by (auto simp: add_chars_def Let_def split: if_splits)

lemma sanitize_clean:
  "sanitize limit level v st = Inr (v', st') \<Longrightarrow> no_reserved v' \<and> nested_within (Suc MAX_RESULT_DEPTH - level) v'"
  "sanitize_list limit level xs st = Inr (xs', st') \<Longrightarrow> list_all no_reserved xs' \<and> list_all (nested_within (MAX_RESULT_DEPTH - level)) xs'"
  "sanitize_items limit level d st = Inr (d', st') \<Longrightarrow>
     list_all (\<lambda>kv. \<not> reserved_key (fst kv) \<and> no_reserved (snd kv)) d' \<and> list_all (\<lambda>kv. nested_within (MAX_RESULT_DEPTH - level) (snd kv)) d'"
proof (induction limit level v st and limit level xs st and limit level d st arbitrary: v' st' and xs' st' and d' st'
    rule: sanitize_sanitize_list_sanitize_items.induct)
  case (1 limit level v st0)
  let ?st = "st0\<lparr>nodes := Suc (nodes st0)\<rparr>"
  from "1.prems" have nodes: "\<not> MAX_RESULT_NODES < nodes ?st" by (auto simp: Let_def split: if_splits)
  show ?case
  proof (cases v)
    case (PList xs)
    with "1.prems" nodes obtain xs' where "sanitize_list limit level xs ?st = Inr (xs', st')" "v' = PList xs'" "level \<le> MAX_RESULT_DEPTH"
      by (auto simp: ebind_Inr_iff split: if_splits)
    with "1.IH"(1) [OF refl nodes PList] show ?thesis by (auto simp: Suc_diff_le)
  next
    case (PDict d)
    with "1.prems" nodes obtain d' where "sanitize_items limit level d ?st = Inr (d', st')" "v' = PDict d'" "level \<le> MAX_RESULT_DEPTH"
      by (auto simp: ebind_Inr_iff split: if_splits)
    with "1.IH"(2) [OF refl nodes PDict] show ?thesis by (auto simp: Suc_diff_le)
  next
    case (PFloat f)
    with "1.prems" nodes show ?thesis by (cases f) (auto dest: add_chars_Inr split: if_splits)
  qed (use "1.prems" nodes in \<open>auto dest!: add_chars_Inr split: if_splits\<close>)
next
  case (3 limit level x xs st)
  then show ?case by (fastforce simp: ebind_Inr_iff)
next
  case (5 limit level k x rest st)
  then show ?case by (fastforce simp: ebind_Inr_iff Let_def split: if_splits)
qed (auto)

lemma sanitize_dict: "sanitize limit level (PDict d) st = Inr (v, st') \<Longrightarrow> is_dict v"
  by (auto simp: ebind_Inr_iff Let_def split: if_splits)

lemma add_chars_Inl: "add_chars limit n v st = Inl r \<Longrightarrow> fst r = TRUNCATED"
  by (auto simp: add_chars_def Let_def split: if_splits)

lemma sanitize_reject:
  "sanitize limit level v st = Inl r \<Longrightarrow> fst r \<in> {TRUNCATED, INVALID}"
  "sanitize_list limit level xs st = Inl r \<Longrightarrow> fst r \<in> {TRUNCATED, INVALID}"
  "sanitize_items limit level d st = Inl r \<Longrightarrow> fst r \<in> {TRUNCATED, INVALID}"
proof (induction limit level v st and limit level xs st and limit level d st rule: sanitize_sanitize_list_sanitize_items.induct)
  case (1 limit level v st0)
  show ?case
  proof (cases v)
    case (PList xs)
    with 1 show ?thesis by (auto simp: Let_def ebind_Inl_iff split: if_splits)
  next
    case (PDict d)
    with 1 show ?thesis by (auto simp: Let_def ebind_Inl_iff split: if_splits)
  next
    case (PFloat f)
    with "1.prems" show ?thesis by (cases f) (auto simp: Let_def dest: add_chars_Inl split: if_splits)
  qed (use "1.prems" in \<open>auto simp: Let_def dest: add_chars_Inl split: if_splits\<close>)
next
  case (3 limit level x xs st)
  then show ?case by (auto simp: ebind_Inl_iff)
next
  case (5 limit level k x rest st)
  then show ?case by (auto simp: ebind_Inl_iff Let_def split: if_splits)
qed auto

declare sanitize.simps [simp del]

section \<open>Results\<close>

lemma cap_result_simps [simp]:
  "r_status (cap_result e reg rq st err) = st" "r_data (cap_result e reg rq st err) = []" "r_refs (cap_result e reg rq st err) = []"
  "r_error (cap_result e reg rq st err) = err" "r_age (cap_result e reg rq st err) = None" "r_component (cap_result e reg rq st err) = []"
  by (simp_all add: cap_result_def)

lemma with_base_simps [simp]:
  "r_status (with_base sp a r) = r_status r" "r_data (with_base sp a r) = r_data r" "r_refs (with_base sp a r) = r_refs r"
  "r_error (with_base sp a r) = r_error r" "r_age (with_base sp a r) = r_age r" "r_component (with_base sp a r) = spec_component sp"
  by (simp_all add: with_base_def)

text \<open>What a caller may rely on when a result of capability \<open>spec\<close> is \<open>ok\<close>; nothing is handed out otherwise.\<close>

definition safe_result :: "cspec \<Rightarrow> int option \<Rightarrow> cres \<Rightarrow> bool" where
  "safe_result spec max_age res =
     (if r_status res = OK
      then no_reserved (PDict (r_data res)) \<and> nested_within MAX_RESULT_DEPTH (PDict (r_data res))
        \<and> int (rendered_length (PDict (r_data res))) \<le> max_result_chars spec
        \<and> distinct (r_refs res) \<and> length (r_refs res) \<le> MAX_EVIDENCE_REFS \<and> list_all IDENT_RE (r_refs res)
        \<and> r_component res = spec_component spec
        \<and> (case max_age of None \<Rightarrow> True | Some a \<Rightarrow> (case r_age res of None \<Rightarrow> False | Some b \<Rightarrow> 0 \<le> b \<and> b \<le> a))
      else r_data res = [] \<and> r_refs res = [])"

lemma clean_refs_ok: "distinct (clean_refs xs) \<and> list_all IDENT_RE (clean_refs xs)"
  by (auto simp: clean_refs_def list_all_iff)

lemma check_refs_ok:
  assumes "check_refs refs = (good, lms)"
  shows "distinct good \<and> length good \<le> MAX_EVIDENCE_REFS \<and> list_all IDENT_RE good"
proof (cases "is_list refs")
  case True
  with assms have "good = clean_refs (list_val refs) \<and> length good \<le> MAX_EVIDENCE_REFS \<or> good = take MAX_EVIDENCE_REFS (clean_refs (list_val refs))"
    by (auto simp: check_refs_def Let_def split: if_splits)
  with clean_refs_ok [of "list_val refs"] show ?thesis
    by (auto simp: list_all_iff dest: in_set_takeD)
qed (use assms in \<open>auto simp: check_refs_def\<close>)

lemma finalize_safe:
  assumes "finalize_result e reg rq spec raw max_age = Inr res"
  shows "safe_result spec max_age res"
proof (cases "is_dict raw")
  case False
  with assms show ?thesis by (auto simp: finalize_result_def safe_result_def)
next
  case True
  define d1 where "d1 = AList.delete ''source_timestamp'' (AList.delete ''evidence_refs'' (dict_of raw))"
  define ts where "ts = dget (dict_of raw) ''source_timestamp''"
  define refs where "refs = (case map_of (dict_of raw) ''evidence_refs'' of None \<Rightarrow> PList [] | Some r \<Rightarrow> r)"
  note out = assms [unfolded finalize_result_def Let_def, folded d1_def ts_def refs_def]
  show ?thesis
  proof (cases "sanitize (max_result_chars spec) 1 (PDict d1) \<lparr>nodes = 0, chars = 0, stripped = 0\<rparr>")
    case (Inl r)
    with sanitize_reject(1) [OF Inl] True out show ?thesis by (cases r) (auto simp: safe_result_def)
  next
    case (Inr r)
    obtain clean st good lms where r: "r = (clean, st)" and g: "check_refs refs = (good, lms)" by (cases r, cases "check_refs refs")
    have "is_dict clean" using sanitize_dict [OF Inr [unfolded r]] .
    then obtain d' where d': "clean = PDict d'" by (cases clean) auto
    have clean: "no_reserved (PDict d')" "nested_within MAX_RESULT_DEPTH (PDict d')"
      using sanitize_clean(1) [OF Inr [unfolded r]] d' by (simp_all add: MAX_RESULT_DEPTH_def)
    show ?thesis using out True check_refs_ok [OF g] clean
      unfolding Inr r g d'
      by (auto simp: safe_result_def ebind_Inr_iff max_def split: if_splits option.splits sum.splits)
  qed
qed

section \<open>Arguments\<close>

definition conforms :: "pspec \<Rightarrow> pyval \<Rightarrow> bool" where
  "conforms ps v = (case p_kind ps of
      Text \<Rightarrow> is_text v \<and> int (length (py_str v)) \<le> p_max_length ps \<and> \<not> list_ex text_forbidden (py_str v)
    | Identifier \<Rightarrow> is_text v \<and> int (length (py_str v)) \<le> p_max_length ps \<and> IDENT_RE (py_str v) \<and> \<not> has_sub ''..'' (py_str v)
    | Integer \<Rightarrow> is_int v \<and> p_minimum ps \<le> int_val v \<and> int_val v \<le> p_maximum ps
    | Boolean \<Rightarrow> v \<in> {PBool True, PBool False})"

lemma check_value_conforms: "check_value e name ps v = (entry, []) \<Longrightarrow> conforms ps v"
  by (cases v; cases "p_kind ps") (auto simp: check_value_def conforms_def Let_def split: if_splits)

lemma validate_step:
  assumes "validate_params e ((name, ps) # rest) supplied out audit = (out', audit', [])"
  obtains "map_of supplied name = None" "\<not> p_required ps" "validate_params e rest supplied out audit = (out', audit', [])"
  | v a where "map_of supplied name = Some v" "conforms ps v" "validate_params e rest supplied (AList.update name v out) a = (out', audit', [])"
proof (cases "map_of supplied name")
  case None
  with assms that(1) show ?thesis by (auto split: if_splits)
next
  case (Some v)
  obtain entry err where c: "check_value e name ps v = (entry, err)" by (cases "check_value e name ps v")
  with assms Some have "err = []" by (auto simp: Let_def split: if_splits)
  with assms Some c that(2) check_value_conforms show ?thesis by (auto simp: Let_def)
qed

lemma validated_values:
  "validate_params e ps supplied out audit = (out', audit', []) \<Longrightarrow> map_of out' k = Some v \<Longrightarrow>
     map_of out k = Some v \<or> map_of supplied k = Some v \<and> (\<exists>p. (k, p) \<in> set ps \<and> conforms p v)"
proof (induction ps arbitrary: out audit)
  case (Cons x ps)
  obtain name p where x: "x = (name, p)" by (cases x)
  from Cons.prems(1) [unfolded x] show ?case
  proof (cases rule: validate_step)
    case 1
    with Cons.IH Cons.prems(2) show ?thesis by fastforce
  next
    case (2 w a)
    with Cons.IH [OF 2(3) Cons.prems(2)] x show ?thesis by (auto simp: dict_simps split: if_splits)
  qed
qed simp

lemma validated_required:
  "validate_params e ps supplied out audit = (out', audit', []) \<Longrightarrow> (k, p) \<in> set ps \<Longrightarrow> p_required p \<Longrightarrow> map_of supplied k \<noteq> None"
proof (induction ps arbitrary: out audit)
  case (Cons x ps)
  obtain name q where x: "x = (name, q)" by (cases x)
  from Cons.prems(1) [unfolded x] show ?case by (cases rule: validate_step) (use Cons x in auto)
qed simp

lemma validated_complete:
  "validate_params e ps supplied out audit = (out', audit', []) \<Longrightarrow> map_of out k \<in> {None, map_of supplied k} \<Longrightarrow>
     map_of out k \<noteq> None \<or> k \<in> fst ` set ps \<Longrightarrow> map_of out' k = map_of supplied k"
proof (induction ps arbitrary: out audit)
  case (Cons x ps)
  obtain name p where x: "x = (name, p)" by (cases x)
  from Cons.prems(1) [unfolded x] show ?case
  proof (cases rule: validate_step)
    case 1
    show ?thesis
    proof (cases "map_of out k \<noteq> None \<or> k \<in> fst ` set ps")
      case True
      with Cons.IH [OF 1(3)] Cons.prems(2) show ?thesis by simp
    next
      case False
      with Cons.prems(3) x have "k = name" by auto
      with False 1 validated_values [OF 1(3), of k] show ?thesis by (cases "map_of out' k") auto
    qed
  next
    case (2 w a)
    show ?thesis by (rule Cons.IH [OF 2(3)]) (use Cons.prems 2 x in \<open>auto simp: dict_simps\<close>)
  qed
qed auto

lemma validate_arguments_ok:
  assumes "validate_arguments e v spec = (args, audit, [])"
  obtains supplied where "v = PDict supplied" "set (map fst supplied) \<subseteq> set (map fst (params spec))"
    "validate_params e (params spec) supplied [] [] = (args, audit, [])"
proof -
  from assms obtain supplied where v: "v = PDict supplied" by (cases v) (auto simp: validate_arguments_def)
  with assms have "filter (\<lambda>kv. \<not> has_key (params spec) (fst kv)) supplied = []"
    and val: "validate_params e (params spec) supplied [] [] = (args, audit, [])"
    by (auto simp: validate_arguments_def Let_def split: if_splits)
  then have "set (map fst supplied) \<subseteq> set (map fst (params spec))"
    by (auto simp: filter_empty_conv has_key_def)
  with v val that show ?thesis by blast
qed

section \<open>Preparing and admitting\<close>

lemma prepare_Inl: "prepare e reg rq = Inl (res, audit) \<Longrightarrow> r_status res \<in> {REJECTED, INVALID} \<and> r_data res = [] \<and> r_refs res = []"
  by (auto simp: prepare_def Let_def split: if_splits option.splits prod.splits pyval.splits)

lemma prepare_Inr:
  assumes "prepare e reg rq = Inr pr"
  shows "rq_capability rq = PStr (pr_cap pr)" "map_of reg (pr_cap pr) = Some (pr_spec pr)"
    "validate_arguments e (rq_arguments rq) (pr_spec pr) = (pr_args pr, pr_audit pr, [])"
    "spec_max_age (pr_spec pr) = Some a \<or> rq_max_age rq = PInt a \<Longrightarrow> \<exists>b\<le>a. pr_max_age pr = Some b"
proof -
  from assms obtain c where c: "rq_capability rq = PStr c"
    by (cases "rq_capability rq") (auto simp: prepare_def Let_def split: if_splits)
  with assms obtain spec where spec: "map_of reg c = Some spec"
    by (auto simp: prepare_def Let_def split: if_splits option.splits)
  obtain args audit err where v: "validate_arguments e (rq_arguments rq) spec = (args, audit, err)" by (cases "validate_arguments e (rq_arguments rq) spec")
  note out = assms [unfolded prepare_def Let_def c py_str.simps spec option.case v prod.case]
  from out c spec v show "rq_capability rq = PStr (pr_cap pr)" "map_of reg (pr_cap pr) = Some (pr_spec pr)"
    "validate_arguments e (rq_arguments rq) (pr_spec pr) = (pr_args pr, pr_audit pr, [])"
    by (auto split: if_splits pyval.splits)
  from out show "spec_max_age (pr_spec pr) = Some a \<or> rq_max_age rq = PInt a \<Longrightarrow> \<exists>b\<le>a. pr_max_age pr = Some b"
    by (auto split: if_splits pyval.splits option.splits)
qed

text \<open>A call either spends nothing and runs nothing, or was admitted.\<close>

lemma submit_inner_cases:
  assumes "submit_inner e w rq b p = (res, audit, b', p', hrun)"
  obtains "b' = b" "p' = p" "hrun = None" "r_status res \<in> {REJECTED, INVALID}" "r_data res = []" "r_refs res = []"
  | pr b1 p1 where "prepare e (capabilities b) rq = Inr pr" "admit (pr_cap pr) (pr_spec pr) b p = Inr (b1, p1)"
      "b' = b1\<lparr>bclosed := wait_closed w\<rparr>" "hrun = (if w = StartFailed then None else Some (pr_args pr))"
      "after_wait e (capabilities b) rq pr w = Inr res \<and> audit = pr_audit pr
        \<or> (\<exists>cls. after_wait e (capabilities b) rq pr w = Inl cls \<and> res = internal_error e (capabilities b) rq cls \<and> audit = [])"
proof (cases "prepare e (capabilities b) rq")
  case (Inl r)
  with assms prepare_Inl that(1) show ?thesis by (cases r) (fastforce simp: submit_inner_def)
next
  case (Inr pr)
  show ?thesis
  proof (cases "admit (pr_cap pr) (pr_spec pr) b p")
    case (Inl reason)
    with Inr assms that(1) show ?thesis by (auto simp: submit_inner_def)
  next
    case adm: (Inr r)
    with Inr assms that(2) show ?thesis
      by (cases r) (auto simp: submit_inner_def Let_def split: sum.splits)
  qed
qed

lemma submit_inner_of:
  assumes "submit e w rq b p = (res, b', p', hrun)"
  obtains r audit b1 where "submit_inner e w rq b p = (r, audit, b1, p', hrun)" "res = r\<lparr>r_latency_ms := latency e\<rparr>"
    "b' = append_audit (audit_record e (capabilities b) rq res audit) b1"
  using assms by (cases "submit_inner e w rq b p") (auto simp: submit_def Let_def)

end
