(* ===== verification/BrokerProperties.thy ===== *)
theory BrokerProperties
  imports BrokerThreads BrokerResults
begin

text \<open>
  What the capability broker promises: results are sanitised and bounded, handlers see only what their
  schema allows, call budgets hold, the audit keeps no free text, and worker threads stay within their
  limits under every interleaving.
\<close>

declare sanitize.simps [simp del]

interpretation broker_audit: bounded_log baudit audit_capacity "\<lambda>b r. r" append_audit
  by unfold_locales (simp_all add: append_audit_def push_bounded_def)

lemma append_audit_simps [simp]:
  "capabilities (append_audit r b) = capabilities b" "max_total_calls (append_audit r b) = max_total_calls b"
  "total_calls (append_audit r b) = total_calls b" "per_capability_calls (append_audit r b) = per_capability_calls b"
  "bclosed (append_audit r b) = bclosed b" "audit_capacity (append_audit r b) = audit_capacity b"
  by (simp_all add: append_audit_def)

lemma safe_result_latency [simp]: "safe_result sp a (r\<lparr>r_latency_ms := n\<rparr>) = safe_result sp a r"
  by (cases a) (simp_all add: safe_result_def)

lemma after_wait_safe:
  assumes "after_wait e reg rq pr w = Inr res"
  shows "safe_result (pr_spec pr) (pr_max_age pr) res" and "r_status res = OK \<Longrightarrow> w = Finished False"
  using assms finalize_safe [of e reg rq "pr_spec pr" _ "pr_max_age pr" res]
  by (auto simp: after_wait_def Let_def safe_result_def split: waited.splits if_splits hout.splits)

section \<open>An example broker\<close>

definition ex_spec :: "(pydict \<Rightarrow> hout) \<Rightarrow> cspec" where
  "ex_spec h = \<lparr>handler = h, max_calls_per_cycle = 2, max_result_chars = 100, params = DEFAULT_PARAMS, timeout_seconds = 2,
     max_concurrency = 1, spec_max_age = None, spec_component = ''edge''\<rparr>"

definition ex_broker :: "(pydict \<Rightarrow> hout) \<Rightarrow> broker" where
  "ex_broker h = \<lparr>capabilities = [(''dns'', ex_spec h)], max_total_calls = 4, total_calls = 0, per_capability_calls = (\<lambda>_. 0),
     max_in_flight = 1, bclosed = False, baudit = [], audit_capacity = 2\<rparr>"

definition ex_caps :: "(pydict \<Rightarrow> hout) \<Rightarrow> (pyval \<times> raw_spec option) list" where
  "ex_caps h = [(PStr ''dns'', Some \<lparr>raw_core = ex_spec h, raw_params = Some (map (\<lambda>kp. (PStr (fst kp), Some (snd kp))) DEFAULT_PARAMS)\<rparr>)]"

definition ex_request :: "pydict \<Rightarrow> creq" where
  "ex_request args = \<lparr>rq_exact = True, rq_request_id = PStr ''r'', rq_trace_id = PStr ''t'', rq_capability = PStr ''dns'', rq_arguments = PDict args,
     rq_purpose = PList [], rq_max_age = PNone\<rparr>"

definition ex_env :: benv where
  "ex_env = \<lparr>hmac = (\<lambda>_. ''0''), id_safe = (\<lambda>_. False), iso = (\<lambda>_. ''''), parse_iso = (\<lambda>_. None), clk_check = Inr 0, clk_result = None, latency = 0\<rparr>"

lemma ex_made: "make_broker (ex_caps h) 4 1 1 2 = Inr (ex_broker h, shared_limits [(''dns'', ex_spec h)] 1 1)"
proof -
  have names: "NAME_RE ''dns''" "PARAM_NAME_RE ''question''" "PARAM_NAME_RE ''frame_id''" "IDENT_RE ''edge''"
    "\<not> name_forbidden ''dns'' FORBIDDEN_NAME_TOKENS FORBIDDEN_NAME_STEMS" "\<not> name_forbidden ''question'' FORBIDDEN_PARAM_TOKENS FORBIDDEN_PARAM_STEMS"
    "\<not> name_forbidden ''frame_id'' FORBIDDEN_PARAM_TOKENS FORBIDDEN_PARAM_STEMS" by code_simp+
  then show ?thesis
    by (simp add: make_broker_def ex_caps_def frozen_spec_def DEFAULT_PARAMS_def Let_def ex_broker_def) (simp add: ex_spec_def DEFAULT_PARAMS_def)
qed

lemma ex_initial: "pool_initial [(''dns'', ex_spec h)] 1 1 \<lparr>pl = shared_limits [(''dns'', ex_spec h)] 1 1, brokers_of = [ex_broker h], calls = []\<rparr>"
  using pool_made [OF ex_made [of h]] by (simp add: ex_broker_def)

lemma ex_prepare: "prepare ex_env [(''dns'', ex_spec h)] (ex_request []) =
    Inr \<lparr>pr_cap = ''dns'', pr_spec = ex_spec h, pr_args = [], pr_audit = [], pr_max_age = None\<rparr>"
proof -
  have "NAME_RE ''dns''" "\<not> bad_id 128 (PStr ''r'')" "\<not> bad_id 128 (PStr ''t'')" by code_simp+
  then show ?thesis by (simp add: prepare_def ex_request_def Let_def validate_arguments_def ex_spec_def DEFAULT_PARAMS_def)
qed

lemma ex_submit:
  "submit ex_env (Finished False) (ex_request []) (ex_broker h) (shared_limits [(''dns'', ex_spec h)] 1 1) =
     (let res = (case after_wait ex_env [(''dns'', ex_spec h)] (ex_request []) \<lparr>pr_cap = ''dns'', pr_spec = ex_spec h, pr_args = [], pr_audit = [], pr_max_age = None\<rparr> (Finished False)
         of Inl cls \<Rightarrow> internal_error ex_env [(''dns'', ex_spec h)] (ex_request []) cls | Inr r \<Rightarrow> r)\<lparr>r_latency_ms := 0\<rparr>
      in (res, append_audit (audit_record ex_env [(''dns'', ex_spec h)] (ex_request []) res [])
          (ex_broker h\<lparr>total_calls := 1, per_capability_calls := (\<lambda>_. 0)(''dns'' := 1)\<rparr>), shared_limits [(''dns'', ex_spec h)] 1 1, Some []))"
proof -
  have adm: "admit ''dns'' (ex_spec h) (ex_broker h) (shared_limits [(''dns'', ex_spec h)] 1 1) =
      Inr (ex_broker h\<lparr>total_calls := 1, per_capability_calls := (\<lambda>_. 0)(''dns'' := 1)\<rparr>,
        (shared_limits [(''dns'', ex_spec h)] 1 1)\<lparr>global_slots := 0, capability_slots := (cap_limit [(''dns'', ex_spec h)])(''dns'' := 0),
          in_flight := 1, in_flight_per_capability := (\<lambda>_. 0)(''dns'' := 1)\<rparr>)"
    by (simp add: admit_def Let_def ex_broker_def ex_spec_def cap_limit_def)
  have caps: "capabilities (ex_broker h) = [(''dns'', ex_spec h)]" by (simp add: ex_broker_def)
  have opened: "ex_broker h\<lparr>total_calls := 1, per_capability_calls := f, bclosed := False\<rparr> = ex_broker h\<lparr>total_calls := 1, per_capability_calls := f\<rparr>" for f
    by (simp add: ex_broker_def)
  have restored: "release_slot ''dns'' ((shared_limits [(''dns'', ex_spec h)] 1 1)\<lparr>global_slots := 0, capability_slots := (cap_limit [(''dns'', ex_spec h)])(''dns'' := 0),
          in_flight := 1, in_flight_per_capability := (\<lambda>_. 0)(''dns'' := 1)\<rparr>) = shared_limits [(''dns'', ex_spec h)] 1 1"
    by (simp add: release_slot_def pool_ops shared_limits_def cap_limit_def fun_eq_iff ex_spec_def)
  show ?thesis
    unfolding submit_def submit_inner_def caps ex_prepare
    by (simp add: adm restored opened caps wait_closed_def Let_def ex_env_def [THEN arg_cong, of latency] split: sum.split)
qed

section \<open>Properties of a request\<close>

text \<open>C8. Only a request of a registered capability whose handler finished in time within an open cycle gets data. The
  data then has no reserved key at any depth, no value that JSON lacks, at most four levels and at most the
  capability's characters when rendered; the references are distinct, well formed and at most 32; the component is the
  registered one, and the age is known and within both freshness limits. In every other case there is no data.\<close>
theorem result_is_sanitised:
  assumes "submit e w rq b p = (res, b', p', hrun)"
  shows "if r_status res = OK
    then \<exists>c sp. rq_capability rq = PStr c \<and> map_of (capabilities b) c = Some sp \<and> w = Finished False \<and> \<not> bclosed b
      \<and> no_reserved (PDict (r_data res)) \<and> nested_within 4 (PDict (r_data res))
      \<and> int (rendered_length (PDict (r_data res))) \<le> max_result_chars sp
      \<and> distinct (r_refs res) \<and> length (r_refs res) \<le> 32 \<and> list_all IDENT_RE (r_refs res) \<and> r_component res = spec_component sp
      \<and> (\<forall>a. spec_max_age sp = Some a \<or> rq_max_age rq = PInt a \<longrightarrow> (\<exists>g. r_age res = Some g \<and> 0 \<le> g \<and> g \<le> a))
    else r_data res = [] \<and> r_refs res = []"
proof -
  from assms obtain r audit b1 where inner: "submit_inner e w rq b p = (r, audit, b1, p', hrun)" and res: "res = r\<lparr>r_latency_ms := latency e\<rparr>"
    by (rule submit_inner_of)
  from inner show ?thesis
  proof (cases rule: submit_inner_cases)
    case 1
    with res show ?thesis by auto
  next
    case (2 pr c1 p1)
    show ?thesis
    proof (cases "after_wait e (capabilities b) rq pr w")
      case (Inl cls)
      with 2 res show ?thesis by (auto simp: internal_error_def)
    next
      case (Inr r')
      with 2 have r': "r' = r" by auto
      note safe = after_wait_safe [OF Inr [unfolded r']]
      have safe': "safe_result (pr_spec pr) (pr_max_age pr) res" using safe(1) res by simp
      show ?thesis
      proof (cases "r_status res = OK")
        case True
        have "\<exists>g. r_age res = Some g \<and> 0 \<le> g \<and> g \<le> a" if "spec_max_age (pr_spec pr) = Some a \<or> rq_max_age rq = PInt a" for a
          using prepare_Inr(4) [OF 2(1) that] safe' True by (auto simp: safe_result_def split: option.splits)
        moreover have "w = Finished False" "\<not> bclosed b" using True res safe(2) 2(2) by (simp_all add: admit_Inr)
        ultimately show ?thesis
          using True safe' prepare_Inr(1,2) [OF 2(1)] by (simp add: safe_result_def MAX_RESULT_DEPTH_def MAX_EVIDENCE_REFS_def)
      qed (use safe' in \<open>simp add: safe_result_def\<close>)
    qed
  qed
qed

definition ex_answer :: "pydict \<Rightarrow> hout" where
  "ex_answer _ = Returned (PDict [(''Trust'', PStr ''me''), (''n'', PInt 1)])"

lemma ex_answered:
  "after_wait ex_env [(''dns'', ex_spec ex_answer)] (ex_request []) \<lparr>pr_cap = ''dns'', pr_spec = ex_spec ex_answer, pr_args = [], pr_audit = [], pr_max_age = None\<rparr> (Finished False)
     = Inr ((with_base (ex_spec ex_answer) None (cap_result ex_env [(''dns'', ex_spec ex_answer)] (ex_request []) OK []))
        \<lparr>r_chars := 8, r_limitations := [''adapter_reserved_keys_ignored''], r_data := [(''n'', PInt 1)]\<rparr>)"
proof -
  have san: "sanitize 100 (Suc 0) (PDict [(''Trust'', PStr ''me''), (''n'', PInt 1)]) \<lparr>nodes = 0, chars = 0, stripped = 0\<rparr> =
      Inr (PDict [(''n'', PInt 1)], \<lparr>nodes = 2, chars = 22, stripped = 1\<rparr>)" by code_simp
  have len: "rendered_length (PDict [(''n'', PInt 1)]) = 8" by code_simp
  show ?thesis
    by (simp add: after_wait_def finalize_result_def ex_answer_def ex_spec_def san len check_refs_def clean_refs_def dict_simps Let_def ex_env_def
        cap_result_def with_base_def)
qed

theorem result_is_sanitised_witness:
  "\<exists>res b p. submit ex_env (Finished False) (ex_request []) (ex_broker ex_answer) (shared_limits [(''dns'', ex_spec ex_answer)] 1 1) = (res, b, p, Some [])
     \<and> r_status res = OK \<and> r_data res = [(''n'', PInt 1)] \<and> no_reserved (PDict (r_data res))"
proof -
  obtain res b p where s: "submit ex_env (Finished False) (ex_request []) (ex_broker ex_answer) (shared_limits [(''dns'', ex_spec ex_answer)] 1 1) = (res, b, p, Some [])"
    and res: "r_status res = OK" "r_data res = [(''n'', PInt 1)]"
    by (simp add: ex_submit ex_answered Let_def)
  from result_is_sanitised [OF s] res have "no_reserved (PDict (r_data res))" by auto
  with s res show ?thesis by blast
qed

text \<open>C9. A handler runs only for an admitted request, and its arguments are exactly the supplied ones: every name is a
  parameter of the capability, every value conforms to that parameter's schema, and no required parameter is missing.\<close>
theorem handler_sees_only_its_schema:
  assumes "submit e w rq b p = (res, b', p', Some args)"
  shows "\<exists>c sp supplied. rq_capability rq = PStr c \<and> map_of (capabilities b) c = Some sp \<and> rq_arguments rq = PDict supplied
    \<and> \<not> bclosed b \<and> total_calls b < max_total_calls b \<and> per_capability_calls b c < max_calls_per_cycle sp
    \<and> (\<forall>k. map_of args k = map_of supplied k)
    \<and> (\<forall>k v. map_of args k = Some v \<longrightarrow> (\<exists>ps. (k, ps) \<in> set (params sp) \<and> conforms ps v))
    \<and> (\<forall>k ps. (k, ps) \<in> set (params sp) \<and> p_required ps \<longrightarrow> map_of args k \<noteq> None)"
proof -
  from assms obtain r audit b1 where inner: "submit_inner e w rq b p = (r, audit, b1, p', Some args)" by (rule submit_inner_of)
  from inner show ?thesis
  proof (cases rule: submit_inner_cases)
    case (2 pr c1 p1)
    then have args: "args = pr_args pr" by (auto split: if_splits)
    from prepare_Inr(3) [OF 2(1)] obtain supplied where s: "rq_arguments rq = PDict supplied"
      "set (map fst supplied) \<subseteq> set (map fst (params (pr_spec pr)))"
      "validate_params e (params (pr_spec pr)) supplied [] [] = (args, pr_audit pr, [])"
      unfolding args by (rule validate_arguments_ok)
    have eq: "map_of args k = map_of supplied k" for k
    proof (cases "k \<in> fst ` set (params (pr_spec pr))")
      case True
      with validated_complete [OF s(3), of k] show ?thesis by simp
    next
      case False
      with s(2) have none: "map_of supplied k = None" by (auto simp: map_of_eq_None_iff)
      with validated_values [OF s(3), of k] show ?thesis by (cases "map_of args k") auto
    qed
    have "\<exists>ps. (k, ps) \<in> set (params (pr_spec pr)) \<and> conforms ps v" if "map_of args k = Some v" for k v
      using validated_values [OF s(3) that] by auto
    moreover have "map_of args k \<noteq> None" if "(k, ps) \<in> set (params (pr_spec pr))" "p_required ps" for k ps
      using validated_required [OF s(3) that] eq by simp
    ultimately show ?thesis using prepare_Inr(1,2) [OF 2(1)] s(1) eq 2(2) by (auto simp: admit_Inr)
  qed simp
qed

theorem handler_sees_only_its_schema_witness:
  "\<exists>res b p args. submit ex_env (Finished False) (ex_request []) (ex_broker ex_answer) (shared_limits [(''dns'', ex_spec ex_answer)] 1 1) = (res, b, p, Some args)
     \<and> (\<forall>k. map_of args k = map_of [] k)"
proof -
  obtain res b p where s: "submit ex_env (Finished False) (ex_request []) (ex_broker ex_answer) (shared_limits [(''dns'', ex_spec ex_answer)] 1 1) = (res, b, p, Some [])"
    by (simp add: ex_submit Let_def)
  from handler_sees_only_its_schema [OF s] have "\<forall>k. map_of [] k = map_of ([] :: pydict) k" by (auto simp: ex_request_def)
  with s show ?thesis by blast
qed

text \<open>A refusal status does not mean that no handler ran: a handler whose answer carries an unusable timestamp runs and
  spends the budget, and the request is then answered \<open>invalid\<close> and audited as refused.\<close>
theorem refused_after_the_handler_ran:
  "\<exists>e rq b p res b' p'. submit e (Finished False) rq b p = (res, b', p', Some []) \<and> r_status res \<in> set REFUSAL_STATUSES
     \<and> total_calls b' = total_calls b + 1 \<and> dget (last (baudit b')) ''decision'' = PStr ''refused''"
proof -
  let ?h = "\<lambda>_. Returned (PDict [(''source_timestamp'', PBool True)])"
  let ?pr = "\<lparr>pr_cap = ''dns'', pr_spec = ex_spec ?h, pr_args = [], pr_audit = [], pr_max_age = None\<rparr>"
  have san: "sanitize 100 (Suc 0) (PDict []) \<lparr>nodes = 0, chars = 0, stripped = 0\<rparr> = Inr (PDict [], \<lparr>nodes = 1, chars = 0, stripped = 0\<rparr>)"
    by code_simp
  have len: "rendered_length (PDict []) = 2" by code_simp
  have fin: "after_wait ex_env [(''dns'', ex_spec ?h)] (ex_request []) ?pr (Finished False) =
      Inr (with_base (ex_spec ?h) None (cap_result ex_env [(''dns'', ex_spec ?h)] (ex_request []) INVALID ''source_timestamp_invalid''))"
    by (simp add: after_wait_def finalize_result_def ex_spec_def san len check_refs_def clean_refs_def dict_simps Let_def ex_env_def)
  let ?res = "(with_base (ex_spec ?h) None (cap_result ex_env [(''dns'', ex_spec ?h)] (ex_request []) INVALID ''source_timestamp_invalid''))\<lparr>r_latency_ms := 0\<rparr>"
  have s: "submit ex_env (Finished False) (ex_request []) (ex_broker ?h) (shared_limits [(''dns'', ex_spec ?h)] 1 1) =
      (?res, append_audit (audit_record ex_env [(''dns'', ex_spec ?h)] (ex_request []) ?res [])
        (ex_broker ?h\<lparr>total_calls := 1, per_capability_calls := (\<lambda>_. 0)(''dns'' := 1)\<rparr>), shared_limits [(''dns'', ex_spec ?h)] 1 1, Some [])"
    unfolding ex_submit fin by (simp add: Let_def)
  have "dget (last (baudit (append_audit (audit_record ex_env [(''dns'', ex_spec ?h)] (ex_request []) ?res [])
        (ex_broker ?h\<lparr>total_calls := 1, per_capability_calls := (\<lambda>_. 0)(''dns'' := 1)\<rparr>)))) ''decision'' = PStr ''refused''"
    by (simp add: append_audit_def ex_broker_def lastn_def audit_record_def REFUSAL_STATUSES_def dict_simps Let_def)
  with s show ?thesis
    by (intro exI conjI) (assumption, simp_all add: REFUSAL_STATUSES_def ex_broker_def)
qed

section \<open>Budgets\<close>

text \<open>The capabilities whose handlers a sequence of requests to one broker calls; the shared pool may be in any state each time.\<close>

fun handled :: "(benv \<times> waited \<times> creq \<times> pool) list \<Rightarrow> broker \<Rightarrow> string list" where
  "handled [] b = []"
| "handled ((e, w, rq, p) # rest) b =
     (let (res, b', p', hrun) = submit e w rq b p
      in (if hrun = None then [] else [py_str (rq_capability rq)]) @ handled rest b')"

lemma submit_spends:
  assumes "submit e w rq b p = (res, b', p', hrun)"
  shows "capabilities b' = capabilities b \<and> max_total_calls b' = max_total_calls b
    \<and> total_calls b \<le> total_calls b' \<and> (\<forall>c. per_capability_calls b c \<le> per_capability_calls b' c) \<and> (bclosed b \<longrightarrow> bclosed b' \<and> hrun = None)
    \<and> (hrun \<noteq> None \<longrightarrow> (\<exists>c sp. rq_capability rq = PStr c \<and> map_of (capabilities b) c = Some sp
         \<and> total_calls b < max_total_calls b \<and> total_calls b' = total_calls b + 1
         \<and> per_capability_calls b c < max_calls_per_cycle sp \<and> per_capability_calls b' c = per_capability_calls b c + 1))"
proof -
  from assms obtain r audit b1 where inner: "submit_inner e w rq b p = (r, audit, b1, p', hrun)"
    and b': "b' = append_audit (audit_record e (capabilities b) rq res audit) b1" by (rule submit_inner_of)
  from inner show ?thesis
  proof (cases rule: submit_inner_cases)
    case 1
    with b' show ?thesis by simp
  next
    case (2 pr b2 p1)
    with b' prepare_Inr(1,2) [OF 2(1)] show ?thesis by (auto simp: admit_Inr)
  qed
qed

text \<open>Over any sequence of requests to the broker of one cycle, whatever other cycles do to the shared pool meanwhile,
  handlers are called at most as often as the cycle's remaining budget, each capability at most as often as its own, and never
  once the cycle is closed.\<close>
theorem call_budget_holds:
  "int (length (handled xs b)) \<le> max 0 (max_total_calls b - total_calls b)
   \<and> (\<forall>c sp. map_of (capabilities b) c = Some sp \<longrightarrow> int (count_list (handled xs b) c) \<le> max 0 (max_calls_per_cycle sp - per_capability_calls b c))
   \<and> (bclosed b \<longrightarrow> handled xs b = [])"
proof (induction xs b rule: handled.induct)
  case (2 e w rq p rest b)
  obtain res b' p' hrun where s: "submit e w rq b p = (res, b', p', hrun)" by (cases "submit e w rq b p")
  note IH = 2 [OF s [symmetric] refl refl refl]
  note sp = submit_spends [OF s]
  show ?case
  proof (cases hrun)
    case None
    then have eq: "handled ((e, w, rq, p) # rest) b = handled rest b'" using s by simp
    have "int (count_list (handled rest b') c) \<le> max 0 (max_calls_per_cycle spc - per_capability_calls b c)"
      if "map_of (capabilities b) c = Some spc" for c spc
    proof -
      have "int (count_list (handled rest b') c) \<le> max 0 (max_calls_per_cycle spc - per_capability_calls b' c)" using IH sp that by simp
      moreover have "per_capability_calls b c \<le> per_capability_calls b' c" using sp by simp
      ultimately show ?thesis by linarith
    qed
    moreover have "int (length (handled rest b')) \<le> max 0 (max_total_calls b - total_calls b)" using IH sp by linarith
    ultimately show ?thesis unfolding eq using IH sp by blast
  next
    case (Some a)
    with sp obtain c0 sp0 where ran: "rq_capability rq = PStr c0" "map_of (capabilities b) c0 = Some sp0"
      "total_calls b < max_total_calls b" "total_calls b' = total_calls b + 1"
      "per_capability_calls b c0 < max_calls_per_cycle sp0" "per_capability_calls b' c0 = per_capability_calls b c0 + 1" by blast
    have eq: "handled ((e, w, rq, p) # rest) b = c0 # handled rest b'" using s Some ran(1) by simp
    have "int (count_list (c0 # handled rest b') c) \<le> max 0 (max_calls_per_cycle spc - per_capability_calls b c)"
      if "map_of (capabilities b) c = Some spc" for c spc
    proof -
      have "int (count_list (handled rest b') c) \<le> max 0 (max_calls_per_cycle spc - per_capability_calls b' c)" using IH sp that by simp
      moreover have "per_capability_calls b c \<le> per_capability_calls b' c" using sp by simp
      ultimately show ?thesis using that ran by (cases "c = c0") auto
    qed
    moreover have "int (length (c0 # handled rest b')) \<le> max 0 (max_total_calls b - total_calls b)" using IH sp ran by simp
    ultimately show ?thesis unfolding eq using sp Some by blast
  qed
qed simp

theorem call_budget_holds_witness:
  "int (count_list (handled (replicate 9 (ex_env, Finished False, ex_request [], shared_limits [] 1 1)) (ex_broker ex_answer)) ''dns'') \<le> 2"
proof -
  have b: "map_of (capabilities (ex_broker ex_answer)) ''dns'' = Some (ex_spec ex_answer)" "per_capability_calls (ex_broker ex_answer) ''dns'' = 0"
    "max_calls_per_cycle (ex_spec ex_answer) = 2" by (simp_all add: ex_broker_def ex_spec_def)
  have "int (count_list (handled xs (ex_broker ex_answer)) ''dns'') \<le> max 0 (max_calls_per_cycle (ex_spec ex_answer) - per_capability_calls (ex_broker ex_answer) ''dns'')" for xs
    using call_budget_holds [of xs "ex_broker ex_answer"] b(1) by blast
  then show ?thesis by (simp only: b) simp
qed

section \<open>The audit\<close>

text \<open>Two argument dictionaries that differ only in what free-text values say, not in their length or in having control characters.\<close>

definition same_text :: "pyval \<Rightarrow> pyval \<Rightarrow> bool" where
  "same_text v v' = (is_text v \<and> is_text v' \<and> length (py_str v) = length (py_str v')
     \<and> list_ex text_forbidden (py_str v) = list_ex text_forbidden (py_str v'))"

definition alike_args :: "cspec \<Rightarrow> pydict \<Rightarrow> pydict \<Rightarrow> bool" where
  "alike_args sp a a' = (map fst a = map fst a'
     \<and> (\<forall>k v v'. map_of a k = Some v \<and> map_of a' k = Some v' \<longrightarrow>
          v = v' \<or> same_text v v' \<and> (\<forall>ps. (k, ps) \<in> set (params sp) \<longrightarrow> p_kind ps = Text)))"

lemma check_value_text: "p_kind ps = Text \<Longrightarrow> same_text v v' \<Longrightarrow> check_value e k ps v = check_value e k ps v'"
  by (cases v; cases v') (simp_all add: same_text_def check_value_def Let_def)

lemma validate_params_audit:
  assumes "map fst a = map fst a'"
    and "\<forall>k v v'. map_of a k = Some v \<and> map_of a' k = Some v' \<longrightarrow> v = v' \<or> same_text v v' \<and> (\<forall>p. (k, p) \<in> set ps \<longrightarrow> p_kind p = Text)"
  shows "snd (validate_params e ps a out audit) = snd (validate_params e ps a' out' audit)"
  using assms(2)
proof (induction ps arbitrary: out out' audit)
  case (Cons x ps)
  obtain k p where x: "x = (k, p)" by (cases x)
  have dom: "map_of a k = None \<longleftrightarrow> map_of a' k = None"
    using assms(1) by (metis list.set_map map_of_eq_None_iff)
  have IH: "snd (validate_params e ps a out audit) = snd (validate_params e ps a' out' audit)" for out out' audit
    using Cons.prems by (intro Cons.IH) auto
  show ?case
  proof (cases "map_of a k")
    case None
    with dom x IH show ?thesis by simp
  next
    case (Some v)
    with dom obtain v' where v': "map_of a' k = Some v'" by auto
    with Some Cons.prems x have "v = v' \<or> same_text v v' \<and> p_kind p = Text" by auto
    then have "check_value e k p v = check_value e k p v'" using check_value_text by blast
    with Some v' x IH show ?thesis by (simp add: Let_def split: prod.split)
  qed
qed simp

lemma validate_arguments_audit:
  assumes "alike_args sp a a'"
  shows "snd (validate_arguments e (PDict a) sp) = snd (validate_arguments e (PDict a') sp)"
proof -
  have keys: "map fst a = map fst a'" using assms by (simp add: alike_args_def)
  have len: "length a = length a'" using arg_cong [OF keys, of length] by simp
  have unknown: "length (filter (\<lambda>kv. \<not> has_key (params sp) (fst kv)) x) = length (filter (\<lambda>k. \<not> has_key (params sp) k) (map fst x))" for x :: pydict
    by (simp add: filter_map comp_def)
  have "length (filter (\<lambda>kv. \<not> has_key (params sp) (fst kv)) a) = length (filter (\<lambda>kv. \<not> has_key (params sp) (fst kv)) a')"
    by (simp only: unknown keys)
  then show ?thesis
    using validate_params_audit [OF keys, of "params sp"] assms by (simp add: validate_arguments_def Let_def len alike_args_def)
qed

lemma cap_result_args [simp]: "cap_result e reg (rq\<lparr>rq_arguments := x\<rparr>) st err = cap_result e reg rq st err"
  by (simp add: cap_result_def)

lemma result_ignores_arguments [simp]:
  "internal_error e reg (rq\<lparr>rq_arguments := x\<rparr>) cls = internal_error e reg rq cls"
  "finalize_result e reg (rq\<lparr>rq_arguments := x\<rparr>) sp raw a = finalize_result e reg rq sp raw a"
  "audit_record e reg (rq\<lparr>rq_arguments := x\<rparr>) res ps = audit_record e reg rq res ps"
  unfolding internal_error_def finalize_result_def audit_record_def cap_result_args by simp_all

lemma prepare_same_shape:
  assumes "map_of reg c = Some sp" and "rq_capability rq = PStr c" and "rq_arguments rq = PDict a" and "alike_args sp a a'"
  shows "(\<exists>r. prepare e reg rq = Inl r \<and> prepare e reg (rq\<lparr>rq_arguments := PDict a'\<rparr>) = Inl r)
    \<or> (\<exists>pr args. prepare e reg rq = Inr pr \<and> prepare e reg (rq\<lparr>rq_arguments := PDict a'\<rparr>) = Inr (pr\<lparr>pr_args := args\<rparr>) \<and> pr_spec pr = sp)"
proof -
  obtain args audit err where v: "validate_arguments e (PDict a) sp = (args, audit, err)" by (cases "validate_arguments e (PDict a) sp")
  obtain args' where v': "validate_arguments e (PDict a') sp = (args', audit, err)"
    using validate_arguments_audit [OF assms(4), of e] v by (cases "validate_arguments e (PDict a') sp") simp
  show ?thesis by (auto simp: prepare_def assms v v' Let_def split: pyval.splits)
qed

text \<open>Neither the result nor the audit depends on what free-text arguments say: when two requests differ only in the contents of
  free-text values of the same length and the handler answers both alike, the broker returns the same result and writes the
  same audit record.\<close>
theorem audit_keeps_no_free_text:
  assumes "map_of (capabilities b) c = Some sp" and "rq_capability rq = PStr c" and "rq_arguments rq = PDict a" and "alike_args sp a a'"
    and "\<And>x y. handler sp x = handler sp y"
  shows "fst (submit e w rq b p) = fst (submit e w (rq\<lparr>rq_arguments := PDict a'\<rparr>) b p)
    \<and> baudit (fst (snd (submit e w rq b p))) = baudit (fst (snd (submit e w (rq\<lparr>rq_arguments := PDict a'\<rparr>) b p)))"
  using prepare_same_shape [OF assms(1-4), of e]
proof (elim disjE exE conjE)
  fix r
  assume "prepare e (capabilities b) rq = Inl r" "prepare e (capabilities b) (rq\<lparr>rq_arguments := PDict a'\<rparr>) = Inl r"
  then show ?thesis by (cases r) (simp add: submit_def submit_inner_def)
next
  fix pr args
  assume pr: "prepare e (capabilities b) rq = Inr pr" "prepare e (capabilities b) (rq\<lparr>rq_arguments := PDict a'\<rparr>) = Inr (pr\<lparr>pr_args := args\<rparr>)"
    and sp: "pr_spec pr = sp"
  have "after_wait e (capabilities b) (rq\<lparr>rq_arguments := PDict a'\<rparr>) (pr\<lparr>pr_args := args\<rparr>) w = after_wait e (capabilities b) rq pr w"
    using assms(5) [of args "pr_args pr"] sp by (cases w) (simp_all add: after_wait_def split: hout.split)
  with pr show ?thesis
    by (cases "admit (pr_cap pr) (pr_spec pr) b p"; cases "after_wait e (capabilities b) rq pr w")
      (simp_all add: submit_def submit_inner_def Let_def case_prod_beta)
qed

theorem audit_keeps_no_free_text_witness:
  "baudit (fst (snd (submit ex_env (TimedOut False) (ex_request [(''question'', PStr ''a'')]) (ex_broker ex_answer) (shared_limits [] 1 1)))) =
   baudit (fst (snd (submit ex_env (TimedOut False) (ex_request [(''question'', PStr ''b'')]) (ex_broker ex_answer) (shared_limits [] 1 1))))"
proof -
  have "same_text (PStr ''a'') (PStr ''b'')" by code_simp
  then have shape: "alike_args (ex_spec ex_answer) [(''question'', PStr ''a'')] [(''question'', PStr ''b'')]"
    by (auto simp: alike_args_def ex_spec_def DEFAULT_PARAMS_def)
  show ?thesis
    using audit_keeps_no_free_text [of "ex_broker ex_answer" "''dns''" "ex_spec ex_answer" "ex_request [(''question'', PStr ''a'')]"
        "[(''question'', PStr ''a'')]" "[(''question'', PStr ''b'')]" ex_env "TimedOut False" "shared_limits [] 1 1"] shape
    by (simp add: ex_broker_def ex_request_def ex_spec_def ex_answer_def)
qed

section \<open>Worker threads\<close>

text \<open>C5. Under every interleaving of requests, workers, timeouts, closings and new cycles that share one pool, the handlers that
  run at the same time are at most \<open>max_quarantined\<close>, those of one capability at most its \<open>max_concurrency\<close>; no semaphore is
  ever released beyond its initial value and no counter goes below zero.\<close>
theorem running_handlers_are_bounded:
  assumes "reach (pool_initial reg mif mq) pool_step s"
  shows "int (length (filter (\<lambda>k. wpc k = Running) (calls s))) \<le> mq
    \<and> (\<forall>c sp. map_of reg c = Some sp \<longrightarrow> int (length (filter (\<lambda>k. cl_cap k = c \<and> wpc k = Running) (calls s))) \<le> max_concurrency sp)
    \<and> int (global_slots (pl s)) \<le> mif \<and> (\<forall>c. capability_slots (pl s) c \<le> cap_limit reg c)
    \<and> 0 \<le> in_flight (pl s) \<and> 0 \<le> quarantined (pl s)"
proof -
  have inv: "pool_inv mif reg mq s" using worker_pool.reach_inv [OF assms] .
  then have lb: "live_bound reg s" and ac: "acct mif reg s" and mq: "max_quarantined (pl s) = mq" by (simp_all add: pool_inv_def)
  have sub: "length (filter P (calls s)) \<le> length (filter Q (calls s))" if "\<And>k. P k \<Longrightarrow> Q k" for P Q
    using length_filter_or [of "calls s" P Q "\<lambda>_. False"] that by simp
  have "length (filter (\<lambda>k. wpc k = Running) (calls s)) \<le> length (filter live (calls s))" by (rule sub) (simp add: live_def)
  moreover have "length (filter (\<lambda>k. cl_cap k = c \<and> wpc k = Running) (calls s)) \<le> length (filter (on_cap c live) (calls s))" for c
    by (rule sub) (simp add: live_def on_cap_def)
  moreover have "int (capability_slots (pl s) c) \<le> int (cap_limit reg c)" for c
  proof -
    have "int (cap_limit reg c) - int (capability_slots (pl s) c) = int (length (filter (on_cap c holds_capability) (calls s)))"
      using ac by (simp add: acct_def counted_def)
    then show ?thesis by linarith
  qed
  moreover have "int (global_slots (pl s)) \<le> mif" "0 \<le> in_flight (pl s)" "0 \<le> quarantined (pl s)"
    using ac by (simp_all add: acct_def counted_def)
  moreover have "int (length (filter live (calls s))) \<le> mq" using lb mq by (simp add: live_bound_def)
  moreover have "int (length (filter (on_cap c live) (calls s))) \<le> max_concurrency sp" if "map_of reg c = Some sp" for c sp
    using lb that by (simp add: live_bound_def)
  ultimately show ?thesis by (meson of_nat_le_iff order_trans)
qed

theorem running_handlers_are_bounded_witness:
  "\<exists>s. reach (pool_initial [(''dns'', ex_spec ex_answer)] 1 1) pool_step s \<and> length (calls s) = 3
     \<and> int (length (filter (\<lambda>k. wpc k = Running) (calls s))) \<le> 1"
proof -
  obtain bs js where r: "reach (pool_initial [(''dns'', ex_spec ex_answer)] 1 1) pool_step
      \<lparr>pl = shared_limits [(''dns'', ex_spec ex_answer)] 1 1, brokers_of = bs, calls = map (\<lambda>j. late_call j ''dns'') js\<rparr>" "length js = 3"
    using late_calls_reachable [OF ex_initial [of ex_answer], of "''dns''" "ex_spec ex_answer" 3] by (auto simp: ex_spec_def ex_broker_def)
  from running_handlers_are_bounded [OF r(1)] r show ?thesis by (intro exI conjI) (assumption, simp, blast)
qed

text \<open>Slots are returned: once every request has been answered and every worker has ended, the pool is exactly as it was made, whatever
  timed out, failed to start or was closed in between.\<close>
theorem idle_pool_is_whole:
  assumes "reach (pool_initial reg mif mq) pool_step s"
    and "\<forall>k \<in> set (calls s). spc k = Over \<and> wpc k \<in> {NotStarted, Ended}"
  shows "pl s = shared_limits reg mif mq"
proof -
  have inv: "acct mif reg s" "list_all call_ok (calls s)" "max_quarantined (pl s) = mq"
    using worker_pool.reach_inv [OF assms(1)] by (auto simp: pool_inv_def)
  have left: "rel k = Left \<and> \<not> stranded k" if "k \<in> set (calls s)" for k
  proof -
    from that inv(2) assms(2) have "call_ok k" "spc k = Over" "wpc k \<in> {NotStarted, Ended}" by (auto simp: list_all_iff)
    then show ?thesis by (cases "rel k") (auto simp: call_defs in_release_eq split: thread.splits)
  qed
  have none: "filter flying (calls s) = []" "filter stranded (calls s) = []" "filter holds_global (calls s) = []"
    "filter (on_cap c flying) (calls s) = []" "filter (on_cap c stranded) (calls s) = []" "filter (on_cap c holds_capability) (calls s) = []" for c
    using left by (auto simp: filter_empty_conv flying_def holds_global_def holds_capability_def on_cap_def)
  have "capability_slots (pl s) c = cap_limit reg c" for c
  proof -
    have "int (cap_limit reg c) - int (capability_slots (pl s) c) = 0" using inv(1) none(6) [of c] by (simp add: acct_def counted_def)
    then show ?thesis by simp
  qed
  moreover have "global_slots (pl s) = nat mif" using inv(1) none(3) by (simp add: acct_def counted_def)
  ultimately show ?thesis
    using inv(1,3) none by (intro pool.equality) (auto simp: acct_def counted_def fun_eq_iff)
qed

theorem idle_pool_is_whole_witness:
  "\<exists>s. reach (pool_initial [(''dns'', ex_spec ex_answer)] 1 1) pool_step s \<and> length (calls s) = 1 \<and> pl s = shared_limits [(''dns'', ex_spec ex_answer)] 1 1"
proof -
  obtain bs js where r: "reach (pool_initial [(''dns'', ex_spec ex_answer)] 1 1) pool_step
      \<lparr>pl = shared_limits [(''dns'', ex_spec ex_answer)] 1 1, brokers_of = bs, calls = map (\<lambda>j. late_call j ''dns'') js\<rparr>" "length js = 1"
    using late_calls_reachable [OF ex_initial [of ex_answer], of "''dns''" "ex_spec ex_answer" 1] by (auto simp: ex_spec_def ex_broker_def)
  then obtain j where j: "js = [j]" by (auto simp: length_Suc_conv)
  let ?s = "\<lparr>pl = shared_limits [(''dns'', ex_spec ex_answer)] 1 1, brokers_of = bs, calls = map (\<lambda>j. late_call j ''dns'') js\<rparr>"
  have r1: "reach (pool_initial [(''dns'', ex_spec ex_answer)] 1 1) pool_step (on_call 0 mark_step ?s)"
    using r(1) by (rule reach_step) (intro step_mark; simp add: j late_call_def)
  have r2: "reach (pool_initial [(''dns'', ex_spec ex_answer)] 1 1) pool_step (on_call 0 check_step (on_call 0 mark_step ?s))"
    using r1 by (rule reach_step) (intro step_check; simp add: j late_call_def mark_step_def)
  have "pl (on_call 0 check_step (on_call 0 mark_step ?s)) = shared_limits [(''dns'', ex_spec ex_answer)] 1 1"
    by (rule idle_pool_is_whole [OF r2]) (simp add: j late_call_def mark_step_def check_step_def)
  with r2 j show ?thesis by (intro exI conjI) (assumption, simp_all)
qed

text \<open>The counter of quarantined workers has no bound: a worker whose handler has returned gives its slot back before it reports
  that it is done, so a request that stops waiting in between counts it as hung while its slot already serves the next one. For
  every \<open>n\<close> there is an interleaving in which \<open>n\<close> workers are counted, whatever \<open>max_quarantined\<close> is.\<close>
theorem quarantine_has_no_bound:
  assumes "pool_initial reg mif mq s0" and "map_of reg c = Some sp" and "1 \<le> max_calls_per_cycle sp" and "1 \<le> max_total_calls (hd (brokers_of s0))"
  shows "\<exists>s. reach (pool_initial reg mif mq) pool_step s \<and> max_quarantined (pl s) = mq \<and> quarantined (pl s) = int n"
proof -
  obtain bs js where r: "reach (pool_initial reg mif mq) pool_step \<lparr>pl = shared_limits reg mif mq, brokers_of = bs, calls = map (\<lambda>j. late_call j c) js\<rparr>" "length js = n"
    using late_calls_reachable [OF assms, of n] by blast
  from check_late [of "pool_initial reg mif mq" "shared_limits reg mif mq" bs c "[]" js] r obtain p ks where
    s: "reach (pool_initial reg mif mq) pool_step \<lparr>pl = p, brokers_of = bs, calls = ks\<rparr>" "quarantined p = int n" by auto
  from worker_pool.reach_inv [OF s(1)] s show ?thesis by (intro exI conjI) (assumption, simp_all add: pool_inv_def)
qed

theorem quarantine_has_no_bound_witness:
  "\<exists>s. reach (pool_initial [(''dns'', ex_spec ex_answer)] 1 1) pool_step s \<and> max_quarantined (pl s) = 1 \<and> quarantined (pl s) = 5"
  using quarantine_has_no_bound [OF ex_initial [of ex_answer], of "''dns''" "ex_spec ex_answer" 5] by (simp add: ex_spec_def ex_broker_def)

end
