(* ===== verification/AlertQueue.thy ===== *)
theory AlertQueue
  imports AuditChain
begin

text \<open>
  P0 alerts and their durable queue (\<open>py/azazel_edge/notify/p0_alert.py\<close>, up to and including
  \<open>build_p0_alerts\<close>): which audit records are P0, how an alert is worded, and the bounded JSONL file the
  alerts are appended to.

  \<open>denv\<close> holds the parameters of the date library: \<open>strptime\<close> on a normalised timestamp and \<open>strftime\<close> of a
  time. Text outside ASCII is written as its UTF-8 bytes. What the operating system answers during one
  write, and how far a failing write got, is a \<open>qio\<close> record. A file on disk is an \<open>afile\<close> with the number
  of its inode; creating or replacing the file gives it a new one.
\<close>

section \<open>Times\<close>

record denv =
  parse_ts :: "string \<Rightarrow> rat option"
  format_utc :: "rat \<Rightarrow> string option"

definition STALE_AFTER_S :: rat where "STALE_AFTER_S = 300"
definition CLOCK_SKEW_TOLERANCE_S :: rat where "CLOCK_SKEW_TOLERANCE_S = 60"
definition DISPLAY_FIELD_MAX :: nat where "DISPLAY_FIELD_MAX = 200"

fun event_ts_epoch :: "denv \<Rightarrow> pyval \<Rightarrow> rat option" where
  "event_ts_epoch e (PStr s) =
     (if s = [] then None
      else (let t = py_strip s
            in parse_ts e (if t \<noteq> [] \<and> last t = CHR ''Z'' then butlast t @ ''+0000'' else t)))"
| "event_ts_epoch e _ = None"

fun finite_epoch :: "pyval \<Rightarrow> rat option" where
  "finite_epoch (PInt i) = (if float_too_large i then None else Some (of_int (round_double i)))"
| "finite_epoch (PFloat (FFin q _)) = Some q"
| "finite_epoch _ = None"

definition is_past_decision :: "rat option \<Rightarrow> rat \<Rightarrow> bool" where
  "is_past_decision happened now =
     (case happened of
        None \<Rightarrow> True
      | Some t \<Rightarrow> if CLOCK_SKEW_TOLERANCE_S < t - now then True else STALE_AFTER_S < now - t)"

definition EVENT_TIME_UNKNOWN :: string where
  "EVENT_TIME_UNKNOWN = [CHR 0xE6, CHR 0x99, CHR 0x82, CHR 0xE5, CHR 0x88, CHR 0xBB, CHR 0xE4, CHR 0xB8, CHR 0x8D, CHR 0xE6, CHR 0x98, CHR 0x8E]"

definition event_time_text :: "denv \<Rightarrow> pyval \<Rightarrow> string" where
  "event_time_text e ts =
     (case event_ts_epoch e ts of
        None \<Rightarrow> EVENT_TIME_UNKNOWN
      | Some t \<Rightarrow> (case format_utc e t of None \<Rightarrow> EVENT_TIME_UNKNOWN | Some s \<Rightarrow> s))"

definition record_epoch :: "denv \<Rightarrow> pydict \<Rightarrow> rat option" where
  "record_epoch e r =
     (case event_ts_epoch e (dget r ''event_ts'') of
        Some t \<Rightarrow> Some t
      | None \<Rightarrow> (case finite_epoch (dget r ''core_ingest_epoch'') of
          Some t \<Rightarrow> Some t
        | None \<Rightarrow> event_ts_epoch e (dget r ''ts'')))"

section \<open>Wording\<close>

definition HISTORICAL_LABEL :: string where
  "HISTORICAL_LABEL = [CHR 0xE9, CHR 0x81, CHR 0x8E, CHR 0xE5, CHR 0x8E, CHR 0xBB, CHR 0xE3, CHR 0x81, CHR 0xAE, CHR 0xE5, CHR 0x88, CHR 0xA4, CHR 0xE5, CHR 0xAE, CHR 0x9A]"

text \<open>Full-width brackets and the sentence that says a spoken alert is not a current one.\<close>

definition OPEN_PAREN :: string where "OPEN_PAREN = [CHR 0xEF, CHR 0xBC, CHR 0x88]"
definition CLOSE_PAREN :: string where "CLOSE_PAREN = [CHR 0xEF, CHR 0xBC, CHR 0x89]"
definition OPEN_BRACKET :: string where "OPEN_BRACKET = [CHR 0xE3, CHR 0x80, CHR 0x90]"
definition CLOSE_BRACKET :: string where "CLOSE_BRACKET = [CHR 0xE3, CHR 0x80, CHR 0x91]"
definition NOT_CURRENT :: string where
  "NOT_CURRENT = [CHR 0xE3, CHR 0x81, CHR 0xA7, CHR 0xE3, CHR 0x81, CHR 0x99, CHR 0xE3, CHR 0x80, CHR 0x82,
     CHR 0xE7, CHR 0x8F, CHR 0xBE, CHR 0xE5, CHR 0x9C, CHR 0xA8, CHR 0xE3, CHR 0x81, CHR 0xAE, CHR 0xE8, CHR 0xAD, CHR 0xA6,
     CHR 0xE5, CHR 0xA0, CHR 0xB1, CHR 0xE3, CHR 0x81, CHR 0xA7, CHR 0xE3, CHR 0x81, CHR 0xAF, CHR 0xE3, CHR 0x81, CHR 0x82,
     CHR 0xE3, CHR 0x82, CHR 0x8A, CHR 0xE3, CHR 0x81, CHR 0xBE, CHR 0xE3, CHR 0x81, CHR 0x9B, CHR 0xE3, CHR 0x82, CHR 0x93,
     CHR 0xE3, CHR 0x80, CHR 0x82]"

definition is_blank :: "char \<Rightarrow> bool" where
  "is_blank c = (let n = of_char c :: nat in n \<le> 32 \<or> (127 \<le> n \<and> n \<le> 160) \<or> n = 173)"

definition display_field :: "pyval \<Rightarrow> string" where
  "display_field v =
     (let t = map (\<lambda>c. if is_blank c then CHR '' '' else c) (text_of v);
          u = join '' '' (filter (\<lambda>w. w \<noteq> []) (split_on (CHR '' '') t))
      in if DISPLAY_FIELD_MAX < length u then take (DISPLAY_FIELD_MAX - 1) u @ [CHR 0xE2, CHR 0x80, CHR 0xA6] else u)"

record rendered =
  rd_text :: string
  rd_urgent :: bool
  rd_presentation :: string

definition render_p0_alert :: "denv \<Rightarrow> pydict \<Rightarrow> rendered" where
  "render_p0_alert e entry =
     (let historical = (dget entry ''presentation'' = PStr ''historical'' \<or> dget entry ''stale'' = PBool True);
          dash = (\<lambda>s. if s = [] then ''-'' else s);
          reason = display_field (dget entry ''reason'');
          body = ''P0 '' @ dash (display_field (dget entry ''action'')) @ '' target='' @ dash (display_field (dget entry ''target''))
            @ (if reason \<noteq> [] then '' reason='' @ reason else []);
          prefix = HISTORICAL_LABEL @ OPEN_PAREN @ event_time_text e (dget entry ''event_ts'') @ CLOSE_PAREN
      in if historical
         then \<lparr>rd_text = (if dget entry ''channel'' = PStr ''voice'' then prefix @ NOT_CURRENT @ body
                 else OPEN_BRACKET @ prefix @ CLOSE_BRACKET @ body),
               rd_urgent = False, rd_presentation = ''historical''\<rparr>
         else \<lparr>rd_text = body, rd_urgent = True, rd_presentation = ''current''\<rparr>)"

section \<open>Classification\<close>

definition ENFORCEMENT_ACTIONS :: "string list" where
  "ENFORCEMENT_ACTIONS = [''throttle'', ''redirect'', ''isolate'']"

definition classify_p0 :: "pydict \<Rightarrow> string" where
  "classify_p0 r =
     (if dget r ''kind'' \<noteq> PStr ''action_decision'' then []
      else
        (let action = dget r ''action'' in
         if is_text action \<and> py_str action \<in> set ENFORCEMENT_ACTIONS then ''enforcement:'' @ py_str action
         else if \<not> has_key r ''action'' \<and> dget r ''redirect'' = PBool True then ''enforcement:redirect''
         else if is_dict (dget r ''decision_trace'') \<and> dget (dict_of (dget r ''decision_trace'')) ''suspicion_label'' = PStr ''critical''
         then ''soc_critical''
         else []))"

section \<open>Building alerts\<close>

definition CHANNELS :: "string list" where "CHANNELS = [''visual'', ''voice'']"
definition RECORDED_BY_RECONCILE :: "string list" where "RECORDED_BY_RECONCILE = [''startup_reconcile'', ''loss_reconcile'']"
definition RECONCILED_DURABILITIES :: "string list" where
  "RECONCILED_DURABILITIES = [''reconciled_from_chain'', ''reconciled_from_chain_fsynced'']"

definition is_reconciled :: "pydict \<Rightarrow> string \<Rightarrow> bool" where
  "is_reconciled r durability =
     ((is_text (dget r ''recorded_by'') \<and> py_str (dget r ''recorded_by'') \<in> set RECORDED_BY_RECONCILE)
      \<or> durability \<in> set RECONCILED_DURABILITIES)"

definition is_stale :: "denv \<Rightarrow> pydict \<Rightarrow> string \<Rightarrow> rat \<Rightarrow> bool" where
  "is_stale e r durability now =
     (if is_reconciled r durability \<and> dget r ''reconcile_stale'' = PBool True then True
      else durability \<in> set RECONCILED_DURABILITIES \<and> is_past_decision (record_epoch e r) now)"

definition alert_action :: "pydict \<Rightarrow> pyval" where
  "alert_action r =
     (if is_text (dget r ''action'') then dget r ''action''
      else PStr (if dget r ''redirect'' = PBool True then ''redirect'' else []))"

definition alert_base :: "denv \<Rightarrow> pydict \<Rightarrow> string \<Rightarrow> string \<Rightarrow> int option \<Rightarrow> rat \<Rightarrow> pydict" where
  "alert_base e r basis durability durable_ns now =
     (let tx = (\<lambda>k. PStr (text_of (dget r k)));
          tr = dict_of (dget r ''decision_trace'');
          evidence = list_val (dget r ''evidence_ids'');
          stale = is_stale e r durability now
      in [(''decision_id'', tx ''trace_id''),
          (''decision_chain_hash'', tx ''chain_hash''),
          (''audit_cursor_chain_hash'', tx ''chain_hash''),
          (''decision_source'', tx ''source''),
          (''decision_ts'', tx ''ts''),
          (''decision_record_durability'', PStr durability),
          (''decision_record_durable'', PBool (durability = ''fsynced'' \<or> durability = ''reconciled_from_chain_fsynced'')),
          (''decision_durable_monotonic_ns'', case durable_ns of None \<Rightarrow> PNone | Some i \<Rightarrow> PInt i),
          (''p0_class'', PStr ''P0''),
          (''p0_basis'', PStr basis),
          (''p0_rule'', PStr ''edge-p0/v1:enforcement-bearing-or-soc-critical''),
          (''action'', alert_action r),
          (''reason'', tx ''reason''),
          (''suspicion_label'', PStr (text_of (dget tr ''suspicion_label''))),
          (''target'', PStr (text_of (py_or (dget r ''target_ip'') (dget r ''target'')))),
          (''evidence_ids'', PList (map (\<lambda>x. PStr (py_str x)) (filter (\<lambda>x. py_str x \<noteq> []) evidence))),
          (''effective_action'', tx ''effective_action''),
          (''enforcement_mode'', tx ''enforcement_mode''),
          (''enforcement_result'', tx ''enforcement_result''),
          (''reconciled'', PBool (is_reconciled r durability)),
          (''recorded_by'', tx ''recorded_by''),
          (''event_ts'', tx ''event_ts''),
          (''stale'', PBool stale),
          (''presentation'', PStr (if stale then ''historical'' else ''current''))])"

text \<open>The wording of an entry as its channel needs it.\<close>

definition worded :: "denv \<Rightarrow> pydict \<Rightarrow> pydict" where
  "worded e entry =
     (let rd = render_p0_alert e entry;
          d = AList.update ''display_text'' (PStr (rd_text rd)) entry
      in if dget entry ''channel'' = PStr ''voice'' then AList.update ''voice_urgent'' (PBool (rd_urgent rd)) d else d)"

definition build_p0_alerts :: "denv \<Rightarrow> pydict \<Rightarrow> string \<Rightarrow> string \<Rightarrow> int option \<Rightarrow> rat \<Rightarrow> pydict list" where
  "build_p0_alerts e r basis durability durable_ns now =
     map (\<lambda>c. worded e (alert_base e r basis durability durable_ns now @ [(''channel'', PStr c)])) CHANNELS"

text \<open>\<open>_as_past\<close>: the entry as a past decision, whatever its own time says.\<close>

definition as_past :: "denv \<Rightarrow> pydict \<Rightarrow> pydict" where
  "as_past e entry = worded e (dupdate entry [(''stale'', PBool True), (''presentation'', PStr ''historical'')])"

section \<open>The queue file\<close>

record qdisk =
  dfile :: "afile option"
  dino :: nat

record qcache =
  ca_ino :: nat
  ca_size :: nat
  ca_lines :: nat
  ca_seq :: int
  ca_evicted :: int

record qinst =
  max_entries :: nat
  qcached :: "qcache option"
  compactions :: nat
  read_partial_tail_total :: nat
  read_unparseable_total :: nat
  counted_offsets :: "(string \<times> nat \<times> nat) list"

record qio =
  io_stamp :: int
  io_boot :: string
  io_now :: string
  open_ok :: bool
  cut :: "(nat \<times> string) option"
  io_fsync :: sync
  io_dir :: sync
  rewrite_ok :: bool
  stat_ok :: bool

definition init_queue :: "int \<Rightarrow> pyexc + qinst" where
  "init_queue n =
     (if n < int (length CHANNELS) then Inl (ValueError ''max_entries must hold at least one alert per channel'')
      else Inr \<lparr>max_entries = nat n, qcached = None, compactions = 0, read_partial_tail_total = 0, read_unparseable_total = 0, counted_offsets = []\<rparr>)"

definition max_lines :: "qinst \<Rightarrow> nat" where "max_lines q = 2 * max_entries q"

text \<open>\<open>_parse\<close>: the lines that hold a JSON object.\<close>

definition parse_rows :: "fline list \<Rightarrow> pydict list" where
  "parse_rows ls = List.map_filter line_dict ls"

definition last_seq :: "pydict list \<Rightarrow> int \<times> int" where
  "last_seq rows =
     (case find (\<lambda>r. is_int (dget r ''seq'')) (rev rows) of
        None \<Rightarrow> (0, 0)
      | Some r \<Rightarrow> (int_val (dget r ''seq''),
          if is_int (dget r ''overflow_evicted_total'') then int_val (dget r ''overflow_evicted_total'') else 0))"

section \<open>Compaction\<close>

definition is_alert :: "pydict \<Rightarrow> bool" where
  "is_alert r = (dget r ''record_type'' = PStr ''alert'')"

definition decision_key :: "pydict \<Rightarrow> string" where
  "decision_key r = text_of (dget r ''decision_id'') @ [CHR 0x00] @ text_of (dget r ''decision_chain_hash'')"

definition of_decision :: "pydict list \<Rightarrow> string \<Rightarrow> pydict list" where
  "of_decision alerts k = filter (\<lambda>r. decision_key r = k) alerts"

text \<open>The eviction loop: the keys left and the keys evicted, oldest first.\<close>

fun evict_keys :: "nat \<Rightarrow> pydict list \<Rightarrow> nat \<Rightarrow> nat \<Rightarrow> string list \<Rightarrow> string list \<times> string list" where
  "evict_keys limit alerts incoming kept [] = ([], [])"
| "evict_keys limit alerts incoming kept (k # ks) =
     (if limit < kept + incoming
      then (let (l, ev) = evict_keys limit alerts incoming (kept - length (of_decision alerts k)) ks in (l, k # ev))
      else (k # ks, []))"

definition seq_of :: "pydict \<Rightarrow> int" where
  "seq_of r = int_val (dget r ''seq'')"

record compacted =
  cp_kept :: "pydict list"
  cp_alarm :: pydict
  cp_evicted :: nat

definition compact_lines :: "qio \<Rightarrow> qinst \<Rightarrow> fline list \<Rightarrow> nat \<Rightarrow> int \<Rightarrow> int \<Rightarrow> compacted" where
  "compact_lines io q ls incoming seq evicted_total =
     (let rows = parse_rows ls;
          alerts = filter is_alert rows;
          (left, evicted) = evict_keys (max_entries q) alerts incoming (length alerts) (dedup (map decision_key alerts));
          n = sum_list (map (\<lambda>k. length (of_decision alerts k)) evicted);
          ids = map (\<lambda>k. text_of (dget (hd (of_decision alerts k)) ''decision_id'')) evicted
      in \<lparr>cp_kept = sort_key seq_of (concat (map (of_decision alerts) left)),
          cp_alarm =
            [(''schema'', PStr ''azazel-edge/p0-alert-queue/v1''),
             (''record_type'', PStr ''overflow_alarm''),
             (''seq'', PInt (seq + 1)),
             (''enqueued_monotonic_ns'', PInt (io_stamp io)),
             (''boot_id'', PStr (io_boot io)),
             (''queued_at'', PStr (io_now io)),
             (''overflow_policy'', PStr ''evict_oldest_whole_decisions_compact_at_2x''),
             (''max_entries'', PInt (int (max_entries q))),
             (''evicted_alerts'', PInt (int n)),
             (''evicted_decisions'', PInt (int (length evicted))),
             (''evicted_decision_ids'', PList (map PStr (take 50 ids))),
             (''dropped_status_records'', PInt (int (length rows - length alerts))),
             (''overflow_evicted_total'', PInt (evicted_total + int n))],
          cp_evicted = n\<rparr>)"

section \<open>Writing\<close>

text \<open>\<open>_scan\<close>: the file with its torn tail cut off, its line count, last sequence number, eviction total and the bytes cut.\<close>

definition scan :: "afile \<Rightarrow> afile \<times> nat \<times> int \<times> int \<times> nat" where
  "scan f = (f\<lparr>torn := None\<rparr>, length (flines f), fst (last_seq (parse_rows (flines f))), snd (last_seq (parse_rows (flines f))), torn_size f)"

definition cache_hit :: "qinst \<Rightarrow> qdisk \<Rightarrow> qcache option" where
  "cache_hit q d =
     (case (qcached q, dfile d) of
        (Some c, Some f) \<Rightarrow> if ca_ino c = dino d \<and> ca_size c = file_size f then Some c else None
      | _ \<Rightarrow> None)"

definition open_or_create :: "qdisk \<Rightarrow> qdisk" where
  "open_or_create d = (case dfile d of None \<Rightarrow> \<lparr>dfile = Some \<lparr>flines = [], torn = None\<rparr>, dino = Suc (dino d)\<rparr> | Some _ \<Rightarrow> d)"

definition looked_up :: "qinst \<Rightarrow> qdisk \<Rightarrow> afile \<times> nat \<times> int \<times> int \<times> nat" where
  "looked_up q d =
     (case cache_hit q d of
        Some c \<Rightarrow> (the (dfile d), ca_lines c, ca_seq c, ca_evicted c, 0)
      | None \<Rightarrow> scan (the (dfile d)))"

record written_entries =
  we_entries :: "pydict list"
  we_written :: "pydict list"
  we_durability :: string
  we_evicted :: nat
  we_repaired :: nat

definition mark_repaired :: "nat \<Rightarrow> pydict \<Rightarrow> pydict" where
  "mark_repaired n e = AList.update ''torn_tail_repaired_bytes'' (PInt (int n)) e"

definition durability_name :: "bool \<Rightarrow> string" where
  "durability_name synced = (if synced then ''fsynced'' else ''fsync_unsupported'')"

text \<open>After a successful write: remember the file as it was left.\<close>

definition recache :: "qio \<Rightarrow> pydict list \<Rightarrow> nat \<Rightarrow> int \<Rightarrow> qdisk \<Rightarrow> qinst \<Rightarrow> qinst" where
  "recache io written lines_now evicted_total d q =
     q\<lparr>qcached :=
        (if stat_ok io
         then Some \<lparr>ca_ino = dino d, ca_size = file_size (the (dfile d)), ca_lines = lines_now, ca_seq = seq_of (last written),
                ca_evicted = (if has_key (last written) ''overflow_evicted_total'' then int_val (dget (last written) ''overflow_evicted_total'') else evicted_total)\<rparr>
         else None)\<rparr>"

definition write_append :: "qio \<Rightarrow> pydict list \<Rightarrow> bool \<Rightarrow> nat \<Rightarrow> int \<Rightarrow> nat \<Rightarrow> qinst \<Rightarrow> qdisk \<Rightarrow> (pyexc + written_entries) \<times> qinst \<times> qdisk" where
  "write_append io entries created line_count evicted_total repaired q d =
     (let f = the (dfile d); rows = map (\<lambda>e. Row (PDict e)) entries in
      case cut io of
        Some (k, t) \<Rightarrow>
          (Inl (OSError []), q, d\<lparr>dfile := Some \<lparr>flines = flines f @ take k rows, torn = (if t = [] then None else Some (Junk t))\<rparr>\<rparr>)
      | None \<Rightarrow>
          (let d' = d\<lparr>dfile := Some (f\<lparr>flines := flines f @ rows\<rparr>)\<rparr> in
           if io_fsync io = SyncFailed \<or> (created \<and> io_dir io = SyncFailed) then (Inl (OSError []), q, d')
           else (Inr \<lparr>we_entries = entries, we_written = entries,
                   we_durability = durability_name (io_fsync io = Synced \<and> (created \<longrightarrow> io_dir io = Synced)),
                   we_evicted = 0, we_repaired = repaired\<rparr>,
                 recache io entries (line_count + length entries) evicted_total d' q, d')))"

definition write_compacted :: "qio \<Rightarrow> (int \<Rightarrow> nat \<Rightarrow> int \<Rightarrow> pydict list) \<Rightarrow> compacted \<Rightarrow> int \<Rightarrow> int \<Rightarrow> nat \<Rightarrow> qinst \<Rightarrow> qdisk \<Rightarrow>
    (pyexc + written_entries) \<times> qinst \<times> qdisk" where
  "write_compacted io build cp seq evicted_total repaired q d =
     (let entries = map (mark_repaired repaired) (build (seq + 2) (cp_evicted cp) (evicted_total + int (cp_evicted cp)));
          out = cp_kept cp @ [cp_alarm cp] @ entries
      in if \<not> rewrite_ok io \<or> io_fsync io = SyncFailed then (Inl (OSError []), q, d)
         else
           (let d' = \<lparr>dfile = Some \<lparr>flines = map (\<lambda>e. Row (PDict e)) out, torn = None\<rparr>, dino = Suc (dino d)\<rparr> in
            if io_dir io = SyncFailed then (Inl (OSError []), q, d')
            else (Inr \<lparr>we_entries = entries, we_written = cp_alarm cp # entries,
                    we_durability = durability_name (io_dir io = Synced \<and> io_fsync io = Synced),
                    we_evicted = cp_evicted cp, we_repaired = repaired\<rparr>,
                  recache io (cp_alarm cp # entries) (length out) evicted_total d' (q\<lparr>compactions := Suc (compactions q)\<rparr>), d')))"

definition queue_write :: "qio \<Rightarrow> (int \<Rightarrow> nat \<Rightarrow> int \<Rightarrow> pydict list) \<Rightarrow> nat \<Rightarrow> qinst \<Rightarrow> qdisk \<Rightarrow> (pyexc + written_entries) \<times> qinst \<times> qdisk" where
  "queue_write io build incoming q d0 =
     (if \<not> open_ok io then (Inl (OSError []), q, d0)
      else
        (let created = (dfile d0 = None);
             d = open_or_create d0;
             (f, line_count, seq, evicted_total, repaired) = looked_up q d;
             d1 = d\<lparr>dfile := Some f\<rparr>;
             provisional = build (seq + 1) 0 evicted_total
         in if max_lines q < line_count + length provisional
            then write_compacted io build (compact_lines io q (flines f) incoming seq evicted_total) seq evicted_total repaired q (d1\<lparr>dfile := Some (f\<lparr>torn := None\<rparr>)\<rparr>)
            else write_append io (map (mark_repaired repaired) provisional) created line_count evicted_total repaired q d1))"

definition alert_entry :: "qio \<Rightarrow> pydict \<Rightarrow> int \<Rightarrow> nat \<Rightarrow> int \<Rightarrow> pydict \<Rightarrow> pydict" where
  "alert_entry io extra seq evicted evicted_total alert =
     dupdate (dupdate alert extra)
       [(''schema'', PStr ''azazel-edge/p0-alert-queue/v1''),
        (''record_type'', PStr ''alert''),
        (''seq'', PInt seq),
        (''enqueued_monotonic_ns'', PInt (io_stamp io)),
        (''boot_id'', PStr (io_boot io)),
        (''queued_at'', PStr (io_now io)),
        (''overflow_policy'', PStr ''evict_oldest_whole_decisions_compact_at_2x''),
        (''overflow_evicted'', PInt (int evicted)),
        (''overflow_evicted_total'', PInt evicted_total)]"

definition alert_entries :: "qio \<Rightarrow> pydict \<Rightarrow> pydict list \<Rightarrow> int \<Rightarrow> nat \<Rightarrow> int \<Rightarrow> pydict list" where
  "alert_entries io extra alerts first evicted evicted_total =
     map (\<lambda>na. alert_entry io extra (first + int (fst na)) evicted evicted_total (snd na)) (enumerate 0 alerts)"

definition enqueue :: "qio \<Rightarrow> pydict list \<Rightarrow> pydict \<Rightarrow> qinst \<Rightarrow> qdisk \<Rightarrow> (pyexc + written_entries) \<times> qinst \<times> qdisk" where
  "enqueue io alerts extra q d =
     (if alerts = [] then (Inl (ValueError ''nothing to enqueue''), q, d)
      else if max_entries q < length alerts then (Inl (ValueError ''more alerts than the queue holds''), q, d)
      else queue_write io (alert_entries io extra alerts) (length alerts) q d)"

definition status_entry :: "qio \<Rightarrow> pydict \<Rightarrow> int \<Rightarrow> nat \<Rightarrow> int \<Rightarrow> pydict list" where
  "status_entry io status first evicted evicted_total =
     [dupdate status
       [(''schema'', PStr ''azazel-edge/p0-alert-queue/v1''),
        (''record_type'', PStr ''relay_status''),
        (''seq'', PInt first),
        (''enqueued_monotonic_ns'', PInt (io_stamp io)),
        (''boot_id'', PStr (io_boot io)),
        (''queued_at'', PStr (io_now io)),
        (''overflow_evicted_total'', PInt evicted_total)]]"

definition append_status :: "qio \<Rightarrow> pydict \<Rightarrow> qinst \<Rightarrow> qdisk \<Rightarrow> (pyexc + written_entries) \<times> qinst \<times> qdisk" where
  "append_status io status q d = queue_write io (status_entry io status) 0 q d"

section \<open>Reading\<close>

definition count_once :: "string \<Rightarrow> nat \<Rightarrow> nat \<Rightarrow> qinst \<Rightarrow> qinst" where
  "count_once kind ino offset q =
     (if (kind, ino, offset) \<in> set (counted_offsets q) then q
      else
        (let q1 = q\<lparr>counted_offsets := lastn 4096 (counted_offsets q @ [(kind, ino, offset)])\<rparr>
         in if kind = ''partial'' then q1\<lparr>read_partial_tail_total := Suc (read_partial_tail_total q)\<rparr>
            else q1\<lparr>read_unparseable_total := Suc (read_unparseable_total q)\<rparr>))"

fun parse_complete_lines :: "nat \<Rightarrow> nat \<Rightarrow> fline list \<Rightarrow> fline option \<Rightarrow> qinst \<Rightarrow> pydict list \<times> qinst" where
  "parse_complete_lines ino offset [] tail q =
     ([], if (case tail of None \<Rightarrow> False | Some t \<Rightarrow> line_text t \<noteq> []) then count_once ''partial'' ino offset q else q)"
| "parse_complete_lines ino offset (l # ls) tail q =
     (let next_offset = offset + line_size l in
      if line_text l = [] then parse_complete_lines ino next_offset ls tail q
      else (case line_dict l of
          Some d \<Rightarrow> (let (rows, q') = parse_complete_lines ino next_offset ls tail q in (d # rows, q'))
        | None \<Rightarrow> parse_complete_lines ino next_offset ls tail (count_once ''unparseable'' ino offset q)))"

definition read_entries :: "qinst \<Rightarrow> qdisk \<Rightarrow> pydict list \<times> qinst" where
  "read_entries q d =
     (case dfile d of
        None \<Rightarrow> ([], q)
      | Some f \<Rightarrow> parse_complete_lines (dino d) 0 (flines f) (torn f) q)"

end
