(* ===== verification/AlertQueueProperties.thy ===== *)
theory AlertQueueProperties
  imports AlertQueue "HOL-Library.Sublist" "HOL-Library.Multiset"
begin

text \<open>
  The P0 alert queue under any sequence of writes by any number of writers, with writes that fail,
  are cut off or cannot be synced: the file stays bounded and ordered, the cached position of a writer
  never lies, and an overflow drops the oldest whole decisions and counts them.
\<close>

section \<open>Files of the queue\<close>

abbreviation row_lines :: "pydict list \<Rightarrow> fline list" where
  "row_lines rows \<equiv> map (\<lambda>e. Row (PDict e)) rows"

lemma parse_row_lines [simp]: "parse_rows (row_lines rows) = rows"
  by (induction rows) (simp_all add: parse_rows_def List.map_filter_def)

lemma parse_rows_Nil [simp]: "parse_rows [] = []"
  by (simp add: parse_rows_def List.map_filter_def)

lemma parse_rows_append [simp]: "parse_rows (a @ b) = parse_rows a @ parse_rows b"
  by (simp add: parse_rows_def List.map_filter_def)

lemma parse_rows_Row [simp]: "parse_rows (Row (PDict e) # ls) = e # parse_rows ls"
  by (simp add: parse_rows_def List.map_filter_def)

lemma parse_rows_Rows [simp]: "parse_rows (map ((\<lambda>e. Row (PDict e)) \<circ> g) xs) = map g xs"
  using parse_row_lines [of "map g xs"] by simp

text \<open>A row as the queue writes it.\<close>

definition queue_row :: "pydict \<Rightarrow> bool" where
  "queue_row r = (is_int (dget r ''seq'') \<and> is_int (dget r ''overflow_evicted_total''))"

definition good_rows :: "pydict list \<Rightarrow> bool" where
  "good_rows rows = (list_all queue_row rows \<and> sorted_wrt (<) (map seq_of rows))"

definition good_file :: "nat \<Rightarrow> afile \<Rightarrow> bool" where
  "good_file m f = ((\<exists>rows. flines f = row_lines rows \<and> good_rows rows \<and> length rows \<le> 2 * m)
     \<and> (case torn f of None \<Rightarrow> True | Some t \<Rightarrow> line_text t \<noteq> []))"

lemma last_seq_row: "list_all queue_row rows \<Longrightarrow> rows \<noteq> [] \<Longrightarrow>
    last_seq rows = (seq_of (last rows), int_val (dget (last rows) ''overflow_evicted_total''))"
  by (cases rows rule: rev_cases) (auto simp: last_seq_def seq_of_def queue_row_def)

lemma last_seq_Nil [simp]: "last_seq [] = (0, 0)"
  by (simp add: last_seq_def)

lemma seq_le_last: "good_rows rows \<Longrightarrow> r \<in> set rows \<Longrightarrow> seq_of r \<le> fst (last_seq rows)"
proof -
  assume g: "good_rows rows" and r: "r \<in> set rows"
  then obtain xs x where rows: "rows = xs @ [x]" by (cases rows rule: rev_cases) auto
  with g have "last_seq rows = (seq_of x, int_val (dget x ''overflow_evicted_total''))"
    using last_seq_row [of rows] by (simp add: good_rows_def)
  with g r rows show ?thesis by (auto simp: good_rows_def sorted_wrt_append)
qed

lemma good_rows_append:
  assumes "good_rows rows" and "good_rows new" and "\<And>r. r \<in> set new \<Longrightarrow> fst (last_seq rows) < seq_of r"
  shows "good_rows (rows @ new)"
proof -
  have "seq_of x < seq_of y" if "x \<in> set rows" "y \<in> set new" for x y
    using seq_le_last [OF assms(1) that(1)] assms(3) [OF that(2)] by simp
  with assms(1,2) show ?thesis by (auto simp: good_rows_def sorted_wrt_append)
qed

section \<open>What the builders write\<close>

text \<open>A builder of entries: numbered from \<open>first\<close> on, each carrying the eviction total.\<close>

definition builder :: "(int \<Rightarrow> nat \<Rightarrow> int \<Rightarrow> pydict list) \<Rightarrow> bool" where
  "builder build = (\<forall>first ev tot. build first ev tot \<noteq> []
     \<and> length (build first ev tot) = length (build 0 0 0)
     \<and> (\<forall>i < length (build first ev tot). dget (build first ev tot ! i) ''seq'' = PInt (first + int i)
          \<and> dget (build first ev tot ! i) ''overflow_evicted_total'' = PInt tot))"

lemma enumerate_ne: "xs \<noteq> [] \<Longrightarrow> enumerate n xs \<noteq> []"
  by (metis length_0_conv length_enumerate)

lemma builder_alerts: "alerts \<noteq> [] \<Longrightarrow> builder (alert_entries io extra alerts)"
  by (auto simp: builder_def alert_entries_def alert_entry_def dict_simps nth_enumerate_eq enumerate_ne)

lemma builder_status: "builder (status_entry io status)"
  by (simp add: builder_def status_entry_def dict_simps)

lemma built_rows:
  assumes "builder build" and "b = map (mark_repaired n) (build first ev tot)"
  shows "good_rows b" and "r \<in> set b \<Longrightarrow> first \<le> seq_of r \<and> queue_row r" and "b \<noteq> []" and "length b = length (build 0 0 0)"
    and "last_seq (rows @ b) = (first + int (length b) - 1, tot)"
proof -
  have ne: "b \<noteq> []" and len: "length b = length (build 0 0 0)"
    using assms(1) unfolding assms(2) builder_def by (simp_all del: length_0_conv)
  have at: "dget (b ! i) ''seq'' = PInt (first + int i) \<and> dget (b ! i) ''overflow_evicted_total'' = PInt tot" if "i < length b" for i
    using assms that by (auto simp: builder_def mark_repaired_def dict_simps)
  show row: "r \<in> set b \<Longrightarrow> first \<le> seq_of r \<and> queue_row r" for r
    using at by (auto simp: in_set_conv_nth queue_row_def seq_of_def)
  have "sorted_wrt (<) (map seq_of b)"
    using at by (auto simp: sorted_wrt_iff_nth_less seq_of_def)
  with row show "good_rows b" by (auto simp: good_rows_def list_all_iff)
  obtain xs x where b: "b = xs @ [x]" using ne by (cases b rule: rev_cases) auto
  have "find (\<lambda>r. is_int (dget r ''seq'')) (rev (rows @ b)) = Some x"
    using row [of x] by (simp add: b queue_row_def)
  then show "last_seq (rows @ b) = (first + int (length b) - 1, tot)"
    using at [of "length xs"] by (simp add: last_seq_def b nth_append)
  show "b \<noteq> []" "length b = length (build 0 0 0)" by fact+
qed

section \<open>Compaction\<close>

lemma evict_split: "fst (evict_keys m al inc kept ks) = drop (length (snd (evict_keys m al inc kept ks))) ks
    \<and> snd (evict_keys m al inc kept ks) = take (length (snd (evict_keys m al inc kept ks))) ks"
  by (induction ks arbitrary: kept) (auto simp: case_prod_beta Let_def)

text \<open>The loop stops once the rest fits, and not later.\<close>

lemma evict_enough:
  assumes "kept = sum_list (map (\<lambda>k. length (of_decision al k)) ks)"
  shows "inc \<le> m \<Longrightarrow> sum_list (map (\<lambda>k. length (of_decision al k)) (fst (evict_keys m al inc kept ks))) + inc \<le> m"
  using assms by (induction ks arbitrary: kept) (auto simp: case_prod_beta Let_def)

lemma concat_of_keys:
  assumes "distinct ks"
  shows "mset (concat (map (of_decision al) ks)) = mset (filter (\<lambda>r. decision_key r \<in> set ks) al)"
  using assms
proof (induction ks)
  case (Cons k ks)
  have "mset (filter (\<lambda>r. decision_key r \<in> set (k # ks)) al) =
      mset (filter (\<lambda>r. decision_key r = k) al) + mset (filter (\<lambda>r. decision_key r \<in> set ks) al)"
    using Cons.prems by (induction al) auto
  with Cons show ?case by (simp add: of_decision_def)
qed simp

lemma sum_of_keys: "distinct ks \<Longrightarrow> sum_list (map (\<lambda>k. length (of_decision al k)) ks) = length (filter (\<lambda>r. decision_key r \<in> set ks) al)"
  using mset_eq_length [OF concat_of_keys [of ks al]] by (simp add: length_concat comp_def)

text \<open>The rows a compaction keeps are the old alerts without the evicted decisions, in their order.\<close>

definition evicted_keys :: "nat \<Rightarrow> pydict list \<Rightarrow> nat \<Rightarrow> string list" where
  "evicted_keys m rows incoming =
     (let al = filter is_alert rows in snd (evict_keys m al incoming (length al) (dedup (map decision_key al))))"

lemma sort_filter:
  assumes "sorted_wrt (<) (map seq_of xs)" and "mset ys = mset xs"
  shows "sort_key seq_of ys = xs"
proof -
  have dis: "distinct (map seq_of xs)" and srt: "sorted (map seq_of xs)"
    using assms(1) strict_sorted_iff by blast+
  have "mset (map seq_of (sort_key seq_of ys)) = mset (map seq_of xs)" using assms(2) by simp
  then have "map seq_of (sort_key seq_of ys) = map seq_of xs"
    using srt by (metis properties_for_sort sorted_sort_key sorted_sort_id)
  moreover have "set (sort_key seq_of ys) = set xs" using assms(2) by (metis mset_eq_setD set_sort)
  moreover have "inj_on seq_of (set xs)" using dis by (simp add: distinct_map)
  ultimately show ?thesis by (metis map_inj_on sup.idem)
qed

lemma good_rows_filter: "good_rows rows \<Longrightarrow> good_rows (filter P rows)"
  by (auto simp: good_rows_def list_all_iff intro: sorted_wrt_filter dest: sorted_wrt_map [THEN iffD1] simp: sorted_wrt_map)

lemma good_rows_take: "good_rows rows \<Longrightarrow> good_rows (take n rows)"
  by (auto simp: good_rows_def list_all_iff take_map [symmetric] sorted_wrt_take dest: in_set_takeD)

lemma compacted_rows:
  assumes "good_rows rows" and "max_entries q = m" and "inc \<le> m" and "cp = compact_lines io q (row_lines rows) inc sq tot"
  shows "cp_kept cp = filter (\<lambda>r. is_alert r \<and> decision_key r \<notin> set (evicted_keys m rows inc)) rows"
    and "length (cp_kept cp) + inc \<le> m"
    and "cp_evicted cp = length (filter (\<lambda>r. is_alert r \<and> decision_key r \<in> set (evicted_keys m rows inc)) rows)"
    and "dget (cp_alarm cp) ''seq'' = PInt (sq + 1)" and "dget (cp_alarm cp) ''overflow_evicted_total'' = PInt (tot + int (cp_evicted cp))"
    and "prefix (evicted_keys m rows inc) (dedup (map decision_key (filter is_alert rows)))"
proof -
  define al where "al = filter is_alert rows"
  define ks where "ks = dedup (map decision_key al)"
  define gone where "gone = evicted_keys m rows inc"
  define n where "n = length gone"
  obtain l ev where e: "evict_keys m al inc (length al) ks = (l, ev)" by (cases "evict_keys m al inc (length al) ks")
  have gone: "gone = ev" using e by (simp add: gone_def evicted_keys_def al_def ks_def)
  with evict_split [of m al inc "length al" ks] e have parts: "l = drop n ks" "gone = take n ks" by (simp_all add: n_def)
  have dk: "distinct ks" "set ks = decision_key ` set al" by (simp_all add: ks_def)
  have whole: "gone @ l = ks" by (simp add: parts)
  with dk(1) have dl: "distinct l" "distinct gone" "set l \<inter> set gone = {}" "set l \<union> set gone = set ks" by auto
  have in_l: "decision_key r \<in> set l \<longleftrightarrow> decision_key r \<notin> set gone" if "r \<in> set al" for r
    using dl(3,4) dk(2) that by auto
  have kept: "cp_kept cp = sort_key seq_of (concat (map (of_decision al) l))"
    and evd: "cp_evicted cp = sum_list (map (\<lambda>k. length (of_decision al k)) gone)"
    using assms(2,4) e gone by (simp_all add: compact_lines_def Let_def al_def ks_def)
  have "good_rows (filter (\<lambda>r. decision_key r \<in> set l) al)" using assms(1) by (simp add: al_def good_rows_filter del: filter_filter)
  then have "cp_kept cp = filter (\<lambda>r. decision_key r \<in> set l) al"
    unfolding kept by (intro sort_filter concat_of_keys) (simp_all add: good_rows_def dl(1))
  also have "\<dots> = filter (\<lambda>r. decision_key r \<notin> set gone) al" using in_l by (intro filter_cong) auto
  also have "\<dots> = filter (\<lambda>r. is_alert r \<and> decision_key r \<notin> set gone) rows" by (simp add: al_def conj_commute)
  finally show k: "cp_kept cp = filter (\<lambda>r. is_alert r \<and> decision_key r \<notin> set (evicted_keys m rows inc)) rows" by (simp add: gone_def)
  have tot: "length al = sum_list (map (\<lambda>k. length (of_decision al k)) ks)"
    using sum_of_keys [OF dk(1), of al] dk(2) by (simp add: filter_id_conv)
  have "length (cp_kept cp) = sum_list (map (\<lambda>k. length (of_decision al k)) l)" by (simp add: kept length_concat comp_def)
  then show "length (cp_kept cp) + inc \<le> m" using evict_enough [OF tot assms(3)] e by simp
  show "cp_evicted cp = length (filter (\<lambda>r. is_alert r \<and> decision_key r \<in> set (evicted_keys m rows inc)) rows)"
    unfolding evd sum_of_keys [OF dl(2)] by (simp add: al_def gone_def conj_commute)
  show "dget (cp_alarm cp) ''seq'' = PInt (sq + 1)" "dget (cp_alarm cp) ''overflow_evicted_total'' = PInt (tot + int (cp_evicted cp))"
    unfolding assms(4) by (simp_all add: compact_lines_def Let_def case_prod_beta dict_simps)
  show "prefix (evicted_keys m rows inc) (dedup (map decision_key (filter is_alert rows)))"
    using parts(2) by (simp add: gone_def [symmetric] ks_def al_def take_is_prefix)
qed

section \<open>The world of a queue\<close>

text \<open>One file and the queue objects, in one or several processes, that write it.\<close>

record qworld =
  qw_disk :: qdisk
  qw_insts :: "qinst list"

inductive queue_initial :: "nat \<Rightarrow> qworld \<Rightarrow> bool" where
  queue_fresh: "2 \<le> m \<Longrightarrow> queue_initial m \<lparr>qw_disk = \<lparr>dfile = None, dino = 0\<rparr>, qw_insts = []\<rparr>"

inductive queue_step :: "nat \<Rightarrow> qworld \<Rightarrow> qworld \<Rightarrow> bool" for m where
  queue_open: "init_queue (int m) = Inr q \<Longrightarrow> queue_step m w (w\<lparr>qw_insts := qw_insts w @ [q]\<rparr>)"
| queue_enqueue: "i < length (qw_insts w) \<Longrightarrow> enqueue io alerts extra (qw_insts w ! i) (qw_disk w) = (r, q, d) \<Longrightarrow>
    queue_step m w (w\<lparr>qw_disk := d, qw_insts := (qw_insts w)[i := q]\<rparr>)"
| queue_status: "i < length (qw_insts w) \<Longrightarrow> append_status io status (qw_insts w ! i) (qw_disk w) = (r, q, d) \<Longrightarrow>
    queue_step m w (w\<lparr>qw_disk := d, qw_insts := (qw_insts w)[i := q]\<rparr>)"
| queue_read: "i < length (qw_insts w) \<Longrightarrow> read_entries (qw_insts w ! i) (qw_disk w) = (rows, q) \<Longrightarrow>
    queue_step m w (w\<lparr>qw_insts := (qw_insts w)[i := q]\<rparr>)"

definition lines_size :: "fline list \<Rightarrow> nat" where "lines_size ls = sum_list (map line_size ls)"

text \<open>A cached position is that of a prefix of the file's lines, unless the file was replaced since.\<close>

definition cache_true :: "qdisk \<Rightarrow> qcache \<Rightarrow> bool" where
  "cache_true d c = (ca_ino c \<le> dino d \<and> (ca_ino c = dino d \<longrightarrow>
     (\<exists>f l r. dfile d = Some f \<and> flines f = l @ r \<and> ca_size c = lines_size l \<and> ca_lines c = length l
        \<and> (ca_seq c, ca_evicted c) = last_seq (parse_rows l))))"

definition inst_ok :: "nat \<Rightarrow> qdisk \<Rightarrow> qinst \<Rightarrow> bool" where
  "inst_ok m d q = (max_entries q = m \<and> (case qcached q of None \<Rightarrow> True | Some c \<Rightarrow> cache_true d c))"

definition disk_ok :: "nat \<Rightarrow> qdisk \<Rightarrow> bool" where
  "disk_ok m d = (case dfile d of None \<Rightarrow> True | Some f \<Rightarrow> good_file m f)"

definition queue_inv :: "nat \<Rightarrow> qworld \<Rightarrow> bool" where
  "queue_inv m w = (2 \<le> m \<and> disk_ok m (qw_disk w) \<and> list_all (inst_ok m (qw_disk w)) (qw_insts w))"

text \<open>What a write does to the file: it keeps the inode and only adds lines, or replaces the file.\<close>

definition extends :: "qdisk \<Rightarrow> qdisk \<Rightarrow> bool" where
  "extends d d' = (d' = d \<or> dino d < dino d'
     \<or> dino d' = dino d \<and> (\<exists>f f' more. dfile d = Some f \<and> dfile d' = Some f' \<and> flines f' = flines f @ more))"

lemma cache_extends: "cache_true d c \<Longrightarrow> extends d d' \<Longrightarrow> cache_true d' c"
  by (fastforce simp: cache_true_def extends_def)

lemma file_size_lines: "file_size f = lines_size (flines f) + torn_size f"
  by (simp add: file_size_def lines_size_def)

lemma lines_size_append: "lines_size (l @ r) = lines_size l + lines_size r"
  by (simp add: lines_size_def)

lemma lines_size_pos: "lines_size r = 0 \<longleftrightarrow> r = []"
  by (cases r) (simp_all add: lines_size_def line_size_def)

text \<open>The cached position of a writer is what reading the file again would find.\<close>

lemma hit_is_scan:
  assumes "inst_ok m d q" and "disk_ok m d" and "dfile d = Some f"
  shows "looked_up q d = scan f"
proof (cases "cache_hit q d")
  case (Some c)
  then have c: "qcached q = Some c" "ca_ino c = dino d" "ca_size c = file_size f"
    using assms(3) by (auto simp: cache_hit_def split: option.splits if_splits)
  with assms(1,3) obtain l r where lr: "flines f = l @ r" "ca_size c = lines_size l" "ca_lines c = length l"
    "(ca_seq c, ca_evicted c) = last_seq (parse_rows l)" by (auto simp: inst_ok_def cache_true_def)
  with c(3) have "lines_size r = 0" "torn_size f = 0" by (simp_all add: file_size_lines lines_size_append)
  moreover from this(2) assms(2,3) have "torn f = None"
    by (auto simp: disk_ok_def good_file_def torn_size_def split: option.splits)
  ultimately show ?thesis
    using lr Some assms(3) by (auto simp: looked_up_def scan_def lines_size_pos torn_size_def prod_eq_iff)
qed (simp add: looked_up_def assms(3))

section \<open>One write\<close>

lemma good_file_rows: "good_rows rows \<Longrightarrow> length rows \<le> 2 * m \<Longrightarrow> t \<noteq> Some (Junk []) \<Longrightarrow> (\<And>v. t \<noteq> Some (Row v)) \<Longrightarrow>
    good_file m \<lparr>flines = row_lines rows, torn = t\<rparr>"
  by (auto simp: good_file_def split: option.split elim: line_text.elims)

lemma recache_ok:
  assumes "max_entries q = m" and "dfile d = Some f" and "flines f = row_lines (rows @ written)" and "torn f = None" and "written \<noteq> []"
    and "list_all queue_row written" and "n = length rows + length written"
  shows "inst_ok m d (recache io written n tot d q)"
proof -
  obtain xs x where w: "written = xs @ [x]" using assms(5) by (cases written rule: rev_cases) auto
  have row: "is_int (dget x ''seq'')" "is_int (dget x ''overflow_evicted_total'')" using assms(6) w by (simp_all add: queue_row_def)
  then have "has_key x ''overflow_evicted_total''" by (auto simp: has_key_map_of dget_def split: option.splits)
  moreover have "last_seq (rows @ written) = (seq_of x, int_val (dget x ''overflow_evicted_total''))"
    using row by (simp add: w last_seq_def seq_of_def)
  moreover have "cache_true d \<lparr>ca_ino = dino d, ca_size = lines_size (flines f), ca_lines = n, ca_seq = fst (last_seq (rows @ written)),
      ca_evicted = snd (last_seq (rows @ written))\<rparr>"
    unfolding cache_true_def using assms(2,3,7) parse_row_lines [of "rows @ written"]
    by (intro conjI impI exI [of _ f] exI [of _ "flines f"] exI [of _ "[]"]) simp_all
  ultimately show ?thesis
    using assms w by (simp add: inst_ok_def recache_def file_size_lines torn_size_def)
qed

lemma append_effect:
  assumes d: "dfile d = Some f" "flines f = row_lines rows" "good_rows rows" "torn f = None" and "inst_ok m d q"
    and b: "builder build" "b = map (mark_repaired n) (build (fst (last_seq rows) + 1) 0 tot)" and len: "length rows + length b \<le> 2 * m"
    and w: "write_append io b created (length rows) tot n q d = (r, q', d')"
  shows "disk_ok m d' \<and> extends d d' \<and> inst_ok m d' q'
    \<and> (\<forall>x. r = Inr x \<longrightarrow> we_entries x = b \<and> we_written x = b \<and> we_evicted x = 0 \<and> we_repaired x = n \<and> dfile d' = Some \<lparr>flines = row_lines (rows @ b), torn = None\<rparr>)"
proof -
  note built = built_rows [OF b]
  have all: "good_rows (rows @ b)" using built(1,2) d(3) by (intro good_rows_append) fastforce+
  then have part: "good_rows (rows @ take k b)" for k
    using good_rows_take [of "rows @ b" "length rows + k"] by simp
  have f: "f = \<lparr>flines = row_lines rows, torn = None\<rparr>" using d by (simp add: afile.equality)
  show ?thesis
  proof (cases "cut io")
    case (Some kt)
    obtain k t where kt: "kt = (k, t)" by (cases kt)
    have d': "d' = d\<lparr>dfile := Some \<lparr>flines = row_lines (rows @ take k b), torn = (if t = [] then None else Some (Junk t))\<rparr>\<rparr>"
      and r: "q' = q" "r = Inl (OSError [])"
      using w Some kt d by (simp_all add: write_append_def Let_def take_map)
    have "good_file m \<lparr>flines = row_lines (rows @ take k b), torn = (if t = [] then None else Some (Junk t))\<rparr>"
      using part len by (intro good_file_rows) auto
    then have "disk_ok m d'" by (simp add: disk_ok_def d')
    moreover have ex: "extends d d'" using d by (auto simp: extends_def d')
    moreover have "inst_ok m d' q'" using assms(5) r cache_extends [OF _ ex] by (auto simp: inst_ok_def split: option.splits)
    ultimately show ?thesis using r by simp
  next
    case None
    let ?d = "d\<lparr>dfile := Some \<lparr>flines = row_lines (rows @ b), torn = None\<rparr>\<rparr>"
    have d': "d' = ?d" using w None f d by (auto simp: write_append_def Let_def split: if_splits)
    have ok: "disk_ok m d'" using all len by (simp add: d' disk_ok_def good_file_rows del: map_append)
    have ex: "extends d d'" using d by (auto simp: extends_def d')
    show ?thesis
    proof (cases "io_fsync io = SyncFailed \<or> (created \<and> io_dir io = SyncFailed)")
      case True
      then have "q' = q" "r = Inl (OSError [])" using w None by (auto simp: write_append_def Let_def split: if_splits)
      with ok ex assms(5) cache_extends [OF _ ex] show ?thesis by (auto simp: inst_ok_def split: option.splits)
    next
      case False
      then have q': "q' = recache io b (length rows + length b) tot d' q" and
        r: "\<exists>x. r = Inr x \<and> we_entries x = b \<and> we_written x = b \<and> we_evicted x = 0 \<and> we_repaired x = n"
        using w None f d d' by (auto simp: write_append_def Let_def split: if_splits)
      have "inst_ok m d' q'" unfolding q'
        using assms(5) built(2,3) by (intro recache_ok [of _ _ _ _ rows]) (auto simp: d' inst_ok_def list_all_iff)
      with ok ex r d' show ?thesis by auto
    qed
  qed
qed

lemma compact_effect:
  assumes d: "dfile d = Some f" "flines f = row_lines rows" "good_rows rows" and q: "inst_ok m d q" and m: "2 \<le> m" "inc \<le> m"
    and b: "builder build" "length (build 0 0 0) \<le> max 1 inc"
    and cp: "cp = compact_lines io q (row_lines rows) inc (fst (last_seq rows)) (snd (last_seq rows))"
    and w: "write_compacted io build cp (fst (last_seq rows)) (snd (last_seq rows)) n q d = (r, q', d')" and ok: "disk_ok m d"
  shows "disk_ok m d' \<and> extends d d' \<and> inst_ok m d' q'
    \<and> (\<forall>x. r = Inr x \<longrightarrow> we_entries x = map (mark_repaired n) (build (fst (last_seq rows) + 2) (cp_evicted cp) (snd (last_seq rows) + int (cp_evicted cp)))
        \<and> we_written x = cp_alarm cp # we_entries x \<and> we_evicted x = cp_evicted cp \<and> we_repaired x = n
        \<and> dfile d' = Some \<lparr>flines = row_lines (cp_kept cp @ we_written x), torn = None\<rparr>)"
proof -
  let ?e = "map (mark_repaired n) (build (fst (last_seq rows) + 2) (cp_evicted cp) (snd (last_seq rows) + int (cp_evicted cp)))"
  have mq: "max_entries q = m" using q by (simp add: inst_ok_def)
  note kept = compacted_rows [OF d(3) mq m(2) cp]
  note built = built_rows [OF b(1) refl, where n = n and first = "fst (last_seq rows) + 2" and ev = "cp_evicted cp" and tot = "snd (last_seq rows) + int (cp_evicted cp)"]
  have alarm: "queue_row (cp_alarm cp)" "seq_of (cp_alarm cp) = fst (last_seq rows) + 1"
    using kept(4,5) by (simp_all add: queue_row_def seq_of_def)
  have "good_rows (cp_alarm cp # ?e)"
    using built(1,2) alarm by (fastforce simp: good_rows_def list_all_iff)
  then have new: "list_all queue_row (cp_alarm cp # ?e)" "sorted_wrt (<) (map seq_of (cp_alarm cp # ?e))" by (simp_all add: good_rows_def)
  have old: "good_rows (cp_kept cp)" unfolding kept(1) using d(3) by (rule good_rows_filter)
  have "seq_of x < seq_of y" if "x \<in> set (cp_kept cp)" "y \<in> set (cp_alarm cp # ?e)" for x y
    using seq_le_last [OF d(3), of x] that alarm built(2) [of y] unfolding kept(1) by auto
  with old new have all: "good_rows (cp_kept cp @ cp_alarm cp # ?e)"
    by (auto simp: good_rows_def sorted_wrt_append list_all_iff)
  have "length ?e \<le> max 1 inc" using b built(4) by simp
  then have len: "length (cp_kept cp @ cp_alarm cp # ?e) \<le> 2 * m" using kept(2) m by (auto simp: max_def split: if_splits)
  let ?d = "\<lparr>dfile = Some \<lparr>flines = row_lines (cp_kept cp @ cp_alarm cp # ?e), torn = None\<rparr>, dino = Suc (dino d)\<rparr>"
  have okd: "disk_ok m ?d" "extends d ?d" using all len by (simp_all add: disk_ok_def good_file_rows extends_def del: map_append)
  have same: "inst_ok m ?d q" using q cache_extends [OF _ okd(2)] by (auto simp: inst_ok_def split: option.splits)
  have re: "inst_ok m ?d (recache io (cp_alarm cp # ?e) (Suc (length (cp_kept cp) + length ?e)) (snd (last_seq rows)) ?d (q\<lparr>compactions := Suc (compactions q)\<rparr>))"
    using mq new(1) by (intro recache_ok [of _ _ _ "\<lparr>flines = row_lines (cp_kept cp @ cp_alarm cp # ?e), torn = None\<rparr>" "cp_kept cp"]) simp_all
  from w ok q okd same re show ?thesis
    by (auto simp: write_compacted_def Let_def extends_def split: if_splits)
qed

lemma extends_trans: "extends a b \<Longrightarrow> extends b c \<Longrightarrow> extends a c"
  unfolding extends_def by (elim disjE) auto

definition queue_rows :: "qdisk \<Rightarrow> pydict list" where
  "queue_rows d = (case dfile d of None \<Rightarrow> [] | Some f \<Rightarrow> parse_rows (flines f))"

text \<open>The reference of one write on the rows of the file: what is kept and how many alerts an overflow drops.\<close>

definition kept_rows :: "nat \<Rightarrow> nat \<Rightarrow> nat \<Rightarrow> pydict list \<Rightarrow> pydict list" where
  "kept_rows m inc n rows =
     (if length rows + n \<le> 2 * m then rows else filter (\<lambda>r. is_alert r \<and> decision_key r \<notin> set (evicted_keys m rows inc)) rows)"

definition dropped_alerts :: "nat \<Rightarrow> nat \<Rightarrow> nat \<Rightarrow> pydict list \<Rightarrow> nat" where
  "dropped_alerts m inc n rows =
     (if length rows + n \<le> 2 * m then 0 else length (filter (\<lambda>r. is_alert r \<and> decision_key r \<in> set (evicted_keys m rows inc)) rows))"

text \<open>A successful write: the file holds the rows kept and then the rows written, which end with the entries
  built for the next free sequence numbers and the new eviction total.\<close>

definition wrote :: "nat \<Rightarrow> nat \<Rightarrow> (int \<Rightarrow> nat \<Rightarrow> int \<Rightarrow> pydict list) \<Rightarrow> qdisk \<Rightarrow> written_entries \<Rightarrow> qdisk \<Rightarrow> bool" where
  "wrote m inc build d x d' =
     (let n = length (build 0 0 0); rows = queue_rows d; (sq, tot) = last_seq rows; alarms = (if length rows + n \<le> 2 * m then 0 else 1)
      in queue_rows d' = kept_rows m inc n rows @ we_written x
         \<and> we_entries x = drop alarms (we_written x)
         \<and> length (we_written x) = alarms + n
         \<and> we_evicted x = dropped_alerts m inc n rows
         \<and> we_entries x = map (mark_repaired (we_repaired x)) (build (sq + 1 + int alarms) (we_evicted x) (tot + int (we_evicted x))))"

lemma write_opened:
  assumes d: "disk_ok m d" and q: "inst_ok m d q" and b: "builder build" and "open_ok io"
  obtains d1 f rows where "dfile d1 = Some f" and "torn f = None" and "flines f = row_lines rows" and "good_rows rows" and "queue_rows d = rows"
    and "disk_ok m d1" and "extends d d1" and "inst_ok m d1 q"
    and "\<And>inc. \<exists>n. queue_write io build inc q d =
      (if 2 * m < length rows + length (build 0 0 0)
       then write_compacted io build (compact_lines io q (row_lines rows) inc (fst (last_seq rows)) (snd (last_seq rows))) (fst (last_seq rows)) (snd (last_seq rows)) n q d1
       else write_append io (map (mark_repaired n) (build (fst (last_seq rows) + 1) 0 (snd (last_seq rows)))) (dfile d = None) (length rows) (snd (last_seq rows)) n q d1)"
proof -
  define od where "od = open_or_create d"
  obtain f where f: "dfile od = Some f" by (cases "dfile d") (simp_all add: od_def open_or_create_def)
  have ex: "extends d od" by (cases "dfile d") (simp_all add: od_def open_or_create_def extends_def)
  have okd: "disk_ok m od" using d by (cases "dfile d") (auto simp: od_def open_or_create_def disk_ok_def good_file_def good_rows_def)
  have okq: "inst_ok m od q" using q cache_extends [OF _ ex] by (auto simp: inst_ok_def split: option.splits)
  from okd f obtain rows where rows: "flines f = row_lines rows" "good_rows rows" by (auto simp: disk_ok_def good_file_def)
  have old: "queue_rows d = rows" using f rows(1)
    by (cases "dfile d") (auto simp: queue_rows_def od_def open_or_create_def)
  let ?d = "od\<lparr>dfile := Some (f\<lparr>torn := None\<rparr>)\<rparr>"
  have look: "looked_up q od = (f\<lparr>torn := None\<rparr>, length rows, fst (last_seq rows), snd (last_seq rows), torn_size f)"
    using hit_is_scan [OF okq okd f] rows(1) by (simp add: scan_def)
  have ex1: "extends od ?d" using f by (auto simp: extends_def)
  have okq1: "inst_ok m ?d q" using okq cache_extends [OF _ ex1] by (auto simp: inst_ok_def split: option.splits)
  have okd1: "disk_ok m ?d" using okd f by (auto simp: disk_ok_def good_file_def)
  have len: "length (build i j k) = length (build 0 0 0)" for i j k using b unfolding builder_def by blast
  have "max_lines q = 2 * m" using q by (simp add: max_lines_def inst_ok_def)
  then have "queue_write io build inc q d =
      (if 2 * m < length rows + length (build 0 0 0)
       then write_compacted io build (compact_lines io q (row_lines rows) inc (fst (last_seq rows)) (snd (last_seq rows))) (fst (last_seq rows)) (snd (last_seq rows)) (torn_size f) q ?d
       else write_append io (map (mark_repaired (torn_size f)) (build (fst (last_seq rows) + 1) 0 (snd (last_seq rows)))) (dfile d = None) (length rows) (snd (last_seq rows)) (torn_size f) q ?d)" for inc
    using assms(4) look len [of "fst (last_seq rows) + 1" 0 "snd (last_seq rows)"] rows(1)
    by (simp add: queue_write_def Let_def od_def [symmetric])
  with rows old okd1 extends_trans [OF ex ex1] okq1 show thesis by (intro that [of ?d "f\<lparr>torn := None\<rparr>" rows]) auto
qed

lemma write_effect:
  assumes d: "disk_ok m d" and q: "inst_ok m d q" and m: "2 \<le> m" "inc \<le> m"
    and b: "builder build" "length (build 0 0 0) \<le> max 1 inc" and w: "queue_write io build inc q d = (r, q', d')"
  shows "disk_ok m d' \<and> extends d d' \<and> inst_ok m d' q' \<and> (\<forall>x. r = Inr x \<longrightarrow> wrote m inc build d x d')"
proof (cases "open_ok io")
  case False
  with w d q show ?thesis by (auto simp: queue_write_def extends_def)
next
  case True
  from write_opened [OF d q b(1) True] obtain d1 f rows n where f: "dfile d1 = Some f" "torn f = None" "flines f = row_lines rows" "good_rows rows"
    and old: "queue_rows d = rows" and okd: "disk_ok m d1" and ex: "extends d d1" and okq: "inst_ok m d1 q"
    and w': "queue_write io build inc q d =
      (if 2 * m < length rows + length (build 0 0 0)
       then write_compacted io build (compact_lines io q (row_lines rows) inc (fst (last_seq rows)) (snd (last_seq rows))) (fst (last_seq rows)) (snd (last_seq rows)) n q d1
       else write_append io (map (mark_repaired n) (build (fst (last_seq rows) + 1) 0 (snd (last_seq rows)))) (dfile d = None) (length rows) (snd (last_seq rows)) n q d1)"
    by metis
  have len: "length (build i j k) = length (build 0 0 0)" for i j k using b(1) unfolding builder_def by blast
  have mx: "max_entries q = m" using q by (simp add: inst_ok_def)
  show ?thesis
  proof (cases "2 * m < length rows + length (build 0 0 0)")
    case over: True
    define cp where "cp = compact_lines io q (row_lines rows) inc (fst (last_seq rows)) (snd (last_seq rows))"
    have "write_compacted io build cp (fst (last_seq rows)) (snd (last_seq rows)) n q d1 = (r, q', d')"
      using w over unfolding w' cp_def by simp
    note eff = compact_effect [OF f(1,3,4) okq m b cp_def this okd]
    have "wrote m inc build d x d'" if "r = Inr x" for x
      using eff that over len compacted_rows [OF f(4) mx m(2) cp_def]
      by (auto simp: wrote_def old queue_rows_def [of d'] Let_def case_prod_beta kept_rows_def dropped_alerts_def add.commute [of "2::int"])
    with eff extends_trans [OF ex] show ?thesis by auto
  next
    case fits: False
    then have "write_append io (map (mark_repaired n) (build (fst (last_seq rows) + 1) 0 (snd (last_seq rows)))) (dfile d = None) (length rows)
        (snd (last_seq rows)) n q d1 = (r, q', d')" using w unfolding w' by simp
    moreover have "length rows + length (map (mark_repaired n) (build (fst (last_seq rows) + 1) 0 (snd (last_seq rows)))) \<le> 2 * m"
      using fits len [of "fst (last_seq rows) + 1" 0 "snd (last_seq rows)"] by simp
    ultimately have eff: "disk_ok m d' \<and> extends d1 d' \<and> inst_ok m d' q'
        \<and> (\<forall>x. r = Inr x \<longrightarrow> we_entries x = map (mark_repaired n) (build (fst (last_seq rows) + 1) 0 (snd (last_seq rows)))
            \<and> we_written x = we_entries x \<and> we_evicted x = 0 \<and> we_repaired x = n
            \<and> dfile d' = Some \<lparr>flines = row_lines (rows @ we_entries x), torn = None\<rparr>)"
      using append_effect [OF f(1,3,4,2) okq b(1) refl] by simp
    have "wrote m inc build d x d'" if "r = Inr x" for x
      using eff that fits len
      by (auto simp: wrote_def old queue_rows_def [of d'] Let_def case_prod_beta kept_rows_def dropped_alerts_def)
    with eff extends_trans [OF ex] show ?thesis by auto
  qed
qed

text \<open>What any write, failed or not, makes of the alerts: some of the old ones in their order, then a first part of the new ones.\<close>

lemma write_alerts:
  assumes d: "disk_ok m d" and q: "inst_ok m d q" and m: "inc \<le> m" and b: "builder build" and w: "queue_write io build inc q d = (r, q', d')"
  shows "\<exists>old k first ev tot n. subseq old (queue_rows d)
    \<and> filter is_alert (queue_rows d') = filter is_alert old @ filter is_alert (take k (map (mark_repaired n) (build first ev tot)))"
proof (cases "open_ok io")
  case False
  with w show ?thesis by (auto simp: queue_write_def intro!: exI [of _ "queue_rows d"] exI [of _ "0::nat"])
next
  case True
  from write_opened [OF d q b True] obtain d1 f rows n where f: "dfile d1 = Some f" "torn f = None" "flines f = row_lines rows" "good_rows rows"
    and old: "queue_rows d = rows" and w': "queue_write io build inc q d =
      (if 2 * m < length rows + length (build 0 0 0)
       then write_compacted io build (compact_lines io q (row_lines rows) inc (fst (last_seq rows)) (snd (last_seq rows))) (fst (last_seq rows)) (snd (last_seq rows)) n q d1
       else write_append io (map (mark_repaired n) (build (fst (last_seq rows) + 1) 0 (snd (last_seq rows)))) (dfile d = None) (length rows) (snd (last_seq rows)) n q d1)"
    by metis
  have mx: "max_entries q = m" using q by (simp add: inst_ok_def)
  show ?thesis
  proof (cases "2 * m < length rows + length (build 0 0 0)")
    case True
    define cp where "cp = compact_lines io q (row_lines rows) inc (fst (last_seq rows)) (snd (last_seq rows))"
    let ?e = "map (mark_repaired n) (build (fst (last_seq rows) + 2) (cp_evicted cp) (snd (last_seq rows) + int (cp_evicted cp)))"
    have sub: "subseq (cp_kept cp) rows" unfolding compacted_rows(1) [OF f(4) mx m cp_def] by simp
    have alarm: "\<not> is_alert (cp_alarm cp)" by (simp add: cp_def compact_lines_def Let_def case_prod_beta is_alert_def dict_simps)
    have "d' = d1 \<or> queue_rows d' = cp_kept cp @ cp_alarm cp # ?e"
      using w True unfolding w' cp_def [symmetric] by (auto simp: write_compacted_def Let_def queue_rows_def split: if_splits)
    then show ?thesis
    proof
      assume "d' = d1"
      then have "queue_rows d' = rows" using f by (simp add: queue_rows_def)
      then show ?thesis using old by (auto intro!: exI [of _ rows] exI [of _ "0::nat"])
    next
      assume "queue_rows d' = cp_kept cp @ cp_alarm cp # ?e"
      then have "filter is_alert (queue_rows d') = filter is_alert (cp_kept cp) @ filter is_alert (take (length ?e) ?e)" using alarm by simp
      with sub old show ?thesis by blast
    qed
  next
    case False
    let ?e = "map (mark_repaired n) (build (fst (last_seq rows) + 1) 0 (snd (last_seq rows)))"
    have "\<exists>k. queue_rows d' = rows @ take k ?e"
      using w False f unfolding w'
      by (cases "cut io") (auto simp: write_append_def Let_def queue_rows_def take_map split: if_splits prod.splits intro: exI [of _ "length ?e"])
    then obtain k where "queue_rows d' = rows @ take k ?e" ..
    then have "filter is_alert (queue_rows d') = filter is_alert rows @ filter is_alert (take k ?e)" by simp
    with old show ?thesis by blast
  qed
qed

section \<open>Every reachable queue\<close>

lemma enqueue_cases:
  assumes "enqueue io alerts extra q d = (r, q', d')"
  obtains "alerts \<noteq> []" and "length alerts \<le> max_entries q" and "queue_write io (alert_entries io extra alerts) (length alerts) q d = (r, q', d')"
  | s where "r = Inl (ValueError s)" and "q' = q" and "d' = d"
  using assms by (auto simp: enqueue_def split: if_splits)

lemma length_alert_entries [simp]: "length (alert_entries io extra alerts i j k) = length alerts"
  by (simp add: alert_entries_def)

lemma enqueue_effect:
  assumes "disk_ok m d" and "inst_ok m d q" and "2 \<le> m" and "enqueue io alerts extra q d = (r, q', d')"
  shows "disk_ok m d' \<and> extends d d' \<and> inst_ok m d' q' \<and> (\<forall>x. r = Inr x \<longrightarrow> wrote m (length alerts) (alert_entries io extra alerts) d x d')"
  using assms(4)
proof (cases rule: enqueue_cases)
  case 1
  then show ?thesis
    using assms(2) by (intro write_effect [OF assms(1,2,3) _ builder_alerts]) (simp_all add: inst_ok_def)
next
  case (2 s)
  with assms show ?thesis by (simp add: extends_def)
qed

lemma status_effect:
  assumes "disk_ok m d" and "inst_ok m d q" and "2 \<le> m" and "append_status io status q d = (r, q', d')"
  shows "disk_ok m d' \<and> extends d d' \<and> inst_ok m d' q' \<and> (\<forall>x. r = Inr x \<longrightarrow> wrote m 0 (status_entry io status) d x d')"
  using assms(4) unfolding append_status_def
  by (rule write_effect [OF assms(1,2,3) _ builder_status, rotated 2]) (simp_all add: status_entry_def)

lemma count_once_simps [simp]: "qcached (count_once k i n q) = qcached q" "max_entries (count_once k i n q) = max_entries q"
  by (simp_all add: count_once_def Let_def)

lemma read_keeps: "qcached (snd (parse_complete_lines ino n ls t q)) = qcached q \<and> max_entries (snd (parse_complete_lines ino n ls t q)) = max_entries q"
  by (induction ino n ls t q rule: parse_complete_lines.induct) (auto simp: Let_def case_prod_beta split: option.splits)

lemma read_entries_keeps: "read_entries q d = (rows, q') \<Longrightarrow> inst_ok m d' q' = inst_ok m d' q"
proof -
  assume r: "read_entries q d = (rows, q')"
  have "qcached q' = qcached q \<and> max_entries q' = max_entries q"
  proof (cases "dfile d")
    case (Some f)
    with r have "q' = snd (parse_complete_lines (dino d) 0 (flines f) (torn f) q)" by (simp add: read_entries_def)
    then show ?thesis by (simp add: read_keeps)
  qed (use r in \<open>simp add: read_entries_def\<close>)
  then show ?thesis by (simp add: inst_ok_def)
qed

lemma insts_extend: "list_all (inst_ok m d) qs \<Longrightarrow> extends d d' \<Longrightarrow> list_all (inst_ok m d') qs"
  by (auto simp: list_all_iff inst_ok_def intro: cache_extends split: option.splits)

lemma list_all_upd: "list_all P xs \<Longrightarrow> P x \<Longrightarrow> list_all P (xs[i := x])"
  by (auto simp: list_all_iff dest!: set_update_subset_insert [THEN subsetD])

interpretation queue_machine: invariant_system "queue_initial m" "queue_step m" "queue_inv m" for m
proof unfold_locales
  show "queue_inv m s" if "queue_initial m s" for s
    using that by cases (simp add: queue_inv_def disk_ok_def)
  show "queue_inv m s'" if inv: "queue_inv m s" and "queue_step m s s'" for s s'
    using that(2)
  proof cases
    case (queue_open q)
    with inv show ?thesis by (auto simp: queue_inv_def inst_ok_def init_queue_def split: if_splits)
  next
    case (queue_enqueue i io alerts extra r q d)
    with inv have "inst_ok m (qw_disk s) (qw_insts s ! i)" by (simp add: queue_inv_def list_all_length)
    with enqueue_effect [OF _ _ _ queue_enqueue(3)] inv queue_enqueue(1) show ?thesis
      by (auto simp: queue_inv_def intro: list_all_upd insts_extend)
  next
    case (queue_status i io status r q d)
    with inv have "inst_ok m (qw_disk s) (qw_insts s ! i)" by (simp add: queue_inv_def list_all_length)
    with status_effect [OF _ _ _ queue_status(3)] inv queue_status(1) show ?thesis
      by (auto simp: queue_inv_def intro: list_all_upd insts_extend)
  next
    case (queue_read i rows q)
    with inv have "inst_ok m (qw_disk s) (qw_insts s ! i)" by (simp add: queue_inv_def list_all_length)
    with read_entries_keeps [OF queue_read(3)] inv queue_read(1) show ?thesis
      by (auto simp: queue_inv_def intro: list_all_upd)
  qed
qed

lemma reached_inst:
  assumes "reach (queue_initial m) (queue_step m) w" and "i < length (qw_insts w)"
  shows "disk_ok m (qw_disk w)" and "inst_ok m (qw_disk w) (qw_insts w ! i)" and "2 \<le> m"
  using queue_machine.reach_inv [OF assms(1)] assms(2) by (simp_all add: queue_inv_def list_all_length)

lemma disk_rows: "disk_ok m d \<Longrightarrow> good_rows (queue_rows d) \<and> length (queue_rows d) \<le> 2 * m"
  by (auto simp: disk_ok_def queue_rows_def good_file_def good_rows_def split: option.splits)

section \<open>Evicting no more than needed\<close>

lemma evict_least:
  assumes "kept = sum_list (map (\<lambda>k. length (of_decision al k)) ks)" and "j < length (snd (evict_keys m al inc kept ks))"
  shows "m < sum_list (map (\<lambda>k. length (of_decision al k)) (drop j ks)) + inc"
  using assms
proof (induction ks arbitrary: kept j)
  case (Cons k ks)
  then show ?case by (cases j) (auto simp: case_prod_beta Let_def split: if_splits)
qed simp

lemma alerts_without:
  assumes "ks = dedup (map decision_key (filter is_alert rows))"
  shows "sum_list (map (\<lambda>k. length (of_decision (filter is_alert rows) k)) (drop j ks)) =
    length (filter (\<lambda>r. is_alert r \<and> decision_key r \<notin> set (take j ks)) rows)"
proof -
  let ?al = "filter is_alert rows"
  have d: "distinct ks" "set ks = decision_key ` set ?al" by (simp_all add: assms)
  have "set (drop j ks) \<inter> set (take j ks) = {}" "set (drop j ks) \<union> set (take j ks) = set ks"
    using d(1) by (metis append_take_drop_id distinct_append inf_commute, metis append_take_drop_id set_append sup_commute)
  with d(2) have "filter (\<lambda>r. decision_key r \<in> set (drop j ks)) ?al = filter (\<lambda>r. decision_key r \<notin> set (take j ks)) ?al"
    by (intro filter_cong) auto
  with sum_of_keys [OF distinct_drop [OF d(1)]] show ?thesis by (simp add: conj_commute)
qed

text \<open>The decisions of the file in the order they came in, and the alerts left when the oldest \<open>k\<close> are dropped.\<close>

definition decisions :: "pydict list \<Rightarrow> string list" where
  "decisions rows = dedup (map decision_key (filter is_alert rows))"

definition without_oldest :: "nat \<Rightarrow> pydict list \<Rightarrow> pydict list" where
  "without_oldest k rows = filter (\<lambda>r. is_alert r \<and> decision_key r \<notin> set (take k (decisions rows))) rows"

lemma evicted_are_oldest:
  assumes "inc \<le> m"
  obtains k where "evicted_keys m rows inc = take k (decisions rows)" and "length (without_oldest k rows) + inc \<le> m"
    and "\<And>j. j < k \<Longrightarrow> m < length (without_oldest j rows) + inc"
proof -
  let ?al = "filter is_alert rows"
  let ?ks = "decisions rows"
  let ?e = "evict_keys m ?al inc (length ?al) ?ks"
  have all: "length ?al = sum_list (map (\<lambda>k. length (of_decision ?al k)) ?ks)"
    using alerts_without [of ?ks rows 0] by (simp add: decisions_def)
  note left = alerts_without [of ?ks rows, OF decisions_def, folded without_oldest_def]
  have ev: "evicted_keys m rows inc = snd ?e" by (simp add: evicted_keys_def decisions_def Let_def)
  show thesis
  proof (rule that [of "length (snd ?e)"])
    show "evicted_keys m rows inc = take (length (snd ?e)) ?ks" using evict_split [of m ?al inc "length ?al" ?ks] ev by simp
    show "length (without_oldest (length (snd ?e)) rows) + inc \<le> m"
      using evict_enough [OF all assms] evict_split [of m ?al inc "length ?al" ?ks] left [of "length (snd ?e)"] by simp
    show "m < length (without_oldest j rows) + inc" if "j < length (snd ?e)" for j
      using evict_least [OF all that] left [of j] by simp
  qed
qed

lemma overflowed:
  assumes wr: "wrote m n build d x d'" and len: "length (build 0 0 0) \<le> n" "n \<le> m" and "2 * m < length (queue_rows d) + length (build 0 0 0)"
  shows "\<exists>k alarm. queue_rows d' = without_oldest k (queue_rows d) @ [alarm] @ we_entries x
    \<and> length (without_oldest k (queue_rows d)) + n \<le> m \<and> (\<forall>j < k. m < length (without_oldest j (queue_rows d)) + n)
    \<and> we_evicted x + length (without_oldest k (queue_rows d)) = length (filter is_alert (queue_rows d))"
proof -
  obtain k where k: "evicted_keys m (queue_rows d) n = take k (decisions (queue_rows d))" "length (without_oldest k (queue_rows d)) + n \<le> m"
    "\<And>j. j < k \<Longrightarrow> m < length (without_oldest j (queue_rows d)) + n" using evicted_are_oldest [OF len(2)] by metis
  from wr assms(4) have rows: "queue_rows d' = without_oldest k (queue_rows d) @ we_written x" "we_entries x = drop 1 (we_written x)"
    "length (we_written x) = Suc (length (build 0 0 0))"
    "we_evicted x = length (filter (\<lambda>r. is_alert r \<and> decision_key r \<in> set (take k (decisions (queue_rows d)))) (queue_rows d))"
    by (auto simp: wrote_def Let_def case_prod_beta kept_rows_def dropped_alerts_def k(1) without_oldest_def)
  obtain alarm where "we_written x = alarm # we_entries x" using rows(2,3) by (cases "we_written x") auto
  moreover have "we_evicted x + length (without_oldest k (queue_rows d)) = length (filter is_alert (queue_rows d))"
    using sum_length_filter_compl [of "\<lambda>r. decision_key r \<in> set (take k (decisions (queue_rows d)))" "filter is_alert (queue_rows d)"]
    by (simp add: rows(4) without_oldest_def conj_commute)
  ultimately show ?thesis using k(2,3) rows(1) by auto
qed

lemma write_ignores_cache:
  assumes "disk_ok m d" and "inst_ok m d q"
  shows "fst (queue_write io build inc q d) = fst (queue_write io build inc (q\<lparr>qcached := None\<rparr>) d)
    \<and> snd (snd (queue_write io build inc q d)) = snd (snd (queue_write io build inc (q\<lparr>qcached := None\<rparr>) d))"
proof -
  let ?o = "open_or_create d"
  obtain f where f: "dfile ?o = Some f" by (cases "dfile d") (simp_all add: open_or_create_def)
  have ex: "extends d ?o" by (cases "dfile d") (simp_all add: open_or_create_def extends_def)
  have "disk_ok m ?o" using assms(1) by (cases "dfile d") (auto simp: open_or_create_def disk_ok_def good_file_def good_rows_def)
  moreover have "inst_ok m ?o q" using assms(2) cache_extends [OF _ ex] by (auto simp: inst_ok_def split: option.splits)
  moreover have "inst_ok m ?o (q\<lparr>qcached := None\<rparr>)" using assms(2) by (simp add: inst_ok_def)
  ultimately have "looked_up q ?o = looked_up (q\<lparr>qcached := None\<rparr>) ?o" using hit_is_scan f by metis
  then show ?thesis
    by (simp add: queue_write_def Let_def case_prod_beta max_lines_def write_compacted_def write_append_def compact_lines_def split: option.splits)
qed

section \<open>Properties of the queue\<close>

text \<open>A queue file in use: one writer, one decision in a queue of two alerts.\<close>

definition ex_qio :: qio where
  "ex_qio = \<lparr>io_stamp = 7, io_boot = ''b'', io_now = ''t'', open_ok = True, cut = None, io_fsync = Synced, io_dir = Synced, rewrite_ok = True, stat_ok = True\<rparr>"

definition ex_q0 :: qinst where
  "ex_q0 = \<lparr>max_entries = 2, qcached = None, compactions = 0, read_partial_tail_total = 0, read_unparseable_total = 0, counted_offsets = []\<rparr>"

definition ex_alert :: "string \<Rightarrow> pydict" where
  "ex_alert i = [(''decision_id'', PStr i), (''channel'', PStr ''visual'')]"

definition ex_d0 :: qdisk where "ex_d0 = \<lparr>dfile = None, dino = 0\<rparr>"
definition ex_w1 :: qworld where "ex_w1 = \<lparr>qw_disk = ex_d0, qw_insts = [ex_q0]\<rparr>"
definition ex_out :: "(pyexc + written_entries) \<times> qinst \<times> qdisk" where
  "ex_out = enqueue ex_qio [ex_alert ''d1''] [] ex_q0 ex_d0"

lemma ex_w1_reach: "reach (queue_initial 2) (queue_step 2) ex_w1"
proof -
  have "queue_step 2 \<lparr>qw_disk = ex_d0, qw_insts = []\<rparr> (\<lparr>qw_disk = ex_d0, qw_insts = []\<rparr>\<lparr>qw_insts := [] @ [ex_q0]\<rparr>)"
    using queue_step.queue_open [of 2 ex_q0 "\<lparr>qw_disk = ex_d0, qw_insts = []\<rparr>"] by (simp add: init_queue_def ex_q0_def CHANNELS_def)
  moreover have "queue_initial 2 \<lparr>qw_disk = ex_d0, qw_insts = []\<rparr>" using queue_fresh [of 2] by (simp add: ex_d0_def)
  ultimately show ?thesis by (auto simp: ex_w1_def intro: reach.intros)
qed

definition ex_written :: written_entries where
  "ex_written = \<lparr>we_entries = map (mark_repaired 0) (alert_entries ex_qio [] [ex_alert ''d1''] 1 0 0),
     we_written = map (mark_repaired 0) (alert_entries ex_qio [] [ex_alert ''d1''] 1 0 0), we_durability = ''fsynced'', we_evicted = 0, we_repaired = 0\<rparr>"

definition ex_d1 :: qdisk where
  "ex_d1 = \<lparr>dfile = Some \<lparr>flines = row_lines (we_entries ex_written), torn = None\<rparr>, dino = 1\<rparr>"

definition ex_q1 :: qinst where
  "ex_q1 = recache ex_qio (we_entries ex_written) 1 0 ex_d1 ex_q0"

lemma ex_enqueue: "enqueue ex_qio [ex_alert ''d1''] [] ex_q0 ex_d0 = (Inr ex_written, ex_q1, ex_d1)"
  by (simp add: enqueue_def queue_write_def open_or_create_def looked_up_def cache_hit_def scan_def parse_rows_def List.map_filter_def torn_size_def
      max_lines_def write_append_def durability_name_def Let_def ex_qio_def ex_q0_def ex_d0_def ex_d1_def ex_q1_def ex_written_def)

definition ex_w2 :: qworld where "ex_w2 = \<lparr>qw_disk = ex_d1, qw_insts = [ex_q1]\<rparr>"

lemma ex_w2_reach: "reach (queue_initial 2) (queue_step 2) ex_w2"
  using reach_step [OF ex_w1_reach queue_step.queue_enqueue [of 0 ex_w1 ex_qio "[ex_alert ''d1'']" "[]" "Inr ex_written" ex_q1 ex_d1]] ex_enqueue
  by (simp add: ex_w1_def ex_w2_def)

text \<open>C10. In every reachable state of the queue, whatever writes failed, were cut off or could not be synced and however many
  queue objects share the file, the file holds at most \<open>2 * max_entries\<close> complete lines, every complete line is a row of the
  queue, and the sequence numbers grow strictly from line to line.\<close>

theorem queue_file_is_bounded_and_ordered:
  assumes "reach (queue_initial m) (queue_step m) w" and "dfile (qw_disk w) = Some f"
  shows "length (flines f) \<le> 2 * m \<and> list_all (\<lambda>l. line_dict l \<noteq> None) (flines f) \<and> sorted_wrt (<) (map seq_of (queue_rows (qw_disk w)))"
proof -
  have "disk_ok m (qw_disk w)" using queue_machine.reach_inv [OF assms(1)] by (simp add: queue_inv_def)
  then show ?thesis
    using disk_rows [of m "qw_disk w"] assms(2) by (auto simp: disk_ok_def good_file_def list_all_iff good_rows_def)
qed

theorem queue_file_is_bounded_and_ordered_witness:
  "length (row_lines (we_entries ex_written)) \<le> 2 * 2 \<and> sorted_wrt (<) (map seq_of (queue_rows (qw_disk ex_w2)))"
  using queue_file_is_bounded_and_ordered [OF ex_w2_reach, of "\<lparr>flines = row_lines (we_entries ex_written), torn = None\<rparr>"]
  by (simp add: ex_w2_def ex_d1_def)

text \<open>The position a queue object caches between writes never changes what a write does: with the cache dropped, so that the
  file is read again, the same call gives the same result and leaves the same file.\<close>

theorem cached_write_is_an_uncached_write:
  assumes "reach (queue_initial m) (queue_step m) w" and "i < length (qw_insts w)"
    and "enqueue io alerts extra (qw_insts w ! i) (qw_disk w) = (r, q1, d1)"
    and "enqueue io alerts extra ((qw_insts w ! i)\<lparr>qcached := None\<rparr>) (qw_disk w) = (r', q2, d2)"
  shows "r = r' \<and> d1 = d2"
  using write_ignores_cache [OF reached_inst(1,2) [OF assms(1,2)], of io "alert_entries io extra alerts" "length alerts"] assms(3,4)
  by (auto simp: enqueue_def split: if_splits)

theorem cached_write_is_an_uncached_write_witness:
  "cache_hit ex_q1 ex_d1 \<noteq> None \<and> fst (enqueue ex_qio [ex_alert ''d2''] [] ex_q1 ex_d1) = fst (enqueue ex_qio [ex_alert ''d2''] [] (ex_q1\<lparr>qcached := None\<rparr>) ex_d1)"
proof
  show "cache_hit ex_q1 ex_d1 \<noteq> None" by (simp add: cache_hit_def ex_q1_def recache_def ex_d1_def ex_qio_def)
  show "fst (enqueue ex_qio [ex_alert ''d2''] [] ex_q1 ex_d1) = fst (enqueue ex_qio [ex_alert ''d2''] [] (ex_q1\<lparr>qcached := None\<rparr>) ex_d1)"
    using cached_write_is_an_uncached_write [OF ex_w2_reach, of 0 ex_qio "[ex_alert ''d2'']" "[]"] by (auto simp: ex_w2_def prod_eq_iff)
qed

text \<open>C6. A successful enqueue refines appending to a bounded list. Without overflow the file is the old rows and then the new
  entries. With overflow the rows kept are the old alerts, in order, without the alerts of the \<open>k\<close> oldest decisions, where \<open>k\<close> is the
  least number that makes room for the new alerts, followed by one alarm and the new entries; a decision is never half evicted, and
  the result counts exactly the alerts dropped.\<close>

theorem enqueue_refines_a_bounded_list:
  assumes "reach (queue_initial m) (queue_step m) w" and "i < length (qw_insts w)"
    and "enqueue io alerts extra (qw_insts w ! i) (qw_disk w) = (Inr x, q', d')" and "rows = queue_rows (qw_disk w)"
  shows "length (we_entries x) = length alerts \<and>
    (if length rows + length alerts \<le> 2 * m
     then queue_rows d' = rows @ we_entries x \<and> we_evicted x = 0
     else \<exists>k alarm. queue_rows d' = without_oldest k rows @ [alarm] @ we_entries x
        \<and> length (without_oldest k rows) + length alerts \<le> m
        \<and> (\<forall>j < k. m < length (without_oldest j rows) + length alerts)
        \<and> we_evicted x + length (without_oldest k rows) = length (filter is_alert rows))"
proof -
  note w = reached_inst [OF assms(1,2)]
  have le: "length alerts \<le> m" using assms(3) w(2) by (auto simp: enqueue_def inst_ok_def split: if_splits)
  have wr: "wrote m (length alerts) (alert_entries io extra alerts) (qw_disk w) x d'" using enqueue_effect [OF w assms(3)] by simp
  show ?thesis
  proof (cases "length rows + length alerts \<le> 2 * m")
    case True
    with wr assms(4) show ?thesis by (auto simp: wrote_def Let_def case_prod_beta kept_rows_def dropped_alerts_def)
  next
    case False
    have "length (we_entries x) = length alerts" using wr by (auto simp: wrote_def Let_def case_prod_beta)
    with overflowed [OF wr _ le] False assms(4) show ?thesis by simp
  qed
qed

theorem enqueue_refines_a_bounded_list_witness:
  "queue_rows ex_d1 = queue_rows ex_d0 @ we_entries ex_written \<and> we_evicted ex_written = 0"
  using enqueue_refines_a_bounded_list [OF ex_w1_reach, of 0 ex_qio "[ex_alert ''d1'']" "[]" ex_written ex_q1 ex_d1] ex_enqueue
  by (simp add: ex_w1_def queue_rows_def [of "\<lparr>dfile = None, dino = 0\<rparr>"] ex_d0_def)

section \<open>Wording\<close>

lemma worded_text: "dget (worded e a) ''display_text'' = PStr (rd_text (render_p0_alert e a))"
  by (simp add: worded_def Let_def dict_simps)

lemma worded_urgent: "dget a ''channel'' = PStr ''voice'' \<Longrightarrow> dget (worded e a) ''voice_urgent'' = PBool (rd_urgent (render_p0_alert e a))"
  by (simp add: worded_def Let_def dict_simps)

lemma render_urgent: "rd_urgent (render_p0_alert e a) \<longleftrightarrow> \<not> (dget a ''presentation'' = PStr ''historical'' \<or> dget a ''stale'' = PBool True)"
  by (simp add: render_p0_alert_def Let_def)

lemma render_labelled:
  assumes "dget a ''presentation'' = PStr ''historical'' \<or> dget a ''stale'' = PBool True"
  shows "\<exists>before after. rd_text (render_p0_alert e a) = before @ HISTORICAL_LABEL @ after \<and> length before \<le> 3"
proof -
  have "\<exists>before after. (if c then (HISTORICAL_LABEL @ x) @ y else OPEN_BRACKET @ (HISTORICAL_LABEL @ x) @ z) = before @ HISTORICAL_LABEL @ after \<and> length before \<le> 3" for c x y z
    by (cases c) (auto simp: OPEN_BRACKET_def intro: exI [of _ "[]"] exI [of _ "[CHR 0xE3, CHR 0x80, CHR 0x90]"])
  with assms show ?thesis by (simp add: render_p0_alert_def Let_def)
qed

lemma built_alert:
  assumes "a \<in> set (build_p0_alerts e r basis durability stamp now)"
  obtains c b where "a = worded e b" and "dget b ''stale'' = PBool (is_stale e r durability now)"
    and "dget b ''presentation'' = PStr (if is_stale e r durability now then ''historical'' else ''current'')" and "dget b ''channel'' = PStr c" and "c \<in> set CHANNELS"
proof -
  from assms obtain c where c: "c \<in> set CHANNELS" "a = worded e (alert_base e r basis durability stamp now @ [(''channel'', PStr c)])"
    by (auto simp: build_p0_alerts_def)
  show thesis by (rule that [OF c(2) _ _ _ c(1)]) (simp_all add: alert_base_def Let_def dget_Cons)
qed

text \<open>An alert built from a past decision is never announced as a current one: it is marked historical, its text carries the label for
  past decisions, and on the voice channel it is not urgent; every other alert is marked current and its voice entry urgent. A record that did
  not come out of a reconcile is never past.\<close>

theorem past_decisions_are_never_announced_as_current:
  assumes "a \<in> set (build_p0_alerts e r basis durability stamp now)"
  shows "dget a ''presentation'' = PStr (if is_stale e r durability now then ''historical'' else ''current'')
    \<and> (dget a ''channel'' = PStr ''voice'' \<longrightarrow> dget a ''voice_urgent'' = PBool (\<not> is_stale e r durability now))
    \<and> (is_stale e r durability now \<longrightarrow> (\<exists>before after. dget a ''display_text'' = PStr (before @ HISTORICAL_LABEL @ after) \<and> length before \<le> 3))
    \<and> (\<not> is_reconciled r durability \<longrightarrow> \<not> is_stale e r durability now)"
proof -
  obtain c b where b: "a = worded e b" "dget b ''stale'' = PBool (is_stale e r durability now)"
    "dget b ''presentation'' = PStr (if is_stale e r durability now then ''historical'' else ''current'')" "dget b ''channel'' = PStr c"
    using assms by (rule built_alert)
  have keep: "dget a ''presentation'' = dget b ''presentation''" "dget a ''channel'' = dget b ''channel''" by (simp_all add: b(1) worded_def Let_def dict_simps)
  have "dget a ''voice_urgent'' = PBool (\<not> is_stale e r durability now)" if "dget a ''channel'' = PStr ''voice''"
    using that b(2,3) keep by (simp add: b(1) worded_urgent render_urgent)
  moreover have "\<exists>before after. dget a ''display_text'' = PStr (before @ HISTORICAL_LABEL @ after) \<and> length before \<le> 3" if "is_stale e r durability now"
    using render_labelled [of b e] that b(2) by (auto simp: b(1) worded_text)
  moreover have "\<not> is_reconciled r durability \<longrightarrow> \<not> is_stale e r durability now" by (simp add: is_stale_def is_reconciled_def)
  ultimately show ?thesis using b(3) keep(1) by simp
qed

definition ex_denv :: denv where "ex_denv = \<lparr>parse_ts = (\<lambda>_. Some 1000), format_utc = (\<lambda>_. Some ''then'')\<rparr>"

theorem past_decisions_are_never_announced_as_current_witness:
  "dget (last (build_p0_alerts ex_denv [(''event_ts'', PStr ''x'')] ''soc_critical'' ''reconciled_from_chain'' None 2000)) ''voice_urgent'' = PBool False"
proof -
  let ?al = "build_p0_alerts ex_denv [(''event_ts'', PStr ''x'')] ''soc_critical'' ''reconciled_from_chain'' None 2000"
  have "last ?al \<in> set ?al" by (simp add: build_p0_alerts_def CHANNELS_def)
  note claim = past_decisions_are_never_announced_as_current [OF this]
  have "is_stale ex_denv [(''event_ts'', PStr ''x'')] ''reconciled_from_chain'' 2000"
    by (simp add: is_stale_def is_past_decision_def record_epoch_def ex_denv_def dict_simps Let_def
        RECONCILED_DURABILITIES_def STALE_AFTER_S_def CLOCK_SKEW_TOLERANCE_S_def)
  moreover have "dget (last ?al) ''channel'' = PStr ''voice''"
    by (simp add: build_p0_alerts_def CHANNELS_def worded_def Let_def dict_simps alert_base_def)
  ultimately show ?thesis using claim by simp
qed

end
