(* ===== verification/AlertRelay.thy ===== *)
theory AlertRelay
  imports AlertQueue
begin

text \<open>
  The relay from the audit chain to the P0 alert queue (\<open>P0AlertRelay\<close> and \<open>attach_p0_alert_relay\<close> of
  \<open>py/azazel_edge/notify/p0_alert.py\<close>).

  The relay object and the queue file are one state, \<open>rworld\<close>; the relay's lock-protected counters and its thread-private fields
  are one record. \<open>renv\<close> holds what the surroundings answer: the date library, the system calls and the clock of the \<open>n\<close>-th write
  of the queue, and \<open>fsync\<close> of an audit file with the number of its error. \<open>rw_tick\<close> counts the writes. The audit logger is an argument, \<open>None\<close> when the
  relay has none. The observer \<open>on_relayed\<close> gets the result and changes nothing, so it is left out.
\<close>

section \<open>State\<close>

record renv =
  r_dates :: denv
  r_io :: "nat \<Rightarrow> qio"
  r_now :: "nat \<Rightarrow> rat"
  r_sync :: "afile \<Rightarrow> sync"
  r_errno :: string

record relay_item =
  it_record :: pydict
  it_durability :: string
  it_stamp :: "int option"

record relay =
  rl_queue :: qinst
  audit_path :: "string option"
  max_reconcile :: int
  pending_max :: nat
  pending :: "relay_item list"
  rl_handoff_dropped :: nat
  rl_enqueue_failed :: nat
  rl_enqueued :: nat
  reconciled_total :: nat
  reconcile_skipped_total :: nat
  loss_recovered_total :: nat
  loss_unrecovered_total :: nat
  loss_recover_interval :: rat
  max_lost :: nat
  lost :: "string list"
  logger_drop_seq :: nat
  last_loss_pass :: "rat option"
  rl_chain_id :: string
  rl_reported :: "nat \<times> nat \<times> nat"
  seen :: "string list"
  stopping :: bool
  outstanding :: int
  reconcile_until :: "string option"

record rworld =
  rw_relay :: relay
  rw_disk :: qdisk
  rw_tick :: nat

definition LOSS_RECOVER_MAX_BYTES :: int where "LOSS_RECOVER_MAX_BYTES = 4 * 1024 * 1024"
definition SEEN_KEEP :: nat where "SEEN_KEEP = 8192"

definition init_relay :: "qinst \<Rightarrow> string option \<Rightarrow> int \<Rightarrow> int \<Rightarrow> rat \<Rightarrow> int \<Rightarrow> relay" where
  "init_relay q path mp mr interval ml =
     \<lparr>rl_queue = q, audit_path = path, max_reconcile = mr, pending_max = nat (max 1 mp), pending = [],
      rl_handoff_dropped = 0, rl_enqueue_failed = 0, rl_enqueued = 0, reconciled_total = 0, reconcile_skipped_total = 0,
      loss_recovered_total = 0, loss_unrecovered_total = 0, loss_recover_interval = interval, max_lost = nat (max 1 ml), lost = [],
      logger_drop_seq = 0, last_loss_pass = None, rl_chain_id = [], rl_reported = (0, 0, 0), seen = [], stopping = False, outstanding = 0,
      reconcile_until = None\<rparr>"

definition audit_path_id :: "relay \<Rightarrow> string" where
  "audit_path_id s = (case audit_path s of None \<Rightarrow> [] | Some p \<Rightarrow> p)"

section \<open>The listener\<close>

definition note_lost :: "string \<Rightarrow> relay \<Rightarrow> relay" where
  "note_lost h s =
     (if h = [] then s
      else
        (let l = (if h \<in> set (lost s) then lost s else lost s @ [h]);
             n = length l - max_lost s
         in s\<lparr>lost := drop n l, loss_unrecovered_total := loss_unrecovered_total s + n\<rparr>))"

definition on_durable_record :: "pyval \<Rightarrow> string \<Rightarrow> int \<Rightarrow> relay \<Rightarrow> relay" where
  "on_durable_record record durability stamp s =
     (if \<not> is_dict record \<or> dget (dict_of record) ''kind'' \<noteq> PStr ''action_decision'' then s
      else if length (pending s) < pending_max s
      then s\<lparr>outstanding := outstanding s + 1,
             pending := pending s @ [\<lparr>it_record = dict_of record, it_durability = durability, it_stamp = Some stamp\<rparr>]\<rparr>
      else note_lost (text_of (dget (dict_of record) ''chain_hash'')) (s\<lparr>rl_handoff_dropped := Suc (rl_handoff_dropped s)\<rparr>))"

section \<open>Counters\<close>

definition logger_dropped :: "alog option \<Rightarrow> nat" where
  "logger_dropped lg = (case lg of None \<Rightarrow> 0 | Some l \<Rightarrow> handoff_dropped_total l)"

definition relay_metrics :: "alog option \<Rightarrow> relay \<Rightarrow> pydict" where
  "relay_metrics lg s =
     (let n = (\<lambda>k. PInt (int k)) in
      [(''enqueued_total'', n (rl_enqueued s)),
       (''enqueue_failed_total'', n (rl_enqueue_failed s)),
       (''handoff_dropped_total'', n (rl_handoff_dropped s)),
       (''reconciled_total'', n (reconciled_total s)),
       (''reconcile_skipped_total'', n (reconcile_skipped_total s)),
       (''loss_recovered_total'', n (loss_recovered_total s)),
       (''loss_unrecovered_total'', n (loss_unrecovered_total s)),
       (''audit_listener_handoff_dropped_total'', n (logger_dropped lg)),
       (''queue_read_partial_tail_total'', n (read_partial_tail_total (rl_queue s))),
       (''queue_read_unparseable_total'', n (read_unparseable_total (rl_queue s)))])"

definition loss_counters :: "alog option \<Rightarrow> relay \<Rightarrow> nat \<times> nat \<times> nat" where
  "loss_counters lg s = (rl_handoff_dropped s, rl_enqueue_failed s, logger_dropped lg)"

section \<open>Relaying one record\<close>

definition remember :: "string \<Rightarrow> relay \<Rightarrow> bool \<times> relay" where
  "remember h s =
     (if h = [] then (True, s)
      else if h \<in> set (seen s) then (False, s)
      else (True, s\<lparr>seen := (if SEEN_KEEP < length (seen s @ [h]) then tl (seen s @ [h]) else seen s @ [h])\<rparr>))"

definition chain_id_for :: "alog option \<Rightarrow> pydict \<Rightarrow> relay \<Rightarrow> string \<times> relay" where
  "chain_id_for lg r s =
     (let c = (if rl_chain_id s \<noteq> [] then rl_chain_id s
               else if text_of (dget r ''chain_prev'') = [] \<or> truthy (dget r ''chain_id'') then chain_id_of r
               else (case lg of None \<Rightarrow> [] | Some l \<Rightarrow> chain_id l))
      in (c, s\<lparr>rl_chain_id := c\<rparr>))"

definition addressed :: "denv \<Rightarrow> string \<Rightarrow> string \<Rightarrow> bool \<Rightarrow> bool \<Rightarrow> pydict \<Rightarrow> pydict" where
  "addressed e cid path force_past move_cursor entry =
     (let a = (if cid = [] then entry
               else (let b = AList.update ''audit_chain_id'' (PStr cid) entry
                     in if path \<noteq> [] then AList.update ''audit_path'' (PStr path) b else b));
          b = (if force_past then as_past e a else a)
      in if move_cursor then b else AList.delete ''audit_cursor_chain_hash'' b)"

datatype relayed = NotP0 | Duplicate | Enqueued written_entries | NotEnqueued pyexc

fun relayed_ok :: "relayed \<Rightarrow> bool" where
  "relayed_ok (NotEnqueued _) = False"
| "relayed_ok _ = True"

definition relay_record :: "renv \<Rightarrow> alog option \<Rightarrow> pydict \<Rightarrow> string \<Rightarrow> int option \<Rightarrow> bool \<Rightarrow> bool \<Rightarrow> rworld \<Rightarrow> relayed \<times> rworld" where
  "relay_record e lg r durability stamp move_cursor force_past w =
     (let s = rw_relay w; basis = classify_p0 r; h = text_of (dget r ''chain_hash'') in
      if basis = [] then (NotP0, w)
      else if \<not> fst (remember h s) then (Duplicate, w)
      else
        (let s1 = snd (remember h s);
             n = rw_tick w;
             extra = [(''relay_handoff_dropped_total'', PInt (int (rl_handoff_dropped s1))),
                      (''relay_enqueue_failed_total'', PInt (int (rl_enqueue_failed s1)))];
             alerts = build_p0_alerts (r_dates e) r basis durability stamp (r_now e n);
             (cid, s2) = chain_id_for lg r s1;
             (res, q, d) = enqueue (r_io e n) (map (addressed (r_dates e) cid (audit_path_id s2) force_past move_cursor) alerts) extra
               (rl_queue s2) (rw_disk w);
             s3 = s2\<lparr>rl_queue := q\<rparr>
         in (case res of
               Inl x \<Rightarrow> (NotEnqueued x, \<lparr>rw_relay = s3\<lparr>rl_enqueue_failed := Suc (rl_enqueue_failed s3), seen := removeAll h (seen s3)\<rparr>,
                  rw_disk = d, rw_tick = Suc n\<rparr>)
             | Inr x \<Rightarrow> (Enqueued x, \<lparr>rw_relay = s3\<lparr>rl_enqueued := Suc (rl_enqueued s3)\<rparr>, rw_disk = d, rw_tick = Suc n\<rparr>))))"

section \<open>Status records\<close>

definition status_record :: "alog option \<Rightarrow> pydict \<Rightarrow> relay \<Rightarrow> pydict" where
  "status_record lg status s =
     (let r = dupdate status (relay_metrics lg s) in
      if \<not> truthy (dget r ''audit_cursor_chain_hash'') then AList.delete ''audit_cursor_chain_hash'' r
      else if rl_chain_id s = [] then r
      else (let b = AList.update ''audit_chain_id'' (PStr (rl_chain_id s)) r
            in if audit_path_id s \<noteq> [] then AList.update ''audit_path'' (PStr (audit_path_id s)) b else b))"

definition write_status :: "renv \<Rightarrow> alog option \<Rightarrow> pydict \<Rightarrow> rworld \<Rightarrow> rworld" where
  "write_status e lg status w =
     (let s = rw_relay w;
          (res, q, d) = append_status (r_io e (rw_tick w)) (status_record lg status s) (rl_queue s) (rw_disk w);
          s1 = s\<lparr>rl_queue := q\<rparr>
      in \<lparr>rw_relay = (case res of Inl _ \<Rightarrow> s1 | Inr _ \<Rightarrow> s1\<lparr>rl_reported := loss_counters lg s\<rparr>), rw_disk = d, rw_tick = Suc (rw_tick w)\<rparr>)"

definition report_losses :: "renv \<Rightarrow> alog option \<Rightarrow> rworld \<Rightarrow> rworld" where
  "report_losses e lg w =
     (if loss_counters lg (rw_relay w) \<noteq> rl_reported (rw_relay w) then write_status e lg [(''event'', PStr ''loss'')] w else w)"

section \<open>The cursor\<close>

record cursors =
  cu_cursor :: string
  cu_path :: string
  cu_legacy :: string
  cu_other :: bool
  cu_hashes :: "string list"

definition cursor_row :: "string \<Rightarrow> string \<Rightarrow> pydict \<Rightarrow> cursors \<Rightarrow> cursors" where
  "cursor_row path cid row u =
     (let c = dget row ''audit_cursor_chain_hash'';
          i = dget row ''audit_chain_id'';
          u1 = (if \<not> (is_text c \<and> py_str c \<noteq> []) then u
                else if \<not> (is_text i \<and> py_str i \<noteq> []) then u\<lparr>cu_legacy := py_str c\<rparr>
                else if path \<noteq> [] \<and> dget row ''audit_path'' = PStr path
                then (let v = u\<lparr>cu_path := py_str c\<rparr> in if cid \<noteq> [] \<and> i = PStr cid then v\<lparr>cu_cursor := py_str c\<rparr> else v)
                else u\<lparr>cu_other := True\<rparr>);
          h = dget row ''decision_chain_hash''
      in if is_alert row \<and> is_text h \<and> py_str h \<noteq> [] then u1\<lparr>cu_hashes := cu_hashes u1 @ [py_str h]\<rparr> else u1)"

definition queue_cursor_and_hashes :: "string \<Rightarrow> string \<Rightarrow> pydict list \<Rightarrow> cursors" where
  "queue_cursor_and_hashes path cid rows =
     fold (cursor_row path cid) rows \<lparr>cu_cursor = [], cu_path = [], cu_legacy = [], cu_other = False, cu_hashes = []\<rparr>"

text \<open>\<open>_read_chain\<close>: an \<open>fsync\<close> that fails for another reason than lack of support raises.\<close>

definition relay_read_chain :: "(afile \<Rightarrow> sync) \<Rightarrow> int option \<Rightarrow> adir \<Rightarrow> pyexc + chain_view" where
  "relay_read_chain sy mb d =
     (if list_ex (\<lambda>f. sy f = SyncFailed) (linked_files (fst (open_snapshot d))) then Inl (OSError [])
      else Inr (read_chain mb (Some (\<lambda>f. sy f = Synced)) d))"

section \<open>Reconcile\<close>

text \<open>The number of rows up to and including the last one with the given chain hash.\<close>

definition after_hash :: "string \<Rightarrow> pydict list \<Rightarrow> nat option" where
  "after_hash h rows =
     (case find (\<lambda>ir. dget (snd ir) ''chain_hash'' = PStr h) (rev (enumerate 0 rows)) of
        None \<Rightarrow> None
      | Some ir \<Rightarrow> Some (Suc (fst ir)))"

text \<open>The rows the reconcile covers, and the count of P0 rows when the registration point is gone.\<close>

definition cut_rows :: "string option \<Rightarrow> pydict list \<Rightarrow> pydict list \<times> nat option" where
  "cut_rows until rows =
     (case until of
        None \<Rightarrow> (rows, None)
      | Some h \<Rightarrow>
          if h = [] then ([], None)
          else (case after_hash h rows of
              Some n \<Rightarrow> (take n rows, None)
            | None \<Rightarrow> ([], Some (length (filter (\<lambda>r. classify_p0 r \<noteq> []) rows)))))"

definition scope_of :: "cursors \<Rightarrow> string \<times> string" where
  "scope_of u =
     (if cu_cursor u \<noteq> [] then (cu_cursor u, ''chain'')
      else if cu_path u \<noteq> [] then ([], ''replaced'')
      else if cu_legacy u \<noteq> [] then (cu_legacy u, ''legacy'')
      else ([], ''none''))"

definition unseen_p0 :: "relay \<Rightarrow> pydict list \<Rightarrow> pydict list" where
  "unseen_p0 s rows = filter (\<lambda>r. classify_p0 r \<noteq> [] \<and> text_of (dget r ''chain_hash'') \<notin> set (seen s)) rows"

record rplan =
  pl_mode :: string
  pl_missed :: "pydict list"
  pl_past :: bool
  pl_unreconcilable :: nat

definition reconcile_plan :: "relay \<Rightarrow> chain_view \<Rightarrow> cursors \<Rightarrow> rplan" where
  "reconcile_plan s cv u =
     (let (cursor, scope) = scope_of u;
          (rows, cut_missing) = cut_rows (reconcile_until s) (parse_rows (cv_lines cv));
          start = (if cursor = [] then None else after_hash cursor rows);
          fresh = unseen_p0 s rows
      in case cut_missing of
           Some n \<Rightarrow> \<lparr>pl_mode = ''registration_cut_not_found'', pl_missed = [], pl_past = False, pl_unreconcilable = n\<rparr>
         | None \<Rightarrow>
             (case start of
                Some n \<Rightarrow> \<lparr>pl_mode = ''cursor_found'', pl_missed = unseen_p0 s (drop n rows), pl_past = False, pl_unreconcilable = 0\<rparr>
              | None \<Rightarrow>
                  if scope = ''replaced'' then \<lparr>pl_mode = ''chain_replaced'', pl_missed = [], pl_past = False, pl_unreconcilable = length fresh\<rparr>
                  else if cursor = []
                  then \<lparr>pl_mode = (if cu_other u then ''fresh_chain'' else ''fresh_queue''), pl_missed = fresh, pl_past = cu_other u, pl_unreconcilable = 0\<rparr>
                  else if scope = ''chain'' \<and> cv_anchored cv \<and> 2 \<le> cv_segments cv
                  then \<lparr>pl_mode = ''cursor_rotated_out'', pl_missed = fresh, pl_past = True, pl_unreconcilable = 0\<rparr>
                  else \<lparr>pl_mode = ''cursor_not_in_chain'', pl_missed = [], pl_past = False, pl_unreconcilable = length fresh\<rparr>))"

text \<open>Relaying a list of records in order, counting the calls that answer \<open>ok\<close>.\<close>

fun replay :: "renv \<Rightarrow> alog option \<Rightarrow> string \<Rightarrow> bool \<Rightarrow> bool \<Rightarrow> pydict list \<Rightarrow> rworld \<Rightarrow> nat \<times> rworld" where
  "replay e lg durability move_cursor force_past [] w = (0, w)"
| "replay e lg durability move_cursor force_past (r # rs) w =
     (let (res, w1) = relay_record e lg r durability None move_cursor force_past w;
          (n, w2) = replay e lg durability move_cursor force_past rs w1
      in ((if relayed_ok res then Suc n else n), w2))"

definition reconciled_durability :: "bool \<Rightarrow> string" where
  "reconciled_durability synced = (if synced then ''reconciled_from_chain_fsynced'' else ''reconciled_from_chain'')"

definition skipped_of :: "relay \<Rightarrow> pydict list \<Rightarrow> nat" where
  "skipped_of s rs = nat (max 0 (int (length rs) - max_reconcile s))"

definition remember_all :: "string list \<Rightarrow> relay \<Rightarrow> relay" where
  "remember_all hs s = fold (\<lambda>h s. snd (remember h s)) hs s"

text \<open>Where a relay resumes: the chain it reads, the cursors in the queue, and the decisions the queue already alerts on.\<close>

definition resume :: "chain_view \<Rightarrow> rworld \<Rightarrow> relay \<times> cursors" where
  "resume cv w =
     (let s = rw_relay w;
          s1 = (if cv_chain_id cv \<noteq> [] \<and> rl_chain_id s = [] then s\<lparr>rl_chain_id := cv_chain_id cv\<rparr> else s);
          (entries, q) = read_entries (rl_queue s1) (rw_disk w);
          u = queue_cursor_and_hashes (audit_path_id s1) (rl_chain_id s1) entries
      in (remember_all (cu_hashes u) (s1\<lparr>rl_queue := q\<rparr>), u))"

definition started_status :: pydict where
  "started_status = [(''event'', PStr ''started''), (''reconcile'', PStr ''no_audit_path''), (''cursor_found'', PBool False),
     (''reconciled'', PInt 0), (''reconcile_skipped'', PInt 0), (''unreconcilable'', PInt 0)]"

definition tail_hash :: "pydict list \<Rightarrow> string" where
  "tail_hash rows = (if rows = [] then [] else text_of (dget (last rows) ''chain_hash''))"

definition reconcile_status :: "chain_view \<Rightarrow> cursors \<Rightarrow> rplan \<Rightarrow> nat \<Rightarrow> nat \<Rightarrow> string \<Rightarrow> pydict" where
  "reconcile_status cv u pl n skipped tail_h =
     dupdate started_status
       ([(''cursor_scope'', PStr (snd (scope_of u))), (''chain_segments'', PInt (int (cv_segments cv))), (''chain_anchored'', PBool (cv_anchored cv))]
        @ (if cv_unlinked cv \<noteq> 0 then [(''chain_unlinked_segments'', PInt (int (cv_unlinked cv)))] else [])
        @ [(''reconcile'', PStr (pl_mode pl)), (''cursor_found'', PBool (pl_mode pl = ''cursor_found'')),
           (''unreconcilable'', PInt (int (pl_unreconcilable pl))),
           (''reconciled'', PInt (int n)), (''reconcile_skipped'', PInt (int skipped)), (''audit_cursor_chain_hash'', PStr tail_h)])"

definition reconcile :: "renv \<Rightarrow> alog option \<Rightarrow> adir \<Rightarrow> rworld \<Rightarrow> (pyexc + pydict) \<times> rworld" where
  "reconcile e lg ad w =
     (if audit_path (rw_relay w) = None
      then (let st = AList.update ''audit_cursor_chain_hash'' (PStr []) started_status in (Inr st, write_status e lg st w))
      else (case relay_read_chain (r_sync e) None ad of
          Inl x \<Rightarrow> (Inl x, w)
        | Inr cv \<Rightarrow>
            (let (s2, u) = resume cv w;
                 pl = reconcile_plan s2 cv u;
                 skipped = skipped_of s2 (pl_missed pl);
                 (n, w1) = replay e lg (reconciled_durability (cv_synced cv)) True (pl_past pl) (drop skipped (pl_missed pl)) (w\<lparr>rw_relay := s2\<rparr>);
                 s3 = (rw_relay w1)\<lparr>reconciled_total := reconciled_total (rw_relay w1) + n,
                        reconcile_skipped_total := reconcile_skipped_total (rw_relay w1) + skipped\<rparr>;
                 st = reconcile_status cv u pl n skipped (tail_hash (fst (cut_rows (reconcile_until s2) (parse_rows (cv_lines cv)))))
             in (Inr st, write_status e lg st (w1\<lparr>rw_relay := s3\<rparr>)))))"

section \<open>Losses\<close>

definition take_lost :: "alog option \<Rightarrow> relay \<Rightarrow> string list \<times> relay" where
  "take_lost lg s =
     (let s1 = (case lg of
            None \<Rightarrow> s
          | Some l \<Rightarrow> (let (sq, hs) = dropped_durable_since (logger_drop_seq s) l in fold note_lost hs (s\<lparr>logger_drop_seq := sq\<rparr>)))
      in (lost s1, s1\<lparr>lost := []\<rparr>))"

text \<open>The rows of the chain named by the lost hashes: for each hash its last row, at its first place.\<close>

definition found_rows :: "string list \<Rightarrow> pydict list \<Rightarrow> pydict list" where
  "found_rows wanted rows =
     map snd (fold (\<lambda>r a. let h = text_of (dget r ''chain_hash'') in if h \<in> set wanted then AList.update h r a else a) rows [])"

definition recover_losses :: "renv \<Rightarrow> alog option \<Rightarrow> adir \<Rightarrow> string list \<Rightarrow> rworld \<Rightarrow> pydict \<times> rworld" where
  "recover_losses e lg ad ls w =
     (let s = rw_relay w;
          wanted = dedup (filter (\<lambda>h. h \<noteq> []) ls);
          n = (\<lambda>k. PInt (int k));
          started = [(''event'', PStr ''loss_recovery''), (''loss_recovered'', n 0), (''loss_recover_skipped'', n 0),
            (''loss_recover_not_found'', n 0), (''loss_recover_already_alerted'', n 0)];
          (st, recovered, unrecovered, w1) =
            (if audit_path s = None then (dupdate started [(''loss_recover_not_found'', n (length wanted))], 0, length wanted, w)
             else
               (let view = relay_read_chain (r_sync e) (Some LOSS_RECOVER_MAX_BYTES) ad;
                    (rows, synced) = (case view of Inl _ \<Rightarrow> ([], False) | Inr cv \<Rightarrow> (parse_rows (cv_lines cv), cv_synced cv));
                    found = found_rows wanted rows;
                    missing = length wanted - length found;
                    p0 = filter (\<lambda>r. classify_p0 r \<noteq> []) found;
                    candidates = unseen_p0 s found;
                    skipped = skipped_of s candidates;
                    (k, w2) = replay e lg (reconciled_durability synced) False False (drop skipped candidates) w
                in (dupdate started
                      ((case view of Inl _ \<Rightarrow> [(''loss_recovery'', PStr (''chain_unreadable:'' @ r_errno e))] | Inr _ \<Rightarrow> []) @
                       [(''loss_recover_not_found'', n missing), (''loss_recover_already_alerted'', n (length p0 - length candidates)),
                        (''loss_recovered'', n k), (''loss_recover_skipped'', n skipped)]),
                    k, skipped + missing, w2)));
          s1 = (rw_relay w1)\<lparr>loss_recovered_total := loss_recovered_total (rw_relay w1) + recovered,
                 loss_unrecovered_total := loss_unrecovered_total (rw_relay w1) + unrecovered\<rparr>
      in (st, write_status e lg st (w1\<lparr>rw_relay := s1\<rparr>)))"

definition maybe_recover_losses :: "renv \<Rightarrow> alog option \<Rightarrow> adir \<Rightarrow> rat \<Rightarrow> rworld \<Rightarrow> rworld" where
  "maybe_recover_losses e lg ad now w =
     (let s = rw_relay w in
      if stopping s then w
      else if (case last_loss_pass s of None \<Rightarrow> False | Some t \<Rightarrow> now - t < loss_recover_interval s) then w
      else if pending_max s div 2 < length (pending s) then w
      else
        (let (ls, s1) = take_lost lg (s\<lparr>last_loss_pass := Some now\<rparr>)
         in if ls = [] then w\<lparr>rw_relay := s1\<rparr> else snd (recover_losses e lg ad ls (w\<lparr>rw_relay := s1\<rparr>))))"

section \<open>The relay thread\<close>

text \<open>One turn of \<open>_run\<close> after the reconcile: take one record, or time out.\<close>

definition relay_turn :: "renv \<Rightarrow> alog option \<Rightarrow> adir \<Rightarrow> rat \<Rightarrow> rworld \<Rightarrow> rworld" where
  "relay_turn e lg ad now w =
     (let w1 = (case pending (rw_relay w) of
            [] \<Rightarrow> w
          | it # rest \<Rightarrow>
              (let w0 = snd (relay_record e lg (it_record it) (it_durability it) (it_stamp it) True False (w\<lparr>rw_relay := (rw_relay w)\<lparr>pending := rest\<rparr>\<rparr>))
               in w0\<lparr>rw_relay := (rw_relay w0)\<lparr>outstanding := outstanding (rw_relay w0) - 1\<rparr>\<rparr>))
      in maybe_recover_losses e lg ad now (report_losses e lg w1))"

definition turn_enabled :: "rworld \<Rightarrow> bool" where
  "turn_enabled w = (\<not> stopping (rw_relay w) \<or> pending (rw_relay w) \<noteq> [])"

definition stop_relay :: "rworld \<Rightarrow> rworld" where
  "stop_relay w = w\<lparr>rw_relay := (rw_relay w)\<lparr>stopping := True\<rparr>\<rparr>"

text \<open>\<open>attach_p0_alert_relay\<close>: the listener is registered before the relay starts, and the reconcile stops there;
  a logger that already has a relay keeps it.\<close>

definition attach_p0_alert_relay :: "relay option \<Rightarrow> int \<Rightarrow> string option \<Rightarrow> int \<Rightarrow> int \<Rightarrow> rat \<Rightarrow> int \<Rightarrow> alog \<Rightarrow> pyexc + relay \<times> alog" where
  "attach_p0_alert_relay existing me path mp mr interval ml lg =
     (case existing of
        Some s \<Rightarrow> Inr (s, lg)
      | None \<Rightarrow>
          ebind (init_queue me) (\<lambda>q.
            let (registered_at, lg') = add_durable_listener lg
            in Inr ((init_relay q path mp mr interval ml)\<lparr>reconcile_until := Some registered_at\<rparr>, lg')))"

end
