(* ===== verification/AlertRelayProperties.thy ===== *)
theory AlertRelayProperties
  imports AlertRelay AlertQueueProperties
begin

text \<open>
  The relay and the queue together: what a relay keeps in memory is bounded, a decision is alerted at most once while
  no write fails, and the reconcile alerts what was missed and accounts for the rest.
\<close>

section \<open>The alerts of one decision\<close>

definition alert_tag :: "pydict \<Rightarrow> pyval \<times> pyval" where
  "alert_tag r = (dget r ''decision_chain_hash'', dget r ''channel'')"

definition alert_tags :: "pydict list \<Rightarrow> (pyval \<times> pyval) list" where
  "alert_tags rows = map alert_tag (filter is_alert rows)"

definition both_channels :: "string \<Rightarrow> (pyval \<times> pyval) list" where
  "both_channels h = map (\<lambda>c. (PStr h, PStr c)) CHANNELS"

definition relay_alerts :: "renv \<Rightarrow> alog option \<Rightarrow> pydict \<Rightarrow> string \<Rightarrow> int option \<Rightarrow> bool \<Rightarrow> bool \<Rightarrow> rworld \<Rightarrow> pydict list" where
  "relay_alerts e lg r durability stamp mc fp w =
     map (addressed (r_dates e) (fst (chain_id_for lg r (rw_relay w))) (audit_path_id (rw_relay w)) fp mc)
       (build_p0_alerts (r_dates e) r (classify_p0 r) durability stamp (r_now e (rw_tick w)))"

definition relay_extra :: "relay \<Rightarrow> pydict" where
  "relay_extra s = [(''relay_handoff_dropped_total'', PInt (int (rl_handoff_dropped s))), (''relay_enqueue_failed_total'', PInt (int (rl_enqueue_failed s)))]"

lemma worded_keeps: "k \<noteq> ''display_text'' \<Longrightarrow> k \<noteq> ''voice_urgent'' \<Longrightarrow> dget (worded e a) k = dget a k"
  by (simp add: worded_def Let_def dict_simps)

lemma as_past_keeps: "k \<notin> {''stale'', ''presentation'', ''display_text'', ''voice_urgent''} \<Longrightarrow> dget (as_past e a) k = dget a k"
  by (simp add: as_past_def worded_keeps dict_simps)

lemma dget_delete: "k \<noteq> j \<Longrightarrow> dget (AList.delete j a) k = dget a k"
  by (simp add: dget_def map_of_delete)

lemma addressed_keeps:
  "k \<notin> {''audit_chain_id'', ''audit_path'', ''stale'', ''presentation'', ''display_text'', ''voice_urgent'', ''audit_cursor_chain_hash''} \<Longrightarrow>
   dget (addressed e cid path fp mc a) k = dget a k"
  by (auto simp: addressed_def Let_def as_past_keeps dget_delete dget_update)

lemma tag_addressed [simp]: "alert_tag (addressed e cid path fp mc a) = alert_tag a"
  by (simp add: alert_tag_def addressed_keeps)

lemma built_tags: "map alert_tag (build_p0_alerts e r basis durability stamp now) = both_channels (text_of (dget r ''chain_hash''))"
  by (simp add: build_p0_alerts_def CHANNELS_def both_channels_def alert_tag_def worded_keeps alert_base_def Let_def dget_Cons)

lemma relay_alert_tags: "map alert_tag (relay_alerts e lg r durability stamp mc fp w) = both_channels (text_of (dget r ''chain_hash''))"
  using built_tags [of "r_dates e" r "classify_p0 r" durability stamp "r_now e (rw_tick w)"]
  by (simp add: relay_alerts_def comp_def)

lemma entry_tags:
  "alert_tags (map (mark_repaired n) (alert_entries io (relay_extra s) alerts first ev tot)) = map alert_tag alerts"
proof -
  have "alert_tag (mark_repaired n (alert_entry io (relay_extra s) i ev tot a)) = alert_tag a" for i a
    by (simp add: alert_tag_def mark_repaired_def alert_entry_def relay_extra_def dict_simps)
  moreover have "is_alert (mark_repaired n (alert_entry io (relay_extra s) i ev tot a))" for i a
    by (simp add: is_alert_def mark_repaired_def alert_entry_def relay_extra_def dict_simps)
  ultimately show ?thesis
    by (simp add: alert_tags_def alert_entries_def comp_def filter_id_conv flip: map_map [of alert_tag snd, unfolded comp_def])
qed

section \<open>One relayed record\<close>

lemma remember_simps [simp]: "rl_queue (snd (remember h s)) = rl_queue s" "rl_enqueue_failed (snd (remember h s)) = rl_enqueue_failed s"
  "rl_handoff_dropped (snd (remember h s)) = rl_handoff_dropped s" "rl_chain_id (snd (remember h s)) = rl_chain_id s"
  "audit_path_id (snd (remember h s)) = audit_path_id s" "pending (snd (remember h s)) = pending s" "pending_max (snd (remember h s)) = pending_max s"
  "lost (snd (remember h s)) = lost s" "max_lost (snd (remember h s)) = max_lost s" "outstanding (snd (remember h s)) = outstanding s"
  "stopping (snd (remember h s)) = stopping s" "max_reconcile (snd (remember h s)) = max_reconcile s"
  by (simp_all add: remember_def audit_path_id_def)

lemma chain_id_remember [simp]: "fst (chain_id_for lg r (snd (remember h s))) = fst (chain_id_for lg r s)"
  by (simp add: chain_id_for_def Let_def)

lemma chain_id_simps [simp]: "snd (chain_id_for lg r s) = s\<lparr>rl_chain_id := fst (chain_id_for lg r s)\<rparr>"
  by (simp add: chain_id_for_def Let_def)

lemma path_id_upd [simp]: "audit_path_id (s\<lparr>rl_chain_id := c\<rparr>) = audit_path_id s"
  by (simp add: audit_path_id_def)

text \<open>The relay's state after a record that was tried, before its outcome is counted.\<close>

definition relay_tried :: "alog option \<Rightarrow> pydict \<Rightarrow> qinst \<Rightarrow> relay \<Rightarrow> relay" where
  "relay_tried lg r q s = (snd (remember (text_of (dget r ''chain_hash'')) s))\<lparr>rl_chain_id := fst (chain_id_for lg r s), rl_queue := q\<rparr>"

lemma relay_record_cases:
  assumes "relay_record e lg r durability stamp mc fp w = (res, w')"
  obtains (not_p0) "classify_p0 r = []" and "res = NotP0" and "w' = w"
  | (known) "classify_p0 r \<noteq> []" and "text_of (dget r ''chain_hash'') \<in> set (seen (rw_relay w))" and "res = Duplicate" and "w' = w"
  | (failed) x q d where "classify_p0 r \<noteq> []" and "text_of (dget r ''chain_hash'') \<notin> set (seen (rw_relay w)) \<or> text_of (dget r ''chain_hash'') = []"
      and "enqueue (r_io e (rw_tick w)) (relay_alerts e lg r durability stamp mc fp w) (relay_extra (rw_relay w)) (rl_queue (rw_relay w)) (rw_disk w) = (Inl x, q, d)"
      and "res = NotEnqueued x"
      and "w' = \<lparr>rw_relay = (let s = relay_tried lg r q (rw_relay w) in s\<lparr>rl_enqueue_failed := Suc (rl_enqueue_failed (rw_relay w)),
          seen := removeAll (text_of (dget r ''chain_hash'')) (seen s)\<rparr>), rw_disk = d, rw_tick = Suc (rw_tick w)\<rparr>"
  | (written) x q d where "classify_p0 r \<noteq> []" and "text_of (dget r ''chain_hash'') \<notin> set (seen (rw_relay w)) \<or> text_of (dget r ''chain_hash'') = []"
      and "enqueue (r_io e (rw_tick w)) (relay_alerts e lg r durability stamp mc fp w) (relay_extra (rw_relay w)) (rl_queue (rw_relay w)) (rw_disk w) = (Inr x, q, d)"
      and "res = Enqueued x"
      and "w' = \<lparr>rw_relay = (let s = relay_tried lg r q (rw_relay w) in s\<lparr>rl_enqueued := Suc (rl_enqueued s)\<rparr>), rw_disk = d, rw_tick = Suc (rw_tick w)\<rparr>"
proof (cases "classify_p0 r = []")
  case True
  moreover from this assms have "res = NotP0" "w' = w" by (simp_all add: relay_record_def)
  ultimately show ?thesis using not_p0 by blast
next
  case p0: False
  let ?h = "text_of (dget r ''chain_hash'')"
  show ?thesis
  proof (cases "fst (remember ?h (rw_relay w))")
    case False
    then have "?h \<in> set (seen (rw_relay w))" by (auto simp: remember_def split: if_splits)
    moreover have "res = Duplicate" "w' = w" using assms p0 False by (simp_all add: relay_record_def)
    ultimately show ?thesis using known p0 by blast
  next
    case True
    then have new: "?h \<notin> set (seen (rw_relay w)) \<or> ?h = []" by (auto simp: remember_def split: if_splits)
    obtain out q d where enq: "enqueue (r_io e (rw_tick w)) (relay_alerts e lg r durability stamp mc fp w) (relay_extra (rw_relay w)) (rl_queue (rw_relay w)) (rw_disk w) = (out, q, d)"
      by (metis prod_cases3)
    let ?s = "relay_tried lg r q (rw_relay w)"
    have eq: "(res, w') = (case out of
        Inl x \<Rightarrow> (NotEnqueued x, \<lparr>rw_relay = ?s\<lparr>rl_enqueue_failed := Suc (rl_enqueue_failed (rw_relay w)), seen := removeAll ?h (seen ?s)\<rparr>, rw_disk = d, rw_tick = Suc (rw_tick w)\<rparr>)
      | Inr x \<Rightarrow> (Enqueued x, \<lparr>rw_relay = ?s\<lparr>rl_enqueued := Suc (rl_enqueued ?s)\<rparr>, rw_disk = d, rw_tick = Suc (rw_tick w)\<rparr>))"
      using assms p0 True enq
      by (cases out) (simp_all add: relay_record_def relay_alerts_def relay_extra_def relay_tried_def Let_def case_prod_beta)
    show ?thesis
    proof (cases out)
      case (Inl x)
      with eq enq show ?thesis by (intro failed [OF p0 new, of x q d]) (simp_all add: Let_def)
    next
      case (Inr x)
      with eq enq show ?thesis by (intro written [OF p0 new, of x q d]) (simp_all add: Let_def)
    qed
  qed
qed

section \<open>Invariants of the relay\<close>

text \<open>
  An invariant of the two operations that write the queue, of reading it back and of changes to the relay's own lists within their
  bounds is an invariant of every operation of the relay.
\<close>

definition fits :: "relay \<Rightarrow> bool" where
  "fits s = (length (pending s) \<le> pending_max s \<and> length (lost s) \<le> max_lost s)"

definition same_core :: "relay \<Rightarrow> relay \<Rightarrow> bool" where
  "same_core s s' = (rl_queue s' = rl_queue s \<and> seen s' = seen s \<and> rl_enqueue_failed s' = rl_enqueue_failed s)"

lemma note_lost_frame [simp]: "pending (note_lost h s) = pending s" "pending_max (note_lost h s) = pending_max s" "max_lost (note_lost h s) = max_lost s"
  "rl_queue (note_lost h s) = rl_queue s" "seen (note_lost h s) = seen s" "rl_enqueue_failed (note_lost h s) = rl_enqueue_failed s"
  "outstanding (note_lost h s) = outstanding s"
  by (simp_all add: note_lost_def Let_def)

lemma fits_note: "fits s \<Longrightarrow> fits (note_lost h s)"
  by (auto simp: fits_def note_lost_def Let_def)

lemma fold_note: "fits s \<Longrightarrow> fits (fold note_lost hs s) \<and> same_core s (fold note_lost hs s)"
proof (induction hs arbitrary: s)
  case (Cons h hs)
  from Cons.IH [OF fits_note [OF Cons.prems, of h]] show ?case by (simp add: same_core_def)
qed (simp add: same_core_def)

lemma take_lost_frame:
  assumes "fits s" and "take_lost lg s = (ls, s')"
  shows "fits s' \<and> same_core s s'"
proof (cases lg)
  case None
  with assms show ?thesis by (auto simp: take_lost_def fits_def same_core_def)
next
  case (Some l)
  obtain sq hs where d: "dropped_durable_since (logger_drop_seq s) l = (sq, hs)" by (cases "dropped_durable_since (logger_drop_seq s) l")
  have "fits (s\<lparr>logger_drop_seq := sq\<rparr>)" using assms(1) by (simp add: fits_def)
  from fold_note [OF this, of hs] show ?thesis
    using assms(2) Some d by (auto simp: take_lost_def fits_def same_core_def Let_def)
qed

inductive relay_initial :: "nat \<Rightarrow> rworld \<Rightarrow> bool" for m where
  relay_fresh: "init_queue (int m) = Inr q \<Longrightarrow>
    relay_initial m \<lparr>rw_relay = (init_relay q path mp mr interval ml)\<lparr>reconcile_until := u\<rparr>, rw_disk = \<lparr>dfile = None, dino = 0\<rparr>, rw_tick = 0\<rparr>"

text \<open>The steps interleave freely: a record handed over, the reconcile of a start, a turn of the thread with the audit log as it is then, a stop.\<close>

inductive relay_step :: "renv \<Rightarrow> rworld \<Rightarrow> rworld \<Rightarrow> bool" for e where
  relay_deliver: "relay_step e w (w\<lparr>rw_relay := on_durable_record record durability stamp (rw_relay w)\<rparr>)"
| relay_start: "relay_step e w (snd (reconcile e lg ad w))"
| relay_takes: "turn_enabled w \<Longrightarrow> relay_step e w (relay_turn e lg ad now w)"
| relay_stops: "relay_step e w (stop_relay w)"

lemma deliver_frame: "fits s \<Longrightarrow> fits (on_durable_record record durability stamp s) \<and> same_core s (on_durable_record record durability stamp s)"
  using fits_note [of "s\<lparr>rl_handoff_dropped := Suc (rl_handoff_dropped s)\<rparr>"]
  by (auto simp: on_durable_record_def same_core_def fits_def)

locale relay_invariant =
  fixes e :: renv
    and inv :: "rworld \<Rightarrow> bool"
  assumes inv_relay: "inv w \<Longrightarrow> inv (snd (relay_record e lg r durability stamp mc fp w))"
    and inv_status: "inv w \<Longrightarrow> inv (write_status e lg st w)"
    and inv_frame: "inv w \<Longrightarrow> same_core (rw_relay w) s \<Longrightarrow> fits s \<Longrightarrow> inv (w\<lparr>rw_relay := s\<rparr>)"
    and inv_fits: "inv w \<Longrightarrow> fits (rw_relay w)"
    and inv_read: "inv w \<Longrightarrow> read_entries (rl_queue (rw_relay w)) (rw_disk w) = (entries, q) \<Longrightarrow>
      inv (w\<lparr>rw_relay := remember_all (cu_hashes (queue_cursor_and_hashes p c entries)) ((rw_relay w)\<lparr>rl_queue := q\<rparr>)\<rparr>)"
begin

lemma inv_replay: "inv w \<Longrightarrow> inv (snd (replay e lg durability mc fp rs w))"
proof (induction rs arbitrary: w)
  case (Cons r rs)
  with inv_relay [OF Cons.prems] show ?case by (simp add: case_prod_beta Let_def)
qed simp

lemma inv_counted: "inv w \<Longrightarrow> same_core (rw_relay w) s \<Longrightarrow> pending s = pending (rw_relay w) \<Longrightarrow> pending_max s = pending_max (rw_relay w) \<Longrightarrow>
    lost s = lost (rw_relay w) \<Longrightarrow> max_lost s = max_lost (rw_relay w) \<Longrightarrow> inv (w\<lparr>rw_relay := s\<rparr>)"
  using inv_frame [of w s] inv_fits [of w] by (simp add: fits_def)

lemma inv_report: "inv w \<Longrightarrow> inv (report_losses e lg w)"
  by (simp add: report_losses_def inv_status)

lemma inv_recover: "inv w \<Longrightarrow> inv (snd (recover_losses e lg ad ls w))"
  unfolding recover_losses_def Let_def
  by (auto simp: case_prod_beta same_core_def split: sum.splits intro!: inv_status inv_counted inv_replay)

lemma inv_maybe_recover:
  assumes "inv w"
  shows "inv (maybe_recover_losses e lg ad now w)"
proof -
  let ?s = "(rw_relay w)\<lparr>last_loss_pass := Some now\<rparr>"
  obtain ls s1 where t: "take_lost lg ?s = (ls, s1)" by (cases "take_lost lg ?s")
  have "fits ?s" using inv_fits [OF assms] by (simp add: fits_def)
  from take_lost_frame [OF this t] have "inv (w\<lparr>rw_relay := s1\<rparr>)" by (intro inv_frame [OF assms]) (simp_all add: same_core_def)
  with assms inv_recover show ?thesis by (auto simp: maybe_recover_losses_def Let_def t)
qed

lemma inv_turn:
  assumes "inv w"
  shows "inv (relay_turn e lg ad now w)"
proof -
  let ?w = "\<lambda>rest. w\<lparr>rw_relay := (rw_relay w)\<lparr>pending := rest\<rparr>\<rparr>"
  have "inv (?w rest)" if "pending (rw_relay w) = it # rest" for it rest
    using that inv_fits [OF assms] by (intro inv_frame [OF assms]) (simp_all add: same_core_def fits_def)
  then have popped: "inv (snd (relay_record e lg (it_record it) (it_durability it) (it_stamp it) True False (?w rest)))"
    if "pending (rw_relay w) = it # rest" for it rest using that inv_relay by blast
  have "inv (case pending (rw_relay w) of [] \<Rightarrow> w | it # rest \<Rightarrow>
      (let w0 = snd (relay_record e lg (it_record it) (it_durability it) (it_stamp it) True False (?w rest))
       in w0\<lparr>rw_relay := (rw_relay w0)\<lparr>outstanding := outstanding (rw_relay w0) - 1\<rparr>\<rparr>))"
    using assms by (auto simp: Let_def same_core_def split: list.split intro!: inv_counted popped)
  then show ?thesis by (simp add: relay_turn_def inv_maybe_recover inv_report)
qed

lemma inv_resume:
  assumes "inv w"
  shows "inv (w\<lparr>rw_relay := fst (resume cv w)\<rparr>)"
proof -
  define s1 where "s1 = (if cv_chain_id cv \<noteq> [] \<and> rl_chain_id (rw_relay w) = [] then (rw_relay w)\<lparr>rl_chain_id := cv_chain_id cv\<rparr> else rw_relay w)"
  obtain entries q where rd: "read_entries (rl_queue s1) (rw_disk w) = (entries, q)" by (cases "read_entries (rl_queue s1) (rw_disk w)")
  have "inv (w\<lparr>rw_relay := s1\<rparr>)" using inv_counted [OF assms, of s1] by (simp add: s1_def same_core_def)
  from inv_read [OF this] rd show ?thesis by (simp add: resume_def Let_def s1_def [symmetric])
qed

lemma inv_reconcile:
  assumes "inv w"
  shows "inv (snd (reconcile e lg ad w))"
  using assms inv_replay [OF inv_resume [OF assms]] unfolding reconcile_def Let_def
  by (auto simp: case_prod_beta same_core_def split: sum.split intro!: inv_status inv_counted)

text \<open>So it is an invariant of every step of the machine below.\<close>

lemma inv_deliver: "inv w \<Longrightarrow> inv (w\<lparr>rw_relay := on_durable_record record durability stamp (rw_relay w)\<rparr>)"
  using deliver_frame [OF inv_fits] inv_frame by blast

lemma inv_stop: "inv w \<Longrightarrow> inv (stop_relay w)"
  using inv_counted [of w "(rw_relay w)\<lparr>stopping := True\<rparr>"] by (simp add: stop_relay_def same_core_def)

lemma inv_machine: "inv w \<Longrightarrow> relay_step e w w' \<Longrightarrow> inv w'"
  by (erule relay_step.cases) (auto intro: inv_deliver inv_stop inv_reconcile inv_turn)

end

section \<open>Bounded memory\<close>

definition relay_inv :: "nat \<Rightarrow> rworld \<Rightarrow> bool" where
  "relay_inv m w = (2 \<le> m \<and> fits (rw_relay w) \<and> disk_ok m (rw_disk w) \<and> inst_ok m (rw_disk w) (rl_queue (rw_relay w))
     \<and> length (seen (rw_relay w)) \<le> SEEN_KEEP \<and> distinct (seen (rw_relay w)))"

lemma fits_frame [simp]: "fits (s\<lparr>seen := x\<rparr>) = fits s" "fits (s\<lparr>rl_enqueue_failed := n\<rparr>) = fits s" "fits (s\<lparr>rl_enqueued := n\<rparr>) = fits s"
  "fits (s\<lparr>rl_queue := q\<rparr>) = fits s" "fits (s\<lparr>rl_chain_id := c\<rparr>) = fits s" "fits (snd (remember h s)) = fits s"
  by (simp_all add: fits_def)

lemma remember_bounded: "length (seen s) \<le> SEEN_KEEP \<Longrightarrow> distinct (seen s) \<Longrightarrow>
    length (seen (snd (remember h s))) \<le> SEEN_KEEP \<and> distinct (seen (snd (remember h s)))"
  by (cases "seen s") (auto simp: remember_def)

lemma remember_all_frame [simp]: "rl_queue (remember_all hs s) = rl_queue s" "fits (remember_all hs s) = fits s"
  "rl_enqueue_failed (remember_all hs s) = rl_enqueue_failed s" "outstanding (remember_all hs s) = outstanding s" "pending (remember_all hs s) = pending s"
  "max_reconcile (remember_all hs s) = max_reconcile s" "audit_path_id (remember_all hs s) = audit_path_id s" "rl_chain_id (remember_all hs s) = rl_chain_id s"
  unfolding remember_all_def by (induction hs arbitrary: s) simp_all

lemma remember_all_bounded: "length (seen s) \<le> SEEN_KEEP \<Longrightarrow> distinct (seen s) \<Longrightarrow>
    length (seen (remember_all hs s)) \<le> SEEN_KEEP \<and> distinct (seen (remember_all hs s))"
  unfolding remember_all_def by (induction hs arbitrary: s) (simp_all add: remember_bounded)

lemma relay_tried_simps [simp]: "rl_queue (relay_tried lg r q s) = q" "fits (relay_tried lg r q s) = fits s"
  "seen (relay_tried lg r q s) = seen (snd (remember (text_of (dget r ''chain_hash'')) s))"
  "rl_enqueue_failed (relay_tried lg r q s) = rl_enqueue_failed s" "pending (relay_tried lg r q s) = pending s" "outstanding (relay_tried lg r q s) = outstanding s"
  by (simp_all add: relay_tried_def)

lemma relay_inv_relay:
  assumes "relay_inv m w"
  shows "relay_inv m (snd (relay_record e lg r durability stamp mc fp w))"
proof -
  obtain res w' where w': "relay_record e lg r durability stamp mc fp w = (res, w')" by (cases "relay_record e lg r durability stamp mc fp w")
  have seen: "length (seen (snd (remember h (rw_relay w)))) \<le> SEEN_KEEP \<and> distinct (seen (snd (remember h (rw_relay w))))" for h
    using assms by (simp add: relay_inv_def remember_bounded)
  from w' show ?thesis
  proof (cases rule: relay_record_cases)
    case (failed x q d)
    with enqueue_effect [OF _ _ _ failed(3)] assms seen show ?thesis
      by (auto simp: w' relay_inv_def Let_def distinct_removeAll intro: le_trans [OF length_removeAll_less_eq])
  next
    case (written x q d)
    with enqueue_effect [OF _ _ _ written(3)] assms seen show ?thesis
      by (auto simp: w' relay_inv_def Let_def)
  qed (use assms w' in simp_all)
qed

lemma write_status_cases:
  obtains res q d where "append_status (r_io e (rw_tick w)) (status_record lg st (rw_relay w)) (rl_queue (rw_relay w)) (rw_disk w) = (res, q, d)"
    and "same_core ((rw_relay w)\<lparr>rl_queue := q\<rparr>) (rw_relay (write_status e lg st w))" and "fits (rw_relay (write_status e lg st w)) = fits (rw_relay w)"
    and "rw_disk (write_status e lg st w) = d" and "rw_tick (write_status e lg st w) = Suc (rw_tick w)"
    and "pending (rw_relay (write_status e lg st w)) = pending (rw_relay w)" and "outstanding (rw_relay (write_status e lg st w)) = outstanding (rw_relay w)"
  by (cases "append_status (r_io e (rw_tick w)) (status_record lg st (rw_relay w)) (rl_queue (rw_relay w)) (rw_disk w)")
    (auto simp: write_status_def Let_def case_prod_beta same_core_def fits_def split: sum.split)

lemma status_fields [simp]: "rl_enqueue_failed (rw_relay (write_status e lg st w)) = rl_enqueue_failed (rw_relay w)"
  "rw_tick (write_status e lg st w) = Suc (rw_tick w)"
  by (rule write_status_cases [of e w lg st], simp add: same_core_def)+

lemma relay_inv_status: "relay_inv m w \<Longrightarrow> relay_inv m (write_status e lg st w)"
proof -
  assume inv: "relay_inv m w"
  obtain res q d where st: "append_status (r_io e (rw_tick w)) (status_record lg st (rw_relay w)) (rl_queue (rw_relay w)) (rw_disk w) = (res, q, d)"
    "same_core ((rw_relay w)\<lparr>rl_queue := q\<rparr>) (rw_relay (write_status e lg st w))" "fits (rw_relay (write_status e lg st w)) = fits (rw_relay w)"
    "rw_disk (write_status e lg st w) = d" by (rule write_status_cases)
  with status_effect [OF _ _ _ st(1)] inv show ?thesis by (simp add: relay_inv_def same_core_def)
qed

interpretation relay_memory: relay_invariant e "relay_inv m" for e m
proof unfold_locales
  show "relay_inv m (w\<lparr>rw_relay := remember_all (cu_hashes (queue_cursor_and_hashes p c entries)) ((rw_relay w)\<lparr>rl_queue := q\<rparr>)\<rparr>)"
    if "relay_inv m w" "read_entries (rl_queue (rw_relay w)) (rw_disk w) = (entries, q)" for w entries q p c
    using that(1) read_entries_keeps [OF that(2)] by (simp add: relay_inv_def remember_all_bounded)
qed (auto simp: relay_inv_relay relay_inv_status, auto simp: relay_inv_def same_core_def)

section \<open>No decision twice\<close>

text \<open>The alerts of records that have a chain hash.\<close>

definition named_tags :: "pydict list \<Rightarrow> (pyval \<times> pyval) list" where
  "named_tags rows = filter (\<lambda>t. fst t \<noteq> PStr []) (alert_tags rows)"

definition once_inv :: "nat \<Rightarrow> rworld \<Rightarrow> bool" where
  "once_inv m w = (relay_inv m w \<and> (rl_enqueue_failed (rw_relay w) = 0 \<and> rw_tick w \<le> SEEN_KEEP \<longrightarrow>
     length (seen (rw_relay w)) \<le> rw_tick w \<and> distinct (named_tags (queue_rows (rw_disk w)))
     \<and> fst ` set (named_tags (queue_rows (rw_disk w))) \<subseteq> PStr ` set (seen (rw_relay w))))"

lemma alert_tags_append [simp]: "alert_tags (a @ b) = alert_tags a @ alert_tags b"
  by (simp add: alert_tags_def)

lemma named_subseq:
  assumes "subseq old rows"
  shows "subseq (filter (\<lambda>t. fst t \<noteq> PStr []) (alert_tags old)) (named_tags rows)"
  unfolding named_tags_def alert_tags_def using assms by (intro subseq_filter subseq_map)

lemma subseq_set: "subseq xs ys \<Longrightarrow> set xs \<subseteq> set ys"
  by (induction rule: list_emb.induct) auto

lemma subseq_distinct: "subseq xs ys \<Longrightarrow> distinct ys \<Longrightarrow> distinct xs"
  by (induction rule: list_emb.induct) (auto dest: subseq_set)

lemma enqueue_tags:
  assumes "disk_ok m d" and "inst_ok m d q" and "enqueue io alerts (relay_extra s) q d = (r, q', d')"
  shows "\<exists>old k. subseq old (queue_rows d) \<and> alert_tags (queue_rows d') = alert_tags old @ take k (map alert_tag alerts)"
  using assms(3)
proof (cases rule: enqueue_cases)
  case 1
  with assms(2) have le: "length alerts \<le> m" by (simp add: inst_ok_def)
  from write_alerts [OF assms(1,2) le builder_alerts [OF 1(1)] 1(3)] obtain old k first ev tot n where old: "subseq old (queue_rows d)"
    and new: "filter is_alert (queue_rows d') = filter is_alert old @ filter is_alert (take k (map (mark_repaired n) (alert_entries io (relay_extra s) alerts first ev tot)))" by blast
  have "map (mark_repaired n) (alert_entries io (relay_extra s) (take k alerts) first ev tot) = take k (map (mark_repaired n) (alert_entries io (relay_extra s) alerts first ev tot))"
    by (simp add: alert_entries_def take_map enumerate_eq_zip take_zip min_def)
  with entry_tags [of n io s "take k alerts" first ev tot] new
  have "alert_tags (queue_rows d') = alert_tags old @ take k (map alert_tag alerts)" by (simp add: alert_tags_def take_map)
  with old show ?thesis by blast
next
  case (2 s)
  then show ?thesis by (auto intro!: exI [of _ "queue_rows d"] exI [of _ "0::nat"])
qed

lemma status_tags:
  assumes "disk_ok m d" and "inst_ok m d q" and "append_status io st q d = (r, q', d')"
  shows "\<exists>old. subseq old (queue_rows d) \<and> alert_tags (queue_rows d') = alert_tags old"
proof -
  from write_alerts [OF assms(1,2) _ builder_status assms(3) [unfolded append_status_def]] obtain old k first ev tot n where old: "subseq old (queue_rows d)"
    and new: "filter is_alert (queue_rows d') = filter is_alert old @ filter is_alert (take k (map (mark_repaired n) (status_entry io st first ev tot)))" by blast
  have "filter is_alert (take k (map (mark_repaired n) (status_entry io st first ev tot))) = []"
    by (cases k) (simp_all add: status_entry_def mark_repaired_def is_alert_def dict_simps)
  with old new show ?thesis by (auto simp: alert_tags_def)
qed

lemma named_both: "filter (\<lambda>t. fst t \<noteq> PStr []) (take k (both_channels h)) = (if h = [] then [] else take k (both_channels h))"
  by (auto simp: both_channels_def filter_id_conv filter_empty_conv dest!: in_set_takeD)

lemma distinct_both: "distinct (both_channels h)"
  by (simp add: both_channels_def CHANNELS_def)

lemma fst_both: "t \<in> set (take k (both_channels h)) \<Longrightarrow> fst t = PStr h"
  by (auto simp: both_channels_def dest!: in_set_takeD)

lemma disjoint_tagged: "f ` A \<subseteq> B \<Longrightarrow> f ` C \<subseteq> {x} \<Longrightarrow> x \<notin> B \<Longrightarrow> A \<inter> C = {}"
  by fastforce

lemma once_step:
  assumes old: "subseq old rows" and new: "alert_tags rows' = alert_tags old @ take k (both_channels h)" and dis: "distinct (named_tags rows)"
    and sub: "fst ` set (named_tags rows) \<subseteq> PStr ` set sn" and h: "h \<notin> set sn \<or> h = []"
  shows "distinct (named_tags rows') \<and> fst ` set (named_tags rows') \<subseteq> PStr ` set (if h = [] then sn else sn @ [h])"
proof -
  let ?old = "filter (\<lambda>t. fst t \<noteq> PStr []) (alert_tags old)"
  have tags: "named_tags rows' = ?old @ (if h = [] then [] else take k (both_channels h))" by (simp add: named_tags_def new named_both)
  have "distinct ?old" using subseq_distinct [OF named_subseq [OF old] dis] .
  moreover have "set ?old \<subseteq> set (named_tags rows)" by (rule subseq_set [OF named_subseq [OF old]])
  with sub have in_old: "fst ` set ?old \<subseteq> PStr ` set sn" by (meson image_mono order_trans)
  moreover have new_fst: "fst ` set (take k (both_channels h)) \<subseteq> {PStr h}" using fst_both by (simp add: image_subset_iff)
  moreover have "set ?old \<inter> set (take k (both_channels h)) = {}" if nh: "h \<notin> set sn"
  proof -
    have "PStr h \<notin> PStr ` set sn" using nh by (simp add: inj_image_mem_iff inj_def)
    then show ?thesis by (rule disjoint_tagged [OF in_old new_fst])
  qed
  moreover have "distinct (take k (both_channels h))" by (simp add: distinct_both)
  moreover have "fst ` set (take k (both_channels h)) \<subseteq> insert (PStr h) (PStr ` set sn)" by (rule order_trans [OF new_fst]) simp
  ultimately show ?thesis
    using h unfolding tags by (cases "h = []") (simp_all add: image_Un le_supI1 subset_insertI2)
qed

lemma once_relay:
  assumes "once_inv m w"
  shows "once_inv m (snd (relay_record e lg r durability stamp mc fp w))"
proof -
  obtain res w' where w': "relay_record e lg r durability stamp mc fp w = (res, w')" by (cases "relay_record e lg r durability stamp mc fp w")
  have inv: "relay_inv m w" "relay_inv m (snd (relay_record e lg r durability stamp mc fp w))" using assms relay_inv_relay by (auto simp: once_inv_def)
  from w' show ?thesis
  proof (cases rule: relay_record_cases)
    case (failed x q d)
    with inv(2) w' show ?thesis by (simp add: once_inv_def Let_def)
  next
    case (written x q d)
    let ?h = "text_of (dget r ''chain_hash'')"
    have ok: "disk_ok m (rw_disk w)" "inst_ok m (rw_disk w) (rl_queue (rw_relay w))" using inv(1) by (simp_all add: relay_inv_def)
    have "length (seen (rw_relay w')) \<le> rw_tick w' \<and> distinct (named_tags (queue_rows (rw_disk w')))
        \<and> fst ` set (named_tags (queue_rows (rw_disk w'))) \<subseteq> PStr ` set (seen (rw_relay w'))"
      if asm: "rl_enqueue_failed (rw_relay w) = 0" "Suc (rw_tick w) \<le> SEEN_KEEP"
    proof -
      have before: "length (seen (rw_relay w)) \<le> rw_tick w" "distinct (named_tags (queue_rows (rw_disk w)))"
        "fst ` set (named_tags (queue_rows (rw_disk w))) \<subseteq> PStr ` set (seen (rw_relay w))"
        using assms asm by (simp_all add: once_inv_def)
      have sn: "seen (rw_relay w') = (if ?h = [] then seen (rw_relay w) else seen (rw_relay w) @ [?h])"
        using written(2,5) before(1) asm(2) by (auto simp: Let_def remember_def)
      from enqueue_tags [OF ok written(3)] obtain old k where "subseq old (queue_rows (rw_disk w))"
        "alert_tags (queue_rows d) = alert_tags old @ take k (both_channels ?h)" by (auto simp: relay_alert_tags)
      from once_step [OF this before(2,3) written(2)] sn written(5) before(1) show ?thesis by (simp add: Let_def)
    qed
    with inv(2) w' written(5) show ?thesis by (simp add: once_inv_def Let_def)
  qed (use assms w' in simp_all)
qed

lemma once_status: "once_inv m w \<Longrightarrow> once_inv m (write_status e lg st w)"
proof -
  assume once: "once_inv m w"
  then have inv: "relay_inv m w" by (simp add: once_inv_def)
  obtain res q d where st: "append_status (r_io e (rw_tick w)) (status_record lg st (rw_relay w)) (rl_queue (rw_relay w)) (rw_disk w) = (res, q, d)"
    "same_core ((rw_relay w)\<lparr>rl_queue := q\<rparr>) (rw_relay (write_status e lg st w))"
    "rw_disk (write_status e lg st w) = d" "rw_tick (write_status e lg st w) = Suc (rw_tick w)" by (rule write_status_cases)
  have "disk_ok m (rw_disk w)" "inst_ok m (rw_disk w) (rl_queue (rw_relay w))" using inv by (simp_all add: relay_inv_def)
  from status_tags [OF this st(1)] obtain old where "subseq old (queue_rows (rw_disk w))" "alert_tags (queue_rows d) = alert_tags old" by blast
  then have "distinct (named_tags (queue_rows d)) \<and> fst ` set (named_tags (queue_rows d)) \<subseteq> PStr ` set (seen (rw_relay w))"
    if "distinct (named_tags (queue_rows (rw_disk w)))" "fst ` set (named_tags (queue_rows (rw_disk w))) \<subseteq> PStr ` set (seen (rw_relay w))"
    using once_step [of old _ "queue_rows d" 0 "[]"] that by (simp add: both_channels_def)
  with once relay_inv_status [OF inv] st(2-4) show ?thesis by (auto simp: once_inv_def same_core_def)
qed

lemma complete_rows: "fst (parse_complete_lines ino n ls t q) = parse_rows ls"
proof (induction ino n ls t q rule: parse_complete_lines.induct)
  case (2 ino offset l ls tail q)
  have "line_dict l = None" if "line_text l = []" using that by (cases l rule: line_dict.cases) simp_all
  with 2 show ?case by (auto simp: parse_rows_def List.map_filter_def case_prod_beta Let_def split: option.splits)
qed (simp add: parse_rows_def List.map_filter_def)

lemma read_rows: "read_entries q d = (entries, q') \<Longrightarrow> entries = queue_rows d"
  using complete_rows [of "dino d" 0 _ _ q] by (auto simp: read_entries_def queue_rows_def split: option.splits) (metis fst_conv)

lemma cursor_row_hashes: "cu_hashes (cursor_row p c row u) =
    cu_hashes u @ (case dget row ''decision_chain_hash'' of PStr h \<Rightarrow> if is_alert row \<and> h \<noteq> [] then [h] else [] | _ \<Rightarrow> [])"
  by (simp add: cursor_row_def Let_def split: pyval.split)

lemma cursor_hashes: "set (cu_hashes (queue_cursor_and_hashes p c rows)) = {h. PStr h \<in> fst ` set (named_tags rows)}"
proof -
  have "set (cu_hashes (fold (cursor_row p c) rows u)) = set (cu_hashes u) \<union> {h. PStr h \<in> fst ` set (named_tags rows)}" for u
  proof (induction rows arbitrary: u)
    case (Cons row rows)
    have "named_tags (row # rows) = (if is_alert row \<and> dget row ''decision_chain_hash'' \<noteq> PStr [] then [alert_tag row] else []) @ named_tags rows"
      by (simp add: named_tags_def alert_tags_def alert_tag_def)
    then show ?case by (cases "dget row ''decision_chain_hash''") (auto simp: Cons.IH cursor_row_hashes alert_tag_def image_Un)
  qed (simp add: named_tags_def alert_tags_def)
  then show ?thesis by (simp add: queue_cursor_and_hashes_def)
qed

lemma remember_known: "set hs \<subseteq> set (seen s) \<Longrightarrow> seen (remember_all hs s) = seen s"
proof (induction hs arbitrary: s)
  case (Cons h hs)
  then have "seen (snd (remember h s)) = seen s" by (simp add: remember_def)
  with Cons show ?case by (simp add: remember_all_def)
qed (simp add: remember_all_def)

interpretation relay_once: relay_invariant e "once_inv m" for e m
proof unfold_locales
  show "once_inv m (w\<lparr>rw_relay := remember_all (cu_hashes (queue_cursor_and_hashes p c entries)) ((rw_relay w)\<lparr>rl_queue := q\<rparr>)\<rparr>)"
    if once: "once_inv m w" and rd: "read_entries (rl_queue (rw_relay w)) (rw_disk w) = (entries, q)" for w entries q p c
  proof -
    have "seen (remember_all (cu_hashes (queue_cursor_and_hashes p c entries)) ((rw_relay w)\<lparr>rl_queue := q\<rparr>)) = seen (rw_relay w)"
      if "fst ` set (named_tags (queue_rows (rw_disk w))) \<subseteq> PStr ` set (seen (rw_relay w))"
      using that by (subst remember_known) (auto simp: cursor_hashes read_rows [OF rd])
    with once relay_memory.inv_read [OF _ rd, of m] show ?thesis by (auto simp: once_inv_def)
  qed
qed (auto simp: once_relay once_status, auto simp: once_inv_def same_core_def relay_inv_def)

section \<open>The machine keeps them\<close>

lemma initial_once: "relay_initial m w \<Longrightarrow> once_inv m w"
  by (induction rule: relay_initial.induct)
    (auto simp: once_inv_def relay_inv_def init_relay_def fits_def disk_ok_def inst_ok_def init_queue_def CHANNELS_def named_tags_def alert_tags_def
      queue_rows_def split: if_splits)

interpretation relay_machine: invariant_system "relay_initial m" "relay_step e" "once_inv m" for m e
proof unfold_locales
  show "once_inv m s" if "relay_initial m s" for s using that by (rule initial_once)
  show "once_inv m s'" if "once_inv m s" and "relay_step e s s'" for s s'
    using that by (rule relay_once.inv_machine)
qed

text \<open>What is pending is exactly what \<open>pending()\<close> counts.\<close>

definition backlog :: "rworld \<Rightarrow> relay_item list \<times> int" where
  "backlog w = (pending (rw_relay w), outstanding (rw_relay w))"

lemma backlog_relay [simp]: "backlog (snd (relay_record e lg r durability stamp mc fp w)) = backlog w"
proof -
  obtain res w' where w': "relay_record e lg r durability stamp mc fp w = (res, w')" by (cases "relay_record e lg r durability stamp mc fp w")
  then have "backlog w' = backlog w" by (cases rule: relay_record_cases) (simp_all add: backlog_def Let_def)
  with w' show ?thesis by simp
qed

lemma backlog_status [simp]: "backlog (write_status e lg st w) = backlog w"
  by (rule write_status_cases [of e w lg st]) (simp add: backlog_def)

lemma backlog_replay [simp]: "backlog (snd (replay e lg durability mc fp rs w)) = backlog w"
  by (induction rs arbitrary: w) (simp_all add: case_prod_beta Let_def)

lemma backlog_upd: "pending s = pending (rw_relay w) \<Longrightarrow> outstanding s = outstanding (rw_relay w) \<Longrightarrow> backlog (w\<lparr>rw_relay := s\<rparr>) = backlog w"
  by (simp add: backlog_def)

lemma backlog_recover [simp]: "backlog (snd (recover_losses e lg ad ls w)) = backlog w"
  unfolding recover_losses_def Let_def by (simp add: case_prod_beta backlog_upd split: sum.split)

lemma fold_note_backlog [simp]: "pending (fold note_lost hs s) = pending s" "outstanding (fold note_lost hs s) = outstanding s"
  by (induction hs arbitrary: s) simp_all

lemma backlog_maybe [simp]: "backlog (maybe_recover_losses e lg ad now w) = backlog w"
  by (simp add: maybe_recover_losses_def Let_def take_lost_def case_prod_beta backlog_upd split: option.split)

lemma backlog_reconcile [simp]: "backlog (snd (reconcile e lg ad w)) = backlog w"
  by (simp add: reconcile_def resume_def Let_def case_prod_beta backlog_upd split: sum.split)

definition backlog_ok :: "rworld \<Rightarrow> bool" where
  "backlog_ok w = (snd (backlog w) = int (length (fst (backlog w))))"

interpretation relay_backlog: invariant_system "relay_initial m" "relay_step e" backlog_ok for m e
proof unfold_locales
  show "backlog_ok s" if "relay_initial m s" for s
    using that by cases (simp add: backlog_ok_def backlog_def init_relay_def)
  show "backlog_ok s'" if inv: "backlog_ok s" and step: "relay_step e s s'" for s s'
    using step
  proof cases
    case (relay_deliver rc durability stamp)
    with inv show ?thesis by (simp add: backlog_ok_def backlog_def on_durable_record_def)
  next
    case (relay_takes lg ad now)
    have "backlog_ok (case pending (rw_relay s) of [] \<Rightarrow> s | it # rest \<Rightarrow>
        (let w0 = snd (relay_record e lg (it_record it) (it_durability it) (it_stamp it) True False (s\<lparr>rw_relay := (rw_relay s)\<lparr>pending := rest\<rparr>\<rparr>))
         in w0\<lparr>rw_relay := (rw_relay w0)\<lparr>outstanding := outstanding (rw_relay w0) - 1\<rparr>\<rparr>))" (is "backlog_ok ?w")
    proof (cases "pending (rw_relay s)")
      case (Cons it rest)
      let ?w0 = "snd (relay_record e lg (it_record it) (it_durability it) (it_stamp it) True False (s\<lparr>rw_relay := (rw_relay s)\<lparr>pending := rest\<rparr>\<rparr>))"
      have "backlog ?w0 = (rest, outstanding (rw_relay s))" by (simp add: backlog_def [of "s\<lparr>rw_relay := (rw_relay s)\<lparr>pending := rest\<rparr>\<rparr>"])
      then have "pending (rw_relay ?w0) = rest" "outstanding (rw_relay ?w0) = outstanding (rw_relay s)" by (simp_all add: backlog_def)
      then show ?thesis using inv Cons by (simp add: backlog_ok_def backlog_def Let_def)
    qed (use inv in simp)
    then show ?thesis unfolding relay_takes(1) relay_turn_def Let_def by (simp add: backlog_ok_def report_losses_def)
  qed (use inv in \<open>simp_all add: backlog_ok_def stop_relay_def backlog_upd\<close>)
qed

section \<open>The thread ends\<close>

lemma stopping_relay [simp]: "stopping (rw_relay (snd (relay_record e lg r durability stamp mc fp w))) = stopping (rw_relay w)"
proof -
  obtain res w' where w': "relay_record e lg r durability stamp mc fp w = (res, w')" by (cases "relay_record e lg r durability stamp mc fp w")
  then have "stopping (rw_relay w') = stopping (rw_relay w)" by (cases rule: relay_record_cases) (simp_all add: Let_def relay_tried_def)
  with w' show ?thesis by simp
qed

lemma stopping_report [simp]: "stopping (rw_relay (report_losses e lg w)) = stopping (rw_relay w)"
  by (simp add: report_losses_def write_status_def Let_def case_prod_beta split: sum.split)

text \<open>The loop of \<open>_run\<close>, one entry of the list for each time round it could go.\<close>

fun run_turns :: "renv \<Rightarrow> (alog option \<times> adir \<times> rat) list \<Rightarrow> rworld \<Rightarrow> rworld" where
  "run_turns e [] w = w"
| "run_turns e ((lg, ad, now) # rest) w = (if turn_enabled w then run_turns e rest (relay_turn e lg ad now w) else w)"

lemma stopped_turn:
  assumes "stopping (rw_relay w)" and "pending (rw_relay w) = it # rest"
  shows "stopping (rw_relay (relay_turn e lg ad now w)) \<and> pending (rw_relay (relay_turn e lg ad now w)) = rest"
proof -
  let ?w0 = "snd (relay_record e lg (it_record it) (it_durability it) (it_stamp it) True False (w\<lparr>rw_relay := (rw_relay w)\<lparr>pending := rest\<rparr>\<rparr>))"
  let ?w1 = "?w0\<lparr>rw_relay := (rw_relay ?w0)\<lparr>outstanding := outstanding (rw_relay ?w0) - 1\<rparr>\<rparr>"
  have st: "stopping (rw_relay ?w1)" using assms(1) by simp
  then have turn: "relay_turn e lg ad now w = report_losses e lg ?w1"
    by (simp add: relay_turn_def assms(2) Let_def maybe_recover_losses_def)
  have "backlog ?w0 = (rest, outstanding (rw_relay w))" by (simp add: backlog_def [of "w\<lparr>rw_relay := (rw_relay w)\<lparr>pending := rest\<rparr>\<rparr>"])
  then have "fst (backlog ?w1) = rest" by (simp add: backlog_def)
  moreover have "backlog (report_losses e lg ?w1) = backlog ?w1" by (simp add: report_losses_def)
  ultimately have "pending (rw_relay (report_losses e lg ?w1)) = rest" by (simp add: backlog_def)
  with st turn show ?thesis by simp
qed

section \<open>Rows a consumer can rely on\<close>

definition alert_core :: "pydict \<Rightarrow> bool" where
  "alert_core r = (is_text (dget r ''decision_id'') \<and> is_text (dget r ''decision_chain_hash'') \<and> is_text (dget r ''action'')
     \<and> is_text (dget r ''display_text'') \<and> dget r ''channel'' \<in> PStr ` set CHANNELS
     \<and> (\<exists>past. dget r ''stale'' = PBool past \<and> dget r ''presentation'' = PStr (if past then ''historical'' else ''current'')
          \<and> (dget r ''channel'' = PStr ''voice'' \<longrightarrow> dget r ''voice_urgent'' = PBool (\<not> past))))"

definition alert_typed :: "pydict \<Rightarrow> bool" where
  "alert_typed r = (is_int (dget r ''seq'') \<and> alert_core r)"

text \<open>The fields a queue entry adds to an alert.\<close>

definition envelope :: "string set" where
  "envelope = {''schema'', ''record_type'', ''seq'', ''enqueued_monotonic_ns'', ''boot_id'', ''queued_at'', ''overflow_policy'', ''overflow_evicted'',
     ''overflow_evicted_total'', ''torn_tail_repaired_bytes'', ''relay_handoff_dropped_total'', ''relay_enqueue_failed_total''}"

lemma entry_keeps: "k \<notin> envelope \<Longrightarrow> dget (mark_repaired n (alert_entry io (relay_extra s) i ev tot a)) k = dget a k"
  by (simp add: envelope_def mark_repaired_def alert_entry_def relay_extra_def dict_simps)

lemma entry_seq: "dget (mark_repaired n (alert_entry io (relay_extra s) i ev tot a)) ''seq'' = PInt i"
  by (simp add: mark_repaired_def alert_entry_def relay_extra_def dict_simps)

lemma built_core:
  assumes "a \<in> set (build_p0_alerts e r basis durability stamp now)"
  shows "alert_core a"
proof -
  from assms obtain c where c: "c \<in> set CHANNELS" "a = worded e (alert_base e r basis durability stamp now @ [(''channel'', PStr c)])" (is "a = worded e ?b")
    by (auto simp: build_p0_alerts_def)
  have b: "dget ?b ''stale'' = PBool (is_stale e r durability now)" "dget ?b ''channel'' = PStr c"
    "dget ?b ''presentation'' = PStr (if is_stale e r durability now then ''historical'' else ''current'')"
    "is_text (dget ?b ''decision_id'')" "is_text (dget ?b ''decision_chain_hash'')" "is_text (dget ?b ''action'')"
    by (simp_all add: alert_base_def Let_def dget_Cons alert_action_def)
  then show ?thesis using c(1) unfolding alert_core_def by (auto simp: c(2) worded_keeps worded_text worded_urgent render_urgent)
qed

lemma core_cong: "(\<And>k. k \<in> {''decision_id'', ''decision_chain_hash'', ''action'', ''display_text'', ''channel'', ''stale'', ''presentation'', ''voice_urgent''} \<Longrightarrow> dget b k = dget a k) \<Longrightarrow>
    alert_core a \<Longrightarrow> alert_core b"
  by (simp add: alert_core_def)

lemma past_core: "alert_core a \<Longrightarrow> alert_core (as_past e a)"
proof -
  assume a: "alert_core a"
  let ?b = "dupdate a [(''stale'', PBool True), (''presentation'', PStr ''historical'')]"
  have "dget ?b ''stale'' = PBool True" "dget ?b ''presentation'' = PStr ''historical''" "dget ?b ''channel'' = dget a ''channel''"
    "dget ?b ''decision_id'' = dget a ''decision_id''" "dget ?b ''decision_chain_hash'' = dget a ''decision_chain_hash''" "dget ?b ''action'' = dget a ''action''"
    by (simp_all add: dict_simps)
  with a show ?thesis unfolding alert_core_def as_past_def by (auto simp: worded_keeps worded_text worded_urgent render_urgent)
qed

lemma addressed_core:
  assumes "alert_core a"
  shows "alert_core (addressed e cid path fp mc a)"
proof -
  let ?a = "if cid = [] then a else (let b = AList.update ''audit_chain_id'' (PStr cid) a in if path \<noteq> [] then AList.update ''audit_path'' (PStr path) b else b)"
  have "alert_core ?a" using assms by (rule core_cong [rotated]) (auto simp: Let_def dget_update)
  then have "alert_core (if fp then as_past e ?a else ?a)" using past_core by simp
  then show ?thesis unfolding addressed_def Let_def by (cases mc) (auto simp: dget_delete intro: core_cong [rotated])
qed

lemma relay_alerts_core: "a \<in> set (relay_alerts e lg r durability stamp mc fp w) \<Longrightarrow> alert_core a"
  by (auto simp: relay_alerts_def dest: built_core intro: addressed_core)

lemma entry_typed: "alert_core a \<Longrightarrow> alert_typed (mark_repaired n (alert_entry io (relay_extra s) i ev tot a))"
  unfolding alert_typed_def by (auto simp: entry_seq entry_keeps envelope_def intro: core_cong [rotated])

definition typed_inv :: "nat \<Rightarrow> rworld \<Rightarrow> bool" where
  "typed_inv m w = (relay_inv m w \<and> (\<forall>r \<in> set (queue_rows (rw_disk w)). is_alert r \<longrightarrow> alert_typed r))"

lemma subseq_alerts:
  assumes "subseq old rows" and "filter is_alert rows' = filter is_alert old @ filter is_alert new" and "\<forall>r \<in> set rows. is_alert r \<longrightarrow> P r"
    and "\<forall>r \<in> set new. P r" and "r \<in> set rows'" and "is_alert r"
  shows "P r"
proof -
  have "r \<in> set (filter is_alert rows')" using assms(5,6) by simp
  then have "r \<in> set (filter is_alert old @ filter is_alert new)" unfolding assms(2) .
  with assms(1,3,4,6) subseq_set [OF assms(1)] show ?thesis by auto
qed

lemma enqueue_typed:
  assumes "disk_ok m d" and "inst_ok m d q" and "enqueue io alerts (relay_extra s) q d = (res, q', d')" and "\<forall>a \<in> set alerts. alert_core a"
    and "\<forall>r \<in> set (queue_rows d). is_alert r \<longrightarrow> alert_typed r"
  shows "\<forall>r \<in> set (queue_rows d'). is_alert r \<longrightarrow> alert_typed r"
  using assms(3)
proof (cases rule: enqueue_cases)
  case 1
  with assms(2) have le: "length alerts \<le> m" by (simp add: inst_ok_def)
  from write_alerts [OF assms(1,2) le builder_alerts [OF 1(1)] 1(3)] obtain old k first ev tot n where old: "subseq old (queue_rows d)"
    and new: "filter is_alert (queue_rows d') = filter is_alert old @ filter is_alert (take k (map (mark_repaired n) (alert_entries io (relay_extra s) alerts first ev tot)))" by blast
  have "alert_typed r" if "r \<in> set (take k (map (mark_repaired n) (alert_entries io (relay_extra s) alerts first ev tot)))" for r
    using in_set_takeD [OF that] assms(4) by (auto simp: alert_entries_def in_set_enumerate_eq intro!: entry_typed)
  with subseq_alerts [OF old new assms(5)] show ?thesis by blast
qed (use assms(5) in simp)

lemma status_typed:
  assumes "disk_ok m d" and "inst_ok m d q" and "append_status io st q d = (res, q', d')" and "\<forall>r \<in> set (queue_rows d). is_alert r \<longrightarrow> alert_typed r"
  shows "\<forall>r \<in> set (queue_rows d'). is_alert r \<longrightarrow> alert_typed r"
proof -
  from write_alerts [OF assms(1,2) _ builder_status assms(3) [unfolded append_status_def]] obtain old k first ev tot n where old: "subseq old (queue_rows d)"
    and new: "filter is_alert (queue_rows d') = filter is_alert old @ filter is_alert (take k (map (mark_repaired n) (status_entry io st first ev tot)))" by blast
  have "filter is_alert (take k (map (mark_repaired n) (status_entry io st first ev tot))) = []"
    by (cases k) (simp_all add: status_entry_def mark_repaired_def is_alert_def dict_simps)
  with new have "filter is_alert (queue_rows d') = filter is_alert old @ filter is_alert []" by simp
  from subseq_alerts [OF old this assms(4)] show ?thesis by simp
qed

interpretation relay_types: relay_invariant e "typed_inv m" for e m
proof unfold_locales
  show "typed_inv m (snd (relay_record e lg r durability stamp mc fp w))" if "typed_inv m w" for w lg r durability stamp mc fp
  proof -
    obtain res w' where w': "relay_record e lg r durability stamp mc fp w = (res, w')" by (cases "relay_record e lg r durability stamp mc fp w")
    have ok: "relay_inv m w" "disk_ok m (rw_disk w)" "inst_ok m (rw_disk w) (rl_queue (rw_relay w))" "\<forall>r \<in> set (queue_rows (rw_disk w)). is_alert r \<longrightarrow> alert_typed r"
      using that by (simp_all add: typed_inv_def relay_inv_def)
    from w' have "\<forall>r \<in> set (queue_rows (rw_disk w')). is_alert r \<longrightarrow> alert_typed r"
    proof (cases rule: relay_record_cases)
      case (failed x q d)
      with enqueue_typed [OF ok(2,3) failed(3) _ ok(4)] relay_alerts_core show ?thesis by auto
    next
      case (written x q d)
      with enqueue_typed [OF ok(2,3) written(3) _ ok(4)] relay_alerts_core show ?thesis by auto
    qed (use ok(4) in simp_all)
    with relay_memory.inv_relay [OF ok(1), of e lg r durability stamp mc fp] w' show ?thesis by (simp add: typed_inv_def)
  qed
  show "typed_inv m (write_status e lg st w)" if "typed_inv m w" for w lg st
  proof -
    have ok: "relay_inv m w" "disk_ok m (rw_disk w)" "inst_ok m (rw_disk w) (rl_queue (rw_relay w))" "\<forall>r \<in> set (queue_rows (rw_disk w)). is_alert r \<longrightarrow> alert_typed r"
      using that by (simp_all add: typed_inv_def relay_inv_def)
    obtain res q d where "append_status (r_io e (rw_tick w)) (status_record lg st (rw_relay w)) (rl_queue (rw_relay w)) (rw_disk w) = (res, q, d)"
      "rw_disk (write_status e lg st w) = d" by (rule write_status_cases)
    with status_typed [OF ok(2,3) _ ok(4)] relay_memory.inv_status [OF ok(1)] show ?thesis by (simp add: typed_inv_def)
  qed
qed (use relay_memory.inv_frame relay_memory.inv_fits relay_memory.inv_read in \<open>auto simp: typed_inv_def\<close>)

lemma initial_typed: "relay_initial m w \<Longrightarrow> typed_inv m w"
  using initial_once [of m w] by (auto simp: typed_inv_def once_inv_def queue_rows_def elim!: relay_initial.cases)

interpretation typed_machine: invariant_system "relay_initial m" "relay_step e" "typed_inv m" for m e
proof unfold_locales
  show "typed_inv m s" if "relay_initial m s" for s using that by (rule initial_typed)
  show "typed_inv m s'" if "typed_inv m s" and "relay_step e s s'" for s s'
    using that by (rule relay_types.inv_machine)
qed

section \<open>What the reconcile alerts\<close>

text \<open>System calls that succeed.\<close>

definition io_works :: "qio \<Rightarrow> bool" where
  "io_works io = (open_ok io \<and> cut io = None \<and> io_fsync io \<noteq> SyncFailed \<and> io_dir io \<noteq> SyncFailed \<and> rewrite_ok io)"

lemma write_works: "io_works io \<Longrightarrow> queue_write io build inc q d \<noteq> (Inl x, q', d')"
  by (auto simp: io_works_def queue_write_def Let_def case_prod_beta write_compacted_def write_append_def)

lemma wrote_room:
  assumes "wrote m inc build d x d'" and "length (queue_rows d) + length (build 0 0 0) \<le> 2 * m"
  shows "\<exists>n first ev tot. queue_rows d' = queue_rows d @ map (mark_repaired n) (build first ev tot)"
  using assms by (simp add: wrote_def Let_def case_prod_beta kept_rows_def) metis

lemma relay_works:
  assumes inv: "relay_inv m w" and works: "io_works (r_io e (rw_tick w))" and room: "length (queue_rows (rw_disk w)) + 2 \<le> 2 * m"
    and r: "relay_record e lg r durability stamp mc fp w = (res, w')"
  shows "relayed_ok res \<and> length (queue_rows (rw_disk w')) \<le> length (queue_rows (rw_disk w)) + 2
    \<and> set (alert_tags (queue_rows (rw_disk w))) \<subseteq> set (alert_tags (queue_rows (rw_disk w')))
    \<and> set (seen (rw_relay w')) \<subseteq> insert (text_of (dget r ''chain_hash'')) (set (seen (rw_relay w)))
    \<and> (classify_p0 r \<noteq> [] \<longrightarrow> text_of (dget r ''chain_hash'') \<in> set (seen (rw_relay w))
        \<or> set (both_channels (text_of (dget r ''chain_hash''))) \<subseteq> set (alert_tags (queue_rows (rw_disk w'))))"
  using r
proof (cases rule: relay_record_cases)
  case (failed x q d)
  have "length (relay_alerts e lg r durability stamp mc fp w) = 2" by (simp add: relay_alerts_def build_p0_alerts_def CHANNELS_def)
  moreover have "2 \<le> max_entries (rl_queue (rw_relay w))" using inv by (simp add: relay_inv_def inst_ok_def)
  ultimately show ?thesis using failed(3) write_works [OF works] by (auto simp: enqueue_def split: if_splits)
next
  case (written x q d)
  let ?al = "relay_alerts e lg r durability stamp mc fp w"
  have len: "length ?al = 2" by (simp add: relay_alerts_def build_p0_alerts_def CHANNELS_def)
  have "wrote m (length ?al) (alert_entries (r_io e (rw_tick w)) (relay_extra (rw_relay w)) ?al) (rw_disk w) x d"
    using enqueue_effect [OF _ _ _ written(3)] inv by (simp add: relay_inv_def)
  from wrote_room [OF this] room len obtain n first ev tot where rows: "queue_rows d = queue_rows (rw_disk w) @
      map (mark_repaired n) (alert_entries (r_io e (rw_tick w)) (relay_extra (rw_relay w)) ?al first ev tot)" by auto
  then have "alert_tags (queue_rows d) = alert_tags (queue_rows (rw_disk w)) @ both_channels (text_of (dget r ''chain_hash''))"
    by (simp add: entry_tags relay_alert_tags)
  moreover have "set (seen (snd (remember h s))) \<subseteq> insert h (set (seen s))" for h s
    by (cases "seen s") (auto simp: remember_def)
  ultimately show ?thesis using written rows len by (simp add: Let_def)
qed (simp_all add: subset_insertI)

lemma replay_works:
  assumes "relay_inv m w" and "\<And>n. io_works (r_io e n)" and "length (queue_rows (rw_disk w)) + 2 * length rs \<le> 2 * m"
    and "replay e lg durability mc fp rs w = (n, w')"
  shows "n = length rs \<and> length (queue_rows (rw_disk w')) \<le> length (queue_rows (rw_disk w)) + 2 * length rs
    \<and> set (alert_tags (queue_rows (rw_disk w))) \<subseteq> set (alert_tags (queue_rows (rw_disk w')))
    \<and> (\<forall>r \<in> set rs. classify_p0 r \<noteq> [] \<longrightarrow> text_of (dget r ''chain_hash'') \<in> set (seen (rw_relay w))
        \<or> set (both_channels (text_of (dget r ''chain_hash''))) \<subseteq> set (alert_tags (queue_rows (rw_disk w'))))"
  using assms(1,3,4)
proof (induction rs arbitrary: w n w')
  case (Cons r rs)
  obtain res w1 where r: "relay_record e lg r durability None mc fp w = (res, w1)" by (cases "relay_record e lg r durability None mc fp w")
  obtain k w2 where rs: "replay e lg durability mc fp rs w1 = (k, w2)" by (cases "replay e lg durability mc fp rs w1")
  have step: "n = (if relayed_ok res then Suc k else k)" "w' = w2" using Cons.prems(3) r rs by auto
  have inv: "relay_inv m w1" using relay_inv_relay [OF Cons.prems(1)] r by (metis snd_conv)
  have room: "length (queue_rows (rw_disk w)) + 2 \<le> 2 * m" using Cons.prems(2) by simp
  note one = relay_works [OF Cons.prems(1) assms(2) room r]
  then have "length (queue_rows (rw_disk w1)) + 2 * length rs \<le> 2 * m" using Cons.prems(2) by simp
  note rest = Cons.IH [OF inv this rs]
  have "\<forall>r' \<in> set (r # rs). classify_p0 r' \<noteq> [] \<longrightarrow> text_of (dget r' ''chain_hash'') \<in> set (seen (rw_relay w))
      \<or> set (both_channels (text_of (dget r' ''chain_hash''))) \<subseteq> set (alert_tags (queue_rows (rw_disk w2)))"
  proof (intro ballI impI)
    fix r' assume r': "r' \<in> set (r # rs)" "classify_p0 r' \<noteq> []"
    let ?goal = "\<lambda>x. text_of (dget x ''chain_hash'') \<in> set (seen (rw_relay w))
      \<or> set (both_channels (text_of (dget x ''chain_hash''))) \<subseteq> set (alert_tags (queue_rows (rw_disk w2)))"
    have mine: "classify_p0 r \<noteq> [] \<Longrightarrow> ?goal r" using one rest by (meson order_trans)
    show "?goal r'"
    proof (cases "r' = r")
      case False
      with r' rest have "text_of (dget r' ''chain_hash'') \<in> set (seen (rw_relay w1)) \<or> ?goal r'" by auto
      moreover have "?goal r'" if "text_of (dget r' ''chain_hash'') \<in> set (seen (rw_relay w1))" "text_of (dget r' ''chain_hash'') \<notin> set (seen (rw_relay w))"
      proof -
        have same: "text_of (dget r' ''chain_hash'') = text_of (dget r ''chain_hash'')" using one that by blast
        have "classify_p0 r \<noteq> []"
          using r that by (auto simp: relay_record_def)
        with mine same show ?thesis by simp
      qed
      ultimately show ?thesis by blast
    qed (use mine r' in simp)
  qed
  with one rest step show ?case by auto
qed simp

lemma unseen_p0_in: "r \<in> set (unseen_p0 s rows) \<Longrightarrow> r \<in> set rows \<and> classify_p0 r \<noteq> [] \<and> text_of (dget r ''chain_hash'') \<notin> set (seen s)"
  by (simp add: unseen_p0_def)

lemma missed_unseen: "r \<in> set (pl_missed (reconcile_plan s cv u)) \<Longrightarrow> classify_p0 r \<noteq> [] \<and> text_of (dget r ''chain_hash'') \<notin> set (seen s)"
  by (auto simp: reconcile_plan_def Let_def case_prod_beta dest: unseen_p0_in split: option.splits if_splits)

lemma status_keeps_alerts:
  assumes inv: "relay_inv m w" and works: "io_works (r_io e (rw_tick w))" and room: "length (queue_rows (rw_disk w)) + 1 \<le> 2 * m"
  shows "alert_tags (queue_rows (rw_disk (write_status e lg st w))) = alert_tags (queue_rows (rw_disk w))"
proof -
  obtain res q d where st: "append_status (r_io e (rw_tick w)) (status_record lg st (rw_relay w)) (rl_queue (rw_relay w)) (rw_disk w) = (res, q, d)"
    "rw_disk (write_status e lg st w) = d" by (rule write_status_cases)
  obtain x where "res = Inr x" using write_works [OF works] st(1) by (cases res) (auto simp: append_status_def)
  with status_effect [OF _ _ _ st(1)] inv
  have "wrote m 0 (status_entry (r_io e (rw_tick w)) (status_record lg st (rw_relay w))) (rw_disk w) x d" by (simp add: relay_inv_def)
  from wrote_room [OF this] room obtain n first ev tot where
    "queue_rows d = queue_rows (rw_disk w) @ map (mark_repaired n) (status_entry (r_io e (rw_tick w)) (status_record lg st (rw_relay w)) first ev tot)"
    by (auto simp: status_entry_def)
  then show ?thesis using st(2) by (simp add: status_entry_def mark_repaired_def alert_tags_def is_alert_def dict_simps)
qed

text \<open>The state of a reconcile after the replay, before its status is written.\<close>

lemma reconcile_run:
  assumes "audit_path (rw_relay w) \<noteq> None" and "relay_read_chain (r_sync e) None ad = Inr cv" and "resume cv w = (s, u)"
    and "missed = pl_missed (reconcile_plan s cv u)"
  obtains st n w1 s3 where "reconcile e lg ad w = (Inr st, write_status e lg st (w1\<lparr>rw_relay := s3\<rparr>))"
    and "replay e lg (reconciled_durability (cv_synced cv)) True (pl_past (reconcile_plan s cv u)) (drop (skipped_of s missed) missed) (w\<lparr>rw_relay := s\<rparr>) = (n, w1)"
    and "same_core (rw_relay w1) s3" and "fits s3 = fits (rw_relay w1)"
    and "dget st ''reconciled'' = PInt (int n)" and "dget st ''reconcile_skipped'' = PInt (int (skipped_of s missed))"
proof -
  obtain n w1 where rp: "replay e lg (reconciled_durability (cv_synced cv)) True (pl_past (reconcile_plan s cv u)) (drop (skipped_of s missed) missed)
      (w\<lparr>rw_relay := s\<rparr>) = (n, w1)" by (metis surj_pair)
  let ?s3 = "(rw_relay w1)\<lparr>reconciled_total := reconciled_total (rw_relay w1) + n,
    reconcile_skipped_total := reconcile_skipped_total (rw_relay w1) + skipped_of s missed\<rparr>"
  let ?st = "reconcile_status cv u (reconcile_plan s cv u) n (skipped_of s missed) (tail_hash (fst (cut_rows (reconcile_until s) (parse_rows (cv_lines cv)))))"
  show thesis
  proof (rule that [OF _ rp])
    show "reconcile e lg ad w = (Inr ?st, write_status e lg ?st (w1\<lparr>rw_relay := ?s3\<rparr>))"
      using assms rp by (auto simp: reconcile_def Let_def)
    show "same_core (rw_relay w1) ?s3" "fits ?s3 = fits (rw_relay w1)" by (simp_all add: same_core_def fits_def)
    show "dget ?st ''reconciled'' = PInt (int n)" "dget ?st ''reconcile_skipped'' = PInt (int (skipped_of s missed))"
      by (simp_all add: reconcile_status_def dict_simps)
  qed
qed

lemma reached_relay: "reach (relay_initial m) (relay_step e) w \<Longrightarrow> relay_inv m w"
  using relay_machine.reach_inv [of m e w] by (simp add: once_inv_def)

lemma replay_counts: "replay e lg durability mc fp rs w = (n, w') \<Longrightarrow>
    n + rl_enqueue_failed (rw_relay w') = length rs + rl_enqueue_failed (rw_relay w)"
proof (induction rs arbitrary: w n)
  case (Cons r rs)
  obtain res w1 where r: "relay_record e lg r durability None mc fp w = (res, w1)" by (cases "relay_record e lg r durability None mc fp w")
  obtain k w2 where rs: "replay e lg durability mc fp rs w1 = (k, w2)" by (cases "replay e lg durability mc fp rs w1")
  from r have "rl_enqueue_failed (rw_relay w1) = rl_enqueue_failed (rw_relay w) + (if relayed_ok res then 0 else 1)"
    by (cases rule: relay_record_cases) (simp_all add: Let_def)
  with Cons.IH [of w1 k] Cons.prems r rs show ?case by (auto split: if_splits)
qed simp

lemma resume_frame: "resume cv w = (s, u) \<Longrightarrow> rl_enqueue_failed s = rl_enqueue_failed (rw_relay w) \<and> max_reconcile s = max_reconcile (rw_relay w)"
  by (auto simp: resume_def Let_def case_prod_beta)

lemma replay_tick: "replay e lg durability mc fp rs w = (n, w') \<Longrightarrow> rw_tick w' \<le> rw_tick w + length rs"
proof (induction rs arbitrary: w n)
  case (Cons r rs)
  obtain res w1 where r: "relay_record e lg r durability None mc fp w = (res, w1)" by (cases "relay_record e lg r durability None mc fp w")
  obtain k w2 where rs: "replay e lg durability mc fp rs w1 = (k, w2)" by (cases "replay e lg durability mc fp rs w1")
  from r have "rw_tick w1 \<le> Suc (rw_tick w)" by (cases rule: relay_record_cases) simp_all
  with Cons.IH [of w1 k] Cons.prems r rs show ?case by auto
qed simp

lemma missed_alerted:
  assumes "reach (relay_initial m) (relay_step e) w" and "\<forall>n. io_works (r_io e n)" and "audit_path (rw_relay w) \<noteq> None"
    and "relay_read_chain (r_sync e) None ad = Inr cv" and "resume cv w = (s, u)" and "missed = pl_missed (reconcile_plan s cv u)"
    and "int (length missed) \<le> max_reconcile (rw_relay w)" and "length (queue_rows (rw_disk w)) + 2 * length missed + 1 \<le> 2 * m"
  shows "\<forall>r \<in> set missed. set (both_channels (text_of (dget r ''chain_hash''))) \<subseteq> set (alert_tags (queue_rows (rw_disk (snd (reconcile e lg ad w)))))"
proof -
  obtain st n w1 s3 where rec: "reconcile e lg ad w = (Inr st, write_status e lg st (w1\<lparr>rw_relay := s3\<rparr>))"
    "replay e lg (reconciled_durability (cv_synced cv)) True (pl_past (reconcile_plan s cv u)) (drop (skipped_of s missed) missed) (w\<lparr>rw_relay := s\<rparr>) = (n, w1)"
    "same_core (rw_relay w1) s3" "fits s3 = fits (rw_relay w1)"
    by (rule reconcile_run [OF assms(3-6)])
  have skip: "skipped_of s missed = 0" using assms(7) resume_frame [OF assms(5)] by (simp add: skipped_of_def)
  have inv: "relay_inv m (w\<lparr>rw_relay := s\<rparr>)" using relay_memory.inv_resume [OF reached_relay [OF assms(1)], of cv] assms(5) by simp
  note run = rec(2) [unfolded skip drop_0]
  have all: "length (queue_rows (rw_disk w1)) \<le> length (queue_rows (rw_disk w)) + 2 * length missed"
    "\<forall>r \<in> set missed. set (both_channels (text_of (dget r ''chain_hash''))) \<subseteq> set (alert_tags (queue_rows (rw_disk w1)))"
    using replay_works [OF inv _ _ run] assms(2,8) missed_unseen [of _ s cv u] by (auto simp: assms(6))
  have "relay_inv m w1" using relay_memory.inv_replay [OF inv] run by (metis snd_conv)
  then have "relay_inv m (w1\<lparr>rw_relay := s3\<rparr>)" using rec(3,4) by (auto simp: relay_inv_def same_core_def)
  from status_keeps_alerts [OF this] assms(2,8) all(1)
  have "alert_tags (queue_rows (rw_disk (snd (reconcile e lg ad w)))) = alert_tags (queue_rows (rw_disk w1))" by (simp add: rec(1))
  with all(2) show ?thesis by simp
qed

section \<open>An example\<close>

text \<open>A chain with one redirect decision, read by a relay that starts on an empty queue.\<close>

definition ex_decision :: pydict where
  "ex_decision = [(''kind'', PStr ''action_decision''), (''action'', PStr ''redirect''), (''chain_prev'', PStr []), (''chain_hash'', PStr ''h1'')]"

definition ex_chain :: adir where
  "ex_chain = \<lparr>active = Some \<lparr>flines = row_lines [ex_decision], torn = None\<rparr>, seg = (\<lambda>_. None)\<rparr>"

definition ex_renv :: renv where
  "ex_renv = \<lparr>r_dates = \<lparr>parse_ts = (\<lambda>_. None), format_utc = (\<lambda>_. None)\<rparr>, r_io = (\<lambda>_. ex_qio), r_now = (\<lambda>_. 0), r_sync = (\<lambda>_. Synced), r_errno = []\<rparr>"

definition ex_rw :: rworld where
  "ex_rw = \<lparr>rw_relay = init_relay ex_q0 (Some ''/audit'') 4 8 1 4, rw_disk = ex_d0, rw_tick = 0\<rparr>"

definition ex_view :: chain_view where "ex_view = read_chain None (Some (\<lambda>f. r_sync ex_renv f = Synced)) ex_chain"

lemma ex_rw_reach: "reach (relay_initial 2) (relay_step ex_renv) ex_rw"
proof -
  have "relay_initial 2 \<lparr>rw_relay = (init_relay ex_q0 (Some ''/audit'') 4 8 1 4)\<lparr>reconcile_until := None\<rparr>, rw_disk = \<lparr>dfile = None, dino = 0\<rparr>, rw_tick = 0\<rparr>"
    by (rule relay_fresh) (simp add: init_queue_def ex_q0_def CHANNELS_def)
  then show ?thesis by (intro reach_init) (simp add: ex_rw_def ex_d0_def init_relay_def)
qed

lemma ex_snapshot: "fst (open_snapshot ex_chain) = [\<lparr>flines = row_lines [ex_decision], torn = None\<rparr>]"
  by (simp add: open_snapshot_def Let_def ex_chain_def MAX_SEGMENTS_def numeral_eq_Suc)

lemma ex_read: "relay_read_chain (r_sync ex_renv) None ex_chain = Inr ex_view"
  by (simp add: relay_read_chain_def ex_snapshot linked_files_def ex_renv_def ex_view_def)

lemma ex_view_lines: "cv_lines ex_view = row_lines [ex_decision]"
  by (simp add: ex_view_def read_chain_def Let_def ex_snapshot linked_files_def)

definition ex_cursors :: cursors where
  "ex_cursors = \<lparr>cu_cursor = [], cu_path = [], cu_legacy = [], cu_other = False, cu_hashes = []\<rparr>"

lemma ex_resume: "snd (resume ex_view ex_rw) = ex_cursors" "seen (fst (resume ex_view ex_rw)) = []" "reconcile_until (fst (resume ex_view ex_rw)) = None"
  by (simp_all add: resume_def Let_def case_prod_beta ex_rw_def init_relay_def read_entries_def ex_d0_def queue_cursor_and_hashes_def ex_cursors_def remember_all_def)

lemma ex_p0: "classify_p0 ex_decision \<noteq> []" "text_of (dget ex_decision ''chain_hash'') = ''h1''"
  by (simp_all add: classify_p0_def ex_decision_def dict_simps Let_def ENFORCEMENT_ACTIONS_def text_of_def py_or_def)

lemma ex_missed: "pl_missed (reconcile_plan (fst (resume ex_view ex_rw)) ex_view ex_cursors) = [ex_decision]"
  by (simp add: reconcile_plan_def Let_def scope_of_def ex_cursors_def cut_rows_def ex_resume ex_view_lines unseen_p0_def ex_p0 [unfolded ex_decision_def] ex_p0)

definition ex_rw1 :: rworld where "ex_rw1 = snd (reconcile ex_renv None ex_chain ex_rw)"

lemma ex_rw1_reach: "reach (relay_initial 2) (relay_step ex_renv) ex_rw1"
  unfolding ex_rw1_def using ex_rw_reach relay_start by (rule reach_step)

lemma ex_works: "io_works (r_io ex_renv n)"
  by (simp add: io_works_def ex_renv_def ex_qio_def)

lemma ex_path: "audit_path (rw_relay ex_rw) \<noteq> None" "max_reconcile (rw_relay ex_rw) = 8" "queue_rows (rw_disk ex_rw) = []" "rl_enqueue_failed (rw_relay ex_rw) = 0"
  by (simp_all add: ex_rw_def init_relay_def queue_rows_def ex_d0_def)

lemma ex_alerted: "set (both_channels ''h1'') \<subseteq> set (alert_tags (queue_rows (rw_disk ex_rw1)))"
proof -
  have rs: "resume ex_view ex_rw = (fst (resume ex_view ex_rw), ex_cursors)" using ex_resume(1) by (simp add: prod_eq_iff)
  show ?thesis
    using missed_alerted [OF ex_rw_reach _ ex_path(1) ex_read rs ex_missed [symmetric], of None] ex_works ex_path(2,3) ex_p0(2)
    by (simp add: ex_rw1_def)
qed

lemma ex_rw1_fields: "rl_enqueue_failed (rw_relay ex_rw1) = 0" "rw_tick ex_rw1 \<le> 2"
proof -
  let ?s = "fst (resume ex_view ex_rw)"
  have rs: "resume ex_view ex_rw = (?s, ex_cursors)" using ex_resume(1) by (simp add: prod_eq_iff)
  obtain st n w1 s3 where rec: "reconcile ex_renv None ex_chain ex_rw = (Inr st, write_status ex_renv None st (w1\<lparr>rw_relay := s3\<rparr>))"
    "replay ex_renv None (reconciled_durability (cv_synced ex_view)) True (pl_past (reconcile_plan ?s ex_view ex_cursors)) (drop (skipped_of ?s [ex_decision]) [ex_decision]) (ex_rw\<lparr>rw_relay := ?s\<rparr>) = (n, w1)"
    "same_core (rw_relay w1) s3" by (rule reconcile_run [OF ex_path(1) ex_read rs ex_missed [symmetric]])
  have skip: "skipped_of ?s [ex_decision] = 0" using resume_frame [OF rs] ex_path(2) by (simp add: skipped_of_def)
  note run = rec(2) [unfolded skip drop_0]
  have inv: "relay_inv 2 (ex_rw\<lparr>rw_relay := ?s\<rparr>)" using relay_memory.inv_resume [OF reached_relay [OF ex_rw_reach]] by simp
  have "n = 1" using replay_works [OF inv ex_works _ run] ex_path(3) by simp
  with replay_counts [OF run] resume_frame [OF rs] ex_path(4) have "rl_enqueue_failed (rw_relay w1) = 0" by simp
  moreover have "rw_tick w1 \<le> 1" using replay_tick [OF run] by (simp add: ex_rw_def)
  ultimately show "rl_enqueue_failed (rw_relay ex_rw1) = 0" "rw_tick ex_rw1 \<le> 2"
    using rec(1,3) by (simp_all add: ex_rw1_def same_core_def)
qed

section \<open>Properties of the relay\<close>

text \<open>In every reachable state of a relay, whatever the order of records, turns, starts and failed writes: the hand-off, the list of
  lost records and the list of alerted hashes stay within their bounds, the queue file stays within \<open>2 * max_entries\<close> lines, and
  \<open>pending()\<close> reports exactly the records handed over and not yet relayed.\<close>

theorem relay_memory_is_bounded:
  assumes "reach (relay_initial m) (relay_step e) w"
  shows "length (pending (rw_relay w)) \<le> pending_max (rw_relay w) \<and> length (lost (rw_relay w)) \<le> max_lost (rw_relay w)
    \<and> length (seen (rw_relay w)) \<le> 8192 \<and> length (queue_rows (rw_disk w)) \<le> 2 * m
    \<and> outstanding (rw_relay w) = int (length (pending (rw_relay w)))"
  using reached_relay [OF assms] relay_backlog.reach_inv [OF assms] disk_rows [of m "rw_disk w"]
  by (simp add: relay_inv_def fits_def SEEN_KEEP_def backlog_ok_def backlog_def)

theorem relay_memory_is_bounded_witness:
  "length (seen (rw_relay ex_rw1)) \<le> 8192 \<and> length (queue_rows (rw_disk ex_rw1)) \<le> 2 * 2"
  using relay_memory_is_bounded [OF ex_rw1_reach] by simp



text \<open>Every reconcile accounts for every record it set out to replay: it was relayed, its write failed and is counted as failed, or it was
  skipped as older than the newest \<open>max_reconcile\<close>.\<close>

theorem reconcile_accounts_for_every_record:
  assumes "audit_path (rw_relay w) \<noteq> None" and "relay_read_chain (r_sync e) None ad = Inr cv" and "resume cv w = (s, u)"
    and "reconcile e lg ad w = (Inr st, w')" and "0 \<le> max_reconcile (rw_relay w)"
  shows "int_val (dget st ''reconciled'') + int_val (dget st ''reconcile_skipped'') + int (rl_enqueue_failed (rw_relay w')) =
    int (length (pl_missed (reconcile_plan s cv u))) + int (rl_enqueue_failed (rw_relay w))"
proof -
  let ?missed = "pl_missed (reconcile_plan s cv u)"
  obtain st' n w1 s3 where rec: "reconcile e lg ad w = (Inr st', write_status e lg st' (w1\<lparr>rw_relay := s3\<rparr>))"
    "replay e lg (reconciled_durability (cv_synced cv)) True (pl_past (reconcile_plan s cv u)) (drop (skipped_of s ?missed) ?missed) (w\<lparr>rw_relay := s\<rparr>) = (n, w1)"
    "same_core (rw_relay w1) s3" "dget st' ''reconciled'' = PInt (int n)" "dget st' ''reconcile_skipped'' = PInt (int (skipped_of s ?missed))"
    by (rule reconcile_run [OF assms(1-3) refl])
  have "rl_enqueue_failed (rw_relay w') = rl_enqueue_failed (rw_relay w1)"
    using rec(1,3) assms(4) by (auto simp: same_core_def)
  moreover have "skipped_of s ?missed \<le> length ?missed" using assms(5) resume_frame [OF assms(3)] by (simp add: skipped_of_def)
  ultimately show ?thesis using replay_counts [OF rec(2)] rec(1,4,5) assms(4) resume_frame [OF assms(3)] by auto
qed

theorem reconcile_accounts_for_every_record_witness:
  "\<exists>st w'. reconcile ex_renv None ex_chain ex_rw = (Inr st, w')
    \<and> int_val (dget st ''reconciled'') + int_val (dget st ''reconcile_skipped'') + int (rl_enqueue_failed (rw_relay w')) = 1"
proof -
  have rs: "resume ex_view ex_rw = (fst (resume ex_view ex_rw), ex_cursors)" using ex_resume(1) by (simp add: prod_eq_iff)
  obtain st w' where "reconcile ex_renv None ex_chain ex_rw = (Inr st, w')" by (rule reconcile_run [OF ex_path(1) ex_read rs ex_missed [symmetric]])
  with reconcile_accounts_for_every_record [OF ex_path(1) ex_read rs this] ex_path(2,4) ex_missed show ?thesis by auto
qed

text \<open>A start alerts every decision it found missing: when the writes succeed, the queue has room and the chain holds no more than
  \<open>max_reconcile\<close> of them, each missed record has its alert on both channels in the file the reconcile leaves.\<close>

theorem reconcile_alerts_what_was_missed:
  assumes "reach (relay_initial m) (relay_step e) w" and "\<forall>n. io_works (r_io e n)" and "audit_path (rw_relay w) \<noteq> None"
    and "relay_read_chain (r_sync e) None ad = Inr cv" and "resume cv w = (s, u)" and "missed = pl_missed (reconcile_plan s cv u)"
    and "int (length missed) \<le> max_reconcile (rw_relay w)" and "length (queue_rows (rw_disk w)) + 2 * length missed + 1 \<le> 2 * m"
  shows "\<forall>r \<in> set missed. set (both_channels (text_of (dget r ''chain_hash''))) \<subseteq> set (alert_tags (queue_rows (rw_disk (snd (reconcile e lg ad w)))))"
  using missed_alerted [OF assms] .

theorem reconcile_alerts_what_was_missed_witness:
  "(PStr ''h1'', PStr ''voice'') \<in> set (alert_tags (queue_rows (rw_disk ex_rw1)))"
proof -
  have rs: "resume ex_view ex_rw = (fst (resume ex_view ex_rw), ex_cursors)" using ex_resume(1) by (simp add: prod_eq_iff)
  have "set (both_channels ''h1'') \<subseteq> set (alert_tags (queue_rows (rw_disk ex_rw1)))"
    using reconcile_alerts_what_was_missed [OF ex_rw_reach _ ex_path(1) ex_read rs ex_missed [symmetric], of None] ex_works ex_path(2,3) ex_p0(2)
    by (simp add: ex_rw1_def)
  then show ?thesis by (auto simp: both_channels_def CHANNELS_def)
qed

text \<open>C38. Every alert in the queue file of a reachable relay has the form its consumers rely on: a numbered row with the decision, its hash and its
  action as text, a known channel, a text to display, and a presentation, a stale mark and a voice urgency that agree.\<close>

theorem queued_alerts_are_well_formed:
  assumes "reach (relay_initial m) (relay_step e) w" and "r \<in> set (queue_rows (rw_disk w))" and "is_alert r"
  shows "alert_typed r"
  using typed_machine.reach_inv [OF assms(1)] assms(2,3) by (simp add: typed_inv_def)

theorem queued_alerts_are_well_formed_witness:
  "\<exists>r \<in> set (queue_rows (rw_disk ex_rw1)). is_alert r \<and> alert_typed r"
proof -
  have "alert_tags (queue_rows (rw_disk ex_rw1)) \<noteq> []" using ex_alerted by (auto simp: both_channels_def CHANNELS_def)
  then obtain r where "r \<in> set (queue_rows (rw_disk ex_rw1))" "is_alert r" by (auto simp: alert_tags_def filter_empty_conv)
  with queued_alerts_are_well_formed [OF ex_rw1_reach] show ?thesis by blast
qed

text \<open>C39. A stopped relay finishes: its thread goes round at most once for each record still handed over, relays each, and leaves the loop,
  whatever the state of the log and the outcome of the writes.\<close>

theorem stopped_relay_finishes:
  assumes "stopping (rw_relay w)" and "length (pending (rw_relay w)) \<le> length turns"
  shows "\<not> turn_enabled (run_turns e turns w) \<and> pending (rw_relay (run_turns e turns w)) = []"
  using assms
proof (induction e turns w rule: run_turns.induct)
  case (2 e lg ad now rest w)
  then show ?case
  proof (cases "pending (rw_relay w)")
    case (Cons it more)
    then have "turn_enabled w" by (simp add: turn_enabled_def)
    with 2 stopped_turn [OF 2(2) Cons, of e lg ad now] Cons show ?thesis by simp
  qed (simp add: turn_enabled_def)
qed (simp add: turn_enabled_def)

theorem stopped_relay_finishes_witness:
  "\<not> turn_enabled (run_turns ex_renv [(None, ex_chain, 0)] (stop_relay (ex_rw\<lparr>rw_relay := on_durable_record (PDict ex_decision) ''fsynced'' 5 (rw_relay ex_rw)\<rparr>)))"
  using stopped_relay_finishes [of "stop_relay (ex_rw\<lparr>rw_relay := on_durable_record (PDict ex_decision) ''fsynced'' 5 (rw_relay ex_rw)\<rparr>)" "[(None, ex_chain, 0)]" ex_renv]
  by (simp add: stop_relay_def on_durable_record_def ex_decision_def dict_simps ex_rw_def init_relay_def)

end
