(* ===== verification/CoreDecisions.thy ===== *)
theory CoreDecisions
  imports AlertRelay
begin

text \<open>
  The recorder of the Rust core's decisions (\<open>py/azazel_edge/notify/core_decisions.py\<close>): it writes each P0 decision of the core to the
  core decision chain, from where the relay alerts it.

  The recorder, the chain's logger and, when there is one, the relay whose queue takes the status records are one state, \<open>cworld\<close>.
  \<open>cenv\<close> holds what the surroundings answer: SHA-256, the date library, the text of a float and of a rounded age, and the system calls of the
  \<open>n\<close>-th record; the writes of the queue are those of the relay's \<open>renv\<close>. The core's event log is what a read of its tail finds, \<open>nlog\<close>.
\<close>

section \<open>Core events\<close>

definition CORE_EVENT_SOURCE :: string where "CORE_EVENT_SOURCE = ''suricata_eve''"
definition CORE_EVENT_PIPELINE :: string where "CORE_EVENT_PIPELINE = ''rust_event_engine_v1''"
definition CORE_DECISION_SOURCE :: string where "CORE_DECISION_SOURCE = ''azazel-edge-core''"
definition CORE_SEEN_MAX :: nat where "CORE_SEEN_MAX = 65536"

record cenv =
  c_sha :: "string \<Rightarrow> string"
  c_dates :: denv
  c_float_text :: "rat \<Rightarrow> string"
  c_age :: "rat \<Rightarrow> pyval"
  c_sys :: "nat \<Rightarrow> sys"

definition core_int :: "pyval \<Rightarrow> pyval" where
  "core_int v = (if is_int v then v else PNone)"

fun core_num :: "cenv \<Rightarrow> pyval \<Rightarrow> pyval" where
  "core_num c (PFloat (FFin q s)) = PFloat (FFin q s)"
| "core_num c v = (case finite_epoch v of None \<Rightarrow> PNone | Some q \<Rightarrow> PFloat (FFin q (c_float_text c q)))"

definition core_event_key :: "cenv \<Rightarrow> pydict \<Rightarrow> string" where
  "core_event_key c ev =
     (let n = dict_of (dget ev ''normalized''); d = dict_of (dget ev ''defense'')
      in c_sha c (json_text (PList [dget n ''ts'', dget n ''sid'', dget n ''src_ip'', dget n ''dst_ip'', dget n ''target_port'', dget n ''protocol'', dget d ''action''])))"

definition core_decision_payload :: "cenv \<Rightarrow> pyval \<Rightarrow> (string \<times> pydict) option" where
  "core_decision_payload c v =
     (let ev = dict_of v; defense = dget ev ''defense''; enforcement = dget ev ''enforcement'' in
      if \<not> is_dict v then None
      else if dget ev ''source'' \<noteq> PStr CORE_EVENT_SOURCE \<or> dget ev ''pipeline'' \<noteq> PStr CORE_EVENT_PIPELINE then None
      else if \<not> is_dict defense \<or> \<not> is_dict enforcement then None
      else
        (let de = dict_of defense; en = dict_of enforcement; decided = dget de ''action''; effective = dget en ''selected_action'' in
         if \<not> (is_text decided \<and> py_str decided \<noteq> [] \<and> is_text effective \<and> py_str effective \<noteq> []) then None
         else
           (let n = dict_of (dget ev ''normalized''); st = dict_of (dget ev ''enforcement_status''); key = core_event_key c ev;
                tx = (\<lambda>v. PStr (text_of v))
            in Some (''core-'' @ take 32 key,
                 [(''action'', effective),
                  (''decided_action'', decided),
                  (''effective_action'', effective),
                  (''reason'', tx (dget de ''reason'')),
                  (''policy_reason'', tx (py_or (dget en ''policy_reason'') (dget de ''policy_reason''))),
                  (''target'', tx (py_or (dget en ''target'') (dget de ''target''))),
                  (''enforcement_mode'', tx (dget en ''mode'')),
                  (''enforcement_result'', tx (dget en ''result'')),
                  (''enforcement_executed_count'', core_int (dget en ''executed_count'')),
                  (''enforcement_failed_count'', core_int (dget en ''failed_count'')),
                  (''enforce_enabled'', PBool (dget st ''enforce_enabled'' = PBool True)),
                  (''enforce_dry_run'', PBool (dget st ''dry_run'' = PBool True)),
                  (''enforce_level'', tx (dget st ''enforce_level'')),
                  (''core_pipeline'', PStr CORE_EVENT_PIPELINE),
                  (''core_event_key'', PStr key),
                  (''core_trace_id'', tx (dget en ''trace_id'')),
                  (''core_ingest_epoch'', core_num c (dget n ''ingest_epoch'')),
                  (''sid'', core_int (dget n ''sid'')),
                  (''severity'', core_int (dget n ''severity'')),
                  (''target_port'', core_int (dget n ''target_port'')),
                  (''event_ts'', tx (dget n ''ts''))]))))"

definition core_event_epoch :: "cenv \<Rightarrow> pydict \<Rightarrow> rat option" where
  "core_event_epoch c payload =
     (case event_ts_epoch (c_dates c) (dget payload ''event_ts'') of
        Some t \<Rightarrow> Some t
      | None \<Rightarrow> finite_epoch (dget payload ''core_ingest_epoch''))"

definition is_p0 :: "pydict \<Rightarrow> bool" where
  "is_p0 payload = (classify_p0 (AList.update ''kind'' (PStr ''action_decision'') payload) \<noteq> [])"

definition payload_key :: "pydict \<Rightarrow> string" where
  "payload_key payload = text_of (dget payload ''core_event_key'')"

section \<open>State\<close>

record recorder =
  c_has_log :: bool
  c_max_bytes :: nat
  c_key_bytes :: int
  c_max_reconcile :: int
  c_max_age :: rat
  c_pending_max :: nat
  c_pending :: "(string \<times> pydict) list"
  c_handoff_dropped :: nat
  c_record_failed :: nat
  c_duplicate :: nat
  c_recorded :: nat
  c_reconciled :: nat
  c_reconciled_stale :: nat
  c_loss_recovered :: nat
  c_loss_recovered_stale :: nat
  c_loss_unrecovered :: nat
  c_interval :: rat
  c_max_lost :: nat
  c_lost :: "string list"
  c_last_pass :: "rat option"
  c_reported :: "nat \<times> nat"
  c_forward_seen :: "int \<times> int"
  c_seen :: "string list"
  c_stopping :: bool
  c_stopped :: bool
  c_outstanding :: int

record cworld =
  cw_rec :: recorder
  cw_log :: alog
  cw_relay :: "rworld option"
  cw_tick :: nat

datatype nlog = LogMissing | LogUnreadable string | LogFile afile

definition init_recorder :: "bool \<Rightarrow> int \<Rightarrow> nat \<Rightarrow> int \<Rightarrow> int \<Rightarrow> rat \<Rightarrow> rat \<Rightarrow> int \<Rightarrow> recorder" where
  "init_recorder has_log mp mb kb mr age interval ml =
     \<lparr>c_has_log = has_log, c_max_bytes = mb, c_key_bytes = kb, c_max_reconcile = mr, c_max_age = age, c_pending_max = nat (max 1 mp), c_pending = [],
      c_handoff_dropped = 0, c_record_failed = 0, c_duplicate = 0, c_recorded = 0, c_reconciled = 0, c_reconciled_stale = 0, c_loss_recovered = 0,
      c_loss_recovered_stale = 0, c_loss_unrecovered = 0, c_interval = interval, c_max_lost = nat (max 1 ml), c_lost = [], c_last_pass = None,
      c_reported = (0, 0), c_forward_seen = (0, 0), c_seen = [], c_stopping = False, c_stopped = False, c_outstanding = 0\<rparr>"

section \<open>Intake\<close>

definition note_core_lost :: "string \<Rightarrow> recorder \<Rightarrow> recorder" where
  "note_core_lost k s =
     (let l = (if k \<in> set (c_lost s) then c_lost s else c_lost s @ [k]); n = length l - c_max_lost s
      in s\<lparr>c_lost := drop n l, c_loss_unrecovered := c_loss_unrecovered s + n\<rparr>)"

definition submit_core :: "cenv \<Rightarrow> int \<Rightarrow> pyval \<Rightarrow> pyval \<Rightarrow> recorder \<Rightarrow> recorder" where
  "submit_core c mono_ns now ev s =
     (case core_decision_payload c ev of
        None \<Rightarrow> s
      | Some (trace, payload) \<Rightarrow>
          if \<not> is_p0 payload then s
          else
            (let p = dupdate payload [(''agent_received_monotonic_ns'', PInt mono_ns), (''agent_received_epoch'', now), (''recorded_by'', PStr ''live'')]
             in if length (c_pending s) < c_pending_max s
                then s\<lparr>c_outstanding := c_outstanding s + 1, c_pending := c_pending s @ [(trace, p)]\<rparr>
                else note_core_lost (payload_key p) (s\<lparr>c_handoff_dropped := Suc (c_handoff_dropped s)\<rparr>)))"

section \<open>Status records\<close>

definition core_metrics :: "recorder \<Rightarrow> pydict" where
  "core_metrics s =
     (let n = (\<lambda>k. PInt (int k)) in
      [(''core_record_handoff_dropped_total'', n (c_handoff_dropped s)),
       (''core_record_failed_total'', n (c_record_failed s)),
       (''core_record_duplicate_total'', n (c_duplicate s)),
       (''core_recorded_total'', n (c_recorded s)),
       (''core_reconciled_total'', n (c_reconciled s)),
       (''core_reconciled_stale_total'', n (c_reconciled_stale s)),
       (''core_loss_recovered_total'', n (c_loss_recovered s)),
       (''core_loss_recovered_stale_total'', n (c_loss_recovered_stale s)),
       (''core_loss_unrecovered_total'', n (c_loss_unrecovered s))])"

definition core_status :: "renv \<Rightarrow> pydict \<Rightarrow> cworld \<Rightarrow> cworld" where
  "core_status e status w =
     (case cw_relay w of
        None \<Rightarrow> w
      | Some rw \<Rightarrow>
          (let (res, q, d) = append_status (r_io e (rw_tick rw)) (dupdate status (core_metrics (cw_rec w))) (rl_queue (rw_relay rw)) (rw_disk rw)
           in w\<lparr>cw_relay := Some \<lparr>rw_relay = (rw_relay rw)\<lparr>rl_queue := q\<rparr>, rw_disk = d, rw_tick = Suc (rw_tick rw)\<rparr>\<rparr>))"

definition note_forward_stats :: "renv \<Rightarrow> int \<Rightarrow> int \<Rightarrow> int \<Rightarrow> cworld \<Rightarrow> cworld" where
  "note_forward_stats e dn fl since w =
     (let quiet = ((dn, fl) = c_forward_seen (cw_rec w) \<or> \<not> (dn \<noteq> 0 \<or> fl \<noteq> 0));
          w1 = w\<lparr>cw_rec := (cw_rec w)\<lparr>c_forward_seen := (dn, fl)\<rparr>\<rparr>
      in if quiet then w1
         else core_status e
           [(''event'', PStr ''core_forward_loss''), (''core_forward_dropped'', PInt dn), (''core_forward_failed'', PInt fl), (''core_forward_since'', PInt since),
            (''note'', PStr (''the core could not forward this many events (any action) since it started; '' @
              ''the next agent start reconciles P0 decisions among them from the core's normalized event log''))] w1)"

definition core_loss_counters :: "recorder \<Rightarrow> nat \<times> nat" where
  "core_loss_counters s = (c_handoff_dropped s, c_record_failed s)"

definition report_core_losses :: "renv \<Rightarrow> cworld \<Rightarrow> cworld" where
  "report_core_losses e w =
     (let now = core_loss_counters (cw_rec w) in
      if now = c_reported (cw_rec w) then w
      else core_status e [(''event'', PStr ''core_record_loss'')] (w\<lparr>cw_rec := (cw_rec w)\<lparr>c_reported := now\<rparr>\<rparr>))"

section \<open>Recording\<close>

definition core_remember :: "string \<Rightarrow> recorder \<Rightarrow> recorder" where
  "core_remember k s =
     (let l = (if k \<in> set (c_seen s) then c_seen s else c_seen s @ [k]) in s\<lparr>c_seen := drop (length l - CORE_SEEN_MAX) l\<rparr>)"

definition core_record :: "cenv \<Rightarrow> string \<Rightarrow> pydict \<Rightarrow> cworld \<Rightarrow> bool \<times> cworld" where
  "core_record c trace payload w =
     (let s = cw_rec w; k = payload_key payload in
      if k \<noteq> [] \<and> k \<in> set (c_seen s) then (False, w\<lparr>cw_rec := s\<lparr>c_duplicate := Suc (c_duplicate s)\<rparr>\<rparr>)
      else
        (let (res, lg) = log_action_decision (c_sha c) (c_sys c (cw_tick w)) trace CORE_DECISION_SOURCE payload (cw_log w);
             keep = (\<lambda>s. if k \<noteq> [] then core_remember k s else s);
             w1 = w\<lparr>cw_log := lg, cw_tick := Suc (cw_tick w)\<rparr>
         in case res of
              Inr _ \<Rightarrow> (True, w1\<lparr>cw_rec := (keep s)\<lparr>c_recorded := Suc (c_recorded s)\<rparr>\<rparr>)
            | Inl x \<Rightarrow>
                (let appended = (x = OSError ''audit_record_not_durable'')
                 in (appended, w1\<lparr>cw_rec := (if appended then keep s else s)\<lparr>c_record_failed := Suc (c_record_failed s)\<rparr>\<rparr>))))"

section \<open>Reconcile\<close>

text \<open>\<open>_chain_keys\<close>: whether the whole chain was read, the oldest ingest time and the newest key.\<close>

definition chain_key_row :: "fline \<Rightarrow> rat option \<times> string \<times> recorder \<Rightarrow> rat option \<times> string \<times> recorder" where
  "chain_key_row l a =
     (case a of (oldest, newest, s) \<Rightarrow>
        (case line_dict l of
           None \<Rightarrow> a
         | Some row \<Rightarrow>
             (let k = dget row ''core_event_key'' in
              if is_text k \<and> py_str k \<noteq> []
              then (case finite_epoch (dget row ''core_ingest_epoch'') of
                      None \<Rightarrow> oldest
                    | Some t \<Rightarrow> (case oldest of None \<Rightarrow> Some t | Some u \<Rightarrow> if t < u then Some t else Some u),
                    py_str k, core_remember (py_str k) s)
              else a)))"

definition chain_keys :: "adir \<Rightarrow> recorder \<Rightarrow> bool \<times> rat option \<times> string \<times> recorder" where
  "chain_keys ad s =
     (let cv = read_chain (Some (c_key_bytes s)) None ad
      in (\<not> (cv_truncated cv \<or> cv_anchored cv), fold chain_key_row (cv_lines cv) (None, [], s)))"

definition mark_stale :: "cenv \<Rightarrow> rat \<Rightarrow> rat \<Rightarrow> pydict \<Rightarrow> bool \<times> pydict" where
  "mark_stale c max_age now payload =
     (let happened = core_event_epoch c payload in
      if (case happened of None \<Rightarrow> True | Some t \<Rightarrow> CLOCK_SKEW_TOLERANCE_S < t - now \<or> max_age < now - t)
      then (True, dupdate payload [(''reconcile_stale'', PBool True), (''reconcile_event_age_s'', case happened of None \<Rightarrow> PNone | Some t \<Rightarrow> c_age c (now - t))])
      else (False, payload))"

definition read_core_log :: "nlog \<Rightarrow> nat \<Rightarrow> string \<Rightarrow> pydict \<Rightarrow> fline list \<times> pydict" where
  "read_core_log nl mb key status =
     (case nl of
        LogMissing \<Rightarrow> ([], dupdate status [(key, PStr ''normalized_log_missing''), (''core_reconcile_log_truncated'', PBool False), (''core_reconcile_log_bytes'', PInt 0)])
      | LogUnreadable errno \<Rightarrow>
          ([], dupdate status [(key, PStr (''normalized_log_unreadable:'' @ errno)), (''core_reconcile_log_truncated'', PBool False), (''core_reconcile_log_bytes'', PInt 0)])
      | LogFile f \<Rightarrow>
          (read_window (min (file_size f) mb) f,
           dupdate status [(''core_reconcile_log_truncated'', PBool (mb < file_size f)), (''core_reconcile_log_bytes'', PInt (int (file_size f)))]))"

fun line_event :: "fline \<Rightarrow> pyval option" where
  "line_event (Row v) = Some v"
| "line_event (Junk _) = None"

definition line_payload :: "cenv \<Rightarrow> fline \<Rightarrow> (string \<times> pydict) option" where
  "line_payload c l = (case line_event l of None \<Rightarrow> None | Some v \<Rightarrow> core_decision_payload c v)"

text \<open>The record of a candidate: who recorded it, and whether it is past.\<close>

definition reconciled_payload :: "cenv \<Rightarrow> rat \<Rightarrow> rat \<Rightarrow> string \<Rightarrow> pydict \<Rightarrow> pydict" where
  "reconciled_payload c max_age now by payload = snd (mark_stale c max_age now (AList.update ''recorded_by'' (PStr by) payload))"

definition is_marked :: "pydict \<Rightarrow> bool" where
  "is_marked payload = (dget payload ''reconcile_stale'' = PBool True)"

fun core_replay :: "cenv \<Rightarrow> (string \<times> pydict) list \<Rightarrow> cworld \<Rightarrow> nat \<times> nat \<times> cworld" where
  "core_replay c [] w = (0, 0, w)"
| "core_replay c ((trace, p) # ps) w =
     (let (ok, w1) = core_record c trace p w; (n, k, w2) = core_replay c ps w1
      in (if ok then Suc n else n, if ok \<and> is_marked p then Suc k else k, w2))"

definition core_skipped :: "recorder \<Rightarrow> 'a list \<Rightarrow> nat" where
  "core_skipped s xs = nat (max 0 (int (length xs) - c_max_reconcile s))"

text \<open>The P0 decisions of the log the chain does not have, and those too old to tell.\<close>

definition fresh_payloads :: "cenv \<Rightarrow> recorder \<Rightarrow> fline list \<Rightarrow> (string \<times> pydict) list" where
  "fresh_payloads c s ls = filter (\<lambda>tp. is_p0 (snd tp) \<and> payload_key (snd tp) \<notin> set (c_seen s)) (List.map_filter (line_payload c) ls)"

definition out_of_window :: "bool \<Rightarrow> rat option \<Rightarrow> pydict \<Rightarrow> bool" where
  "out_of_window whole oldest payload =
     (\<not> whole \<and> (case oldest of None \<Rightarrow> False | Some u \<Rightarrow>
        (case finite_epoch (dget payload ''core_ingest_epoch'') of None \<Rightarrow> True | Some t \<Rightarrow> t < u)))"

definition core_reconcile_status :: "cenv \<Rightarrow> recorder \<Rightarrow> pydict" where
  "core_reconcile_status c s =
     [(''event'', PStr ''core_reconcile''), (''core_reconcile'', PStr ''done''), (''core_reconciled'', PInt 0), (''core_reconcile_skipped'', PInt 0),
      (''core_reconcile_out_of_window'', PInt 0), (''core_reconcile_unparseable'', PInt 0), (''core_reconcile_stale'', PInt 0), (''core_reconciled_stale'', PInt 0),
      (''core_reconcile_max_age_s'', PFloat (FFin (c_max_age s) (c_float_text c (c_max_age s)))),
      (''core_reconcile_log_truncated'', PBool False), (''core_reconcile_newest_chain_decision_in_log'', PNone)]"

definition core_reconcile :: "cenv \<Rightarrow> renv \<Rightarrow> rat \<Rightarrow> nlog \<Rightarrow> cworld \<Rightarrow> pydict \<times> cworld" where
  "core_reconcile c e now nl w =
     (let (whole, oldest, newest, s) = chain_keys (dir (cw_log w)) (cw_rec w);
          started = core_reconcile_status c s;
          w0 = w\<lparr>cw_rec := s\<rparr>
      in if \<not> c_has_log s
         then (let st = dupdate started [(''core_reconcile'', PStr ''no_normalized_log_path'')] in (st, core_status e st w0))
         else
           (let (ls, st0) = read_core_log nl (c_max_bytes s) ''core_reconcile'' started;
                fresh = fresh_payloads c s ls;
                late = filter (\<lambda>tp. out_of_window whole oldest (snd tp)) fresh;
                candidates = map (\<lambda>tp. (fst tp, reconciled_payload c (c_max_age s) now ''startup_reconcile'' (snd tp)))
                  (filter (\<lambda>tp. \<not> out_of_window whole oldest (snd tp)) fresh);
                skipped = core_skipped s candidates;
                (n, k, w1) = core_replay c (drop skipped candidates) w0;
                s1 = (cw_rec w1)\<lparr>c_reconciled := c_reconciled (cw_rec w1) + n, c_reconciled_stale := c_reconciled_stale (cw_rec w1) + k\<rparr>;
                st = dupdate st0
                  ([(''core_reconcile_unparseable'', PInt (int (length (filter (\<lambda>l. line_event l = None) ls)))),
                    (''core_reconcile_out_of_window'', PInt (int (length late))),
                    (''core_reconcile_stale'', PInt (int (length (filter (\<lambda>tp. is_marked (snd tp)) candidates))))]
                   @ (if newest = [] then []
                      else [(''core_reconcile_newest_chain_decision_in_log'', PBool (newest \<in> set (map (payload_key \<circ> snd) (List.map_filter (line_payload c) ls))))])
                   @ [(''core_reconcile_skipped'', PInt (int skipped)), (''core_reconciled'', PInt (int n)), (''core_reconciled_stale'', PInt (int k))])
            in (st, core_status e st (w1\<lparr>cw_rec := s1\<rparr>))))"

section \<open>Losses\<close>

text \<open>For each wanted key the first P0 decision of the log with it.\<close>

definition found_payloads :: "cenv \<Rightarrow> string list \<Rightarrow> fline list \<Rightarrow> (string \<times> string \<times> pydict) list" where
  "found_payloads c wanted ls =
     fold (\<lambda>tp a. let k = payload_key (snd tp) in if k \<in> set wanted \<and> map_of a k = None \<and> is_p0 (snd tp) then a @ [(k, tp)] else a)
       (List.map_filter (line_payload c) ls) []"

definition recover_core_losses :: "cenv \<Rightarrow> renv \<Rightarrow> rat \<Rightarrow> nlog \<Rightarrow> string list \<Rightarrow> cworld \<Rightarrow> pydict \<times> cworld" where
  "recover_core_losses c e now nl keys w =
     (let s = cw_rec w;
          n0 = (\<lambda>k. PInt (int k));
          started = [(''event'', PStr ''core_loss_reconcile''), (''core_loss_reconcile'', PStr ''done''), (''core_loss_keys'', n0 (length keys)), (''core_loss_recovered'', n0 0),
            (''core_loss_recovered_stale'', n0 0), (''core_loss_skipped'', n0 0), (''core_loss_not_found'', n0 0), (''core_loss_already_recorded'', n0 0),
            (''core_reconcile_max_age_s'', PFloat (FFin (c_max_age s) (c_float_text c (c_max_age s))))];
          (ls, st0) = (if \<not> c_has_log s then ([], dupdate started [(''core_loss_reconcile'', PStr ''no_normalized_log_path'')])
            else read_core_log nl (c_max_bytes s) ''core_loss_reconcile'' started);
          wanted = dedup keys;
          found = found_payloads c wanted ls;
          missing = length wanted - length found;
          fresh = filter (\<lambda>kp. fst kp \<notin> set (c_seen s)) found;
          candidates = map (\<lambda>kp. (fst (snd kp), reconciled_payload c (c_max_age s) now ''loss_reconcile'' (snd (snd kp)))) fresh;
          skipped = core_skipped s candidates;
          (n, k, w1) = core_replay c (drop skipped candidates) w;
          s1 = (cw_rec w1)\<lparr>c_loss_recovered := c_loss_recovered (cw_rec w1) + n, c_loss_recovered_stale := c_loss_recovered_stale (cw_rec w1) + k,
                 c_loss_unrecovered := c_loss_unrecovered (cw_rec w1) + skipped + missing\<rparr>;
          st = dupdate st0 [(''core_loss_not_found'', n0 missing), (''core_loss_already_recorded'', n0 (length found - length fresh)), (''core_loss_skipped'', n0 skipped),
            (''core_loss_recovered'', n0 n), (''core_loss_recovered_stale'', n0 k)]
      in (st, core_status e st (w1\<lparr>cw_rec := s1\<rparr>)))"

definition maybe_recover_core :: "cenv \<Rightarrow> renv \<Rightarrow> rat \<Rightarrow> rat \<Rightarrow> nlog \<Rightarrow> cworld \<Rightarrow> cworld" where
  "maybe_recover_core c e tick_s now nl w =
     (let s = cw_rec w in
      if c_stopping s then w
      else if (case c_last_pass s of None \<Rightarrow> False | Some t \<Rightarrow> tick_s - t < c_interval s) then w
      else if c_pending_max s div 2 < length (c_pending s) then w
      else if c_lost s = [] then w
      else snd (recover_core_losses c e now nl (c_lost s) (w\<lparr>cw_rec := s\<lparr>c_lost := [], c_last_pass := Some tick_s\<rparr>\<rparr>)))"

section \<open>The writer thread\<close>

definition core_turn :: "cenv \<Rightarrow> renv \<Rightarrow> rat \<Rightarrow> rat \<Rightarrow> nlog \<Rightarrow> cworld \<Rightarrow> cworld" where
  "core_turn c e tick_s now nl w =
     (let w1 = (case c_pending (cw_rec w) of
            [] \<Rightarrow> w
          | (trace, p) # rest \<Rightarrow>
              (let w0 = snd (core_record c trace p (w\<lparr>cw_rec := (cw_rec w)\<lparr>c_pending := rest\<rparr>\<rparr>))
               in w0\<lparr>cw_rec := (cw_rec w0)\<lparr>c_outstanding := c_outstanding (cw_rec w0) - 1\<rparr>\<rparr>))
      in maybe_recover_core c e tick_s now nl (report_core_losses e w1))"

definition core_turn_enabled :: "cworld \<Rightarrow> bool" where
  "core_turn_enabled w = (\<not> c_stopping (cw_rec w) \<or> c_pending (cw_rec w) \<noteq> [])"

text \<open>\<open>stop\<close>: ask the thread to end; then, once it ended or the wait timed out, count what is left.\<close>

definition ask_core_stop :: "cworld \<Rightarrow> cworld" where
  "ask_core_stop w = w\<lparr>cw_rec := (cw_rec w)\<lparr>c_stopping := True\<rparr>\<rparr>"

definition finish_core_stop :: "renv \<Rightarrow> cworld \<Rightarrow> int \<times> cworld" where
  "finish_core_stop e w =
     (let undrained = c_outstanding (cw_rec w)
      in if c_stopped (cw_rec w) then (undrained, w)
         else (undrained, core_status e [(''event'', PStr ''core_recorder_stopped''), (''core_record_undrained'', PInt undrained)]
           (w\<lparr>cw_rec := (cw_rec w)\<lparr>c_stopped := True\<rparr>\<rparr>)))"

end
