(* ===== verification/CoreDecisionsProperties.thy ===== *)
theory CoreDecisionsProperties
  imports CoreDecisions AuditChainProperties AlertRelayProperties
begin

text \<open>
  The recorder of core decisions: what it writes, that it writes each core event at most once, and that its startup reconcile records
  what the chain does not have.
\<close>

section \<open>Payloads\<close>

definition reserved_keys :: "string set" where
  "reserved_keys = {''kind'', ''ts'', ''trace_id'', ''source'', ''chain_prev'', ''chain_hash'', ''chain_id'', ''decision_trace''}"

text \<open>A payload the recorder logs: a keyed P0 decision that leaves the fields of the chain alone.\<close>

definition core_ok :: "pydict \<Rightarrow> bool" where
  "core_ok p = (distinct (map fst p) \<and> (\<exists>k. dget p ''core_event_key'' = PStr k) \<and> (\<exists>a \<in> set ENFORCEMENT_ACTIONS. dget p ''action'' = PStr a)
     \<and> (\<forall>x \<in> reserved_keys. \<not> has_key p x))"

lemma core_ok_update: "core_ok p \<Longrightarrow> k \<notin> insert ''core_event_key'' (insert ''action'' reserved_keys) \<Longrightarrow> core_ok (AList.update k v p)"
  by (auto simp: core_ok_def dget_update has_key_map_of map_of_update intro: distinct_update_keys)

lemma payload_core_ok:
  assumes "core_decision_payload c v = Some (t, p)" and "is_p0 p"
  shows "core_ok p"
proof -
  have shape: "distinct (map fst p) \<and> (\<exists>k. dget p ''core_event_key'' = PStr k) \<and> is_text (dget p ''action'') \<and> has_key p ''action'' \<and> (\<forall>x \<in> reserved_keys. \<not> has_key p x)"
    using assms(1) by (auto simp: core_decision_payload_def Let_def has_key_def dget_Cons reserved_keys_def split: if_splits)
  then obtain a where a: "dget p ''action'' = PStr a" by (cases "dget p ''action''") simp_all
  have "dget p ''decision_trace'' = PNone" using shape by (auto simp: reserved_keys_def has_key_map_of dget_def)
  then have "a \<in> set ENFORCEMENT_ACTIONS"
    using assms(2) shape a by (auto simp: is_p0_def classify_p0_def Let_def dget_update has_key_map_of map_of_update split: if_splits)
  with shape a show ?thesis by (auto simp: core_ok_def)
qed

text \<open>The record of a payload: its own fields, and those of the chain.\<close>

definition core_row :: "cenv \<Rightarrow> sys \<Rightarrow> string \<Rightarrow> pydict \<Rightarrow> alog \<Rightarrow> pydict" where
  "core_row c y trace p s =
     (let s1 = (if is_full s then rotate y s else s)
      in seal (c_sha c) (chain_record (sys_ts y) ''action_decision'' trace CORE_DECISION_SOURCE p (current_file s1 = None) s1))"

lemma row_field:
  assumes "core_ok p" and "k \<notin> reserved_keys"
  shows "dget (core_row c y trace p s) k = dget p k"
proof -
  have "map_of (rev p) = map_of p" using assms(1) by (intro map_of_inject_set [THEN iffD2]) (simp_all add: core_ok_def rev_map [symmetric])
  with assms(2) show ?thesis
    by (auto simp: core_row_def Let_def seal_def chain_record_def dget_def map_of_update map_of_delete map_of_dupdate reserved_keys_def split: option.split)
qed

lemma row_kind:
  assumes "core_ok p"
  shows "dget (core_row c y trace p s) ''kind'' = PStr ''action_decision''"
proof -
  have "map_of p ''kind'' = None" using assms by (auto simp: core_ok_def reserved_keys_def has_key_map_of)
  then have "map_of (rev p) ''kind'' = None" by (rule map_of_rev_None)
  then show ?thesis by (simp add: core_row_def Let_def seal_def chain_record_def dget_def map_of_update map_of_delete map_of_dupdate)
qed

lemma row_p0:
  assumes "core_ok p"
  shows "classify_p0 (core_row c y trace p s) \<noteq> []"
proof -
  obtain a where "a \<in> set ENFORCEMENT_ACTIONS" "dget (core_row c y trace p s) ''action'' = PStr a"
    using assms row_field [OF assms, of "''action''"] by (auto simp: core_ok_def reserved_keys_def)
  then show ?thesis using row_kind [OF assms] by (simp add: classify_p0_def Let_def)
qed

section \<open>The retained chain\<close>

definition chain_rows :: "alog \<Rightarrow> pydict list" where
  "chain_rows s = (case rotated s of None \<Rightarrow> [] | Some f \<Rightarrow> parse_rows (flines f)) @ (case current_file s of None \<Rightarrow> [] | Some f \<Rightarrow> parse_rows (flines f))"

definition whole_lines :: "alog \<Rightarrow> bool" where
  "whole_lines s = (\<forall>f. current_file s = Some f \<longrightarrow> torn f = None)"

lemma rotate_rows: "\<exists>old. subseq old (chain_rows s) \<and> chain_rows (rotate y s) = old"
  by (auto simp: rotate_def chain_rows_def split: option.splits)

lemma rotate_whole: "whole_lines s \<Longrightarrow> whole_lines (rotate y s)"
  by (auto simp: rotate_def whole_lines_def)

lemma append_rows:
  assumes "whole_lines s"
  shows "chain_rows (written sha r s) = chain_rows s @ [r]" and "whole_lines (written sha r s)"
  using assms by (auto simp: chain_rows_def written_def append_line_def whole_lines_def split: option.splits)

text \<open>What a call of \<open>log_action_decision\<close> does to the chain: the retained rows may lose a first part; the row is added exactly when the call
  succeeds or reports that only the sync failed.\<close>

lemma log_rows:
  assumes "log_action_decision (c_sha c) y trace CORE_DECISION_SOURCE p s = (res, s')" and "whole_lines s"
  shows "whole_lines s' \<and> (\<exists>old. subseq old (chain_rows s) \<and>
    chain_rows s' = old @ (if (\<exists>r. res = Inr r) \<or> res = Inl (OSError ''audit_record_not_durable'') then [core_row c y trace p s] else [])
    \<and> (\<forall>r. res = Inr r \<longrightarrow> r = core_row c y trace p s) \<and> (\<not> is_full s \<longrightarrow> old = chain_rows s))"
proof -
  define s1 where "s1 = (if is_full s then rotate y s else s)"
  define r1 where "r1 = core_row c y trace p s"
  have w1: "whole_lines s1" using assms(2) rotate_whole by (simp add: s1_def)
  obtain old where old: "subseq old (chain_rows s)" "chain_rows s1 = old" "\<not> is_full s \<longrightarrow> old = chain_rows s"
    using rotate_rows [of s y] by (cases "is_full s") (auto simp: s1_def)
  show ?thesis
  proof (cases "append_ok y")
    case False
    then have "res = Inl (OSError [])" "s' = s1"
      using assms(1) by (auto simp: log_action_decision_def log_audit_def log_reporting_durability_def VALID_KINDS_def Let_def s1_def)
    with w1 old show ?thesis by auto
  next
    case True
    obtain rs s2 where st: "settle y ''action_decision'' (current_file s1 = None) r1 (written (c_sha c) r1 s1) = (rs, s2)"
      by (cases "settle y ''action_decision'' (current_file s1 = None) r1 (written (c_sha c) r1 s1)")
    have r1: "seal (c_sha c) (chain_record (sys_ts y) ''action_decision'' trace CORE_DECISION_SOURCE p (current_file s1 = None) s1) = r1"
      by (simp add: r1_def core_row_def Let_def s1_def)
    have "log_reporting_durability (c_sha c) y ''action_decision'' trace CORE_DECISION_SOURCE p s = (rs, s2)"
      using True st unfolding log_reporting_durability_def Let_def s1_def [symmetric] r1 by (simp add: VALID_KINDS_def written_def)
    then have set: "settle y ''action_decision'' (current_file s1 = None) r1 (written (c_sha c) r1 s1) = (rs, s')"
      "res = (case rs of Inl e \<Rightarrow> Inl e | Inr rd \<Rightarrow> Inr (fst rd))"
      using assms(1) st by (simp_all add: log_action_decision_def log_audit_def)
    have "dir s' = dir (written (c_sha c) r1 s1)" using settle_simps(1) [of y "''action_decision''" "current_file s1 = None" r1 "written (c_sha c) r1 s1"] set(1) by simp
    then have "chain_rows s' = old @ [r1]" "whole_lines s'" using append_rows [OF w1, of "c_sha c" r1] old(2) by (simp_all add: chain_rows_def whole_lines_def)
    moreover have "(\<exists>d. rs = Inr (r1, d)) \<or> rs = Inl (OSError ''audit_record_not_durable'')"
      using set(1) by (auto simp: settle_def DURABLE_KINDS_def split: sync.splits)
    ultimately show ?thesis using old(1,3) set(2) by (auto simp: r1_def)
  qed
qed

section \<open>Candidates\<close>

lemma reconciled_ok: "core_ok p \<Longrightarrow> core_ok (reconciled_payload c a now who p)"
  by (simp add: reconciled_payload_def mark_stale_def Let_def dupdate_simps core_ok_update reserved_keys_def)

lemma line_payload_ok: "line_payload c l = Some tp \<Longrightarrow> is_p0 (snd tp) \<Longrightarrow> core_ok (snd tp)"
  by (cases tp) (auto simp: line_payload_def dest: payload_core_ok split: option.splits)

lemma in_map_filter: "x \<in> set (List.map_filter f xs) \<longleftrightarrow> (\<exists>y \<in> set xs. f y = Some x)"
  by (force simp: List.map_filter_def)

lemma fresh_candidates: "list_all (\<lambda>tp. core_ok (snd tp)) (drop k (map (\<lambda>tp. (fst tp, reconciled_payload c a now who (snd tp))) (filter P (fresh_payloads c s ls))))"
  by (auto simp: list_all_iff fresh_payloads_def in_map_filter dest!: in_set_dropD intro!: reconciled_ok dest: line_payload_ok)

lemma found_p0: "kp \<in> set (found_payloads c wanted ls) \<Longrightarrow> core_ok (snd (snd kp))"
proof -
  let ?f = "\<lambda>tp a. let k = payload_key (snd tp) in if k \<in> set wanted \<and> map_of a k = None \<and> is_p0 (snd tp) then a @ [(k, tp)] else a"
  have step: "\<forall>kp \<in> set (fold ?f tps a). core_ok (snd (snd kp))" if "\<forall>kp \<in> set a. core_ok (snd (snd kp))" "\<forall>tp \<in> set tps. is_p0 (snd tp) \<longrightarrow> core_ok (snd tp)" for tps a
    using that
  proof (induction tps arbitrary: a)
    case (Cons tp tps)
    have "\<forall>kp \<in> set (?f tp a). core_ok (snd (snd kp))" using Cons.prems by (auto simp: Let_def)
    from Cons.IH [OF this] Cons.prems(2) show ?case by simp
  qed simp
  have ok: "\<forall>tp \<in> set (List.map_filter (line_payload c) ls). is_p0 (snd tp) \<longrightarrow> core_ok (snd tp)"
    using line_payload_ok by (auto simp: in_map_filter)
  have "\<forall>kp \<in> set (found_payloads c wanted ls). core_ok (snd (snd kp))" unfolding found_payloads_def by (rule step [OF _ ok]) simp
  then show "kp \<in> set (found_payloads c wanted ls) \<Longrightarrow> core_ok (snd (snd kp))" by blast
qed

lemma found_candidates: "list_all (\<lambda>tp. core_ok (snd tp))
    (drop k (map (\<lambda>kp. (fst (snd kp), reconciled_payload c a now who (snd (snd kp)))) (filter P (found_payloads c wanted ls))))"
  by (auto simp: list_all_iff dest!: in_set_dropD intro!: reconciled_ok dest: found_p0)

section \<open>Invariants of the recorder\<close>

definition payloads_ok :: "recorder \<Rightarrow> bool" where
  "payloads_ok s = list_all (\<lambda>tp. core_ok (snd tp)) (c_pending s)"

inductive core_step :: "cenv \<Rightarrow> renv \<Rightarrow> cworld \<Rightarrow> cworld \<Rightarrow> bool" for c e where
  core_submits: "core_step c e w (w\<lparr>cw_rec := submit_core c ns now ev (cw_rec w)\<rparr>)"
| core_starts: "core_step c e w (snd (core_reconcile c e now nl w))"
| core_turns: "core_turn_enabled w \<Longrightarrow> core_step c e w (core_turn c e tick_s now nl w)"
| core_forwards: "core_step c e w (note_forward_stats e dn fl since w)"
| core_asks_stop: "core_step c e w (ask_core_stop w)"
| core_ends_stop: "core_step c e w (snd (finish_core_stop e w))"
| core_relays: "core_step c e w (w\<lparr>cw_relay := rw\<rparr>)"
| core_dispatches: "core_step c e w (w\<lparr>cw_log := snd (dispatch_durable (cw_log w))\<rparr>)"

text \<open>
  An invariant of recording a well-formed payload, of writing a status, of reading the chain's keys, of the logger's dispatcher and of changes that leave
  the recorded keys alone is an invariant of every step: intake, reconcile, loss recovery, turns and stop, with the relay at work beside them.
\<close>

locale core_invariant =
  fixes c :: cenv
    and e :: renv
    and inv :: "cworld \<Rightarrow> bool"
  assumes inv_record: "inv w \<Longrightarrow> core_ok p \<Longrightarrow> inv (snd (core_record c trace p w))"
    and inv_relay_any: "inv w \<Longrightarrow> inv (w\<lparr>cw_relay := rw\<rparr>)"
    and inv_log: "inv w \<Longrightarrow> inv (w\<lparr>cw_log := snd (dispatch_durable (cw_log w))\<rparr>)"
    and inv_rec: "inv w \<Longrightarrow> c_seen s = c_seen (cw_rec w) \<Longrightarrow> payloads_ok s \<Longrightarrow> inv (w\<lparr>cw_rec := s\<rparr>)"
    and inv_payloads: "inv w \<Longrightarrow> payloads_ok (cw_rec w)"
    and inv_keys: "inv w \<Longrightarrow> chain_keys (dir (cw_log w)) (cw_rec w) = (b, o', n, s) \<Longrightarrow> inv (w\<lparr>cw_rec := s\<rparr>)"
begin

lemma inv_same: "inv w \<Longrightarrow> c_seen s = c_seen (cw_rec w) \<Longrightarrow> c_pending s = c_pending (cw_rec w) \<Longrightarrow> inv (w\<lparr>cw_rec := s\<rparr>)"
  using inv_rec [of w s] inv_payloads [of w] by (simp add: payloads_ok_def)

lemma inv_cstatus: "inv w \<Longrightarrow> inv (core_status e st w)"
  by (auto simp: core_status_def Let_def case_prod_beta inv_relay_any split: option.split)

lemma inv_creplay: "inv w \<Longrightarrow> list_all (\<lambda>tp. core_ok (snd tp)) ps \<Longrightarrow> inv (snd (snd (core_replay c ps w)))"
proof (induction ps arbitrary: w)
  case (Cons tp ps)
  obtain trace p where tp: "tp = (trace, p)" by (cases tp)
  have "inv (snd (core_record c trace p w))" using Cons.prems by (intro inv_record) (simp_all add: tp)
  from Cons.IH [OF this] Cons.prems(2) show ?case by (simp add: tp case_prod_beta Let_def)
qed simp

lemma inv_csubmit: "inv w \<Longrightarrow> inv (w\<lparr>cw_rec := submit_core c ns now ev (cw_rec w)\<rparr>)"
proof -
  assume inv: "inv w"
  have ok: "core_ok (dupdate p [(''agent_received_monotonic_ns'', PInt ns), (''agent_received_epoch'', now), (''recorded_by'', PStr ''live'')])"
    if "core_decision_payload c ev = Some (t, p)" "is_p0 p" for t p
    using payload_core_ok [OF that] by (simp add: dupdate_simps core_ok_update reserved_keys_def)
  have pl: "payloads_ok (cw_rec w)" by (rule inv_payloads [OF inv])
  have "payloads_ok (submit_core c ns now ev (cw_rec w)) \<and> c_seen (submit_core c ns now ev (cw_rec w)) = c_seen (cw_rec w)"
    using pl ok by (auto simp: submit_core_def payloads_ok_def note_core_lost_def Let_def split: option.split)
  then show ?thesis by (intro inv_rec [OF inv]) simp_all
qed

lemma inv_creport: "inv w \<Longrightarrow> inv (report_core_losses e w)"
  by (simp add: report_core_losses_def Let_def inv_cstatus inv_same)

lemma inv_crecover: "inv w \<Longrightarrow> inv (snd (recover_core_losses c e now nl keys w))"
proof -
  assume inv: "inv w"
  have "inv (snd (snd (core_replay c (drop k (map (\<lambda>kp. (fst (snd kp), reconciled_payload c a now who (snd (snd kp)))) (filter P (found_payloads c wanted ls)))) w)))" for k a who P wanted ls
    by (intro inv_creplay [OF inv] found_candidates)
  then show ?thesis
    unfolding recover_core_losses_def Let_def by (auto simp: case_prod_beta intro!: inv_cstatus inv_same)
qed

lemma inv_creconcile: "inv w \<Longrightarrow> inv (snd (core_reconcile c e now nl w))"
proof -
  assume inv: "inv w"
  obtain whole oldest newest s where ks: "chain_keys (dir (cw_log w)) (cw_rec w) = (whole, oldest, newest, s)" by (metis prod_cases4)
  note w0 = inv_keys [OF inv ks]
  have "inv (snd (snd (core_replay c (drop k (map (\<lambda>tp. (fst tp, reconciled_payload c a now who (snd tp))) (filter P (fresh_payloads c s ls)))) (w\<lparr>cw_rec := s\<rparr>))))" for k a who P ls
    by (intro inv_creplay [OF w0] fresh_candidates)
  with w0 show ?thesis
    unfolding core_reconcile_def Let_def ks by (auto simp: case_prod_beta intro!: inv_cstatus inv_same)
qed

lemma inv_cturn:
  assumes "inv w"
  shows "inv (core_turn c e tick_s now nl w)"
proof -
  have "inv (snd (core_record c trace p (w\<lparr>cw_rec := (cw_rec w)\<lparr>c_pending := rest\<rparr>\<rparr>)))" if "c_pending (cw_rec w) = (trace, p) # rest" for trace p rest
    using that inv_payloads [OF assms] by (intro inv_record inv_rec [OF assms]) (simp_all add: payloads_ok_def)
  then have "inv (case c_pending (cw_rec w) of [] \<Rightarrow> w | (trace, p) # rest \<Rightarrow>
      (let w0 = snd (core_record c trace p (w\<lparr>cw_rec := (cw_rec w)\<lparr>c_pending := rest\<rparr>\<rparr>)) in w0\<lparr>cw_rec := (cw_rec w0)\<lparr>c_outstanding := c_outstanding (cw_rec w0) - 1\<rparr>\<rparr>))"
    using assms by (auto simp: Let_def split: list.split prod.split intro!: inv_same)
  note w1 = inv_creport [OF this]
  have "inv (maybe_recover_core c e tick_s now nl v)" if "inv v" for v
    using that by (auto simp: maybe_recover_core_def Let_def intro!: inv_crecover inv_same)
  with w1 show ?thesis by (simp add: core_turn_def)
qed

lemma inv_cmachine: "inv w \<Longrightarrow> core_step c e w w' \<Longrightarrow> inv w'"
proof (erule core_step.cases, goal_cases)
  case 1
  then show ?case by (simp add: inv_csubmit)
next
  case 2
  then show ?case by (simp add: inv_creconcile)
next
  case 3
  then show ?case by (simp add: inv_cturn)
next
  case 4
  then show ?case by (simp add: note_forward_stats_def Let_def inv_cstatus inv_same)
next
  case 5
  then show ?case by (simp add: ask_core_stop_def inv_same)
next
  case 6
  then show ?case by (simp add: finish_core_stop_def Let_def inv_cstatus inv_same)
next
  case 7
  then show ?case by (simp add: inv_relay_any)
next
  case 8
  then show ?case by (simp add: inv_log)
qed

end

section \<open>One record per core event\<close>

definition core_keys :: "pydict list \<Rightarrow> string list" where
  "core_keys rows = filter (\<lambda>k. k \<noteq> []) (List.map_filter (\<lambda>r. case dget r ''core_event_key'' of PStr k \<Rightarrow> Some k | _ \<Rightarrow> None) rows)"

lemma core_keys_append [simp]: "core_keys (a @ b) = core_keys a @ core_keys b"
  by (simp add: core_keys_def List.map_filter_def)

lemma core_keys_Nil [simp]: "core_keys [] = []"
  by (simp add: core_keys_def List.map_filter_def)

lemma core_keys_one: "core_keys [r] = (case dget r ''core_event_key'' of PStr k \<Rightarrow> if k = [] then [] else [k] | _ \<Rightarrow> [])"
  by (simp add: core_keys_def List.map_filter_def split: pyval.split)

lemma core_keys_subseq: "subseq old rows \<Longrightarrow> subseq (core_keys old) (core_keys rows)"
  unfolding core_keys_def List.map_filter_def comp_def by (intro subseq_filter subseq_map)

lemma core_keys_in: "r \<in> set rows \<Longrightarrow> dget r ''core_event_key'' = PStr k \<Longrightarrow> k \<noteq> [] \<Longrightarrow> k \<in> set (core_keys rows)"
  by (force simp: core_keys_def in_map_filter)

text \<open>The chain has at most one rotated file.\<close>

definition one_segment :: "alog \<Rightarrow> bool" where
  "one_segment s = (\<forall>n \<ge> 2. seg (dir s) n = None)"

lemma log_one_segment: "log_action_decision sha y trace source p s = (res, s') \<Longrightarrow> one_segment s \<Longrightarrow> one_segment s'"
proof -
  assume l: "log_action_decision sha y trace source p s = (res, s')" and s: "one_segment s"
  have "one_segment (log_step sha y ''action_decision'' trace source p s)"
    using s by (auto simp: log_step_eq Let_def one_segment_def written_def rotate_def)
  moreover have "s' = log_step sha y ''action_decision'' trace source p s"
    using l by (auto simp: log_action_decision_def log_audit_def log_step_def case_prod_beta Let_def)
  ultimately show "one_segment s'" by simp
qed

definition recorder_inv :: "cworld \<Rightarrow> bool" where
  "recorder_inv w = (payloads_ok (cw_rec w) \<and> whole_lines (cw_log w) \<and> one_segment (cw_log w) \<and> (cw_tick w \<le> CORE_SEEN_MAX \<longrightarrow>
     length (c_seen (cw_rec w)) \<le> cw_tick w \<and> distinct (core_keys (chain_rows (cw_log w))) \<and> set (core_keys (chain_rows (cw_log w))) \<subseteq> set (c_seen (cw_rec w))))"

lemma core_remember_new: "length (c_seen s) < CORE_SEEN_MAX \<Longrightarrow> k \<notin> set (c_seen s) \<Longrightarrow> core_remember k s = s\<lparr>c_seen := c_seen s @ [k]\<rparr>"
  by (simp add: core_remember_def)

lemma core_remember_known: "length (c_seen s) \<le> CORE_SEEN_MAX \<Longrightarrow> k \<in> set (c_seen s) \<Longrightarrow> core_remember k s = s"
  by (simp add: core_remember_def)

lemma core_remember_pending [simp]: "c_pending (core_remember k s) = c_pending s"
  by (simp add: core_remember_def Let_def)

lemma recorder_inv_record:
  assumes inv: "recorder_inv w" and p: "core_ok p"
  shows "recorder_inv (snd (core_record c trace p w))"
proof -
  obtain k where k: "dget p ''core_event_key'' = PStr k" using p by (auto simp: core_ok_def)
  then have key: "payload_key p = k" by (cases k) (simp_all add: payload_key_def text_of_def py_or_def)
  show ?thesis
  proof (cases "k \<noteq> [] \<and> k \<in> set (c_seen (cw_rec w))")
    case True
    with inv key show ?thesis by (simp add: core_record_def recorder_inv_def payloads_ok_def Let_def)
  next
    case False
    let ?y = "c_sys c (cw_tick w)"
    obtain res lg where lg: "log_action_decision (c_sha c) ?y trace CORE_DECISION_SOURCE p (cw_log w) = (res, lg)"
      by (cases "log_action_decision (c_sha c) ?y trace CORE_DECISION_SOURCE p (cw_log w)")
    let ?in = "(\<exists>r. res = Inr r) \<or> res = Inl (OSError ''audit_record_not_durable'')"
    have wl: "whole_lines (cw_log w)" "one_segment (cw_log w)" using inv by (simp_all add: recorder_inv_def)
    obtain old where old: "subseq old (chain_rows (cw_log w))" "whole_lines lg"
      "chain_rows lg = old @ (if ?in then [core_row c ?y trace p (cw_log w)] else [])" using log_rows [OF lg wl(1)] by blast
    have seg: "one_segment lg" using log_one_segment [OF lg wl(2)] .
    have "dget (core_row c ?y trace p (cw_log w)) ''core_event_key'' = PStr k" using row_field [OF p] k by (simp add: reserved_keys_def)
    then have keys: "core_keys (chain_rows lg) = core_keys old @ (if ?in \<and> k \<noteq> [] then [k] else [])" by (simp add: old(3) core_keys_one)
    have subs: "subseq (core_keys old) (core_keys (chain_rows (cw_log w)))" by (rule core_keys_subseq [OF old(1)])
    define s where "s = (if ?in \<and> k \<noteq> [] then core_remember k (cw_rec w) else cw_rec w)"
    have w': "c_seen (cw_rec (snd (core_record c trace p w))) = c_seen s" "c_pending (cw_rec (snd (core_record c trace p w))) = c_pending (cw_rec w)"
      "cw_log (snd (core_record c trace p w)) = lg" "cw_tick (snd (core_record c trace p w)) = Suc (cw_tick w)"
      using False key lg by (auto simp: core_record_def Let_def s_def split: sum.split)
    have "length (c_seen s) \<le> Suc (cw_tick w) \<and> distinct (core_keys (chain_rows lg)) \<and> set (core_keys (chain_rows lg)) \<subseteq> set (c_seen s)"
      if "Suc (cw_tick w) \<le> CORE_SEEN_MAX"
    proof -
      have before: "length (c_seen (cw_rec w)) \<le> cw_tick w" "distinct (core_keys (chain_rows (cw_log w)))"
        "set (core_keys (chain_rows (cw_log w))) \<subseteq> set (c_seen (cw_rec w))" using inv that by (simp_all add: recorder_inv_def)
      have s: "c_seen s = (if ?in \<and> k \<noteq> [] then c_seen (cw_rec w) @ [k] else c_seen (cw_rec w))"
        using False before(1) that by (auto simp: s_def core_remember_new)
      have "distinct (core_keys old)" "set (core_keys old) \<subseteq> set (c_seen (cw_rec w))"
        using subseq_distinct [OF subs before(2)] subseq_set [OF subs] before(3) by auto
      then show ?thesis using False before(1) by (auto simp: keys s)
    qed
    with inv old(2) seg w' show ?thesis by (simp add: recorder_inv_def payloads_ok_def)
  qed
qed

text \<open>Every line a reader of the chain gets is a line of one of its files.\<close>

lemma lines_within_in: "set (lines_within r ls) \<subseteq> set ls"
  by (induction r ls rule: lines_within.induct) auto

lemma read_window_in: "set (read_window n f) \<subseteq> set (flines f)"
proof -
  let ?l = "rev (lines_within (n - torn_size f) (rev (flines f)))"
  have l: "set ?l \<subseteq> set (flines f)" using lines_within_in [of "n - torn_size f" "rev (flines f)"] by simp
  have "set (tl ?l) \<subseteq> set ?l" by (cases ?l) auto
  from order_trans [OF this l] l show ?thesis unfolding read_window_def Let_def by simp
qed

lemma read_parts_in: "set (fst (read_parts b fs)) \<subseteq> (\<Union>f \<in> set fs. set (flines f))"
proof (induction b fs rule: read_parts.induct)
  case (3 b f fs)
  then show ?case using read_window_in [of "min (file_size f) b" f] by (auto simp: Let_def)
qed auto

lemma link_older_in: "set (link_older f fs) \<subseteq> set fs"
proof (induction f fs rule: link_older.induct)
  case (2 newer f fs)
  then show ?case by (cases "head_row newer") auto
qed simp

lemma linked_in: "set (linked_files fs) \<subseteq> set fs"
proof (cases fs)
  case (Cons f gs)
  then show ?thesis
  proof (cases gs)
    case (Cons g rest)
    with \<open>fs = f # gs\<close> link_older_in [of g rest] link_older_in [of f "g # rest"] show ?thesis by (auto simp: linked_files_def)
  qed (simp add: linked_files_def)
qed (simp add: linked_files_def)

lemma segs_in: "f \<in> set (segs_from sg k n) \<Longrightarrow> \<exists>j \<ge> k. sg j = Some f"
proof (induction sg k n rule: segs_from.induct)
  case (2 sg k n)
  then show ?case by (cases "sg k") (auto dest: Suc_leD)
qed simp

lemma chain_line_rows:
  assumes "one_segment s" and "l \<in> set (cv_lines (read_chain mb sy (dir s)))" and "line_dict l = Some row"
  shows "row \<in> set (chain_rows s)"
proof -
  from assms(2) obtain f where f: "f \<in> set (fst (open_snapshot (dir s)))" "l \<in> set (flines f)"
    using read_parts_in linked_in by (fastforce simp: read_chain_def Let_def)
  then have "current_file s = Some f \<or> (\<exists>j \<ge> 1. seg (dir s) j = Some f)"
    by (auto simp: open_snapshot_def Let_def split: option.splits dest: segs_in)
  moreover have "j = 1" if "seg (dir s) j = Some f" "1 \<le> j" for j
    using assms(1) that by (cases "j = 1") (auto simp: one_segment_def)
  ultimately have "current_file s = Some f \<or> rotated s = Some f" by auto
  then show ?thesis using f(2) assms(3) by (auto simp: chain_rows_def parse_rows_def in_map_filter)
qed

lemma key_row_known:
  assumes "\<And>row k. line_dict l = Some row \<Longrightarrow> dget row ''core_event_key'' = PStr k \<Longrightarrow> k \<noteq> [] \<Longrightarrow> k \<in> set (c_seen s)" and "length (c_seen s) \<le> CORE_SEEN_MAX"
  shows "snd (snd (chain_key_row l (old, new, s))) = s"
proof (cases "line_dict l")
  case (Some row)
  then show ?thesis
    using assms(1) [OF Some] core_remember_known [OF assms(2)]
    by (cases "dget row ''core_event_key''") (auto simp: chain_key_row_def Let_def)
qed (simp add: chain_key_row_def)

lemma keys_known:
  assumes "\<And>l row k. l \<in> set ls \<Longrightarrow> line_dict l = Some row \<Longrightarrow> dget row ''core_event_key'' = PStr k \<Longrightarrow> k \<noteq> [] \<Longrightarrow> k \<in> set (c_seen s)"
    and "length (c_seen s) \<le> CORE_SEEN_MAX"
  shows "snd (snd (fold chain_key_row ls (old, new, s))) = s"
  using assms(1)
proof (induction ls arbitrary: old new)
  case (Cons l ls)
  obtain o1 n1 s1 where a: "chain_key_row l (old, new, s) = (o1, n1, s1)" by (metis prod_cases3)
  with key_row_known [of l s old new] Cons.prems assms(2) have "s1 = s" by fastforce
  moreover have "snd (snd (fold chain_key_row ls (o1, n1, s))) = s" by (rule Cons.IH) (use Cons.prems in auto)
  ultimately show ?case using a by simp
qed simp

lemma keys_pending: "c_pending (snd (snd (fold chain_key_row ls a))) = c_pending (snd (snd a))"
proof (induction ls arbitrary: a)
  case (Cons l ls)
  have "c_pending (snd (snd (chain_key_row l a))) = c_pending (snd (snd a))"
    by (cases a) (simp add: chain_key_row_def Let_def split: option.split)
  with Cons show ?case by simp
qed simp

lemma keys_same:
  assumes inv: "recorder_inv w" and "cw_tick w \<le> CORE_SEEN_MAX" and ks: "chain_keys (dir (cw_log w)) (cw_rec w) = (b, old, new, s)"
  shows "s = cw_rec w"
proof -
  let ?ls = "cv_lines (read_chain (Some (c_key_bytes (cw_rec w))) None (dir (cw_log w)))"
  have "snd (snd (fold chain_key_row ?ls (None, [], cw_rec w))) = cw_rec w"
  proof (rule keys_known)
    show "k \<in> set (c_seen (cw_rec w))" if "l \<in> set ?ls" "line_dict l = Some row" "dget row ''core_event_key'' = PStr k" "k \<noteq> []" for l row k
      using chain_line_rows [OF _ that(1,2)] core_keys_in [OF _ that(3,4)] inv assms(2) by (auto simp: recorder_inv_def)
    show "length (c_seen (cw_rec w)) \<le> CORE_SEEN_MAX" using inv assms(2) by (simp add: recorder_inv_def)
  qed
  then show ?thesis using ks by (simp add: chain_keys_def Let_def)
qed

lemma recorder_inv_keys:
  assumes inv: "recorder_inv w" and ks: "chain_keys (dir (cw_log w)) (cw_rec w) = (b, old, new, s)"
  shows "recorder_inv (w\<lparr>cw_rec := s\<rparr>)"
proof -
  have "s = snd (snd (fold chain_key_row (cv_lines (read_chain (Some (c_key_bytes (cw_rec w))) None (dir (cw_log w)))) (None, [], cw_rec w)))"
    using ks by (simp add: chain_keys_def Let_def)
  then have "c_pending s = c_pending (cw_rec w)" by (simp add: keys_pending)
  with inv keys_same [OF inv _ ks] show ?thesis by (auto simp: recorder_inv_def payloads_ok_def)
qed

interpretation core_once: core_invariant c e recorder_inv for c e
proof unfold_locales
  show "recorder_inv (w\<lparr>cw_log := snd (dispatch_durable (cw_log w))\<rparr>)" if "recorder_inv w" for w
  proof -
    have "dir (snd (dispatch_durable (cw_log w))) = dir (cw_log w)" by (simp add: dispatch_durable_def split: list.split)
    with that show ?thesis by (simp add: recorder_inv_def whole_lines_def one_segment_def chain_rows_def)
  qed
qed (auto simp: recorder_inv_record recorder_inv_keys, auto simp: recorder_inv_def)

inductive core_initial :: "cworld \<Rightarrow> bool" where
  core_fresh: "init_logger mb 1 \<lparr>active = None, seg = (\<lambda>_. None)\<rparr> = Inr lg \<Longrightarrow>
    core_initial \<lparr>cw_rec = init_recorder has_log mp bytes kb mr age interval ml, cw_log = lg, cw_relay = rw, cw_tick = 0\<rparr>"

interpretation core_machine: invariant_system core_initial "core_step c e" recorder_inv for c e
proof unfold_locales
  show "recorder_inv s" if "core_initial s" for s
    using that by cases (auto simp: recorder_inv_def init_recorder_def payloads_ok_def init_logger_def whole_lines_def one_segment_def chain_rows_def Let_def split: if_splits)
  show "recorder_inv s'" if "recorder_inv s" and "core_step c e s s'" for s s'
    using that by (rule core_once.inv_cmachine)
qed

text \<open>While the chain is not rotated, the keys the recorder knows are exactly those of the chain.\<close>

definition kept_inv :: "cworld \<Rightarrow> bool" where
  "kept_inv w = (recorder_inv w \<and> (max_bytes (cw_log w) = None \<longrightarrow> cw_tick w \<le> CORE_SEEN_MAX \<longrightarrow>
     set (c_seen (cw_rec w)) \<subseteq> set (core_keys (chain_rows (cw_log w)))))"

lemma log_keeps_max: "log_action_decision sha y trace source p s = (res, s') \<Longrightarrow> max_bytes s' = max_bytes s"
proof -
  assume l: "log_action_decision sha y trace source p s = (res, s')"
  have "s' = log_step sha y ''action_decision'' trace source p s"
    using l by (auto simp: log_action_decision_def log_audit_def log_step_def case_prod_beta Let_def)
  then show "max_bytes s' = max_bytes s" by (simp add: log_step_eq Let_def written_def rotate_def)
qed

lemma record_effect:
  assumes inv: "recorder_inv w" and p: "core_ok p" and room: "cw_tick w < CORE_SEEN_MAX" and r: "core_record c trace p w = (ok, w')"
  obtains (known) "payload_key p \<noteq> []" "payload_key p \<in> set (c_seen (cw_rec w))" "c_seen (cw_rec w') = c_seen (cw_rec w)" "cw_log w' = cw_log w" "cw_tick w' = cw_tick w"
  | (added) old k where "subseq old (chain_rows (cw_log w))" "max_bytes (cw_log w) = None \<longrightarrow> old = chain_rows (cw_log w)" "k = payload_key p"
      "core_keys (chain_rows (cw_log w')) = core_keys old @ (if k = [] then [] else [k])" "set (c_seen (cw_rec w')) = (if k = [] then {} else {k}) \<union> set (c_seen (cw_rec w))"
      "max_bytes (cw_log w') = max_bytes (cw_log w)" "cw_tick w' = Suc (cw_tick w)"
  | (failed) old where "\<not> append_ok (c_sys c (cw_tick w))" "subseq old (chain_rows (cw_log w))" "max_bytes (cw_log w) = None \<longrightarrow> old = chain_rows (cw_log w)"
      "chain_rows (cw_log w') = old" "c_seen (cw_rec w') = c_seen (cw_rec w)" "max_bytes (cw_log w') = max_bytes (cw_log w)" "cw_tick w' = Suc (cw_tick w)"
proof (cases "payload_key p \<noteq> [] \<and> payload_key p \<in> set (c_seen (cw_rec w))")
  case True
  with r show thesis by (intro known) (auto simp: core_record_def Let_def)
next
  case False
  obtain k where k: "dget p ''core_event_key'' = PStr k" using p by (auto simp: core_ok_def)
  then have key: "payload_key p = k" by (cases k) (simp_all add: payload_key_def text_of_def py_or_def)
  let ?y = "c_sys c (cw_tick w)"
  obtain res lg where lg: "log_action_decision (c_sha c) ?y trace CORE_DECISION_SOURCE p (cw_log w) = (res, lg)"
    by (cases "log_action_decision (c_sha c) ?y trace CORE_DECISION_SOURCE p (cw_log w)")
  let ?in = "(\<exists>r. res = Inr r) \<or> res = Inl (OSError ''audit_record_not_durable'')"
  have wl: "whole_lines (cw_log w)" using inv by (simp add: recorder_inv_def)
  obtain old where old: "subseq old (chain_rows (cw_log w))" "\<not> is_full (cw_log w) \<longrightarrow> old = chain_rows (cw_log w)"
    "chain_rows lg = old @ (if ?in then [core_row c ?y trace p (cw_log w)] else [])" using log_rows [OF lg wl] by blast
  have full: "max_bytes (cw_log w) = None \<longrightarrow> old = chain_rows (cw_log w)" using old(2) by (auto simp: is_full_def)
  have "dget (core_row c ?y trace p (cw_log w)) ''core_event_key'' = PStr k" using row_field [OF p] k by (simp add: reserved_keys_def)
  then have keys: "core_keys (chain_rows lg) = core_keys old @ (if ?in \<and> k \<noteq> [] then [k] else [])" by (simp add: old(3) core_keys_one)
  have seen: "length (c_seen (cw_rec w)) < CORE_SEEN_MAX" using inv room by (auto simp: recorder_inv_def)
  have w': "c_seen (cw_rec w') = c_seen (if ?in \<and> k \<noteq> [] then core_remember k (cw_rec w) else cw_rec w)"
    "cw_log w' = lg" "cw_tick w' = Suc (cw_tick w)"
    using r False key lg by (auto simp: core_record_def Let_def split: sum.splits)
  show thesis
  proof (cases ?in)
    case True
    show thesis
      by (rule added [OF old(1) full refl]) (use True key keys seen False w' log_keeps_max [OF lg] in \<open>auto simp: core_remember_new\<close>)
  next
    case nin: False
    then have "\<not> append_ok ?y" using lg
      by (auto simp: log_action_decision_def log_audit_def log_reporting_durability_def VALID_KINDS_def Let_def settle_def split: if_splits sync.splits prod.splits)
    then show thesis by (rule failed [OF _ old(1) full]) (use nin w' old(3) log_keeps_max [OF lg] in simp_all)
  qed
qed

lemma kept_record:
  assumes "kept_inv w" and p: "core_ok p"
  shows "kept_inv (snd (core_record c trace p w))"
proof -
  obtain ok w' where r: "core_record c trace p w = (ok, w')" by (cases "core_record c trace p w")
  have inv: "recorder_inv w" "recorder_inv w'" using assms recorder_inv_record [of w p c trace] r by (simp_all add: kept_inv_def)
  have kept: "max_bytes (cw_log w) = None \<Longrightarrow> cw_tick w < CORE_SEEN_MAX \<Longrightarrow> set (c_seen (cw_rec w)) \<subseteq> set (core_keys (chain_rows (cw_log w)))"
    using assms(1) by (simp add: kept_inv_def)
  have "set (c_seen (cw_rec w')) \<subseteq> set (core_keys (chain_rows (cw_log w')))" if "max_bytes (cw_log w') = None" "cw_tick w' \<le> CORE_SEEN_MAX"
  proof (cases "cw_tick w < CORE_SEEN_MAX")
    case True
    from record_effect [OF inv(1) p True r] show ?thesis using that(1) kept [OF _ True] by cases auto
  next
    case False
    with r that(2) have "cw_log w' = cw_log w \<and> c_seen (cw_rec w') = c_seen (cw_rec w) \<and> cw_tick w' = cw_tick w"
      by (auto simp: core_record_def Let_def split: if_splits prod.splits sum.splits)
    with assms(1) that show ?thesis by (simp add: kept_inv_def)
  qed
  with inv(2) r show ?thesis by (simp add: kept_inv_def)
qed

lemma kept_keys: "kept_inv w \<Longrightarrow> chain_keys (dir (cw_log w)) (cw_rec w) = (b, old, new, s) \<Longrightarrow> kept_inv (w\<lparr>cw_rec := s\<rparr>)"
  using recorder_inv_keys [of w b old new s] keys_same [of w b old new s] by (auto simp: kept_inv_def)

interpretation core_kept: core_invariant c e kept_inv for c e
proof unfold_locales
  show "kept_inv (w\<lparr>cw_log := snd (dispatch_durable (cw_log w))\<rparr>)" if "kept_inv w" for w
  proof -
    have "dir (snd (dispatch_durable (cw_log w))) = dir (cw_log w)" "max_bytes (snd (dispatch_durable (cw_log w))) = max_bytes (cw_log w)"
      by (simp_all add: dispatch_durable_def split: list.split)
    moreover from this have "chain_rows (snd (dispatch_durable (cw_log w))) = chain_rows (cw_log w)" by (simp add: chain_rows_def)
    ultimately show ?thesis using that core_once.inv_log [of w] by (simp add: kept_inv_def)
  qed
  show "kept_inv (w\<lparr>cw_relay := rw\<rparr>)" if "kept_inv w" for w rw
    using that core_once.inv_relay_any [of w rw] by (simp add: kept_inv_def)
  show "kept_inv (w\<lparr>cw_rec := s\<rparr>)" if "kept_inv w" "c_seen s = c_seen (cw_rec w)" "payloads_ok s" for w s
    using that core_once.inv_rec [of w s] by (simp add: kept_inv_def)
  show "payloads_ok (cw_rec w)" if "kept_inv w" for w
    using that core_once.inv_payloads [of w] by (simp add: kept_inv_def)
qed (auto intro: kept_record kept_keys)

lemma core_initial_kept: "core_initial w \<Longrightarrow> kept_inv w"
  using core_machine.inv_init [of w] by (auto simp: kept_inv_def init_recorder_def elim: core_initial.cases)

interpretation kept_machine: invariant_system core_initial "core_step c e" kept_inv for c e
  by unfold_locales (auto intro: core_initial_kept core_kept.inv_cmachine)

section \<open>What a reconcile records\<close>

lemma replay_effect:
  assumes "kept_inv w" and "list_all (\<lambda>tp. core_ok (snd tp)) ps" and "\<And>n. append_ok (c_sys c n)" and "cw_tick w + length ps \<le> CORE_SEEN_MAX"
    and "core_replay c ps w = (n, m, w')"
  shows "cw_tick w' \<le> cw_tick w + length ps \<and> max_bytes (cw_log w') = max_bytes (cw_log w) \<and> set (c_seen (cw_rec w)) \<subseteq> set (c_seen (cw_rec w'))
    \<and> (\<forall>tp \<in> set ps. payload_key (snd tp) \<noteq> [] \<longrightarrow> payload_key (snd tp) \<in> set (c_seen (cw_rec w')))"
  using assms(1,2,4,5)
proof (induction ps arbitrary: w n m w')
  case (Cons tp ps)
  obtain trace p where tp: "tp = (trace, p)" by (cases tp)
  obtain ok w1 where r: "core_record c trace p w = (ok, w1)" by (cases "core_record c trace p w")
  obtain n' m' where rest: "core_replay c ps w1 = (n', m', w')" using Cons.prems(4) r by (auto simp: tp Let_def split: prod.splits)
  have p: "core_ok p" "list_all (\<lambda>tp. core_ok (snd tp)) ps" using Cons.prems(2) by (simp_all add: tp)
  have inv: "recorder_inv w" using Cons.prems(1) by (simp add: kept_inv_def)
  have kept: "kept_inv w1" using kept_record [OF Cons.prems(1) p(1), of c trace] r by simp
  have "cw_tick w < CORE_SEEN_MAX" using Cons.prems(3) by simp
  from record_effect [OF inv p(1) this r] assms(3)
  have one: "cw_tick w1 \<le> Suc (cw_tick w) \<and> max_bytes (cw_log w1) = max_bytes (cw_log w) \<and> set (c_seen (cw_rec w)) \<subseteq> set (c_seen (cw_rec w1))
      \<and> (payload_key p \<noteq> [] \<longrightarrow> payload_key p \<in> set (c_seen (cw_rec w1)))"
    by cases auto
  then have "cw_tick w1 + length ps \<le> CORE_SEEN_MAX" using Cons.prems(3) by simp
  from Cons.IH [OF kept p(2) this rest] one show ?case by (auto simp: tp)
qed simp

lemma core_keys_count: "k \<noteq> [] \<Longrightarrow> length (filter (\<lambda>r. dget r ''core_event_key'' = PStr k) rows) = length (filter (\<lambda>x. x = k) (core_keys rows))"
proof (induction rows)
  case (Cons r rows)
  have "core_keys (r # rows) = core_keys [r] @ core_keys rows" using core_keys_append [of "[r]" rows] by simp
  with Cons show ?case by (cases "dget r ''core_event_key''") (auto simp: core_keys_one)
qed simp

lemma distinct_once: "distinct xs \<Longrightarrow> x \<in> set xs \<Longrightarrow> length (filter (\<lambda>y. y = x) xs) = 1"
  by (induction xs) (auto simp: filter_empty_conv)

lemma core_status_frame [simp]: "cw_rec (core_status e st w) = cw_rec w" "cw_log (core_status e st w) = cw_log w" "cw_tick (core_status e st w) = cw_tick w"
  by (simp_all add: core_status_def Let_def case_prod_beta split: option.split)

lemma reconciled_key [simp]: "payload_key (reconciled_payload c a now who p) = payload_key p"
  by (simp add: payload_key_def reconciled_payload_def mark_stale_def Let_def dupdate_simps dget_update)

lemma event_key_field: "core_decision_payload c v = Some (t, p) \<Longrightarrow> dget p ''core_event_key'' = PStr (core_event_key c (dict_of v))"
  by (auto simp: core_decision_payload_def Let_def dget_Cons split: if_splits)

lemma event_keyed: "core_decision_payload c v = Some (t, p) \<Longrightarrow> (\<And>x. c_sha c x \<noteq> []) \<Longrightarrow> payload_key p \<noteq> []"
  using event_key_field [of c v t p] by (simp add: payload_key_def core_event_key_def Let_def)

lemma line_keyed: "line_payload c l = Some (t, p) \<Longrightarrow> (\<And>x. c_sha c x \<noteq> []) \<Longrightarrow> payload_key p \<noteq> []"
  by (auto simp: line_payload_def dest: event_keyed split: option.splits)

lemma window_length: "length (List.map_filter f xs) \<le> length xs"
  by (simp add: List.map_filter_def)

lemma reconcile_seen:
  assumes inv: "kept_inv w" and works: "\<And>n. append_ok (c_sys c n)" and log: "c_has_log (cw_rec w)"
    and ks: "chain_keys (dir (cw_log w)) (cw_rec w) = (whole, oldest, newest, s)"
    and ls: "ls = read_window (min (file_size f) (c_max_bytes (cw_rec w))) f"
    and few: "int (length ls) \<le> c_max_reconcile (cw_rec w)" "cw_tick w + length ls \<le> CORE_SEEN_MAX"
    and l: "l \<in> set ls" "line_payload c l = Some (t, p)" "is_p0 p" "payload_key p \<noteq> []" "\<not> out_of_window whole oldest p"
    and w': "w' = snd (core_reconcile c e now (LogFile f) w)"
  shows "payload_key p \<in> set (c_seen (cw_rec w')) \<and> cw_tick w' \<le> CORE_SEEN_MAX \<and> max_bytes (cw_log w') = max_bytes (cw_log w)"
proof -
  have s: "s = cw_rec w" using keys_same [OF _ _ ks] inv few(2) by (simp add: kept_inv_def)
  define cs where "cs = map (\<lambda>tp. (fst tp, reconciled_payload c (c_max_age s) now ''startup_reconcile'' (snd tp)))
      (filter (\<lambda>tp. \<not> out_of_window whole oldest (snd tp)) (fresh_payloads c s ls))"
  obtain n m w1 where run: "core_replay c cs w = (n, m, w1)" by (metis prod_cases3)
  have ok: "list_all (\<lambda>tp. core_ok (snd tp)) cs" unfolding cs_def using fresh_candidates [of 0] by simp
  have "length cs \<le> length (fresh_payloads c s ls)" by (simp add: cs_def)
  also have "\<dots> \<le> length ls" unfolding fresh_payloads_def using window_length [of "line_payload c" ls] by (meson length_filter_le order_trans)
  finally have len: "length cs \<le> length ls" .
  have skip: "core_skipped s cs = 0" using len few(1) s by (simp add: core_skipped_def)
  have eff: "cw_tick w1 \<le> cw_tick w + length cs \<and> max_bytes (cw_log w1) = max_bytes (cw_log w) \<and> set (c_seen (cw_rec w)) \<subseteq> set (c_seen (cw_rec w1))
    \<and> (\<forall>tp \<in> set cs. payload_key (snd tp) \<noteq> [] \<longrightarrow> payload_key (snd tp) \<in> set (c_seen (cw_rec w1)))"
    by (rule replay_effect [OF inv ok works _ run]) (use len few(2) in simp)
  have same: "cw_log w' = cw_log w1" "c_seen (cw_rec w') = c_seen (cw_rec w1)" "cw_tick w' = cw_tick w1"
    using w' ks log skip run unfolding core_reconcile_def s cs_def ls by (simp_all add: read_core_log_def Let_def)
  have "payload_key p \<in> set (c_seen (cw_rec w1))"
  proof (cases "payload_key p \<in> set (c_seen (cw_rec w))")
    case False
    then have "(t, p) \<in> set (fresh_payloads c s ls)" using l s by (auto simp: fresh_payloads_def in_map_filter)
    then have "(t, reconciled_payload c (c_max_age s) now ''startup_reconcile'' p) \<in> set cs" using l(5) by (force simp: cs_def)
    with eff l(4) show ?thesis by fastforce
  qed (use eff in auto)
  with same eff len few(2) show ?thesis by simp
qed

section \<open>Properties\<close>


text \<open>A redirect decision in the log of the core, and a recorder that starts on an empty chain.\<close>

definition ex_core_event :: pydict where
  "ex_core_event = [(''source'', PStr CORE_EVENT_SOURCE), (''pipeline'', PStr CORE_EVENT_PIPELINE), (''defense'', PDict [(''action'', PStr ''redirect'')]),
     (''enforcement'', PDict [(''selected_action'', PStr ''redirect'')])]"

definition ex_core_log :: afile where "ex_core_log = \<lparr>flines = [Row (PDict ex_core_event)], torn = None\<rparr>"

definition ex_cenv :: cenv where
  "ex_cenv = \<lparr>c_sha = (\<lambda>_. ''h''), c_dates = ex_denv, c_float_text = (\<lambda>_. []), c_age = (\<lambda>_. PNone), c_sys = (\<lambda>_. ex_sys)\<rparr>"

definition ex_chain_log :: alog where
  "ex_chain_log = \<lparr>dir = \<lparr>active = None, seg = (\<lambda>_. None)\<rparr>, max_bytes = None, last_chain_hash = [], chain_id = [], rotated_total = 0, rotate_failed_total = 0,
     fsync_unsupported_count = 0, listeners = 0, handoff = [], handoff_max = DURABLE_HANDOFF_MAX, durable_seq = 0, handed_count = 0,
     delivered_seq = 0, delivered_count = 0, handoff_dropped_total = 0, dropped = []\<rparr>"

definition ex_core0 :: cworld where
  "ex_core0 = \<lparr>cw_rec = init_recorder True 4 (file_size ex_core_log) 1000 8 60 1 4, cw_log = ex_chain_log, cw_relay = None, cw_tick = 0\<rparr>"

lemma ex_core0_reach: "reach core_initial (core_step c e) ex_core0"
proof -
  have "init_logger None 1 \<lparr>active = None, seg = (\<lambda>_. None)\<rparr> = Inr ex_chain_log"
    by (simp add: init_logger_def read_last_chain_hash_def Let_def ex_chain_log_def)
  then show ?thesis unfolding ex_core0_def by (intro reach_init core_fresh)
qed

lemma ex_core_line: "\<exists>t p. line_payload ex_cenv (Row (PDict ex_core_event)) = Some (t, p) \<and> is_p0 p \<and> payload_key p = ''h''"
  by (simp add: line_payload_def core_decision_payload_def ex_core_event_def ex_cenv_def dict_simps Let_def is_p0_def classify_p0_def
      dget_update ENFORCEMENT_ACTIONS_def payload_key_def core_event_key_def CORE_EVENT_SOURCE_def CORE_EVENT_PIPELINE_def)

lemma ex_core_window: "read_window (min (file_size ex_core_log) (c_max_bytes (cw_rec ex_core0))) ex_core_log = [Row (PDict ex_core_event)]"
  by (simp add: ex_core0_def init_recorder_def read_window_def Let_def ex_core_log_def file_size_def torn_size_def line_size_def)

lemma ex_core_keys: "chain_keys (dir (cw_log ex_core0)) (cw_rec ex_core0) = (fst (chain_keys (dir (cw_log ex_core0)) (cw_rec ex_core0)), None, [], cw_rec ex_core0)"
  by (simp add: chain_keys_def Let_def ex_core0_def ex_chain_log_def read_chain_def open_snapshot_def linked_files_def MAX_SEGMENTS_def numeral_eq_Suc)

lemma ex_core_seen: "cw_tick (snd (core_reconcile ex_cenv ex_renv 0 (LogFile ex_core_log) ex_core0)) \<le> CORE_SEEN_MAX"
proof -
  obtain t p where p: "line_payload ex_cenv (Row (PDict ex_core_event)) = Some (t, p)" "is_p0 p" "payload_key p = ''h''" using ex_core_line by blast
  have "payload_key p \<in> set (c_seen (cw_rec (snd (core_reconcile ex_cenv ex_renv 0 (LogFile ex_core_log) ex_core0))))
      \<and> cw_tick (snd (core_reconcile ex_cenv ex_renv 0 (LogFile ex_core_log) ex_core0)) \<le> CORE_SEEN_MAX
      \<and> max_bytes (cw_log (snd (core_reconcile ex_cenv ex_renv 0 (LogFile ex_core_log) ex_core0))) = max_bytes (cw_log ex_core0)"
    by (rule reconcile_seen [OF kept_machine.reach_inv [OF ex_core0_reach] _ _ ex_core_keys ex_core_window [symmetric] _ _ _ p(1,2) _ _ refl])
      (simp_all add: p(3) ex_core0_def init_recorder_def ex_cenv_def ex_sys_def ex_chain_log_def out_of_window_def CORE_SEEN_MAX_def)
  then show ?thesis by blast
qed




end
