(* ===== verification/LiveAlerts.thy ===== *)
theory LiveAlerts
  imports CoreDecisionsProperties
begin

text \<open>
  The live path of a core event: the receiver submits it, the recorder's thread takes a turn, the logger's dispatcher hands the record
  over, the relay's listener takes it and the relay's thread takes a turn.
\<close>

section \<open>From a core event to its alert\<close>

definition live_path :: "cenv \<Rightarrow> renv \<Rightarrow> int \<Rightarrow> pyval \<Rightarrow> pyval \<Rightarrow> rat \<Rightarrow> rat \<Rightarrow> nlog \<Rightarrow> rat \<Rightarrow> cworld \<Rightarrow> rworld option" where
  "live_path c e ns rx ev tick_s now nl tick_r w =
     (let w1 = core_turn c e tick_s now nl (w\<lparr>cw_rec := submit_core c ns rx ev (cw_rec w)\<rparr>);
          (h, lg) = dispatch_durable (cw_log w1)
      in case (h, cw_relay w1) of
           (Some h, Some rw) \<Rightarrow>
             Some (relay_turn e (Some lg) (dir lg) tick_r (rw\<lparr>rw_relay := on_durable_record (h_line h) (h_durability h) (h_stamp h) (rw_relay rw)\<rparr>))
         | _ \<Rightarrow> None)"

text \<open>Nothing waits, and every loss was reported.\<close>

definition quiet_recorder :: "recorder \<Rightarrow> bool" where
  "quiet_recorder s = (c_pending s = [] \<and> 0 < c_pending_max s \<and> c_lost s = [] \<and> core_loss_counters s = c_reported s)"

definition quiet_log :: "alog \<Rightarrow> bool" where
  "quiet_log s = (0 < listeners s \<and> handoff s = [] \<and> 0 < handoff_max s \<and> dropped s = [])"

definition quiet_relay :: "alog \<Rightarrow> relay \<Rightarrow> bool" where
  "quiet_relay lg s = (pending s = [] \<and> 0 < pending_max s \<and> lost s = [] \<and> loss_counters (Some lg) s = rl_reported s)"

definition durable_sys :: "sys \<Rightarrow> bool" where
  "durable_sys y = (append_ok y \<and> sync_file y \<noteq> SyncFailed \<and> sync_dir y \<noteq> SyncFailed)"

lemma quiet_logged:
  assumes "durable_sys y" and "quiet_log s"
  obtains s' h where "log_action_decision (c_sha c) y trace CORE_DECISION_SOURCE p s = (Inr (core_row c y trace p s), s')"
    and "handoff s' = [h]" and "h_line h = PDict (core_row c y trace p s)" and "quiet_log (snd (dispatch_durable s'))"
    and "handoff_dropped_total s' = handoff_dropped_total s" and "text_of (dget (core_row c y trace p s) ''chain_hash'') = last_chain_hash s'"
proof -
  define s1 where "s1 = (if is_full s then rotate y s else s)"
  define r where "r = core_row c y trace p s"
  define w where "w = written (c_sha c) r s1"
  have q: "quiet_log w" "handoff_dropped_total w = handoff_dropped_total s"
    using assms(2) by (simp_all add: w_def s1_def written_def rotate_def quiet_log_def)
  obtain rs s' where st: "settle y ''action_decision'' (current_file s1 = None) r w = (rs, s')" by fastforce
  have r: "seal (c_sha c) (chain_record (sys_ts y) ''action_decision'' trace CORE_DECISION_SOURCE p (current_file s1 = None) s1) = r"
    by (simp add: r_def core_row_def Let_def s1_def)
  have lr: "log_reporting_durability (c_sha c) y ''action_decision'' trace CORE_DECISION_SOURCE p s = (rs, s')"
    using assms(1) st unfolding log_reporting_durability_def Let_def s1_def [symmetric] r by (simp add: VALID_KINDS_def written_def w_def durable_sys_def)
  have sy: "sync_result y b \<noteq> SyncFailed" for b using assms(1) by (simp add: durable_sys_def sync_result_def)
  have res: "(\<exists>d. rs = Inr (r, d)) \<and> (\<exists>h. handoff s' = [h] \<and> h_line h = PDict r) \<and> quiet_log (snd (dispatch_durable s')) \<and> handoff_dropped_total s' = handoff_dropped_total s"
    using st q sy by (auto simp: settle_def DURABLE_KINDS_def handoff_durable_def quiet_log_def dispatch_durable_def Let_def split: sync.splits)
  have "last_chain_hash s' = last_chain_hash w" using settle_simps(3) [of y "''action_decision''" "current_file s1 = None" r w] st by simp
  then have "text_of (dget r ''chain_hash'') = last_chain_hash s'" by (simp add: w_def written_def r_def core_row_def Let_def seal_def dget_update)
  with res lr show thesis
    by (elim conjE exE) (rule that, simp_all add: log_action_decision_def log_audit_def r_def)
qed

lemma quiet_core_turn:
  assumes "core_decision_payload c ev = Some (t, p)" and "is_p0 p" and "payload_key p \<notin> set (c_seen (cw_rec w))" and "quiet_recorder (cw_rec w)"
    and "q = dupdate p [(''agent_received_monotonic_ns'', PInt ns), (''agent_received_epoch'', rx), (''recorded_by'', PStr ''live'')]"
    and "log_action_decision (c_sha c) (c_sys c (cw_tick w)) t CORE_DECISION_SOURCE q (cw_log w) = (Inr r, lg)"
    and "w' = core_turn c e tick_s now nl (w\<lparr>cw_rec := submit_core c ns rx ev (cw_rec w)\<rparr>)"
  shows "cw_log w' = lg \<and> cw_relay w' = cw_relay w"
proof -
  have key: "payload_key q = payload_key p" by (simp add: payload_key_def assms(5) dupdate_simps dget_update)
  define v where "v = snd (core_record c t q (w\<lparr>cw_rec := (cw_rec w)\<lparr>c_outstanding := c_outstanding (cw_rec w) + 1\<rparr>\<rparr>))"
  have v: "cw_log v = lg" "cw_relay v = cw_relay w" "c_lost (cw_rec v) = []" "core_loss_counters (cw_rec v) = c_reported (cw_rec v)"
    using assms(3,4,6) by (auto simp: v_def core_record_def key Let_def core_remember_def quiet_recorder_def core_loss_counters_def)
  have s: "submit_core c ns rx ev (cw_rec w) = (cw_rec w)\<lparr>c_outstanding := c_outstanding (cw_rec w) + 1, c_pending := [(t, q)]\<rparr>"
    using assms(1,2,4,5) by (simp add: submit_core_def quiet_recorder_def Let_def)
  have "w\<lparr>cw_rec := (cw_rec w)\<lparr>c_outstanding := c_outstanding (cw_rec w) + 1, c_pending := []\<rparr>\<rparr> = w\<lparr>cw_rec := (cw_rec w)\<lparr>c_outstanding := c_outstanding (cw_rec w) + 1\<rparr>\<rparr>"
    using assms(4) by (simp add: quiet_recorder_def)
  then have "w' = maybe_recover_core c e tick_s now nl (report_core_losses e (v\<lparr>cw_rec := (cw_rec v)\<lparr>c_outstanding := c_outstanding (cw_rec v) - 1\<rparr>\<rparr>))"
    using assms(7) s by (simp add: core_turn_def v_def Let_def)
  moreover have "report_core_losses e (v\<lparr>cw_rec := (cw_rec v)\<lparr>c_outstanding := c_outstanding (cw_rec v) - 1\<rparr>\<rparr>) = v\<lparr>cw_rec := (cw_rec v)\<lparr>c_outstanding := c_outstanding (cw_rec v) - 1\<rparr>\<rparr>"
    using v(4) by (simp add: report_core_losses_def core_loss_counters_def)
  ultimately show ?thesis using v by (simp add: maybe_recover_core_def Let_def)
qed

lemma quiet_relay_turn:
  assumes inv: "relay_inv m rw" and works: "io_works (r_io e (rw_tick rw))" and room: "length (queue_rows (rw_disk rw)) + 2 \<le> 2 * m"
    and q: "quiet_log lg" "quiet_relay lg (rw_relay rw)" and r: "classify_p0 r \<noteq> []" "dget r ''kind'' = PStr ''action_decision''"
    and h: "text_of (dget r ''chain_hash'') \<notin> set (seen (rw_relay rw))"
  shows "set (both_channels (text_of (dget r ''chain_hash'')))
    \<subseteq> set (alert_tags (queue_rows (rw_disk (relay_turn e (Some lg) ad tick_r (rw\<lparr>rw_relay := on_durable_record (PDict r) durability stamp (rw_relay rw)\<rparr>)))))"
proof -
  let ?v = "rw\<lparr>rw_relay := (rw_relay rw)\<lparr>outstanding := outstanding (rw_relay rw) + 1\<rparr>\<rparr>"
  obtain res v where v: "relay_record e (Some lg) r durability (Some stamp) True False ?v = (res, v)" by fastforce
  have fits: "relay_inv m ?v" using inv by (simp add: relay_inv_def fits_def)
  have one: "relayed_ok res" "text_of (dget r ''chain_hash'') \<in> set (seen (rw_relay rw)) \<or> set (both_channels (text_of (dget r ''chain_hash''))) \<subseteq> set (alert_tags (queue_rows (rw_disk v)))"
    using relay_works [OF fits _ _ v] works room r(1) by simp_all
  have tags: "set (both_channels (text_of (dget r ''chain_hash''))) \<subseteq> set (alert_tags (queue_rows (rw_disk v)))" using one(2) h by blast
  have same: "loss_counters (Some lg) (rw_relay v) = rl_reported (rw_relay v) \<and> lost (rw_relay v) = []"
    using v one(1) q(2) by (cases rule: relay_record_cases) (auto simp: quiet_relay_def loss_counters_def relay_tried_def remember_def Let_def)
  have take: "fst (take_lost (Some lg) s) = lost s" for s
    using q(1) by (simp add: take_lost_def quiet_log_def dropped_durable_since_def)
  have deliver: "on_durable_record (PDict r) durability stamp (rw_relay rw) =
      (rw_relay rw)\<lparr>outstanding := outstanding (rw_relay rw) + 1, pending := [\<lparr>it_record = r, it_durability = durability, it_stamp = Some stamp\<rparr>]\<rparr>"
    using q(2) r(2) by (simp add: on_durable_record_def quiet_relay_def)
  have "(rw_relay rw)\<lparr>outstanding := outstanding (rw_relay rw) + 1, pending := []\<rparr> = (rw_relay rw)\<lparr>outstanding := outstanding (rw_relay rw) + 1\<rparr>"
    using q(2) by (simp add: quiet_relay_def)
  then have "relay_turn e (Some lg) ad tick_r (rw\<lparr>rw_relay := on_durable_record (PDict r) durability stamp (rw_relay rw)\<rparr>)
      = maybe_recover_losses e (Some lg) ad tick_r (v\<lparr>rw_relay := (rw_relay v)\<lparr>outstanding := outstanding (rw_relay v) - 1\<rparr>\<rparr>)"
    using v same by (simp add: relay_turn_def deliver Let_def report_losses_def loss_counters_def)
  moreover have "rw_disk (maybe_recover_losses e (Some lg) ad tick_r u) = rw_disk u" if "lost (rw_relay u) = []" for u
    using take [of "(rw_relay u)\<lparr>last_loss_pass := Some tick_r\<rparr>"] that by (simp add: maybe_recover_losses_def Let_def case_prod_beta)
  ultimately show ?thesis using tags same by simp
qed

text \<open>C4. From a core event to the operator, live: a P0 decision of the core that the recorder does not know, submitted while nothing waits, is in the
  queue on both channels after one turn of each thread, when the append and its sync work, the queue's write works and has room, and the
  relay did not alert the new record's hash before.\<close>

theorem live_core_decision_is_alerted:
  assumes "core_decision_payload c ev = Some (t, p)" and "is_p0 p" and "payload_key p \<notin> set (c_seen (cw_rec w))"
    and "quiet_recorder (cw_rec w)" and "quiet_log (cw_log w)" and "durable_sys (c_sys c (cw_tick w))"
    and "cw_relay w = Some rw" and "reach (relay_initial m) (relay_step e) rw" and "quiet_relay (cw_log w) (rw_relay rw)"
    and "io_works (r_io e (rw_tick rw))" and "length (queue_rows (rw_disk rw)) + 2 \<le> 2 * m"
    and "h = last_chain_hash (cw_log (core_turn c e tick_s now nl (w\<lparr>cw_rec := submit_core c ns rx ev (cw_rec w)\<rparr>)))" and "h \<notin> set (seen (rw_relay rw))"
  shows "\<exists>rw'. live_path c e ns rx ev tick_s now nl tick_r w = Some rw' \<and> set (both_channels h) \<subseteq> set (alert_tags (queue_rows (rw_disk rw')))"
proof -
  define q where "q = dupdate p [(''agent_received_monotonic_ns'', PInt ns), (''agent_received_epoch'', rx), (''recorded_by'', PStr ''live'')]"
  have ok: "core_ok q" using payload_core_ok [OF assms(1,2)] by (simp add: q_def dupdate_simps core_ok_update reserved_keys_def)
  define w1 where "w1 = core_turn c e tick_s now nl (w\<lparr>cw_rec := submit_core c ns rx ev (cw_rec w)\<rparr>)"
  let ?r = "core_row c (c_sys c (cw_tick w)) t q (cw_log w)"
  obtain s' hd where l: "log_action_decision (c_sha c) (c_sys c (cw_tick w)) t CORE_DECISION_SOURCE q (cw_log w) = (Inr ?r, s')"
    "handoff s' = [hd]" "h_line hd = PDict ?r" "quiet_log (snd (dispatch_durable s'))" "handoff_dropped_total s' = handoff_dropped_total (cw_log w)"
    "text_of (dget ?r ''chain_hash'') = last_chain_hash s'"
    by (rule quiet_logged [OF assms(6,5)])
  have w1: "cw_log w1 = s'" "cw_relay w1 = Some rw" using quiet_core_turn [OF assms(1-4) q_def l(1) w1_def] assms(7) by simp_all
  obtain lg where lg: "dispatch_durable s' = (Some hd, lg)" "quiet_log lg" "handoff_dropped_total lg = handoff_dropped_total (cw_log w)"
    using l(2,4,5) by (auto simp: dispatch_durable_def)
  have quiet: "quiet_relay lg (rw_relay rw)" using assms(9) lg(3) by (simp add: quiet_relay_def loss_counters_def logger_dropped_def)
  have h: "text_of (dget ?r ''chain_hash'') = h" using l(6) assms(12) w1(1) by (simp add: w1_def)
  have "set (both_channels h) \<subseteq> set (alert_tags (queue_rows (rw_disk (relay_turn e (Some lg) (dir lg) tick_r
      (rw\<lparr>rw_relay := on_durable_record (PDict ?r) (h_durability hd) (h_stamp hd) (rw_relay rw)\<rparr>)))))"
    using quiet_relay_turn [OF reached_relay [OF assms(8)] assms(10,11) lg(2) quiet row_p0 [OF ok] row_kind [OF ok],
        of c "c_sys c (cw_tick w)" t "cw_log w" "dir lg" tick_r "h_durability hd" "h_stamp hd"] assms(13) unfolding h by blast
  then show ?thesis using w1 lg(1) l(3) unfolding live_path_def Let_def w1_def [symmetric] by simp
qed

text \<open>A recorder, its log with one listener, and a relay, none of which has done anything yet.\<close>

definition ex_live :: cworld where
  "ex_live = ex_core0\<lparr>cw_log := ex_chain_log\<lparr>listeners := 1\<rparr>, cw_relay := Some ex_rw\<rparr>"

theorem live_core_decision_is_alerted_witness:
  "\<exists>rw' h. live_path ex_cenv ex_renv 0 PNone (PDict ex_core_event) 0 0 LogMissing 0 ex_live = Some rw' \<and> set (both_channels h) \<subseteq> set (alert_tags (queue_rows (rw_disk rw')))"
proof -
  obtain t p where "core_decision_payload ex_cenv (PDict ex_core_event) = Some (t, p)" and p: "is_p0 p"
    using ex_core_line by (auto simp: line_payload_def)
  note claim = live_core_decision_is_alerted [OF this, of ex_live ex_rw 2 ex_renv _ 0 0 LogMissing 0 PNone 0]
  have "seen (rw_relay ex_rw) = []" "quiet_relay (cw_log ex_live) (rw_relay ex_rw)" "cw_relay ex_live = Some ex_rw"
    by (simp_all add: ex_rw_def init_relay_def ex_live_def quiet_relay_def loss_counters_def logger_dropped_def ex_chain_log_def)
  moreover have "c_seen (cw_rec ex_live) = []" "quiet_recorder (cw_rec ex_live)" "quiet_log (cw_log ex_live)" "durable_sys (c_sys ex_cenv (cw_tick ex_live))"
    by (simp_all add: ex_live_def ex_core0_def init_recorder_def quiet_recorder_def core_loss_counters_def quiet_log_def ex_chain_log_def DURABLE_HANDOFF_MAX_def
        durable_sys_def ex_cenv_def ex_sys_def)
  ultimately show ?thesis using claim [OF _ _ _ _ _ ex_rw_reach _ ex_works] ex_path(3) by fastforce
qed

end
