(* ===== verification/Aggregator.thy ===== *)
theory Aggregator
  imports Values
begin

text \<open>
  The registry of fabric nodes (\<open>py/azazel_edge/aggregator.py\<close>): registration, ingest of signed node summaries with quarantine and
  replay detection, the freshness view, and the poller that pulls summaries.

  \<open>aenv\<close> holds what the code takes from libraries: SHA-256 and HMAC-SHA-256 as hexadecimal text, the date parser and the text of a
  float. Clock readings are arguments; an operation that raises still returns the registry it leaves.
\<close>

section \<open>Signatures\<close>

record aenv =
  a_sha :: "string \<Rightarrow> string"
  a_hmac :: "string \<Rightarrow> string \<Rightarrow> string"
  a_iso :: "string \<Rightarrow> rat option"
  a_float_text :: "rat \<Rightarrow> string"

definition node_roles :: "string list" where "node_roles = []"

definition normalize_node_role :: "pyval \<Rightarrow> pyexc + string option" where
  "normalize_node_role role =
     (if role = PNone then Inr None
      else if \<not> is_text role then Inl (ValueError ''role_must_be_string'')
      else
        (let text = py_strip (py_str role) in
         if text = [] then Inr None
         else if text \<notin> set node_roles then Inl (ValueError ''role_unknown'')
         else Inr (Some text)))"

definition sha256_hex :: "aenv \<Rightarrow> string \<Rightarrow> string" where "sha256_hex e t = a_sha e t"
definition hmac_sha256_hex :: "aenv \<Rightarrow> string \<Rightarrow> string \<Rightarrow> string" where "hmac_sha256_hex e k t = a_hmac e k t"

definition compute_ingest_sig :: "aenv \<Rightarrow> pydict \<Rightarrow> string \<Rightarrow> pyfloat \<Rightarrow> string \<Rightarrow> string" where
  "compute_ingest_sig e summary nid generated_at secret =
     (let digest = sha256_hex e (json_dumps (PDict summary));
          claims = [(''digest'', PStr digest), (''generated_at'', PFloat generated_at), (''node_id'', PStr nid)]
      in hmac_sha256_hex e secret (json_dumps (PDict claims)))"

text \<open>\<open>hmac.compare_digest\<close> raises on text that is not ASCII.\<close>

definition is_ascii :: "string \<Rightarrow> bool" where
  "is_ascii s = list_all (\<lambda>c. of_char c < (128 :: nat)) s"

definition verify_ingest_sig :: "aenv \<Rightarrow> pydict \<Rightarrow> string \<Rightarrow> pyfloat \<Rightarrow> string \<Rightarrow> string \<Rightarrow> pyexc + bool" where
  "verify_ingest_sig e summary nid generated_at sig secret =
     (let expected = compute_ingest_sig e summary nid generated_at secret; given = py_lower sig
      in if \<not> is_ascii expected \<or> \<not> is_ascii given then Inl (TypeError ''comparing strings with non-ASCII characters is not supported'')
         else Inr (expected = given))"

section \<open>Times\<close>

definition coerce_epoch :: "aenv \<Rightarrow> pyval \<Rightarrow> rat \<Rightarrow> pyexc + pyfloat" where
  "coerce_epoch e v dflt =
     (let fl = (\<lambda>q. FFin q (a_float_text e q)) in
      case v of
        PNone \<Rightarrow> Inr (fl dflt)
      | PFloat f \<Rightarrow> Inr f
      | PBool b \<Rightarrow> Inr (fl (if b then 1 else 0))
      | PInt i \<Rightarrow> if float_too_large i then Inl (OverflowError []) else Inr (fl (of_int (round_double i)))
      | _ \<Rightarrow>
          (let text = py_strip (py_str v);
               iso = (if text \<noteq> [] \<and> last text = CHR ''Z'' then butlast text @ ''+00:00'' else text)
           in if text = [] then Inr (fl dflt)
              else (case a_iso e iso of None \<Rightarrow> Inr (fl dflt) | Some q \<Rightarrow> Inr (fl q))))"

record freshness_policy =
  poll_interval_sec :: int
  stale_multiplier :: int
  offline_multiplier :: int

definition stale_after_sec :: "freshness_policy \<Rightarrow> int" where
  "stale_after_sec p = max 1 (poll_interval_sec p * stale_multiplier p)"

definition offline_after_sec :: "freshness_policy \<Rightarrow> int" where
  "offline_after_sec p = max (stale_after_sec p + 1) (poll_interval_sec p * offline_multiplier p)"

definition freshness_status :: "rat \<Rightarrow> rat \<Rightarrow> freshness_policy \<Rightarrow> string" where
  "freshness_status last_seen now p =
     (if last_seen \<le> 0 then ''offline''
      else
        (let age = max 0 (now - last_seen) in
         if age \<le> of_int (stale_after_sec p) then ''fresh''
         else if age \<le> of_int (offline_after_sec p) then ''stale''
         else ''offline''))"

section \<open>The registry\<close>

text \<open>A node seen only through ingest has no \<open>poll_url\<close>.\<close>

record fnode =
  fn_id :: string
  fn_site :: string
  fn_label :: string
  fn_fingerprint :: string
  fn_poll_url :: "string option"
  fn_role :: "string option"
  fn_status :: string
  fn_created :: rat
  fn_updated :: rat

record registry =
  g_policy :: freshness_policy
  g_secret :: "string option"
  g_sig_required :: bool
  g_window :: int
  g_nodes :: "(string \<times> fnode) list"
  g_summaries :: "(string \<times> pydict) list"
  g_seen :: "(string \<times> rat) list"

definition init_registry :: "freshness_policy option \<Rightarrow> string option \<Rightarrow> bool \<Rightarrow> int \<Rightarrow> registry" where
  "init_registry p secret required window =
     \<lparr>g_policy = (case p of None \<Rightarrow> \<lparr>poll_interval_sec = 30, stale_multiplier = 2, offline_multiplier = 6\<rparr> | Some q \<Rightarrow> q),
      g_secret = secret, g_sig_required = required, g_window = max 1 window, g_nodes = [], g_summaries = [], g_seen = []\<rparr>"

definition register_node :: "rat \<Rightarrow> pyval \<Rightarrow> pyval \<Rightarrow> pyval \<Rightarrow> pyval \<Rightarrow> pyval \<Rightarrow> pyval \<Rightarrow> registry \<Rightarrow> (pyexc + fnode) \<times> registry" where
  "register_node now node_id site_id label fingerprint poll_url role g =
     (let clean = (\<lambda>v. py_strip (text_of v)); nid = clean node_id; sid = clean site_id in
      if nid = [] then (Inl (ValueError ''node_id_required''), g)
      else if sid = [] then (Inl (ValueError ''site_id_required''), g)
      else (case normalize_node_role role of
          Inl x \<Rightarrow> (Inl x, g)
        | Inr r \<Rightarrow>
            (let created = (case map_of (g_nodes g) nid of None \<Rightarrow> now | Some row \<Rightarrow> if fn_created row = 0 then now else fn_created row);
                 n = \<lparr>fn_id = nid, fn_site = sid, fn_label = clean label, fn_fingerprint = clean fingerprint, fn_poll_url = Some (clean poll_url),
                      fn_role = r, fn_status = ''active'', fn_created = created, fn_updated = now\<rparr>
             in (Inr n, g\<lparr>g_nodes := AList.update nid n (g_nodes g)\<rparr>))))"

definition prune_seen :: "rat \<Rightarrow> registry \<Rightarrow> registry" where
  "prune_seen now g = g\<lparr>g_seen := filter (\<lambda>ke. \<not> snd ke \<le> now) (g_seen g)\<rparr>"

section \<open>Ingest\<close>

record claim =
  cl_trace :: string
  cl_node :: string
  cl_site :: string
  cl_label :: string
  cl_generated :: pyfloat
  cl_payload :: pydict
  cl_sig :: string

text \<open>The checks of the summary itself, up to its time.\<close>

definition read_summary :: "aenv \<Rightarrow> rat \<Rightarrow> pyval \<Rightarrow> pyexc + claim" where
  "read_summary e now summary =
     (let s = dict_of summary; clean = (\<lambda>d k. py_strip (text_of (dget d k))); node = dget s ''node''; n = dict_of node in
      if \<not> is_dict summary then Inl (ValueError ''summary_must_be_object'')
      else if clean s ''trace_id'' = [] then Inl (ValueError ''trace_id_required'')
      else if \<not> is_dict node then Inl (ValueError ''node_object_required'')
      else if clean n ''node_id'' = [] then Inl (ValueError ''node.node_id_required'')
      else if clean n ''site_id'' = [] then Inl (ValueError ''node.site_id_required'')
      else ebind (coerce_epoch e (dget (dict_of (dget s ''timestamps'')) ''generated_at'') now) (\<lambda>t.
        if float_less (FFin (now + 300) []) t then Inl (ValueError ''generated_at_in_future'')
        else Inr \<lparr>cl_trace = clean s ''trace_id'', cl_node = clean n ''node_id'', cl_site = clean n ''site_id'', cl_label = clean n ''node_label'',
               cl_generated = t, cl_payload = AList.delete ''sig'' s, cl_sig = clean s ''sig''\<rparr>))"

definition replay_key :: "aenv \<Rightarrow> claim \<Rightarrow> string" where
  "replay_key e c = cl_node c @ [CHR 0x00] @ float_repr (cl_generated c) @ [CHR 0x00] @ sha256_hex e (json_dumps (PDict (cl_payload c)))"

text \<open>Whether the signature was checked and is wrong; a missing one raises.\<close>

definition check_sig :: "aenv \<Rightarrow> registry \<Rightarrow> claim \<Rightarrow> pyexc + bool" where
  "check_sig e g c =
     (if g_secret g = None \<and> \<not> g_sig_required g then Inr False
      else if cl_sig c = [] then Inl (ValueError ''sig_missing'')
      else (case g_secret g of
          None \<Rightarrow> Inr False
        | Some k \<Rightarrow> ebind (verify_ingest_sig e (cl_payload c) (cl_node c) (cl_generated c) (cl_sig c) k) (\<lambda>ok. Inr (\<not> ok))))"

definition quarantine_node :: "rat \<Rightarrow> string \<Rightarrow> registry \<Rightarrow> registry" where
  "quarantine_node now nid g =
     (case map_of (g_nodes g) nid of
        None \<Rightarrow> g
      | Some n \<Rightarrow> g\<lparr>g_nodes := AList.update nid (n\<lparr>fn_status := ''quarantined'', fn_updated := now\<rparr>) (g_nodes g)\<rparr>)"

definition is_quarantined :: "fnode \<Rightarrow> bool" where
  "is_quarantined n = ((if fn_status n = [] then ''active'' else fn_status n) = ''quarantined'')"

definition summary_epoch :: "aenv \<Rightarrow> rat \<Rightarrow> pydict \<Rightarrow> pyexc + pyfloat" where
  "summary_epoch e dflt s = coerce_epoch e (dget (dict_of (dget s ''timestamps'')) ''generated_at'') dflt"

definition store_summary :: "rat \<Rightarrow> string \<Rightarrow> claim \<Rightarrow> registry \<Rightarrow> registry" where
  "store_summary now key c g =
     (let nid = cl_node c;
          n = (case map_of (g_nodes g) nid of
                None \<Rightarrow> \<lparr>fn_id = nid, fn_site = cl_site c, fn_label = cl_label c, fn_fingerprint = [], fn_poll_url = None, fn_role = None,
                  fn_status = ''active'', fn_created = now, fn_updated = now\<rparr>
              | Some n \<Rightarrow> n\<lparr>fn_updated := now\<rparr>)
      in g\<lparr>g_seen := AList.update key (now + of_int (g_window g)) (g_seen g),
           g_summaries := AList.update nid (cl_payload c) (g_summaries g),
           g_nodes := AList.update nid n (g_nodes g)\<rparr>)"

record receipt =
  rc_trace :: string
  rc_node :: string
  rc_generated :: pyfloat
  rc_received :: rat

definition ingest_summary :: "aenv \<Rightarrow> rat \<Rightarrow> pyval \<Rightarrow> registry \<Rightarrow> (pyexc + receipt) \<times> registry" where
  "ingest_summary e now summary g =
     (case read_summary e now summary of
        Inl x \<Rightarrow> (Inl x, g)
      | Inr c \<Rightarrow>
          (case check_sig e g c of
             Inl x \<Rightarrow> (Inl x, g)
           | Inr bad \<Rightarrow>
               if bad then (Inl (ValueError ''sig_invalid''), quarantine_node now (cl_node c) g)
               else
                 (let node = map_of (g_nodes g) (cl_node c) in
                  if (g_secret g \<noteq> None \<or> g_sig_required g) \<and> node = None then (Inl (ValueError ''node_not_registered''), g)
                  else if (case node of None \<Rightarrow> False | Some n \<Rightarrow> is_quarantined n) then (Inl (ValueError ''node_quarantined''), g)
                  else
                    (let g1 = prune_seen now g; key = replay_key e c in
                     if has_key (g_seen g1) key then (Inl (ValueError ''replay_detected''), g1)
                     else
                       (case (case map_of (g_summaries g1) (cl_node c) of
                                None \<Rightarrow> Inr False
                              | Some old \<Rightarrow> ebind (summary_epoch e 0 old) (\<lambda>prev. Inr (float_less (cl_generated c) prev))) of
                          Inl x \<Rightarrow> (Inl x, g1)
                        | Inr older \<Rightarrow>
                            if older then (Inl (ValueError ''older_summary_rejected''), g1)
                            else (Inr \<lparr>rc_trace = cl_trace c, rc_node = cl_node c, rc_generated = cl_generated c, rc_received = now\<rparr>,
                                  store_summary now key c g1))))))"

section \<open>The view\<close>

record node_view =
  v_node :: fnode
  v_last_seen :: "rat option"
  v_freshness :: string
  v_summary :: "pydict option"

text \<open>Ingest refuses a summary from the far future, so a stored time that is not finite is NaN or negative, and neither is a time the node was seen.\<close>

definition view_node :: "aenv \<Rightarrow> rat \<Rightarrow> registry \<Rightarrow> fnode \<Rightarrow> pyexc + node_view" where
  "view_node e now g n =
     (let s = (case map_of (g_summaries g) (fn_id n) of None \<Rightarrow> [] | Some s \<Rightarrow> s) in
      ebind (summary_epoch e 0 s) (\<lambda>t.
        let last_seen = (case t of FFin q _ \<Rightarrow> if 0 < q then q else fn_updated n | _ \<Rightarrow> fn_updated n)
        in Inr \<lparr>v_node = n, v_last_seen = (if 0 < last_seen then Some last_seen else None), v_freshness = freshness_status last_seen now (g_policy g),
               v_summary = (if s = [] then None else Some s)\<rparr>))"

definition list_nodes :: "aenv \<Rightarrow> rat \<Rightarrow> registry \<Rightarrow> pyexc + node_view list" where
  "list_nodes e now g = emap (view_node e now g) (sort_key fn_id (map snd (g_nodes g)))"

section \<open>The poller\<close>

text \<open>What one poll meets: the parsed answer or the failure of the request, an identifier, the clock when a missing time is filled in and at ingest.\<close>

record poll_in =
  p_answer :: "pyexc + pyval"
  p_uuid :: string
  p_filled :: rat
  p_now :: rat

definition poll_node_once :: "poll_in \<Rightarrow> pyexc + pydict" where
  "poll_node_once p =
     (case p_answer p of
        Inl x \<Rightarrow> Inl (RuntimeError ''poll_failed'')
      | Inr v \<Rightarrow> if is_dict v then Inr (dict_of v) else Inl (RuntimeError ''poll_failed''))"

text \<open>The summary a poll ingests: what the node left out is filled in, and the poller signs it for the polled node.\<close>

definition polled_summary :: "aenv \<Rightarrow> string option \<Rightarrow> fnode \<Rightarrow> poll_in \<Rightarrow> pydict \<Rightarrow> pyexc + pydict" where
  "polled_summary e secret n p s =
     (let s1 = (if is_dict (dget s ''node'') then s
                else AList.update ''node'' (PDict [(''node_id'', PStr (py_strip (fn_id n))), (''site_id'', PStr (py_strip (fn_site n)))]) s);
          s2 = (if truthy (dget s1 ''trace_id'') then s1 else AList.update ''trace_id'' (PStr (''pull-'' @ take 12 (p_uuid p))) s1);
          s3 = (if truthy (dget (dict_of (dget s2 ''timestamps'')) ''generated_at'') then s2
                else AList.update ''timestamps'' (PDict [(''generated_at'', PFloat (FFin (p_filled p) (a_float_text e (p_filled p))))]) s2)
      in case secret of
           None \<Rightarrow> Inr s3
         | Some k \<Rightarrow>
             if k = [] then Inr s3
             else ebind (summary_epoch e (p_filled p) s3) (\<lambda>t.
               Inr (AList.update ''sig'' (PStr (compute_ingest_sig e (AList.delete ''sig'' s3) (py_strip (fn_id n)) t k)) s3)))"

definition poll_node :: "aenv \<Rightarrow> string option \<Rightarrow> (string \<Rightarrow> poll_in) \<Rightarrow> fnode \<Rightarrow> registry \<Rightarrow> registry" where
  "poll_node e secret ps n g =
     (let nid = py_strip (fn_id n); url = py_strip (case fn_poll_url n of None \<Rightarrow> [] | Some u \<Rightarrow> u) in
      if nid = [] \<or> url = [] then g
      else if py_strip (fn_status n) = ''quarantined'' then g
      else (case ebind (poll_node_once (ps nid)) (polled_summary e secret n (ps nid)) of
          Inl _ \<Rightarrow> g
        | Inr s \<Rightarrow> snd (ingest_summary e (p_now (ps nid)) (PDict s) g)))"

text \<open>One round over the nodes listed at its start, until the poller is stopped.\<close>

definition poll_round :: "aenv \<Rightarrow> string option \<Rightarrow> rat \<Rightarrow> (string \<Rightarrow> poll_in) \<Rightarrow> nat \<Rightarrow> registry \<Rightarrow> pyexc + registry" where
  "poll_round e secret now ps stop_after g =
     ebind (list_nodes e now g) (\<lambda>vs. Inr (fold (\<lambda>v. poll_node e secret ps (v_node v)) (take stop_after vs) g))"

end
