(* ===== verification/AggregatorProperties.thy ===== *)
theory AggregatorProperties
  imports Aggregator
begin

text \<open>
  The registry under any sequence of registrations, ingests and polls: what it stores is well formed, authenticated and not replayed, a
  quarantine holds until the node is registered again, and dated summaries never go back in time.
\<close>

section \<open>Operations\<close>

datatype agg_op =
    Registers rat pyval pyval pyval pyval pyval pyval
  | Ingests rat pyval
  | Polls "string option" "string \<Rightarrow> poll_in" fnode

fun agg_do :: "aenv \<Rightarrow> agg_op \<Rightarrow> registry \<Rightarrow> registry" where
  "agg_do e (Registers now nid sid label fp url role) g = snd (register_node now nid sid label fp url role g)"
| "agg_do e (Ingests now s) g = snd (ingest_summary e now s g)"
| "agg_do e (Polls secret ps n) g = poll_node e secret ps n g"

fun op_time :: "agg_op \<Rightarrow> rat" where
  "op_time (Registers now _ _ _ _ _ _) = now"
| "op_time (Ingests now _) = now"
| "op_time (Polls _ ps n) = p_now (ps (py_strip (fn_id n)))"

fun op_registers :: "string \<Rightarrow> agg_op \<Rightarrow> bool" where
  "op_registers nid (Registers _ i _ _ _ _ _) = (py_strip (text_of i) = nid)"
| "op_registers nid _ = False"

text \<open>What an ingest does, by its outcome.\<close>

lemma ingest_cases:
  assumes "ingest_summary e now s g = (r, g')"
  obtains (refused) x where "r = Inl x" and "g' = g"
  | (quarantined) c where "read_summary e now s = Inr c" and "check_sig e g c = Inr True" and "r = Inl (ValueError ''sig_invalid'')"
      and "g' = quarantine_node now (cl_node c) g"
  | (pruned) x where "r = Inl x" and "g' = prune_seen now g"
  | (stored) c where "read_summary e now s = Inr c" and "check_sig e g c = Inr False"
      and "g_secret g \<noteq> None \<or> g_sig_required g \<longrightarrow> map_of (g_nodes g) (cl_node c) \<noteq> None"
      and "\<forall>n. map_of (g_nodes g) (cl_node c) = Some n \<longrightarrow> \<not> is_quarantined n"
      and "\<not> has_key (g_seen (prune_seen now g)) (replay_key e c)"
      and "\<forall>old. map_of (g_summaries g) (cl_node c) = Some old \<longrightarrow> (\<exists>prev. summary_epoch e 0 old = Inr prev \<and> \<not> float_less (cl_generated c) prev)"
      and "r = Inr \<lparr>rc_trace = cl_trace c, rc_node = cl_node c, rc_generated = cl_generated c, rc_received = now\<rparr>"
      and "g' = store_summary now (replay_key e c) c (prune_seen now g)"
proof (cases "read_summary e now s")
  case (Inl x)
  with assms show thesis by (intro refused [of x]) (simp_all add: ingest_summary_def)
next
  case c: (Inr c)
  show thesis
  proof (cases "check_sig e g c")
    case (Inl x)
    with assms c show thesis by (intro refused [of x]) (simp_all add: ingest_summary_def)
  next
    case (Inr bad)
    show thesis
    proof (cases bad)
      case True
      with assms c Inr show thesis by (intro quarantined [OF c]) (simp_all add: ingest_summary_def)
    next
      case False
      let ?old = "case map_of (g_summaries g) (cl_node c) of None \<Rightarrow> Inr False
          | Some old \<Rightarrow> ebind (summary_epoch e 0 old) (\<lambda>prev. Inr (float_less (cl_generated c) prev))"
      have sum: "g_summaries (prune_seen now g) = g_summaries g" by (simp add: prune_seen_def)
      note eq = assms [unfolded ingest_summary_def c sum.case Inr if_not_P [OF False] Let_def sum]
      show thesis
      proof (cases "(g_secret g \<noteq> None \<or> g_sig_required g) \<and> map_of (g_nodes g) (cl_node c) = None")
        case True
        with eq show thesis by (intro refused [of "ValueError ''node_not_registered''"]) simp_all
      next
        case known: False
        show thesis
        proof (cases "case map_of (g_nodes g) (cl_node c) of None \<Rightarrow> False | Some n \<Rightarrow> is_quarantined n")
          case True
          with eq known show thesis by (intro refused [of "ValueError ''node_quarantined''"]) auto
        next
          case open_node: False
          show thesis
          proof (cases "has_key (g_seen (prune_seen now g)) (replay_key e c)")
            case True
            with eq known open_node show thesis by (intro pruned [of "ValueError ''replay_detected''"]) auto
          next
            case new: False
            show thesis
            proof (cases ?old)
              case (Inl x)
              with eq known open_node new show thesis by (intro pruned [of x]) auto
            next
              case old: (Inr older)
              show thesis
              proof (cases older)
                case True
                with eq known open_node new old show thesis by (intro pruned [of "ValueError ''older_summary_rejected''"]) auto
              next
                case False
                have "\<exists>prev. summary_epoch e 0 o' = Inr prev \<and> \<not> float_less (cl_generated c) prev" if "map_of (g_summaries g) (cl_node c) = Some o'" for o'
                  using old False that by (auto simp: ebind_Inr_iff)
                moreover have "\<not> is_quarantined n" if "map_of (g_nodes g) (cl_node c) = Some n" for n using open_node that by simp
                ultimately show thesis using eq known open_node new old False Inr \<open>\<not> bad\<close> by (intro stored [OF c]) auto
              qed
            qed
          qed
        qed
      qed
    qed
  qed
qed

section \<open>Invariants\<close>

locale registry_invariant =
  fixes e :: aenv
    and inv :: "registry \<Rightarrow> bool"
  assumes inv_register: "inv g \<Longrightarrow> inv (snd (register_node now nid sid label fp url role g))"
    and inv_quarantine: "inv g \<Longrightarrow> inv (quarantine_node now k g)"
    and inv_prune: "inv g \<Longrightarrow> inv (prune_seen now g)"
    and inv_store: "inv g \<Longrightarrow> read_summary e now s = Inr c \<Longrightarrow> inv (store_summary now key c g)"
begin

lemma inv_ingest: "inv g \<Longrightarrow> inv (snd (ingest_summary e now s g))"
proof -
  assume g: "inv g"
  obtain r g' where i: "ingest_summary e now s g = (r, g')" by fastforce
  then have "inv g'" using g by (cases rule: ingest_cases) (auto intro: inv_quarantine inv_prune inv_store)
  with i show ?thesis by simp
qed

lemma inv_poll: "inv g \<Longrightarrow> inv (poll_node e secret ps n g)"
  by (auto simp: poll_node_def Let_def inv_ingest split: sum.split)

lemma inv_op: "inv g \<Longrightarrow> inv (agg_do e op g)"
  by (cases op) (simp_all add: inv_register inv_ingest inv_poll)

lemma inv_ops: "inv g \<Longrightarrow> inv (fold (agg_do e) ops g)"
  by (induction ops arbitrary: g) (simp_all add: inv_op)

lemma inv_round: "inv g \<Longrightarrow> poll_round e secret now ps k g = Inr g' \<Longrightarrow> inv g'"
proof -
  have "inv (fold (\<lambda>v. poll_node e secret ps (v_node v)) vs g)" if "inv g" for vs g
    using that by (induction vs arbitrary: g) (simp_all add: inv_poll)
  then show "inv g \<Longrightarrow> poll_round e secret now ps k g = Inr g' \<Longrightarrow> inv g'"
    by (auto simp: poll_round_def ebind_Inr_iff)
qed

end

definition node_ok :: "string \<times> fnode \<Rightarrow> bool" where
  "node_ok kn = (fst kn \<noteq> [] \<and> fn_id (snd kn) = fst kn \<and> fn_site (snd kn) \<noteq> [] \<and> fn_role (snd kn) = None \<and> fn_status (snd kn) \<in> {''active'', ''quarantined''})"

definition registry_ok :: "registry \<Rightarrow> bool" where
  "registry_ok g = (list_all node_ok (g_nodes g) \<and> distinct (map fst (g_nodes g)) \<and> distinct (map fst (g_summaries g))
     \<and> fst ` set (g_summaries g) \<subseteq> fst ` set (g_nodes g) \<and> (\<forall>s \<in> snd ` set (g_summaries g). \<not> has_key s ''sig''))"

lemma set_update_sub: "set (AList.update k v d) \<subseteq> insert (k, v) (set d)"
  by (induction d) auto

lemma all_update: "list_all P d \<Longrightarrow> P (k, v) \<Longrightarrow> list_all P (AList.update k v d)"
  using set_update_sub [of k v d] by (auto simp: list_all_iff)

lemma node_ok_of: "list_all node_ok ns \<Longrightarrow> map_of ns k = Some n \<Longrightarrow> node_ok (k, n)"
  by (auto simp: list_all_iff dest: map_of_SomeD)

lemma role_none: "normalize_node_role role = Inr r \<Longrightarrow> r = None"
  by (auto simp: normalize_node_role_def node_roles_def Let_def split: if_splits)

lemma read_fields: "read_summary e now s = Inr c \<Longrightarrow> cl_node c \<noteq> [] \<and> cl_site c \<noteq> [] \<and> cl_payload c = AList.delete ''sig'' (dict_of s)"
  by (auto simp: read_summary_def Let_def ebind_Inr_iff split: if_splits)

interpretation well_formed: registry_invariant e registry_ok for e
proof unfold_locales
  show "registry_ok (snd (register_node now nid sid label fp url role g))" if "registry_ok g" for now nid sid label fp url role g
    using that
    by (auto simp: registry_ok_def register_node_def Let_def keys_update node_ok_def role_none intro!: all_update distinct_update_keys split: sum.split)
  show "registry_ok (quarantine_node now nid g)" if "registry_ok g" for now nid g
    using that node_ok_of [of "g_nodes g" nid]
    by (auto simp: registry_ok_def quarantine_node_def keys_update node_ok_def intro!: all_update distinct_update_keys split: option.split)
  show "registry_ok (prune_seen now g)" if "registry_ok g" for now g
    using that by (simp add: registry_ok_def prune_seen_def)
  show "registry_ok (store_summary now key c g)" if "registry_ok g" "read_summary e now s = Inr c" for now s c key g
  proof -
    have sig: "\<not> has_key (cl_payload c) ''sig''" using read_fields [OF that(2)] by (simp add: has_key_def keys_delete)
    have "\<forall>t \<in> snd ` set (AList.update (cl_node c) (cl_payload c) (g_summaries g)). \<not> has_key t ''sig''"
      using that(1) sig set_update_sub [of "cl_node c" "cl_payload c" "g_summaries g"] by (auto simp: registry_ok_def)
    then show ?thesis
      using that(1) read_fields [OF that(2)] node_ok_of [of "g_nodes g" "cl_node c"]
      by (auto simp: registry_ok_def store_summary_def Let_def keys_update node_ok_def intro!: all_update distinct_update_keys split: option.split)
  qed
qed

lemma init_ok: "registry_ok (init_registry p secret required window)"
  by (simp add: registry_ok_def init_registry_def)

section \<open>Authentication\<close>

text \<open>The registry's own settings never change.\<close>

definition same_settings :: "registry \<Rightarrow> registry \<Rightarrow> bool" where
  "same_settings h g = (g_secret g = g_secret h \<and> g_sig_required g = g_sig_required h \<and> g_window g = g_window h \<and> g_policy g = g_policy h)"

interpretation settings: registry_invariant e "same_settings h" for e h
  by unfold_locales (auto simp: same_settings_def register_node_def quarantine_node_def prune_seen_def store_summary_def Let_def split: sum.split option.split)

text \<open>A summary \<open>s\<close> of node \<open>m\<close> that carries the signature of the secret.\<close>

definition authentic :: "aenv \<Rightarrow> string \<Rightarrow> rat \<Rightarrow> string \<Rightarrow> pydict \<Rightarrow> pyval \<Rightarrow> bool" where
  "authentic e k now m payload s =
     (\<exists>c. read_summary e now s = Inr c \<and> cl_node c = m \<and> cl_payload c = payload
        \<and> py_lower (cl_sig c) = compute_ingest_sig e payload m (cl_generated c) k)"

lemma check_authentic: "check_sig e g c = Inr False \<Longrightarrow> g_secret g = Some k \<Longrightarrow> py_lower (cl_sig c) = compute_ingest_sig e (cl_payload c) (cl_node c) (cl_generated c) k"
  by (auto simp: check_sig_def verify_ingest_sig_def Let_def ebind_Inr_iff split: if_splits)

lemma quarantine_same [simp]: "g_summaries (quarantine_node now k g) = g_summaries g" "g_seen (quarantine_node now k g) = g_seen g"
  by (simp_all add: quarantine_node_def split: option.split)

lemma prune_same [simp]: "g_summaries (prune_seen now g) = g_summaries g" "g_nodes (prune_seen now g) = g_nodes g"
  by (simp_all add: prune_seen_def)

lemma register_same [simp]: "g_summaries (snd (register_node now nid sid label fp url role g)) = g_summaries g"
  "g_seen (snd (register_node now nid sid label fp url role g)) = g_seen g"
  by (simp_all add: register_node_def Let_def split: sum.split)

lemma store_same: "map_of (g_summaries (store_summary now key c g)) m = (if m = cl_node c then Some (cl_payload c) else map_of (g_summaries g) m)"
  by (simp add: store_summary_def Let_def map_of_update)

text \<open>An ingest, direct or by a poll, that changes what is stored of a node.\<close>

lemma op_ingests:
  assumes "agg_do e op g \<noteq> g" and "\<not> (\<exists>t a b c d f r. op = Registers t a b c d f r)"
  obtains s where "agg_do e op g = snd (ingest_summary e (op_time op) s g)"
  using assms by (cases op) (auto simp: poll_node_def Let_def split: if_splits sum.splits)

lemma summary_change:
  assumes "map_of (g_summaries (agg_do e op g)) m \<noteq> map_of (g_summaries g) m"
  obtains s c where "read_summary e (op_time op) s = Inr c" and "cl_node c = m" and "check_sig e g c = Inr False"
    and "g_secret g \<noteq> None \<or> g_sig_required g \<longrightarrow> map_of (g_nodes g) m \<noteq> None" and "\<forall>n. map_of (g_nodes g) m = Some n \<longrightarrow> \<not> is_quarantined n"
    and "\<forall>old. map_of (g_summaries g) m = Some old \<longrightarrow> (\<exists>prev. summary_epoch e 0 old = Inr prev \<and> \<not> float_less (cl_generated c) prev)"
    and "map_of (g_summaries (agg_do e op g)) m = Some (cl_payload c)"
proof -
  have "agg_do e op g \<noteq> g" "\<not> (\<exists>t a b c d f r. op = Registers t a b c d f r)" using assms by auto
  then obtain s where s: "agg_do e op g = snd (ingest_summary e (op_time op) s g)" by (rule op_ingests)
  obtain r g' where i: "ingest_summary e (op_time op) s g = (r, g')" by fastforce
  then show thesis
  proof (cases rule: ingest_cases)
    case (stored c)
    have "cl_node c = m" using assms s i stored(8) by (auto simp: store_same split: if_splits)
    with stored s i show thesis by (intro that [of s c]) (simp_all add: store_same)
  qed (use assms s i in auto)
qed

section \<open>Replay\<close>

definition holds_key :: "string \<Rightarrow> rat \<Rightarrow> registry \<Rightarrow> bool" where
  "holds_key key until g = (\<exists>x. map_of (g_seen g) key = Some x \<and> until \<le> x)"

lemma map_of_filter_keep: "map_of d k = Some v \<Longrightarrow> P (k, v) \<Longrightarrow> map_of (filter P d) k = Some v"
  by (induction d) auto

lemma prune_holds: "holds_key key until g \<Longrightarrow> now < until \<Longrightarrow> holds_key key until (prune_seen now g)"
  by (auto simp: holds_key_def prune_seen_def intro!: map_of_filter_keep)

lemma ingest_holds:
  assumes "holds_key key until g" and "now < until"
  shows "holds_key key until (snd (ingest_summary e now s g))"
proof -
  obtain r g' where i: "ingest_summary e now s g = (r, g')" by fastforce
  then have "holds_key key until g'"
  proof (cases rule: ingest_cases)
    case (stored c)
    have p: "holds_key key until (prune_seen now g)" by (rule prune_holds [OF assms])
    have "replay_key e c \<noteq> key" using stored(5) p by (auto simp: holds_key_def has_key_map_of)
    with p show ?thesis by (simp add: stored(8) holds_key_def store_summary_def Let_def map_of_update)
  qed (use assms prune_holds in \<open>auto simp: holds_key_def\<close>)
  with i show ?thesis by simp
qed

lemma op_holds: "holds_key key until g \<Longrightarrow> op_time op < until \<Longrightarrow> holds_key key until (agg_do e op g)"
proof (cases op)
  case (Polls secret ps n)
  moreover assume "holds_key key until g" "op_time op < until"
  ultimately show ?thesis by (auto simp: poll_node_def Let_def ingest_holds split: sum.split)
qed (auto simp: ingest_holds, auto simp: holds_key_def)

lemma ops_hold: "holds_key key until g \<Longrightarrow> \<forall>op \<in> set ops. op_time op < until \<Longrightarrow> holds_key key until (fold (agg_do e) ops g)"
  by (induction ops arbitrary: g) (simp_all add: op_holds)

lemma dated_claim:
  assumes "read_summary e t s = Inr c" and "dget (dict_of (dget (dict_of s) ''timestamps'')) ''generated_at'' = PFloat f"
    and "read_summary e t' s = Inr c'"
  shows "c' = c \<and> cl_generated c = f"
  using assms by (auto simp: read_summary_def Let_def coerce_epoch_def split: if_splits)

section \<open>Quarantine\<close>

lemma quarantined_set [simp]: "is_quarantined (n\<lparr>fn_status := ''quarantined'', fn_updated := t\<rparr>)"
  by (simp add: is_quarantined_def)

definition shut :: "string \<Rightarrow> pydict option \<Rightarrow> registry \<Rightarrow> bool" where
  "shut m s g = ((\<exists>n. map_of (g_nodes g) m = Some n \<and> is_quarantined n) \<and> map_of (g_summaries g) m = s)"

lemma ingest_shut:
  assumes "shut m x g"
  shows "shut m x (snd (ingest_summary e now s g))"
proof -
  obtain r g' where i: "ingest_summary e now s g = (r, g')" by fastforce
  then have "shut m x g'"
  proof (cases rule: ingest_cases)
    case (stored c)
    then have "cl_node c \<noteq> m" using assms by (auto simp: shut_def)
    with assms show ?thesis by (simp add: stored(8) shut_def store_summary_def Let_def map_of_update)
  next
    case (quarantined c)
    with assms show ?thesis by (auto simp: shut_def quarantine_node_def map_of_update split: option.split)
  qed (use assms in \<open>simp_all add: shut_def\<close>)
  with i show ?thesis by simp
qed

lemma op_shut: "shut m x g \<Longrightarrow> \<not> op_registers m op \<Longrightarrow> shut m x (agg_do e op g)"
proof (cases op)
  case (Registers t i sid label fp url role)
  moreover assume "shut m x g" "\<not> op_registers m op"
  ultimately show ?thesis by (auto simp: shut_def register_node_def Let_def map_of_update split: sum.split)
next
  case (Polls secret ps n)
  moreover assume "shut m x g"
  ultimately show ?thesis by (auto simp: poll_node_def Let_def ingest_shut split: sum.split)
qed (simp add: ingest_shut)

lemma ops_shut: "shut m x g \<Longrightarrow> \<forall>op \<in> set ops. \<not> op_registers m op \<Longrightarrow> shut m x (fold (agg_do e) ops g)"
  by (induction ops arbitrary: g) (simp_all add: op_shut)

section \<open>Properties\<close>

text \<open>C12. In a registry with a secret, what is stored of a node changes only to a summary that names the node and carries the secret's
  signature over its digest, its time and the node, and only while the node is registered and not quarantined.\<close>

theorem stored_summaries_are_authentic:
  assumes "g_secret g = Some k" and "map_of (g_summaries (agg_do e op g)) m \<noteq> map_of (g_summaries g) m"
  shows "\<exists>s payload n. map_of (g_summaries (agg_do e op g)) m = Some payload \<and> authentic e k (op_time op) m payload s
    \<and> map_of (g_nodes g) m = Some n \<and> \<not> is_quarantined n"
  using assms(2)
proof (rule summary_change)
  fix s c
  assume c: "read_summary e (op_time op) s = Inr c" "cl_node c = m" "check_sig e g c = Inr False"
    and node: "g_secret g \<noteq> None \<or> g_sig_required g \<longrightarrow> map_of (g_nodes g) m \<noteq> None" "\<forall>n. map_of (g_nodes g) m = Some n \<longrightarrow> \<not> is_quarantined n"
    and new: "map_of (g_summaries (agg_do e op g)) m = Some (cl_payload c)"
  have "authentic e k (op_time op) m (cl_payload c) s"
    unfolding authentic_def using c check_authentic [OF c(3) assms(1)] by auto
  with node new assms(1) show ?thesis by auto
qed


text \<open>A quarantined node stays quarantined, and what is stored of it stays as it is, under every sequence of operations that does
  not register the node again.\<close>

theorem quarantine_holds_until_registration:
  assumes "map_of (g_nodes g) m = Some n" and "is_quarantined n" and "\<forall>op \<in> set ops. \<not> op_registers m op"
  shows "(\<exists>n'. map_of (g_nodes (fold (agg_do e) ops g)) m = Some n' \<and> is_quarantined n')
    \<and> map_of (g_summaries (fold (agg_do e) ops g)) m = map_of (g_summaries g) m"
  using ops_shut [of m "map_of (g_summaries g) m" g ops e] assms by (auto simp: shut_def)

text \<open>No operation replaces what is stored of a node by a summary with an earlier time, when both carry a finite time.\<close>

theorem dated_summaries_never_go_back:
  assumes "map_of (g_summaries g) m = Some old" and "map_of (g_summaries (agg_do e op g)) m = Some new"
    and "dget (dict_of (dget old ''timestamps'')) ''generated_at'' = PFloat (FFin a x)"
    and "dget (dict_of (dget new ''timestamps'')) ''generated_at'' = PFloat (FFin b y)"
  shows "a \<le> b"
proof (cases "map_of (g_summaries (agg_do e op g)) m = map_of (g_summaries g) m")
  case True
  with assms show ?thesis by simp
next
  case False
  then show ?thesis
  proof (rule summary_change)
    fix s c
    assume c: "read_summary e (op_time op) s = Inr c" "map_of (g_summaries (agg_do e op g)) m = Some (cl_payload c)"
      and prev: "\<forall>old. map_of (g_summaries g) m = Some old \<longrightarrow> (\<exists>prev. summary_epoch e 0 old = Inr prev \<and> \<not> float_less (cl_generated c) prev)"
    have new: "new = AList.delete ''sig'' (dict_of s)" using read_fields [OF c(1)] c(2) assms(2) by simp
    then have "dget (dict_of (dget (dict_of s) ''timestamps'')) ''generated_at'' = PFloat (FFin b y)"
      using assms(4) by (simp add: dget_def map_of_delete)
    from dated_claim [OF c(1) this c(1)] have "cl_generated c = FFin b y" by simp
    then show ?thesis using prev assms(1,3) by (auto simp: summary_epoch_def coerce_epoch_def)
  qed
qed

text \<open>In every state the registry can reach, each node is stored once under its own name with a site, a known status and no role, every
  stored summary belongs to a stored node, and no signature is kept.\<close>

theorem registry_is_well_formed: "registry_ok (fold (agg_do e) ops (init_registry p secret required window))"
  by (rule well_formed.inv_ops [OF init_ok])

section \<open>Examples\<close>

definition ex_agg :: aenv where
  "ex_agg = \<lparr>a_sha = (\<lambda>_. ''d''), a_hmac = (\<lambda>_ _. ''s''), a_iso = (\<lambda>_. None), a_float_text = (\<lambda>_. ''1.0'')\<rparr>"

definition ex_summary :: "pydict \<Rightarrow> pyval" where
  "ex_summary ts = PDict [(''trace_id'', PStr ''t''), (''node'', PDict [(''node_id'', PStr ''n''), (''site_id'', PStr ''hq'')]),
     (''timestamps'', PDict ts), (''sig'', PStr ''s'')]"

definition ex_dated :: "rat \<Rightarrow> string \<Rightarrow> pyval" where "ex_dated q x = ex_summary [(''generated_at'', PFloat (FFin q x))]"

definition ex_node :: fnode where
  "ex_node = \<lparr>fn_id = ''n'', fn_site = ''hq'', fn_label = [], fn_fingerprint = [], fn_poll_url = Some [], fn_role = None, fn_status = ''active'',
     fn_created = 1, fn_updated = 1\<rparr>"

definition ex_registry :: "string option \<Rightarrow> registry" where
  "ex_registry secret = (init_registry None secret False 300)\<lparr>g_nodes := [(''n'', ex_node)]\<rparr>"

definition ex_registry1 :: registry where "ex_registry1 = agg_do ex_agg (Ingests 100 (ex_dated 100 ''100.0'')) (ex_registry (Some ''k''))"

lemmas ex_agg_simps = ex_agg_def ex_summary_def ex_dated_def ex_node_def ex_registry_def init_registry_def ingest_summary_def read_summary_def Let_def dict_simps
  py_strip_def is_space_def coerce_epoch_def check_sig_def verify_ingest_sig_def compute_ingest_sig_def hmac_sha256_hex_def sha256_hex_def is_ascii_def py_lower_def
  char_lower_def is_upper_def is_quarantined_def prune_seen_def has_key_def store_summary_def replay_key_def summary_epoch_def

lemma ex_claim: "read_summary ex_agg 100 (ex_dated 100 ''100.0'') = Inr \<lparr>cl_trace = ''t'', cl_node = ''n'', cl_site = ''hq'', cl_label = [], cl_generated = FFin 100 ''100.0'',
    cl_payload = AList.delete ''sig'' (dict_of (ex_dated 100 ''100.0'')), cl_sig = ''s''\<rparr>"
  by (simp add: ex_agg_simps text_of_def py_or_def)

lemma ex_accepted: "\<exists>r. ingest_summary ex_agg 100 (ex_dated 100 ''100.0'') (ex_registry (Some ''k'')) = (Inr r, ex_registry1)"
  "map_of (g_summaries ex_registry1) ''n'' = Some (AList.delete ''sig'' (dict_of (ex_dated 100 ''100.0'')))"
  by (simp_all add: ex_registry1_def ingest_summary_def ex_claim)
    (simp_all add: ex_agg_simps)

theorem stored_summaries_are_authentic_witness:
  "\<exists>s payload n. map_of (g_summaries ex_registry1) ''n'' = Some payload \<and> authentic ex_agg ''k'' 100 ''n'' payload s
    \<and> map_of (g_nodes (ex_registry (Some ''k''))) ''n'' = Some n \<and> \<not> is_quarantined n"
proof -
  have "g_secret (ex_registry (Some ''k'')) = Some ''k''" "map_of (g_summaries (ex_registry (Some ''k''))) ''n'' = None" by (simp_all add: ex_registry_def init_registry_def)
  with ex_accepted(2) show ?thesis
    using stored_summaries_are_authentic [of "ex_registry (Some ''k'')" "''k''" ex_agg "Ingests 100 (ex_dated 100 ''100.0'')" "''n''", folded ex_registry1_def]
    by (simp only: op_time.simps) simp
qed


definition ex_shut :: registry where
  "ex_shut = ex_registry1\<lparr>g_nodes := [(''n'', ex_node\<lparr>fn_status := ''quarantined''\<rparr>)]\<rparr>"

theorem quarantine_holds_until_registration_witness:
  "map_of (g_summaries (fold (agg_do ex_agg) [Ingests 200 (ex_dated 200 ''200.0'')] ex_shut)) ''n'' = map_of (g_summaries ex_shut) ''n''"
  using quarantine_holds_until_registration [of ex_shut "''n''" "ex_node\<lparr>fn_status := ''quarantined''\<rparr>" "[Ingests 200 (ex_dated 200 ''200.0'')]" ex_agg]
  by (simp add: ex_shut_def is_quarantined_def)

lemma ex_replaced: "map_of (g_summaries (agg_do ex_agg (Ingests 200 (ex_dated 200 ''200.0'')) ex_registry1)) ''n'' = Some (AList.delete ''sig'' (dict_of (ex_dated 200 ''200.0'')))"
  by (simp add: ex_registry1_def ingest_summary_def [of _ 100] ex_claim) (simp add: ex_agg_simps text_of_def py_or_def)

theorem dated_summaries_never_go_back_witness:
  "\<exists>a b. map_of (g_summaries ex_registry1) ''n'' = Some a \<and> map_of (g_summaries (agg_do ex_agg (Ingests 200 (ex_dated 200 ''200.0'')) ex_registry1)) ''n'' = Some b \<and> (100 :: rat) \<le> 200"
  using dated_summaries_never_go_back [OF ex_accepted(2) ex_replaced, of 100 "''100.0''" 200 "''200.0''"] ex_accepted(2) ex_replaced
  by (simp add: ex_dated_def ex_summary_def dict_simps)

section \<open>Limits\<close>

text \<open>A summary without a time is stored as if it were dated at the epoch: an older summary is accepted after it.\<close>

lemma undated_summary_reopens_the_past:
  defines "g1 \<equiv> agg_do ex_agg (Ingests 1000 (ex_dated 900 ''900.0'')) (ex_registry None)"
  defines "g2 \<equiv> agg_do ex_agg (Ingests 1001 (ex_summary [])) g1"
  shows "map_of (g_summaries (agg_do ex_agg (Ingests 1002 (ex_dated 500 ''500.0'')) g1)) ''n'' = map_of (g_summaries g1) ''n''"
    and "map_of (g_summaries (agg_do ex_agg (Ingests 1002 (ex_dated 500 ''500.0'')) g2)) ''n'' = Some (AList.delete ''sig'' (dict_of (ex_dated 500 ''500.0'')))"
  by (simp_all add: g1_def g2_def ex_agg_simps text_of_def py_or_def)

text \<open>So is a summary whose time is NaN, which every comparison lets pass.\<close>

lemma nan_summary_reopens_the_past:
  defines "g1 \<equiv> agg_do ex_agg (Ingests 1000 (ex_dated 900 ''900.0'')) (ex_registry (Some ''k''))"
  defines "g2 \<equiv> agg_do ex_agg (Ingests 1001 (ex_summary [(''generated_at'', PFloat FNan)])) g1"
  shows "map_of (g_summaries (agg_do ex_agg (Ingests 1002 (ex_dated 500 ''500.0'')) g1)) ''n'' = map_of (g_summaries g1) ''n''"
    and "map_of (g_summaries (agg_do ex_agg (Ingests 1002 (ex_dated 500 ''500.0'')) g2)) ''n'' = Some (AList.delete ''sig'' (dict_of (ex_dated 500 ''500.0'')))"
  by (simp_all add: g1_def g2_def ex_agg_simps text_of_def py_or_def)

text \<open>The poller signs an answer for the node it polled, whatever node the answer names: an answer of one node in the name of another quarantines the
  other.\<close>

lemma delete_of_update: "AList.delete k (AList.update k v d) = AList.delete k d"
  by (induction d) auto

lemma poll_answer_quarantines_the_named_node:
  assumes "g_secret g = Some k" and "k \<noteq> []" and "py_strip (fn_id n) \<noteq> []" and "fn_poll_url n = Some url" and "py_strip url \<noteq> []" and "py_strip (fn_status n) \<noteq> ''quarantined''"
    and "p_answer (ps (py_strip (fn_id n))) = Inr (PDict s)" and "read_summary e (p_now (ps (py_strip (fn_id n)))) (PDict s) = Inr c"
    and "dget (dict_of (dget s ''timestamps'')) ''generated_at'' = PFloat f" and "truthy (PFloat f)"
    and "given = compute_ingest_sig e (AList.delete ''sig'' s) (py_strip (fn_id n)) f k" and "expected = compute_ingest_sig e (AList.delete ''sig'' s) (cl_node c) f k"
    and "is_ascii expected" and "is_ascii (py_lower given)" and "py_strip given = given" and "given \<noteq> []" and "expected \<noteq> py_lower given"
    and "map_of (g_nodes g) (cl_node c) = Some x"
  shows "map_of (g_nodes (poll_node e (Some k) ps n g)) (cl_node c) = Some (x\<lparr>fn_status := ''quarantined'', fn_updated := p_now (ps (py_strip (fn_id n)))\<rparr>)"
proof -
  let ?p = "ps (py_strip (fn_id n))"
  let ?s = "AList.update ''sig'' (PStr given) s"
  have fields: "is_dict (dget s ''node'')" "truthy (dget s ''trace_id'')" "cl_generated c = f"
  proof -
    show "is_dict (dget s ''node'')" using assms(8) by (auto simp: read_summary_def Let_def split: if_splits)
    have "text_of (dget s ''trace_id'') \<noteq> []" using assms(8) by (auto simp: read_summary_def Let_def py_strip_def split: if_splits)
    then show "truthy (dget s ''trace_id'')" by (auto simp: text_of_def py_or_def split: if_splits)
    show "cl_generated c = f" using dated_claim [OF assms(8) _ assms(8), of f] assms(9) by simp
  qed
  have polled: "polled_summary e (Some k) n ?p s = Inr ?s"
    using fields assms(2,9,10,11) by (simp add: polled_summary_def Let_def summary_epoch_def coerce_epoch_def)
  have "read_summary e (p_now ?p) (PDict ?s) = Inr (c\<lparr>cl_sig := given\<rparr>)"
    using assms(8,15) by (auto simp: read_summary_def Let_def dget_update delete_of_update ebind_Inr_iff split: if_splits)
  moreover have "check_sig e g (c\<lparr>cl_sig := given\<rparr>) = Inr True"
    using assms(1,12-14,16,17) fields(3) read_fields [OF assms(8)] by (simp add: check_sig_def verify_ingest_sig_def Let_def)
  ultimately have "snd (ingest_summary e (p_now ?p) (PDict ?s) g) = quarantine_node (p_now ?p) (cl_node c) g" by (simp add: ingest_summary_def)
  then show ?thesis using assms(3-7,18) polled by (simp add: poll_node_def Let_def poll_node_once_def quarantine_node_def map_of_update)
qed

end
