(* ===== verification/Delivery.thy ===== *)
theory Delivery
  imports AuditChain
begin

text \<open>
  Delivery of notifications (\<open>py/azazel_edge/notify/delivery.py\<close>): the adapters, the offline queue with its flush, and the notifier that tries the
  adapters in order and writes the notification's audit record.

  What the network answers is a \<open>net\<close> record of functions. The queue file is \<open>None\<close> when there is none, else its lines; the audit log is
  the logger of the audit chain. The queue's locks make each read-modify-write one step; a flush reads, delivers without the lock and
  then removes what it delivered, so a send may come between.
\<close>

section \<open>Payloads\<close>

definition ALERT_CLASS_P0 :: string where "ALERT_CLASS_P0 = ''P0''"
definition ALERT_CLASS_RULE :: string where "ALERT_CLASS_RULE = ''edge-alert-class/v1:notify-at-critical-is-P0''"

definition classify_alert :: "string \<Rightarrow> string \<Rightarrow> string" where
  "classify_alert action level = (if action = ''notify'' \<and> level = ''critical'' then ALERT_CLASS_P0 else [])"

fun exc_text :: "pyexc \<Rightarrow> string" where
  "exc_text (ValueError s) = s"
| "exc_text (TypeError s) = s"
| "exc_text (OverflowError s) = s"
| "exc_text (AttributeError s) = s"
| "exc_text (KeyError s) = s"
| "exc_text (RuntimeError s) = s"
| "exc_text (OSError s) = s"

text \<open>\<open>','.join(xs)\<close>: every element must be text; a text is joined character by character.\<close>

definition join_text :: "pyval \<Rightarrow> pyexc + string" where
  "join_text v =
     (case v of
        PList xs \<Rightarrow> if list_all is_text xs then Inr (join '','' (map py_str xs)) else Inl (TypeError [])
      | PStr s \<Rightarrow> Inr (join '','' (map (\<lambda>c. [c]) s))
      | PDict d \<Rightarrow> Inr (join '','' (map fst d))
      | _ \<Rightarrow> Inl (TypeError []))"

definition char_upper :: "char \<Rightarrow> char" where
  "char_upper c = (if is_lower c then char_of (of_char c - 32 :: nat) else c)"

section \<open>Adapters\<close>

datatype adapter =
    Ntfy string string string
  | Mattermost string
  | Webhook string
  | Smtp string int string string
  | SyslogCEF string
  | OfflineQueue int

record net =
  net_post :: "string \<Rightarrow> string \<Rightarrow> pyval \<Rightarrow> pyexc + int"
  net_mail :: "string \<Rightarrow> int \<Rightarrow> string \<Rightarrow> string \<Rightarrow> string \<Rightarrow> string \<Rightarrow> pyexc + unit"
  net_syslog :: "string \<Rightarrow> string \<Rightarrow> pyexc + unit"

definition rstrip_slash :: "string \<Rightarrow> string" where
  "rstrip_slash s = rev (dropWhile (\<lambda>c. c = CHR ''/'') (rev s))"

definition strip_slash :: "string \<Rightarrow> string" where
  "strip_slash s = rstrip_slash (dropWhile (\<lambda>c. c = CHR ''/'') s)"

text \<open>A POST: a request that fails and a status of 400 or more raise.\<close>

definition post_json :: "net \<Rightarrow> string \<Rightarrow> string \<Rightarrow> string \<Rightarrow> pyval \<Rightarrow> pyexc + pydict" where
  "post_json w name url auth body =
     (case net_post w url auth body of
        Inl x \<Rightarrow> Inl (RuntimeError (name @ ''_send_failed:'' @ exc_text x))
      | Inr status \<Rightarrow>
          if 400 \<le> status then Inl (RuntimeError (name @ ''_send_failed_status:'' @ int_str status))
          else Inr [(''ok'', PBool True), (''adapter'', PStr name), (''status'', PInt status)])"

definition send_ntfy :: "net \<Rightarrow> string \<Rightarrow> string \<Rightarrow> string \<Rightarrow> pydict \<Rightarrow> pyexc + pydict" where
  "send_ntfy w base topic auth payload = post_json w ''ntfy'' (rstrip_slash base @ ''/'' @ strip_slash topic) auth (PDict payload)"

definition send_mattermost :: "net \<Rightarrow> string \<Rightarrow> pydict \<Rightarrow> pyexc + pydict" where
  "send_mattermost w url payload =
     ebind (join_text (dget_or payload ''evidence_ids'' (PList []))) (\<lambda>ev.
       let text = ''['' @ py_str (dget_or payload ''level'' (PStr ''info'')) @ ''] action='' @ py_str (dget payload ''action'')
             @ '' target='' @ py_str (dget payload ''target'') @ '' reason='' @ py_str (dget payload ''reason'') @ '' evidence='' @ ev
       in post_json w ''mattermost'' url [] (PDict [(''text'', PStr text)]))"

definition send_webhook :: "net \<Rightarrow> string \<Rightarrow> pydict \<Rightarrow> pyexc + pydict" where
  "send_webhook w url payload =
     (if py_strip url = [] then Inl (RuntimeError ''webhook_send_failed:missing_url'')
      else post_json w ''webhook'' (py_strip url) [] (PDict payload))"

text \<open>A header with a line break is refused by the mail library.\<close>

definition header_ok :: "string \<Rightarrow> bool" where
  "header_ok s = (CHR 0x0A \<notin> set s \<and> CHR 0x0D \<notin> set s)"

definition send_smtp :: "net \<Rightarrow> string \<Rightarrow> int \<Rightarrow> string \<Rightarrow> string \<Rightarrow> pydict \<Rightarrow> pyexc + pydict" where
  "send_smtp w host port sender recipient payload =
     (let h = py_strip host; s = py_strip sender; r = py_strip recipient; level = dget_or payload ''level'' (PStr ''info'') in
      if h = [] \<or> s = [] \<or> r = [] then Inl (RuntimeError ''smtp_send_failed:missing_config'')
      else if \<not> header_ok s \<or> \<not> header_ok r then Inl (ValueError [])
      else if \<not> is_text level then Inl (AttributeError [])
      else
        (let subject = ''[Azazel-Edge] '' @ map char_upper (py_str level) @ '' '' @ py_str (dget_or payload ''action'' (PStr ''-'')) in
         if \<not> header_ok subject then Inl (ValueError [])
         else
           ebind (join_text (dget_or payload ''evidence_ids'' (PList []))) (\<lambda>ev.
             let line = (\<lambda>k. k @ ''='' @ py_str (dget payload k) @ [CHR 0x0A]);
                 body = line ''target'' @ line ''reason'' @ ''evidence='' @ ev @ [CHR 0x0A] @ line ''incident_id'' @ line ''runbook_candidate_id'' @ line ''operator_wording''
             in case net_mail w h port s r subject body of
                  Inl x \<Rightarrow> Inl (RuntimeError (''smtp_send_failed:'' @ exc_text x))
                | Inr _ \<Rightarrow> Inr [(''ok'', PBool True), (''adapter'', PStr ''smtp''), (''status'', PInt 250)])))"

definition CEF_SEVERITY_MAP :: "(string \<times> int) list" where
  "CEF_SEVERITY_MAP = [(''critical'', 10), (''high'', 8), (''warning'', 5), (''info'', 3)]"

definition build_cef :: "pydict \<Rightarrow> pyexc + string" where
  "build_cef payload =
     (let action = py_str (py_or (dget payload ''action'') (PStr ''observe''));
          tx = (\<lambda>k. text_of (dget payload k));
          level = py_lower (py_str (py_or (dget payload ''level'') (PStr ''info'')));
          severity = (case map_of CEF_SEVERITY_MAP level of None \<Rightarrow> 3 | Some n \<Rightarrow> n)
      in ebind (iter_val (dget_or payload ''evidence_ids'' (PList []))) (\<lambda>evs.
           Inr (''CEF:0|Azazel-Edge|AzazelEdge|1.0|'' @ ''arbiter_'' @ action @ ''|'' @ ''Azazel-Edge arbiter: '' @ action @ ''|'' @ int_str severity @ ''|''
             @ ''act='' @ action @ '' '' @ ''reason='' @ tx ''reason'' @ '' '' @ ''dst='' @ tx ''target'' @ '' '' @ ''cs1='' @ join '','' (map py_str evs) @ '' ''
             @ ''cs1Label=evidence_ids '' @ ''cs2='' @ tx ''incident_id'' @ '' '' @ ''cs2Label=incident_id '' @ ''msg='' @ tx ''operator_wording'')))"

definition send_syslog :: "net \<Rightarrow> string \<Rightarrow> pydict \<Rightarrow> pyexc + pydict" where
  "send_syslog w host payload =
     (if py_strip host = [] then Inl (RuntimeError ''syslog_cef_send_failed:missing_host'')
      else
        ebind (build_cef payload) (\<lambda>line.
          case net_syslog w (py_strip host) line of
            Inl x \<Rightarrow> Inl (RuntimeError (''syslog_cef_send_failed:'' @ exc_text x))
          | Inr _ \<Rightarrow> Inr [(''ok'', PBool True), (''adapter'', PStr ''syslog_cef''), (''status'', PInt 200), (''cef'', PStr line)]))"

section \<open>The offline queue\<close>

text \<open>What one call meets: whether the lock can be taken and the file read, how the write goes, and the clocks. A write fails before the new file
  replaces the old one, or when the directory is synced after it.\<close>

datatype replaced = Replaced | NotReplaced string | ReplacedUnsynced string

record oqio =
  oq_lock :: "string option"
  oq_unreadable :: "string option"
  oq_write :: replaced
  oq_queued_at :: string
  oq_mono :: int
  oq_boot :: string

type_synonym queue_file = "fline list option"

definition summary_payload :: "oqio \<Rightarrow> pydict \<Rightarrow> pydict" where
  "summary_payload io p =
     (let tx = (\<lambda>k. PStr (text_of (dget p k))) in
      [(''action'', tx ''action''), (''reason'', tx ''reason''), (''target'', tx ''target''), (''level'', PStr (py_str (py_or (dget p ''level'') (PStr ''info'')))),
       (''incident_id'', tx ''incident_id''), (''operator_wording'', tx ''operator_wording''), (''decision_id'', tx ''decision_id''), (''alert_class'', tx ''alert_class''),
       (''queued_at'', PStr (oq_queued_at io)), (''enqueued_monotonic_ns'', PInt (oq_mono io)), (''boot_id'', PStr (oq_boot io))])"

fun line_value :: "fline \<Rightarrow> pyval option" where
  "line_value (Row v) = Some v"
| "line_value (Junk _) = None"

definition queue_entries :: "queue_file \<Rightarrow> pyval list" where
  "queue_entries f = (case f of None \<Rightarrow> [] | Some ls \<Rightarrow> List.map_filter line_value ls)"

definition read_queue :: "oqio \<Rightarrow> queue_file \<Rightarrow> pyexc + pyval list" where
  "read_queue io f =
     (case oq_lock io of
        Some x \<Rightarrow> Inl (OSError x)
      | None \<Rightarrow> (case f of None \<Rightarrow> Inr [] | Some _ \<Rightarrow> (case oq_unreadable io of Some x \<Rightarrow> Inl (OSError x) | None \<Rightarrow> Inr (queue_entries f))))"

definition write_entries :: "oqio \<Rightarrow> pyval list \<Rightarrow> queue_file \<Rightarrow> (pyexc + unit) \<times> queue_file" where
  "write_entries io vs f =
     (case oq_write io of
        Replaced \<Rightarrow> (Inr (), Some (map Row vs))
      | NotReplaced x \<Rightarrow> (Inl (OSError x), f)
      | ReplacedUnsynced x \<Rightarrow> (Inl (OSError x), Some (map Row vs)))"

text \<open>\<open>xs[-n:]\<close> for any integer \<open>n\<close>: all of the list when \<open>n\<close> is zero.\<close>

definition slice_last :: "int \<Rightarrow> 'a list \<Rightarrow> 'a list" where
  "slice_last n xs = (if 0 < n then lastn (nat n) xs else drop (nat (- n)) xs)"

definition send_offline :: "oqio \<Rightarrow> int \<Rightarrow> pydict \<Rightarrow> queue_file \<Rightarrow> pydict \<times> queue_file" where
  "send_offline io max_entries payload f =
     (let bad = (\<lambda>x. [(''ok'', PBool False), (''adapter'', PStr ''offline_queue''), (''error'', PStr (exc_text x))]) in
      case read_queue io f of
        Inl x \<Rightarrow> (bad x, f)
      | Inr old \<Rightarrow>
          (let vs = old @ [PDict (summary_payload io payload)];
               kept = (if max_entries < int (length vs) then slice_last max_entries vs else vs);
               (res, f') = write_entries io kept f
           in (case res of
                 Inl x \<Rightarrow> bad x
               | Inr _ \<Rightarrow> [(''ok'', PBool True), (''adapter'', PStr ''offline_queue''), (''queued'', PInt (int (length kept)))], f')))"

record flushed =
  fl_flushed :: nat
  fl_failed :: nat
  fl_remaining :: nat

text \<open>A flush in its three parts: the snapshot (\<open>None\<close> when there is no file), the deliveries, the removal of what was delivered.\<close>

definition flush_snapshot :: "oqio \<Rightarrow> queue_file \<Rightarrow> pyexc + pyval list option" where
  "flush_snapshot io f = (case f of None \<Rightarrow> ebind (read_queue io f) (\<lambda>_. Inr None) | Some _ \<Rightarrow> ebind (read_queue io f) (\<lambda>vs. Inr (Some vs)))"

definition delivered_ok :: "(pyval \<Rightarrow> pyexc + pyval) \<Rightarrow> pyval \<Rightarrow> bool" where
  "delivered_ok deliver v = (case deliver v of Inl _ \<Rightarrow> False | Inr r \<Rightarrow> is_dict r \<and> truthy (dget (dict_of r) ''ok''))"

text \<open>The entries delivered; the answer to each may depend on when it is sent.\<close>

definition delivered :: "(nat \<Rightarrow> pyval \<Rightarrow> pyexc + pyval) \<Rightarrow> pyval list \<Rightarrow> pyval list" where
  "delivered deliver vs = map snd (filter (\<lambda>iv. delivered_ok (deliver (fst iv)) (snd iv)) (enumerate 0 vs))"

fun remove_key :: "string \<Rightarrow> pyval list \<Rightarrow> pyval list" where
  "remove_key k [] = []"
| "remove_key k (v # vs) = (if json_dumps v = k then vs else v # remove_key k vs)"

definition flush_remove :: "oqio \<Rightarrow> bool \<Rightarrow> string list \<Rightarrow> queue_file \<Rightarrow> (pyexc + nat) \<times> queue_file" where
  "flush_remove io unlinked keys f =
     (case read_queue io f of
        Inl x \<Rightarrow> (Inl x, f)
      | Inr vs \<Rightarrow>
          (let rest = fold remove_key keys vs in
           if rest \<noteq> [] then (let (res, f') = write_entries io rest f in (ebind res (\<lambda>_. Inr (length rest)), f'))
           else if f = None \<or> unlinked then (Inr 0, None)
           else (Inl (OSError []), f)))"

text \<open>The whole flush; \<open>between\<close> is what other threads do to the queue while the entries are delivered.\<close>

definition flush_queue :: "oqio \<Rightarrow> oqio \<Rightarrow> bool \<Rightarrow> (nat \<Rightarrow> pyval \<Rightarrow> pyexc + pyval) \<Rightarrow> (queue_file \<Rightarrow> queue_file) \<Rightarrow> queue_file \<Rightarrow> (pyexc + flushed) \<times> queue_file" where
  "flush_queue io1 io2 unlinked deliver between f =
     (case flush_snapshot io1 f of
        Inl x \<Rightarrow> (Inl x, f)
      | Inr None \<Rightarrow> (Inr \<lparr>fl_flushed = 0, fl_failed = 0, fl_remaining = 0\<rparr>, f)
      | Inr (Some vs) \<Rightarrow>
          (let done = delivered deliver vs;
               (res, f') = flush_remove io2 unlinked (map json_dumps done) (between f)
           in (ebind res (\<lambda>n. Inr \<lparr>fl_flushed = length done, fl_failed = length vs - length done, fl_remaining = n\<rparr>), f')))"

definition queue_depth :: "queue_file \<Rightarrow> nat" where
  "queue_depth f = (case f of None \<Rightarrow> 0 | Some ls \<Rightarrow> length (filter (\<lambda>l. py_strip (line_text l) \<noteq> []) ls))"

section \<open>The notifier\<close>

record dworld =
  dw_queue :: queue_file
  dw_log :: alog

record denviron =
  de_net :: net
  de_queue :: oqio
  de_sha :: "string \<Rightarrow> string"
  de_sys :: sys

definition send_adapter :: "net \<Rightarrow> oqio \<Rightarrow> pydict \<Rightarrow> adapter \<Rightarrow> queue_file \<Rightarrow> (pyexc + pydict) \<times> queue_file" where
  "send_adapter w io payload a f =
     (case a of
        Ntfy base topic auth \<Rightarrow> (send_ntfy w base topic auth payload, f)
      | Mattermost url \<Rightarrow> (send_mattermost w url payload, f)
      | Webhook url \<Rightarrow> (send_webhook w url payload, f)
      | Smtp host port sender recipient \<Rightarrow> (send_smtp w host port sender recipient payload, f)
      | SyslogCEF host \<Rightarrow> (send_syslog w host payload, f)
      | OfflineQueue m \<Rightarrow> (let (r, f') = send_offline io m payload f in (Inr r, f')))"

fun adapter_name :: "adapter \<Rightarrow> string" where
  "adapter_name (Ntfy _ _ _) = ''ntfy''"
| "adapter_name (Mattermost _) = ''mattermost''"
| "adapter_name (Webhook _) = ''webhook''"
| "adapter_name (Smtp _ _ _ _) = ''smtp''"
| "adapter_name (SyslogCEF _) = ''syslogcefnotifier''"
| "adapter_name (OfflineQueue _) = ''offlinequeuenotifier''"

definition payload_for_adapter :: "bool \<Rightarrow> pydict \<Rightarrow> pydict" where
  "payload_for_adapter summary_only p =
     (if \<not> summary_only then p
      else dupdate p [(''evidence_ids'', PList []), (''operator_wording'', PStr (take 200 (text_of (dget p ''operator_wording''))))])"

text \<open>\<open>_record\<close>: the audit record of a notification, and what is told of its durability.\<close>

definition record_notification :: "(string \<Rightarrow> string) \<Rightarrow> sys \<Rightarrow> string \<Rightarrow> string \<Rightarrow> pydict \<Rightarrow> pydict \<Rightarrow> alog \<Rightarrow> pydict \<times> alog" where
  "record_notification sha y target decision payload tags lg =
     (let (res, lg') = log_reporting_durability sha y ''notification'' target ''decision_notifier''
            ([(''decision'', PStr decision), (''payload'', PDict payload)] @ tags) lg
      in (case res of
            Inl (OSError x) \<Rightarrow> [(''audit_record'', PStr (if x = ''audit_record_not_durable'' then ''not_durable'' else ''not_written'')), (''audit_error'', PStr x)]
          | Inl x \<Rightarrow> [(''audit_record'', PStr ''not_written''), (''audit_error'', PStr (exc_text x))]
          | Inr (r, durability) \<Rightarrow>
              if durability = ''fsynced'' then [(''audit_record'', PStr ''durable'')]
              else [(''audit_record'', PStr ''not_durable''), (''audit_error'', PStr durability)], lg'))"

text \<open>A field two levels into the explanation; what is not a dictionary on the way counts as empty at the first level and raises at the second.\<close>

definition nested_text :: "pydict \<Rightarrow> string \<Rightarrow> string \<Rightarrow> pyexc + pyval" where
  "nested_text explanation k1 k2 =
     (let why = dict_of (dget explanation ''why_chosen''); inner = py_or (dget why k1) (PDict [])
      in if is_dict inner then Inr (PStr (text_of (dget (dict_of inner) k2))) else Inl (AttributeError []))"

definition notify_payload :: "pydict \<Rightarrow> pydict \<Rightarrow> string \<Rightarrow> string \<Rightarrow> pyexc + pydict" where
  "notify_payload arbiter explanation target decision_id =
     (let action = text_of (dget arbiter ''action''); reason = text_of (dget arbiter ''reason'');
          level = (if has_sub ''high'' reason then ''critical'' else ''warning'') in
      ebind (iter_val (dget_or arbiter ''chosen_evidence_ids'' (PList []))) (\<lambda>evs.
      ebind (nested_text explanation ''incident_summary'' ''incident_id'') (\<lambda>incident.
      ebind (nested_text explanation ''runbook_support'' ''runbook_candidate_id'') (\<lambda>runbook.
        Inr [(''action'', PStr action), (''reason'', PStr reason), (''target'', PStr target),
             (''evidence_ids'', PList (map (\<lambda>v. PStr (py_str v)) (filter (\<lambda>v. py_str v \<noteq> []) evs))),
             (''level'', PStr level), (''operator_wording'', PStr (text_of (dget explanation ''operator_wording''))),
             (''incident_id'', incident), (''runbook_candidate_id'', runbook), (''decision_id'', PStr decision_id),
             (''alert_class'', PStr (classify_alert action level))]))))"

text \<open>The adapters in order, until one does not raise: the attempts, the errors, and the answer.\<close>

fun try_adapters :: "net \<Rightarrow> oqio \<Rightarrow> pydict \<Rightarrow> adapter list \<Rightarrow> queue_file \<Rightarrow> pyval list \<times> string list \<times> (adapter \<times> pydict) option \<times> queue_file" where
  "try_adapters w io p [] f = ([], [], None, f)"
| "try_adapters w io p (a # as) f =
     (let (res, f1) = send_adapter w io p a f in
      case res of
        Inr r \<Rightarrow> ([PDict [(''adapter'', PStr (adapter_name a)), (''ok'', PBool True), (''ack'', dget r ''status'')]], [], Some (a, r), f1)
      | Inl x \<Rightarrow>
          (let (ats, errs, out, f2) = try_adapters w io p as f1
           in (PDict [(''adapter'', PStr (adapter_name a)), (''ok'', PBool False), (''error'', PStr (exc_text x))] # ats, exc_text x # errs, out, f2)))"

definition notify :: "denviron \<Rightarrow> bool \<Rightarrow> adapter list \<Rightarrow> pydict \<Rightarrow> pydict \<Rightarrow> string \<Rightarrow> string \<Rightarrow> dworld \<Rightarrow> (pyexc + pydict) \<times> dworld" where
  "notify e summary_only notifiers arbiter explanation target decision_id w =
     (let action = text_of (dget arbiter ''action'');
          audited = (\<lambda>decision result tags f. let (r, lg) = record_notification (de_sha e) (de_sys e) target decision result tags (dw_log w)
             in (Inr (dupdate result r), \<lparr>dw_queue = f, dw_log = lg\<rparr>)) in
      if action \<noteq> ''notify''
      then audited ''skipped'' [(''ok'', PBool False), (''skipped'', PBool True), (''reason'', PStr ''action_not_notify'')]
             [(''decision_id'', PStr decision_id), (''alert_class'', PStr []), (''alert_class_rule'', PStr ALERT_CLASS_RULE)] (dw_queue w)
      else (case notify_payload arbiter explanation target decision_id of
          Inl x \<Rightarrow> (Inl x, w)
        | Inr payload \<Rightarrow>
            (let tags = [(''decision_id'', PStr decision_id), (''alert_class'', dget payload ''alert_class''), (''alert_class_rule'', PStr ALERT_CLASS_RULE)];
                 p = payload_for_adapter summary_only payload;
                 (ats, errs, out, f) = try_adapters (de_net e) (de_queue e) p notifiers (dw_queue w)
             in case out of
                  Some (a, r) \<Rightarrow>
                    audited ''sent'' [(''ok'', PBool True), (''adapter'', py_or (dget r ''adapter'') (PStr (adapter_name a))), (''ack'', dget r ''status''),
                      (''attempts'', PList ats), (''payload'', PDict p)] tags f
                | None \<Rightarrow>
                    audited ''failed'' [(''ok'', PBool False), (''errors'', PList (map PStr errs)), (''attempts'', PList ats), (''payload'', PDict p)] tags f)))"

end
