(* ===== verification/DeliveryProperties.thy ===== *)
theory DeliveryProperties
  imports Delivery "HOL-Library.Multiset"
begin

text \<open>
  Delivery: a notification goes out by the first adapter that does not raise, the offline queue stays within its bound, and a flush loses nothing
  it did not deliver, whatever is queued meanwhile and whatever fails.
\<close>

section \<open>Adapters\<close>

lemma raising_keeps_queue: "send_adapter w io p a f = (Inl x, f') \<Longrightarrow> f' = f"
  by (auto simp: send_adapter_def Let_def split: adapter.splits prod.splits)

lemma try_raising:
  assumes "\<forall>a \<in> set as. \<exists>x. fst (send_adapter w io p a f) = Inl x"
  shows "\<exists>ats errs. try_adapters w io p (as @ bs) f = (let (ats', errs', out, f') = try_adapters w io p bs f in (ats @ ats', errs @ errs', out, f'))
    \<and> map (\<lambda>v. dget (dict_of v) ''adapter'') ats = map (\<lambda>a. PStr (adapter_name a)) as \<and> (\<forall>v \<in> set ats. dget (dict_of v) ''ok'' = PBool False)
    \<and> length errs = length as"
  using assms
proof (induction as)
  case Nil
  show ?case by (intro exI [of _ "[]"]) (simp add: Let_def case_prod_beta)
next
  case (Cons a as)
  then obtain x where x: "send_adapter w io p a f = (Inl x, f)" by (metis list.set_intros(1) prod.collapse raising_keeps_queue)
  have "\<forall>a \<in> set as. \<exists>x. fst (send_adapter w io p a f) = Inl x" using Cons.prems by simp
  from Cons.IH [OF this] obtain ats errs where IH: "try_adapters w io p (as @ bs) f = (let (ats', errs', out, f') = try_adapters w io p bs f in (ats @ ats', errs @ errs', out, f'))"
    "map (\<lambda>v. dget (dict_of v) ''adapter'') ats = map (\<lambda>a. PStr (adapter_name a)) as" "\<forall>v \<in> set ats. dget (dict_of v) ''ok'' = PBool False" "length errs = length as" by blast
  show ?case
    by (intro exI [of _ "PDict [(''adapter'', PStr (adapter_name a)), (''ok'', PBool False), (''error'', PStr (exc_text x))] # ats"] exI [of _ "exc_text x # errs"])
      (use x IH in \<open>simp add: Let_def case_prod_beta dict_simps\<close>)
qed

lemma try_first:
  assumes "\<forall>b \<in> set as. \<exists>x. fst (send_adapter w io p b f) = Inl x" and "send_adapter w io p a f = (Inr r, f')"
  shows "\<exists>ats errs. try_adapters w io p (as @ a # bs) f = (ats @ [PDict [(''adapter'', PStr (adapter_name a)), (''ok'', PBool True), (''ack'', dget r ''status'')]], errs, Some (a, r), f')
    \<and> map (\<lambda>v. dget (dict_of v) ''adapter'') ats = map (\<lambda>a. PStr (adapter_name a)) as \<and> (\<forall>v \<in> set ats. dget (dict_of v) ''ok'' = PBool False)"
  using try_raising [OF assms(1), of "a # bs"] assms(2) by (auto simp: Let_def)

lemma try_none:
  assumes "\<forall>b \<in> set as. \<exists>x. fst (send_adapter w io p b f) = Inl x"
  shows "\<exists>ats errs. try_adapters w io p as f = (ats, errs, None, f) \<and> length errs = length as"
  using try_raising [OF assms, of "[]"] by auto

lemma record_keys: "fst (record_notification sha y target decision payload tags lg) = r \<Longrightarrow> fst ` set r \<subseteq> {''audit_record'', ''audit_error''}"
  by (auto simp: record_notification_def Let_def split: prod.splits sum.splits pyexc.splits if_splits)

lemma audited_field:
  assumes "k \<notin> {''audit_record'', ''audit_error''}"
  shows "dget (dupdate d (fst (record_notification sha y target decision payload tags lg))) k = dget d k"
proof -
  let ?r = "fst (record_notification sha y target decision payload tags lg)"
  have "map_of (rev ?r) k = None" using record_keys [OF refl, of sha y target decision payload tags lg] assms by (auto simp: map_of_eq_None_iff)
  then show ?thesis by (simp add: dget_def map_of_dupdate)
qed

section \<open>The offline queue\<close>

lemma entries_rows [simp]: "queue_entries (Some (map Row vs)) = vs"
  by (induction vs) (simp_all add: queue_entries_def List.map_filter_def)

lemma read_queue_entries: "read_queue io f = Inr vs \<Longrightarrow> vs = queue_entries f"
  by (auto simp: read_queue_def queue_entries_def split: option.splits)

lemma entries_written: "write_entries io vs f = (Inr u, f') \<Longrightarrow> f' = Some (map Row vs)"
  by (auto simp: write_entries_def split: replaced.splits)

lemma write_any: "write_entries io vs f = (r, f') \<Longrightarrow> f' = f \<or> f' = Some (map Row vs)"
  by (auto simp: write_entries_def split: replaced.splits)

abbreviation entry_keys :: "pyval list \<Rightarrow> string multiset" where
  "entry_keys vs \<equiv> mset (map json_dumps vs)"

lemma remove_key_mset: "entry_keys (remove_key k vs) = entry_keys vs - {#k#}"
  by (induction vs) (auto simp: add_mset_remove_trivial_If)

lemma remove_keys_mset: "entry_keys (fold remove_key ks vs) = entry_keys vs - mset ks"
proof (induction ks arbitrary: vs)
  case (Cons k ks)
  have "entry_keys (fold remove_key (k # ks) vs) = entry_keys (remove_key k vs) - mset ks" by (simp only: fold_simps Cons.IH)
  also have "\<dots> = entry_keys vs - {#k#} - mset ks" by (simp only: remove_key_mset)
  finally show ?case by (simp add: diff_diff_add_mset)
qed simp

lemma remove_effect:
  assumes "flush_remove io u ks f = (r, f')"
  shows "entry_keys (queue_entries f) \<subseteq># entry_keys (queue_entries f') + mset ks"
    and "r = Inr n \<Longrightarrow> entry_keys (queue_entries f') = entry_keys (queue_entries f) - mset ks \<and> n = length (queue_entries f')"
proof -
  have loss: "entry_keys vs \<subseteq># entry_keys (fold remove_key ks vs) + mset ks" for vs
    by (simp only: remove_keys_mset) (simp add: subset_eq_diff_conv [symmetric])
  show "entry_keys (queue_entries f) \<subseteq># entry_keys (queue_entries f') + mset ks"
  proof (cases "read_queue io f")
    case (Inr vs)
    then have vs: "vs = queue_entries f" by (rule read_queue_entries)
    show ?thesis
    proof (cases "fold remove_key ks vs = []")
      case True
      with assms Inr loss [of vs] vs show ?thesis by (auto simp: flush_remove_def Let_def queue_entries_def split: if_splits)
    next
      case False
      then obtain r' where "write_entries io (fold remove_key ks vs) f = (r', f')" using assms Inr by (auto simp: flush_remove_def Let_def split: prod.splits)
      from write_any [OF this] loss [of vs] vs show ?thesis by auto
    qed
  qed (use assms in \<open>simp add: flush_remove_def\<close>)
  show "entry_keys (queue_entries f') = entry_keys (queue_entries f) - mset ks \<and> n = length (queue_entries f')" if "r = Inr n"
  proof (cases "read_queue io f")
    case (Inr vs)
    then have vs: "vs = queue_entries f" by (rule read_queue_entries)
    show ?thesis
    proof (cases "fold remove_key ks vs = []")
      case True
      with assms Inr that have "f' = None \<and> n = 0" by (auto simp: flush_remove_def Let_def split: if_splits)
      moreover have "entry_keys vs - mset ks = {#}" using remove_keys_mset [of ks vs] True by simp
      ultimately show ?thesis by (simp add: queue_entries_def vs)
    next
      case False
      then have "write_entries io (fold remove_key ks vs) f = (Inr (), f') \<and> n = length (fold remove_key ks vs)"
        using assms Inr that by (auto simp: flush_remove_def Let_def ebind_Inr_iff split: prod.splits)
      moreover from this have "f' = Some (map Row (fold remove_key ks vs))" using entries_written by blast
      ultimately show ?thesis using remove_keys_mset [of ks vs] vs by simp
    qed
  qed (use assms that in \<open>simp add: flush_remove_def\<close>)
qed

lemma delivered_length: "length (delivered deliver vs) \<le> length vs"
  unfolding delivered_def by (metis length_enumerate length_filter_le length_map)

section \<open>Properties\<close>

text \<open>C16. A flush never loses an entry it did not deliver: whatever other threads queue while it delivers and whatever fails, every entry of the queue is
  afterwards still there or was delivered. When it succeeds, exactly the delivered entries are gone, and its counts are right.\<close>

theorem flush_loses_only_what_was_delivered:
  assumes "flush_queue io1 io2 u deliver between (Some ls) = (r, f)" and "sent = delivered deliver (queue_entries (Some ls))"
    and "flush_snapshot io1 (Some ls) = Inr (Some vs)"
  shows "entry_keys (queue_entries (between (Some ls))) \<subseteq># entry_keys (queue_entries f) + entry_keys sent
    \<and> (\<forall>n. r = Inr n \<longrightarrow> entry_keys (queue_entries f) = entry_keys (queue_entries (between (Some ls))) - entry_keys sent
        \<and> fl_flushed n = length sent \<and> fl_flushed n + fl_failed n = length (queue_entries (Some ls)) \<and> fl_remaining n = length (queue_entries f))"
proof -
  have vs: "vs = queue_entries (Some ls)" using assms(3) by (auto simp: flush_snapshot_def ebind_Inr_iff dest: read_queue_entries)
  obtain r' where rem: "flush_remove io2 u (map json_dumps sent) (between (Some ls)) = (r', f)"
    and r: "r = ebind r' (\<lambda>n. Inr \<lparr>fl_flushed = length sent, fl_failed = length vs - length sent, fl_remaining = n\<rparr>)"
    using assms by (auto simp: flush_queue_def Let_def vs split: prod.splits)
  have le: "length sent \<le> length vs" using delivered_length by (simp add: assms(2) vs)
  note eff = remove_effect [OF rem]
  show ?thesis
  proof (intro conjI allI impI)
    show "entry_keys (queue_entries (between (Some ls))) \<subseteq># entry_keys (queue_entries f) + entry_keys sent" by (rule eff(1))
    fix n assume "r = Inr n"
    then obtain k where k: "r' = Inr k" "n = \<lparr>fl_flushed = length sent, fl_failed = length vs - length sent, fl_remaining = k\<rparr>" using r by (auto simp: ebind_Inr_iff)
    note e2 = eff(2) [OF k(1)]
    then show "entry_keys (queue_entries f) = entry_keys (queue_entries (between (Some ls))) - entry_keys sent" by blast
    show "fl_flushed n = length sent" "fl_flushed n + fl_failed n = length (queue_entries (Some ls))" "fl_remaining n = length (queue_entries f)"
      using k(2) le e2 by (simp_all add: vs)
  qed
qed

text \<open>A notification is sent by the first adapter that does not raise and by no other: the result says so, lists the attempts in order, and only
  that adapter touches the queue. When every adapter raises the result says that it failed, with one error for each, and nothing was queued.\<close>

theorem notification_is_sent_by_the_first_working_adapter:
  assumes "text_of (dget arbiter ''action'') = ''notify''" and "notify_payload arbiter explanation target decision_id = Inr payload"
    and "p = payload_for_adapter summary_only payload" and "notify e summary_only notifiers arbiter explanation target decision_id w = (r, w')"
    and "\<forall>b \<in> set as. \<exists>x. fst (send_adapter (de_net e) (de_queue e) p b (dw_queue w)) = Inl x" and "notifiers = as @ bs"
    and "bs = [] \<or> (\<exists>a. fst (send_adapter (de_net e) (de_queue e) p (hd bs) (dw_queue w)) = Inr a)"
  shows "\<exists>d. r = Inr d \<and> (if bs = [] then dget d ''ok'' = PBool False \<and> length (list_val (dget d ''errors'')) = length as \<and> dw_queue w' = dw_queue w
    else dget d ''ok'' = PBool True \<and> map (\<lambda>v. dget (dict_of v) ''adapter'') (list_val (dget d ''attempts'')) = map (\<lambda>a. PStr (adapter_name a)) (as @ [hd bs])
      \<and> dw_queue w' = snd (send_adapter (de_net e) (de_queue e) p (hd bs) (dw_queue w)))"
proof (cases bs)
  case Nil
  obtain ats errs where "try_adapters (de_net e) (de_queue e) p notifiers (dw_queue w) = (ats, errs, None, dw_queue w)" "length errs = length as"
    using try_none [OF assms(5)] assms(6) Nil by auto
  with assms(1-4) Nil show ?thesis by (auto simp: notify_def Let_def case_prod_beta audited_field dict_simps)
next
  case (Cons a cs)
  obtain q where q: "fst (send_adapter (de_net e) (de_queue e) p a (dw_queue w)) = Inr q" using assms(7) Cons by auto
  define f where "f = snd (send_adapter (de_net e) (de_queue e) p a (dw_queue w))"
  have send: "send_adapter (de_net e) (de_queue e) p a (dw_queue w) = (Inr q, f)" by (simp add: f_def q prod_eq_iff)
  obtain ats errs where "try_adapters (de_net e) (de_queue e) p notifiers (dw_queue w) =
      (ats @ [PDict [(''adapter'', PStr (adapter_name a)), (''ok'', PBool True), (''ack'', dget q ''status'')]], errs, Some (a, q), f)"
    "map (\<lambda>v. dget (dict_of v) ''adapter'') ats = map (\<lambda>a. PStr (adapter_name a)) as"
    using try_first [OF assms(5) send, of cs] assms(6) Cons by auto
  with assms(1-4) Cons send show ?thesis by (auto simp: notify_def Let_def case_prod_beta audited_field dict_simps)
qed

text \<open>A send that reports success leaves the new entry last in the queue, behind the newest of the older ones, and with a positive limit
  never more entries than the limit; a send that reports failure before the file is replaced leaves the queue as it was.\<close>

theorem offline_queue_is_bounded:
  assumes "send_offline io m payload f = (r, f')"
  shows "(dget r ''ok'' = PBool True \<longrightarrow> (0 < m \<longrightarrow> int (length (queue_entries f')) \<le> m \<and> last (queue_entries f') = PDict (summary_payload io payload)
      \<and> (\<exists>k. butlast (queue_entries f') = drop k (queue_entries f)))) \<and> (oq_write io = NotReplaced x \<longrightarrow> dget r ''ok'' = PBool False \<and> f' = f)"
proof (cases "read_queue io f")
  case (Inl y)
  with assms show ?thesis by (auto simp: send_offline_def dict_simps)
next
  case (Inr old)
  then have old: "old = queue_entries f" by (rule read_queue_entries)
  let ?v = "PDict (summary_payload io payload)"
  define kept where "kept = (if m < int (length (old @ [?v])) then slice_last m (old @ [?v]) else old @ [?v])"
  have eq: "send_offline io m payload f = (let (res, f') = write_entries io kept f in (case res of
      Inl x \<Rightarrow> [(''ok'', PBool False), (''adapter'', PStr ''offline_queue''), (''error'', PStr (exc_text x))]
    | Inr _ \<Rightarrow> [(''ok'', PBool True), (''adapter'', PStr ''offline_queue''), (''queued'', PInt (int (length kept)))], f'))"
    unfolding send_offline_def Inr Let_def sum.case kept_def [symmetric] ..
  have bound: "int (length kept) \<le> m \<and> last kept = ?v \<and> (\<exists>k. butlast kept = drop k old)" if "0 < m"
  proof -
    have "kept = drop (length (old @ [?v]) - nat m) (old @ [?v])" using that by (auto simp: kept_def slice_last_def lastn_def)
    moreover have "length (old @ [?v]) - nat m \<le> length old" using that by auto
    ultimately have "kept = drop (length (old @ [?v]) - nat m) old @ [?v]" by simp
    with that show ?thesis by auto
  qed
  obtain res where w: "write_entries io kept f = (res, f')" "r = (case res of
      Inl x \<Rightarrow> [(''ok'', PBool False), (''adapter'', PStr ''offline_queue''), (''error'', PStr (exc_text x))]
    | Inr _ \<Rightarrow> [(''ok'', PBool True), (''adapter'', PStr ''offline_queue''), (''queued'', PInt (int (length kept)))])"
    using assms eq by (auto simp: Let_def split: prod.splits)
  show ?thesis
  proof (intro conjI impI)
    assume "dget r ''ok'' = PBool True"
    then obtain z where "res = Inr z" using w(2) by (cases res) (auto simp: dict_simps)
    then have "queue_entries f' = kept" using entries_written w(1) by fastforce
    then show "int (length (queue_entries f')) \<le> m" "last (queue_entries f') = ?v" "\<exists>k. butlast (queue_entries f') = drop k (queue_entries f)" if "0 < m"
      using bound [OF that] old by simp_all
  next
    assume "oq_write io = NotReplaced x"
    with w show "dget r ''ok'' = PBool False" "f' = f" by (auto simp: write_entries_def dict_simps)
  qed
qed

section \<open>Examples\<close>

definition ex_oq :: oqio where
  "ex_oq = \<lparr>oq_lock = None, oq_unreadable = None, oq_write = Replaced, oq_queued_at = ''t'', oq_mono = 1, oq_boot = ''b''\<rparr>"

definition ex_net :: net where
  "ex_net = \<lparr>net_post = (\<lambda>_ _ _. Inl (OSError ''down'')), net_mail = (\<lambda>_ _ _ _ _ _. Inr ()), net_syslog = (\<lambda>_ _. Inr ())\<rparr>"

definition ex_delivery :: denviron where
  "ex_delivery = \<lparr>de_net = ex_net, de_queue = ex_oq, de_sha = (\<lambda>_. ''h''),
     de_sys = \<lparr>sys_ts = ''t'', sys_stamp = 0, unlink_ok = True, replace_ok = True, append_ok = False, sync_file = Synced, sync_dir = Synced\<rparr>\<rparr>"

definition ex_dworld :: dworld where
  "ex_dworld = \<lparr>dw_queue = None, dw_log = \<lparr>dir = \<lparr>active = None, seg = (\<lambda>_. None)\<rparr>, max_bytes = None, last_chain_hash = [], chain_id = [], rotated_total = 0,
     rotate_failed_total = 0, fsync_unsupported_count = 0, listeners = 0, handoff = [], handoff_max = 1, durable_seq = 0, handed_count = 0,
     delivered_seq = 0, delivered_count = 0, handoff_dropped_total = 0, dropped = []\<rparr>\<rparr>"

definition ex_arbiter :: pydict where "ex_arbiter = [(''action'', PStr ''notify''), (''reason'', PStr ''high_risk'')]"

lemma ex_payload: "\<exists>p. notify_payload ex_arbiter [] ''t'' ''d'' = Inr p"
  by (simp add: notify_payload_def ex_arbiter_def iter_val_def dget_or_def has_key_def nested_text_def dict_simps py_or_def Let_def)

theorem notification_is_sent_by_the_first_working_adapter_witness:
  "\<exists>d. fst (notify ex_delivery False [Ntfy ''http://n'' ''a'' [], OfflineQueue 5] ex_arbiter [] ''t'' ''d'' ex_dworld) = Inr d \<and> dget d ''ok'' = PBool True"
proof -
  obtain payload where p: "notify_payload ex_arbiter [] ''t'' ''d'' = Inr payload" using ex_payload by blast
  obtain r w' where n: "notify ex_delivery False [Ntfy ''http://n'' ''a'' [], OfflineQueue 5] ex_arbiter [] ''t'' ''d'' ex_dworld = (r, w')" by fastforce
  have "text_of (dget ex_arbiter ''action'') = ''notify''" by (simp add: ex_arbiter_def dict_simps)
  note claim = notification_is_sent_by_the_first_working_adapter [OF this p refl n, of "[Ntfy ''http://n'' ''a'' []]" "[OfflineQueue 5]"]
  have "\<exists>x. fst (send_adapter (de_net ex_delivery) (de_queue ex_delivery) (payload_for_adapter False payload) (Ntfy ''http://n'' ''a'' []) (dw_queue ex_dworld)) = Inl x"
    by (simp add: send_adapter_def send_ntfy_def post_json_def ex_delivery_def ex_net_def)
  moreover have "\<exists>x. fst (send_adapter (de_net ex_delivery) (de_queue ex_delivery) (payload_for_adapter False payload) (OfflineQueue 5) (dw_queue ex_dworld)) = Inr x"
    by (simp add: send_adapter_def case_prod_beta Let_def)
  ultimately show ?thesis using claim n by auto
qed

theorem flush_loses_only_what_was_delivered_witness:
  "entry_keys (queue_entries (snd (flush_queue ex_oq ex_oq True (\<lambda>i v. if i = 0 then Inr (PDict [(''ok'', PBool True)]) else Inl (OSError []))
     (\<lambda>_. Some [Row (PInt 1), Row (PInt 2), Row (PInt 3)]) (Some [Row (PInt 1), Row (PInt 2)])))) = entry_keys [PInt 2, PInt 3]"
proof -
  let ?d = "\<lambda>i v. if i = (0 :: nat) then Inr (PDict [(''ok'', PBool True)]) else Inl (OSError [])"
  let ?b = "\<lambda>_ :: queue_file. Some [Row (PInt 1), Row (PInt 2), Row (PInt 3)]"
  obtain r f where fl: "flush_queue ex_oq ex_oq True ?d ?b (Some [Row (PInt 1), Row (PInt 2)]) = (r, f)" by fastforce
  have snap: "flush_snapshot ex_oq (Some [Row (PInt 1), Row (PInt 2)]) = Inr (Some [PInt 1, PInt 2])"
    by (simp add: flush_snapshot_def read_queue_def ex_oq_def queue_entries_def List.map_filter_def)
  have qe: "queue_entries (Some [Row (PInt 1), Row (PInt 2)]) = [PInt 1, PInt 2]" by (simp add: queue_entries_def List.map_filter_def)
  have sent: "delivered ?d [PInt 1, PInt 2] = [PInt 1]" by (simp add: delivered_def delivered_ok_def dict_simps)
  have keys: "json_dumps (PInt 1) = ''1''" "json_dumps (PInt 2) = ''2''" "json_dumps (PInt 3) = ''3''" by code_simp+
  have "flush_remove ex_oq True [''1''] (Some [Row (PInt 1), Row (PInt 2), Row (PInt 3)]) = (Inr 2, Some [Row (PInt 2), Row (PInt 3)])"
    by (simp add: flush_remove_def read_queue_def ex_oq_def queue_entries_def List.map_filter_def keys write_entries_def)
  then have "\<exists>n. r = Inr n" using fl by (auto simp: flush_queue_def snap sent keys)
  moreover have "queue_entries (?b None) = [PInt 1, PInt 2, PInt 3]" by (simp add: queue_entries_def List.map_filter_def)
  ultimately show ?thesis using flush_loses_only_what_was_delivered [OF fl refl snap] fl by (auto simp: qe sent keys)
qed

theorem offline_queue_is_bounded_witness:
  "int (length (queue_entries (snd (send_offline ex_oq 1 [] (Some [Row (PInt 1)]))))) \<le> 1"
proof -
  obtain r f where s: "send_offline ex_oq 1 [] (Some [Row (PInt 1)]) = (r, f)" by fastforce
  then have "dget r ''ok'' = PBool True" by (auto simp: send_offline_def read_queue_def ex_oq_def write_entries_def Let_def dict_simps)
  with offline_queue_is_bounded [OF s] s show ?thesis by simp
qed

section \<open>Limits\<close>

text \<open>A limit of zero entries is no limit: \<open>xs[-0:]\<close> is the whole list.\<close>

lemma zero_limit_is_no_limit:
  assumes "oq_lock io = None" and "oq_unreadable io = None" and "oq_write io = Replaced"
  shows "queue_entries (snd (send_offline io 0 payload f)) = queue_entries f @ [PDict (summary_payload io payload)]"
  using assms by (auto simp: send_offline_def read_queue_def write_entries_def slice_last_def Let_def queue_entries_def List.map_filter_def comp_def split: option.split)

text \<open>The queue reports a failed write in its answer and does not raise; the notifier only looks for exceptions, so an alert that was neither sent nor
  queued is reported and recorded as sent.\<close>

lemma failed_queueing_is_reported_as_sent:
  assumes "text_of (dget arbiter ''action'') = ''notify''" and "notify_payload arbiter explanation target decision_id = Inr payload"
    and "oq_lock (de_queue e) = None" and "oq_write (de_queue e) = NotReplaced x" and "dw_queue w = None"
  shows "\<exists>d w'. notify e summary_only [OfflineQueue m] arbiter explanation target decision_id w = (Inr d, w') \<and> dget d ''ok'' = PBool True \<and> dw_queue w' = None"
  using assms
  by (simp add: notify_def Let_def case_prod_beta audited_field dict_simps send_adapter_def send_offline_def read_queue_def write_entries_def)

end
