(* ===== verification/Runbooks.thy ===== *)
theory Runbooks
  imports Values
begin

text \<open>
  Runbooks (\<open>py/azazel_edge/runbooks.py\<close>, with the texts of \<open>py/azazel_edge/i18n.py\<close>): the checks of a runbook document, its arguments, the
  command it builds, and when that command runs.

  The runbook files are the list of what loading each gives, in the order they are found. The Japanese tables of \<open>i18n.py\<close> are the argument
  \<open>catalog\<close>. Running a command is the function \<open>x_run\<close> of \<open>xenv\<close>; an execution returns the commands it ran beside its result.
\<close>

section \<open>Texts\<close>

record catalog =
  ct_titles :: "(string \<times> string) list"
  ct_steps :: "(string \<times> string list) list"
  ct_messages :: "(string \<times> pydict) list"
  ct_review :: "(string \<times> string) list"

definition starts_with :: "string \<Rightarrow> string \<Rightarrow> bool" where
  "starts_with p s = (take (length p) s = p)"

definition normalize_lang :: "pyval \<Rightarrow> string" where
  "normalize_lang lang =
     (let value = py_lower (py_strip (text_of lang)) in
      if starts_with ''es'' value then ''es''
      else if starts_with ''uk'' value then ''uk''
      else if starts_with ''tl'' value then ''tl''
      else if starts_with ''en'' value then ''en''
      else ''ja'')"

definition lang_choice :: "pydict \<Rightarrow> string \<Rightarrow> pyval" where
  "lang_choice block lang = py_or (dget block lang) (py_or (dget block ''en'') (dget block ''ja''))"

definition localize_runbook_user_message :: "catalog \<Rightarrow> pydict \<Rightarrow> pyval \<Rightarrow> string" where
  "localize_runbook_user_message ct rb lang =
     (let l = normalize_lang lang;
          block = dget rb ''user_message_template_i18n'';
          c1 = (if is_dict block then py_strip (text_of (lang_choice (dict_of block) l)) else []);
          table = (case map_of (ct_messages ct) (py_strip (text_of (dget rb ''id''))) of None \<Rightarrow> [] | Some d \<Rightarrow> d);
          c2 = py_strip (text_of (lang_choice table l))
      in if c1 \<noteq> [] then c1 else if c2 \<noteq> [] then c2 else py_strip (text_of (dget rb ''user_message_template'')))"

definition localize_runbook_title :: "catalog \<Rightarrow> pydict \<Rightarrow> pyval \<Rightarrow> string" where
  "localize_runbook_title ct rb lang =
     (let l = normalize_lang lang;
          block = dget rb ''title_i18n'';
          c1 = (if is_dict block then py_strip (text_of (lang_choice (dict_of block) l)) else []);
          c2 = (if l = ''ja'' then py_strip (case map_of (ct_titles ct) (py_strip (text_of (dget rb ''id''))) of None \<Rightarrow> [] | Some t \<Rightarrow> t) else [])
      in if c1 \<noteq> [] then c1 else if c2 \<noteq> [] then c2 else py_strip (text_of (dget rb ''title'')))"

definition string_list :: "pyval list \<Rightarrow> string list" where
  "string_list vs = filter (\<lambda>s. s \<noteq> []) (map (\<lambda>v. py_strip (py_str v)) vs)"

definition localize_runbook_steps :: "catalog \<Rightarrow> pydict \<Rightarrow> pyval \<Rightarrow> string list" where
  "localize_runbook_steps ct rb lang =
     (let l = normalize_lang lang;
          block = dget rb ''steps_i18n'';
          c1 = (if is_dict block then lang_choice (dict_of block) l else PNone);
          c2 = (if l = ''ja'' then (case map_of (ct_steps ct) (py_strip (text_of (dget rb ''id''))) of None \<Rightarrow> [] | Some ss \<Rightarrow> ss) else [])
      in if is_list c1 then string_list (list_val c1)
         else if c2 \<noteq> [] then string_list (map PStr c2)
         else string_list (list_val (dget rb ''steps'')))"

definition translate_review_text :: "catalog \<Rightarrow> string \<Rightarrow> pyval \<Rightarrow> string" where
  "translate_review_text ct t lang = (if normalize_lang lang = ''ja'' then (case map_of (ct_review ct) t of None \<Rightarrow> t | Some u \<Rightarrow> u) else t)"

definition translate_review_texts :: "catalog \<Rightarrow> string list \<Rightarrow> pyval \<Rightarrow> string list" where
  "translate_review_texts ct ts lang = map (\<lambda>t. translate_review_text ct t lang) ts"

section \<open>Documents\<close>

definition ALLOWED_EXEC_PREFIXES :: "string list" where
  "ALLOWED_EXEC_PREFIXES = [''/bin/'', ''/usr/bin/'', ''/usr/sbin/'', ''/usr/local/bin/'', ''/opt/azazel-edge/'']"

type_synonym runbook_file = "string \<times> (pyexc + pyval)"

definition load_yaml :: "runbook_file \<Rightarrow> pyexc + pydict" where
  "load_yaml f =
     ebind (snd f) (\<lambda>v.
       let d = (if truthy v then v else PDict [])
       in if is_dict d then Inr (AList.update ''_path'' (PStr (fst f)) (dict_of d)) else Inl (ValueError (''runbook_invalid_yaml:'' @ fst f)))"

definition RUNBOOK_REQUIRED :: "string list" where
  "RUNBOOK_REQUIRED = [''id'', ''title'', ''domain'', ''audience'', ''risk'', ''effect'', ''requires_approval'']"

definition EMPTY_SCHEMA :: pyval where
  "EMPTY_SCHEMA = PDict [(''type'', PStr ''object''), (''properties'', PDict []), (''required'', PList [])]"

definition validate_runbook_doc :: "pydict \<Rightarrow> pyexc + pydict" where
  "validate_runbook_doc doc =
     (let effect = py_strip (text_of (dget doc ''effect''));
          schema = py_or (dget doc ''args_schema'') EMPTY_SCHEMA;
          doc' = AList.update ''args_schema'' schema doc;
          command = dget doc ''command'';
          path = py_strip (text_of (dget (dict_of command) ''exec''));
          argv = dget (dict_of command) ''argv''
      in case find (\<lambda>k. \<not> has_key doc k) RUNBOOK_REQUIRED of
           Some k \<Rightarrow> Inl (ValueError (''runbook_missing_key:'' @ k))
         | None \<Rightarrow>
             if py_strip (text_of (dget doc ''id'')) = [] then Inl (ValueError ''runbook_empty_id'')
             else if effect \<notin> {''read_only'', ''operator_guidance'', ''controlled_exec''} then Inl (ValueError ''runbook_invalid_effect'')
             else if \<not> is_dict schema \<or> text_of (dget (dict_of schema) ''type'') \<noteq> ''object'' then Inl (ValueError ''runbook_invalid_args_schema'')
             else if effect \<in> {''read_only'', ''controlled_exec''}
             then (if \<not> is_dict command then Inl (ValueError ''runbook_invalid_command'')
                   else if path = [] \<or> \<not> list_ex (\<lambda>p. starts_with p path) ALLOWED_EXEC_PREFIXES then Inl (ValueError ''runbook_invalid_exec_path'')
                   else if \<not> is_list argv \<or> \<not> list_all is_text (list_val argv) then Inl (ValueError ''runbook_invalid_argv'')
                   else Inr doc')
             else Inr doc')"

definition load_runbook :: "runbook_file \<Rightarrow> pyexc + pydict" where
  "load_runbook f = ebind (load_yaml f) validate_runbook_doc"

definition list_item :: "catalog \<Rightarrow> pyval \<Rightarrow> pydict \<Rightarrow> pydict" where
  "list_item ct lang doc =
     [(''id'', dget doc ''id''), (''title'', PStr (localize_runbook_title ct doc lang)), (''domain'', dget doc ''domain''), (''audience'', dget doc ''audience''),
      (''risk'', dget doc ''risk''), (''effect'', dget doc ''effect''), (''requires_approval'', PBool (truthy (dget doc ''requires_approval''))),
      (''steps'', PList (map PStr (localize_runbook_steps ct doc lang))), (''user_message_template'', PStr (localize_runbook_user_message ct doc lang)),
      (''path'', dget doc ''_path'')]"

fun right_of :: "'e + 'a \<Rightarrow> 'a option" where
  "right_of (Inr a) = Some a"
| "right_of (Inl _) = None"

definition list_runbooks :: "catalog \<Rightarrow> pyval \<Rightarrow> runbook_file list \<Rightarrow> pydict list" where
  "list_runbooks ct lang fs =
     sort_key (\<lambda>i. text_of (dget i ''id'')) (map (list_item ct lang) (List.map_filter (\<lambda>f. right_of (load_runbook f)) fs))"

definition localized :: "catalog \<Rightarrow> pyval \<Rightarrow> pydict \<Rightarrow> pydict" where
  "localized ct lang doc =
     (let d1 = AList.update ''title'' (PStr (localize_runbook_title ct doc lang)) doc;
          d2 = AList.update ''steps'' (PList (map PStr (localize_runbook_steps ct d1 lang))) d1
      in AList.update ''user_message_template'' (PStr (localize_runbook_user_message ct d2 lang)) d2)"

definition get_runbook :: "catalog \<Rightarrow> runbook_file list \<Rightarrow> string \<Rightarrow> pyval \<Rightarrow> pyexc + pydict" where
  "get_runbook ct fs runbook_id lang =
     (let target = py_strip runbook_id in
      if target = [] then Inl (KeyError ''runbook_id_required'')
      else (case find (\<lambda>d. py_str (dget d ''id'') = target) (List.map_filter (\<lambda>f. right_of (load_runbook f)) fs) of
          None \<Rightarrow> Inl (KeyError (''runbook_not_found:'' @ target))
        | Some d \<Rightarrow> Inr (localized ct lang d)))"

section \<open>Arguments\<close>

definition coerce_arg_value :: "pydict \<Rightarrow> pyval \<Rightarrow> pyexc + pyval" where
  "coerce_arg_value spec v =
     (let kind = py_str (py_or (dget spec ''type'') (PStr ''string'')) in
      if kind = ''integer''
      then ebind (py_int v) (\<lambda>n.
           ebind (if has_key spec ''minimum'' then ebind (py_int (dget spec ''minimum'')) (\<lambda>m. Inr (n < m)) else Inr False) (\<lambda>low.
           if low then Inl (ValueError ''arg_below_minimum'')
           else ebind (if has_key spec ''maximum'' then ebind (py_int (dget spec ''maximum'')) (\<lambda>m. Inr (m < n)) else Inr False) (\<lambda>high.
             if high then Inl (ValueError ''arg_above_maximum'') else Inr (PInt n))))
      else if kind = ''boolean''
      then (case v of
          PBool b \<Rightarrow> Inr v
        | _ \<Rightarrow>
            (let text = py_lower (py_strip (text_of v)) in
             if text \<in> {''1'', ''true'', ''yes'', ''on''} then Inr (PBool True)
             else if text \<in> {''0'', ''false'', ''no'', ''off''} then Inr (PBool False)
             else Inl (ValueError ''arg_invalid_boolean'')))
      else
        (let text = text_of v; enum = dget spec ''enum'' in
         ebind (if has_key spec ''maxLength'' then ebind (py_int (dget spec ''maxLength'')) (\<lambda>m. Inr (m < int (char_count text))) else Inr False) (\<lambda>long.
           if long then Inl (ValueError ''arg_too_long'')
           else if is_list enum \<and> PStr text \<notin> set (list_val enum) then Inl (ValueError ''arg_not_in_enum'')
           else Inr (PStr text))))"

text \<open>\<open>key in src\<close> for a key of the required list: only text can be a key of the arguments, and a list or dictionary cannot be looked up.\<close>

definition missing_required :: "pydict \<Rightarrow> pyval \<Rightarrow> pyexc option" where
  "missing_required src k =
     (case k of
        PStr s \<Rightarrow> if has_key src s then None else Some (ValueError (''arg_required:'' @ s))
      | PList _ \<Rightarrow> Some (TypeError [])
      | PDict _ \<Rightarrow> Some (TypeError [])
      | _ \<Rightarrow> Some (ValueError (''arg_required:'' @ py_str k)))"

fun first_error :: "('a \<Rightarrow> 'e option) \<Rightarrow> 'a list \<Rightarrow> 'e option" where
  "first_error f [] = None"
| "first_error f (x # xs) = (case f x of None \<Rightarrow> first_error f xs | Some e \<Rightarrow> Some e)"

fun coerce_args :: "pydict \<Rightarrow> pydict \<Rightarrow> pyexc + pydict" where
  "coerce_args src [] = Inr []"
| "coerce_args src ((k, spec) # ps) =
     (if \<not> has_key src k then coerce_args src ps
      else if \<not> is_dict spec then Inl (ValueError (''arg_invalid_spec:'' @ k))
      else ebind (coerce_arg_value (dict_of spec) (dget src k)) (\<lambda>v. ebind (coerce_args src ps) (\<lambda>out. Inr ((k, v) # out))))"

definition unknown_arg :: "pyval \<Rightarrow> string \<Rightarrow> pyexc option" where
  "unknown_arg properties k =
     (let unknown = Some (ValueError (''arg_unknown:'' @ k)) in
      case properties of
        PDict d \<Rightarrow> if has_key d k then None else unknown
      | PList xs \<Rightarrow> if PStr k \<in> set xs then None else unknown
      | PStr s \<Rightarrow> if has_sub k s then None else unknown
      | _ \<Rightarrow> Some (TypeError []))"

definition validate_args :: "pydict \<Rightarrow> pyval \<Rightarrow> pyexc + pydict" where
  "validate_args rb args =
     (let schema = dget rb ''args_schema'';
          properties = (if is_dict schema then dget (dict_of schema) ''properties'' else PDict []);
          required = (if is_dict schema then dget (dict_of schema) ''required'' else PList []);
          src = dict_of args
      in case first_error (missing_required src) (list_val required) of
           Some x \<Rightarrow> Inl x
         | None \<Rightarrow>
             ebind (coerce_args src (dict_of properties)) (\<lambda>out.
               case first_error (unknown_arg properties) (map fst src) of Some x \<Rightarrow> Inl x | None \<Rightarrow> Inr out))"

section \<open>Commands\<close>

definition name_char :: "char \<Rightarrow> bool" where "name_char c = is_word c"

text \<open>A placeholder at the start of the text: its name and what follows.\<close>

definition placeholder :: "string \<Rightarrow> (string \<times> string) option" where
  "placeholder s =
     (if take 2 s = [CHR 0x24, CHR 0x7B]
      then (let name = takeWhile name_char (drop 2 s); rest = dropWhile name_char (drop 2 s)
            in if name \<noteq> [] \<and> rest \<noteq> [] \<and> hd rest = CHR 0x7D then Some (name, tl rest) else None)
      else None)"

lemma placeholder_shorter: "placeholder s = Some (name, rest) \<Longrightarrow> length rest < length s"
proof -
  assume p: "placeholder s = Some (name, rest)"
  then have "s \<noteq> []" and rest: "rest = tl (dropWhile name_char (drop 2 s))" by (auto simp: placeholder_def Let_def split: if_splits)
  have "length rest \<le> length (drop 2 s)" unfolding rest using length_dropWhile_le [of name_char "drop 2 s"] by simp
  also have "\<dots> < length s" using \<open>s \<noteq> []\<close> by simp
  finally show ?thesis .
qed

function substitute :: "string \<Rightarrow> pydict \<Rightarrow> pyexc + string" where
  "substitute s args =
     (case placeholder s of
        Some (name, rest) \<Rightarrow>
          if has_key args name then ebind (substitute rest args) (\<lambda>t. Inr (py_str (dget args name) @ t))
          else Inl (ValueError (''placeholder_missing:'' @ name))
      | None \<Rightarrow> (case s of [] \<Rightarrow> Inr [] | c # cs \<Rightarrow> ebind (substitute cs args) (\<lambda>t. Inr (c # t))))"
  by pat_completeness auto

termination substitute
  by (relation "measure (\<lambda>(s, _). length s)") (auto dest: placeholder_shorter)

fun substitute_all :: "pyval list \<Rightarrow> pydict \<Rightarrow> pyexc + string list" where
  "substitute_all [] args = Inr []"
| "substitute_all (v # vs) args = ebind (substitute (py_str v) args) (\<lambda>t. ebind (substitute_all vs args) (\<lambda>ts. Inr (t # ts)))"

definition build_command :: "pydict \<Rightarrow> pydict \<Rightarrow> pyexc + string \<times> string list" where
  "build_command rb args =
     (let command = dget rb ''command''; c = dict_of command in
      if \<not> is_dict command then Inr ([], [])
      else
        ebind (substitute (text_of (dget c ''exec'')) args) (\<lambda>x.
        ebind (iter_val (dget_or c ''argv'' (PList []))) (\<lambda>vs.
        ebind (substitute_all vs args) (\<lambda>argv. Inr (x, argv)))))"

record xenv =
  x_run :: "string \<Rightarrow> string list \<Rightarrow> pyexc + int \<times> string \<times> string"
  x_enabled :: bool
  x_uid :: "int option"

definition is_linebreak :: "char \<Rightarrow> bool" where
  "is_linebreak c = (let n = of_char c :: nat in (10 \<le> n \<and> n \<le> 13) \<or> (28 \<le> n \<and> n \<le> 30))"

definition failure_text :: "xenv \<Rightarrow> string \<Rightarrow> int \<Rightarrow> string \<Rightarrow> string \<Rightarrow> string" where
  "failure_text e effect code out err =
     (let detail = py_strip (if err \<noteq> [] then err else out);
          msg = ''runbook_command_failed: exit '' @ int_str code @ (if detail = [] then [] else '': '' @ take 200 (takeWhile (\<lambda>c. \<not> is_linebreak c) detail))
      in case x_uid e of
           Some uid \<Rightarrow>
             if effect = ''controlled_exec'' \<and> uid \<noteq> 0
             then ''controlled_exec_failed_without_root: this process runs as a non-root account '' @ ''(uid '' @ int_str uid @ '') and the command needs root; '' @ msg
             else msg
         | None \<Rightarrow> msg)"

definition run_result :: "catalog \<Rightarrow> pyval \<Rightarrow> pydict \<Rightarrow> pydict \<Rightarrow> bool \<Rightarrow> bool \<Rightarrow> string \<times> string list \<Rightarrow> pydict" where
  "run_result ct lang rb args dry_run approved built =
     [(''ok'', PBool True), (''runbook_id'', dget rb ''id''), (''title'', PStr (localize_runbook_title ct rb lang)), (''effect'', dget rb ''effect''),
      (''requires_approval'', PBool (truthy (dget rb ''requires_approval''))), (''args'', PDict args), (''dry_run'', PBool dry_run), (''approved'', PBool approved),
      (''command'', PDict [(''exec'', PStr (fst built)), (''argv'', PList (map PStr (snd built)))]),
      (''steps'', PList (map PStr (localize_runbook_steps ct rb lang))), (''user_message_template'', PStr (localize_runbook_user_message ct rb lang))]"

definition execute_runbook ::
    "xenv \<Rightarrow> catalog \<Rightarrow> runbook_file list \<Rightarrow> string \<Rightarrow> pyval \<Rightarrow> bool \<Rightarrow> bool \<Rightarrow> bool \<Rightarrow> pyval \<Rightarrow> (pyexc + pydict) \<times> (string \<times> string list) list" where
  "execute_runbook e ct fs runbook_id args dry_run approved allow lang =
     (case ebind (get_runbook ct fs runbook_id lang) (\<lambda>rb. ebind (validate_args rb args) (\<lambda>vargs. ebind (build_command rb vargs) (\<lambda>built. Inr (rb, vargs, built)))) of
        Inl x \<Rightarrow> (Inl x, [])
      | Inr (rb, vargs, built) \<Rightarrow>
          (let result = run_result ct lang rb vargs dry_run approved built; effect = text_of (dget rb ''effect'') in
           if dry_run \<or> effect \<notin> {''read_only'', ''controlled_exec''} \<or> fst built = [] then (Inr result, [])
           else if effect = ''controlled_exec'' \<and> (\<not> allow \<or> \<not> x_enabled e) then (Inl (OSError ''controlled_exec_disabled''), [])
           else if effect = ''controlled_exec'' \<and> \<not> approved then (Inl (OSError ''controlled_exec_approval_required''), [])
           else
             (case x_run e (fst built) (snd built) of
                Inl x \<Rightarrow> (Inl x, [built])
              | Inr (code, out, err) \<Rightarrow>
                  (Inr (dupdate result
                     ([(''exit_code'', PInt code), (''stdout'', PStr (lastn 8000 out)), (''stderr'', PStr (lastn 4000 err)), (''ok'', PBool (code = 0))]
                      @ (if code = 0 then [] else [(''error'', PStr (failure_text e effect code out err))]))), [built]))))"

end
