(* ===== verification/RunbookProperties.thy ===== *)
theory RunbookProperties
  imports Runbooks
begin

text \<open>
  Runbooks: no command runs outside its gates, what runs is what the document says with validated arguments filled in, and validated arguments
  keep to the schema.
\<close>

section \<open>Documents\<close>

definition runnable :: "pydict \<Rightarrow> bool" where
  "runnable doc = (py_strip (text_of (dget doc ''effect'')) \<in> {''read_only'', ''controlled_exec''} \<longrightarrow>
     is_dict (dget doc ''command'') \<and> (\<exists>p \<in> set ALLOWED_EXEC_PREFIXES. starts_with p (py_strip (text_of (dget (dict_of (dget doc ''command'')) ''exec''))))
     \<and> is_list (dget (dict_of (dget doc ''command'')) ''argv'') \<and> list_all is_text (list_val (dget (dict_of (dget doc ''command'')) ''argv'')))"

lemma validated_runnable: "validate_runbook_doc doc = Inr d \<Longrightarrow> runnable d"
  by (auto simp: validate_runbook_doc_def runnable_def Let_def dget_update list_ex_iff split: option.splits if_splits)

lemma loaded_runnable: "load_runbook f = Inr d \<Longrightarrow> runnable d"
  by (auto simp: load_runbook_def ebind_Inr_iff dest: validated_runnable)

lemma localized_keeps: "k \<notin> {''title'', ''steps'', ''user_message_template''} \<Longrightarrow> dget (localized ct lang d) k = dget d k"
  by (simp add: localized_def Let_def dget_update)

lemma got_runbook:
  assumes "get_runbook ct fs i lang = Inr rb"
  obtains f d where "f \<in> set fs" and "load_runbook f = Inr d" and "rb = localized ct lang d" and "py_str (dget rb ''id'') = py_strip i"
proof -
  obtain d where d: "find (\<lambda>d. py_str (dget d ''id'') = py_strip i) (List.map_filter (\<lambda>f. right_of (load_runbook f)) fs) = Some d" "rb = localized ct lang d"
    using assms by (auto simp: get_runbook_def Let_def split: if_splits option.splits)
  then have m: "d \<in> set (List.map_filter (\<lambda>f. right_of (load_runbook f)) fs)" "py_str (dget d ''id'') = py_strip i" by (auto simp: find_Some_iff)
  then obtain f where f: "f \<in> set fs" "right_of (load_runbook f) = Some d" by (auto simp: List.map_filter_def)
  then have "load_runbook f = Inr d" by (cases "load_runbook f") simp_all
  with f d m(2) localized_keeps [of "''id''" ct lang d] show thesis by (intro that) simp_all
qed

lemma localized_runnable: "runnable d \<Longrightarrow> runnable (localized ct lang d)"
  by (simp add: runnable_def localized_keeps)

section \<open>Arguments\<close>

text \<open>A value that fits its specification.\<close>

definition fits_spec :: "pydict \<Rightarrow> pyval \<Rightarrow> bool" where
  "fits_spec spec v =
     (let kind = py_str (py_or (dget spec ''type'') (PStr ''string'')) in
      if kind = ''integer''
      then (\<exists>n. v = PInt n \<and> (has_key spec ''minimum'' \<longrightarrow> (\<exists>m. py_int (dget spec ''minimum'') = Inr m \<and> m \<le> n))
             \<and> (has_key spec ''maximum'' \<longrightarrow> (\<exists>m. py_int (dget spec ''maximum'') = Inr m \<and> n \<le> m)))
      else if kind = ''boolean'' then (\<exists>b. v = PBool b)
      else (\<exists>s. v = PStr s \<and> (has_key spec ''maxLength'' \<longrightarrow> (\<exists>m. py_int (dget spec ''maxLength'') = Inr m \<and> int (char_count s) \<le> m))
             \<and> (is_list (dget spec ''enum'') \<longrightarrow> v \<in> set (list_val (dget spec ''enum'')))))"

lemma coerced_integer: "py_str (py_or (dget spec ''type'') (PStr ''string'')) = ''integer'' \<Longrightarrow> coerce_arg_value spec v = Inr w \<Longrightarrow> fits_spec spec w"
  by (auto simp: coerce_arg_value_def fits_spec_def ebind_Inr_iff split: if_splits)

lemma coerced_boolean: "py_str (py_or (dget spec ''type'') (PStr ''string'')) = ''boolean'' \<Longrightarrow> coerce_arg_value spec v = Inr w \<Longrightarrow> fits_spec spec w"
  by (cases v) (auto simp: coerce_arg_value_def fits_spec_def Let_def split: if_splits)

lemma coerced_text:
  "py_str (py_or (dget spec ''type'') (PStr ''string'')) \<noteq> ''integer'' \<Longrightarrow> py_str (py_or (dget spec ''type'') (PStr ''string'')) \<noteq> ''boolean'' \<Longrightarrow>
    coerce_arg_value spec v = Inr w \<Longrightarrow> fits_spec spec w"
  by (auto simp: coerce_arg_value_def fits_spec_def Let_def ebind_Inr_iff split: if_splits)

lemma coerced_fits: "coerce_arg_value spec v = Inr w \<Longrightarrow> fits_spec spec w"
  using coerced_integer coerced_boolean coerced_text by blast

lemma coerce_args_sound:
  assumes "coerce_args src ps = Inr out" and "(k, v) \<in> set out"
  shows "\<exists>spec. (k, PDict spec) \<in> set ps \<and> has_key src k \<and> fits_spec spec v"
  using assms
proof (induction src ps arbitrary: out rule: coerce_args.induct)
  case (2 src k' spec ps)
  show ?case
  proof (cases "has_key src k'")
    case True
    then obtain w rest where w: "is_dict spec" "coerce_arg_value (dict_of spec) (dget src k') = Inr w" "coerce_args src ps = Inr rest" "out = (k', w) # rest"
      using 2(3) by (auto simp: ebind_Inr_iff split: if_splits)
    have spec: "spec = PDict (dict_of spec)" using w(1) by (cases spec) simp_all
    show ?thesis
    proof (cases "(k, v) = (k', w)")
      case True
      then show ?thesis using \<open>has_key src k'\<close> spec coerced_fits [OF w(2)] by (intro exI [of _ "dict_of spec"]) simp
    next
      case False
      with 2(4) w(4) have "(k, v) \<in> set rest" by auto
      with 2(2) [OF _ _ w(3)] \<open>has_key src k'\<close> w(1) obtain sp where "(k, PDict sp) \<in> set ps" "has_key src k" "fits_spec sp v" by auto
      then show ?thesis by auto
    qed
  qed (use 2 in auto)
qed simp

lemma coerce_args_complete: "coerce_args src ps = Inr out \<Longrightarrow> (k, spec) \<in> set ps \<Longrightarrow> has_key src k \<Longrightarrow> has_key out k"
  by (induction src ps arbitrary: out rule: coerce_args.induct) (auto simp: ebind_Inr_iff has_key_def split: if_splits)

lemma first_error_None: "first_error f xs = None \<Longrightarrow> x \<in> set xs \<Longrightarrow> f x = None"
  by (induction xs) (auto split: option.splits)

section \<open>Commands\<close>

lemma substitute_all_length: "substitute_all vs args = Inr ts \<Longrightarrow> length ts = length vs"
  by (induction vs arbitrary: ts) (auto simp: ebind_Inr_iff)

lemma substitute_plain: "(\<And>k. placeholder (drop k s) = None) \<Longrightarrow> substitute s args = Inr s"
proof (induction s)
  case Nil
  show ?case by (subst substitute.simps) (simp add: placeholder_def)
next
  case (Cons c s)
  have "placeholder (drop k s) = None" for k using Cons.prems [of "Suc k"] by simp
  from Cons.IH [OF this] Cons.prems [of 0] show ?case by (subst substitute.simps) simp
qed

section \<open>Properties\<close>

text \<open>C13. A runbook runs at most one command, and only on a call that is no dry run, for a runbook that a file of the library defines: a read-only one, or a
  controlled one when the caller allows it, the environment enables it and it is approved. What runs is the document's executable, with one of the allowed
  prefixes, and as many arguments as its template has, filled in with validated values.\<close>

theorem commands_run_only_through_their_gates:
  assumes "execute_runbook e ct fs i args dry_run approved allow lang = (r, cmds)" and "cmds \<noteq> []"
  shows "\<exists>f d vargs x argv. f \<in> set fs \<and> load_runbook f = Inr d \<and> py_str (dget d ''id'') = py_strip i \<and> \<not> dry_run \<and> cmds = [(x, argv)]
    \<and> (text_of (dget d ''effect'') = ''read_only'' \<or> text_of (dget d ''effect'') = ''controlled_exec'' \<and> approved \<and> allow \<and> x_enabled e)
    \<and> validate_args d args = Inr vargs \<and> substitute (text_of (dget (dict_of (dget d ''command'')) ''exec'')) vargs = Inr x
    \<and> (\<exists>p \<in> set ALLOWED_EXEC_PREFIXES. starts_with p (py_strip (text_of (dget (dict_of (dget d ''command'')) ''exec''))))
    \<and> substitute_all (list_val (dget (dict_of (dget d ''command'')) ''argv'')) vargs = Inr argv
    \<and> length argv = length (list_val (dget (dict_of (dget d ''command'')) ''argv''))"
proof -
  obtain rb vargs built where b: "get_runbook ct fs i lang = Inr rb" "validate_args rb args = Inr vargs" "build_command rb vargs = Inr built"
    and gates: "cmds = [built]" "\<not> dry_run" "text_of (dget rb ''effect'') \<in> {''read_only'', ''controlled_exec''}"
      "text_of (dget rb ''effect'') = ''controlled_exec'' \<longrightarrow> approved \<and> allow \<and> x_enabled e"
    using assms by (auto simp: execute_runbook_def Let_def ebind_Inr_iff split: sum.splits if_splits prod.splits)
  obtain f d where d: "f \<in> set fs" "load_runbook f = Inr d" "rb = localized ct lang d" "py_str (dget rb ''id'') = py_strip i" by (rule got_runbook [OF b(1)])
  have keep: "dget rb k = dget d k" if "k \<in> {''id'', ''effect'', ''command'', ''args_schema''}" for k using that localized_keeps [of k ct lang d] d(3) by auto
  have "py_strip s = s" if "s \<in> {''read_only'', ''controlled_exec''}" for s using that by (auto simp: py_strip_def is_space_def Let_def)
  then have run: "is_dict (dget d ''command'')" "\<exists>p \<in> set ALLOWED_EXEC_PREFIXES. starts_with p (py_strip (text_of (dget (dict_of (dget d ''command'')) ''exec'')))"
    "is_list (dget (dict_of (dget d ''command'')) ''argv'')"
    using loaded_runnable [OF d(2)] gates(3) keep unfolding runnable_def by auto
  obtain vs where vs: "dget (dict_of (dget d ''command'')) ''argv'' = PList vs" using run(3) by (cases "dget (dict_of (dget d ''command'')) ''argv''") simp_all
  then have "has_key (dict_of (dget d ''command'')) ''argv''" by (auto simp: has_key_map_of dget_def split: option.splits)
  then have "dget_or (dict_of (dget d ''command'')) ''argv'' (PList []) = PList vs" using vs by (simp add: dget_or_def)
  moreover have cmd: "dget rb ''command'' = dget d ''command''" using keep by simp
  ultimately have x: "substitute (text_of (dget (dict_of (dget d ''command'')) ''exec'')) vargs = Inr (fst built)" "substitute_all vs vargs = Inr (snd built)"
    using b(3) run(1) unfolding build_command_def cmd Let_def by (auto simp: ebind_Inr_iff iter_val_def)
  moreover have "validate_args d args = Inr vargs" using b(2) keep by (simp add: validate_args_def)
  moreover have "py_str (dget d ''id'') = py_strip i" "dget rb ''effect'' = dget d ''effect''" using d(4) keep by simp_all
  moreover have "text_of (dget d ''effect'') = ''read_only'' \<or> text_of (dget d ''effect'') = ''controlled_exec'' \<and> approved \<and> allow \<and> x_enabled e"
    using gates(3,4) \<open>dget rb ''effect'' = dget d ''effect''\<close> by auto
  ultimately show ?thesis using d(1,2) gates(1,2) run(2) vs substitute_all_length [OF x(2)]
    by (intro exI [of _ f] exI [of _ d] exI [of _ vargs] exI [of _ "fst built"] exI [of _ "snd built"]) simp
qed

text \<open>Validated arguments keep to the schema: every value belongs to a property and an argument of that name and fits the property's type, range, length and
  enumeration; every argument given is there, and so is every required one.\<close>

theorem validated_arguments_fit_the_schema:
  assumes "validate_args rb args = Inr out" and "dget rb ''args_schema'' = PDict schema" and "dget schema ''properties'' = PDict props"
  shows "(\<forall>kv \<in> set out. \<exists>spec. (fst kv, PDict spec) \<in> set props \<and> has_key (dict_of args) (fst kv) \<and> fits_spec spec (snd kv))
    \<and> (\<forall>k. has_key (dict_of args) k \<longrightarrow> has_key out k) \<and> (\<forall>k. PStr k \<in> set (list_val (dget schema ''required'')) \<longrightarrow> has_key out k)"
proof -
  have parts: "first_error (missing_required (dict_of args)) (list_val (dget schema ''required'')) = None" "coerce_args (dict_of args) props = Inr out"
    "first_error (unknown_arg (PDict props)) (map fst (dict_of args)) = None"
    using assms by (auto simp: validate_args_def Let_def ebind_Inr_iff split: option.splits)
  have given: "has_key out k" if "has_key (dict_of args) k" for k
  proof -
    have "unknown_arg (PDict props) k = None" using first_error_None [OF parts(3)] that by (auto simp: has_key_def)
    then have "has_key props k" by (simp add: unknown_arg_def Let_def split: if_splits)
    then obtain spec where "(k, spec) \<in> set props" by (auto simp: has_key_def)
    from coerce_args_complete [OF parts(2) this that] show ?thesis .
  qed
  moreover have "has_key out k" if "PStr k \<in> set (list_val (dget schema ''required''))" for k
    using first_error_None [OF parts(1) that] given by (auto simp: missing_required_def split: if_splits)
  moreover have "\<exists>spec. (fst kv, PDict spec) \<in> set props \<and> has_key (dict_of args) (fst kv) \<and> fits_spec spec (snd kv)" if "kv \<in> set out" for kv
    using coerce_args_sound [OF parts(2)] that by (cases kv) auto
  ultimately show ?thesis by blast
qed

section \<open>Examples\<close>

definition ex_tail :: pydict where
  "ex_tail = [(''id'', PStr ''rb.tail''), (''title'', PStr ''t''), (''domain'', PStr ''ops''), (''audience'', PStr ''operator''), (''risk'', PStr ''low''),
     (''effect'', PStr ''read_only''), (''requires_approval'', PBool True),
     (''args_schema'', PDict [(''type'', PStr ''object''), (''required'', PList [PStr ''n'']),
        (''properties'', PDict [(''n'', PDict [(''type'', PStr ''integer''), (''minimum'', PInt 1), (''maximum'', PInt 50)])])]),
     (''command'', PDict [(''exec'', PStr ''/bin/../tmp/x''), (''argv'', PList [PStr ''-n'', PStr [CHR 0x24, CHR 0x7B, CHR ''n'', CHR 0x7D]])])]"

definition ex_catalog :: catalog where "ex_catalog = \<lparr>ct_titles = [], ct_steps = [], ct_messages = [], ct_review = []\<rparr>"

definition ex_xenv :: xenv where "ex_xenv = \<lparr>x_run = (\<lambda>_ _. Inr (0, [], [])), x_enabled = False, x_uid = None\<rparr>"

theorem validated_arguments_fit_the_schema_witness:
  "\<exists>out. validate_args ex_tail (PDict [(''n'', PInt 5)]) = Inr out \<and> has_key out ''n''"
proof -
  have v: "validate_args ex_tail (PDict [(''n'', PInt 5)]) = Inr [(''n'', PInt 5)]"
    by (simp add: validate_args_def ex_tail_def dict_simps Let_def missing_required_def has_key_def coerce_arg_value_def py_or_def unknown_arg_def)
  have "dget ex_tail ''args_schema'' = PDict [(''type'', PStr ''object''), (''required'', PList [PStr ''n'']),
        (''properties'', PDict [(''n'', PDict [(''type'', PStr ''integer''), (''minimum'', PInt 1), (''maximum'', PInt 50)])])]"
    by (simp add: ex_tail_def dict_simps)
  from validated_arguments_fit_the_schema [OF v this] v show ?thesis by (auto simp: dict_simps)
qed

lemma ex_tail_loads: "load_runbook (''f'', Inr (PDict ex_tail)) = Inr (AList.update ''args_schema'' (dget ex_tail ''args_schema'') (AList.update ''_path'' (PStr ''f'') ex_tail))"
  by (simp add: load_runbook_def load_yaml_def validate_runbook_doc_def ex_tail_def dict_simps Let_def RUNBOOK_REQUIRED_def has_key_def py_strip_def is_space_def py_or_def
      ALLOWED_EXEC_PREFIXES_def starts_with_def)

lemma ex_tail_runs:
  "snd (execute_runbook ex_xenv ex_catalog [(''f'', Inr (PDict ex_tail))] ''rb.tail'' (PDict [(''n'', PInt 5)]) False False False (PStr ''en'')) = [(''/bin/../tmp/x'', [''-n'', ''5''])]"
proof -
  have v: "validate_args ex_tail (PDict [(''n'', PInt 5)]) = Inr [(''n'', PInt 5)]"
    by (simp add: validate_args_def ex_tail_def dict_simps Let_def missing_required_def has_key_def coerce_arg_value_def py_or_def unknown_arg_def)
  let ?d = "AList.update ''args_schema'' (dget ex_tail ''args_schema'') (AList.update ''_path'' (PStr ''f'') ex_tail)"
  have g: "get_runbook ex_catalog [(''f'', Inr (PDict ex_tail))] ''rb.tail'' (PStr ''en'') = Inr (localized ex_catalog (PStr ''en'') ?d)"
    by (simp add: get_runbook_def ex_tail_loads Let_def List.map_filter_def dict_simps py_strip_def is_space_def) (simp add: ex_tail_def dict_simps)
  have k: "dget (localized ex_catalog (PStr ''en'') ?d) x = dget ex_tail x" if "x \<in> {''args_schema'', ''command'', ''effect''}" for x
    using that localized_keeps [of x ex_catalog "PStr ''en''" ?d] by (auto simp: dget_update)
  have va: "validate_args (localized ex_catalog (PStr ''en'') ?d) (PDict [(''n'', PInt 5)]) = Inr [(''n'', PInt 5)]"
    using v k by (simp add: validate_args_def)
  have "substitute ''/bin/../tmp/x'' [(''n'', PInt 5)] = Inr ''/bin/../tmp/x''" "substitute ''-n'' [(''n'', PInt 5)] = Inr ''-n''"
    "substitute [CHR 0x24, CHR 0x7B, CHR ''n'', CHR 0x7D] [(''n'', PInt 5)] = Inr ''5''" by code_simp+
  then have "build_command (localized ex_catalog (PStr ''en'') ?d) [(''n'', PInt 5)] = Inr (''/bin/../tmp/x'', [''-n'', ''5''])"
    using k by (simp add: build_command_def Let_def ex_tail_def dict_simps dget_or_def has_key_def iter_val_def)
  then show ?thesis using g va k by (simp add: execute_runbook_def Let_def ex_xenv_def) (simp add: ex_tail_def dict_simps)
qed

theorem commands_run_only_through_their_gates_witness:
  "\<exists>f d. f \<in> {(''f'', Inr (PDict ex_tail))} \<and> load_runbook f = Inr d \<and> text_of (dget d ''effect'') = ''read_only''"
proof -
  obtain r where r: "execute_runbook ex_xenv ex_catalog [(''f'', Inr (PDict ex_tail))] ''rb.tail'' (PDict [(''n'', PInt 5)]) False False False (PStr ''en'') = (r, [(''/bin/../tmp/x'', [''-n'', ''5''])])"
    using ex_tail_runs by (metis prod.collapse)
  from commands_run_only_through_their_gates [OF r] show ?thesis by auto
qed

section \<open>Limits\<close>

text \<open>The prefixes do not confine the executable, which is not normalised, and a read-only runbook that requires approval runs without it.\<close>

lemma unapproved_command_outside_the_prefixes_runs:
  "truthy (dget ex_tail ''requires_approval'')
    \<and> snd (execute_runbook ex_xenv ex_catalog [(''f'', Inr (PDict ex_tail))] ''rb.tail'' (PDict [(''n'', PInt 5)]) False False False (PStr ''en'')) = [(''/bin/../tmp/x'', [''-n'', ''5''])]"
  using ex_tail_runs by (simp add: ex_tail_def dict_simps)

end
