(* ===== verification/RunbookReview.thy ===== *)
theory RunbookReview
  imports Runbooks "HOL-Library.Product_Lexorder"
begin

text \<open>
  The review of a runbook (\<open>py/azazel_edge/runbook_review.py\<close>): five reviewers, each a sequence of checks that may add a finding, an amendment and a
  worse status, and the verdict that merges them. \<open>propose_runbooks\<close> picks and reviews the runbooks that fit a question.
\<close>

section \<open>Checks\<close>

record review =
  rv_reviewer :: string
  rv_role :: string
  rv_status :: string
  rv_findings :: "string list"
  rv_amendments :: "string list"

definition status_order :: "string \<Rightarrow> nat" where
  "status_order s = (if s = ''amend_required'' then 1 else if s = ''rejected'' then 2 else 0)"

definition merge_status :: "string \<Rightarrow> string \<Rightarrow> string" where
  "merge_status current candidate = (if status_order current < status_order candidate then candidate else current)"

text \<open>A check: its condition, the status it asks for, its finding and its amendment.\<close>

type_synonym check = "bool \<times> string \<times> string \<times> string"

fun apply_check :: "check \<Rightarrow> review \<Rightarrow> review" where
  "apply_check (c, st, f, a) r =
     (if c then r\<lparr>rv_status := merge_status (rv_status r) st, rv_findings := rv_findings r @ [f], rv_amendments := rv_amendments r @ [a]\<rparr> else r)"

definition review_record :: "string \<Rightarrow> string \<Rightarrow> check list \<Rightarrow> review" where
  "review_record reviewer role cs =
     fold apply_check cs \<lparr>rv_reviewer = reviewer, rv_role = role, rv_status = ''approved'', rv_findings = [], rv_amendments = []\<rparr>"

definition mentions :: "string list \<Rightarrow> string \<Rightarrow> bool" where
  "mentions tokens s = list_ex (\<lambda>t. has_sub t s) tokens"

definition as_list :: "pyval \<Rightarrow> string list" where
  "as_list v = string_list (list_val v)"

section \<open>Reviewers\<close>

definition soc_review :: "pydict \<Rightarrow> pydict \<Rightarrow> pyexc + review" where
  "soc_review rb ctx =
     ebind (py_int (py_or (dget ctx ''risk_score'') (PInt 0))) (\<lambda>score.
       let risk = py_str (py_or (dget rb ''risk'') (PStr ''low''));
           effect = text_of (dget rb ''effect'');
           approval = truthy (dget rb ''requires_approval'');
           steps = as_list (dget rb ''steps'');
           containment = mentions [''contain'', ''block'', ''quarantine''] (text_of (dget rb ''id''))
       in Inr (review_record ''soc_analyst_ai'' ''SOC Analyst''
         [(text_of (dget rb ''domain'') = ''soc'' \<and> steps = [], ''amend_required'',
           ''SOC runbook has no operator steps.'',
           ''Add explicit triage steps before escalation.''),
          (containment \<and> \<not> approval, ''rejected'',
           ''Containment-style runbook lacks approval gate.'',
           ''Set requires_approval=true for containment guidance.''),
          (containment \<and> effect = ''read_only'', ''amend_required'',
           ''Containment should not appear as read-only evidence collection.'',
           ''Use operator_guidance or controlled_exec with approval.''),
          (containment \<and> risk = ''low'', ''amend_required'',
           ''Containment runbook risk is understated.'',
           ''Raise risk to at least medium for containment review.''),
          (85 \<le> score \<and> text_of (dget rb ''domain'') = ''user'', ''amend_required'',
           ''User-facing guidance alone is insufficient for critical risk context.'',
           ''Pair user guidance with a SOC or NOC operator runbook.'')]))"

definition noc_review :: "pydict \<Rightarrow> pydict \<Rightarrow> review" where
  "noc_review rb ctx =
     (let rid = text_of (dget rb ''id'');
          domain = text_of (dget rb ''domain'');
          effect = text_of (dget rb ''effect'');
          steps = as_list (dget rb ''steps'');
          message = py_strip (text_of (dget rb ''user_message_template''));
          question = py_lower (text_of (dget ctx ''question''))
      in review_record ''noc_operator_ai'' ''NOC Operator''
         [(domain = ''noc'' \<and> steps = [], ''amend_required'',
           ''NOC runbook has no operational checklist.'',
           ''Add steps for interface, gateway, DNS, and service confirmation.''),
          (mentions [''default-route'', ''service.status'', ''ui-snapshot''] rid \<and> effect \<noteq> ''read_only'', ''amend_required'',
           ''Observation runbook should stay read-only.'',
           ''Use read_only for inspection-only NOC checks.''),
          (domain = ''noc'' \<and> message = [], ''amend_required'',
           ''NOC runbook has no operator-facing user update template.'',
           ''Add a short status message for the affected user.''),
          (mentions [''wifi'', ''ssid'', utf8 [25509, 32154], ''network'', ''internet''] question \<and> domain \<notin> {''noc'', ''user''}, ''amend_required'',
           ''Selected runbook does not align with network symptom context.'',
           ''Prefer a NOC or user-support runbook for connectivity issues.'')])"

definition user_support_review :: "pydict \<Rightarrow> pydict \<Rightarrow> review" where
  "user_support_review rb ctx =
     (let beginner = (py_str (py_or (dget rb ''audience'') (PStr ''operator'')) = ''beginner'');
          effect = text_of (dget rb ''effect'');
          steps = as_list (dget rb ''steps'');
          message = py_strip (text_of (dget rb ''user_message_template''))
      in review_record ''user_support_ai'' ''User Support''
         [(beginner \<and> message = [], ''rejected'',
           ''Beginner-facing runbook lacks an exact user message.'',
           ''Add one short plain-language message for the user.''),
          (beginner \<and> 140 < char_count message, ''amend_required'',
           ''Beginner-facing user message is too long.'',
           ''Keep user messages concise and action-oriented.''),
          (beginner \<and> length steps < 2, ''amend_required'',
           ''Beginner-facing runbook lacks enough guided steps.'',
           ''Add step-by-step guidance with one instruction at a time.''),
          (beginner \<and> effect = ''controlled_exec'', ''rejected'',
           ''Beginner-facing runbook must not trigger direct execution.'',
           ''Use operator_guidance and keep execution behind an operator.'')])"

definition security_review :: "pydict \<Rightarrow> pydict \<Rightarrow> review" where
  "security_review rb ctx =
     (let rid = text_of (dget rb ''id'');
          effect = text_of (dget rb ''effect'');
          approval = truthy (dget rb ''requires_approval'')
      in review_record ''security_architect_ai'' ''Security Architect''
         [(effect = ''controlled_exec'' \<and> \<not> approval, ''rejected'',
           ''controlled_exec runbook lacks approval.'',
           ''Require explicit approval before any controlled execution.''),
          (effect = ''operator_guidance'' \<and> is_dict (dget rb ''command''), ''amend_required'',
           ''Guidance runbook should not hide executable commands.'',
           ''Remove command block or convert to controlled_exec.''),
          (mentions [''password'', ''auth'', ''credential''] rid \<and> effect \<noteq> ''operator_guidance'', ''rejected'',
           ''Credential-sensitive runbook is too permissive.'',
           ''Restrict auth-related runbooks to operator_guidance only.''),
          (mentions [''contain'', ''block'', ''quarantine''] rid \<and> \<not> approval, ''rejected'',
           ''Network impacting action lacks explicit approval.'',
           ''Containment-class runbooks must always require approval.''),
          (dget ctx ''audience'' = PStr ''beginner'' \<and> effect = ''controlled_exec'', ''rejected'',
           ''Beginner workflow cannot front a controlled execution runbook.'',
           ''Gate controlled execution behind operator-only review.'')])"

definition qa_review :: "pydict \<Rightarrow> pydict \<Rightarrow> review" where
  "qa_review rb ctx =
     (let effect = text_of (dget rb ''effect'');
          steps = as_list (dget rb ''steps'');
          properties = dget (dict_of (dget rb ''args_schema'')) ''properties''
      in review_record ''runbook_qa_ai'' ''Runbook QA''
         [(py_strip (text_of (dget rb ''title'')) = [], ''rejected'',
           ''Runbook title is empty.'',
           ''Provide a stable human-readable title.''),
          (steps = [], ''amend_required'',
           ''Runbook has no steps.'',
           ''Add at least one operator step.''),
          (effect = ''read_only'' \<and> \<not> is_dict (dget rb ''command''), ''rejected'',
           ''read_only runbook has no command.'',
           ''Define a safe inspection command.''),
          (effect = ''controlled_exec'' \<and> \<not> is_dict (dget rb ''command''), ''rejected'',
           ''controlled_exec runbook has no command.'',
           ''Define the command and gate it behind approval.''),
          (is_dict properties \<and> 6 < length (dict_of properties), ''amend_required'',
           ''Runbook has too many free-form inputs for beginner operations.'',
           ''Reduce arguments or move details into operator guidance.'')])"

section \<open>Verdict\<close>

record verdict_parts =
  vp_status :: string
  vp_findings :: "string list"
  vp_changes :: "string list"

definition merge_review :: "review \<Rightarrow> verdict_parts \<Rightarrow> verdict_parts" where
  "merge_review r v =
     v\<lparr>vp_status := merge_status (vp_status v) (rv_status r),
       vp_changes := vp_changes v @ filter (\<lambda>x. x \<notin> set (vp_changes v)) (rv_amendments r),
       vp_findings := vp_findings v @ filter (\<lambda>x. x \<notin> set (vp_findings v)) (rv_findings r)\<rparr>"

definition merged :: "review list \<Rightarrow> verdict_parts" where
  "merged rs = fold merge_review rs \<lparr>vp_status = ''approved'', vp_findings = [], vp_changes = []\<rparr>"

definition reviewers :: "pydict \<Rightarrow> pydict \<Rightarrow> pyexc + review list" where
  "reviewers rb ctx =
     ebind (soc_review rb ctx) (\<lambda>soc. Inr [soc, noc_review rb ctx, user_support_review rb ctx, security_review rb ctx, qa_review rb ctx])"

definition texts :: "catalog \<Rightarrow> pyval \<Rightarrow> string list \<Rightarrow> pyval" where
  "texts ct lang ts = PList (map PStr (translate_review_texts ct ts lang))"

definition review_dict :: "catalog \<Rightarrow> pyval \<Rightarrow> review \<Rightarrow> pyval" where
  "review_dict ct lang r =
     PDict [(''reviewer'', PStr (rv_reviewer r)), (''role'', PStr (rv_role r)), (''status'', PStr (rv_status r)),
       (''findings'', texts ct lang (rv_findings r)), (''amendments'', texts ct lang (rv_amendments r))]"

text \<open>The confidence is a constant of the status; the float carries its decimal text.\<close>

definition confidence_of :: "string \<Rightarrow> pyval" where
  "confidence_of status =
     (if status = ''amend_required'' then PFloat (FFin (74 / 100) ''0.74'')
      else if status = ''rejected'' then PFloat (FFin (58 / 100) ''0.58'')
      else PFloat (FFin (92 / 100) ''0.92''))"

definition review_runbook :: "catalog \<Rightarrow> int \<Rightarrow> pydict \<Rightarrow> pyval \<Rightarrow> pyexc + pydict" where
  "review_runbook ct now rb context =
     (let ctx = dict_of context; lang = PStr (py_str (py_or (dget ctx ''lang'') (PStr ''ja''))) in
      ebind (reviewers rb ctx) (\<lambda>rs.
        let v = merged rs in
        Inr [(''ok'', PBool True), (''runbook_id'', PStr (text_of (dget rb ''id''))), (''title'', PStr (text_of (dget rb ''title''))),
          (''final_status'', PStr (vp_status v)), (''confidence'', confidence_of (vp_status v)), (''reviewed_at'', PInt now),
          (''findings'', texts ct lang (vp_findings v)), (''required_changes'', texts ct lang (vp_changes v)),
          (''reviewers'', PList (map (review_dict ct lang) rs))]))"

definition review_runbook_id :: "catalog \<Rightarrow> runbook_file list \<Rightarrow> int \<Rightarrow> string \<Rightarrow> pydict \<Rightarrow> pyexc + pydict" where
  "review_runbook_id ct fs now runbook_id context =
     ebind (get_runbook ct fs runbook_id (PStr (py_str (py_or (dget context ''lang'') (PStr ''ja''))))) (\<lambda>rb. review_runbook ct now rb (PDict context))"

definition list_reviewable_runbooks :: "catalog \<Rightarrow> runbook_file list \<Rightarrow> pydict list" where
  "list_reviewable_runbooks ct fs = filter (\<lambda>i. py_strip (text_of (dget i ''id'')) \<noteq> []) (list_runbooks ct PNone fs)"

section \<open>Proposals\<close>

record candidate =
  cd_id :: string
  cd_score :: int
  cd_reasons :: "string list"

fun add_candidate :: "string \<times> int \<times> string \<Rightarrow> candidate list \<Rightarrow> candidate list" where
  "add_candidate (rid, score, reason) [] = [\<lparr>cd_id = rid, cd_score = score, cd_reasons = [reason]\<rparr>]"
| "add_candidate (rid, score, reason) (c # cs) =
     (if cd_id c = rid
      then c\<lparr>cd_score := max (cd_score c) score, cd_reasons := cd_reasons c @ (if reason \<in> set (cd_reasons c) then [] else [reason])\<rparr> # cs
      else c # add_candidate (rid, score, reason) cs)"

definition proposal_rules :: "(string list \<times> (string \<times> int \<times> string) list) list" where
  "proposal_rules =
     [
      ([''route'', ''gateway'', ''uplink'', ''internet'', utf8 [22238, 32218], utf8 [12466, 12540, 12488, 12454, 12455, 12452]],
       [(''rb.noc.default-route.check'', 100, ''uplink/gateway symptom''), (''rb.noc.ui-snapshot.check'', 85, ''compare runtime view with actual route'')]),
      ([''service'', ''systemd'', utf8 [36215, 21205], utf8 [20572, 27490], utf8 [12469, 12540, 12499, 12473]],
       [(''rb.noc.service.status.check'', 100, ''service health symptom'')]),
      ([''restart'', utf8 [20877, 36215, 21205]],
       [(''rb.noc.service.restart.controlled'', 85, ''controlled restart candidate'')]),
      ([''epd'', ''display'', ''screen'', utf8 [30011, 38754]],
       [(''rb.ops.epd.state.check'', 100, ''display/EPD symptom''), (''rb.noc.ui-snapshot.check'', 80, ''cross-check runtime state'')]),
      ([''log'', ''llm'', ''ai'', utf8 [36933, 12356], utf8 [22833, 25943], ''fallback'', utf8 [12525, 12464]],
       [(''rb.ops.logs.ai.recent'', 100, ''ai/log symptom'')]),
      ([''wifi'', ''wi-fi'', ''ssid'', ''network'', ''connect'', utf8 [25509, 32154], utf8 [12388, 12394, 12364], utf8 [32331, 12364], utf8 [12493, 12483, 12488], utf8 [28961, 32218]],
       [(''rb.user.first-contact.network-issue'', 100, ''beginner connectivity intake''), (''rb.user.reconnect-guide'', 95, ''guided reconnect flow''), (''rb.noc.ui-snapshot.check'', 80, ''verify actual network status'')]),
      ([''dns'', utf8 [21517, 21069, 35299, 27770]],
       [(''rb.noc.dns.failure.check'', 100, ''dns symptom''), (''rb.user.first-contact.network-issue'', 70, ''user intake before noc action'')]),
      ([''dhcp'', ''ip address'', utf8 [105, 112, 12364], utf8 [12450, 12489, 12524, 12473]],
       [(''rb.noc.dhcp.failure.check'', 100, ''dhcp/address symptom''), (''rb.user.first-contact.network-issue'', 75, ''user intake before noc action'')]),
      ([''alert'', ''suricata'', utf8 [20405, 20837], utf8 [25915, 25731], ''false positive'', utf8 [35492, 26908, 30693]],
       [(''rb.soc.alert.triage.basic'', 100, ''suricata alert triage'')]),
      ([''contain'', ''block'', ''isolate'', utf8 [36974, 26029], utf8 [38548, 38626]],
       [(''rb.soc.contain.recommend'', 100, ''containment decision'')])]"

definition default_proposals :: "(string \<times> int \<times> string) list" where
  "default_proposals =
     [(''rb.noc.ui-snapshot.check'', 70, ''default runtime state inspection''), (''rb.user.first-contact.network-issue'', 65, ''default beginner intake'')]"

definition candidates_for :: "string \<Rightarrow> candidate list" where
  "candidates_for q =
     (let cs = fold (\<lambda>(tokens, adds) cs. if mentions tokens q then fold add_candidate adds cs else cs) proposal_rules []
      in if cs = [] then fold add_candidate default_proposals cs else cs)"

definition sort_bonus :: "string \<Rightarrow> pydict \<Rightarrow> int" where
  "sort_bonus audience rb =
     (let ra = text_of (dget rb ''audience''); domain = text_of (dget rb ''domain''); effect = text_of (dget rb ''effect'') in
      if audience = ''beginner''
      then (if ra = ''beginner'' then 20 else 0) + (if domain = ''user'' then 15 else 0) + (if domain = ''noc'' then 5 else 0)
        - (if effect = ''controlled_exec'' then 30 else 0)
      else (if ra = ''operator'' then 15 else 0) + (if domain \<in> {''noc'', ''soc'', ''ops''} then 10 else 0) - (if domain = ''user'' then 5 else 0))"

definition hydrated :: "catalog \<Rightarrow> runbook_file list \<Rightarrow> string \<Rightarrow> candidate list \<Rightarrow> (candidate \<times> int \<times> pydict) list" where
  "hydrated ct fs audience cs =
     List.map_filter (\<lambda>c. map_option (\<lambda>rb. (c, cd_score c + sort_bonus audience rb, rb)) (right_of (get_runbook ct fs (cd_id c) PNone))) cs"

text \<open>The first items of a list, \<open>xs[:max(1, min(n, 10))]\<close>.\<close>

definition first_items :: "int \<Rightarrow> 'a list \<Rightarrow> 'a list" where
  "first_items n xs = take (nat (max 1 (min n 10))) xs"

definition dsetdefault :: "string \<Rightarrow> pyval \<Rightarrow> pydict \<Rightarrow> pydict" where
  "dsetdefault k v d = (if has_key d k then d else AList.update k v d)"

definition proposal_item :: "candidate \<times> int \<times> pydict \<Rightarrow> pydict \<Rightarrow> pydict" where
  "proposal_item cer review =
     (let (c, effective, rb) = cer in
      [(''runbook_id'', PStr (cd_id c)), (''title'', PStr (text_of (dget rb ''title''))), (''domain'', PStr (text_of (dget rb ''domain''))),
       (''audience'', PStr (text_of (dget rb ''audience''))), (''effect'', PStr (text_of (dget rb ''effect''))),
       (''requires_approval'', PBool (truthy (dget rb ''requires_approval''))),
       (''args_schema'', if is_dict (dget rb ''args_schema'') then dget rb ''args_schema'' else EMPTY_SCHEMA),
       (''steps'', if is_list (dget rb ''steps'') then dget rb ''steps'' else PList []),
       (''user_message_template'', PStr (text_of (dget rb ''user_message_template''))), (''score'', PInt (cd_score c)), (''effective_score'', PInt effective),
       (''selection_reasons'', PList (map PStr (cd_reasons c))), (''review'', PDict review)])"

fun propose_items :: "catalog \<Rightarrow> int \<Rightarrow> pydict \<Rightarrow> (candidate \<times> int \<times> pydict) list \<Rightarrow> pyexc + pydict list" where
  "propose_items ct now ctx [] = Inr []"
| "propose_items ct now ctx (cer # cers) =
     ebind (review_runbook ct now (snd (snd cer)) (PDict ctx)) (\<lambda>review. ebind (propose_items ct now ctx cers) (\<lambda>items. Inr (proposal_item cer review # items)))"

definition propose_runbooks :: "catalog \<Rightarrow> runbook_file list \<Rightarrow> int \<Rightarrow> pyval \<Rightarrow> string \<Rightarrow> int \<Rightarrow> pyval \<Rightarrow> pyexc + pydict" where
  "propose_runbooks ct fs now question audience max_items context =
     (let q = py_strip (text_of question);
          ctx = dsetdefault ''audience'' (PStr audience) (dsetdefault ''question'' (PStr q) (dict_of context));
          chosen = first_items max_items
            (sort_key (\<lambda>(c, effective, _). (- effective, - cd_score c, cd_id c)) (hydrated ct fs audience (candidates_for (py_lower q))))
      in ebind (propose_items ct now ctx chosen) (\<lambda>items.
           Inr [(''ok'', PBool True), (''question'', PStr q), (''audience'', PStr audience), (''items'', PList (map PDict items))]))"

end
