(* ===== verification/RunbookReviewProperties.thy ===== *)
theory RunbookReviewProperties
  imports RunbookReview RunbookProperties
begin

text \<open>
  The verdict of a runbook review: which runbooks are rejected and which pass without a finding, and that a proposal holds reviewed runbooks of the
  library only.
\<close>

section \<open>Statuses\<close>

definition STATUSES :: "string set" where "STATUSES = {''approved'', ''amend_required'', ''rejected''}"

lemma merge_status_cases:
  "a \<in> STATUSES \<Longrightarrow> b \<in> STATUSES \<Longrightarrow> merge_status a b \<in> STATUSES"
  "a \<in> STATUSES \<Longrightarrow> b \<in> STATUSES \<Longrightarrow> merge_status a b = ''rejected'' \<longleftrightarrow> a = ''rejected'' \<or> b = ''rejected''"
  "a \<in> STATUSES \<Longrightarrow> b \<in> STATUSES \<Longrightarrow> merge_status a b = ''approved'' \<longleftrightarrow> a = ''approved'' \<and> b = ''approved''"
  unfolding STATUSES_def by (elim insertE emptyE; simp add: merge_status_def status_order_def)+

text \<open>Every check asks for a change or a rejection.\<close>

definition graded :: "check list \<Rightarrow> bool" where
  "graded cs = list_all (\<lambda>c. fst (snd c) \<in> {''amend_required'', ''rejected''}) cs"

lemma review_record_snoc: "review_record a b (cs @ [c]) = apply_check c (review_record a b cs)"
  by (simp add: review_record_def)

lemma graded_review:
  assumes "graded cs"
  shows "rv_status (review_record a b cs) \<in> STATUSES
    \<and> (rv_status (review_record a b cs) = ''rejected'' \<longleftrightarrow> (\<exists>c \<in> set cs. fst c \<and> fst (snd c) = ''rejected''))
    \<and> (rv_status (review_record a b cs) = ''approved'' \<longleftrightarrow> \<not> (\<exists>c \<in> set cs. fst c))
    \<and> (rv_findings (review_record a b cs) = [] \<longleftrightarrow> \<not> (\<exists>c \<in> set cs. fst c))"
  using assms
proof (induction cs rule: rev_induct)
  case Nil
  then show ?case by (simp add: review_record_def STATUSES_def)
next
  case (snoc c cs)
  obtain x st f am where c: "c = (x, st, f, am)" by (cases c) auto
  have g: "graded cs" and st: "st = ''amend_required'' \<or> st = ''rejected''" using snoc.prems by (auto simp: graded_def c)
  then have "st \<in> STATUSES" by (auto simp: STATUSES_def)
  then show ?case using snoc.IH [OF g] st by (auto simp: review_record_snoc c merge_status_cases)
qed

lemma merged_snoc: "merged (rs @ [r]) = merge_review r (merged rs)"
  by (simp add: merged_def)

definition sound_review :: "review \<Rightarrow> bool" where
  "sound_review r = (rv_status r \<in> STATUSES \<and> (rv_status r = ''approved'' \<longleftrightarrow> rv_findings r = []))"

lemma merged_verdict:
  assumes "list_all sound_review rs"
  shows "vp_status (merged rs) \<in> STATUSES
    \<and> (vp_status (merged rs) = ''rejected'' \<longleftrightarrow> (\<exists>r \<in> set rs. rv_status r = ''rejected''))
    \<and> (vp_status (merged rs) = ''approved'' \<longleftrightarrow> vp_findings (merged rs) = [])"
  using assms
proof (induction rs rule: rev_induct)
  case Nil
  then show ?case by (simp add: merged_def STATUSES_def)
next
  case (snoc r rs)
  then have IH: "vp_status (merged rs) \<in> STATUSES"
    "vp_status (merged rs) = ''rejected'' \<longleftrightarrow> (\<exists>r \<in> set rs. rv_status r = ''rejected'')"
    "vp_status (merged rs) = ''approved'' \<longleftrightarrow> vp_findings (merged rs) = []" by simp_all
  have r: "rv_status r \<in> STATUSES" "rv_status r = ''approved'' \<longleftrightarrow> rv_findings r = []" using snoc.prems by (auto simp: sound_review_def)
  have "vp_findings (merged (rs @ [r])) = [] \<longleftrightarrow> vp_findings (merged rs) = [] \<and> rv_findings r = []"
    by (auto simp: merged_snoc merge_review_def)
  then show ?case using IH r by (simp add: merged_snoc merge_review_def merge_status_cases) blast
qed

section \<open>Reviewers\<close>

lemma graded_sound: "graded cs \<Longrightarrow> sound_review (review_record a b cs)"
  using graded_review [of cs a b] by (simp add: sound_review_def)

lemmas reviewer_defs = noc_review_def user_support_review_def security_review_def qa_review_def Let_def

lemma reviewers_sound: "reviewers rb ctx = Inr rs \<Longrightarrow> list_all sound_review rs"
  by (auto simp: reviewers_def soc_review_def reviewer_defs ebind_Inr_iff intro!: graded_sound) (simp_all add: graded_def)

text \<open>What a review never lets pass.\<close>

definition names_containment :: "pydict \<Rightarrow> bool" where
  "names_containment rb = mentions [''contain'', ''block'', ''quarantine''] (text_of (dget rb ''id''))"

definition names_credentials :: "pydict \<Rightarrow> bool" where
  "names_credentials rb = mentions [''password'', ''auth'', ''credential''] (text_of (dget rb ''id''))"

definition for_beginners :: "pydict \<Rightarrow> bool" where
  "for_beginners rb = (py_str (py_or (dget rb ''audience'') (PStr ''operator'')) = ''beginner'')"

definition unacceptable :: "pydict \<Rightarrow> pydict \<Rightarrow> bool" where
  "unacceptable rb ctx =
     (let effect = text_of (dget rb ''effect''); gated = truthy (dget rb ''requires_approval'') in
      (names_containment rb \<and> \<not> gated)
      \<or> (effect = ''controlled_exec'' \<and> (\<not> gated \<or> for_beginners rb \<or> dget ctx ''audience'' = PStr ''beginner''))
      \<or> (names_credentials rb \<and> effect \<noteq> ''operator_guidance'')
      \<or> (effect \<in> {''read_only'', ''controlled_exec''} \<and> \<not> is_dict (dget rb ''command''))
      \<or> (for_beginners rb \<and> py_strip (text_of (dget rb ''user_message_template'')) = [])
      \<or> py_strip (text_of (dget rb ''title'')) = [])"

lemma record_rejects: "graded cs \<Longrightarrow> rv_status (review_record a b cs) = ''rejected'' \<longleftrightarrow> (\<exists>c \<in> set cs. fst c \<and> fst (snd c) = ''rejected'')"
  using graded_review by blast

lemma soc_rejects: "soc_review rb ctx = Inr r \<Longrightarrow> rv_status r = ''rejected'' \<longleftrightarrow> names_containment rb \<and> \<not> truthy (dget rb ''requires_approval'')"
  by (auto simp: soc_review_def ebind_Inr_iff Let_def names_containment_def record_rejects graded_def)

lemma noc_rejects: "rv_status (noc_review rb ctx) \<noteq> ''rejected''"
  by (simp add: noc_review_def Let_def record_rejects graded_def)

lemma support_rejects:
  "rv_status (user_support_review rb ctx) = ''rejected'' \<longleftrightarrow>
    for_beginners rb \<and> (py_strip (text_of (dget rb ''user_message_template'')) = [] \<or> text_of (dget rb ''effect'') = ''controlled_exec'')"
  by (auto simp: user_support_review_def Let_def for_beginners_def record_rejects graded_def)

lemma security_rejects:
  "rv_status (security_review rb ctx) = ''rejected'' \<longleftrightarrow>
    (text_of (dget rb ''effect'') = ''controlled_exec'' \<and> (\<not> truthy (dget rb ''requires_approval'') \<or> dget ctx ''audience'' = PStr ''beginner''))
    \<or> (names_credentials rb \<and> text_of (dget rb ''effect'') \<noteq> ''operator_guidance'') \<or> (names_containment rb \<and> \<not> truthy (dget rb ''requires_approval''))"
  by (auto simp: security_review_def Let_def names_credentials_def names_containment_def record_rejects graded_def)

lemma qa_rejects:
  "rv_status (qa_review rb ctx) = ''rejected'' \<longleftrightarrow> py_strip (text_of (dget rb ''title'')) = []
    \<or> (text_of (dget rb ''effect'') \<in> {''read_only'', ''controlled_exec''} \<and> \<not> is_dict (dget rb ''command''))"
  by (auto simp: qa_review_def Let_def record_rejects graded_def)

lemmas rejects = noc_rejects support_rejects security_rejects qa_rejects

section \<open>Properties\<close>

text \<open>C30. The verdict of a review: it rejects exactly the runbooks that contain or execute without an approval gate, put execution before a beginner, touch
  credentials other than as guidance, lack the command, the beginner's message or the title; it approves exactly those that no reviewer had a
  finding on.\<close>

theorem review_rejects_exactly_the_unacceptable:
  assumes "review_runbook ct now rb (PDict ctx) = Inr out"
  shows "(dget out ''final_status'' = PStr ''rejected'' \<longleftrightarrow> unacceptable rb ctx)
    \<and> (dget out ''final_status'' = PStr ''approved'' \<longleftrightarrow> dget out ''findings'' = PList [])"
proof -
  obtain rs where rs: "reviewers rb ctx = Inr rs" "dget out ''final_status'' = PStr (vp_status (merged rs))"
      "dget out ''findings'' = texts ct (PStr (py_str (py_or (dget ctx ''lang'') (PStr ''ja'')))) (vp_findings (merged rs))"
    using assms by (auto simp: review_runbook_def Let_def ebind_Inr_iff dget_def)
  then obtain soc where soc: "soc_review rb ctx = Inr soc"
      "rs = [soc, noc_review rb ctx, user_support_review rb ctx, security_review rb ctx, qa_review rb ctx]"
    by (auto simp: reviewers_def ebind_Inr_iff)
  have "(\<exists>r \<in> set rs. rv_status r = ''rejected'') \<longleftrightarrow> unacceptable rb ctx"
    unfolding soc(2) unacceptable_def Let_def by (auto simp: soc_rejects [OF soc(1)] rejects)
  then show ?thesis using merged_verdict [OF reviewers_sound [OF rs(1)]] rs(2,3) by (auto simp: texts_def translate_review_texts_def)
qed

section \<open>Proposals\<close>

lemma proposed_item_parts:
  "propose_items ct now ctx cers = Inr items \<Longrightarrow> i \<in> set items \<Longrightarrow>
    \<exists>cer \<in> set cers. \<exists>rv. review_runbook ct now (snd (snd cer)) (PDict ctx) = Inr rv \<and> i = proposal_item cer rv"
proof (induction cers arbitrary: items)
  case (Cons cer cers)
  then obtain rv rest where r: "review_runbook ct now (snd (snd cer)) (PDict ctx) = Inr rv" "propose_items ct now ctx cers = Inr rest" "items = proposal_item cer rv # rest"
    by (auto simp: ebind_Inr_iff)
  show ?case
  proof (cases "i = proposal_item cer rv")
    case True
    with r(1) show ?thesis by (intro bexI [of _ cer] exI [of _ rv]) simp_all
  next
    case False
    with Cons.prems(2) r(3) have "i \<in> set rest" by simp
    from Cons.IH [OF r(2) this] show ?thesis by auto
  qed
qed simp

lemma propose_items_ids:
  "propose_items ct now ctx cers = Inr items \<Longrightarrow> map (\<lambda>i. dget i ''runbook_id'') items = map (\<lambda>cer. PStr (cd_id (fst cer))) cers"
  by (induction cers arbitrary: items) (auto simp: ebind_Inr_iff proposal_item_def dget_def)

lemma hydrated_member:
  assumes "cer \<in> set (hydrated ct fs audience cs)"
  obtains c rb where "cer = (c, cd_score c + sort_bonus audience rb, rb)" and "c \<in> set cs" and "get_runbook ct fs (cd_id c) PNone = Inr rb"
proof -
  obtain c rb where "c \<in> set cs" "right_of (get_runbook ct fs (cd_id c) PNone) = Some rb" "cer = (c, cd_score c + sort_bonus audience rb, rb)"
    using assms by (auto simp: hydrated_def List.map_filter_def)
  then show thesis by (intro that) (auto elim: right_of.elims)
qed

lemma first_items_length: "length (first_items n xs) \<le> 10"
  by (simp add: first_items_def)

lemma add_candidate_ids: "map cd_id (add_candidate (i, s, r) cs) = (if i \<in> set (map cd_id cs) then map cd_id cs else map cd_id cs @ [i])"
  by (induction cs) auto

lemma add_candidate_distinct: "distinct (map cd_id cs) \<Longrightarrow> distinct (map cd_id (add_candidate a cs))"
  by (cases a) (simp add: add_candidate_ids)

lemma fold_add_distinct: "distinct (map cd_id cs) \<Longrightarrow> distinct (map cd_id (fold add_candidate as cs))"
  by (induction "as" arbitrary: cs) (simp_all add: add_candidate_distinct)

lemma candidates_distinct: "distinct (map cd_id (candidates_for q))"
proof -
  have "distinct (map cd_id (fold (\<lambda>(tokens, adds) cs. if mentions tokens q then fold add_candidate adds cs else cs) rules cs))" if "distinct (map cd_id cs)" for rules cs
    using that
  proof (induction rules arbitrary: cs)
    case (Cons rule rules)
    then show ?case by (cases rule) (simp add: fold_add_distinct)
  qed simp
  then show ?thesis by (auto simp: candidates_for_def Let_def intro: fold_add_distinct)
qed

lemma hydrated_ids: "distinct (map cd_id cs) \<Longrightarrow> distinct (map (\<lambda>cer. cd_id (fst cer)) (hydrated ct fs audience cs))"
proof (induction cs)
  case (Cons c cs)
  have "cd_id (fst cer) \<in> cd_id ` set cs" if "cer \<in> set (hydrated ct fs audience cs)" for cer using hydrated_member [OF that] by fastforce
  with Cons show ?case by (auto simp: hydrated_def List.map_filter_def split: option.splits)
qed (simp add: hydrated_def List.map_filter_def)

lemma sort_key_distinct_map: "distinct (map f xs) \<Longrightarrow> distinct (map f (sort_key g xs))"
  by (simp add: distinct_map)

text \<open>What a proposal lists: at most ten runbooks, none twice, each found in the library under the id it is listed with and carrying the review it gets in the
  asker's context.\<close>

theorem proposals_are_reviewed_library_runbooks:
  assumes "propose_runbooks ct fs now question audience n (PDict ctx) = Inr out"
  shows "length (list_val (dget out ''items'')) \<le> 10
    \<and> distinct (map (\<lambda>i. dget (dict_of i) ''runbook_id'') (list_val (dget out ''items'')))
    \<and> (\<forall>i \<in> set (list_val (dget out ''items'')). \<exists>rid rb rv ctx'. dget (dict_of i) ''runbook_id'' = PStr rid \<and> get_runbook ct fs rid PNone = Inr rb
        \<and> review_runbook ct now rb (PDict ctx') = Inr rv \<and> dget (dict_of i) ''review'' = PDict rv
        \<and> dget ctx' ''audience'' = (if has_key ctx ''audience'' then dget ctx ''audience'' else PStr audience))"
proof -
  define ctx' where "ctx' = dsetdefault ''audience'' (PStr audience) (dsetdefault ''question'' (PStr (py_strip (text_of question))) ctx)"
  define hs where "hs = hydrated ct fs audience (candidates_for (py_lower (py_strip (text_of question))))"
  define chosen where "chosen = first_items n (sort_key (\<lambda>(c, effective, _). (- effective, - cd_score c, cd_id c)) hs)"
  obtain items where items: "propose_items ct now ctx' chosen = Inr items" "dget out ''items'' = PList (map PDict items)"
    using assms by (auto simp: propose_runbooks_def Let_def ebind_Inr_iff ctx'_def hs_def chosen_def dget_def)
  have ids: "map (\<lambda>i. dget (dict_of i) ''runbook_id'') (map PDict items) = map (\<lambda>cer. PStr (cd_id (fst cer))) chosen"
    using propose_items_ids [OF items(1)] by (simp add: comp_def)
  then have len: "length items = length chosen" by (metis length_map)
  have "distinct (map (\<lambda>cer. cd_id (fst cer)) chosen)"
    unfolding chosen_def first_items_def take_map [symmetric] hs_def
    by (intro distinct_take sort_key_distinct_map hydrated_ids candidates_distinct)
  then have "distinct (map (\<lambda>cer. PStr (cd_id (fst cer))) chosen)" by (auto simp: distinct_map inj_on_def)
  moreover have "\<exists>rid rb rv ctx'. dget i ''runbook_id'' = PStr rid \<and> get_runbook ct fs rid PNone = Inr rb
        \<and> review_runbook ct now rb (PDict ctx') = Inr rv \<and> dget i ''review'' = PDict rv
        \<and> dget ctx' ''audience'' = (if has_key ctx ''audience'' then dget ctx ''audience'' else PStr audience)" if i: "i \<in> set items" for i
  proof -
    obtain cer rv where cer: "cer \<in> set chosen" "review_runbook ct now (snd (snd cer)) (PDict ctx') = Inr rv" "i = proposal_item cer rv"
      using proposed_item_parts [OF items(1) i] by blast
    have "cer \<in> set hs" using cer(1) set_take_subset unfolding chosen_def first_items_def by fastforce
    then obtain c rb where c: "cer = (c, cd_score c + sort_bonus audience rb, rb)" "get_runbook ct fs (cd_id c) PNone = Inr rb"
      unfolding hs_def by (rule hydrated_member)
    have "dget ctx' ''audience'' = (if has_key ctx ''audience'' then dget ctx ''audience'' else PStr audience)"
      by (auto simp: ctx'_def dsetdefault_def dget_update has_key_map_of update_conv')
    then show ?thesis using cer c by (intro exI [of _ "cd_id c"] exI [of _ rb] exI [of _ rv] exI [of _ ctx']) (simp add: proposal_item_def dget_def)
  qed
  ultimately show ?thesis using items(2) ids len first_items_length [of n] unfolding chosen_def by (auto simp del: map_map)
qed

section \<open>Examples\<close>

lemma review_returns: "py_int (py_or (dget ctx ''risk_score'') (PInt 0)) = Inr score \<Longrightarrow> \<exists>rv. review_runbook ct now rb (PDict ctx) = Inr rv"
  by (simp add: review_runbook_def reviewers_def soc_review_def Let_def)

lemma propose_items_return: "py_int (py_or (dget ctx ''risk_score'') (PInt 0)) = Inr score \<Longrightarrow> \<exists>items. propose_items ct now ctx cers = Inr items"
proof (induction cers)
  case (Cons cer cers)
  obtain rv where "review_runbook ct now (snd (snd cer)) (PDict ctx) = Inr rv" using review_returns [OF Cons.prems] by blast
  with Cons show ?case by auto
qed simp

definition ex_restart :: pydict where
  "ex_restart = [(''id'', PStr ''rb.noc.service.restart.controlled''), (''title'', PStr ''Restart''), (''effect'', PStr ''controlled_exec''), (''requires_approval'', PBool False),
     (''command'', PDict [(''exec'', PStr ''/bin/true''), (''argv'', PList [])])]"

theorem review_rejects_exactly_the_unacceptable_witness:
  "\<exists>out. review_runbook ex_catalog 0 ex_restart (PDict []) = Inr out \<and> dget out ''final_status'' = PStr ''rejected''"
proof -
  obtain out where out: "review_runbook ex_catalog 0 ex_restart (PDict []) = Inr out"
    using review_returns [of "[]" 0 ex_catalog 0 ex_restart] by (auto simp: dget_def py_or_def)
  have "unacceptable ex_restart []" by (simp add: unacceptable_def ex_restart_def dget_def)
  with review_rejects_exactly_the_unacceptable [OF out] out show ?thesis by blast
qed

definition ex_inspect :: pydict where
  "ex_inspect = [(''id'', PStr ''rb.noc.ui-snapshot.check''), (''title'', PStr ''t''), (''domain'', PStr ''noc''), (''audience'', PStr ''operator''), (''risk'', PStr ''low''),
     (''effect'', PStr ''operator_guidance''), (''requires_approval'', PBool False)]"

lemma ex_inspect_candidates: "map cd_id (candidates_for []) = [''rb.noc.ui-snapshot.check'', ''rb.user.first-contact.network-issue'']"
proof -
  have no: "\<not> mentions tokens []" if "[] \<notin> set tokens" for tokens using that by (auto simp: mentions_def list_ex_iff)
  show ?thesis by (simp add: candidates_for_def proposal_rules_def no default_proposals_def utf8_def utf8_char_def Let_def)
qed

lemma ex_inspect_loads: "load_runbook (''f'', Inr (PDict ex_inspect)) = Inr (AList.update ''args_schema'' EMPTY_SCHEMA (AList.update ''_path'' (PStr ''f'') ex_inspect))"
  by (simp add: load_runbook_def load_yaml_def validate_runbook_doc_def ex_inspect_def dict_simps Let_def RUNBOOK_REQUIRED_def has_key_def py_strip_def is_space_def py_or_def
      EMPTY_SCHEMA_def)

lemma ex_inspect_found:
  "\<exists>rb. get_runbook ex_catalog [(''f'', Inr (PDict ex_inspect))] ''rb.noc.ui-snapshot.check'' PNone = Inr rb"
  by (simp add: get_runbook_def ex_inspect_loads Let_def List.map_filter_def py_strip_def is_space_def) (simp add: ex_inspect_def dict_simps)

theorem proposals_are_reviewed_library_runbooks_witness:
  "\<exists>out. propose_runbooks ex_catalog [(''f'', Inr (PDict ex_inspect))] 0 PNone ''beginner'' 3 (PDict []) = Inr out \<and> length (list_val (dget out ''items'')) \<le> 10
    \<and> list_val (dget out ''items'') \<noteq> []"
proof -
  let ?fs = "[(''f'', Inr (PDict ex_inspect))]"
  let ?ctx = "dsetdefault ''audience'' (PStr ''beginner'') (dsetdefault ''question'' (PStr []) [])"
  let ?h = "hydrated ex_catalog ?fs ''beginner'' (candidates_for [])"
  let ?chosen = "first_items 3 (sort_key (\<lambda>(c, effective, _). (- effective, - cd_score c, cd_id c)) ?h)"
  obtain items where items: "propose_items ex_catalog 0 ?ctx ?chosen = Inr items"
    using propose_items_return [of ?ctx 0 ex_catalog 0 ?chosen] by (auto simp: dsetdefault_def has_key_def dget_def py_or_def)
  have q: "py_strip (text_of PNone) = []" "py_lower [] = []" by (simp_all add: text_of_def py_or_def py_strip_def py_lower_def)
  then obtain out where out: "propose_runbooks ex_catalog ?fs 0 PNone ''beginner'' 3 (PDict []) = Inr out" "dget out ''items'' = PList (map PDict items)"
    using items by (simp add: propose_runbooks_def Let_def dget_def)
  obtain c cs where c: "candidates_for [] = c # cs" "cd_id c = ''rb.noc.ui-snapshot.check''" using ex_inspect_candidates by auto
  then have "?h \<noteq> []" using ex_inspect_found by (auto simp: hydrated_def List.map_filter_def)
  then have "?chosen \<noteq> []" by (simp add: first_items_def sort_key_Nil)
  with propose_items_ids [OF items] have "items \<noteq> []" by fastforce
  with proposals_are_reviewed_library_runbooks [OF out(1)] out show ?thesis by simp
qed

end
