(* ===== verification/TriageFlows.thy ===== *)
theory TriageFlows
  imports Values "HOL-Library.Product_Lexorder"
begin

text \<open>
  Triage flows (\<open>types.py\<close>, \<open>loader.py\<close> and \<open>classifier.py\<close> of \<open>py/azazel_edge/triage/\<close>): a question-and-answer graph read from YAML, its
  checks, and the intents a text suggests.

  YAML reads some keys of a transition map as booleans, so a parsed step is its fields with text keys beside the items of its transition map; a list item
  that is no mapping is \<open>None\<close>. A flow directory maps file stems to what parsing the file gives.
\<close>

section \<open>Coercions\<close>

text \<open>\<open>dict(v or {})\<close>: a list must hold pairs with a text key, which a text of two characters also is.\<close>

fun pair_of :: "pyval \<Rightarrow> pyexc + (string \<times> pyval)" where
  "pair_of (PList [PStr k, v]) = Inr (k, v)"
| "pair_of (PStr [a, b]) = Inr ([a], PStr [b])"
| "pair_of (PStr s) = Inl (ValueError [])"
| "pair_of (PList xs) = Inl (ValueError [])"
| "pair_of v = Inl (TypeError [])"

fun pairs_of :: "pyval list \<Rightarrow> pyexc + pydict" where
  "pairs_of [] = Inr []"
| "pairs_of (v # vs) = ebind (pair_of v) (\<lambda>kv. ebind (pairs_of vs) (\<lambda>kvs. Inr (kv # kvs)))"

definition py_dict :: "pyval \<Rightarrow> pyexc + pydict" where
  "py_dict v =
     (if \<not> truthy v then Inr []
      else (case v of
          PDict d \<Rightarrow> Inr d
        | PList xs \<Rightarrow> ebind (pairs_of xs) (\<lambda>kvs. Inr (dupdate [] kvs))
        | PStr s \<Rightarrow> Inl (ValueError [])
        | _ \<Rightarrow> Inl (TypeError [])))"

text \<open>\<open>list(v or [])\<close>.\<close>

definition py_list :: "pyval \<Rightarrow> pyexc + pyval list" where
  "py_list v = iter_val (py_or v (PList []))"

text \<open>\<open>str(d.get(k, '')).strip()\<close>.\<close>

definition stripped :: "pydict \<Rightarrow> string \<Rightarrow> string" where
  "stripped d k = py_strip (py_str (dget_or d k (PStr [])))"

definition HAI :: string where "HAI = utf8 [12399, 12356]"
definition IIE :: string where "IIE = utf8 [12356, 12356, 12360]"

definition normalize_transition_key :: "pyval \<Rightarrow> string" where
  "normalize_transition_key v =
     (case v of
        PBool b \<Rightarrow> if b then ''yes'' else ''no''
      | _ \<Rightarrow>
          (let text = py_strip (py_str v); lowered = py_lower text in
           if lowered \<in> {''true'', ''yes'', HAI} then ''yes''
           else if lowered \<in> {''false'', ''no'', IIE} then ''no''
           else text))"

definition normalize_choice_label :: "pyval \<Rightarrow> string" where
  "normalize_choice_label v = (case v of PBool b \<Rightarrow> if b then ''Yes'' else ''No'' | _ \<Rightarrow> py_str v)"

section \<open>Data\<close>

record dstate =
  ds_id :: string
  ds_severity :: string
  ds_summary_key :: string
  ds_user_guidance_key :: string
  ds_operator_note_key :: string

record tstep =
  ts_id :: string
  ts_question :: pydict
  ts_answer_type :: string
  ts_choices :: "pydict list"
  ts_transitions :: "(string \<times> string) list"
  ts_fallback :: string

record tflow =
  fl_id :: string
  fl_version :: int
  fl_intents :: "string list"
  fl_label :: pydict
  fl_entry :: string
  fl_steps :: "tstep list"
  fl_states :: "dstate list"

record ystep =
  ys_fields :: pydict
  ys_transitions :: "(pyval \<times> pyval) list"

record yflow =
  yf_fields :: pydict
  yf_steps :: "ystep option list"

definition dstate_of :: "pyval \<Rightarrow> pyexc + dstate" where
  "dstate_of v =
     (case v of
        PDict d \<Rightarrow>
          (let state_id = stripped d ''state_id'';
               sv = py_strip (py_str (dget_or d ''severity'' (PStr ''low'')));
               severity = (if sv = [] then ''low'' else sv)
           in if state_id = [] then Inl (ValueError ''diagnostic_state_id_required'')
              else if severity \<notin> {''low'', ''medium'', ''high''} then Inl (ValueError (''invalid_diagnostic_severity:'' @ severity))
              else Inr \<lparr>ds_id = state_id, ds_severity = severity, ds_summary_key = stripped d ''summary_key'',
                ds_user_guidance_key = stripped d ''user_guidance_key'', ds_operator_note_key = stripped d ''operator_note_key''\<rparr>)
      | _ \<Rightarrow> Inl (AttributeError []))"

definition choice_of :: "pyval \<Rightarrow> pyexc + pydict" where
  "choice_of v =
     ebind (py_dict v) (\<lambda>choice. ebind (py_dict (dget choice ''label_i18n'')) (\<lambda>label.
       Inr (if label = [] then choice
            else AList.update ''label_i18n'' (PDict (map (\<lambda>kv. (fst kv, PStr (normalize_choice_label (snd kv)))) label)) choice)))"

definition transitions_of :: "(pyval \<times> pyval) list \<Rightarrow> (string \<times> string) list" where
  "transitions_of items =
     dupdate [] (map (\<lambda>kv. (normalize_transition_key (fst kv), py_str (snd kv))) (filter (\<lambda>kv. py_strip (py_str (snd kv)) \<noteq> []) items))"

definition step_of :: "ystep option \<Rightarrow> pyexc + tstep" where
  "step_of y =
     (case y of
        None \<Rightarrow> Inl (AttributeError [])
      | Some yy \<Rightarrow>
          (let d = ys_fields yy; step_id = stripped d ''step_id''; kind = stripped d ''answer_type''; tm = transitions_of (ys_transitions yy);
               fallback = stripped d ''fallback_transition''
           in if step_id = [] then Inl (ValueError ''step_id_required'')
              else ebind (py_dict (dget d ''question_i18n'')) (\<lambda>question.
                if question = [] \<or> list_ex (\<lambda>kv. py_strip (py_str (snd kv)) = []) question then Inl (ValueError (''question_i18n_required:'' @ step_id))
                else if kind \<notin> {''single_choice'', ''boolean'', ''text''} then Inl (ValueError (''invalid_answer_type:'' @ step_id @ '':'' @ kind))
                else ebind (ebind (py_list (dget d ''choices'')) (emap choice_of)) (\<lambda>choices.
                  if kind \<in> {''single_choice'', ''boolean''} \<and> choices = [] then Inl (ValueError (''choices_required:'' @ step_id))
                  else if tm = [] then Inl (ValueError (''transition_map_required:'' @ step_id))
                  else if fallback = [] then Inl (ValueError (''fallback_transition_required:'' @ step_id))
                  else Inr \<lparr>ts_id = step_id, ts_question = question, ts_answer_type = kind, ts_choices = choices, ts_transitions = tm, ts_fallback = fallback\<rparr>))))"

definition flow_of :: "yflow \<Rightarrow> pyexc + tflow" where
  "flow_of y =
     (let d = yf_fields y; flow_id = stripped d ''flow_id''; entry_state = stripped d ''entry_state'' in
      if flow_id = [] then Inl (ValueError ''flow_id_required'')
      else ebind (py_int (dget_or d ''version'' (PInt 1))) (\<lambda>version.
        ebind (py_list (dget d ''intents'')) (\<lambda>raw.
          let intents = filter (\<lambda>s. s \<noteq> []) (map (\<lambda>v. py_strip (py_str v)) raw) in
          if intents = [] then Inl (ValueError (''intents_required:'' @ flow_id))
          else ebind (py_dict (dget d ''label_i18n'')) (\<lambda>label.
            if label = [] then Inl (ValueError (''label_i18n_required:'' @ flow_id))
            else if entry_state = [] then Inl (ValueError (''entry_state_required:'' @ flow_id))
            else ebind (emap step_of (yf_steps y)) (\<lambda>steps.
              if steps = [] then Inl (ValueError (''steps_required:'' @ flow_id))
              else ebind (ebind (py_list (dget d ''diagnostic_states'')) (emap dstate_of)) (\<lambda>states.
                Inr \<lparr>fl_id = flow_id, fl_version = version, fl_intents = intents, fl_label = label, fl_entry = entry_state, fl_steps = steps, fl_states = states\<rparr>))))))"

section \<open>Loading\<close>

definition step_ids :: "tflow \<Rightarrow> string list" where
  "step_ids fl = map ts_id (fl_steps fl)"

definition state_ids :: "tflow \<Rightarrow> string list" where
  "state_ids fl = map ds_id (fl_states fl)"

definition bad_target :: "tflow \<Rightarrow> tstep \<Rightarrow> string option" where
  "bad_target fl st = find (\<lambda>t. t \<notin> set (step_ids fl) \<union> set (state_ids fl)) (map snd (ts_transitions st) @ [ts_fallback st])"

definition validate_flow :: "tflow \<Rightarrow> pyexc + tflow" where
  "validate_flow fl =
     (if \<not> distinct (step_ids fl) then Inl (ValueError (''duplicate_step_id:'' @ fl_id fl))
      else if fl_entry fl \<notin> set (step_ids fl) then Inl (ValueError (''entry_state_not_found:'' @ fl_id fl @ '':'' @ fl_entry fl))
      else (case find (\<lambda>st. bad_target fl st \<noteq> None) (fl_steps fl) of
          Some st \<Rightarrow> Inl (ValueError (''invalid_transition_target:'' @ fl_id fl @ '':'' @ ts_id st @ '':'' @ the (bad_target fl st)))
        | None \<Rightarrow> Inr fl))"

type_synonym flow_dir = "(string \<times> (pyexc + yflow)) list"

fun resolve_flow_file :: "flow_dir list \<Rightarrow> string \<Rightarrow> pyexc + (pyexc + yflow)" where
  "resolve_flow_file [] flow_id = Inl (OSError (''triage_flow_not_found:'' @ flow_id))"
| "resolve_flow_file (base # dirs) flow_id = (case map_of base flow_id of Some f \<Rightarrow> Inr f | None \<Rightarrow> resolve_flow_file dirs flow_id)"

definition load_flow :: "flow_dir list \<Rightarrow> string \<Rightarrow> pyexc + tflow" where
  "load_flow dirs flow_id = ebind (resolve_flow_file dirs flow_id) (\<lambda>f. ebind f (\<lambda>y. ebind (flow_of y) validate_flow))"

fun list_stems :: "string list \<Rightarrow> flow_dir list \<Rightarrow> string list" where
  "list_stems seen [] = []"
| "list_stems seen (base # dirs) =
     (let new = filter (\<lambda>s. s \<notin> set seen) (sort (map fst base)) in new @ list_stems (seen @ new) dirs)"

definition list_flows :: "flow_dir list \<Rightarrow> pyexc + tflow list" where
  "list_flows dirs = emap (load_flow dirs) (list_stems [] dirs)"

section \<open>Intents\<close>

record intent_candidate =
  ic_intent :: string
  ic_label :: pyval
  ic_confidence :: rat
  ic_source :: string

definition RULES :: "(string \<times> string list) list" where
  "RULES =
     [
      (''wifi_connectivity'', [''wifi'', ''wi-fi'', ''wireless'', ''ssid'', ''ap'', utf8 [38651, 27874], utf8 [28961, 32218], utf8 [12388, 12394, 12364, 12425, 12394, 12356], utf8 [32331, 12364, 12425, 12394, 12356]]),
      (''wifi_reconnect'', [''reconnect'', ''re-join'', ''again'', utf8 [20877, 25509, 32154], utf8 [25147, 12425, 12394, 12356], utf8 [20999, 12428, 12383], utf8 [20999, 26029, 24460]]),
      (''wifi_onboarding'', [''onboarding'', ''first time'', ''new device'', utf8 [21021, 22238], utf8 [26032, 12375, 12356, 31471, 26411], utf8 [26032, 35215, 31471, 26411], utf8 [30331, 37682]]),
      (''dns_resolution'', [''dns'', ''name resolve'', ''resolve'', ''resolver'', utf8 [21517, 21069, 35299, 27770], utf8 [24341, 12369, 12394, 12356], utf8 [12489, 12513, 12452, 12531]]),
      (''portal_access'', [''portal'', ''login page'', ''captive'', utf8 [35469, 35388, 30011, 38754], utf8 [12509, 12540, 12479, 12523], utf8 [12525, 12464, 12452, 12531, 30011, 38754]]),
      (''uplink_reachability'', [''internet'', ''gateway'', ''uplink'', ''wan'', ''route'', ''default route'', utf8 [22806, 37096], utf8 [19978, 20301, 22238, 32218], utf8 [12466, 12540, 12488, 12454, 12455, 12452]]),
      (''service_status'', [''service'', ''daemon'', ''status'', ''restart'', ''systemctl'', utf8 [33853, 12385, 12390], utf8 [20572, 27490], utf8 [12469, 12540, 12499, 12473]])]"

definition flow_label :: "tflow \<Rightarrow> string \<Rightarrow> string \<Rightarrow> pyval" where
  "flow_label fl lang d = py_or (dget (fl_label fl) lang) (py_or (dget (fl_label fl) ''en'') (PStr d))"

definition labels_by_intent :: "flow_dir list \<Rightarrow> string \<Rightarrow> pyexc + (string \<times> pyval) list" where
  "labels_by_intent dirs lang =
     ebind (list_flows dirs) (\<lambda>flows. Inr (dupdate [] (concat (map (\<lambda>fl. map (\<lambda>i. (i, flow_label fl lang (fl_id fl))) (fl_intents fl)) flows))))"

definition hits :: "string \<Rightarrow> string list \<Rightarrow> nat" where
  "hits text terms = length (filter (\<lambda>t. has_sub (py_lower t) text) terms)"

text \<open>The confidence of \<open>n\<close> hits, already a number with two decimals.\<close>

definition confidence :: "nat \<Rightarrow> rat" where
  "confidence n = min (95 / 100) (35 / 100 + of_nat n * 18 / 100)"

definition classify_intent_candidates :: "flow_dir list \<Rightarrow> pyval \<Rightarrow> string \<Rightarrow> int \<Rightarrow> pyexc + intent_candidate list" where
  "classify_intent_candidates dirs text lang limit =
     (let normalized = py_lower (py_strip (text_of text)) in
      if normalized = [] then Inr []
      else ebind (labels_by_intent dirs lang) (\<lambda>labels.
        Inr (take (nat (max 1 limit))
          (sort_key (\<lambda>c. (- ic_confidence c, ic_intent c))
            (map (\<lambda>(i, terms). \<lparr>ic_intent = i, ic_label = dget_or labels i (PStr i), ic_confidence = confidence (hits normalized terms), ic_source = ''rule_first''\<rparr>)
              (filter (\<lambda>(i, terms). 0 < hits normalized terms) RULES))))))"

end
