(* ===== verification/Triage.thy ===== *)
theory Triage
  imports TriageFlows RunbookReview AuditChain
begin

text \<open>
  Triage sessions (\<open>types.py\<close>, \<open>session.py\<close>, \<open>selector.py\<close> and \<open>engine.py\<close> of \<open>py/azazel_edge/triage/\<close>): a session walks a flow by answers until a
  diagnostic state proposes runbooks.

  The session directory maps a session id to its file: the JSON object written, or a file that a failed write left unreadable. The engine's audit is the
  hash-chained log of \<open>AuditChain\<close>. A call's environment \<open>tenv\<close> gives the flow and runbook files, the clock readings and save outcomes by their place in
  the call, and what the system answers while each kind of audit record is written; no operation writes one kind twice.
\<close>

section \<open>Sessions\<close>

record tsession =
  se_id :: string
  se_audience :: string
  se_lang :: string
  se_candidates :: "pyval list"
  se_intent :: string
  se_current :: string
  se_answers :: pydict
  se_diagnostic :: string
  se_runbooks :: "string list"
  se_status :: string
  se_handoff :: string
  se_created :: int
  se_updated :: int

definition session_to_dict :: "tsession \<Rightarrow> pydict" where
  "session_to_dict s =
     [(''session_id'', PStr (se_id s)), (''audience'', PStr (se_audience s)), (''lang'', PStr (se_lang s)), (''intent_candidates'', PList (se_candidates s)),
      (''selected_intent'', PStr (se_intent s)), (''current_state'', PStr (se_current s)), (''answers'', PDict (se_answers s)),
      (''diagnostic_state'', PStr (se_diagnostic s)), (''proposed_runbooks'', PList (map PStr (se_runbooks s))), (''status'', PStr (se_status s)),
      (''handoff_reason'', PStr (se_handoff s)), (''created_at'', PInt (se_created s)), (''updated_at'', PInt (se_updated s))]"

text \<open>\<open>str(d.get(k, v) or v)\<close>.\<close>

definition text_or :: "pydict \<Rightarrow> string \<Rightarrow> string \<Rightarrow> string" where
  "text_or d k v = py_str (py_or (dget_or d k (PStr v)) (PStr v))"

definition session_from_dict :: "pydict \<Rightarrow> pyexc + tsession" where
  "session_from_dict d =
     (let session_id = stripped d ''session_id'' in
      if session_id = [] then Inl (ValueError ''triage_session_id_required'')
      else
        ebind (py_list (dget d ''intent_candidates'')) (\<lambda>candidates.
        ebind (py_dict (dget d ''answers'')) (\<lambda>answers.
        ebind (py_list (dget d ''proposed_runbooks'')) (\<lambda>runbooks.
        ebind (py_int (py_or (dget d ''created_at'') (PInt 0))) (\<lambda>created.
        ebind (py_int (py_or (dget d ''updated_at'') (PInt 0))) (\<lambda>updated.
          Inr \<lparr>se_id = session_id, se_audience = text_or d ''audience'' ''temporary'', se_lang = text_or d ''lang'' ''ja'', se_candidates = candidates,
            se_intent = stripped d ''selected_intent'', se_current = stripped d ''current_state'', se_answers = answers,
            se_diagnostic = stripped d ''diagnostic_state'', se_runbooks = map py_str runbooks, se_status = text_or d ''status'' ''active'',
            se_handoff = stripped d ''handoff_reason'', se_created = created, se_updated = updated\<rparr>))))))"

section \<open>Store\<close>

datatype tfile = SavedObject pyval | Unreadable
datatype save_io = SaveOk | OpenFails | WriteFails

type_synonym tstore = "string \<Rightarrow> tfile option"

definition save_session :: "save_io \<Rightarrow> int \<Rightarrow> tsession \<Rightarrow> tstore \<Rightarrow> (pyexc + tsession) \<times> tstore" where
  "save_session io now s st =
     (let s1 = s\<lparr>se_updated := now\<rparr>;
          s2 = (if se_created s1 = 0 then s1\<lparr>se_created := se_updated s1\<rparr> else s1)
      in case io of
           SaveOk \<Rightarrow> (Inr s2, st(se_id s := Some (SavedObject (sort_keys (PDict (session_to_dict s2))))))
         | OpenFails \<Rightarrow> (Inl (OSError []), st)
         | WriteFails \<Rightarrow> (Inl (OSError []), st(se_id s := Some Unreadable)))"

definition new_session :: "string \<Rightarrow> string \<Rightarrow> string \<Rightarrow> string \<Rightarrow> string \<Rightarrow> int \<Rightarrow> tsession" where
  "new_session uuid audience lang intent current now =
     \<lparr>se_id = uuid, se_audience = (if audience = [] then ''temporary'' else audience), se_lang = (if lang = [] then ''ja'' else lang), se_candidates = [],
      se_intent = intent, se_current = current, se_answers = [], se_diagnostic = [], se_runbooks = [], se_status = ''active'', se_handoff = [],
      se_created = now, se_updated = now\<rparr>"

definition create_session ::
    "save_io \<Rightarrow> string \<Rightarrow> int \<Rightarrow> int \<Rightarrow> string \<Rightarrow> string \<Rightarrow> string \<Rightarrow> string \<Rightarrow> tstore \<Rightarrow> (pyexc + tsession) \<times> tstore" where
  "create_session io uuid now save_now audience lang intent current st = save_session io save_now (new_session uuid audience lang intent current now) st"

definition get_session :: "string \<Rightarrow> tstore \<Rightarrow> pyexc + tsession option" where
  "get_session i st =
     (case st i of
        None \<Rightarrow> Inr None
      | Some Unreadable \<Rightarrow> Inl (ValueError [])
      | Some (SavedObject (PDict d)) \<Rightarrow> ebind (session_from_dict d) (\<lambda>s. Inr (Some s))
      | Some (SavedObject _) \<Rightarrow> Inl (AttributeError []))"

definition delete_session :: "string \<Rightarrow> tstore \<Rightarrow> bool \<times> tstore" where
  "delete_session i st = (if st i = None then (False, st) else (True, st(i := None)))"

section \<open>Runbooks of a diagnostic state\<close>

definition STATE_RUNBOOKS :: "(string \<times> string list) list" where
  "STATE_RUNBOOKS =
     [
      (''wifi_signal_unavailable'', [''rb.user.first-contact.network-issue'', ''rb.noc.ui-snapshot.check'']),
      (''dhcp_likely'', [''rb.noc.dhcp.failure.check'', ''rb.user.first-contact.network-issue'']),
      (''dns_likely'', [''rb.noc.dns.failure.check'', ''rb.user.first-contact.network-issue'']),
      (''multi_client_wifi_issue'', [''rb.noc.ui-snapshot.check'', ''rb.user.incident-status-brief'']),
      (''wifi_onboarding_needed'', [''rb.user.device-onboarding-guide'', ''rb.user.portal-access-guide'']),
      (''reconnect_credentials_refresh'', [''rb.user.reconnect-guide'', ''rb.user.first-contact.network-issue'']),
      (''portal_trigger_likely'', [''rb.user.portal-access-guide'', ''rb.user.first-contact.network-issue'']),
      (''onboarding_guidance_ready'', [''rb.user.device-onboarding-guide'']),
      (''dns_partial_failure'', [''rb.noc.dns.failure.check'', ''rb.user.incident-status-brief'']),
      (''dns_global_failure'', [''rb.noc.dns.failure.check'', ''rb.noc.default-route.check'']),
      (''uplink_reachability_likely'', [''rb.noc.default-route.check'', ''rb.noc.ui-snapshot.check'']),
      (''portal_session_issue'', [''rb.user.portal-access-guide'', ''rb.user.incident-status-brief'']),
      (''partial_path_issue'', [''rb.noc.default-route.check'', ''rb.user.incident-status-brief'']),
      (''uplink_issue'', [''rb.noc.default-route.check'', ''rb.noc.ui-snapshot.check'']),
      (''gateway_issue'', [''rb.noc.default-route.check'', ''rb.noc.service.status.check'']),
      (''service_check_ready'', [''rb.noc.service.status.check'', ''rb.noc.ui-snapshot.check'']),
      (''service_guidance_ready'', [''rb.user.incident-status-brief'', ''rb.noc.service.status.check'']),
      (''service_multiple_failure'', [''rb.noc.service.status.check'', ''rb.noc.ui-snapshot.check'']),
      (''user_cannot_answer'', [''rb.user.first-contact.network-issue'', ''rb.noc.ui-snapshot.check'']),
      (''wifi_reconnect_needed'', [''rb.user.reconnect-guide'', ''rb.user.first-contact.network-issue''])]"

definition DEFAULT_RUNBOOKS :: "string list" where
  "DEFAULT_RUNBOOKS = [''rb.user.first-contact.network-issue'', ''rb.noc.ui-snapshot.check'']"

definition state_runbooks :: "string \<Rightarrow> string list" where
  "state_runbooks state_id = (case map_of STATE_RUNBOOKS state_id of None \<Rightarrow> DEFAULT_RUNBOOKS | Some rs \<Rightarrow> rs)"

definition score_for_audience :: "pydict \<Rightarrow> string \<Rightarrow> nat \<Rightarrow> int" where
  "score_for_audience rb audience order_index =
     (let base = 100 - int order_index * 5; ra = text_of (dget rb ''audience''); domain = text_of (dget rb ''domain''); effect = text_of (dget rb ''effect'') in
      if audience = ''temporary''
      then base + (if ra = ''beginner'' then 25 else 0) + (if domain = ''user'' then 20 else 0) + (if domain = ''noc'' then 8 else 0)
        - (if effect = ''controlled_exec'' then 40 else 0)
      else base + (if ra = ''operator'' then 20 else 0) + (if domain \<in> {''noc'', ''ops'', ''soc''} then 10 else 0) - (if domain = ''user'' then 5 else 0))"

record selected =
  sl_runbook_id :: string
  sl_runbook :: pydict
  sl_score :: int
  sl_review :: pydict

definition select_item :: "catalog \<Rightarrow> runbook_file list \<Rightarrow> int \<Rightarrow> string \<Rightarrow> string \<Rightarrow> pydict \<Rightarrow> nat \<times> string \<Rightarrow> pyexc + selected" where
  "select_item ct fs now audience lang ctx ir =
     ebind (get_runbook ct fs (snd ir) (PStr lang)) (\<lambda>rb.
     ebind (review_runbook_id ct fs now (snd ir) ctx) (\<lambda>review.
       Inr \<lparr>sl_runbook_id = snd ir, sl_runbook = rb, sl_score = score_for_audience rb audience (fst ir), sl_review = review\<rparr>))"

definition select_runbooks_for_diagnostic_state ::
    "catalog \<Rightarrow> runbook_file list \<Rightarrow> int \<Rightarrow> string \<Rightarrow> string \<Rightarrow> string \<Rightarrow> int \<Rightarrow> pydict \<Rightarrow> pyexc + selected list" where
  "select_runbooks_for_diagnostic_state ct fs now diagnostic_state audience lang max_items context =
     (let state_id = py_strip diagnostic_state;
          ctx = dsetdefault ''diagnostic_state'' (PStr state_id) (dsetdefault ''audience'' (PStr audience) (dsetdefault ''lang'' (PStr lang) context))
      in ebind (emap (select_item ct fs now audience lang ctx) (enumerate 0 (state_runbooks state_id))) (\<lambda>items.
           Inr (first_items max_items (sort_key (\<lambda>i. (- sl_score i, sl_runbook_id i)) items))))"

text \<open>An item as the callers see it.\<close>

definition selected_dict :: "selected \<Rightarrow> pydict" where
  "selected_dict i =
     (let rb = sl_runbook i in
      [(''runbook_id'', PStr (sl_runbook_id i)), (''title'', PStr (text_of (dget rb ''title''))), (''domain'', PStr (text_of (dget rb ''domain''))),
       (''audience'', PStr (text_of (dget rb ''audience''))), (''effect'', PStr (text_of (dget rb ''effect''))),
       (''requires_approval'', PBool (truthy (dget rb ''requires_approval''))), (''steps'', PList (list_val (dget rb ''steps''))),
       (''user_message_template'', PStr (text_of (dget rb ''user_message_template''))), (''score'', PInt (sl_score i)), (''review'', PDict (sl_review i))])"

section \<open>Engine\<close>

record tenv =
  t_sha :: "string \<Rightarrow> string"
  t_dirs :: "flow_dir list"
  t_catalog :: catalog
  t_files :: "runbook_file list"
  t_uuid :: string
  t_clock :: "nat \<Rightarrow> int"
  t_save :: "nat \<Rightarrow> save_io"
  t_sys :: "string \<Rightarrow> sys"

record tworld =
  tw_store :: tstore
  tw_log :: alog

record progress =
  pg_session :: tsession
  pg_flow :: tflow
  pg_step :: "tstep option"
  pg_state :: "dstate option"
  pg_completed :: bool

type_synonym 'a tcall = "tworld \<Rightarrow> (pyexc + 'a) \<times> tworld"

definition tbind :: "'a tcall \<Rightarrow> ('a \<Rightarrow> 'b tcall) \<Rightarrow> 'b tcall" where
  "tbind m f w = (case m w of (Inl x, w') \<Rightarrow> (Inl x, w') | (Inr a, w') \<Rightarrow> f a w')"

definition pure :: "pyexc + 'a \<Rightarrow> 'a tcall" where
  "pure r w = (r, w)"

definition on_store :: "(tstore \<Rightarrow> (pyexc + 'a) \<times> tstore) \<Rightarrow> 'a tcall" where
  "on_store f w = (let (r, st) = f (tw_store w) in (r, w\<lparr>tw_store := st\<rparr>))"

text \<open>An audit record of a session: every entry point passes the session as its trace and the engine as its source.\<close>

definition audited :: "((string \<Rightarrow> string) \<Rightarrow> sys \<Rightarrow> string \<Rightarrow> string \<Rightarrow> pydict \<Rightarrow> alog \<Rightarrow> (pyexc + pydict) \<times> alog) \<Rightarrow> string \<Rightarrow> tenv \<Rightarrow> tsession \<Rightarrow> pydict \<Rightarrow> unit tcall" where
  "audited entry kind e s extra w =
     (let (r, l) = entry (t_sha e) (t_sys e kind) (se_id s) ''triage_engine''
            ([(''session_id'', PStr (se_id s)), (''intent_id'', PStr (se_intent s))] @ extra) (tw_log w)
      in (case r of Inl x \<Rightarrow> Inl x | Inr _ \<Rightarrow> Inr (), w\<lparr>tw_log := l\<rparr>))"

definition find_step :: "tflow \<Rightarrow> string \<Rightarrow> pyexc + tstep" where
  "find_step fl step_id =
     (case find (\<lambda>st. ts_id st = step_id) (fl_steps fl) of
        None \<Rightarrow> Inl (KeyError (''triage_step_not_found:'' @ fl_id fl @ '':'' @ step_id))
      | Some st \<Rightarrow> Inr st)"

definition find_diagnostic :: "tflow \<Rightarrow> string \<Rightarrow> dstate option" where
  "find_diagnostic fl state_id = find (\<lambda>ds. ds_id ds = state_id) (fl_states fl)"

text \<open>A choice or a text passes through as it is, whether or not the step lists it.\<close>

definition normalize_answer :: "tstep \<Rightarrow> pyval \<Rightarrow> string" where
  "normalize_answer st answer =
     (let raw = py_lower (py_strip (py_str answer)) in
      if ts_answer_type st = ''boolean'' \<and> raw \<in> {''yes'', ''true'', ''1'', ''y'', HAI} then ''yes''
      else if ts_answer_type st = ''boolean'' \<and> raw \<in> {''no'', ''false'', ''0'', ''n'', IIE} then ''no''
      else raw)"

definition triage_start :: "tenv \<Rightarrow> string \<Rightarrow> string \<Rightarrow> string \<Rightarrow> progress tcall" where
  "triage_start e intent audience lang =
     tbind (pure (load_flow (t_dirs e) intent)) (\<lambda>fl.
     tbind (on_store (create_session (t_save e 0) (t_uuid e) (t_clock e 0) (t_clock e 1) audience lang intent (fl_entry fl))) (\<lambda>s0.
     let s = s0\<lparr>se_candidates := [PDict [(''intent_id'', PStr intent), (''label'', flow_label fl lang intent), (''confidence'', PFloat (FFin 1 ''1.0'')),
                (''source'', PStr ''selected'')]]\<rparr>
     in tbind (on_store (save_session (t_save e 1) (t_clock e 2) s)) (\<lambda>s.
     tbind (audited log_triage_session_started ''triage_session_started'' e s
        [(''audience'', PStr audience), (''lang'', PStr lang), (''initial_state'', PStr (fl_entry fl))]) (\<lambda>_.
     tbind (pure (find_step fl (fl_entry fl))) (\<lambda>st.
     pure (Inr \<lparr>pg_session = s, pg_flow = fl, pg_step = Some st, pg_state = None, pg_completed = False\<rparr>))))))"

definition complete_triage :: "tenv \<Rightarrow> tflow \<Rightarrow> tstep \<Rightarrow> dstate \<Rightarrow> tsession \<Rightarrow> progress tcall" where
  "complete_triage e fl current ds s0 =
     (let s1 = s0\<lparr>se_current := [], se_diagnostic := ds_id ds, se_status := ''diagnostic_ready''\<rparr> in
      tbind (audited log_triage_state_changed ''triage_state_changed'' e s1
        [(''previous_state'', PStr (ts_id current)), (''next_state'', PStr (ds_id ds)), (''diagnostic'', PBool True)]) (\<lambda>_.
      tbind (pure (select_runbooks_for_diagnostic_state (t_catalog e) (t_files e) (t_clock e 0) (ds_id ds) (se_audience s1) (se_lang s1) 3
        [(''lang'', PStr (se_lang s1)), (''audience'', PStr (se_audience s1)), (''diagnostic_state'', PStr (ds_id ds))])) (\<lambda>items.
      let s2 = s1\<lparr>se_runbooks := map sl_runbook_id items\<rparr> in
      tbind (audited log_triage_runbook_proposed ''triage_runbook_proposed'' e s2
        [(''diagnostic_state'', PStr (ds_id ds)), (''proposed_runbooks'', PList (map PStr (se_runbooks s2)))]) (\<lambda>_.
      let s3 = (if ds_id ds = ''user_cannot_answer'' then s2\<lparr>se_handoff := ''insufficient_user_input''\<rparr> else s2) in
      tbind (if ds_id ds = ''user_cannot_answer''
             then audited log_triage_handoff ''triage_handoff'' e s3
               [(''diagnostic_state'', PStr (ds_id ds)), (''target'', PStr ''operator''), (''reason'', PStr (se_handoff s3))]
             else pure (Inr ())) (\<lambda>_.
      tbind (on_store (save_session (t_save e 0) (t_clock e 1) s3)) (\<lambda>s4.
      tbind (audited log_triage_completed ''triage_completed'' e s4
        [(''diagnostic_state'', PStr (ds_id ds)), (''proposed_runbooks'', PList (map PStr (se_runbooks s4))), (''handoff_reason'', PStr (se_handoff s4))]) (\<lambda>_.
      pure (Inr \<lparr>pg_session = s4, pg_flow = fl, pg_step = None, pg_state = Some ds, pg_completed = True\<rparr>))))))))"

definition advance_triage :: "tenv \<Rightarrow> tflow \<Rightarrow> tstep \<Rightarrow> string \<Rightarrow> tsession \<Rightarrow> progress tcall" where
  "advance_triage e fl current target s =
     tbind (pure (find_step fl target)) (\<lambda>nxt.
     tbind (on_store (save_session (t_save e 0) (t_clock e 1) (s\<lparr>se_current := ts_id nxt\<rparr>))) (\<lambda>s1.
     tbind (audited log_triage_state_changed ''triage_state_changed'' e s1
       [(''previous_state'', PStr (ts_id current)), (''next_state'', PStr (ts_id nxt)), (''diagnostic'', PBool False)]) (\<lambda>_.
     pure (Inr \<lparr>pg_session = s1, pg_flow = fl, pg_step = Some nxt, pg_state = None, pg_completed = False\<rparr>))))"

definition require_session :: "string \<Rightarrow> tsession tcall" where
  "require_session session_id w =
     (case get_session session_id (tw_store w) of
        Inl x \<Rightarrow> (Inl x, w)
      | Inr None \<Rightarrow> (Inl (KeyError (''triage_session_not_found:'' @ session_id)), w)
      | Inr (Some s) \<Rightarrow> (Inr s, w))"

definition target_of :: "tstep \<Rightarrow> string \<Rightarrow> string" where
  "target_of st normalized = (case map_of (ts_transitions st) normalized of None \<Rightarrow> ts_fallback st | Some t \<Rightarrow> t)"

definition triage_answer :: "tenv \<Rightarrow> string \<Rightarrow> pyval \<Rightarrow> progress tcall" where
  "triage_answer e session_id answer =
     tbind (require_session session_id) (\<lambda>s.
     if se_status s \<noteq> ''active'' then pure (Inl (ValueError (''triage_session_not_active:'' @ se_id s @ '':'' @ se_status s)))
     else if se_intent s = [] then pure (Inl (ValueError (''triage_intent_not_selected:'' @ se_id s)))
     else
       tbind (pure (load_flow (t_dirs e) (se_intent s))) (\<lambda>fl.
       tbind (pure (find_step fl (se_current s))) (\<lambda>current.
       let normalized = normalize_answer current answer;
           s1 = s\<lparr>se_answers := AList.update (ts_id current) (PStr normalized) (se_answers s)\<rparr>;
           target = target_of current normalized
       in tbind (audited log_triage_step_answered ''triage_step_answered'' e s1
            [(''step_id'', PStr (ts_id current)), (''answer'', PStr normalized), (''previous_state'', PStr (ts_id current)), (''target_state'', PStr target)]) (\<lambda>_.
          case find_diagnostic fl target of
            Some ds \<Rightarrow> complete_triage e fl current ds s1
          | None \<Rightarrow> advance_triage e fl current target s1))))"

definition triage_resume :: "tenv \<Rightarrow> string \<Rightarrow> progress tcall" where
  "triage_resume e session_id =
     tbind (require_session session_id) (\<lambda>s.
     tbind (pure (load_flow (t_dirs e) (se_intent s))) (\<lambda>fl.
     if se_diagnostic s \<noteq> []
     then pure (Inr \<lparr>pg_session = s, pg_flow = fl, pg_step = None, pg_state = find_diagnostic fl (se_diagnostic s), pg_completed = True\<rparr>)
     else if se_current s = [] then pure (Inl (ValueError (''triage_session_no_current_state:'' @ se_id s)))
     else tbind (pure (find_step fl (se_current s))) (\<lambda>st.
       pure (Inr \<lparr>pg_session = s, pg_flow = fl, pg_step = Some st, pg_state = None, pg_completed = False\<rparr>))))"

end
