(* ===== verification/TriageProperties.thy ===== *)
theory TriageProperties
  imports Triage AuditChainProperties RunbookProperties "HOL-Library.Sublist"
begin

text \<open>
  Triage: a saved session is read back, every session that can be read stands in its flow, an answer to an active session always moves it, and no session
  moves before its answer is on the audit chain.
\<close>

section \<open>Text\<close>

lemma dropWhile_rev_idem: "dropWhile P (rev (dropWhile P (rev (dropWhile P xs)))) = rev (dropWhile P (rev (dropWhile P xs)))"
proof -
  define ys where "ys = rev (dropWhile P (rev (dropWhile P xs)))"
  have "prefix ys (dropWhile P xs)"
    unfolding ys_def using suffix_dropWhile [of P "rev (dropWhile P xs)"] by (metis rev_rev_ident suffix_to_prefix)
  then obtain zs where "dropWhile P xs = ys @ zs" by (auto simp: prefix_def)
  then have "ys = [] \<or> \<not> P (hd ys)" using hd_dropWhile [of P xs] by (cases ys) auto
  then show ?thesis unfolding ys_def [symmetric] by (cases ys) auto
qed

lemma py_strip_idem [simp]: "py_strip (py_strip s) = py_strip s"
  by (simp add: py_strip_def dropWhile_rev_idem)

lemma stripped_fixed [simp]: "py_strip (stripped d k) = stripped d k"
  by (simp add: stripped_def)

section \<open>Round trip of a session\<close>

text \<open>The session a file holds: dictionaries come back with their keys in order.\<close>

definition canonical :: "tsession \<Rightarrow> tsession" where
  "canonical s = s\<lparr>se_candidates := map sort_keys (se_candidates s),
     se_answers := sort_key fst (map (\<lambda>kv. (fst kv, sort_keys (snd kv))) (se_answers s))\<rparr>"

definition trimmed :: "string \<Rightarrow> bool" where "trimmed s = (py_strip s = s)"

definition wf_session :: "tsession \<Rightarrow> bool" where
  "wf_session s = (se_id s \<noteq> [] \<and> trimmed (se_id s) \<and> se_audience s \<noteq> [] \<and> se_lang s \<noteq> [] \<and> se_status s \<noteq> [] \<and> trimmed (se_intent s)
     \<and> trimmed (se_current s) \<and> trimmed (se_diagnostic s) \<and> trimmed (se_handoff s) \<and> distinct (map fst (se_answers s)))"

definition session_file :: "tsession \<Rightarrow> pyval" where
  "session_file s = sort_keys (PDict (session_to_dict s))"

definition file_dict :: "tsession \<Rightarrow> pydict" where
  "file_dict s = sort_key fst (map (\<lambda>kv. (fst kv, sort_keys (snd kv))) (session_to_dict s))"

lemma session_file_dict: "session_file s = PDict (file_dict s)"
  by (simp add: session_file_def file_dict_def)

lemma file_dict_get: "dget (file_dict s) k = (case map_of (session_to_dict s) k of None \<Rightarrow> PNone | Some v \<Rightarrow> sort_keys v)"
proof -
  have "distinct (map fst (map (\<lambda>kv. (fst kv, sort_keys (snd kv))) (session_to_dict s)))" by (simp add: session_to_dict_def)
  then show ?thesis by (simp add: file_dict_def dget_sort_key) (simp add: dget_def map_of_map_snd split: option.split)
qed

lemma file_dict_key: "has_key (file_dict s) k \<longleftrightarrow> k \<in> fst ` set (session_to_dict s)"
  by (simp add: file_dict_def has_key_def image_image)

lemma truthy_sort_keys [simp]: "truthy (sort_keys v) = truthy v"
  by (cases v) (auto simp: sort_key_Nil)


lemma file_dict_text: "k \<in> {''session_id'', ''audience'', ''lang'', ''selected_intent'', ''current_state'', ''diagnostic_state'', ''status'', ''handoff_reason''} \<Longrightarrow>
    dget_or (file_dict s) k v = dget (file_dict s) k"
  by (auto simp: dget_or_def file_dict_key session_to_dict_def)

lemma py_list_of [simp]: "py_list (PList xs) = Inr xs"
  by (cases xs) (simp_all add: py_list_def py_or_def iter_val_def)

lemma py_dict_of [simp]: "py_dict (PDict d) = Inr d"
  by (cases d) (simp_all add: py_dict_def)

lemma py_int_or_zero [simp]: "py_int (py_or (PInt n) (PInt 0)) = Inr n"
  by (simp add: py_or_def)

lemma session_roundtrip: "wf_session s \<Longrightarrow> session_from_dict (file_dict s) = Inr (canonical s)"
proof -
  assume wf: "wf_session s"
  have "stripped (file_dict s) ''session_id'' = se_id s" "stripped (file_dict s) ''selected_intent'' = se_intent s"
    "stripped (file_dict s) ''current_state'' = se_current s" "stripped (file_dict s) ''diagnostic_state'' = se_diagnostic s"
    "stripped (file_dict s) ''handoff_reason'' = se_handoff s"
    using wf by (simp_all add: stripped_def file_dict_text file_dict_get session_to_dict_def wf_session_def trimmed_def)
  moreover have "text_or (file_dict s) ''audience'' ''temporary'' = se_audience s" "text_or (file_dict s) ''lang'' ''ja'' = se_lang s"
    "text_or (file_dict s) ''status'' ''active'' = se_status s"
    using wf by (simp_all add: text_or_def file_dict_text file_dict_get session_to_dict_def wf_session_def py_or_def)
  moreover have "dget (file_dict s) ''intent_candidates'' = PList (map sort_keys (se_candidates s))"
    "dget (file_dict s) ''answers'' = PDict (sort_key fst (map (\<lambda>kv. (fst kv, sort_keys (snd kv))) (se_answers s)))"
    "dget (file_dict s) ''proposed_runbooks'' = PList (map PStr (se_runbooks s))"
    "dget (file_dict s) ''created_at'' = PInt (se_created s)" "dget (file_dict s) ''updated_at'' = PInt (se_updated s)"
    by (simp_all add: file_dict_get session_to_dict_def comp_def)
  ultimately show ?thesis using wf by (simp add: session_from_dict_def Let_def wf_session_def canonical_def comp_def)
qed

lemma canonical_simps [simp]:
  "se_id (canonical s) = se_id s" "se_audience (canonical s) = se_audience s" "se_lang (canonical s) = se_lang s" "se_intent (canonical s) = se_intent s"
  "se_current (canonical s) = se_current s" "se_diagnostic (canonical s) = se_diagnostic s" "se_status (canonical s) = se_status s" "se_handoff (canonical s) = se_handoff s"
  "se_runbooks (canonical s) = se_runbooks s"
  by (simp_all add: canonical_def)

lemma wf_canonical: "wf_session s \<Longrightarrow> wf_session (canonical s)"
  using distinct_sort_key [of "map (\<lambda>kv. (fst kv, sort_keys (snd kv))) (se_answers s)"] by (simp add: wf_session_def canonical_def comp_def)

section \<open>Flows\<close>

lemma emap_member: "emap f xs = Inr ys \<Longrightarrow> y \<in> set ys \<Longrightarrow> \<exists>x \<in> set xs. f x = Inr y"
  by (induction xs arbitrary: ys) (auto simp: ebind_Inr_iff)

lemma emap_total: "(\<And>x. x \<in> set xs \<Longrightarrow> \<exists>y. f x = Inr y) \<Longrightarrow> \<exists>ys. emap f xs = Inr ys"
proof (induction xs)
  case (Cons x xs)
  then obtain y ys where "f x = Inr y" "emap f xs = Inr ys" by (metis list.set_intros)
  then show ?case by simp
qed simp

lemma step_of_id: "step_of y = Inr st \<Longrightarrow> trimmed (ts_id st) \<and> ts_id st \<noteq> []"
  by (auto simp: step_of_def Let_def ebind_Inr_iff trimmed_def split: option.splits if_splits)

lemma dstate_of_id: "dstate_of v = Inr ds \<Longrightarrow> trimmed (ds_id ds) \<and> ds_id ds \<noteq> []"
  by (auto simp: dstate_of_def Let_def trimmed_def split: pyval.splits if_splits)

text \<open>A flow that loads: its entry and every target is one of its steps or states, and its ids are trimmed.\<close>

definition sound_flow :: "tflow \<Rightarrow> bool" where
  "sound_flow fl = (distinct (step_ids fl) \<and> fl_entry fl \<in> set (step_ids fl)
     \<and> (\<forall>st \<in> set (fl_steps fl). \<forall>t. t \<in> insert (ts_fallback st) (snd ` set (ts_transitions st)) \<longrightarrow> t \<in> set (step_ids fl) \<union> set (state_ids fl))
     \<and> (\<forall>i \<in> set (step_ids fl) \<union> set (state_ids fl). trimmed i \<and> i \<noteq> []))"

lemma flow_ids_trimmed: "flow_of y = Inr fl \<Longrightarrow> i \<in> set (step_ids fl) \<union> set (state_ids fl) \<Longrightarrow> trimmed i \<and> i \<noteq> []"
  unfolding flow_of_def Let_def
  by (auto simp: ebind_Inr_iff step_ids_def state_ids_def split: if_splits dest!: emap_member dest: step_of_id dstate_of_id)

lemma bad_target_None: "bad_target fl st = None \<Longrightarrow> t \<in> insert (ts_fallback st) (snd ` set (ts_transitions st)) \<Longrightarrow> t \<in> set (step_ids fl) \<union> set (state_ids fl)"
  by (auto simp: bad_target_def find_None_iff)

lemma loaded_sound: "load_flow dirs i = Inr fl \<Longrightarrow> sound_flow fl"
proof -
  assume "load_flow dirs i = Inr fl"
  then obtain y where y: "flow_of y = Inr fl" and v: "validate_flow fl = Inr fl"
    by (auto simp: load_flow_def ebind_Inr_iff validate_flow_def split: if_splits option.splits)
  from v have "distinct (step_ids fl)" "fl_entry fl \<in> set (step_ids fl)" "\<forall>st \<in> set (fl_steps fl). bad_target fl st = None"
    by (auto simp: validate_flow_def find_None_iff split: if_splits option.splits)
  then show ?thesis unfolding sound_flow_def using flow_ids_trimmed [OF y] bad_target_None by blast
qed

lemma find_step_found: "i \<in> set (step_ids fl) \<Longrightarrow> \<exists>st. find_step fl i = Inr st"
  by (auto simp: find_step_def step_ids_def find_None_iff split: option.split)

lemma find_stepD: "find_step fl i = Inr st \<Longrightarrow> st \<in> set (fl_steps fl) \<and> ts_id st = i"
  by (auto simp: find_step_def find_Some_iff split: option.splits)

lemma find_diagnosticD: "find_diagnostic fl i = Some ds \<Longrightarrow> ds_id ds = i \<and> i \<in> set (state_ids fl)"
  by (auto simp: find_diagnostic_def find_Some_iff state_ids_def)

lemma find_diagnostic_None: "find_diagnostic fl i = None \<Longrightarrow> i \<notin> set (state_ids fl)"
  by (auto simp: find_diagnostic_def find_None_iff state_ids_def)

lemma target_in_flow: "sound_flow fl \<Longrightarrow> st \<in> set (fl_steps fl) \<Longrightarrow> target_of st a \<in> set (step_ids fl) \<union> set (state_ids fl)"
proof -
  assume "sound_flow fl" "st \<in> set (fl_steps fl)"
  moreover have "target_of st a \<in> insert (ts_fallback st) (snd ` set (ts_transitions st))"
    by (cases "map_of (ts_transitions st) a") (auto simp: target_of_def dest!: map_of_SomeD intro: rev_image_eqI)
  ultimately show ?thesis unfolding sound_flow_def by blast
qed

section \<open>Sessions that stand in their flow\<close>

text \<open>Flow files have names without surrounding blanks.\<close>

definition flow_names_ok :: "flow_dir list \<Rightarrow> bool" where
  "flow_names_ok dirs = (\<forall>d \<in> set dirs. \<forall>kv \<in> set d. trimmed (fst kv) \<and> fst kv \<noteq> [])"

definition in_flow :: "flow_dir list \<Rightarrow> tsession \<Rightarrow> bool" where
  "in_flow dirs s = (\<exists>fl. load_flow dirs (se_intent s) = Inr fl \<and> se_intent s \<noteq> []
     \<and> (se_status s = ''active'' \<and> se_diagnostic s = [] \<and> se_current s \<in> set (step_ids fl)
        \<or> se_status s = ''diagnostic_ready'' \<and> se_current s = [] \<and> se_diagnostic s \<in> set (state_ids fl)))"

definition good_session :: "flow_dir list \<Rightarrow> tsession \<Rightarrow> bool" where
  "good_session dirs s = (wf_session s \<and> in_flow dirs s)"

definition store_inv :: "flow_dir list \<Rightarrow> tstore \<Rightarrow> bool" where
  "store_inv dirs st = (\<forall>i v. st i = Some (SavedObject v) \<longrightarrow> (\<exists>s. v = session_file s \<and> se_id s = i \<and> good_session dirs s))"

lemma resolved_name: "flow_names_ok dirs \<Longrightarrow> resolve_flow_file dirs i = Inr f \<Longrightarrow> trimmed i \<and> i \<noteq> []"
  by (induction dirs) (auto simp: flow_names_ok_def split: option.splits dest!: map_of_SomeD)

lemma loaded_name: "flow_names_ok dirs \<Longrightarrow> load_flow dirs i = Inr fl \<Longrightarrow> trimmed i \<and> i \<noteq> []"
  using resolved_name by (auto simp: load_flow_def ebind_Inr_iff)

lemma good_canonical: "good_session dirs s \<Longrightarrow> good_session dirs (canonical s)"
  by (simp add: good_session_def wf_canonical in_flow_def)

lemma get_good:
  assumes "store_inv dirs st" and "get_session i st = Inr (Some s)"
  obtains s0 where "st i = Some (SavedObject (session_file s0))" and "se_id s0 = i" and "good_session dirs s0" and "s = canonical s0"
proof -
  obtain v where v: "st i = Some (SavedObject v)" using assms(2) by (auto simp: get_session_def split: option.splits tfile.splits)
  then obtain s0 where s0: "v = session_file s0" "se_id s0 = i" "good_session dirs s0" using assms(1) by (auto simp: store_inv_def)
  then have "s = canonical s0" using assms(2) v session_roundtrip [of s0] by (simp add: get_session_def session_file_dict good_session_def)
  with v s0 show thesis by (intro that) simp_all
qed

definition stamped :: "int \<Rightarrow> tsession \<Rightarrow> tsession" where
  "stamped now s = (let s1 = s\<lparr>se_updated := now\<rparr> in if se_created s1 = 0 then s1\<lparr>se_created := se_updated s1\<rparr> else s1)"

lemma stamped_simps [simp]:
  "se_id (stamped now s) = se_id s" "se_audience (stamped now s) = se_audience s" "se_lang (stamped now s) = se_lang s" "se_intent (stamped now s) = se_intent s"
  "se_current (stamped now s) = se_current s" "se_diagnostic (stamped now s) = se_diagnostic s" "se_status (stamped now s) = se_status s" "se_handoff (stamped now s) = se_handoff s"
  "se_runbooks (stamped now s) = se_runbooks s" "se_answers (stamped now s) = se_answers s" "se_candidates (stamped now s) = se_candidates s"
  by (simp_all add: stamped_def Let_def)

lemma good_stamped: "good_session dirs s \<Longrightarrow> good_session dirs (stamped now s)"
  by (simp add: good_session_def wf_session_def in_flow_def)

lemma save_session_stamped:
  "save_session io now s st = (case io of SaveOk \<Rightarrow> (Inr (stamped now s), st(se_id s := Some (SavedObject (session_file (stamped now s)))))
     | OpenFails \<Rightarrow> (Inl (OSError []), st) | WriteFails \<Rightarrow> (Inl (OSError []), st(se_id s := Some Unreadable)))"
  by (cases io) (simp_all add: save_session_def stamped_def session_file_def Let_def)

section \<open>Calls\<close>

text \<open>A call that keeps a condition on the world and whose results satisfy \<open>Q\<close>.\<close>

definition ensures :: "(tworld \<Rightarrow> bool) \<Rightarrow> 'a tcall \<Rightarrow> ('a \<Rightarrow> bool) \<Rightarrow> bool" where
  "ensures P m Q = (\<forall>w. P w \<longrightarrow> P (snd (m w)) \<and> (\<forall>a. fst (m w) = Inr a \<longrightarrow> Q a))"

lemma ensures_bind: "ensures P m Q \<Longrightarrow> (\<And>a. Q a \<Longrightarrow> ensures P (f a) R) \<Longrightarrow> ensures P (tbind m f) R"
  by (fastforce simp: ensures_def tbind_def split: prod.splits sum.splits)

lemma ensures_pure: "(\<And>a. r = Inr a \<Longrightarrow> Q a) \<Longrightarrow> ensures P (pure r) Q"
  by (simp add: ensures_def pure_def)

lemma ensures_audited: "ensures (\<lambda>w. P (tw_store w)) (audited entry kind e s extra) (\<lambda>_. True)"
  by (simp add: ensures_def audited_def case_prod_beta)

lemma ensures_save:
  assumes "good_session dirs s"
  shows "ensures (\<lambda>w. store_inv dirs (tw_store w)) (on_store (save_session io now s)) (\<lambda>s'. s' = stamped now s \<and> good_session dirs s')"
proof -
  have "store_inv dirs (st(se_id s := Some (SavedObject (session_file (stamped now s)))))" "store_inv dirs (st(se_id s := Some Unreadable))" if "store_inv dirs st" for st
    using that assms good_stamped [OF assms] by (auto simp: store_inv_def)
  then show ?thesis using good_stamped [OF assms] by (cases io) (simp_all add: ensures_def on_store_def save_session_stamped)
qed

lemma ensures_require: "ensures (\<lambda>w. store_inv dirs (tw_store w)) (require_session i) (\<lambda>s. good_session dirs s \<and> se_id s = i)"
proof -
  have "good_session dirs s \<and> se_id s = i" if "store_inv dirs st" "get_session i st = Inr (Some s)" for st s
    using get_good [OF that] good_canonical by (metis canonical_simps(1))
  then show ?thesis by (auto simp: ensures_def require_session_def split: sum.splits option.splits)
qed

lemma moved_good:
  assumes "good_session dirs s" and "load_flow dirs (se_intent s) = Inr fl" and "se_status s = ''active''"
  shows "i \<in> set (step_ids fl) \<Longrightarrow> good_session dirs (s\<lparr>se_current := i\<rparr>)"
    and "i \<in> set (state_ids fl) \<Longrightarrow> good_session dirs (s\<lparr>se_current := [], se_diagnostic := i, se_status := ''diagnostic_ready'', se_runbooks := rs\<rparr>)"
    and "i \<in> set (state_ids fl) \<Longrightarrow>
      good_session dirs (s\<lparr>se_current := [], se_diagnostic := i, se_status := ''diagnostic_ready'', se_runbooks := rs, se_handoff := ''insufficient_user_input''\<rparr>)"
proof -
  have ids: "trimmed i" if "i \<in> set (step_ids fl) \<union> set (state_ids fl)" for i using loaded_sound [OF assms(2)] that by (auto simp: sound_flow_def)
  have blank: "trimmed []" "trimmed ''insufficient_user_input''" by (simp_all add: trimmed_def py_strip_def is_space_def Let_def)
  have "se_intent s \<noteq> []" "se_diagnostic s = []" using assms by (auto simp: good_session_def in_flow_def)
  then show "i \<in> set (step_ids fl) \<Longrightarrow> good_session dirs (s\<lparr>se_current := i\<rparr>)"
    "i \<in> set (state_ids fl) \<Longrightarrow> good_session dirs (s\<lparr>se_current := [], se_diagnostic := i, se_status := ''diagnostic_ready'', se_runbooks := rs\<rparr>)"
    "i \<in> set (state_ids fl) \<Longrightarrow>
      good_session dirs (s\<lparr>se_current := [], se_diagnostic := i, se_status := ''diagnostic_ready'', se_runbooks := rs, se_handoff := ''insufficient_user_input''\<rparr>)"
    using assms blank ids by (auto simp: good_session_def wf_session_def in_flow_def)
qed

lemma answered_good: "good_session dirs s \<Longrightarrow> good_session dirs (s\<lparr>se_answers := AList.update k v (se_answers s)\<rparr>)"
  by (simp add: good_session_def wf_session_def in_flow_def distinct_update_keys)

abbreviation keeps :: "flow_dir list \<Rightarrow> 'a tcall \<Rightarrow> ('a \<Rightarrow> bool) \<Rightarrow> bool" where
  "keeps dirs \<equiv> ensures (\<lambda>w. store_inv dirs (tw_store w))"

lemma keeps_complete:
  assumes "good_session dirs s" and "load_flow dirs (se_intent s) = Inr fl" and "se_status s = ''active''" and "ds_id ds \<in> set (state_ids fl)"
  shows "keeps dirs (complete_triage e fl current ds s) (\<lambda>_. True)"
  unfolding complete_triage_def Let_def
  apply (rule ensures_bind [OF ensures_audited])
  apply (rule ensures_bind [where Q = "\<lambda>_. True"])
   apply (rule ensures_pure, simp)
  apply (rule ensures_bind [OF ensures_audited])
  apply (rule ensures_bind [where Q = "\<lambda>_. True"])
   apply (auto intro!: ensures_audited ensures_pure)[1]
  apply (rule ensures_bind [OF ensures_save])
   apply (split if_split, intro conjI impI)
    apply (rule moved_good(3) [OF assms])
   apply (rule moved_good(2) [OF assms])
  apply (rule ensures_bind [OF ensures_audited])
  apply (rule ensures_pure, simp)
  done

lemma keeps_advance:
  assumes "good_session dirs s" and "load_flow dirs (se_intent s) = Inr fl" and "se_status s = ''active''"
  shows "keeps dirs (advance_triage e fl current target s) (\<lambda>_. True)"
  unfolding advance_triage_def
  apply (rule ensures_bind [where Q = "\<lambda>st. ts_id st \<in> set (step_ids fl)"])
   apply (rule ensures_pure, auto simp: step_ids_def dest: find_stepD)[1]
  apply (rule ensures_bind [OF ensures_save])
   apply (erule moved_good(1) [OF assms])
  apply (rule ensures_bind [OF ensures_audited])
  apply (rule ensures_pure, simp)
  done

lemma keeps_answer: "t_dirs e = dirs \<Longrightarrow> keeps dirs (triage_answer e i a) (\<lambda>_. True)"
  unfolding triage_answer_def
proof (rule ensures_bind [OF ensures_require])
  fix s
  assume e: "t_dirs e = dirs" and s: "good_session dirs s \<and> se_id s = i"
  let ?s1 = "\<lambda>st. s\<lparr>se_answers := AList.update (ts_id st) (PStr (normalize_answer st a)) (se_answers s)\<rparr>"
  have "keeps dirs (case find_diagnostic fl (target_of st (normalize_answer st a)) of
      Some ds \<Rightarrow> complete_triage e fl st ds (?s1 st) | None \<Rightarrow> advance_triage e fl st (target_of st (normalize_answer st a)) (?s1 st)) (\<lambda>_. True)"
    if "load_flow dirs (se_intent s) = Inr fl" "se_status s = ''active''" for fl st
    using answered_good [of dirs s "ts_id st" "PStr (normalize_answer st a)"] s that
    by (auto split: option.split intro!: keeps_complete keeps_advance dest: find_diagnosticD)
  then show "keeps dirs (if se_status s \<noteq> ''active'' then pure (Inl (ValueError (''triage_session_not_active:'' @ se_id s @ '':'' @ se_status s)))
     else if se_intent s = [] then pure (Inl (ValueError (''triage_intent_not_selected:'' @ se_id s)))
     else
       tbind (pure (load_flow (t_dirs e) (se_intent s))) (\<lambda>fl.
       tbind (pure (find_step fl (se_current s))) (\<lambda>current.
       let normalized = normalize_answer current a;
           s1 = s\<lparr>se_answers := AList.update (ts_id current) (PStr normalized) (se_answers s)\<rparr>;
           target = target_of current normalized
       in tbind (audited log_triage_step_answered ''triage_step_answered'' e s1
            [(''step_id'', PStr (ts_id current)), (''answer'', PStr normalized), (''previous_state'', PStr (ts_id current)), (''target_state'', PStr target)]) (\<lambda>_.
          case find_diagnostic fl target of
            Some ds \<Rightarrow> complete_triage e fl current ds s1
          | None \<Rightarrow> advance_triage e fl current target s1)))) (\<lambda>_. True)"
    unfolding e Let_def
    by (auto intro!: ensures_pure ensures_bind [OF ensures_audited] ensures_bind [where m = "pure r" and Q = "\<lambda>x. r = Inr x" for r])
qed

lemma keeps_start:
  assumes e: "t_dirs e = dirs" and names: "flow_names_ok dirs" and u: "trimmed (t_uuid e)" "t_uuid e \<noteq> []"
  shows "keeps dirs (triage_start e intent audience lang) (\<lambda>_. True)"
  unfolding triage_start_def e Let_def
proof (rule ensures_bind [where m = "pure r" and Q = "\<lambda>x. r = Inr x" for r])
  fix fl
  assume fl: "load_flow dirs intent = Inr fl"
  have g: "good_session dirs (new_session (t_uuid e) audience lang intent (fl_entry fl) now)" for now
    using loaded_name [OF names fl] loaded_sound [OF fl] u fl
    by (auto simp: new_session_def good_session_def wf_session_def in_flow_def sound_flow_def trimmed_def py_strip_def)
  have cand: "good_session dirs (s\<lparr>se_candidates := cs\<rparr>)" if "good_session dirs s" for s cs
    using that by (simp add: good_session_def wf_session_def in_flow_def)
  show "keeps dirs (tbind (on_store (create_session (t_save e 0) (t_uuid e) (t_clock e 0) (t_clock e 1) audience lang intent (fl_entry fl))) (\<lambda>s0.
     tbind (on_store (save_session (t_save e 1) (t_clock e 2) (s0\<lparr>se_candidates := [PDict [(''intent_id'', PStr intent), (''label'', flow_label fl lang intent),
        (''confidence'', PFloat (FFin 1 ''1.0'')), (''source'', PStr ''selected'')]]\<rparr>))) (\<lambda>s.
     tbind (audited log_triage_session_started ''triage_session_started'' e s
        [(''audience'', PStr audience), (''lang'', PStr lang), (''initial_state'', PStr (fl_entry fl))]) (\<lambda>_.
     tbind (pure (find_step fl (fl_entry fl))) (\<lambda>st.
     pure (Inr \<lparr>pg_session = s, pg_flow = fl, pg_step = Some st, pg_state = None, pg_completed = False\<rparr>)))))) (\<lambda>_. True)"
    unfolding create_session_def
    apply (rule ensures_bind [OF ensures_save [OF g]])
    apply (rule ensures_bind [OF ensures_save])
     apply (simp add: cand)
    apply (rule ensures_bind [OF ensures_audited])
    apply (auto intro!: ensures_pure ensures_bind [where m = "pure r" and Q = "\<lambda>x. r = Inr x" for r])
    done
qed (rule ensures_pure)

lemma keeps_resume: "keeps dirs (triage_resume e i) (\<lambda>_. True)"
  unfolding triage_resume_def
  by (rule ensures_bind [OF ensures_require]) (auto intro!: ensures_pure ensures_bind [where m = "pure r" and Q = "\<lambda>x. r = Inr x" for r])

section \<open>Runs\<close>

inductive triage_initial :: "tworld \<Rightarrow> bool" where
  "tw_store w = (\<lambda>_. None) \<Longrightarrow> triage_initial w"

inductive triage_step :: "flow_dir list \<Rightarrow> tworld \<Rightarrow> tworld \<Rightarrow> bool" for dirs where
  step_start: "t_dirs e = dirs \<Longrightarrow> trimmed (t_uuid e) \<Longrightarrow> t_uuid e \<noteq> [] \<Longrightarrow> triage_step dirs w (snd (triage_start e intent audience lang w))"
| step_answer: "t_dirs e = dirs \<Longrightarrow> triage_step dirs w (snd (triage_answer e i a w))"
| step_resume: "t_dirs e = dirs \<Longrightarrow> triage_step dirs w (snd (triage_resume e i w))"
| step_delete: "triage_step dirs w (w\<lparr>tw_store := snd (delete_session i (tw_store w))\<rparr>)"

lemma keepsD: "keeps dirs m Q \<Longrightarrow> store_inv dirs (tw_store w) \<Longrightarrow> store_inv dirs (tw_store (snd (m w)))"
  by (simp add: ensures_def)

interpretation triage_machine: invariant_system triage_initial "triage_step dirs" "\<lambda>w. flow_names_ok dirs \<longrightarrow> store_inv dirs (tw_store w)" for dirs
proof unfold_locales
  show "flow_names_ok dirs \<longrightarrow> store_inv dirs (tw_store w)" if "triage_initial w" for w
    using that by cases (simp add: store_inv_def)
  show "flow_names_ok dirs \<longrightarrow> store_inv dirs (tw_store w')" if "flow_names_ok dirs \<longrightarrow> store_inv dirs (tw_store w)" and "triage_step dirs w w'" for w w'
    using that(2,1)
  proof cases
    case (step_delete i)
    then show ?thesis using that(1) by (auto simp: delete_session_def store_inv_def)
  qed (auto intro: keepsD [OF keeps_start] keepsD [OF keeps_answer] keepsD [OF keeps_resume])
qed

section \<open>Calls that return\<close>

definition returns :: "(tstore \<Rightarrow> bool) \<Rightarrow> 'a tcall \<Rightarrow> ('a \<Rightarrow> tstore \<Rightarrow> bool) \<Rightarrow> bool" where
  "returns I m Q = (\<forall>w. I (tw_store w) \<longrightarrow> (\<exists>a w'. m w = (Inr a, w') \<and> Q a (tw_store w')))"

lemma returns_bind: "returns I m Q \<Longrightarrow> (\<And>a. returns (Q a) (f a) R) \<Longrightarrow> returns I (tbind m f) R"
  unfolding returns_def tbind_def by (metis (no_types, lifting) old.sum.simps(6) split_conv)

lemma returns_pure: "r = Inr a \<Longrightarrow> (\<And>st. I st \<Longrightarrow> Q a st) \<Longrightarrow> returns I (pure r) Q"
  by (simp add: returns_def pure_def)

lemma tbind_pure: "tbind (pure (Inr x)) f w = f x w"
  by (simp add: tbind_def pure_def)

lemma tbind_require: "get_session i (tw_store w) = Inr (Some s) \<Longrightarrow> tbind (require_session i) f w = f s w"
  by (simp add: tbind_def require_session_def)

lemma returns_known: "r = Inr a \<Longrightarrow> returns I (f a) R \<Longrightarrow> returns I (tbind (pure r) f) R"
  by (simp add: returns_def pure_def tbind_def)

text \<open>The entry points of the triage kinds, none of which is durable: a record that can be appended is accepted.\<close>

definition accepting :: "((string \<Rightarrow> string) \<Rightarrow> sys \<Rightarrow> string \<Rightarrow> string \<Rightarrow> pydict \<Rightarrow> alog \<Rightarrow> (pyexc + pydict) \<times> alog) \<Rightarrow> bool" where
  "accepting entry = (\<forall>sha y trace source payload l. append_ok y \<longrightarrow> (\<exists>r. fst (entry sha y trace source payload l) = Inr r))"

lemma log_audit_accepts: "append_ok y \<Longrightarrow> kind \<in> set VALID_KINDS \<Longrightarrow> kind \<notin> set DURABLE_KINDS \<Longrightarrow> \<exists>r. fst (log_audit sha y kind trace source payload l) = Inr r"
  by (simp add: log_audit_def log_reporting_durability_def settle_def Let_def)

lemma triage_entries_accept [simp]:
  "accepting log_triage_session_started" "accepting log_triage_step_answered" "accepting log_triage_state_changed" "accepting log_triage_runbook_proposed"
  "accepting log_triage_handoff" "accepting log_triage_completed"
  by (simp_all add: accepting_def log_triage_session_started_def log_triage_step_answered_def log_triage_state_changed_def log_triage_runbook_proposed_def
      log_triage_handoff_def log_triage_completed_def log_audit_accepts VALID_KINDS_def DURABLE_KINDS_def)

lemma audited_accepts: "accepting entry \<Longrightarrow> append_ok (t_sys e kind) \<Longrightarrow> \<exists>l. audited entry kind e s extra w = (Inr (), w\<lparr>tw_log := l\<rparr>)"
proof -
  assume "accepting entry" "append_ok (t_sys e kind)"
  then obtain r where "fst (entry (t_sha e) (t_sys e kind) (se_id s) ''triage_engine''
      ([(''session_id'', PStr (se_id s)), (''intent_id'', PStr (se_intent s))] @ extra) (tw_log w)) = Inr r"
    unfolding accepting_def by blast
  then show ?thesis by (auto simp: audited_def case_prod_beta Let_def)
qed

lemma tbind_audited: "accepting entry \<Longrightarrow> append_ok (t_sys e kind) \<Longrightarrow> \<exists>l. tbind (audited entry kind e s extra) f w = f () (w\<lparr>tw_log := l\<rparr>)"
  using audited_accepts [of entry e kind s extra w] by (auto simp: tbind_def)

lemma returns_audited: "accepting entry \<Longrightarrow> append_ok (t_sys e kind) \<Longrightarrow> returns I (audited entry kind e s extra) (\<lambda>_. I)"
  using audited_accepts [of entry e kind s extra] by (fastforce simp: returns_def)

lemma returns_save:
  "returns I (on_store (save_session SaveOk now s)) (\<lambda>s' st. s' = stamped now s \<and> st (se_id s) = Some (SavedObject (session_file (stamped now s))))"
  by (simp add: returns_def on_store_def save_session_stamped)

section \<open>Runbooks of a state\<close>

definition state_runbook_ids :: "string list" where
  "state_runbook_ids = concat (map snd STATE_RUNBOOKS) @ DEFAULT_RUNBOOKS"

lemma state_runbooks_listed: "set (state_runbooks i) \<subseteq> set state_runbook_ids"
  by (auto simp: state_runbooks_def state_runbook_ids_def split: option.splits dest!: map_of_SomeD)

lemma state_runbook_ids_plain: "list_all (\<lambda>r. py_strip r = r \<and> r \<noteq> []) state_runbook_ids"
  by (simp add: state_runbook_ids_def STATE_RUNBOOKS_def DEFAULT_RUNBOOKS_def py_strip_def is_space_def Let_def)

text \<open>The library has every runbook a diagnostic state names.\<close>

definition library_complete :: "runbook_file list \<Rightarrow> bool" where
  "library_complete fs = list_all (\<lambda>r. list_ex (\<lambda>f. case load_runbook f of Inl _ \<Rightarrow> False | Inr d \<Rightarrow> py_str (dget d ''id'') = r) fs) state_runbook_ids"

lemma get_runbook_total:
  assumes "py_strip r = r" and "r \<noteq> []" and "list_ex (\<lambda>f. case load_runbook f of Inl _ \<Rightarrow> False | Inr d \<Rightarrow> py_str (dget d ''id'') = r) fs"
  shows "\<exists>rb. get_runbook ct fs r lang = Inr rb"
proof -
  obtain f where "f \<in> set fs" "case load_runbook f of Inl _ \<Rightarrow> False | Inr d \<Rightarrow> py_str (dget d ''id'') = r" using assms(3) by (auto simp: list_ex_iff)
  then obtain d where f: "f \<in> set fs" "load_runbook f = Inr d" "py_str (dget d ''id'') = r" by (cases "load_runbook f") simp_all
  then have "d \<in> set (List.map_filter (\<lambda>f. right_of (load_runbook f)) fs)" by (force simp: List.map_filter_def)
  then have "find (\<lambda>d. py_str (dget d ''id'') = r) (List.map_filter (\<lambda>f. right_of (load_runbook f)) fs) \<noteq> None" using f(3) by (auto simp: find_None_iff)
  then show ?thesis using assms(1,2) by (auto simp: get_runbook_def)
qed

lemma library_has: "library_complete fs \<Longrightarrow> r \<in> set (state_runbooks i) \<Longrightarrow> \<exists>rb. get_runbook ct fs r lang = Inr rb"
proof -
  assume "library_complete fs" "r \<in> set (state_runbooks i)"
  then have "r \<in> set state_runbook_ids" using state_runbooks_listed by blast
  with \<open>library_complete fs\<close> state_runbook_ids_plain show ?thesis by (intro get_runbook_total) (simp_all add: library_complete_def list_all_iff)
qed

lemma review_total: "\<not> has_key ctx ''risk_score'' \<Longrightarrow> \<exists>rv. review_runbook ct now rb (PDict ctx) = Inr rv"
  by (simp add: review_runbook_def reviewers_def soc_review_def Let_def dget_def has_key_map_of py_or_def)

lemma enumerated: "ir \<in> set (enumerate n xs) \<Longrightarrow> snd ir \<in> set xs"
  by (cases ir) (auto simp: enumerate_eq_zip dest: set_zip_rightD)

lemma selection_returns:
  assumes "library_complete fs"
  shows "\<exists>items. select_runbooks_for_diagnostic_state ct fs now ds audience lang n [(''lang'', PStr l), (''audience'', PStr a), (''diagnostic_state'', PStr d)] = Inr items"
proof -
  let ?ctx = "dsetdefault ''diagnostic_state'' (PStr (py_strip ds)) (dsetdefault ''audience'' (PStr audience) (dsetdefault ''lang'' (PStr lang)
      [(''lang'', PStr l), (''audience'', PStr a), (''diagnostic_state'', PStr d)]))"
  have nk: "\<not> has_key ?ctx ''risk_score''" by (simp add: dsetdefault_def has_key_def)
  have "\<exists>x. select_item ct fs now audience lang ?ctx ir = Inr x" if ir: "ir \<in> set (enumerate 0 (state_runbooks (py_strip ds)))" for ir
  proof -
    have r: "snd ir \<in> set (state_runbooks (py_strip ds))" using ir by (rule enumerated)
    obtain rb where "get_runbook ct fs (snd ir) (PStr lang) = Inr rb" using library_has [OF assms r] by blast
    moreover obtain rv where "review_runbook_id ct fs now (snd ir) ?ctx = Inr rv"
      using library_has [OF assms r] review_total [OF nk] unfolding review_runbook_id_def by (metis ebind_simps(2))
    ultimately show ?thesis by (simp add: select_item_def)
  qed
  then obtain ys where "emap (select_item ct fs now audience lang ?ctx) (enumerate 0 (state_runbooks (py_strip ds))) = Inr ys" using emap_total by blast
  then show ?thesis by (simp add: select_runbooks_for_diagnostic_state_def Let_def)
qed

lemma selected_listed:
  assumes "select_runbooks_for_diagnostic_state ct fs now ds audience lang n ctx = Inr items"
  shows "length items \<le> 10 \<and> (\<forall>i \<in> set items. sl_runbook_id i \<in> set (state_runbooks (py_strip ds)) \<and> get_runbook ct fs (sl_runbook_id i) (PStr lang) = Inr (sl_runbook i))"
proof -
  obtain ctx' ys where ys: "emap (select_item ct fs now audience lang ctx') (enumerate 0 (state_runbooks (py_strip ds))) = Inr ys"
      "items = first_items n (sort_key (\<lambda>i. (- sl_score i, sl_runbook_id i)) ys)"
    using assms by (auto simp: select_runbooks_for_diagnostic_state_def Let_def ebind_Inr_iff)
  have "sl_runbook_id i \<in> set (state_runbooks (py_strip ds)) \<and> get_runbook ct fs (sl_runbook_id i) (PStr lang) = Inr (sl_runbook i)" if i: "i \<in> set items" for i
  proof -
    have "i \<in> set ys" using i ys(2) set_take_subset unfolding first_items_def by fastforce
    then obtain ir where ir: "ir \<in> set (enumerate 0 (state_runbooks (py_strip ds)))" "select_item ct fs now audience lang ctx' ir = Inr i"
      using emap_member [OF ys(1)] by blast
    moreover have "snd ir \<in> set (state_runbooks (py_strip ds))" using ir(1) by (rule enumerated)
    ultimately show ?thesis by (auto simp: select_item_def ebind_Inr_iff)
  qed
  then show ?thesis using ys(2) by (simp add: first_items_def)
qed

section \<open>Answers that return\<close>

definition smooth :: "tenv \<Rightarrow> bool" where
  "smooth e = ((\<forall>kind. append_ok (t_sys e kind)) \<and> t_save e 0 = SaveOk \<and> library_complete (t_files e))"

text \<open>Where an answered session of a flow stands.\<close>

definition moved_on :: "flow_dir list \<Rightarrow> string \<Rightarrow> tflow \<Rightarrow> progress \<Rightarrow> tstore \<Rightarrow> bool" where
  "moved_on dirs i fl p st = (se_id (pg_session p) = i \<and> pg_flow p = fl \<and> good_session dirs (pg_session p) \<and> st i = Some (SavedObject (session_file (pg_session p)))
     \<and> (case pg_state p of
          Some ds \<Rightarrow> pg_completed p \<and> ds \<in> set (fl_states fl) \<and> se_status (pg_session p) = ''diagnostic_ready'' \<and> se_diagnostic (pg_session p) = ds_id ds
        | None \<Rightarrow> \<not> pg_completed p \<and> (\<exists>nxt \<in> set (fl_steps fl). pg_step p = Some nxt \<and> se_status (pg_session p) = ''active'' \<and> se_current (pg_session p) = ts_id nxt)))"

lemma returns_complete:
  assumes e: "smooth e" and s: "good_session dirs s" "load_flow dirs (se_intent s) = Inr fl" "se_status s = ''active''" "ds_id ds \<in> set (state_ids fl)" "ds \<in> set (fl_states fl)"
  shows "returns (\<lambda>_. True) (complete_triage e fl current ds s) (moved_on dirs (se_id s) fl)"
proof -
  obtain items where items: "select_runbooks_for_diagnostic_state (t_catalog e) (t_files e) (t_clock e 0) (ds_id ds) (se_audience s) (se_lang s) 3
        [(''lang'', PStr (se_lang s)), (''audience'', PStr (se_audience s)), (''diagnostic_state'', PStr (ds_id ds))] = Inr items"
    using selection_returns e by (fastforce simp: smooth_def)
  have ok: "append_ok (t_sys e kind)" "t_save e 0 = SaveOk" for kind using e by (simp_all add: smooth_def)
  note good = good_stamped [OF moved_good(2) [OF s(1-4)]] good_stamped [OF moved_good(3) [OF s(1-4)]]
  show ?thesis
    unfolding complete_triage_def Let_def ok
    apply (rule returns_bind [OF returns_audited], simp, rule ok)
    apply (rule returns_known, simp add: items)
    apply (rule returns_bind [OF returns_audited], simp, rule ok)
    apply (rule returns_bind [where Q = "\<lambda>_ _. True"])
     apply (auto intro: returns_audited ok returns_pure)[1]
    apply (rule returns_bind [OF returns_save])
    apply (rule returns_bind [OF returns_audited], simp, rule ok)
    apply (rule returns_pure, simp)
    using good s(5) apply (auto simp: moved_on_def split: if_splits)
    done
qed

lemma returns_advance:
  assumes e: "smooth e" and s: "good_session dirs s" "load_flow dirs (se_intent s) = Inr fl" "se_status s = ''active''" and target: "target \<in> set (step_ids fl)"
  shows "returns (\<lambda>_. True) (advance_triage e fl current target s) (moved_on dirs (se_id s) fl)"
proof -
  obtain nxt where nxt: "find_step fl target = Inr nxt" using find_step_found [OF target] by blast
  have ok: "append_ok (t_sys e kind)" "t_save e 0 = SaveOk" for kind using e by (simp_all add: smooth_def)
  have n: "nxt \<in> set (fl_steps fl)" "ts_id nxt = target" using find_stepD [OF nxt] by simp_all
  have good: "good_session dirs (stamped (t_clock e 1) (s\<lparr>se_current := ts_id nxt\<rparr>))"
    using good_stamped [OF moved_good(1) [OF s target]] n(2) by simp
  show ?thesis
    unfolding advance_triage_def ok
    apply (rule returns_known [OF nxt])
    apply (rule returns_bind [OF returns_save])
    apply (rule returns_bind [OF returns_audited], simp, rule ok)
    apply (rule returns_pure, simp)
    using good n s(3) apply (auto simp: moved_on_def)
    done
qed

section \<open>Properties\<close>

text \<open>C28. A saved session is read back as it was written, with the keys of its dictionaries in order, whatever else the store holds.\<close>

theorem saved_session_is_read_back:
  assumes "wf_session s" and "save_session SaveOk now s st = (Inr s', st')"
  shows "get_session (se_id s) st' = Inr (Some (canonical s')) \<and> (\<forall>i. i \<noteq> se_id s \<longrightarrow> get_session i st' = get_session i st)"
proof -
  have s': "s' = stamped now s" "st' = st(se_id s := Some (SavedObject (session_file s')))" using assms(2) by (auto simp: save_session_stamped)
  have "wf_session s'" using assms(1) by (simp add: s'(1) wf_session_def)
  from session_roundtrip [OF this] show ?thesis by (simp add: s'(2) get_session_def session_file_dict)
qed

text \<open>C22. Every session that can be read stands in its flow: it is active at a step of the flow, or done at one of the flow's diagnostic states.\<close>

theorem readable_sessions_stand_in_their_flow:
  assumes "reach triage_initial (triage_step dirs) w" and "flow_names_ok dirs" and "get_session i (tw_store w) = Inr (Some s)"
  shows "\<exists>fl. load_flow dirs (se_intent s) = Inr fl \<and> se_id s = i
    \<and> (se_status s = ''active'' \<and> se_diagnostic s = [] \<and> se_current s \<in> set (step_ids fl)
       \<or> se_status s = ''diagnostic_ready'' \<and> se_current s = [] \<and> se_diagnostic s \<in> set (state_ids fl))"
proof -
  have "store_inv dirs (tw_store w)" using triage_machine.reach_inv [OF assms(1)] assms(2) by blast
  from get_good [OF this assms(3)] obtain s0 where "se_id s0 = i" "good_session dirs s0" "s = canonical s0" by blast
  then show ?thesis by (auto simp: good_session_def in_flow_def)
qed

text \<open>C17. No answer gets stuck: with the flow files unchanged, every answer to an active session moves it to a step or a diagnostic state of its flow, and the
  session read next is the one returned, as long as records and sessions can be written and the library has the runbooks the states name.\<close>

theorem active_session_is_never_stuck:
  assumes "reach triage_initial (triage_step dirs) w" and "flow_names_ok dirs" and "get_session i (tw_store w) = Inr (Some s)" and "se_status s = ''active''"
    and "t_dirs e = dirs" and "smooth e"
  shows "\<exists>p w'. triage_answer e i a w = (Inr p, w') \<and> get_session i (tw_store w') = Inr (Some (canonical (pg_session p)))
    \<and> (case pg_state p of
         Some ds \<Rightarrow> ds \<in> set (fl_states (pg_flow p)) \<and> se_status (pg_session p) = ''diagnostic_ready'' \<and> se_diagnostic (pg_session p) = ds_id ds
       | None \<Rightarrow> (\<exists>nxt \<in> set (fl_steps (pg_flow p)). se_status (pg_session p) = ''active'' \<and> se_current (pg_session p) = ts_id nxt))"
proof -
  have "store_inv dirs (tw_store w)" using triage_machine.reach_inv [OF assms(1)] assms(2) by blast
  from get_good [OF this assms(3)] obtain s0 where s0: "se_id s0 = i" "good_session dirs s0" "s = canonical s0" by blast
  then have g: "good_session dirs s" "se_id s = i" by (simp_all add: good_canonical)
  then obtain fl where fl: "load_flow dirs (se_intent s) = Inr fl" "se_intent s \<noteq> []" "se_current s \<in> set (step_ids fl)"
    using assms(4) by (auto simp: good_session_def in_flow_def)
  obtain st where st: "find_step fl (se_current s) = Inr st" using find_step_found [OF fl(3)] by blast
  define s1 where "s1 = s\<lparr>se_answers := AList.update (ts_id st) (PStr (normalize_answer st a)) (se_answers s)\<rparr>"
  have g1: "good_session dirs s1" "load_flow dirs (se_intent s1) = Inr fl" "se_status s1 = ''active''" "se_id s1 = i"
    using answered_good [OF g(1)] fl(1) assms(4) g(2) by (simp_all add: s1_def)
  define t where "t = target_of st (normalize_answer st a)"
  have t: "t \<in> set (step_ids fl) \<union> set (state_ids fl)"
    unfolding t_def by (rule target_in_flow [OF loaded_sound [OF fl(1)]]) (use find_stepD [OF st] in simp)
  have next_call: "returns (\<lambda>_. True) (case find_diagnostic fl t of Some ds \<Rightarrow> complete_triage e fl st ds s1 | None \<Rightarrow> advance_triage e fl st t s1) (moved_on dirs i fl)"
  proof (cases "find_diagnostic fl t")
    case None
    with t find_diagnostic_None have "t \<in> set (step_ids fl)" by blast
    from returns_advance [OF assms(6) g1(1-3) this] None g1(4) show ?thesis by simp
  next
    case (Some ds)
    then have "ds \<in> set (fl_states fl)" by (auto simp: find_diagnostic_def find_Some_iff)
    with returns_complete [OF assms(6) g1(1-3), of ds st] find_diagnosticD [OF Some] g1(4) Some show ?thesis by simp
  qed
  have "returns (\<lambda>_. True) (tbind (audited log_triage_step_answered ''triage_step_answered'' e s1
      [(''step_id'', PStr (ts_id st)), (''answer'', PStr (normalize_answer st a)), (''previous_state'', PStr (ts_id st)), (''target_state'', PStr t)])
      (\<lambda>_. case find_diagnostic fl t of Some ds \<Rightarrow> complete_triage e fl st ds s1 | None \<Rightarrow> advance_triage e fl st t s1)) (moved_on dirs i fl)"
    by (rule returns_bind [OF returns_audited next_call]) (use assms(6) in \<open>simp_all add: smooth_def\<close>)
  moreover have "triage_answer e i a w = tbind (audited log_triage_step_answered ''triage_step_answered'' e s1
      [(''step_id'', PStr (ts_id st)), (''answer'', PStr (normalize_answer st a)), (''previous_state'', PStr (ts_id st)), (''target_state'', PStr t)])
      (\<lambda>_. case find_diagnostic fl t of Some ds \<Rightarrow> complete_triage e fl st ds s1 | None \<Rightarrow> advance_triage e fl st t s1) w"
    unfolding s1_def t_def by (simp add: triage_answer_def tbind_require [OF assms(3)] tbind_pure assms(4,5) fl(1,2) st Let_def)
  ultimately obtain p w' where p: "triage_answer e i a w = (Inr p, w')" "moved_on dirs i fl p (tw_store w')" unfolding returns_def by fastforce
  then have "get_session i (tw_store w') = Inr (Some (canonical (pg_session p)))"
    using session_roundtrip [of "pg_session p"] by (simp add: moved_on_def get_session_def session_file_dict good_session_def)
  with p show ?thesis by (intro exI [of _ p] exI [of _ w']) (auto simp: moved_on_def split: option.splits)
qed

text \<open>No session moves before its answer is on the chain: an answer that changes the session files has an accepted record of the step, the answer and the target,
  written to the log as it stood before.\<close>

theorem session_moves_only_after_its_answer_is_audited:
  assumes "triage_answer e i a w = (r, w')" and "tw_store w' \<noteq> tw_store w"
  shows "\<exists>s fl (st :: tstep) rec l. get_session i (tw_store w) = Inr (Some s) \<and> se_status s = ''active'' \<and> load_flow (t_dirs e) (se_intent s) = Inr fl
    \<and> find_step fl (se_current s) = Inr st
    \<and> log_triage_step_answered (t_sha e) (t_sys e ''triage_step_answered'') (se_id s) ''triage_engine''
        [(''session_id'', PStr (se_id s)), (''intent_id'', PStr (se_intent s)), (''step_id'', PStr (ts_id st)), (''answer'', PStr (normalize_answer st a)),
         (''previous_state'', PStr (ts_id st)), (''target_state'', PStr (target_of st (normalize_answer st a)))] (tw_log w) = (Inr rec, l)"
proof -
  obtain s where s: "get_session i (tw_store w) = Inr (Some s)" using assms
    by (auto simp: triage_answer_def tbind_def require_session_def split: sum.splits option.splits)
  have act: "se_status s = ''active''" "se_intent s \<noteq> []" using assms s by (auto simp: triage_answer_def tbind_def require_session_def pure_def split: if_splits)
  obtain fl where fl: "load_flow (t_dirs e) (se_intent s) = Inr fl" using assms s act
    by (cases "load_flow (t_dirs e) (se_intent s)") (auto simp: triage_answer_def tbind_def require_session_def pure_def)
  obtain st where st: "find_step fl (se_current s) = Inr st" using assms s act fl
    by (cases "find_step fl (se_current s)") (auto simp: triage_answer_def tbind_def require_session_def pure_def)
  let ?log = "log_triage_step_answered (t_sha e) (t_sys e ''triage_step_answered'') (se_id s) ''triage_engine''
        [(''session_id'', PStr (se_id s)), (''intent_id'', PStr (se_intent s)), (''step_id'', PStr (ts_id st)), (''answer'', PStr (normalize_answer st a)),
         (''previous_state'', PStr (ts_id st)), (''target_state'', PStr (target_of st (normalize_answer st a)))] (tw_log w)"
  obtain x l where x: "?log = (x, l)" by fastforce
  have "\<exists>rec. x = Inr rec"
    using assms s act fl st x by (cases x) (auto simp: triage_answer_def tbind_def require_session_def pure_def audited_def Let_def)
  with x s act fl st show ?thesis by blast
qed

section \<open>Examples\<close>

lemma returns_start:
  assumes fl: "load_flow (t_dirs e) intent = Inr fl" and names: "flow_names_ok (t_dirs e)" and u: "trimmed (t_uuid e)" "t_uuid e \<noteq> []"
    and ok: "\<And>kind. append_ok (t_sys e kind)" "t_save e 0 = SaveOk" "t_save e 1 = SaveOk"
  shows "returns (\<lambda>_. True) (triage_start e intent audience lang)
    (\<lambda>p st. se_status (pg_session p) = ''active'' \<and> wf_session (pg_session p) \<and> st (t_uuid e) = Some (SavedObject (session_file (pg_session p))))"
proof -
  obtain st where st: "find_step fl (fl_entry fl) = Inr st" using loaded_sound [OF fl] find_step_found [of "fl_entry fl" fl] by (auto simp: sound_flow_def)
  have wf: "wf_session (new_session (t_uuid e) audience lang intent (fl_entry fl) now)" for now
    using loaded_name [OF names fl] loaded_sound [OF fl] u by (auto simp: new_session_def wf_session_def sound_flow_def trimmed_def py_strip_def)
  have new: "se_id (new_session (t_uuid e) audience lang intent (fl_entry fl) now) = t_uuid e" "se_status (new_session (t_uuid e) audience lang intent (fl_entry fl) now) = ''active''" for now
    by (simp_all add: new_session_def)
  have keep: "returns (\<lambda>_. True) (on_store (create_session SaveOk (t_uuid e) (t_clock e 0) (t_clock e 1) audience lang intent (fl_entry fl)))
      (\<lambda>s' _. s' = stamped (t_clock e 1) (new_session (t_uuid e) audience lang intent (fl_entry fl) (t_clock e 0)))"
    by (simp add: returns_def on_store_def create_session_def save_session_stamped)
  have save: "returns (\<lambda>_. s' = s0) (on_store (save_session SaveOk now (f s'))) (\<lambda>s'' st. s'' = stamped now (f s0) \<and> st (se_id (f s0)) = Some (SavedObject (session_file (stamped now (f s0)))))" for s' s0 f now
    by (simp add: returns_def on_store_def save_session_stamped)
  show ?thesis
    unfolding triage_start_def ok Let_def
    apply (rule returns_known [OF fl])
    apply (rule returns_bind [OF keep])
    apply (rule returns_bind [OF save])
    apply (rule returns_bind [OF returns_audited], simp, rule ok)
    apply (rule returns_known [OF st])
    apply (rule returns_pure, simp)
    using wf [of "t_clock e 0"] apply (auto simp: new wf_session_def)
    done
qed

definition ex_yflow :: yflow where
  "ex_yflow = \<lparr>yf_fields = [(''flow_id'', PStr ''dns''), (''intents'', PList [PStr ''dns'']), (''label_i18n'', PDict [(''en'', PStr ''DNS'')]), (''entry_state'', PStr ''q''),
       (''diagnostic_states'', PList [PDict [(''state_id'', PStr ''dns_likely'')]])],
     yf_steps = [Some \<lparr>ys_fields = [(''step_id'', PStr ''q''), (''question_i18n'', PDict [(''en'', PStr ''ok?'')]), (''answer_type'', PStr ''text''),
         (''fallback_transition'', PStr ''q'')], ys_transitions = [(PBool True, PStr ''dns_likely'')]\<rparr>]\<rparr>"

definition ex_flow :: tflow where
  "ex_flow = \<lparr>fl_id = ''dns'', fl_version = 1, fl_intents = [''dns''], fl_label = [(''en'', PStr ''DNS'')], fl_entry = ''q'',
     fl_steps = [\<lparr>ts_id = ''q'', ts_question = [(''en'', PStr ''ok?'')], ts_answer_type = ''text'', ts_choices = [], ts_transitions = [(''yes'', ''dns_likely'')], ts_fallback = ''q''\<rparr>],
     fl_states = [\<lparr>ds_id = ''dns_likely'', ds_severity = ''low'', ds_summary_key = [], ds_user_guidance_key = [], ds_operator_note_key = []\<rparr>]\<rparr>"

definition ex_dirs :: "flow_dir list" where "ex_dirs = [[(''dns'', Inr ex_yflow)]]"

lemma ex_flow_loads: "load_flow ex_dirs ''dns'' = Inr ex_flow"
  by (simp add: load_flow_def ex_dirs_def ex_yflow_def ex_flow_def flow_of_def step_of_def dstate_of_def Let_def stripped_def dget_or_def has_key_def dict_simps
      transitions_of_def normalize_transition_key_def py_strip_def is_space_def py_dict_def py_list_def iter_val_def py_or_def validate_flow_def step_ids_def state_ids_def
      bad_target_def)

definition ex_guidance :: "string \<Rightarrow> pydict" where
  "ex_guidance r = [(''id'', PStr r), (''title'', PStr ''t''), (''domain'', PStr ''user''), (''audience'', PStr ''operator''), (''risk'', PStr ''low''),
     (''effect'', PStr ''operator_guidance''), (''requires_approval'', PBool False)]"

lemma ex_guidance_loads: "py_strip r \<noteq> [] \<Longrightarrow> \<exists>d. load_runbook (f, Inr (PDict (ex_guidance r))) = Inr d \<and> py_str (dget d ''id'') = r"
  by (simp add: load_runbook_def load_yaml_def validate_runbook_doc_def ex_guidance_def dict_simps Let_def RUNBOOK_REQUIRED_def has_key_def py_or_def EMPTY_SCHEMA_def)
    (simp add: py_strip_def is_space_def)

definition ex_library :: "runbook_file list" where
  "ex_library = map (\<lambda>r. (r, Inr (PDict (ex_guidance r)))) state_runbook_ids"

lemma ex_library_complete: "library_complete ex_library"
  unfolding library_complete_def list_all_iff
proof
  fix r
  assume r: "r \<in> set state_runbook_ids"
  then have "py_strip r \<noteq> []" using state_runbook_ids_plain by (auto simp: list_all_iff)
  then obtain d where "load_runbook (r, Inr (PDict (ex_guidance r))) = Inr d" "py_str (dget d ''id'') = r" using ex_guidance_loads by blast
  then show "list_ex (\<lambda>f. case load_runbook f of Inl _ \<Rightarrow> False | Inr d \<Rightarrow> py_str (dget d ''id'') = r) ex_library"
    using r by (auto simp: list_ex_iff ex_library_def intro!: bexI [of _ r])
qed

definition ex_tenv :: tenv where
  "ex_tenv = \<lparr>t_sha = ex_hash, t_dirs = ex_dirs, t_catalog = ex_catalog, t_files = ex_library, t_uuid = ''u'', t_clock = (\<lambda>_. 1), t_save = (\<lambda>_. SaveOk), t_sys = (\<lambda>_. ex_sys)\<rparr>"

definition ex_tworld :: tworld where "ex_tworld = \<lparr>tw_store = (\<lambda>_. None), tw_log = ex_log0\<rparr>"

lemma ex_names_ok: "flow_names_ok ex_dirs"
  by (simp add: flow_names_ok_def ex_dirs_def trimmed_def py_strip_def is_space_def)

lemma ex_started:
  obtains p :: progress and w :: tworld where "triage_start ex_tenv ''dns'' [] [] ex_tworld = (Inr p, w)" and "get_session ''u'' (tw_store w) = Inr (Some (canonical (pg_session p)))"
    and "se_status (pg_session p) = ''active''" and "reach triage_initial (triage_step ex_dirs) w"
proof -
  have u: "trimmed ''u''" by (simp add: trimmed_def py_strip_def is_space_def)
  obtain p :: progress and w :: tworld where p: "triage_start ex_tenv ''dns'' [] [] ex_tworld = (Inr p, w)" "se_status (pg_session p) = ''active''" "wf_session (pg_session p)"
      "tw_store w ''u'' = Some (SavedObject (session_file (pg_session p)))"
    using returns_start [of ex_tenv "''dns''" ex_flow "[]" "[]"] ex_flow_loads ex_names_ok u unfolding returns_def by (fastforce simp: ex_tenv_def ex_sys_def)
  have get: "get_session ''u'' (tw_store w) = Inr (Some (canonical (pg_session p)))" using p(3,4) session_roundtrip by (simp add: get_session_def session_file_dict)
  have "triage_step ex_dirs ex_tworld (snd (triage_start ex_tenv ''dns'' [] [] ex_tworld))" by (rule step_start) (simp_all add: ex_tenv_def u)
  then have "triage_step ex_dirs ex_tworld w" using p(1) by simp
  moreover have "triage_initial ex_tworld" by (rule triage_initial.intros) (simp add: ex_tworld_def)
  ultimately have "reach triage_initial (triage_step ex_dirs) w" using reach_step [OF reach_init] by metis
  with get p that show thesis by blast
qed

theorem saved_session_is_read_back_witness:
  "\<exists>s' st'. save_session SaveOk 7 (new_session ''u'' [] [] ''dns'' ''q'' 0) (\<lambda>_. None) = (Inr s', st') \<and> get_session ''u'' st' = Inr (Some (canonical s'))"
proof -
  have wf: "wf_session (new_session ''u'' [] [] ''dns'' ''q'' 0)" by (simp add: new_session_def wf_session_def trimmed_def py_strip_def is_space_def)
  obtain s' st' where s: "save_session SaveOk 7 (new_session ''u'' [] [] ''dns'' ''q'' 0) (\<lambda>_. None) = (Inr s', st')" by (simp add: save_session_stamped)
  with saved_session_is_read_back [OF wf s] show ?thesis by (auto simp: new_session_def)
qed

theorem readable_sessions_stand_in_their_flow_witness:
  "\<exists>w s fl. reach triage_initial (triage_step ex_dirs) w \<and> get_session ''u'' (tw_store w) = Inr (Some s) \<and> load_flow ex_dirs (se_intent s) = Inr fl"
proof -
  obtain p :: progress and w :: tworld where p: "get_session ''u'' (tw_store w) = Inr (Some (canonical (pg_session p)))" "reach triage_initial (triage_step ex_dirs) w" by (rule ex_started)
  from readable_sessions_stand_in_their_flow [OF p(2) ex_names_ok p(1)] p show ?thesis by blast
qed

theorem active_session_is_never_stuck_witness:
  "\<exists>w p w'. reach triage_initial (triage_step ex_dirs) w \<and> triage_answer ex_tenv ''u'' (PBool True) w = (Inr p, w')"
proof -
  obtain p :: progress and w :: tworld where p: "get_session ''u'' (tw_store w) = Inr (Some (canonical (pg_session p)))" "se_status (pg_session p) = ''active''"
      "reach triage_initial (triage_step ex_dirs) w" by (rule ex_started)
  have "t_dirs ex_tenv = ex_dirs" "smooth ex_tenv" using ex_library_complete by (simp_all add: ex_tenv_def smooth_def ex_sys_def)
  from active_session_is_never_stuck [OF p(3) ex_names_ok p(1) _ this] p show ?thesis by fastforce
qed

theorem session_moves_only_after_its_answer_is_audited_witness:
  "\<exists>(w :: tworld) rec l (st :: tstep) s. get_session ''u'' (tw_store w) = Inr (Some s) \<and> log_triage_step_answered ex_hash ex_sys ''u'' ''triage_engine''
        [(''session_id'', PStr (se_id s)), (''intent_id'', PStr (se_intent s)), (''step_id'', PStr (ts_id st)), (''answer'', PStr (normalize_answer st (PStr ''x''))),
         (''previous_state'', PStr (ts_id st)), (''target_state'', PStr (target_of st (normalize_answer st (PStr ''x''))))] (tw_log w) = (Inr rec, l)"
proof -
  define s0 where "s0 = new_session ''u'' [] [] ''dns'' ''q'' 0"
  define w where "w = \<lparr>tw_store = [''u'' \<mapsto> SavedObject (session_file s0)], tw_log = ex_log0\<rparr>"
  define e where "e = ex_tenv\<lparr>t_save := \<lambda>_. WriteFails\<rparr>"
  define st where "st = hd (fl_steps ex_flow)"
  have "wf_session s0" by (simp add: s0_def new_session_def wf_session_def trimmed_def py_strip_def is_space_def)
  then have s: "get_session ''u'' (tw_store w) = Inr (Some (canonical s0))" by (simp add: w_def get_session_def session_file_dict session_roundtrip)
  have c: "se_status s0 = ''active''" "se_intent s0 = ''dns''" "se_current s0 = ''q''" "se_id s0 = ''u''"
    by (simp_all add: s0_def new_session_def)
  have d: "load_flow (t_dirs e) ''dns'' = Inr ex_flow" using ex_flow_loads by (simp add: e_def ex_tenv_def)
  have f: "find_step ex_flow ''q'' = Inr st" "ts_id st = ''q''" by (simp_all add: find_step_def ex_flow_def st_def)
  have ok: "append_ok (t_sys e kind)" for kind by (simp add: e_def ex_tenv_def ex_sys_def)
  have n: "normalize_answer st (PStr ''x'') = ''x''" "target_of st ''x'' = ''q''" "find_diagnostic ex_flow ''q'' = None"
    by (simp_all add: st_def ex_flow_def normalize_answer_def py_strip_def is_space_def py_lower_def char_lower_def is_upper_def Let_def target_of_def find_diagnostic_def)
  obtain r w' where w': "triage_answer e ''u'' (PStr ''x'') w = (r, w')" by fastforce
  have "tw_store w' ''u'' = Some Unreadable"
  proof -
    let ?s = "canonical s0\<lparr>se_answers := AList.update ''q'' (PStr ''x'') (se_answers (canonical s0))\<rparr>"
    let ?x = "[(''step_id'', PStr ''q''), (''answer'', PStr ''x''), (''previous_state'', PStr ''q''), (''target_state'', PStr ''q'')]"
    have "triage_answer e ''u'' (PStr ''x'') w = tbind (audited log_triage_step_answered ''triage_step_answered'' e ?s ?x) (\<lambda>_. advance_triage e ex_flow st ''q'' ?s) w"
      by (simp add: triage_answer_def tbind_require [OF s] tbind_pure c d f n Let_def)
    then obtain l where "triage_answer e ''u'' (PStr ''x'') w = advance_triage e ex_flow st ''q'' ?s (w\<lparr>tw_log := l\<rparr>)"
      using tbind_audited [OF triage_entries_accept(2), OF ok, where s = ?s and extra = ?x and f = "\<lambda>_. advance_triage e ex_flow st ''q'' ?s" and w = w] by auto
    then have "(r, w') = (Inl (OSError []), w\<lparr>tw_log := l, tw_store := (tw_store w)(''u'' := Some Unreadable)\<rparr>)"
      using w' by (simp add: advance_triage_def f pure_def tbind_def on_store_def save_session_stamped e_def c)
    then show ?thesis by simp
  qed
  moreover have "tw_store w ''u'' \<noteq> Some Unreadable" by (simp add: w_def)
  ultimately have moved: "tw_store w' \<noteq> tw_store w" by metis
  have env: "t_sha e = ex_hash" "t_sys e kind = ex_sys" for kind by (simp_all add: e_def ex_tenv_def)
  obtain s fl st' rec l where q: "get_session ''u'' (tw_store w) = Inr (Some s)" "log_triage_step_answered (t_sha e) (t_sys e ''triage_step_answered'') (se_id s) ''triage_engine''
        [(''session_id'', PStr (se_id s)), (''intent_id'', PStr (se_intent s)), (''step_id'', PStr (ts_id st')), (''answer'', PStr (normalize_answer st' (PStr ''x''))),
         (''previous_state'', PStr (ts_id st')), (''target_state'', PStr (target_of st' (normalize_answer st' (PStr ''x''))))] (tw_log w) = (Inr rec, l)"
    using session_moves_only_after_its_answer_is_audited [OF w' moved] by blast
  have "s = canonical s0" using q(1) s by simp
  then have "se_id s = ''u''" using c(4) by simp
  with q show ?thesis unfolding env by (intro exI [of _ w] exI [of _ rec] exI [of _ l] exI [of _ st'] exI [of _ s]) simp
qed

section \<open>Limits\<close>

text \<open>An answer is lowered before it is looked up and the keys of a transition map are not, so a key with a capital letter is never taken.\<close>

lemma char_lower_not_upper: "\<not> is_upper (char_lower c)"
proof (cases "is_upper c")
  case True
  then have "of_char (char_of (of_char c + 32 :: nat) :: char) = (of_char c + 32 :: nat)" by (simp add: is_upper_def Let_def)
  with True show ?thesis by (simp add: char_lower_def is_upper_def Let_def)
qed (simp add: char_lower_def)

lemma capital_choice_is_never_taken: "c \<in> set k \<Longrightarrow> is_upper c \<Longrightarrow> normalize_answer st a \<noteq> k"
proof
  assume c: "c \<in> set k" "is_upper c" and "normalize_answer st a = k"
  then have "k = ''yes'' \<or> k = ''no'' \<or> k = py_lower (py_strip (py_str a))" by (auto simp: normalize_answer_def Let_def split: if_splits)
  then show False using c char_lower_not_upper by (auto simp: py_lower_def is_upper_def Let_def)
qed

text \<open>The session file is written in place: a write that fails loses the session it held.\<close>

lemma failed_write_loses_the_session: "save_session WriteFails now s st = (r, st') \<Longrightarrow> get_session (se_id s) st' = Inl (ValueError [])"
  by (auto simp: save_session_def get_session_def)

end
