(* ===== verification/NocSupport.thy ===== *)
theory NocSupport
  imports Triage
begin

text \<open>
  Runbook support for network operations (\<open>select_noc_runbook_support\<close> of \<open>py/azazel_edge/triage/selector.py\<close>): the rule that the evaluation of the
  network points to, its runbook, and the wording around it. The assistant that may reword the note is the argument \<open>ai\<close>, present when both the governance
  and the invoker are; \<open>float(s)\<close> of a text is the function \<open>read_float\<close>.
\<close>

section \<open>Health\<close>

definition GOOD_LABELS :: "string list" where
  "GOOD_LABELS = [[], ''good'', ''ok'', ''healthy'', ''stable'', ''present'', ''known'', ''none'', ''normal'', ''on'']"

fun health_value :: "pydict \<Rightarrow> string list \<Rightarrow> string" where
  "health_value d [] = []"
| "health_value d (k # ks) = (let text = py_lower (py_strip (text_of (dget d k))) in if text \<noteq> [] then text else health_value d ks)"

definition is_problem_state :: "pydict \<Rightarrow> string list \<Rightarrow> bool" where
  "is_problem_state d ks = (let state = health_value d ks in state \<noteq> [] \<and> state \<notin> set GOOD_LABELS)"

definition or_zero :: "pydict \<Rightarrow> string \<Rightarrow> pyexc + int" where
  "or_zero d k = py_int (py_or (dget d k) (PInt 0))"

section \<open>Rules\<close>

text \<open>A rule: the diagnostic state it stands for, if any, and its runbook.\<close>

definition NOC_RULE_RUNBOOKS :: "(string \<times> string option \<times> string) list" where
  "NOC_RULE_RUNBOOKS =
     [(''resolution_failure'', Some ''dns_global_failure'', ''rb.noc.dns.failure.check''),
      (''service_assurance_failure'', Some ''service_multiple_failure'', ''rb.noc.service.status.check''),
      (''path_degradation'', Some ''uplink_issue'', ''rb.noc.default-route.check''),
      (''config_drift'', None, ''rb.noc.ui-snapshot.check''),
      (''client_inventory_anomaly'', None, ''rb.noc.ui-snapshot.check''),
      (''capacity_pressure'', None, ''rb.noc.ui-snapshot.check''),
      (''stable_observe'', None, ''rb.noc.ui-snapshot.check'')]"

text \<open>The parts of an evaluation the rules read, \<open>_dict_value(a or b)\<close>.\<close>

record noc_parts =
  np_incident :: pydict
  np_scope :: pydict
  np_drift :: pydict
  np_resolution :: pydict
  np_service :: pydict
  np_path :: pydict
  np_availability :: pydict
  np_capacity :: pydict
  np_clients :: pydict

definition parts_of :: "pydict \<Rightarrow> noc_parts" where
  "parts_of noc =
     (let summary = dict_of (dget noc ''summary'') in
      \<lparr>np_incident = dict_of (py_or (dget noc ''incident_summary'') (dget summary ''incident_summary'')),
       np_scope = dict_of (py_or (py_or (dget noc ''affected_scope'') (dget noc ''blast_radius'')) (dget summary ''blast_radius'')),
       np_drift = dict_of (py_or (dget noc ''config_drift_health'') (dget noc ''config_drift'')),
       np_resolution = dict_of (dget noc ''resolution_health''), np_service = dict_of (dget noc ''service_health''),
       np_path = dict_of (dget noc ''path_health''), np_availability = dict_of (dget noc ''availability''),
       np_capacity = dict_of (py_or (dget noc ''capacity_health'') (dget noc ''capacity'')),
       np_clients = dict_of (py_or (dget noc ''client_inventory_health'') (dget noc ''client_inventory''))\<rparr>)"

definition cause_rule :: "string \<Rightarrow> (string \<times> int) option" where
  "cause_rule cause =
     (if cause = ''config_drift'' then Some (''config_drift'', 80)
      else if cause = ''resolution_failure'' then Some (''resolution_failure'', 75)
      else if cause = ''service_assurance_failure'' then Some (''service_assurance_failure'', 70)
      else if cause \<in> {''path_degradation'', ''uplink_degradation''} then Some (''path_degradation'', 65)
      else if cause = ''client_inventory_anomaly'' then Some (''client_inventory_anomaly'', 60)
      else if cause = ''capacity_pressure'' then Some (''capacity_pressure'', 55)
      else None)"

definition primary_noc_rule :: "(string \<Rightarrow> pyfloat option) \<Rightarrow> pydict \<Rightarrow> pyexc + (string \<times> int)" where
  "primary_noc_rule read_float noc =
     (let p = parts_of noc in
      case cause_rule (py_lower (py_strip (text_of (dget (np_incident p) ''probable_cause'')))) of
        Some r \<Rightarrow> Inr r
      | None \<Rightarrow>
          if is_problem_state (np_drift p) [''label'', ''status'', ''baseline_state''] then Inr (''config_drift'', 80)
          else if is_problem_state (np_resolution p) [''label'', ''status'', ''state''] then Inr (''resolution_failure'', 75)
          else if is_problem_state (np_service p) [''label'', ''status'', ''state''] then Inr (''service_assurance_failure'', 70)
          else if is_problem_state (np_path p) [''label'', ''status''] \<or> is_problem_state (np_availability p) [''label'', ''status'']
            \<or> as_list (dget (np_scope p) ''affected_uplinks'') \<noteq> []
          then Inr (''path_degradation'', 65)
          else
            ebind (or_zero (np_clients p) ''unknown_client_count'') (\<lambda>unknown.
            ebind (or_zero (np_clients p) ''unauthorized_client_count'') (\<lambda>unauthorized.
            ebind (or_zero (np_clients p) ''inventory_mismatch_count'') (\<lambda>mismatched.
            ebind (or_zero (np_clients p) ''stale_session_count'') (\<lambda>stale.
            if is_problem_state (np_clients p) [''label'', ''status'', ''state''] \<or> 0 < unknown \<or> 0 < unauthorized \<or> 0 < mismatched \<or> 0 < stale
            then Inr (''client_inventory_anomaly'', 60)
            else
              ebind (py_float read_float (py_or (dget (np_capacity p) ''utilization_pct'') (PFloat (FFin 0 ''0.0'')))) (\<lambda>utilization.
              if is_problem_state (np_capacity p) [''label'', ''status'', ''state'']
                \<or> float_less (FFin 75 ''75.0'') utilization \<or> (case utilization of FFin q _ \<Rightarrow> q = 75 | _ \<Rightarrow> False)
              then Inr (''capacity_pressure'', 55)
              else Inr (''stable_observe'', 20)))))))"

definition candidate_from_noc_rule :: "catalog \<Rightarrow> runbook_file list \<Rightarrow> int \<Rightarrow> string \<Rightarrow> string \<Rightarrow> string \<Rightarrow> pydict \<Rightarrow> pyexc + selected" where
  "candidate_from_noc_rule ct fs now rule_id audience lang ctx =
     (let rule = (case map_of NOC_RULE_RUNBOOKS rule_id of None \<Rightarrow> (None, ''rb.noc.ui-snapshot.check'') | Some r \<Rightarrow> r);
          hydrate = select_item ct fs now audience lang ctx (0, snd rule)
      in case fst rule of
           None \<Rightarrow> hydrate
         | Some state \<Rightarrow>
             ebind (select_runbooks_for_diagnostic_state ct fs now state audience lang 1 ctx) (\<lambda>items.
               case items of [] \<Rightarrow> hydrate | i # _ \<Rightarrow> Inr i))"

section \<open>Wording\<close>

record reasoning =
  rs_why :: string
  rs_checks :: "string list"
  rs_hint :: string

text \<open>A line that names the first three of a list, when there are any.\<close>

definition naming :: "string \<Rightarrow> pyval \<Rightarrow> string list" where
  "naming label v = (let xs = as_list v in if xs = [] then [] else [label @ '': '' @ join '', '' (take 3 xs) @ ''.''])"

definition noc_evidence :: "noc_parts \<Rightarrow> string list" where
  "noc_evidence p =
     (let found = concat (map (\<lambda>d. as_list (dget d ''evidence_ids'')) [np_drift p, np_resolution p, np_service p, np_capacity p, np_clients p])
      in take 8 (if found = [] then take 4 (as_list (dget (np_incident p) ''supporting_symptoms'')) else found))"

definition noc_reasoning :: "string \<Rightarrow> noc_parts \<Rightarrow> pyexc + reasoning" where
  "noc_reasoning rule_id p =
     (if rule_id = ''config_drift''
      then Inr \<lparr>rs_why = ''Health-impacting config drift was detected and should be compared against the last known good baseline.'',
        rs_checks = [''Review changed health-relevant fields against the current baseline.'',
            ''Confirm whether the change was approved before making any corrective action.'',
            ''Validate uplink, probe target, and policy marker consistency in the current snapshot.'']
          @ naming ''Changed fields'' (dget (np_drift p) ''changed_fields''),
        rs_hint = ''Escalate if the drift is unapproved or if restoring the baseline does not recover service health.''\<rparr>
      else if rule_id = ''resolution_failure''
      then Inr \<lparr>rs_why = ''Resolver failures are the clearest current symptom and need DNS-specific read-only checks first.'',
        rs_checks = [''Check gateway, resolver reachability, and DNS target health before changing control mode.'',
            ''Confirm whether failures are local to the edge or shared across the affected segment.'']
          @ naming ''Failed targets'' (dget (np_resolution p) ''failed_targets''),
        rs_hint = ''Escalate if resolver failures persist after gateway and default-route verification.''\<rparr>
      else if rule_id = ''service_assurance_failure''
      then Inr \<lparr>rs_why = ''Service assurance degraded before stronger containment criteria were met.'',
        rs_checks = [''Run read-only service status checks and confirm which targets are degraded or down.'',
            ''Compare service failures with the currently affected uplinks and segments.'']
          @ naming ''Service targets'' (dget (np_service p) ''degraded_targets''),
        rs_hint = ''Escalate if multiple service targets remain degraded after read-only verification.''\<rparr>
      else if rule_id = ''path_degradation''
      then Inr \<lparr>rs_why = ''Path degradation is affecting current reachability and should be verified at the uplink and default-route layer first.'',
        rs_checks = [''Confirm uplink state, default route, and gateway reachability with read-only checks.'',
            ''Compare the impacted scope before assuming a wider upstream outage.'']
          @ naming ''Affected uplinks'' (dget (np_scope p) ''affected_uplinks''),
        rs_hint = ''Escalate if uplink reachability remains degraded after route verification.''\<rparr>
      else if rule_id = ''client_inventory_anomaly''
      then
        ebind (or_zero (np_clients p) ''unknown_client_count'') (\<lambda>unknown.
        ebind (or_zero (np_clients p) ''unauthorized_client_count'') (\<lambda>unauthorized.
        ebind (or_zero (np_clients p) ''inventory_mismatch_count'') (\<lambda>mismatch.
        Inr \<lparr>rs_why = ''Client inventory drift or unknown sessions were detected and need operator review before stronger action.'',
          rs_checks = [''Review unknown, unauthorized, and mismatched sessions in the latest inventory snapshot.'',
            ''Confirm whether new sessions align with the expected segment and SoT policy.'',
            ''Inventory counts: unknown='' @ int_str unknown @ '', unauthorized='' @ int_str unauthorized @ '', mismatch='' @ int_str mismatch @ ''.''],
          rs_hint = ''Escalate if unauthorized or spreading unknown sessions remain after inventory confirmation.''\<rparr>)))
      else if rule_id = ''capacity_pressure''
      then Inr \<lparr>rs_why = ''Current utilization or traffic concentration suggests congestion pressure rather than an immediate outage.'',
        rs_checks = [''Confirm utilization trend and top talker concentration across the bounded observation window.'',
            ''Check whether impacted clients overlap with the current blast-radius estimate before throttling.'']
          @ naming ''Capacity signals'' (dget (np_capacity p) ''signals''),
        rs_hint = ''Escalate if elevated utilization persists across windows or impacts critical clients.''\<rparr>
      else Inr \<lparr>rs_why = ''No dominant NOC failure was confirmed, so the snapshot check remains the safest first step.'',
        rs_checks = [''Capture the latest UI and service snapshot before making any control change.'',
            ''Keep monitoring until a stronger NOC symptom or operator request appears.''],
        rs_hint = ''Escalate if the state leaves stable or if new symptoms appear during observation.''\<rparr>)"

section \<open>Support\<close>

type_synonym assistant = "pydict \<Rightarrow> pydict \<Rightarrow> pyexc + pydict"

definition noc_support :: "string \<times> int \<Rightarrow> selected \<Rightarrow> reasoning \<Rightarrow> string list \<Rightarrow> pydict" where
  "noc_support rule c r evidence =
     [(''ok'', PBool True), (''rule_id'', PStr (fst rule)), (''risk_score'', PInt (snd rule)), (''runbook_candidate_id'', PStr (sl_runbook_id c)),
      (''why_this_runbook'', PStr (rs_why r)), (''operator_checks'', PList (map PStr (take 4 (string_list (map PStr (rs_checks r)))))),
      (''escalation_hint'', PStr (rs_hint r)), (''candidate_scope'', PStr (fst rule)), (''reviewed_runbook'', PDict (selected_dict c)),
      (''operator_note'', PStr (rs_why r)), (''evidence_ids'', PList (map PStr (take 8 (string_list (map PStr evidence))))),
      (''ai_used'', PBool False), (''ai_summary'', PStr []), (''ai_advice'', PStr [])]"

definition ai_request :: "string \<Rightarrow> string \<times> int \<Rightarrow> pydict \<Rightarrow> pydict \<Rightarrow> pydict" where
  "ai_request source rule ctx support =
     [(''trace_id'', PStr (text_of (dget ctx ''trace_id''))), (''source'', PStr source), (''subject'', PStr ''noc_runbook_support''), (''intent'', PStr ''summary''),
      (''risk_score'', PInt (snd rule)), (''category'', PStr (fst rule)),
      (''summary'', PStr (py_strip (text_of (dget support ''why_this_runbook'') @ '' '' @ join '' '' (map py_str (take 2 (list_val (dget support ''operator_checks''))))))),
      (''evidence_ids'', dget support ''evidence_ids''), (''candidate_scope'', dget support ''runbook_candidate_id'')]"

definition ai_worded :: "pydict \<Rightarrow> pydict \<Rightarrow> pydict" where
  "ai_worded support result =
     (let summary = text_of (dget result ''summary''); advice = text_of (dget result ''advice'');
          s = dupdate support [(''ai_summary'', PStr summary), (''ai_advice'', PStr advice), (''ai_used'', PBool (summary \<noteq> [] \<or> advice \<noteq> []))]
      in if summary \<noteq> [] then AList.update ''operator_note'' (PStr summary) s else s)"

definition select_noc_runbook_support ::
    "catalog \<Rightarrow> runbook_file list \<Rightarrow> int \<Rightarrow> (string \<Rightarrow> pyfloat option) \<Rightarrow> assistant option \<Rightarrow> pyval \<Rightarrow> string \<Rightarrow> string \<Rightarrow> pyval \<Rightarrow> string \<Rightarrow> pyexc + pydict" where
  "select_noc_runbook_support ct fs now read_float ai noc audience lang context source =
     (let ctx = dsetdefault ''source'' (PStr source) (dsetdefault ''audience'' (PStr audience) (dsetdefault ''lang'' (PStr lang) (dict_of context)));
          p = parts_of (dict_of noc)
      in ebind (primary_noc_rule read_float (dict_of noc)) (\<lambda>rule.
         ebind (candidate_from_noc_rule ct fs now (fst rule) audience lang ctx) (\<lambda>c.
         ebind (noc_reasoning (fst rule) p) (\<lambda>r.
           let support = noc_support rule c r (noc_evidence p) in
           case ai of
             None \<Rightarrow> Inr support
           | Some invoke \<Rightarrow>
               ebind (invoke [(''trace_id'', PStr (text_of (dget ctx ''trace_id''))), (''source'', PStr source), (''intent'', PStr ''summary'')]
                 (ai_request source rule ctx support)) (\<lambda>result. Inr (ai_worded support result))))))"

end
