(* ===== verification/NocSupportProperties.thy ===== *)
theory NocSupportProperties
  imports NocSupport TriageProperties
begin

text \<open>Runbook support for network operations: the assistant words the note and nothing else.\<close>

section \<open>Wording\<close>

lemma ai_worded_keeps: "k \<notin> {''operator_note'', ''ai_used'', ''ai_summary'', ''ai_advice''} \<Longrightarrow> dget (ai_worded s r) k = dget s k"
  by (simp add: ai_worded_def Let_def dget_update dupdate_simps)

lemma ai_worded_note: "\<not> truthy (dget (ai_worded s r) ''ai_used'') \<Longrightarrow> dget (ai_worded s r) ''operator_note'' = dget s ''operator_note''"
  by (auto simp: ai_worded_def Let_def dget_update dupdate_simps split: if_splits)

section \<open>Property\<close>

text \<open>The assistant never changes what is proposed: with one, the rule, its score, the runbook with its review, the checks, the hint and the evidence are those of
  the same call without one, and the note is too when the assistant has nothing to say.\<close>

theorem assistant_never_changes_the_proposed_runbook:
  assumes "select_noc_runbook_support ct fs now rf (Some invoke) noc audience lang context source = Inr out"
  shows "\<exists>base. select_noc_runbook_support ct fs now rf None noc audience lang context source = Inr base
    \<and> (\<forall>k. k \<notin> {''operator_note'', ''ai_used'', ''ai_summary'', ''ai_advice''} \<longrightarrow> dget out k = dget base k)
    \<and> (\<not> truthy (dget out ''ai_used'') \<longrightarrow> dget out ''operator_note'' = dget base ''operator_note'')"
proof -
  obtain base result where "select_noc_runbook_support ct fs now rf None noc audience lang context source = Inr base" "out = ai_worded base result"
    using assms by (auto simp: select_noc_runbook_support_def Let_def ebind_Inr_iff)
  then show ?thesis using ai_worded_keeps ai_worded_note by blast
qed

section \<open>Example\<close>

definition ex_assistant :: assistant where
  "ex_assistant ctx request = Inr [(''summary'', PStr ''All quiet'')]"

lemma ex_check_selected:
  assumes "\<not> has_key ctx ''risk_score''"
  shows "\<exists>i. select_item ct ex_library now a l ctx (0, ''rb.noc.ui-snapshot.check'') = Inr i"
proof -
  have r: "''rb.noc.ui-snapshot.check'' \<in> set (state_runbooks [])" by (simp add: state_runbooks_def STATE_RUNBOOKS_def DEFAULT_RUNBOOKS_def)
  obtain rb where "get_runbook ct ex_library ''rb.noc.ui-snapshot.check'' (PStr l) = Inr rb" using library_has [OF ex_library_complete r] by blast
  moreover obtain rv where "review_runbook_id ct ex_library now ''rb.noc.ui-snapshot.check'' ctx = Inr rv"
    using library_has [OF ex_library_complete r] review_total [OF assms] unfolding review_runbook_id_def by (metis ebind_simps(2))
  ultimately show ?thesis by (simp add: select_item_def)
qed

lemma support_returns:
  assumes "primary_noc_rule rf noc = Inr rule"
    and "candidate_from_noc_rule ct fs now (fst rule) audience lang
      (dsetdefault ''source'' (PStr source) (dsetdefault ''audience'' (PStr audience) (dsetdefault ''lang'' (PStr lang) ctx))) = Inr c"
    and "noc_reasoning (fst rule) (parts_of noc) = Inr r" and "\<And>a b. \<exists>x. invoke a b = Inr x"
  shows "\<exists>out. select_noc_runbook_support ct fs now rf (Some invoke) (PDict noc) audience lang (PDict ctx) source = Inr out"
proof -
  have "\<exists>out. ebind (invoke a b) (\<lambda>x. Inr (f x)) = Inr out" for a b and f :: "pydict \<Rightarrow> pydict" using assms(4) [of a b] by auto
  then show ?thesis unfolding select_noc_runbook_support_def Let_def by (simp only: dict_of.simps assms(1-3) ebind_simps option.simps)
qed

theorem assistant_never_changes_the_proposed_runbook_witness:
  "\<exists>out base. select_noc_runbook_support ex_catalog ex_library 0 (\<lambda>_. None) (Some ex_assistant) (PDict []) ''professional'' ''ja'' (PDict []) ''dashboard'' = Inr out
    \<and> select_noc_runbook_support ex_catalog ex_library 0 (\<lambda>_. None) None (PDict []) ''professional'' ''ja'' (PDict []) ''dashboard'' = Inr base
    \<and> dget out ''runbook_candidate_id'' = dget base ''runbook_candidate_id''"
proof -
  let ?ctx = "dsetdefault ''source'' (PStr ''dashboard'') (dsetdefault ''audience'' (PStr ''professional'') (dsetdefault ''lang'' (PStr ''ja'') []))"
  have rule: "primary_noc_rule (\<lambda>_. None) [] = Inr (''stable_observe'', 20)"
    by (simp add: primary_noc_rule_def parts_of_def Let_def dget_def py_or_def text_of_def py_strip_def py_lower_def cause_rule_def is_problem_state_def as_list_def
        string_list_def or_zero_def py_float_def)
  obtain c where "select_item ex_catalog ex_library 0 ''professional'' ''ja'' ?ctx (0, ''rb.noc.ui-snapshot.check'') = Inr c"
    using ex_check_selected [of ?ctx ex_catalog 0 "''professional''" "''ja''"] by (auto simp: dsetdefault_def has_key_def)
  then have "candidate_from_noc_rule ex_catalog ex_library 0 ''stable_observe'' ''professional'' ''ja'' ?ctx = Inr c"
    by (simp add: candidate_from_noc_rule_def NOC_RULE_RUNBOOKS_def)
  moreover obtain r where "noc_reasoning ''stable_observe'' (parts_of []) = Inr r" by (simp add: noc_reasoning_def)
  ultimately obtain out where out: "select_noc_runbook_support ex_catalog ex_library 0 (\<lambda>_. None) (Some ex_assistant) (PDict []) ''professional'' ''ja'' (PDict []) ''dashboard'' = Inr out"
    using support_returns [of "\<lambda>_. None" "[]" "(''stable_observe'', 20)" ex_catalog ex_library 0 "''professional''" "''ja''" "''dashboard''" "[]" c r ex_assistant] rule
    by (auto simp: ex_assistant_def)
  obtain base where base: "select_noc_runbook_support ex_catalog ex_library 0 (\<lambda>_. None) None (PDict []) ''professional'' ''ja'' (PDict []) ''dashboard'' = Inr base"
      "\<forall>k. k \<notin> {''operator_note'', ''ai_used'', ''ai_summary'', ''ai_advice''} \<longrightarrow> dget out k = dget base k"
    using assistant_never_changes_the_proposed_runbook [OF out] by blast
  have "dget out ''runbook_candidate_id'' = dget base ''runbook_candidate_id''" by (rule base(2) [rule_format]) simp
  with out base(1) show ?thesis by blast
qed

end
