(* ===== verification/AiGovernance.thy ===== *)
theory AiGovernance
  imports AuditChain
begin

text \<open>
  The gate before every AI call (\<open>py/azazel_edge/ai_governance.py\<close>): who may ask, what the model is shown, what is accepted of its answer, and the audit
  record of each stage. The model is the function \<open>invoker\<close>; a call returns the inputs it gave the model beside its result. \<open>y n\<close> is what the system answers
  during the call's \<open>n\<close>-th audit record.
\<close>

definition ALLOWED_INTENTS :: "string list" where
  "ALLOWED_INTENTS = [''advice'', ''summary'', ''candidate'']"

definition SANITIZED_KEYS :: "string list" where
  "SANITIZED_KEYS = [''trace_id'', ''source'', ''intent'', ''subject'', ''risk_score'', ''category'', ''ports'', ''ips'', ''evidence_ids'', ''summary'', ''candidate_scope'']"

definition FORBIDDEN_KEYS :: "string list" where
  "FORBIDDEN_KEYS = [''raw'', ''raw_log'', ''full_log'', ''message'', ''line'', ''payload'', ''event'']"

definition KNOWLEDGE_STATUS_VALUES :: "string list" where
  "KNOWLEDGE_STATUS_VALUES = [''disabled'', ''missing_token'', ''invalid_configuration'', ''unavailable'', ''timeout'', ''oversized'', ''redirect_rejected'',
     ''auth_rejected'', ''scope_rejected'', ''malformed'', ''received'', ''superseded'', ''projected'', ''rejected'']"

definition empty_output :: pydict where
  "empty_output = [(''advice'', PStr []), (''summary'', PStr []), (''candidate'', PStr []), (''runbook_candidates'', PList []), (''attack_candidates'', PList [])]"

definition should_invoke :: "pydict \<Rightarrow> bool \<times> string" where
  "should_invoke ctx =
     (let intent = text_of (dget ctx ''intent''); source = text_of (dget ctx ''source'');
          unclear = (text_of (dget ctx ''risk_band'') \<in> {''ambiguous'', ''uncertain''})
      in if intent \<notin> set ALLOWED_INTENTS then (False, ''intent_not_allowed'')
         else if intent = ''advice''
         then (if source = ''suricata_eve'' \<and> unclear then (True, ''ambiguous_suricata'')
               else if source = ''azazel_core'' \<and> unclear \<and> dget ctx ''candidate_scope'' = PStr ''mio_read_only_advisory''
               then (True, ''ambiguous_azazel_core_mio_advisory'')
               else (False, ''advice_requires_ambiguous_suricata''))
         else if intent = ''candidate'' \<and> source = ''suricata_eve'' \<and> unclear then (True, ''ambiguous_suricata_candidate'')
         else if intent \<in> {''summary'', ''candidate''} \<and> source \<in> {''operator'', ''ops_comm'', ''mattermost'', ''dashboard''} then (True, ''operator_requested'')
         else (False, ''source_not_allowed''))"

definition sanitize_payload :: "pydict \<Rightarrow> pydict" where
  "sanitize_payload payload = filter (\<lambda>kv. fst kv \<notin> set FORBIDDEN_KEYS) (filter (\<lambda>kv. fst kv \<in> set SANITIZED_KEYS) payload)"

definition ai_trace :: "pydict \<Rightarrow> pydict \<Rightarrow> string" where
  "ai_trace ctx raw = text_of (py_or (dget ctx ''trace_id'') (dget raw ''trace_id''))"

definition ai_source :: "pydict \<Rightarrow> pydict \<Rightarrow> string" where
  "ai_source ctx raw = py_str (py_or (py_or (dget ctx ''source'') (dget raw ''source'')) (PStr ''ai_governance''))"

definition log_stage ::
    "(string \<Rightarrow> string) \<Rightarrow> sys \<Rightarrow> string \<Rightarrow> string \<Rightarrow> string \<Rightarrow> string \<Rightarrow> pydict \<Rightarrow> alog \<Rightarrow> (pyexc + pydict) \<times> alog" where
  "log_stage sha y trace source stage decision payload l =
     log_ai_assist sha y trace source [(''stage'', PStr stage), (''decision'', PStr decision), (''payload'', PDict payload)] l"

definition authorize :: "(string \<Rightarrow> string) \<Rightarrow> (nat \<Rightarrow> sys) \<Rightarrow> pydict \<Rightarrow> pydict \<Rightarrow> alog \<Rightarrow> (pyexc + bool \<times> string \<times> pydict) \<times> alog" where
  "authorize sha y ctx raw l =
     (let trace = ai_trace ctx raw; source = ai_source ctx raw; (allowed, reason) = should_invoke ctx; sanitized = sanitize_payload raw in
      case log_stage sha (y 0) trace source ''input'' reason sanitized l of
        (Inl x, l1) \<Rightarrow> (Inl x, l1)
      | (Inr _, l1) \<Rightarrow>
          if allowed then (Inr (True, reason, sanitized), l1)
          else (case log_stage sha (y 1) trace source ''decision'' ''blocked'' empty_output l1 of
              (Inl x, l2) \<Rightarrow> (Inl x, l2)
            | (Inr _, l2) \<Rightarrow> (Inr (False, reason, sanitized), l2)))"

section \<open>The answer\<close>

text \<open>\<open>AIGovernanceError\<close> carries its message; it is caught by \<open>invoke\<close>.\<close>

definition answer_text :: "pydict \<Rightarrow> string \<Rightarrow> string + string" where
  "answer_text out k =
     (case dget_or out k (PStr []) of
        PNone \<Rightarrow> Inr []
      | PStr s \<Rightarrow> Inr (take_chars 240 s)
      | _ \<Rightarrow> Inl (''output_'' @ k @ ''_must_be_string''))"

definition item_text :: "string \<Rightarrow> pyval \<Rightarrow> string + string" where
  "item_text k v = (case v of PStr s \<Rightarrow> Inr (take_chars 96 s) | _ \<Rightarrow> Inl (''output_'' @ k @ ''_items_must_be_string''))"

definition answer_list :: "pydict \<Rightarrow> string \<Rightarrow> string + string list" where
  "answer_list out k =
     (case dget_or out k (PList []) of
        PNone \<Rightarrow> Inr []
      | PList xs \<Rightarrow> emap (item_text k) (take 5 xs)
      | _ \<Rightarrow> Inl (''output_'' @ k @ ''_must_be_list''))"

definition validate_output :: "pyval \<Rightarrow> string + pydict" where
  "validate_output output =
     (case output of
        PDict out \<Rightarrow>
          (let extra = filter (\<lambda>k. k \<notin> set (map fst empty_output)) (map fst out) in
           if extra \<noteq> [] then Inl (''output_extra_keys:'' @ join '','' (sort extra))
           else
             ebind (answer_text out ''advice'') (\<lambda>advice.
             ebind (answer_text out ''summary'') (\<lambda>summary.
             ebind (answer_text out ''candidate'') (\<lambda>candidate.
             ebind (answer_list out ''runbook_candidates'') (\<lambda>runbooks.
             ebind (answer_list out ''attack_candidates'') (\<lambda>attacks.
               Inr [(''advice'', PStr advice), (''summary'', PStr summary), (''candidate'', PStr candidate),
                 (''runbook_candidates'', PList (map PStr runbooks)), (''attack_candidates'', PList (map PStr attacks))]))))))
      | _ \<Rightarrow> Inl ''output_not_dict'')"

text \<open>\<open>sanitized.get('summary', '')[:240]\<close>: a list can be sliced too, nothing else can.\<close>

definition fallback_summary :: "pydict \<Rightarrow> pyexc + pyval" where
  "fallback_summary sanitized =
     (case dget_or sanitized ''summary'' (PStr []) of
        PStr s \<Rightarrow> Inr (PStr (take_chars 240 s))
      | PList xs \<Rightarrow> Inr (PList (take 240 xs))
      | _ \<Rightarrow> Inl (TypeError []))"

definition fallback_output :: "pyval \<Rightarrow> pydict" where
  "fallback_output summary = AList.update ''summary'' summary empty_output"

section \<open>Calls\<close>

definition ai_invoke ::
    "(string \<Rightarrow> string) \<Rightarrow> (nat \<Rightarrow> sys) \<Rightarrow> (pydict \<Rightarrow> pyexc + pyval) \<Rightarrow> pydict \<Rightarrow> pydict \<Rightarrow> alog \<Rightarrow> (pyexc + pydict) \<times> pydict list \<times> alog" where
  "ai_invoke sha y invoker ctx raw l =
     (let trace = ai_trace ctx raw; source = ai_source ctx raw in
      case authorize sha y ctx raw l of
        (Inl x, l1) \<Rightarrow> (Inl x, [], l1)
      | (Inr (allowed, _, sanitized), l1) \<Rightarrow>
          if \<not> allowed then (Inr empty_output, [], l1)
          else
            (case invoker sanitized of
               Inl x \<Rightarrow> (Inl x, [sanitized], l1)
             | Inr output \<Rightarrow>
                 (case validate_output output of
                    Inr validated \<Rightarrow>
                      (let (r, l2) = log_stage sha (y 1) trace source ''output'' ''adopted'' validated l1
                       in (ebind r (\<lambda>_. Inr validated), [sanitized], l2))
                  | Inl _ \<Rightarrow>
                      (case fallback_summary sanitized of
                         Inl x \<Rightarrow> (Inl x, [sanitized], l1)
                       | Inr summary \<Rightarrow>
                           (case log_stage sha (y 1) trace source ''review'' ''rejected'' [(''summary'', summary)] l1 of
                              (Inl x, l2) \<Rightarrow> (Inl x, [sanitized], l2)
                            | (Inr _, l2) \<Rightarrow>
                                (let (r, l3) = log_stage sha (y 2) trace source ''output'' ''fallback'' (fallback_output summary) l2
                                 in (ebind r (\<lambda>_. Inr (fallback_output summary)), [sanitized], l3)))))))"

section \<open>Structured results\<close>

definition short_text :: "pydict \<Rightarrow> string \<Rightarrow> pydict" where
  "short_text md k = (if has_key md k then [(k, PStr (if dget md k = PNone then [] else take_chars 160 (py_str (dget md k))))] else [])"

definition clamped :: "pydict \<Rightarrow> string \<times> int \<Rightarrow> pydict" where
  "clamped md km =
     (let k = fst km; v = dget md k in
      if k = ''truncated_count''
      then (if has_key md k then [(k, PInt (if is_int v \<and> 0 \<le> int_val v \<and> int_val v \<le> 4 then int_val v else 4))] else [])
      else if is_int v then [(k, PInt (max 0 (min (int_val v) (snd km))))] else [])"

definition NUMERIC_LIMITS :: "(string \<times> int) list" where
  "NUMERIC_LIMITS = [(''request_count'', 4), (''metered_request_count'', 4), (''unknown_usage_request_count'', 4), (''truncated_count'', 4),
     (''prompt_tokens'', 400000), (''completion_tokens'', 400000)]"

definition one_of :: "pydict \<Rightarrow> string \<Rightarrow> (string \<Rightarrow> bool) \<Rightarrow> pydict" where
  "one_of md k ok = (case dget md k of PStr s \<Rightarrow> if ok s then [(k, PStr s)] else [] | _ \<Rightarrow> [])"

definition plain_name :: "string \<Rightarrow> bool" where
  "plain_name s = (s \<noteq> [] \<and> length s \<le> 48 \<and> list_all (\<lambda>c. is_word c \<or> c = CHR ''-'') s)"

definition structured_payload :: "pyval \<Rightarrow> pyval \<Rightarrow> pydict" where
  "structured_payload candidate_scope metadata =
     [(''candidate_scope'', PStr (take_chars 96 (text_of candidate_scope)))]
     @ (case metadata of
          PDict md \<Rightarrow>
            concat (map (short_text md) [''task'', ''model'', ''response_chars'', ''error'']) @ concat (map (clamped md) NUMERIC_LIMITS)
            @ one_of md ''usage_status'' (\<lambda>s. s \<in> {''unknown'', ''complete'', ''partial''})
            @ one_of md ''mio_state'' plain_name @ one_of md ''outcome'' plain_name
            @ one_of md ''knowledge_status'' (\<lambda>s. s \<in> set KNOWLEDGE_STATUS_VALUES)
        | _ \<Rightarrow> [])"

definition record_structured_result ::
    "(string \<Rightarrow> string) \<Rightarrow> sys \<Rightarrow> pyval \<Rightarrow> pyval \<Rightarrow> pyval \<Rightarrow> pyval \<Rightarrow> pyval \<Rightarrow> alog \<Rightarrow> (pyexc + pydict) \<times> alog" where
  "record_structured_result sha y trace source candidate_scope decision metadata l =
     log_stage sha y (text_of trace) (py_str (py_or source (PStr ''ai_governance''))) ''output'' (py_str (py_or decision (PStr ''unknown'')))
       (structured_payload candidate_scope metadata) l"

end
