(* ===== verification/AiGovernanceProperties.thy ===== *)
theory AiGovernanceProperties
  imports AiGovernance AuditChainProperties
begin

text \<open>The AI gate: the model is called only when the request is allowed, on the sanitised request and after the input is on the audit chain, and what
  comes back is bounded.\<close>

section \<open>What the model is shown\<close>

lemma sanitized_keys: "kv \<in> set (sanitize_payload raw) \<longleftrightarrow> kv \<in> set raw \<and> fst kv \<in> set SANITIZED_KEYS"
proof -
  have "k \<notin> set FORBIDDEN_KEYS" if "k \<in> set SANITIZED_KEYS" for k using that by (auto simp: SANITIZED_KEYS_def FORBIDDEN_KEYS_def)
  then show ?thesis by (auto simp: sanitize_payload_def)
qed

text \<open>A request that passed the gate: it was allowed, and its input record was accepted.\<close>

lemma authorized:
  assumes "authorize sha y ctx raw l = (Inr (True, reason, sanitized), l1)"
  shows "fst (should_invoke ctx) \<and> reason = snd (should_invoke ctx) \<and> sanitized = sanitize_payload raw
    \<and> (\<exists>rec. log_stage sha (y 0) (ai_trace ctx raw) (ai_source ctx raw) ''input'' reason sanitized l = (Inr rec, l1))"
  using assms by (cases "should_invoke ctx") (auto simp: authorize_def Let_def split: prod.splits sum.splits if_splits)

lemma called_only_authorized:
  assumes "ai_invoke sha y invoker ctx raw l = (r, calls, l')" and "calls \<noteq> []"
  obtains reason sanitized l1 where "authorize sha y ctx raw l = (Inr (True, reason, sanitized), l1)" and "calls = [sanitized]"
proof -
  obtain a reason sanitized l1 where a: "authorize sha y ctx raw l = (Inr (a, reason, sanitized), l1)"
    using assms by (cases "authorize sha y ctx raw l") (auto simp: ai_invoke_def Let_def split: sum.splits)
  have "a \<and> calls = [sanitized]"
    using assms a by (auto simp: ai_invoke_def Let_def split: if_splits sum.splits prod.splits)
  with a that [of reason sanitized l1] show thesis by simp
qed

section \<open>What comes back\<close>

definition short_texts :: "pyval \<Rightarrow> bool" where
  "short_texts v = (case v of PList xs \<Rightarrow> length xs \<le> 5 \<and> list_all (\<lambda>x. case x of PStr s \<Rightarrow> char_count s \<le> 96 | _ \<Rightarrow> False) xs | _ \<Rightarrow> False)"

definition short_note :: "pyval \<Rightarrow> bool" where
  "short_note v = (case v of PStr s \<Rightarrow> char_count s \<le> 240 | _ \<Rightarrow> False)"

definition bounded_output :: "pydict \<Rightarrow> bool" where
  "bounded_output out = (map fst out = [''advice'', ''summary'', ''candidate'', ''runbook_candidates'', ''attack_candidates'']
     \<and> short_note (dget out ''advice'') \<and> short_note (dget out ''summary'') \<and> short_note (dget out ''candidate'')
     \<and> short_texts (dget out ''runbook_candidates'') \<and> short_texts (dget out ''attack_candidates''))"

lemma emap_items: "emap (item_text k) xs = Inr ys \<Longrightarrow> length ys = length xs \<and> (\<forall>s \<in> set ys. char_count s \<le> 96)"
  by (induction xs arbitrary: ys) (auto simp: ebind_Inr_iff item_text_def char_count_take split: pyval.splits)

lemma answer_list_short: "answer_list out k = Inr ys \<Longrightarrow> short_texts (PList (map PStr ys))"
  using emap_items [of k _ ys] by (auto simp: answer_list_def short_texts_def list_all_iff split: pyval.splits)

lemma answer_text_short: "answer_text out k = Inr s \<Longrightarrow> char_count s \<le> 240"
  by (auto simp: answer_text_def char_count_take split: pyval.splits) (simp add: char_count_def)

lemma validated_bounded: "validate_output x = Inr out \<Longrightarrow> bounded_output out"
proof -
  assume v: "validate_output x = Inr out"
  then obtain d where d: "x = PDict d" by (cases x) (simp_all add: validate_output_def)
  obtain a b c xs ys where f: "answer_text d ''advice'' = Inr a" "answer_text d ''summary'' = Inr b" "answer_text d ''candidate'' = Inr c"
      "answer_list d ''runbook_candidates'' = Inr xs" "answer_list d ''attack_candidates'' = Inr ys"
      and out: "out = [(''advice'', PStr a), (''summary'', PStr b), (''candidate'', PStr c), (''runbook_candidates'', PList (map PStr xs)), (''attack_candidates'', PList (map PStr ys))]"
    using v unfolding validate_output_def d Let_def by (simp add: ebind_Inr_iff split: if_splits) blast
  have "char_count a \<le> 240" "char_count b \<le> 240" "char_count c \<le> 240" using f answer_text_short by blast+
  then show ?thesis using answer_list_short [OF f(4)] answer_list_short [OF f(5)] by (simp add: out bounded_output_def dget_def short_note_def)
qed

lemma empty_bounded: "bounded_output empty_output"
  by (simp add: bounded_output_def empty_output_def dget_def short_note_def short_texts_def char_count_def)

lemma fallback_bounded:
  assumes "fallback_summary (sanitize_payload raw) = Inr v" and "\<And>xs. dget (sanitize_payload raw) ''summary'' \<noteq> PList xs"
  shows "bounded_output (fallback_output v)"
proof -
  have "short_note v" using assms by (auto simp: fallback_summary_def dget_or_def short_note_def char_count_take split: pyval.splits if_splits) (simp add: char_count_def)
  then show ?thesis by (simp add: fallback_output_def bounded_output_def empty_output_def dget_def short_note_def short_texts_def char_count_def split: pyval.split)
qed

section \<open>Properties\<close>

text \<open>C18. The model is asked at most once, only when the gate allows the request, only with the fields of the request that are on the list, and only after the audit
  chain accepted the record of exactly that input.\<close>

theorem model_sees_only_what_was_allowed_and_audited:
  assumes "ai_invoke sha y invoker ctx raw l = (r, calls, l')" and "calls \<noteq> []"
  shows "fst (should_invoke ctx) \<and> calls = [sanitize_payload raw] \<and> (\<forall>kv \<in> set (sanitize_payload raw). kv \<in> set raw \<and> fst kv \<in> set SANITIZED_KEYS)
    \<and> (\<exists>rec l1. log_ai_assist sha (y 0) (ai_trace ctx raw) (ai_source ctx raw)
        [(''stage'', PStr ''input''), (''decision'', PStr (snd (should_invoke ctx))), (''payload'', PDict (sanitize_payload raw))] l = (Inr rec, l1))"
proof -
  obtain reason sanitized l1 where a: "authorize sha y ctx raw l = (Inr (True, reason, sanitized), l1)" "calls = [sanitized]"
    by (rule called_only_authorized [OF assms])
  from authorized [OF a(1)] a(2) show ?thesis using sanitized_keys by (auto simp: log_stage_def)
qed

text \<open>Whatever the model answers, a call that returns gives the five fields of an answer, its texts and lists within their lengths, as long as the summary of the
  request is no list; an answer that breaks the schema is replaced by the request's own summary.\<close>

theorem answer_is_bounded_whatever_the_model_says:
  assumes "ai_invoke sha y invoker ctx raw l = (Inr out, calls, l')" and "\<not> is_list (dget (sanitize_payload raw) ''summary'')"
  shows "bounded_output out \<and> (\<forall>v. calls \<noteq> [] \<longrightarrow> invoker (sanitize_payload raw) = Inr v \<longrightarrow>
      (case validate_output v of Inr out' \<Rightarrow> out = out' | Inl _ \<Rightarrow> \<exists>sm. fallback_summary (sanitize_payload raw) = Inr sm \<and> out = fallback_output sm))"
proof -
  obtain a reason sanitized l1 where a: "authorize sha y ctx raw l = (Inr (a, reason, sanitized), l1)"
    using assms(1) by (cases "authorize sha y ctx raw l") (auto simp: ai_invoke_def Let_def split: sum.splits)
  have nl: "\<And>xs. dget (sanitize_payload raw) ''summary'' \<noteq> PList xs" using assms(2) by auto
  show ?thesis
  proof (cases a)
    case False
    then have "out = empty_output" "calls = []" using assms(1) a by (auto simp: ai_invoke_def Let_def)
    then show ?thesis by (simp add: empty_bounded)
  next
    case True
    then have s: "sanitized = sanitize_payload raw" using authorized [of sha y ctx raw l reason sanitized l1] a by simp
    obtain v where v: "invoker sanitized = Inr v" using assms(1) a True by (cases "invoker sanitized") (auto simp: ai_invoke_def Let_def)
    show ?thesis
    proof (cases "validate_output v")
      case (Inr out1)
      then have "out = out1" using assms(1) a True v by (auto simp: ai_invoke_def Let_def ebind_Inr_iff split: prod.splits)
      with Inr s v show ?thesis using validated_bounded by auto
    next
      case (Inl e)
      then obtain sm where "fallback_summary sanitized = Inr sm" "out = fallback_output sm"
        using assms(1) a True v by (auto simp: ai_invoke_def Let_def ebind_Inr_iff split: prod.splits sum.splits)
      with Inl s v show ?thesis using fallback_bounded [OF _ nl] by auto
    qed
  qed
qed

section \<open>Structured results\<close>

text \<open>What a structured result leaves in the audit: short texts, small numbers and words of fixed vocabularies, nothing else.\<close>

definition small_field :: "string \<times> pyval \<Rightarrow> bool" where
  "small_field kv = (case snd kv of PStr s \<Rightarrow> char_count s \<le> 160 | PInt n \<Rightarrow> 0 \<le> n \<and> n \<le> 400000 | _ \<Rightarrow> False)"

lemma char_count_le: "char_count s \<le> length s"
  by (simp add: char_count_def)

lemma short_text_small: "list_all small_field (short_text md k)"
  by (simp add: short_text_def small_field_def char_count_take) (simp add: char_count_def)

lemma clamped_small: "0 \<le> snd km \<Longrightarrow> snd km \<le> 400000 \<Longrightarrow> list_all small_field (clamped md km)"
  by (cases "fst km = ''truncated_count''") (simp_all add: clamped_def small_field_def Let_def min_le_iff_disj)

lemma one_of_small: "(\<And>s. ok s \<Longrightarrow> length s \<le> 160) \<Longrightarrow> list_all small_field (one_of md k ok)"
proof (cases "dget md k")
  case (PStr s)
  assume "\<And>s. ok s \<Longrightarrow> length s \<le> 160"
  then have "ok s \<Longrightarrow> char_count s \<le> 160" using char_count_le [of s] le_trans by blast
  with PStr show ?thesis by (simp add: one_of_def small_field_def)
qed (simp_all add: one_of_def)

lemma structured_payload_is_small: "list_all small_field (structured_payload sc md)"
proof -
  have "char_count (take_chars 96 s) \<le> 160" for s using char_count_take [of 96 s] by simp
  then have "small_field (''candidate_scope'', PStr (take_chars 96 s))" for s by (simp add: small_field_def)
  moreover have "list_all small_field (one_of md ''usage_status'' (\<lambda>s. s \<in> {''unknown'', ''complete'', ''partial''}))" for md
    by (rule one_of_small) auto
  moreover have "list_all small_field (one_of md k plain_name)" for md k by (rule one_of_small) (simp add: plain_name_def)
  moreover have "list_all small_field (one_of md ''knowledge_status'' (\<lambda>s. s \<in> set KNOWLEDGE_STATUS_VALUES))" for md
    by (rule one_of_small) (auto simp: KNOWLEDGE_STATUS_VALUES_def)
  ultimately show ?thesis
    by (cases md) (simp_all add: structured_payload_def short_text_small NUMERIC_LIMITS_def clamped_small)
qed

section \<open>Examples\<close>

definition ex_question :: pydict where "ex_question = [(''intent'', PStr ''summary''), (''source'', PStr ''dashboard'')]"

definition ex_raw :: pydict where "ex_raw = [(''summary'', PStr ''dns down''), (''raw_log'', PStr ''secret'')]"

lemma ex_allowed: "should_invoke ex_question = (True, ''operator_requested'')"
  by (simp add: should_invoke_def ex_question_def dget_def ALLOWED_INTENTS_def text_of_def py_or_def Let_def)

lemma log_stage_accepts: "append_ok y \<Longrightarrow> \<exists>r l'. log_stage sha y trace source stage decision payload l = (Inr r, l')"
  by (simp add: log_stage_def log_ai_assist_def log_audit_def log_reporting_durability_def settle_def Let_def VALID_KINDS_def DURABLE_KINDS_def)

lemma ex_asked: "\<exists>l'. ai_invoke ex_hash (\<lambda>_. ex_sys) (\<lambda>_. Inr (PDict [])) ex_question ex_raw ex_log0 = (Inr empty_output, [[(''summary'', PStr ''dns down'')]], l')"
proof -
  have s: "sanitize_payload ex_raw = [(''summary'', PStr ''dns down'')]" by (simp add: sanitize_payload_def ex_raw_def SANITIZED_KEYS_def FORBIDDEN_KEYS_def)
  have v: "validate_output (PDict []) = Inr empty_output" by (simp add: validate_output_def answer_text_def answer_list_def dget_or_def has_key_def empty_output_def Let_def)
  have ok: "append_ok ex_sys" by (simp add: ex_sys_def)
  obtain r l1 where i: "log_stage ex_hash ex_sys (ai_trace ex_question ex_raw) (ai_source ex_question ex_raw) ''input'' ''operator_requested'' [(''summary'', PStr ''dns down'')] ex_log0 = (Inr r, l1)"
    using log_stage_accepts [OF ok] by blast
  have a: "authorize ex_hash (\<lambda>_. ex_sys) ex_question ex_raw ex_log0 = (Inr (True, ''operator_requested'', [(''summary'', PStr ''dns down'')]), l1)"
    by (simp add: authorize_def ex_allowed s i Let_def)
  obtain r2 l2 where "log_stage ex_hash ex_sys (ai_trace ex_question ex_raw) (ai_source ex_question ex_raw) ''output'' ''adopted'' empty_output l1 = (Inr r2, l2)"
    using log_stage_accepts [OF ok] by blast
  then show ?thesis by (simp add: ai_invoke_def a v Let_def)
qed

theorem model_sees_only_what_was_allowed_and_audited_witness:
  "\<exists>r l'. ai_invoke ex_hash (\<lambda>_. ex_sys) (\<lambda>_. Inr (PDict [])) ex_question ex_raw ex_log0 = (r, [sanitize_payload ex_raw], l') \<and> fst (should_invoke ex_question)"
proof -
  obtain l' where i: "ai_invoke ex_hash (\<lambda>_. ex_sys) (\<lambda>_. Inr (PDict [])) ex_question ex_raw ex_log0 = (Inr empty_output, [[(''summary'', PStr ''dns down'')]], l')"
    using ex_asked by blast
  from model_sees_only_what_was_allowed_and_audited [OF i] i show ?thesis by auto
qed

theorem answer_is_bounded_whatever_the_model_says_witness:
  "\<exists>out calls l'. ai_invoke ex_hash (\<lambda>_. ex_sys) (\<lambda>_. Inr (PDict [])) ex_question ex_raw ex_log0 = (Inr out, calls, l') \<and> bounded_output out"
proof -
  obtain l' where i: "ai_invoke ex_hash (\<lambda>_. ex_sys) (\<lambda>_. Inr (PDict [])) ex_question ex_raw ex_log0 = (Inr empty_output, [[(''summary'', PStr ''dns down'')]], l')"
    using ex_asked by blast
  have "\<not> is_list (dget (sanitize_payload ex_raw) ''summary'')" by (simp add: sanitize_payload_def ex_raw_def SANITIZED_KEYS_def FORBIDDEN_KEYS_def dget_def)
  from answer_is_bounded_whatever_the_model_says [OF i this] i show ?thesis by blast
qed

end
