(* ===== verification/PyTime.thy ===== *)
theory PyTime
  imports Values
begin

text \<open>
  Values of \<open>datetime\<close>: microseconds since 1970 as a number of seconds, with an offset or without. Reading a time from text and printing one are parameters of the
  components that use them.
\<close>

text \<open>A \<open>datetime\<close> carries an offset or not; the two kinds do not compare.\<close>

datatype stamp = Naive rat | Aware rat

fun instant :: "stamp \<Rightarrow> rat" where
  "instant (Naive q) = q"
| "instant (Aware q) = q"

fun is_naive :: "stamp \<Rightarrow> bool" where
  "is_naive (Naive _) = True"
| "is_naive (Aware _) = False"

text \<open>\<open>sorted\<close> compares every element with some other, so it raises exactly on a mixture.\<close>

definition comparable :: "stamp list \<Rightarrow> bool" where
  "comparable ts = (list_all is_naive ts \<or> list_all (\<lambda>t. \<not> is_naive t) ts)"

text \<open>The years 1 to 9999; arithmetic that leaves them raises.\<close>

definition MIN_TIME :: rat where
  "MIN_TIME = - 62135596800"

definition MAX_TIME :: rat where
  "MAX_TIME = 253402300800 - 1 / 1000000"

definition in_range :: "rat \<Rightarrow> bool" where
  "in_range q = (MIN_TIME \<le> q \<and> q \<le> MAX_TIME)"

end
