(* ===== verification/Correlation.thy ===== *)
theory Correlation
  imports PyTime
begin

text \<open>
  The correlator of \<open>correlation/advanced.py\<close>: events are grouped by pair of endpoints, by address and by target; a group that several sources support becomes
  a cluster with a score, and the clusters a summary. \<open>datetime.fromisoformat\<close>, the readings of the clock and the order in which a set of two addresses is
  walked are fields of the environment.
\<close>

section \<open>Events and times\<close>

text \<open>An event is an object with \<open>to_dict\<close> or any other value.\<close>

datatype cevent = EObj pydict | EVal pyval

text \<open>\<open>ce_now\<close> is what the clock reads for the \<open>n\<close>-th row of the group with a given id, in the ordering of its rows or in the window test.\<close>

datatype clock_use = Ordering | Window

record corr_env =
  ce_iso :: "string \<Rightarrow> stamp option"
  ce_now :: "string \<Rightarrow> clock_use \<Rightarrow> nat \<Rightarrow> rat"
  ce_dst_first :: "string \<Rightarrow> string \<Rightarrow> bool"

definition to_payloads :: "cevent list \<Rightarrow> pydict list" where
  "to_payloads evs =
     filter (\<lambda>p. is_dict (dget p ''attrs''))
       (concat (map (\<lambda>e. case e of EObj d \<Rightarrow> [d] | EVal (PDict d) \<Rightarrow> [d] | EVal _ \<Rightarrow> []) evs))"

text \<open>The pattern \<open>[^-]+->[^:]+:\d+\<close> from the start of the subject.\<close>

definition parse_subject :: "string \<Rightarrow> pyexc + string \<times> string \<times> int" where
  "parse_subject subject =
     (let src = takeWhile (\<lambda>c. c \<noteq> CHR ''-'') subject;
          arrow = drop (length src) subject;
          rest = drop 2 arrow;
          dst = takeWhile (\<lambda>c. c \<noteq> CHR '':'') rest;
          port = takeWhile is_digit (drop (length dst + 1) rest)
      in if src = [] \<or> take 2 arrow \<noteq> ''->'' \<or> dst = [] \<or> port = [] then Inr ([], [], 0)
         else ebind (py_int (PStr port)) (\<lambda>n. Inr (src, dst, n)))"

definition parse_ts :: "corr_env \<Rightarrow> rat \<Rightarrow> string \<Rightarrow> stamp" where
  "parse_ts e now ts =
     (let text = py_strip ts;
          text = (if text \<noteq> [] \<and> last text = CHR ''Z'' then butlast text @ ''+00:00'' else text)
      in case ce_iso e text of None \<Rightarrow> Aware now | Some t \<Rightarrow> t)"

definition attrs_of :: "pydict \<Rightarrow> pydict" where
  "attrs_of item = dict_of (dget item ''attrs'')"

definition extract_endpoints :: "pydict \<Rightarrow> pyexc + string \<times> string \<times> int" where
  "extract_endpoints payload =
     (let attrs = attrs_of payload; src = text_of (dget attrs ''src_ip''); dst = text_of (dget attrs ''dst_ip'') in
      ebind (py_int (py_or (py_or (dget attrs ''dst_port'') (dget attrs ''target_port'')) (PInt 0))) (\<lambda>port.
        if src \<noteq> [] \<and> dst \<noteq> [] then Inr (src, dst, port)
        else ebind (parse_subject (text_of (dget payload ''subject''))) (\<lambda>(ssrc, sdst, sport).
          Inr (if src \<noteq> [] then src else ssrc, if dst \<noteq> [] then dst else sdst, if port \<noteq> 0 then port else sport))))"

section \<open>Groups\<close>

text \<open>\<open>groups[k].append(x)\<close> on a \<open>defaultdict(list)\<close>.\<close>

definition group_add :: "('k \<times> 'a) \<Rightarrow> ('k \<times> 'a list) list \<Rightarrow> ('k \<times> 'a list) list" where
  "group_add kx g = AList.update (fst kx) ((case map_of g (fst kx) of None \<Rightarrow> [] | Some xs \<Rightarrow> xs) @ [snd kx]) g"

definition grouped :: "('k \<times> 'a) list \<Rightarrow> ('k \<times> 'a list) list" where
  "grouped kxs = fold group_add kxs []"

type_synonym placed = "(string \<times> string \<times> int) \<times> pydict"

definition pair_entries :: "placed \<Rightarrow> ((string \<times> string \<times> int) \<times> pydict) list" where
  "pair_entries p = (case p of ((src, dst, port), item) \<Rightarrow> if src \<noteq> [] \<and> dst \<noteq> [] then [((src, dst, port), item)] else [])"

definition target_entries :: "placed \<Rightarrow> (string \<times> pydict) list" where
  "target_entries p = (case p of ((src, dst, port), item) \<Rightarrow> if src \<noteq> [] \<and> dst \<noteq> [] then [(dst, item)] else [])"

definition ip_entries :: "corr_env \<Rightarrow> placed \<Rightarrow> (string \<times> pydict) list" where
  "ip_entries e p =
     (case p of ((src, dst, port), item) \<Rightarrow>
        let ips = (if src = dst then [src] else if ce_dst_first e src dst then [dst, src] else [src, dst])
        in map (\<lambda>ip. (ip, item)) (filter (\<lambda>ip. ip \<noteq> []) ips))"

section \<open>Sequence and window\<close>

definition stage_rank :: "(string \<times> nat) list" where
  "stage_rank = [(''observe'', 1), (''notify'', 2), (''throttle'', 3), (''redirect'', 3), (''isolate'', 4)]"

definition stage_of :: "pydict \<Rightarrow> string" where
  "stage_of item =
     py_lower (py_strip (text_of (py_or (py_or (dget (attrs_of item) ''recommended_action'') (dget (attrs_of item) ''action'')) (dget item ''action''))))"

definition stage_step :: "string list \<Rightarrow> pydict \<Rightarrow> string list" where
  "stage_step stages item =
     (let raw = stage_of item in
      if has_key stage_rank raw \<and> (stages = [] \<or> last stages \<noteq> raw) then stages @ [raw] else stages)"

definition stage_bonus :: "string list \<Rightarrow> int \<times> string list" where
  "stage_bonus stages =
     (let ranks = map (\<lambda>s. the (map_of stage_rank s)) stages in
      if length stages < 2 then (0, [])
      else if sorted ranks \<and> 3 \<le> length (dedup ranks) \<and> ''observe'' \<in> set stages \<and> ''notify'' \<in> set stages
           \<and> (''throttle'' \<in> set stages \<or> ''redirect'' \<in> set stages) then (15, [''sequence_escalation''])
      else if sorted ranks \<and> 2 \<le> length (dedup ranks) then (6, [''sequence_progression''])
      else (0, []))"

definition row_stamps :: "corr_env \<Rightarrow> string \<Rightarrow> clock_use \<Rightarrow> pydict list \<Rightarrow> (stamp \<times> pydict) list" where
  "row_stamps e gid use rows = map (\<lambda>(i, item). (parse_ts e (ce_now e gid use i) (text_of (dget item ''ts'')), item)) (enumerate 0 rows)"

definition sequence_bonus :: "corr_env \<Rightarrow> string \<Rightarrow> pydict list \<Rightarrow> pyexc + int \<times> string list" where
  "sequence_bonus e gid rows =
     (let keyed = row_stamps e gid Ordering rows in
      if \<not> comparable (map fst keyed) then Inl (TypeError [])
      else Inr (stage_bonus (foldl stage_step [] (map snd (sort_key (\<lambda>r. instant (fst r)) keyed)))))"

definition within_window :: "corr_env \<Rightarrow> string \<Rightarrow> pydict list \<Rightarrow> rat \<Rightarrow> pyexc + bool" where
  "within_window e gid rows seconds =
     (let stamps = map fst (filter (\<lambda>r. text_of (dget (snd r) ''ts'') \<noteq> []) (row_stamps e gid Window rows));
          ts = sort (map instant stamps)
      in if \<not> comparable stamps then Inl (TypeError [])
         else Inr (2 \<le> length ts \<and> last ts - hd ts \<le> seconds))"

section \<open>Clusters\<close>

record cluster =
  cl_id :: string
  cl_scope :: string
  cl_subject :: string
  cl_score :: int
  cl_sources :: "string list"
  cl_kinds :: "string list"
  cl_reasons :: "string list"
  cl_evidence :: "string list"
  cl_src_ips :: "(nat \<times> string list) option"

text \<open>\<open>sorted({str(item.get(k) or '') ...})\<close> without the empty text.\<close>

definition texts_of :: "string \<Rightarrow> pydict list \<Rightarrow> string list" where
  "texts_of k rows = sort (dedup (filter (\<lambda>s. s \<noteq> []) (map (\<lambda>item. text_of (dget item k)) rows)))"

text \<open>The tests of a cluster in turn: each that holds adds to the score and names its reason.\<close>

definition add_marks :: "(bool \<times> int \<times> string) list \<Rightarrow> int \<times> string list" where
  "add_marks ms = (sum_list (map (\<lambda>m. fst (snd m)) (filter fst ms)), map (\<lambda>m. snd (snd m)) (filter fst ms))"

definition build_pair_cluster :: "corr_env \<Rightarrow> (string \<times> string \<times> int) \<times> pydict list \<Rightarrow> pyexc + cluster option" where
  "build_pair_cluster e kg =
     (case kg of ((src, dst, port), rows) \<Rightarrow>
      let sources = texts_of ''source'' rows; kinds = texts_of ''kind'' rows;
          gid = ''pair:'' @ src @ '':'' @ dst @ '':'' @ int_str port in
      if length rows < 2 \<or> length sources < 2 then Inr None
      else
        ebind (within_window e gid rows 300) (\<lambda>near.
        ebind (sequence_bonus e gid rows) (\<lambda>(seq_bonus, seq_reasons).
          let (marks, reasons) = add_marks
                [(''suricata_eve'' \<in> set sources \<and> ''flow_min'' \<in> set sources, 15, ''suricata_flow_alignment''),
                 (''syslog_min'' \<in> set sources, 8, ''syslog_support''),
                 (''noc_probe'' \<in> set sources, 8, ''noc_support''),
                 (1 < length kinds, 4, ''multi_kind_alignment''),
                 (near, 4, ''time_proximity'')]
          in Inr (Some
            \<lparr>cl_id = gid, cl_scope = ''pair'', cl_subject = src @ ''->'' @ dst @ '':'' @ int_str port,
             cl_score = min 100 (20 + 5 * int (length sources) + marks + seq_bonus), cl_sources = sources, cl_kinds = kinds,
             cl_reasons = ''multi_source_pair'' # reasons @ seq_reasons, cl_evidence = texts_of ''event_id'' rows, cl_src_ips = None\<rparr>))))"

definition build_ip_cluster :: "corr_env \<Rightarrow> string \<times> pydict list \<Rightarrow> pyexc + cluster option" where
  "build_ip_cluster e kg =
     (case kg of (ip, rows) \<Rightarrow>
      let sources = texts_of ''source'' rows; gid = ''ip:'' @ ip in
      if length rows < 3 \<or> length sources < 2 then Inr None
      else
        ebind (within_window e gid rows 300) (\<lambda>near.
        ebind (sequence_bonus e gid rows) (\<lambda>(seq_bonus, seq_reasons).
          let (marks, reasons) = add_marks
                [(near, 4, ''time_proximity''),
                 (''suricata_eve'' \<in> set sources \<and> ''flow_min'' \<in> set sources, 8, ''suricata_flow_same_ip''),
                 (''syslog_min'' \<in> set sources, 4, ''syslog_same_ip'')]
          in Inr (Some
            \<lparr>cl_id = gid, cl_scope = ''ip'', cl_subject = ip,
             cl_score = min 100 (15 + 5 * int (length sources) + marks + seq_bonus), cl_sources = sources, cl_kinds = texts_of ''kind'' rows,
             cl_reasons = ''shared_ip_multi_source'' # reasons @ seq_reasons, cl_evidence = texts_of ''event_id'' rows, cl_src_ips = None\<rparr>))))"

definition row_source :: "pydict \<Rightarrow> pyexc + string" where
  "row_source item =
     (let src = text_of (dget (attrs_of item) ''src_ip'') in
      if src \<noteq> [] then Inr src else ebind (parse_subject (text_of (dget item ''subject''))) (\<lambda>t. Inr (fst t)))"

definition build_target_cluster :: "corr_env \<Rightarrow> string \<times> pydict list \<Rightarrow> pyexc + cluster option" where
  "build_target_cluster e kg =
     (case kg of (dst, rows) \<Rightarrow>
      ebind (emap row_source rows) (\<lambda>srcs.
      let sources = texts_of ''source'' rows; gid = ''target:'' @ dst; src_ips = sort (dedup (filter (\<lambda>s. s \<noteq> []) srcs)) in
      if length src_ips < 3 \<or> length sources < 2 then Inr None
      else
        ebind (within_window e gid rows 300) (\<lambda>near.
        ebind (sequence_bonus e gid rows) (\<lambda>(seq_bonus, seq_reasons).
          let (marks, reasons) = add_marks
                [(near, 8, ''distributed_scan_window''),
                 (''suricata_eve'' \<in> set sources \<and> ''flow_min'' \<in> set sources, 10, ''suricata_flow_target_alignment''),
                 (''syslog_min'' \<in> set sources, 6, ''syslog_target_support'')]
          in Inr (Some
            \<lparr>cl_id = gid, cl_scope = ''target'', cl_subject = dst,
             cl_score = min 100 (30 + 8 * int (length src_ips) + 4 * int (length sources) + marks + seq_bonus), cl_sources = sources,
             cl_kinds = texts_of ''kind'' rows, cl_reasons = ''multi_source_single_target'' # reasons @ seq_reasons,
             cl_evidence = texts_of ''event_id'' rows, cl_src_ips = Some (length src_ips, take 16 src_ips)\<rparr>)))))"

section \<open>The summary\<close>

record correlation =
  co_status :: string
  co_count :: nat
  co_top_score :: int
  co_clusters :: "cluster list"
  co_reasons :: "string list"
  co_evidence :: "string list"

definition keep_best :: "cluster \<Rightarrow> (string \<times> cluster) list \<Rightarrow> (string \<times> cluster) list" where
  "keep_best c seen =
     (case map_of seen (cl_id c) of
        None \<Rightarrow> AList.update (cl_id c) c seen
      | Some old \<Rightarrow> if cl_score old < cl_score c then AList.update (cl_id c) c seen else seen)"

definition status_of_score :: "int \<Rightarrow> string" where
  "status_of_score best =
     (if 80 \<le> best then ''critical'' else if 50 \<le> best then ''high'' else if 40 \<le> best then ''medium'' else if 0 < best then ''low'' else ''none'')"

definition some_of :: "'a option list \<Rightarrow> 'a list" where
  "some_of xs = concat (map (\<lambda>x. case x of None \<Rightarrow> [] | Some y \<Rightarrow> [y]) xs)"

definition summarize :: "cluster list \<Rightarrow> correlation" where
  "summarize clusters =
     (let merged = sort_key (\<lambda>c. - cl_score c) (map snd (fold keep_best clusters []));
          best = (if merged = [] then 0 else Max (set (map cl_score merged)))
      in \<lparr>co_status = status_of_score best, co_count = length merged, co_top_score = best, co_clusters = merged,
          co_reasons = sort (dedup (filter (\<lambda>s. s \<noteq> []) (concat (map cl_reasons merged)))),
          co_evidence = sort (dedup (filter (\<lambda>s. s \<noteq> []) (concat (map cl_evidence merged))))\<rparr>)"

definition place :: "pydict \<Rightarrow> pyexc + placed" where
  "place payload = ebind (extract_endpoints payload) (\<lambda>k. Inr (k, payload))"

definition correlate :: "corr_env \<Rightarrow> cevent list \<Rightarrow> pyexc + correlation" where
  "correlate e events =
     ebind (emap place (to_payloads events)) (\<lambda>ps.
     ebind (emap (build_pair_cluster e) (grouped (concat (map pair_entries ps)))) (\<lambda>pairs.
     ebind (emap (build_ip_cluster e) (grouped (concat (map (ip_entries e) ps)))) (\<lambda>ips.
     ebind (emap (build_target_cluster e) (grouped (concat (map target_entries ps)))) (\<lambda>targets.
       Inr (summarize (some_of pairs @ some_of ips @ some_of targets))))))"

end
