(* ===== verification/CorrelationProperties.thy ===== *)
theory CorrelationProperties
  imports Correlation "HOL-Library.Multiset"
begin

text \<open>
  What the correlator reports: exactly the groups that several sources support, whatever the order in which sets are walked. The three kinds of cluster share the
  contract of a locale; the lemmas on the summary are proved once from it.
\<close>

section \<open>Groups\<close>

lemma map_of_grouped: "map_of (grouped kxs) k = (let xs = map snd (filter (\<lambda>p. fst p = k) kxs) in if xs = [] then None else Some xs)"
proof (induction kxs rule: rev_induct)
  case Nil then show ?case by (simp add: grouped_def)
next
  case (snoc kx kxs)
  have "grouped (kxs @ [kx]) = group_add kx (grouped kxs)" by (simp add: grouped_def)
  then show ?case using snoc.IH by (auto simp: group_add_def map_of_update Let_def split: if_splits)
qed

lemma distinct_grouped: "distinct (map fst (grouped kxs))"
  by (induction kxs rule: rev_induct) (simp_all add: grouped_def group_add_def distinct_update_keys)

lemma set_grouped: "(k, rows) \<in> set (grouped kxs) \<longleftrightarrow> rows = map snd (filter (\<lambda>p. fst p = k) kxs) \<and> rows \<noteq> []"
  by (auto simp: in_set_map_of [OF distinct_grouped] map_of_grouped Let_def)

lemma grouped_perm: "(\<And>k. map snd (filter (\<lambda>p. fst p = k) xs) = map snd (filter (\<lambda>p. fst p = k) ys)) \<Longrightarrow> mset (grouped xs) = mset (grouped ys)"
  using set_grouped [of _ _ xs] set_grouped [of _ _ ys]
  by (intro iffD1 [OF set_eq_iff_mset_eq_distinct] distinct_map [THEN iffD1, THEN conjunct1, OF distinct_grouped]) auto

lemma mset_some_of: "mset (some_of xs) = image_mset the (filter_mset (\<lambda>x. x \<noteq> None) (mset xs))"
  by (induction xs) (auto simp: some_of_def)

section \<open>Bounds of the bonuses\<close>

lemma stage_bonus_nonneg: "0 \<le> fst (stage_bonus s)"
  by (simp add: stage_bonus_def Let_def)

lemma sequence_bonus_nonneg: "sequence_bonus e gid rows = Inr (b, rs) \<Longrightarrow> 0 \<le> b"
  by (auto simp: sequence_bonus_def Let_def split: if_splits) (metis fst_conv stage_bonus_nonneg)

lemma score_positive: "list_all (\<lambda>m. 0 \<le> fst (snd m)) ms \<Longrightarrow> 0 \<le> b \<Longrightarrow> 0 < a \<Longrightarrow> 0 < a + fst (add_marks ms) + b"
proof -
  assume "list_all (\<lambda>m. 0 \<le> fst (snd m)) ms" "0 \<le> b" "0 < a"
  moreover have "0 \<le> fst (add_marks ms)" using \<open>list_all _ ms\<close> by (auto simp: add_marks_def list_all_iff intro!: sum_list_nonneg)
  ultimately show ?thesis by linarith
qed

lemma within_window_error: "within_window e gid rows s = Inl x \<Longrightarrow> x = TypeError []"
  by (simp add: within_window_def Let_def split: if_splits)

lemma sequence_bonus_error: "sequence_bonus e gid rows = Inl x \<Longrightarrow> x = TypeError []"
  by (simp add: sequence_bonus_def Let_def split: if_splits)

section \<open>The contract of a kind of cluster\<close>

text \<open>A cluster is backed by the rows it was built from.\<close>

definition backed :: "pydict list \<Rightarrow> cluster \<Rightarrow> bool" where
  "backed rows c = (cl_sources c = texts_of ''source'' rows \<and> 2 \<le> length (cl_sources c) \<and> cl_evidence c = texts_of ''event_id'' rows
     \<and> 0 < cl_score c \<and> cl_score c \<le> 100)"

locale cluster_kind =
  fixes build :: "corr_env \<Rightarrow> 'k \<times> pydict list \<Rightarrow> pyexc + cluster option"
    and ident :: "'k \<Rightarrow> string"
    and enough :: "pydict list \<Rightarrow> bool"
  assumes built: "build e (k, rows) = Inr (Some c) \<Longrightarrow> cl_id c = ident k \<and> backed rows c"
    and decided: "build e (k, rows) = Inr r \<Longrightarrow> r \<noteq> None \<longleftrightarrow> enough rows"
    and some_rows: "\<not> enough []"
    and walk_free: "build (e\<lparr>ce_dst_first := f\<rparr>) kr = build e kr"
begin

lemma some_of_mem: "c \<in> set (some_of xs) \<longleftrightarrow> Some c \<in> set xs"
  by (auto simp: some_of_def split: option.splits)

lemma cluster_from:
  assumes "emap (build e) gs = Inr rs" "c \<in> set (some_of rs)"
  shows "\<exists>k rows. (k, rows) \<in> set gs \<and> cl_id c = ident k \<and> backed rows c \<and> enough rows"
proof -
  have "Some c \<in> set rs" using assms(2) by (simp add: some_of_mem)
  then have "Inr (Some c) \<in> set (map (build e) gs)" using assms(1) by (simp add: emap_Inr_iff)
  then obtain k rows where "(k, rows) \<in> set gs" "build e (k, rows) = Inr (Some c)" by (metis imageE list.set_map surj_pair)
  then show ?thesis using built [of e k rows c] decided [of e k rows "Some c"] by auto
qed

lemma cluster_for:
  assumes "emap (build e) gs = Inr rs" "(k, rows) \<in> set gs" "enough rows"
  shows "\<exists>c \<in> set (some_of rs). cl_id c = ident k"
proof -
  have "build e (k, rows) \<in> set (map Inr rs)" using assms(1,2) by (metis emap_Inr_iff image_eqI list.set_map)
  then obtain r where r: "build e (k, rows) = Inr r" "r \<in> set rs" by auto
  then obtain c where "r = Some c" using decided assms(3) by fastforce
  then show ?thesis using r built [of e k rows c] by (auto simp: some_of_mem)
qed

lemma ids: "emap (build e) gs = Inr rs \<Longrightarrow> cl_id ` set (some_of rs) = {ident k | k rows. (k, rows) \<in> set gs \<and> enough rows}"
proof (intro equalityI subsetI)
  fix i assume e: "emap (build e) gs = Inr rs" and "i \<in> cl_id ` set (some_of rs)"
  then show "i \<in> {ident k | k rows. (k, rows) \<in> set gs \<and> enough rows}" using cluster_from [OF e] by fastforce
next
  fix i assume e: "emap (build e) gs = Inr rs" and "i \<in> {ident k | k rows. (k, rows) \<in> set gs \<and> enough rows}"
  then obtain k rows where "i = ident k" "(k, rows) \<in> set gs" "enough rows" by blast
  then show "i \<in> cl_id ` set (some_of rs)" using cluster_for [OF e] by force
qed

text \<open>The groups of the events, with \<open>R k\<close> the rows of \<open>k\<close>.\<close>

lemma grouped_ids:
  assumes "emap (build e) (grouped kxs) = Inr rs" "\<And>k. map snd (filter (\<lambda>x. fst x = k) kxs) = R k"
  shows "cl_id ` set (some_of rs) = {ident k | k. enough (R k)}"
proof -
  have "(k, rows) \<in> set (grouped kxs) \<and> enough rows \<longleftrightarrow> rows = R k \<and> enough (R k)" for k rows
    using some_rows by (auto simp: set_grouped assms(2))
  then show ?thesis using ids [OF assms(1)] by simp
qed

lemma grouped_from:
  assumes "emap (build e) (grouped kxs) = Inr rs" "\<And>k. map snd (filter (\<lambda>x. fst x = k) kxs) = R k" "c \<in> set (some_of rs)"
  shows "\<exists>k. backed (R k) c"
  using cluster_from [OF assms(1,3)] by (auto simp: set_grouped assms(2))

lemma walk_free_emap: "emap (build (e\<lparr>ce_dst_first := f\<rparr>)) gs = emap (build e) gs"
  by (induction gs) (simp_all add: walk_free)

end

text \<open>An id that names one group only.\<close>

locale named_kind = cluster_kind +
  assumes ident_inj: "inj ident"
begin

lemma distinct_ids:
  assumes "emap (build e) gs = Inr rs" "distinct (map fst gs)"
  shows "distinct (map cl_id (some_of rs))"
  using assms
proof (induction gs arbitrary: rs)
  case Nil then show ?case by (simp add: some_of_def)
next
  case (Cons g gs)
  obtain k rows where g: "g = (k, rows)" by force
  obtain r rs' where r: "build e g = Inr r" "emap (build e) gs = Inr rs'" "rs = r # rs'" using Cons.prems(1) by (auto simp: ebind_Inr_iff)
  have d: "distinct (map cl_id (some_of rs'))" using Cons r by simp
  have "ident k \<notin> cl_id ` set (some_of rs')" using ids [OF r(2)] Cons.prems(2) g by (auto simp: inj_eq [OF ident_inj] rev_image_eqI)
  then show ?case using d r(1) r(3) g built [of e k rows] by (cases r) (auto simp: some_of_def)
qed

end

text \<open>A kind whose rows come in an order that is not fixed raises one error only.\<close>

locale walked_kind = named_kind +
  assumes only_type_error: "build e kr = Inl x \<Longrightarrow> x = TypeError []"
begin

lemma order_free:
  assumes "mset gs = mset hs"
  shows "emap (build e) gs = Inr rs \<Longrightarrow> \<exists>ss. emap (build e) hs = Inr ss \<and> mset (some_of ss) = mset (some_of rs)"
    and "emap (build e) gs = Inl x \<Longrightarrow> emap (build e) hs = Inl x"
proof -
  have s: "set gs = set hs" using assms by (rule mset_eq_setD)
  assume "emap (build e) gs = Inr rs"
  then have m: "map (build e) gs = map Inr rs" by (simp add: emap_Inr_iff)
  then have "\<forall>y \<in> set (map (build e) gs). \<exists>r. y = Inr r" by auto
  then have "\<forall>y \<in> set (map (build e) hs). \<exists>r. y = Inr r" by (simp add: s)
  then have "\<exists>ss. map (build e) hs = map Inr ss" by (simp only: ex_map_conv)
  then obtain ss where ss: "map (build e) hs = map Inr ss" ..
  have "mset (map (build e) hs) = mset (map (build e) gs)" using assms by simp
  then have "mset ss = mset rs" unfolding m ss by (simp add: inj_eq [OF multiset.inj_map [OF inj_Inr]])
  then have "mset (some_of ss) = mset (some_of rs)" by (simp add: mset_some_of)
  then show "\<exists>ss. emap (build e) hs = Inr ss \<and> mset (some_of ss) = mset (some_of rs)" using ss emap_Inr_iff by blast
next
  assume x: "emap (build e) gs = Inl x"
  show "emap (build e) hs = Inl x"
  proof (cases "emap (build e) hs")
    case (Inl y)
    then show ?thesis using x emap_Inl_mem only_type_error by metis
  next
    case (Inr ss)
    then have "set (map (build e) hs) \<subseteq> range Inr" by (auto simp: emap_Inr_iff)
    then have "\<forall>g \<in> set gs. \<exists>r. build e g = Inr r" using mset_eq_setD [OF assms] by auto
    then show ?thesis using emap_Inl_mem [OF x] by fastforce
  qed
qed

end

section \<open>The three kinds\<close>

definition pair_id :: "string \<times> string \<times> int \<Rightarrow> string" where
  "pair_id k = ''pair:'' @ fst k @ '':'' @ fst (snd k) @ '':'' @ int_str (snd (snd k))"

definition senders :: "pydict list \<Rightarrow> string list" where
  "senders rows = dedup (filter (\<lambda>s. s \<noteq> []) (map (\<lambda>p. case row_source p of Inl _ \<Rightarrow> [] | Inr s \<Rightarrow> s) rows))"

definition several :: "nat \<Rightarrow> pydict list \<Rightarrow> bool" where
  "several n rows = (n \<le> length rows \<and> 2 \<le> length (texts_of ''source'' rows))"

definition crowded :: "pydict list \<Rightarrow> bool" where
  "crowded rows = (3 \<le> length (senders rows) \<and> 2 \<le> length (texts_of ''source'' rows))"

lemma not_enough [simp]: "\<not> several (Suc n) []" "\<not> several (numeral m) []" "\<not> crowded []"
  by (simp_all add: several_def crowded_def texts_of_def)

lemma stamps_walk_free [simp]:
  "within_window (e\<lparr>ce_dst_first := f\<rparr>) = within_window e" "sequence_bonus (e\<lparr>ce_dst_first := f\<rparr>) = sequence_bonus e"
  by (simp_all add: fun_eq_iff within_window_def sequence_bonus_def row_stamps_def parse_ts_def)

lemma senders_emap: "emap row_source rows = Inr ss \<Longrightarrow> senders rows = dedup (filter (\<lambda>s. s \<noteq> []) ss)"
proof -
  assume "emap row_source rows = Inr ss"
  then have "map row_source rows = map Inr ss" by (simp add: emap_Inr_iff)
  then have "map (\<lambda>r. case r of Inl _ \<Rightarrow> [] | Inr s \<Rightarrow> s) (map row_source rows) = map (\<lambda>r. case r of Inl _ \<Rightarrow> [] | Inr s \<Rightarrow> s) (map Inr ss)" by simp
  then have "map (\<lambda>p. case row_source p of Inl _ \<Rightarrow> [] | Inr s \<Rightarrow> s) rows = ss" by (simp add: o_def)
  then show ?thesis by (simp add: senders_def)
qed

lemma pair_built: "build_pair_cluster e (k, rows) = Inr (Some c) \<Longrightarrow> cl_id c = pair_id k \<and> backed rows c"
  by (cases k) (auto simp: build_pair_cluster_def pair_id_def backed_def Let_def split_beta ebind_Inr_iff intro!: score_positive dest: sequence_bonus_nonneg split: if_splits)

lemma ip_built: "build_ip_cluster e (k, rows) = Inr (Some c) \<Longrightarrow> cl_id c = ''ip:'' @ k \<and> backed rows c"
  by (auto simp: build_ip_cluster_def backed_def Let_def split_beta ebind_Inr_iff intro!: score_positive dest: sequence_bonus_nonneg split: if_splits)

lemma target_built: "build_target_cluster e (k, rows) = Inr (Some c) \<Longrightarrow> cl_id c = ''target:'' @ k \<and> backed rows c"
  by (auto simp: build_target_cluster_def backed_def Let_def split_beta ebind_Inr_iff intro!: score_positive dest: sequence_bonus_nonneg split: if_splits)

interpretation pairs: cluster_kind build_pair_cluster pair_id "several 2"
  by unfold_locales (auto simp: pair_built, auto simp: build_pair_cluster_def several_def Let_def split_beta ebind_Inr_iff split: if_splits)

interpretation ips: walked_kind build_ip_cluster "\<lambda>ip. ''ip:'' @ ip" "several 3"
  by unfold_locales (auto simp: ip_built inj_def, auto simp: build_ip_cluster_def several_def Let_def split_beta ebind_Inr_iff ebind_Inl_iff
    dest: within_window_error sequence_bonus_error split: if_splits)

lemma target_walk_free: "build_target_cluster (e\<lparr>ce_dst_first := f\<rparr>) kr = build_target_cluster e kr"
  by (simp add: build_target_cluster_def cong: if_cong)

interpretation targets: named_kind build_target_cluster "\<lambda>dst. ''target:'' @ dst" crowded
  by unfold_locales (auto simp: target_built target_walk_free inj_def, auto simp: build_target_cluster_def crowded_def senders_emap Let_def split_beta ebind_Inr_iff split: if_splits)

section \<open>The rows of a group\<close>

definition pair_rows :: "string \<times> string \<times> int \<Rightarrow> pydict list \<Rightarrow> pydict list" where
  "pair_rows k ps = filter (\<lambda>p. extract_endpoints p = Inr k \<and> fst k \<noteq> [] \<and> fst (snd k) \<noteq> []) ps"

definition ip_rows :: "string \<Rightarrow> pydict list \<Rightarrow> pydict list" where
  "ip_rows ip ps = filter (\<lambda>p. case extract_endpoints p of Inl _ \<Rightarrow> False | Inr (src, dst, _) \<Rightarrow> ip \<noteq> [] \<and> (ip = src \<or> ip = dst)) ps"

definition target_rows :: "string \<Rightarrow> pydict list \<Rightarrow> pydict list" where
  "target_rows t ps = filter (\<lambda>p. case extract_endpoints p of Inl _ \<Rightarrow> False | Inr (src, dst, _) \<Rightarrow> src \<noteq> [] \<and> dst \<noteq> [] \<and> t = dst) ps"

lemma entry_rows:
  assumes "place p = Inr q"
  shows "map snd (filter (\<lambda>x. fst x = k) (pair_entries q)) = pair_rows k [p]"
    and "map snd (filter (\<lambda>x. fst x = i) (ip_entries e q)) = ip_rows i [p]"
    and "map snd (filter (\<lambda>x. fst x = t) (target_entries q)) = target_rows t [p]"
proof -
  obtain src dst port where q: "extract_endpoints p = Inr (src, dst, port)" "q = ((src, dst, port), p)" using assms by (auto simp: place_def ebind_Inr_iff)
  show "map snd (filter (\<lambda>x. fst x = k) (pair_entries q)) = pair_rows k [p]" by (cases k) (simp add: q pair_entries_def pair_rows_def)
  show "map snd (filter (\<lambda>x. fst x = i) (ip_entries e q)) = ip_rows i [p]" by (auto simp: q ip_entries_def ip_rows_def Let_def)
  show "map snd (filter (\<lambda>x. fst x = t) (target_entries q)) = target_rows t [p]" by (simp add: q target_entries_def target_rows_def)
qed

lemma rows_Cons:
  "pair_rows k (p # ps) = pair_rows k [p] @ pair_rows k ps" "ip_rows i (p # ps) = ip_rows i [p] @ ip_rows i ps" "target_rows t (p # ps) = target_rows t [p] @ target_rows t ps"
  by (simp_all add: pair_rows_def ip_rows_def target_rows_def)

lemma placed_rows:
  assumes "emap place ps = Inr qs"
  shows "map snd (filter (\<lambda>x. fst x = k) (concat (map pair_entries qs))) = pair_rows k ps"
    and "map snd (filter (\<lambda>x. fst x = i) (concat (map (ip_entries e) qs))) = ip_rows i ps"
    and "map snd (filter (\<lambda>x. fst x = t) (concat (map target_entries qs))) = target_rows t ps"
  using assms
proof (induction ps arbitrary: qs)
  case Nil
  { case 1 then show ?case by (simp add: pair_rows_def) next case 2 then show ?case by (simp add: ip_rows_def) next case 3 then show ?case by (simp add: target_rows_def) }
next
  case (Cons p ps)
  { case 1 then show ?case using Cons.IH(1) by (auto simp: ebind_Inr_iff entry_rows rows_Cons(1) [of k p ps])
  next case 2 then show ?case using Cons.IH(2) by (auto simp: ebind_Inr_iff entry_rows rows_Cons(2) [of i p ps])
  next case 3 then show ?case using Cons.IH(3) by (auto simp: ebind_Inr_iff entry_rows rows_Cons(3) [of t p ps]) }
qed

section \<open>The summary\<close>

definition seen_ok :: "(string \<times> cluster) list \<Rightarrow> bool" where
  "seen_ok seen = (distinct (map fst seen) \<and> list_all (\<lambda>ic. cl_id (snd ic) = fst ic) seen)"

lemma in_updateD: "x \<in> set (AList.update k v d) \<Longrightarrow> x = (k, v) \<or> x \<in> set d"
  by (induction d) (auto split: if_splits)

lemma keep_best_ok: "seen_ok seen \<Longrightarrow> seen_ok (keep_best c seen)"
  by (auto simp: seen_ok_def keep_best_def distinct_update_keys list_all_iff split: option.splits dest!: in_updateD)

lemma keep_best_keys: "fst ` set (keep_best c seen) = insert (cl_id c) (fst ` set seen)"
  by (auto simp: keep_best_def keys_update split: option.splits) (metis map_of_eq_None_iff option.distinct(1) image_iff fst_conv)+

lemma keep_best_fresh: "cl_id c \<notin> fst ` set seen \<Longrightarrow> keep_best c seen = seen @ [(cl_id c, c)]"
  by (auto simp: keep_best_def update_new split: option.splits dest: map_of_SomeD) (metis fst_conv image_eqI map_of_SomeD)

lemma fold_keep_ok: "seen_ok seen \<Longrightarrow> seen_ok (fold keep_best cs seen)"
  by (induction cs arbitrary: seen) (simp_all add: keep_best_ok)

lemma fold_keep_keys: "fst ` set (fold keep_best cs seen) = cl_id ` set cs \<union> fst ` set seen"
  by (induction cs arbitrary: seen) (auto simp: keep_best_keys)

lemma fold_keep_from: "snd ` set (fold keep_best cs seen) \<subseteq> set cs \<union> snd ` set seen"
proof (induction cs arbitrary: seen)
  case (Cons c cs)
  have "snd ` set (keep_best c seen) \<subseteq> insert c (snd ` set seen)"
    by (auto simp: keep_best_def split: option.splits dest!: in_updateD)
  moreover have "snd ` set (fold keep_best (c # cs) seen) \<subseteq> set cs \<union> snd ` set (keep_best c seen)" using Cons.IH [of "keep_best c seen"] by simp
  ultimately show ?case by (simp only: list.set) blast
qed simp

lemma fold_keep_fresh:
  "distinct (map cl_id cs) \<Longrightarrow> cl_id ` set cs \<inter> fst ` set seen = {} \<Longrightarrow> fold keep_best cs seen = seen @ map (\<lambda>c. (cl_id c, c)) cs"
proof (induction cs arbitrary: seen)
  case (Cons c cs)
  then show ?case using Cons.IH [of "seen @ [(cl_id c, c)]"] by (auto simp: keep_best_fresh)
qed simp

lemma merged_mem: "c \<in> set (co_clusters (summarize cs)) \<Longrightarrow> c \<in> set cs"
  using fold_keep_from [of cs "[]"] by (auto simp: summarize_def Let_def)

lemma merged_ids: "cl_id ` set (co_clusters (summarize cs)) = cl_id ` set cs"
proof -
  have ok: "seen_ok (fold keep_best cs [])" by (rule fold_keep_ok) (simp add: seen_ok_def)
  have "cl_id ` snd ` set (fold keep_best cs []) = fst ` set (fold keep_best cs [])"
    using ok by (force simp: seen_ok_def list_all_iff image_image intro: image_cong)
  then show ?thesis using fold_keep_keys [of cs "[]"] by (simp add: summarize_def Let_def)
qed

lemma merged_distinct: "distinct (map cl_id (co_clusters (summarize cs)))"
proof -
  have ok: "seen_ok (fold keep_best cs [])" by (rule fold_keep_ok) (simp add: seen_ok_def)
  have "map cl_id (map snd (fold keep_best cs [])) = map fst (fold keep_best cs [])" using ok by (simp add: seen_ok_def list_all_iff)
  then have "distinct (map cl_id (map snd (fold keep_best cs [])))" using ok by (simp only: seen_ok_def)
  then have "distinct (map cl_id (sort_key (\<lambda>c. - cl_score c) (map snd (fold keep_best cs []))))"
    by (subst mset_eq_imp_distinct_iff [where ys = "map cl_id (map snd (fold keep_best cs []))"]) (simp_all add: image_mset.compositionality o_def)
  then show ?thesis by (simp add: summarize_def Let_def)
qed

lemma summary_fields:
  "co_top_score (summarize cs) = (if co_clusters (summarize cs) = [] then 0 else Max (cl_score ` set (co_clusters (summarize cs))))"
  "co_status (summarize cs) = status_of_score (co_top_score (summarize cs))"
  "co_count (summarize cs) = length (co_clusters (summarize cs))"
  "co_reasons (summarize cs) = sort (dedup (filter (\<lambda>s. s \<noteq> []) (concat (map cl_reasons (co_clusters (summarize cs))))))"
  "co_evidence (summarize cs) = sort (dedup (filter (\<lambda>s. s \<noteq> []) (concat (map cl_evidence (co_clusters (summarize cs))))))"
  by (simp_all add: summarize_def Let_def)

section \<open>What is reported\<close>

definition supported_ids :: "pydict list \<Rightarrow> string set" where
  "supported_ids ps = {pair_id k | k. several 2 (pair_rows k ps)} \<union> {''ip:'' @ ip | ip. several 3 (ip_rows ip ps)} \<union> {''target:'' @ t | t. crowded (target_rows t ps)}"

definition group_of :: "pydict list \<Rightarrow> pydict list \<Rightarrow> bool" where
  "group_of ps rows = ((\<exists>k. rows = pair_rows k ps) \<or> (\<exists>i. rows = ip_rows i ps) \<or> (\<exists>t. rows = target_rows t ps))"

lemma correlate_parts:
  assumes "correlate e events = Inr r"
  obtains qs xs ys zs where "emap place (to_payloads events) = Inr qs"
    and "emap (build_pair_cluster e) (grouped (concat (map pair_entries qs))) = Inr xs"
    and "emap (build_ip_cluster e) (grouped (concat (map (ip_entries e) qs))) = Inr ys"
    and "emap (build_target_cluster e) (grouped (concat (map target_entries qs))) = Inr zs"
    and "r = summarize (some_of xs @ some_of ys @ some_of zs)"
  using assms by (auto simp: correlate_def ebind_Inr_iff)

lemma reported_ids:
  assumes "correlate e events = Inr r"
  shows "cl_id ` set (co_clusters r) = supported_ids (to_payloads events)"
proof -
  obtain qs xs ys zs where p: "emap place (to_payloads events) = Inr qs"
    and x: "emap (build_pair_cluster e) (grouped (concat (map pair_entries qs))) = Inr xs"
    and y: "emap (build_ip_cluster e) (grouped (concat (map (ip_entries e) qs))) = Inr ys"
    and z: "emap (build_target_cluster e) (grouped (concat (map target_entries qs))) = Inr zs"
    and r: "r = summarize (some_of xs @ some_of ys @ some_of zs)"
    using assms by (rule correlate_parts)
  show ?thesis
    using pairs.grouped_ids [OF x placed_rows(1) [OF p]] ips.grouped_ids [OF y placed_rows(2) [OF p]] targets.grouped_ids [OF z placed_rows(3) [OF p]]
    by (simp only: r merged_ids set_append image_Un supported_ids_def Un_assoc)
qed

lemma reported_clusters_are_backed:
  assumes "correlate e events = Inr r" "c \<in> set (co_clusters r)"
  shows "\<exists>rows. group_of (to_payloads events) rows \<and> backed rows c"
proof -
  obtain qs xs ys zs where p: "emap place (to_payloads events) = Inr qs"
    and x: "emap (build_pair_cluster e) (grouped (concat (map pair_entries qs))) = Inr xs"
    and y: "emap (build_ip_cluster e) (grouped (concat (map (ip_entries e) qs))) = Inr ys"
    and z: "emap (build_target_cluster e) (grouped (concat (map target_entries qs))) = Inr zs"
    and r: "r = summarize (some_of xs @ some_of ys @ some_of zs)"
    using assms(1) by (rule correlate_parts)
  have "c \<in> set (some_of xs @ some_of ys @ some_of zs)" using assms(2) r merged_mem by blast
  then show ?thesis
    using pairs.grouped_from [OF x placed_rows(1) [OF p]] ips.grouped_from [OF y placed_rows(2) [OF p]] targets.grouped_from [OF z placed_rows(3) [OF p]]
    unfolding group_of_def set_append Un_iff by blast
qed

text \<open>C23. A correlation that returns has one cluster for every group that is supported and none besides: a pair of endpoints with two events, an address with three,
  a target of three senders, each from two sources at least. Every cluster names the sources and the evidence of the rows of such a group, at least two sources and a
  score from 1 to 100.\<close>

theorem clusters_are_the_supported_groups:
  assumes "correlate e events = Inr r"
  shows "distinct (map cl_id (co_clusters r)) \<and> cl_id ` set (co_clusters r) = supported_ids (to_payloads events)
    \<and> (\<forall>c \<in> set (co_clusters r). \<exists>rows. group_of (to_payloads events) rows \<and> backed rows c)"
proof -
  obtain cs where "r = summarize cs" using assms by (rule correlate_parts)
  then have "distinct (map cl_id (co_clusters r))" by (simp add: merged_distinct)
  then show ?thesis using reported_ids [OF assms] reported_clusters_are_backed [OF assms] by blast
qed

section \<open>The order of a walk\<close>

lemma sort_dedup_cong: "set xs = set ys \<Longrightarrow> sort (dedup xs) = sort (dedup ys)"
  by (rule sorted_distinct_set_unique) simp_all

lemma summary_of_perm:
  assumes m: "mset ys = mset ys'" and d: "distinct (map cl_id ys)" "distinct (map cl_id zs)"
    and f: "cl_id ` set ys \<inter> cl_id ` set xs = {}" "cl_id ` set zs \<inter> cl_id ` set (xs @ ys) = {}"
  shows "mset (co_clusters (summarize (xs @ ys @ zs))) = mset (co_clusters (summarize (xs @ ys' @ zs)))"
proof -
  have s: "set ys' = set ys" using m by (metis mset_eq_setD)
  have d': "distinct (map cl_id ys')" using d(1) m by (subst mset_eq_imp_distinct_iff [where ys = "map cl_id ys"]) simp_all
  let ?s = "fold keep_best xs []"
  have k: "fst ` set ?s = cl_id ` set xs" using fold_keep_keys [of xs "[]"] by simp
  have "fold keep_best (xs @ ys @ zs) [] = (?s @ map (\<lambda>c. (cl_id c, c)) ys) @ map (\<lambda>c. (cl_id c, c)) zs"
    using fold_keep_fresh [OF d(1), of ?s] fold_keep_fresh [OF d(2), of "?s @ map (\<lambda>c. (cl_id c, c)) ys"] f
    by (simp add: k image_Un image_image)
  moreover have "fold keep_best (xs @ ys' @ zs) [] = (?s @ map (\<lambda>c. (cl_id c, c)) ys') @ map (\<lambda>c. (cl_id c, c)) zs"
    using fold_keep_fresh [OF d', of ?s] fold_keep_fresh [OF d(2), of "?s @ map (\<lambda>c. (cl_id c, c)) ys'"] f
    by (simp add: k s image_Un image_image)
  ultimately show ?thesis using m by (simp add: summarize_def Let_def o_def)
qed

lemma summary_agrees:
  assumes "mset (co_clusters (summarize cs)) = mset (co_clusters (summarize cs'))"
  shows "co_status (summarize cs) = co_status (summarize cs') \<and> co_count (summarize cs) = co_count (summarize cs') \<and> co_top_score (summarize cs) = co_top_score (summarize cs')
    \<and> co_reasons (summarize cs) = co_reasons (summarize cs') \<and> co_evidence (summarize cs) = co_evidence (summarize cs')"
proof -
  have s: "set (co_clusters (summarize cs)) = set (co_clusters (summarize cs'))" using assms by (rule mset_eq_setD)
  have l: "length (co_clusters (summarize cs)) = length (co_clusters (summarize cs'))" using assms by (metis size_mset)
  have "co_clusters (summarize cs) = [] \<longleftrightarrow> co_clusters (summarize cs') = []" using l by (metis length_0_conv)
  then show ?thesis using s l by (auto simp: summary_fields intro!: sort_dedup_cong)
qed

lemma walked_rows: "emap place ps = Inr qs \<Longrightarrow> mset (grouped (concat (map (ip_entries e) qs))) = mset (grouped (concat (map (ip_entries e') qs)))"
  by (rule grouped_perm) (simp add: placed_rows)

text \<open>The ids of one kind never are those of another.\<close>

lemma kinds_apart:
  assumes x: "emap (build_pair_cluster e) (grouped kxs) = Inr xs" and y: "emap (build_ip_cluster e) (grouped kys) = Inr ys"
    and z: "emap (build_target_cluster e) (grouped kzs) = Inr zs"
  shows "cl_id ` set (some_of ys) \<inter> cl_id ` set (some_of xs) = {}" "cl_id ` set (some_of zs) \<inter> cl_id ` set (some_of xs @ some_of ys) = {}"
proof -
  have "c \<in> set (some_of xs) \<Longrightarrow> hd (cl_id c) = CHR ''p''" for c using pairs.cluster_from [OF x] by (fastforce simp: pair_id_def)
  moreover have "c \<in> set (some_of ys) \<Longrightarrow> hd (cl_id c) = CHR ''i''" for c using ips.cluster_from [OF y] by fastforce
  moreover have "c \<in> set (some_of zs) \<Longrightarrow> hd (cl_id c) = CHR ''t''" for c using targets.cluster_from [OF z] by fastforce
  ultimately show "cl_id ` set (some_of ys) \<inter> cl_id ` set (some_of xs) = {}" "cl_id ` set (some_of zs) \<inter> cl_id ` set (some_of xs @ some_of ys) = {}" by force+
qed

definition same_summary :: "correlation \<Rightarrow> correlation \<Rightarrow> bool" where
  "same_summary r s = (mset (co_clusters r) = mset (co_clusters s) \<and> co_status r = co_status s \<and> co_count r = co_count s \<and> co_top_score r = co_top_score s
     \<and> co_reasons r = co_reasons s \<and> co_evidence r = co_evidence s)"

text \<open>The order in which a set of addresses is walked changes nothing of a correlation but the order of its clusters: status, counts, scores, reasons and evidence are
  the same and so are the clusters, and a correlation that raises still raises the same.\<close>

theorem walk_order_only_moves_clusters:
  "(\<forall>r. correlate e events = Inr r \<longrightarrow> (\<exists>s. correlate (e\<lparr>ce_dst_first := f\<rparr>) events = Inr s \<and> same_summary r s))
   \<and> (\<forall>x. correlate e events = Inl x \<longrightarrow> correlate (e\<lparr>ce_dst_first := f\<rparr>) events = Inl x)"
proof (intro conjI allI impI)
  fix r assume "correlate e events = Inr r"
  then obtain qs xs ys zs where p: "emap place (to_payloads events) = Inr qs"
    and x: "emap (build_pair_cluster e) (grouped (concat (map pair_entries qs))) = Inr xs"
    and y: "emap (build_ip_cluster e) (grouped (concat (map (ip_entries e) qs))) = Inr ys"
    and z: "emap (build_target_cluster e) (grouped (concat (map target_entries qs))) = Inr zs"
    and r: "r = summarize (some_of xs @ some_of ys @ some_of zs)"
    by (rule correlate_parts)
  obtain ys' where y': "emap (build_ip_cluster e) (grouped (concat (map (ip_entries (e\<lparr>ce_dst_first := f\<rparr>)) qs))) = Inr ys'" "mset (some_of ys) = mset (some_of ys')"
    using ips.order_free(1) [OF walked_rows [OF p] y] by metis
  let ?s = "summarize (some_of xs @ some_of ys' @ some_of zs)"
  have "mset (co_clusters r) = mset (co_clusters ?s)" unfolding r
    by (rule summary_of_perm [OF y'(2) ips.distinct_ids [OF y distinct_grouped] targets.distinct_ids [OF z distinct_grouped] kinds_apart [OF x y z]])
  then have "same_summary r ?s" using summary_agrees unfolding r same_summary_def by blast
  moreover have "correlate (e\<lparr>ce_dst_first := f\<rparr>) events = Inr ?s"
    by (simp add: correlate_def p x y' z pairs.walk_free_emap ips.walk_free_emap targets.walk_free_emap)
  ultimately show "\<exists>s. correlate (e\<lparr>ce_dst_first := f\<rparr>) events = Inr s \<and> same_summary r s" by blast
next
  fix x assume a: "correlate e events = Inl x"
  show "correlate (e\<lparr>ce_dst_first := f\<rparr>) events = Inl x"
  proof (cases "emap place (to_payloads events)")
    case (Inr qs)
    let ?g = "\<lambda>e. grouped (concat (map (ip_entries e) qs))"
    show ?thesis
    proof (cases "emap (build_ip_cluster e) (?g e)")
      case (Inl y)
      then show ?thesis using a Inr ips.order_free(2) [OF walked_rows [OF Inr] Inl]
        by (auto simp: correlate_def ebind_Inl_iff pairs.walk_free_emap ips.walk_free_emap)
    next
      case (Inr ys)
      then show ?thesis using a \<open>emap place _ = _\<close> ips.order_free(1) [OF walked_rows [OF \<open>emap place _ = _\<close>] Inr, of "e\<lparr>ce_dst_first := f\<rparr>"]
        by (auto simp: correlate_def ebind_Inl_iff pairs.walk_free_emap ips.walk_free_emap targets.walk_free_emap)
    qed
  qed (use a in \<open>simp add: correlate_def\<close>)
qed

section \<open>Examples\<close>

definition ex_alert_row :: "string \<Rightarrow> string \<Rightarrow> pydict" where
  "ex_alert_row source ts = [(''event_id'', PStr source), (''source'', PStr source), (''ts'', PStr ts), (''attrs'', PDict [(''src_ip'', PStr ''a''), (''dst_ip'', PStr ''b'')])]"

definition ex_pair :: "cevent list" where
  "ex_pair = [EVal (PDict (ex_alert_row ''s1'' ''t'')), EObj (ex_alert_row ''s2'' ''t'')]"

text \<open>A parser that reads one text as a time without offset and no other text.\<close>

definition ex_corr :: corr_env where
  "ex_corr = \<lparr>ce_iso = (\<lambda>s. if s = ''n'' then Some (Naive 0) else None), ce_now = (\<lambda>_ _ _. 0), ce_dst_first = (\<lambda>_ _. False)\<rparr>"

lemma ex_pair_runs: "case correlate ex_corr ex_pair of Inl _ \<Rightarrow> False | Inr r \<Rightarrow> map cl_id (co_clusters r) = [''pair:a:b:0''] \<and> co_top_score r = 34"
  by code_simp

lemma ex_pair_correlates: "\<exists>r. correlate ex_corr ex_pair = Inr r \<and> map cl_id (co_clusters r) = [''pair:a:b:0''] \<and> co_top_score r = 34"
  using ex_pair_runs by (cases "correlate ex_corr ex_pair") auto

theorem clusters_are_the_supported_groups_witness:
  "\<exists>r. correlate ex_corr ex_pair = Inr r \<and> ''pair:a:b:0'' \<in> supported_ids (to_payloads ex_pair) \<and> (\<forall>c \<in> set (co_clusters r). 2 \<le> length (cl_sources c))"
proof -
  obtain r where r: "correlate ex_corr ex_pair = Inr r" "map cl_id (co_clusters r) = [''pair:a:b:0'']" using ex_pair_correlates by (elim exE conjE)
  have "set (map cl_id (co_clusters r)) = {''pair:a:b:0''}" unfolding r(2) by simp
  then have "''pair:a:b:0'' \<in> cl_id ` set (co_clusters r)" by auto
  then show ?thesis using clusters_are_the_supported_groups [OF r(1)] r(1) by (auto simp: backed_def)
qed

theorem walk_order_only_moves_clusters_witness:
  "\<exists>s. correlate (ex_corr\<lparr>ce_dst_first := \<lambda>_ _. True\<rparr>) ex_pair = Inr s \<and> co_top_score s = 34"
proof -
  obtain r where r: "correlate ex_corr ex_pair = Inr r" "co_top_score r = 34" using ex_pair_correlates by (elim exE conjE)
  obtain s where "correlate (ex_corr\<lparr>ce_dst_first := \<lambda>_ _. True\<rparr>) ex_pair = Inr s" "same_summary r s"
    using walk_order_only_moves_clusters [of ex_corr ex_pair "\<lambda>_ _. True"] r(1) by blast
  then show ?thesis using r(2) by (simp add: same_summary_def)
qed

text \<open>The order of the clusters is not fixed: three events between two addresses give two clusters of one score, in either order.\<close>

definition ex_three :: "cevent list" where
  "ex_three = [EObj (ex_alert_row ''s1'' ''t''), EObj (ex_alert_row ''s2'' ''t''), EObj (ex_alert_row ''s2'' ''t'')]"

lemma cluster_order_depends_on_the_walk:
  "map cl_id (co_clusters (projr (correlate ex_corr ex_three))) = [''pair:a:b:0'', ''ip:a'', ''ip:b'']
   \<and> map cl_id (co_clusters (projr (correlate (ex_corr\<lparr>ce_dst_first := \<lambda>_ _. True\<rparr>) ex_three))) = [''pair:a:b:0'', ''ip:b'', ''ip:a'']"
  by code_simp

text \<open>A group whose rows are dated partly with an offset and partly without ends the whole correlation: nothing is reported, not even the other groups.\<close>

lemma mixed_offsets_end_the_correlation:
  "correlate ex_corr (EObj (ex_alert_row ''s1'' ''n'') # EObj (ex_alert_row ''s2'' ''t'') # ex_pair) = Inl (TypeError [])"
  by code_simp

end
