(* ===== verification/PathSchema.thy ===== *)
theory PathSchema
  imports Values
begin

text \<open>
  Where the program keeps its files (\<open>path_schema.py\<close>): the candidates of each kind of file under the active naming schema, the newest name first. A path is
  the text \<open>pathlib\<close> gives it. The environment variables, the home directory and which paths exist are fields of the environment.
\<close>

section \<open>Paths\<close>

text \<open>\<open>str(Path(s))\<close>: empty and \<open>.\<close> components go, one or exactly two leading slashes stay.\<close>

definition path_text :: "string \<Rightarrow> string" where
  "path_text s =
     (let parts = filter (\<lambda>p. p \<noteq> [] \<and> p \<noteq> ''.'') (split_on (CHR ''/'') s);
          base = (if take 1 s \<noteq> ''/'' then [] else if take 2 s = ''//'' \<and> take 3 s \<noteq> ''///'' then ''//'' else ''/'');
          r = base @ join ''/'' parts
      in if r = [] then ''.'' else r)"

text \<open>\<open>p / q\<close> for a relative \<open>q\<close>.\<close>

definition path_join :: "string \<Rightarrow> string \<Rightarrow> string" where
  "path_join p q = path_text (if p \<noteq> [] \<and> last p = CHR ''/'' then p @ q else p @ ''/'' @ q)"

text \<open>\<open>p.parent\<close>.\<close>

definition path_parent :: "string \<Rightarrow> string" where
  "path_parent p =
     (let parts = filter (\<lambda>q. q \<noteq> [] \<and> q \<noteq> ''.'') (split_on (CHR ''/'') p);
          base = takeWhile (\<lambda>c. c = CHR ''/'') p;
          r = base @ join ''/'' (butlast parts)
      in if r = [] then ''.'' else r)"

section \<open>The schema\<close>

record path_env =
  pe_schema :: string
  pe_snapshot :: string
  pe_home :: string
  pe_exists :: "string \<Rightarrow> bool"

definition SUPPORTED_SCHEMAS :: "string list" where
  "SUPPORTED_SCHEMAS = [''v1'', ''v2'']"

definition env_schema :: "path_env \<Rightarrow> string" where
  "env_schema e = (let raw = py_lower (py_strip (pe_schema e)) in if raw \<in> set SUPPORTED_SCHEMAS then raw else [])"

definition active_schema :: "path_env \<Rightarrow> string" where
  "active_schema e =
     (if env_schema e \<noteq> [] then env_schema e
      else if pe_exists e ''/etc/default/azazel-edge'' \<or> pe_exists e ''/etc/azazel-edge'' then ''v2'' else ''v1'')"

text \<open>An argument that may be left out is an empty text.\<close>

definition order_for :: "path_env \<Rightarrow> string \<Rightarrow> string \<times> string" where
  "order_for e schema =
     (if py_lower (if schema \<noteq> [] then schema else active_schema e) = ''v2'' then (''azazel-edge'', ''azazel-gadget'') else (''azazel-gadget'', ''azazel-zero''))"

text \<open>The warning about a legacy path is given once per path: the paths already warned of and the message.\<close>

definition legacy_message :: "string \<Rightarrow> string" where
  "legacy_message p = ''Legacy path compatibility in use: '' @ p @ ''. This path is scheduled for removal after 2026-12-31.''"

definition warn_if_legacy_path :: "string \<Rightarrow> string list \<Rightarrow> string list \<times> string list" where
  "warn_if_legacy_path p warned =
     (if \<not> has_sub ''azazel-gadget'' p \<or> p \<in> set warned then (warned, []) else (warned @ [p], [legacy_message p]))"

section \<open>Candidates\<close>

text \<open>A home given as an empty text is the home of the user.\<close>

definition home_candidates :: "path_env \<Rightarrow> string \<Rightarrow> string \<Rightarrow> string \<times> string" where
  "home_candidates e schema home =
     (let (primary, legacy) = order_for e schema; h = (if home \<noteq> [] then home else pe_home e)
      in (path_join h (''.'' @ primary), path_join h (''.'' @ legacy)))"

definition dedupe_paths :: "string list \<Rightarrow> string list" where
  "dedupe_paths ps = foldl (\<lambda>acc p. if p \<in> set acc then acc else acc @ [p]) [] ps"

definition dirs_under :: "string \<Rightarrow> path_env \<Rightarrow> string \<Rightarrow> string \<times> string" where
  "dirs_under base e schema = (let (primary, legacy) = order_for e schema in (base @ primary, base @ legacy))"

definition runtime_dir_candidates :: "path_env \<Rightarrow> string \<Rightarrow> string \<times> string" where
  "runtime_dir_candidates = dirs_under ''/run/''"

definition log_dir_candidates :: "path_env \<Rightarrow> string \<Rightarrow> string \<times> string" where
  "log_dir_candidates = dirs_under ''/var/log/''"

definition config_dir_candidates :: "path_env \<Rightarrow> string \<Rightarrow> string \<times> string" where
  "config_dir_candidates = dirs_under ''/etc/''"

definition defaults_file_candidates :: "path_env \<Rightarrow> string \<Rightarrow> string \<times> string" where
  "defaults_file_candidates = dirs_under ''/etc/default/''"

definition both :: "string \<times> string \<Rightarrow> string \<Rightarrow> string list" where
  "both pq name = [path_join (fst pq) name, path_join (snd pq) name]"

definition snapshot_override_path :: "path_env \<Rightarrow> string option" where
  "snapshot_override_path e = (let raw = py_strip (pe_snapshot e) in if raw \<noteq> [] then Some (path_text raw) else None)"

definition in_run :: "string \<times> string \<Rightarrow> string \<Rightarrow> string list" where
  "in_run pq name = both (path_join (fst pq) ''run'', path_join (snd pq) ''run'') name"

definition snapshot_path_candidates :: "path_env \<Rightarrow> string \<Rightarrow> string \<Rightarrow> string list" where
  "snapshot_path_candidates e schema home =
     (let candidates = both (runtime_dir_candidates e schema) ''ui_snapshot.json'' @ in_run (home_candidates e schema home) ''ui_snapshot.json''
      in dedupe_paths (case snapshot_override_path e of None \<Rightarrow> candidates | Some p \<Rightarrow> p # candidates))"

definition command_path_candidates :: "path_env \<Rightarrow> string \<Rightarrow> string \<Rightarrow> string list" where
  "command_path_candidates e schema home =
     both (runtime_dir_candidates e schema) ''ui_command.json'' @ in_run (home_candidates e schema home) ''ui_command.json''"

definition first_minute_config_candidates :: "path_env \<Rightarrow> string \<Rightarrow> string list" where
  "first_minute_config_candidates e schema = both (config_dir_candidates e schema) ''first_minute.yaml''"

definition mode_state_candidates :: "path_env \<Rightarrow> string \<Rightarrow> string list" where
  "mode_state_candidates e schema = dedupe_paths (''/etc/azazel/mode.json'' # both (config_dir_candidates e schema) ''mode.json'')"

definition opencanary_config_candidates :: "path_env \<Rightarrow> string \<Rightarrow> string option \<Rightarrow> string list" where
  "opencanary_config_candidates e schema repo_root =
     dedupe_paths (''/etc/opencanaryd/opencanary.conf'' # both (config_dir_candidates e schema) ''opencanary.conf''
       @ (case repo_root of None \<Rightarrow> [] | Some r \<Rightarrow> [path_join (path_join r ''configs'') ''opencanary.conf'']))"

definition runtime_snapshot_path_candidates :: "path_env \<Rightarrow> string \<Rightarrow> string \<Rightarrow> string list" where
  "runtime_snapshot_path_candidates e schema home =
     (case snapshot_override_path e of
        Some p \<Rightarrow> [p]
      | None \<Rightarrow>
          (let paths = filter (\<lambda>p. take 5 p = ''/run/'') (snapshot_path_candidates e schema home)
           in if paths \<noteq> [] then paths else take 2 (snapshot_path_candidates e schema home)))"

definition portal_env_candidates :: "path_env \<Rightarrow> string \<Rightarrow> string list" where
  "portal_env_candidates e schema = both (config_dir_candidates e schema) ''portal-viewer.env''"

definition web_token_candidates :: "path_env \<Rightarrow> string \<Rightarrow> string \<Rightarrow> string list" where
  "web_token_candidates e schema home = both (home_candidates e schema home) ''web_token.txt''"

definition wifi_health_path_candidates :: "path_env \<Rightarrow> string \<Rightarrow> string \<Rightarrow> string option \<Rightarrow> string list" where
  "wifi_health_path_candidates e schema home repo_root =
     dedupe_paths (both (runtime_dir_candidates e schema) ''wifi_health.json'' @ in_run (home_candidates e schema home) ''wifi_health.json''
       @ (case repo_root of
            None \<Rightarrow> []
          | Some r \<Rightarrow> in_run (path_join r (''.'' @ fst (order_for e schema)), path_join r (''.'' @ snd (order_for e schema))) ''wifi_health.json''))"

text \<open>\<open>options[0]\<close> of no options raises.\<close>

definition choose_read_path :: "path_env \<Rightarrow> string list \<Rightarrow> string option" where
  "choose_read_path e paths =
     (case find (pe_exists e) paths of Some p \<Rightarrow> Some p | None \<Rightarrow> (case paths of [] \<Rightarrow> None | p # _ \<Rightarrow> Some p))"

section \<open>Lemmas\<close>

lemma dedupe_snoc: "dedupe_paths (ps @ [p]) = (if p \<in> set ps then dedupe_paths ps else dedupe_paths ps @ [p])"
proof -
  have "set (dedupe_paths ps) = set ps" by (induction ps rule: rev_induct) (auto simp: dedupe_paths_def)
  then show ?thesis by (simp add: dedupe_paths_def)
qed

lemma set_dedupe [simp]: "set (dedupe_paths ps) = set ps"
  by (induction ps rule: rev_induct) (auto simp: dedupe_snoc, simp add: dedupe_paths_def)

lemma distinct_dedupe [simp]: "distinct (dedupe_paths ps)"
  by (induction ps rule: rev_induct) (auto simp: dedupe_snoc, simp add: dedupe_paths_def)

lemma runtime_snapshot_nonempty: "runtime_snapshot_path_candidates e schema home \<noteq> []"
proof -
  have "set (snapshot_path_candidates e schema home) \<noteq> {}" by (simp add: snapshot_path_candidates_def both_def Let_def split: option.splits)
  then have "snapshot_path_candidates e schema home \<noteq> []" by (metis list.set(1))
  then show ?thesis by (auto simp: runtime_snapshot_path_candidates_def Let_def split: option.splits)
qed

end
