(* ===== verification/ControlPlane.thy ===== *)
theory ControlPlane
  imports PathSchema
begin

text \<open>
  The client of the control daemon (\<open>control_plane.py\<close>): one request on the control socket, the snapshot stream, and the command file left behind when a request
  never reached the daemon. What the socket, the file system and the JSON parser answer are fields of the environment; the model returns what was sent and
  written next to the result.
\<close>

section \<open>The environment\<close>

text \<open>An exception caught by the client: its type, its text and its \<open>strerror\<close>.\<close>

record failure =
  f_name :: string
  f_text :: string
  f_strerror :: string

definition denied :: "failure \<Rightarrow> bool" where
  "denied f = (f_name f = ''PermissionError'')"

datatype probe = Present | Absent | ProbeFails failure

datatype conn = Connected | NoSocket failure | ConnFails failure

text \<open>A receive gives bytes, none when the daemon has closed, or fails.\<close>

datatype recv = Chunk string | RecvFails failure

datatype file_write = WriteOk | WriteNothing | WriteTorn

record ctl_env =
  se_path :: string
  se_probe :: probe
  se_probe_again :: probe
  se_access :: bool
  se_encode :: "pydict \<Rightarrow> string + string"
  se_connect :: conn
  se_sendall :: "failure option"
  se_recv :: "recv list"
  se_decode_replace :: "string \<Rightarrow> string"
  se_decode_ignore :: "string \<Rightarrow> string"
  se_loads :: "string \<Rightarrow> string + pyval"
  se_time :: pyval
  se_paths :: path_env
  se_exists :: "string \<Rightarrow> pyexc + bool"
  se_read :: "string \<Rightarrow> pyexc + pyval"
  se_write :: "string \<Rightarrow> file_write"

text \<open>What left the client, and the legacy paths it has warned of.\<close>

datatype cp_effect = Sent string | Wrote string pydict | Tore string

record cp_world =
  cp_effects :: "cp_effect list"
  cp_warned :: "string list"

definition happened :: "cp_effect \<Rightarrow> cp_world \<Rightarrow> cp_world" where
  "happened x w = w\<lparr>cp_effects := cp_effects w @ [x]\<rparr>"

definition not_ok :: "string \<Rightarrow> string list \<Rightarrow> pydict" where
  "not_ok err flags = (''ok'', PBool False) # (''error'', PStr err) # map (\<lambda>k. (k, PBool True)) flags"

section \<open>One request\<close>

definition CONTROL_GROUP :: string where
  "CONTROL_GROUP = ''azazel-control''"

definition permission_denied_reply :: "string \<Rightarrow> failure \<Rightarrow> pydict" where
  "permission_denied_reply path f =
     [(''ok'', PBool False), (''permission_denied'', PBool True),
      (''error'', PStr (''permission denied: '' @ path @ '' ('' @ (if f_strerror f \<noteq> [] then f_strerror f else f_name f) @ ''); the user must be in the ''
         @ CONTROL_GROUP @ '' group''))]"

definition control_socket_access_error :: "ctl_env \<Rightarrow> pyexc + string option" where
  "control_socket_access_error e =
     (case se_probe e of
        ProbeFails f \<Rightarrow> Inr (if denied f then Some (py_str (dget (permission_denied_reply (se_path e) f) ''error'')) else None)
      | _ \<Rightarrow>
          (case se_probe_again e of
             ProbeFails f \<Rightarrow> Inl (OSError (f_text f))
           | Absent \<Rightarrow> Inr None
           | Present \<Rightarrow>
               Inr (if se_access e then None
                    else Some (py_str (dget (permission_denied_reply (se_path e)
                           \<lparr>f_name = ''PermissionError'', f_text = ''[Errno 13] Permission denied'', f_strerror = ''Permission denied''\<rparr>) ''error'')))))"

definition NEWLINE :: char where
  "NEWLINE = CHR 0x0A"

fun recv_reply :: "recv list \<Rightarrow> string list \<Rightarrow> failure option \<times> string list" where
  "recv_reply [] chunks = (None, chunks)"
| "recv_reply (RecvFails f # rs) chunks = (Some f, chunks)"
| "recv_reply (Chunk c # rs) chunks =
     (if c = [] then (None, chunks)
      else if NEWLINE \<in> set c then (None, chunks @ [c])
      else recv_reply rs (chunks @ [c]))"

definition is_line_break :: "char \<Rightarrow> bool" where
  "is_line_break c = (let n = of_char c :: nat in n = 10 \<or> n = 11 \<or> n = 12 \<or> n = 13 \<or> n = 28 \<or> n = 29 \<or> n = 30)"

text \<open>The daemon's reply, read from the bytes it sent.\<close>

definition parse_reply :: "ctl_env \<Rightarrow> string list \<Rightarrow> pydict" where
  "parse_reply e chunks =
     (let text = py_strip (se_decode_replace e (concat chunks)) in
      if text = [] then not_ok ''no reply from the control daemon: closed before a reply'' [''delivery_unknown'']
      else
        (case se_loads e (takeWhile (\<lambda>c. \<not> is_line_break c) text) of
           Inl name \<Rightarrow> not_ok (''invalid response: '' @ name) []
         | Inr (PDict reply) \<Rightarrow> reply
         | Inr _ \<Rightarrow> not_ok ''invalid response: not an object'' []))"

definition exchange :: "ctl_env \<Rightarrow> pydict" where
  "exchange e =
     (let (failed, chunks) = (case se_sendall e of Some f \<Rightarrow> (Some f, []) | None \<Rightarrow> recv_reply (se_recv e) [])
      in case failed of
           Some f \<Rightarrow>
             (if chunks = [] then not_ok (''no reply from the control daemon: '' @ f_text f) [''delivery_unknown'']
              else not_ok (''invalid response: incomplete reply ('' @ f_text f @ ''); the daemon received the request and may have carried it out'') [])
         | None \<Rightarrow> parse_reply e chunks)"

definition socket_request :: "ctl_env \<Rightarrow> pydict \<Rightarrow> cp_world \<Rightarrow> (pyexc + pydict) \<times> cp_world" where
  "socket_request e payload w =
     (case se_encode e payload of
        Inl x \<Rightarrow> (Inr (not_ok (''request not serializable: '' @ x) []), w)
      | Inr bytes \<Rightarrow>
          (case se_probe e of
             ProbeFails f \<Rightarrow> (if denied f then Inr (permission_denied_reply (se_path e) f) else Inl (OSError (f_text f)), w)
           | Absent \<Rightarrow> (Inr (not_ok (''control socket not found: '' @ se_path e) [''transport_error'']), w)
           | Present \<Rightarrow>
               (case se_connect e of
                  Connected \<Rightarrow> (Inr (exchange e), happened (Sent (bytes @ [NEWLINE])) w)
                | NoSocket f \<Rightarrow> (Inr (if denied f then permission_denied_reply (se_path e) f else not_ok (f_text f) [''transport_error'']), w)
                | ConnFails f \<Rightarrow> (Inr (if denied f then permission_denied_reply (se_path e) f else not_ok (f_text f) [''transport_error'']), w))))"

definition send_action :: "ctl_env \<Rightarrow> string \<Rightarrow> pyval option \<Rightarrow> cp_world \<Rightarrow> (pyexc + pydict) \<times> cp_world" where
  "send_action e action params w =
     socket_request e ([(''action'', PStr action), (''ts'', se_time e)] @ (case params of None \<Rightarrow> [] | Some p \<Rightarrow> [(''params'', p)])) w"

section \<open>Snapshots\<close>

definition read_snapshot_from_control_plane :: "ctl_env \<Rightarrow> cp_world \<Rightarrow> (pyexc + pydict option) \<times> cp_world" where
  "read_snapshot_from_control_plane e w =
     (case send_action e ''get_snapshot'' None w of
        (r, w1) \<Rightarrow> (ebind r (\<lambda>resp. Inr (if truthy (dget resp ''ok'') \<and> is_dict (dget resp ''snapshot'') then Some (dict_of (dget resp ''snapshot'')) else None)), w1))"

text \<open>The lines of the stream in turn: the snapshots so far, the last error the daemon gave, and the exception a line raised.\<close>

fun watch_lines :: "ctl_env \<Rightarrow> string list \<Rightarrow> pydict list \<Rightarrow> string \<Rightarrow> pydict list \<times> string \<times> string option" where
  "watch_lines e [] ys err = (ys, err, None)"
| "watch_lines e (line # lines) ys err =
     (let text = py_strip (se_decode_ignore e line) in
      if text = [] then watch_lines e lines ys err
      else
        (case se_loads e text of
           Inl name \<Rightarrow> (ys, err, Some name)
         | Inr payload \<Rightarrow>
             (let d = dict_of payload in
              if is_dict payload \<and> truthy (dget d ''ok'') \<and> is_dict (dget d ''snapshot'') then watch_lines e lines (ys @ [dict_of (dget d ''snapshot'')]) []
              else if is_dict payload \<and> dget d ''ok'' = PBool False
              then watch_lines e lines ys (take_chars 64 (py_str (py_or (dget d ''error'') (PStr ''daemon_error''))))
              else watch_lines e lines ys err)))"

fun watch_loop :: "ctl_env \<Rightarrow> string \<Rightarrow> string \<Rightarrow> pydict list \<Rightarrow> recv list \<Rightarrow> pydict list \<times> string" where
  "watch_loop e buffer err ys [] = (ys, if err \<noteq> [] then err else ''stream_closed'')"
| "watch_loop e buffer err ys (RecvFails f # rs) = (ys, ''stream_error:'' @ f_name f)"
| "watch_loop e buffer err ys (Chunk c # rs) =
     (if c = [] then (ys, if err \<noteq> [] then err else ''stream_closed'')
      else
        (let parts = split_on NEWLINE (buffer @ c) in
         case watch_lines e (butlast parts) ys err of
           (ys', err', Some name) \<Rightarrow> (ys', ''stream_error:'' @ name)
         | (ys', err', None) \<Rightarrow> watch_loop e (last parts) err' ys' rs))"

text \<open>A consumer that reads the stream to its end: the snapshots it is given and the reason the stream ended.\<close>

definition watch_snapshots :: "ctl_env \<Rightarrow> pyfloat \<Rightarrow> cp_world \<Rightarrow> (pyexc + pydict list \<times> string) \<times> cp_world" where
  "watch_snapshots e interval w =
     (case se_probe e of
        ProbeFails f \<Rightarrow> (if denied f then Inr ([], ''permission_denied'') else Inl (OSError (f_text f)), w)
      | Absent \<Rightarrow> (Inr ([], ''socket_missing''), w)
      | Present \<Rightarrow>
          (case se_connect e of
             NoSocket f \<Rightarrow> (Inr ([], ''stream_error:'' @ f_name f), w)
           | ConnFails f \<Rightarrow> (Inr ([], if denied f then ''permission_denied'' else ''stream_error:'' @ f_name f), w)
           | Connected \<Rightarrow>
               (case se_encode e [(''action'', PStr ''watch_snapshot''), (''params'', PDict [(''interval_sec'', PFloat interval)])] of
                  Inl x \<Rightarrow> (Inr ([], ''stream_error:ValueError''), w)
                | Inr bytes \<Rightarrow>
                    (Inr (case se_sendall e of Some f \<Rightarrow> ([], ''stream_error:'' @ f_name f) | None \<Rightarrow> watch_loop e [] [] [] (se_recv e)),
                     happened (Sent (bytes @ [NEWLINE])) w))))"

definition warned :: "string \<Rightarrow> cp_world \<Rightarrow> cp_world" where
  "warned p w = w\<lparr>cp_warned := fst (warn_if_legacy_path p (cp_warned w))\<rparr>"

fun first_snapshot :: "ctl_env \<Rightarrow> string list \<Rightarrow> cp_world \<Rightarrow> (pyval \<times> string) option \<times> cp_world" where
  "first_snapshot e [] w = (None, w)"
| "first_snapshot e (p # ps) w =
     (case se_exists e p of
        Inr True \<Rightarrow> (case se_read e p of Inr v \<Rightarrow> (Some (v, p), warned p w) | Inl _ \<Rightarrow> first_snapshot e ps (warned p w))
      | _ \<Rightarrow> first_snapshot e ps w)"

definition read_snapshot_from_files :: "ctl_env \<Rightarrow> cp_world \<Rightarrow> (pyval \<times> string) option \<times> cp_world" where
  "read_snapshot_from_files e w = first_snapshot e (runtime_snapshot_path_candidates (se_paths e) [] []) w"

definition snapshot_from_files :: "ctl_env \<Rightarrow> cp_world \<Rightarrow> (pyval \<times> string) \<times> cp_world" where
  "snapshot_from_files e w =
     (case read_snapshot_from_files e w of
        (Some (v, p), w1) \<Rightarrow> (if v = PNone then (PNone, ''NONE'') else (v, ''FILE:'' @ p), w1)
      | (None, w1) \<Rightarrow> ((PNone, ''NONE''), w1))"

definition read_snapshot_payload :: "ctl_env \<Rightarrow> bool \<Rightarrow> cp_world \<Rightarrow> (pyexc + pyval \<times> string) \<times> cp_world" where
  "read_snapshot_payload e prefer w =
     (if prefer then
        (case read_snapshot_from_control_plane e w of
           (Inl x, w1) \<Rightarrow> (Inl x, w1)
         | (Inr (Some snap), w1) \<Rightarrow> (Inr (PDict snap, ''CONTROL_PLANE''), w1)
         | (Inr None, w1) \<Rightarrow> (case snapshot_from_files e w1 of (r, w2) \<Rightarrow> (Inr r, w2)))
      else (case snapshot_from_files e w of (r, w2) \<Rightarrow> (Inr r, w2)))"

section \<open>The command file\<close>

fun usable_path :: "ctl_env \<Rightarrow> string list \<Rightarrow> pyexc + string option" where
  "usable_path e [] = Inr None"
| "usable_path e (p # ps) =
     ebind (se_exists e p) (\<lambda>here.
       if here then Inr (Some p)
       else ebind (se_exists e (path_parent p)) (\<lambda>dir. if dir then Inr (Some p) else usable_path e ps))"

definition write_command_file_fallback :: "ctl_env \<Rightarrow> string \<Rightarrow> string option \<Rightarrow> cp_world \<Rightarrow> (pyexc + string option) \<times> cp_world" where
  "write_command_file_fallback e action explicit w =
     (let candidates = (case explicit of Some p \<Rightarrow> [p] | None \<Rightarrow> command_path_candidates (se_paths e) [] []) in
      case usable_path e candidates of
        Inl x \<Rightarrow> (Inl x, w)
      | Inr found \<Rightarrow>
          (let out = (case found of Some p \<Rightarrow> p | None \<Rightarrow> hd candidates) in
           case se_write e out of
             WriteOk \<Rightarrow> (Inr (Some out), warned out (happened (Wrote out [(''ts'', se_time e), (''action'', PStr action)]) w))
           | WriteNothing \<Rightarrow> (Inr None, w)
           | WriteTorn \<Rightarrow> (Inr None, happened (Tore out) w)))"

definition undelivered_reply :: "ctl_env \<Rightarrow> string \<Rightarrow> pydict \<Rightarrow> string \<Rightarrow> pydict" where
  "undelivered_reply e action resp path =
     [(''ok'', PBool False), (''action'', PStr action), (''undelivered'', PBool True), (''fallback'', PStr ''command_file''), (''path'', PStr path),
      (''error'', PStr (''control daemon not reached ('' @ py_str (dget resp ''error'') @ ''); the request was written to '' @ path
         @ '', which nothing in Azazel-Edge reads: not delivered'')),
      (''ts'', se_time e)]"

definition send_action_with_fallback :: "ctl_env \<Rightarrow> string \<Rightarrow> pyval option \<Rightarrow> string option \<Rightarrow> cp_world \<Rightarrow> (pyexc + pydict) \<times> cp_world" where
  "send_action_with_fallback e action params explicit w =
     (case send_action e action params w of
        (Inl x, w1) \<Rightarrow> (Inl x, w1)
      | (Inr resp, w1) \<Rightarrow>
          (if truthy (dget resp ''ok'') \<or> \<not> truthy (dget resp ''transport_error'') then (Inr resp, w1)
           else
             (case write_command_file_fallback e action explicit w1 of
                (Inl x, w2) \<Rightarrow> (Inl x, w2)
              | (Inr None, w2) \<Rightarrow> (Inr resp, w2)
              | (Inr (Some path), w2) \<Rightarrow> (Inr (undelivered_reply e action resp path), w2))))"

definition BULLET :: string where
  "BULLET = utf8 [8226, 32]"

definition describe_action_failure :: "pyval \<Rightarrow> string \<Rightarrow> string" where
  "describe_action_failure result label =
     (case result of
        PDict r \<Rightarrow>
          (if truthy (dget r ''not_implemented'') \<or> dget r ''error'' = PStr ''not_implemented''
           then BULLET @ ''action not implemented: '' @ label @ '' (nothing was done)''
           else if truthy (dget r ''permission_denied'')
           then BULLET @ ''action not sent: '' @ label @ '' (no permission for the control socket; the user must be in the '' @ CONTROL_GROUP @ '' group)''
           else if truthy (dget r ''undelivered'') then BULLET @ ''action not delivered: '' @ label @ '' (control daemon not reached)''
           else if truthy (dget r ''delivery_unknown'')
           then BULLET @ ''no reply from the control daemon: '' @ label @ '' (it may have been carried out; check the state before running it again)''
           else BULLET @ ''action failed: '' @ label @ '' ('' @ py_str (dget_or r ''error'' (PStr ''unknown error'')) @ '')'')
      | _ \<Rightarrow> BULLET @ ''action failed: '' @ label @ '' (unexpected response)'')"

end
