(* ===== verification/ControlPlaneProperties.thy ===== *)
theory ControlPlaneProperties
  imports ControlPlane
begin

text \<open>
  What a caller of the control client may rely on: a request leaves the client once at most, as bytes on the socket or as a command file, a success is the daemon's
  own, and the snapshots of a stream do not depend on how its bytes were cut.
\<close>

section \<open>Sending\<close>

lemma not_ok_ok [simp]: "dget (not_ok err flags) ''ok'' = PBool False"
  by (simp add: not_ok_def dict_simps)

lemma not_ok_flag: "k \<notin> set flags \<Longrightarrow> k \<noteq> ''ok'' \<Longrightarrow> k \<noteq> ''error'' \<Longrightarrow> dget (not_ok err flags) k = PNone"
  by (induction flags) (auto simp: not_ok_def dget_def)

lemma denied_reply [simp]:
  "dget (permission_denied_reply p f) ''ok'' = PBool False" "dget (permission_denied_reply p f) ''transport_error'' = PNone"
  by (simp_all add: permission_denied_reply_def dict_simps)

lemma undelivered_fields [simp]:
  "dget (undelivered_reply e a r p) ''ok'' = PBool False" "dget (undelivered_reply e a r p) ''undelivered'' = PBool True"
  by (simp_all add: undelivered_reply_def dict_simps)

lemma happened_effects [simp]: "cp_effects (happened x w) = cp_effects w @ [x]" "cp_effects (warned p w) = cp_effects w"
  by (simp_all add: happened_def warned_def)

definition daemon_reply :: "ctl_env \<Rightarrow> pydict \<Rightarrow> bool" where
  "daemon_reply e r = (\<exists>text. se_loads e text = Inr (PDict r))"

lemma exchange_reply: "daemon_reply e (exchange e) \<or> (\<exists>err flags. exchange e = not_ok err flags \<and> ''transport_error'' \<notin> set flags)"
proof -
  have "daemon_reply e (parse_reply e cs) \<or> (\<exists>err flags. parse_reply e cs = not_ok err flags \<and> ''transport_error'' \<notin> set flags)" for cs
    by (auto simp: parse_reply_def daemon_reply_def Let_def split: sum.splits pyval.splits) fastforce+
  then show ?thesis by (simp add: exchange_def split_beta split: option.splits) fastforce
qed

text \<open>A request is sent, and the reply is that of the exchange, or nothing leaves and the reply is not a success.\<close>

lemma request_effect:
  assumes "socket_request e payload w = (r, w1)"
  shows "(\<exists>bytes. w1 = happened (Sent bytes) w \<and> r = Inr (exchange e)) \<or> (w1 = w \<and> (\<forall>d. r = Inr d \<longrightarrow> dget d ''ok'' = PBool False))"
  using assms by (auto simp: socket_request_def split: sum.splits probe.splits conn.splits if_splits)

lemma fallback_effect:
  assumes "write_command_file_fallback e a x w = (r, w1)"
  shows "(\<exists>p d. cp_effects w1 = cp_effects w @ [Wrote p d] \<and> r = Inr (Some p)) \<or> (\<exists>p. cp_effects w1 = cp_effects w @ [Tore p] \<and> r = Inr None)
     \<or> (cp_effects w1 = cp_effects w \<and> (\<forall>p. r \<noteq> Inr (Some p)))"
  using assms by (auto simp: write_command_file_fallback_def Let_def split: sum.splits file_write.splits)

text \<open>C14. An action leaves the client once at most. What the caller is told is a success only if the request went to the daemon and the daemon's own reply says so, and a
  command file is written only for a request of which nothing was sent, reported as not done. The daemon's replies are taken not to claim a transport error.\<close>

theorem action_leaves_the_client_once:
  assumes "\<And>d. daemon_reply e d \<Longrightarrow> \<not> truthy (dget d ''transport_error'')"
    and "send_action_with_fallback e action params explicit w = (r, w')"
  shows "\<exists>fx. cp_effects w' = cp_effects w @ fx \<and> length fx \<le> 1
    \<and> (\<forall>d. r = Inr d \<and> truthy (dget d ''ok'') \<longrightarrow> (\<exists>bytes. fx = [Sent bytes]) \<and> daemon_reply e d)
    \<and> (\<forall>p c. Wrote p c \<in> set fx \<longrightarrow> (\<exists>d. r = Inr d \<and> dget d ''ok'' = PBool False \<and> dget d ''undelivered'' = PBool True))"
proof -
  obtain s w1 where s: "send_action e action params w = (s, w1)" by force
  then have "(\<exists>bytes. w1 = happened (Sent bytes) w \<and> s = Inr (exchange e)) \<or> (w1 = w \<and> (\<forall>d. s = Inr d \<longrightarrow> dget d ''ok'' = PBool False))"
    using request_effect unfolding send_action_def by blast
  then show ?thesis
  proof
    assume "\<exists>bytes. w1 = happened (Sent bytes) w \<and> s = Inr (exchange e)"
    then obtain bytes where b: "w1 = happened (Sent bytes) w" "s = Inr (exchange e)" by blast
    have "\<not> truthy (dget (exchange e) ''transport_error'')"
      using exchange_reply [of e] assms(1) by (auto simp: not_ok_flag)
    then have "r = Inr (exchange e)" "w' = w1" using assms(2) by (simp_all add: send_action_with_fallback_def s b)
    moreover have "truthy (dget (exchange e) ''ok'') \<Longrightarrow> daemon_reply e (exchange e)" using exchange_reply [of e] by auto
    ultimately show ?thesis using b by (intro exI [of _ "[Sent bytes]"]) auto
  next
    assume n: "w1 = w \<and> (\<forall>d. s = Inr d \<longrightarrow> dget d ''ok'' = PBool False)"
    obtain f w2 where f: "write_command_file_fallback e action explicit w = (f, w2)" by force
    show ?thesis using assms(2) n fallback_effect [OF f]
      by (auto simp: send_action_with_fallback_def s f split: sum.splits option.splits if_splits)
  qed
qed

section \<open>The stream\<close>

lemma split_on_nonempty [simp]: "split_on c s \<noteq> []"
  by (induction s) (auto split: list.splits)

lemma split_on_append: "split_on c (x @ y) = butlast (split_on c x) @ split_on c (last (split_on c x) @ y)"
proof (induction x)
  case (Cons a x)
  obtain p ps where p: "split_on c x = p # ps" by (metis neq_Nil_conv split_on_nonempty)
  obtain q qs where q: "split_on c (last (split_on c x) @ y) = q # qs" by (metis neq_Nil_conv split_on_nonempty)
  show ?case using Cons.IH p q by (auto split: list.splits)
qed simp

lemma watch_lines_append:
  "watch_lines e (xs @ ys) zs err = (case watch_lines e xs zs err of (zs', err', Some n) \<Rightarrow> (zs', err', Some n) | (zs', err', None) \<Rightarrow> watch_lines e ys zs' err')"
  by (induction xs arbitrary: zs err) (simp_all add: Let_def split: sum.splits)

text \<open>Two receives in a row are one.\<close>

lemma split_last_no_break: "NEWLINE \<notin> set (last (split_on NEWLINE s))"
  by (induction s) (auto split: list.splits)

lemma watch_two:
  assumes "c \<noteq> []" "d \<noteq> []"
  shows "watch_loop e b err ys (Chunk c # Chunk d # rs) = watch_loop e b err ys (Chunk (c @ d) # rs)"
proof -
  let ?p = "split_on NEWLINE (b @ c)" and ?q = "split_on NEWLINE (last (split_on NEWLINE (b @ c)) @ d)"
  have s: "split_on NEWLINE (b @ c @ d) = butlast ?p @ ?q" using split_on_append [of NEWLINE "b @ c" d] by simp
  show ?thesis using assms
    by (auto simp: s butlast_append watch_lines_append Let_def split: option.splits prod.splits)
qed

lemma watch_merged: "\<forall>c \<in> set cs. c \<noteq> [] \<Longrightarrow> cs \<noteq> [] \<Longrightarrow> watch_loop e b err ys (map Chunk cs @ rs) = watch_loop e b err ys (Chunk (concat cs) # rs)"
proof (induction cs rule: length_induct)
  case (1 cs)
  show ?case
  proof (cases cs)
    case Nil then show ?thesis using 1 by simp
  next
    case (Cons c ds)
    show ?thesis
    proof (cases ds)
      case Nil then show ?thesis using Cons by simp
    next
      case (Cons d es)
      then show ?thesis using 1 \<open>cs = c # ds\<close> watch_two [of c d e b err ys] by (auto dest!: spec [of _ "(c @ d) # es"])
    qed
  qed
qed

lemma watch_lines_recv [simp]: "watch_lines (e\<lparr>se_recv := r\<rparr>) ls ys err = watch_lines e ls ys err"
  by (induction e ls ys err rule: watch_lines.induct) (simp_all add: Let_def split: sum.splits)

lemma watch_loop_recv [simp]: "watch_loop (e\<lparr>se_recv := r\<rparr>) b err ys rs = watch_loop e b err ys rs"
  by (induction e b err ys rs rule: watch_loop.induct) (simp_all add: Let_def split: prod.splits option.splits)

lemma watch_same_bytes:
  assumes "\<forall>c \<in> set cs \<union> set ds. c \<noteq> []" and "concat cs = concat ds"
  shows "watch_loop e b err ys (map Chunk cs @ rs) = watch_loop e b err ys (map Chunk ds @ rs)"
proof (cases "cs = []")
  case True
  then have "ds = []" using assms by (cases ds) auto
  then show ?thesis using True by simp
next
  case False
  then have "ds \<noteq> []" using assms by (cases cs) auto
  then show ?thesis using assms False by (simp add: watch_merged)
qed

text \<open>C34. What the snapshot stream yields, and why it ends, depends on the bytes received and on how the stream ended, not on how the bytes were cut into receives.\<close>

theorem stream_does_not_depend_on_the_cuts:
  assumes "\<forall>c \<in> set cs \<union> set ds. c \<noteq> []" and "concat cs = concat ds"
  shows "watch_snapshots (e\<lparr>se_recv := map Chunk cs @ rs\<rparr>) i w = watch_snapshots (e\<lparr>se_recv := map Chunk ds @ rs\<rparr>) i w"
  using watch_same_bytes [OF assms] by (simp add: watch_snapshots_def split: probe.split conn.split sum.split option.split)

section \<open>Examples\<close>

text \<open>No socket, and a command file that can be written. A parser that reads one line as a snapshot.\<close>

definition ex_control :: ctl_env where
  "ex_control = \<lparr>se_path = ''/run/s'', se_probe = Absent, se_probe_again = Absent, se_access = True, se_encode = (\<lambda>_. Inr ''r''), se_connect = Connected, se_sendall = None,
     se_recv = [], se_decode_replace = id, se_decode_ignore = id,
     se_loads = (\<lambda>s. if s = ''ab'' then Inr (PDict [(''ok'', PBool True), (''snapshot'', PDict [])]) else Inl ''JSONDecodeError''), se_time = PInt 0,
     se_paths = \<lparr>pe_schema = [], pe_snapshot = [], pe_home = ''/root'', pe_exists = (\<lambda>_. False)\<rparr>, se_exists = (\<lambda>_. Inr True), se_read = (\<lambda>_. Inl (OSError [])),
     se_write = (\<lambda>_. WriteOk)\<rparr>"

theorem action_leaves_the_client_once_witness:
  "\<exists>d w'. send_action_with_fallback ex_control ''refresh'' None (Some ''/f'') \<lparr>cp_effects = [], cp_warned = []\<rparr> = (Inr d, w')
     \<and> dget d ''undelivered'' = PBool True \<and> (\<exists>c. cp_effects w' = [Wrote ''/f'' c])"
proof -
  have h: "\<not> truthy (dget d ''transport_error'')" if "daemon_reply ex_control d" for d
    using that by (auto simp: daemon_reply_def ex_control_def dget_Cons dget_Nil split: if_splits)
  obtain d w' where r: "send_action_with_fallback ex_control ''refresh'' None (Some ''/f'') \<lparr>cp_effects = [], cp_warned = []\<rparr> = (Inr d, w')"
      "cp_effects w' = [Wrote ''/f'' [(''ts'', PInt 0), (''action'', PStr ''refresh'')]]"
    by (simp add: send_action_with_fallback_def send_action_def socket_request_def write_command_file_fallback_def ex_control_def not_ok_def dict_simps happened_def warned_def Let_def)
  then have "dget d ''undelivered'' = PBool True" using action_leaves_the_client_once [OF h r(1)] by auto
  then show ?thesis using r by blast
qed

theorem stream_does_not_depend_on_the_cuts_witness:
  "watch_snapshots (ex_control\<lparr>se_probe := Present, se_recv := [Chunk ''a'', Chunk [CHR ''b'', NEWLINE]]\<rparr>) (FFin 1 ''1.0'') \<lparr>cp_effects = [], cp_warned = []\<rparr>
   = (Inr ([[]], ''stream_closed''), \<lparr>cp_effects = [Sent [CHR ''r'', NEWLINE]], cp_warned = []\<rparr>)"
proof -
  have "watch_snapshots (ex_control\<lparr>se_probe := Present, se_recv := map Chunk [''a'', [CHR ''b'', NEWLINE]] @ []\<rparr>) (FFin 1 ''1.0'') \<lparr>cp_effects = [], cp_warned = []\<rparr>
    = watch_snapshots (ex_control\<lparr>se_probe := Present, se_recv := map Chunk [[CHR ''a'', CHR ''b'', NEWLINE]] @ []\<rparr>) (FFin 1 ''1.0'') \<lparr>cp_effects = [], cp_warned = []\<rparr>"
    by (rule stream_does_not_depend_on_the_cuts) simp_all
  also have "\<dots> = (Inr ([[]], ''stream_closed''), \<lparr>cp_effects = [Sent [CHR ''r'', NEWLINE]], cp_warned = []\<rparr>)" by code_simp
  finally show ?thesis by simp
qed

end
