(* ===== verification/ConfigDrift.thy ===== *)
theory ConfigDrift
  imports PathSchema AuditChain
begin

text \<open>
  Configuration drift (\<open>config_drift.py\<close>): a baseline of configuration files or of a health configuration snapshot is written once and later compared with the
  present. Files are what reading them gives; the baseline file holds the value its JSON text denotes, or what reading it raises.
\<close>

section \<open>Python equality\<close>

text \<open>\<open>==\<close> does not tell \<open>True\<close>, \<open>1\<close> and \<open>1.0\<close> apart nor dictionaries by the order of their keys, and NaN equals nothing.\<close>

fun same_value :: "pyval \<Rightarrow> pyval" where
  "same_value (PBool b) = PInt (if b then 1 else 0)"
| "same_value (PFloat (FFin q r)) = (if of_int (floor q) = q then PInt (floor q) else PFloat (FFin q []))"
| "same_value (PList xs) = PList (map same_value xs)"
| "same_value (PDict d) = PDict (sort_key fst (map (\<lambda>kv. (fst kv, same_value (snd kv))) d))"
| "same_value v = v"

fun has_nan :: "pyval \<Rightarrow> bool" where
  "has_nan (PFloat FNan) = True"
| "has_nan (PList xs) = list_ex has_nan xs"
| "has_nan (PDict d) = list_ex (\<lambda>kv. has_nan (snd kv)) d"
| "has_nan v = False"

definition py_eq :: "pyval \<Rightarrow> pyval \<Rightarrow> bool" where
  "py_eq a b = (same_value a = same_value b \<and> \<not> has_nan a)"

section \<open>Health configuration snapshots\<close>

definition HEALTH_CONFIG_SCHEMA :: string where
  "HEALTH_CONFIG_SCHEMA = ''noc_health_config_snapshot_v1''"

definition EXTERNAL_PATH_TARGETS :: "pyval list" where
  "EXTERNAL_PATH_TARGETS = [PStr ''1.1.1.1'', PStr ''8.8.8.8'']"

definition DEFAULT_RESOLUTION_TARGETS :: "pyval list" where
  "DEFAULT_RESOLUTION_TARGETS = [PStr ''example.com'', PStr ''openai.com'']"

definition DEFAULT_SERVICE_PROBE_TARGETS :: "pyval list" where
  "DEFAULT_SERVICE_PROBE_TARGETS =
     [PDict [(''name'', PStr ''resolver-tcp''), (''probe'', PStr ''tcp''), (''host'', PStr ''1.1.1.1''), (''port'', PInt 53), (''timeout_sec'', PFloat (FFin 2 ''2.0''))],
      PDict [(''name'', PStr ''https-head''), (''probe'', PStr ''http''), (''url'', PStr ''https://example.com''), (''method'', PStr ''HEAD''),
        (''timeout_sec'', PFloat (FFin 3 ''3.0''))]]"

definition DEFAULT_DHCP_LEASE_PATHS :: "pyval list" where
  "DEFAULT_DHCP_LEASE_PATHS = [PStr ''/var/lib/misc/dnsmasq.leases'', PStr ''/var/lib/dhcp/dhcpd.leases'']"

definition normalize_list :: "pyval list \<Rightarrow> string list" where
  "normalize_list values = sort (dedup (filter (\<lambda>s. s \<noteq> []) (map (\<lambda>v. py_strip (py_str v)) values)))"

definition strip_colons :: "string \<Rightarrow> string" where
  "strip_colons s = rev (dropWhile (\<lambda>c. c = CHR '':'') (rev (dropWhile (\<lambda>c. c = CHR '':'') s)))"

definition service_target :: "pyval \<Rightarrow> string" where
  "service_target item =
     (case item of
        PDict d \<Rightarrow>
          strip_colons (py_str (py_or (dget d ''name'') (py_or (dget d ''target'') (py_or (dget d ''url'')
            (PStr (text_of (dget d ''host'') @ '':'' @ text_of (dget d ''port'')))))))
      | v \<Rightarrow> py_strip (py_str v))"

definition normalize_service_targets :: "pyval list \<Rightarrow> string list" where
  "normalize_service_targets values = normalize_list (map PStr (filter (\<lambda>s. s \<noteq> []) (map service_target values)))"

text \<open>The flat form of a dictionary: every value that is not a dictionary under its dotted path.\<close>

definition dotted :: "string \<Rightarrow> string \<Rightarrow> string" where
  "dotted pre key = (if pre \<noteq> [] then pre @ ''.'' @ key else key)"

lemma size_entry: "(k, PDict d) \<in> set e \<Longrightarrow> size (PDict d) < size (PDict e)"
proof -
  assume "(k, PDict d) \<in> set e"
  then have "size_prod (\<lambda>_. 0) size (k, PDict d) \<le> size_list (size_prod (\<lambda>_. 0) size) e" by (rule size_list_estimation') simp
  then show ?thesis by simp
qed

function flatten_dict :: "string \<Rightarrow> pydict \<Rightarrow> pydict" where
  "flatten_dict pre payload =
     fold (\<lambda>kv flat. case snd kv of
             PDict d \<Rightarrow> dupdate flat (flatten_dict (dotted pre (fst kv)) d)
           | v \<Rightarrow> AList.update (dotted pre (fst kv)) v flat) (sort_key fst payload) []"
  by pat_completeness auto
termination
proof (relation "measure (\<lambda>(_, d). size (PDict d))", simp)
  fix pre :: string and payload d :: pydict and kv :: "string \<times> pyval"
  assume "kv \<in> set (sort_key fst payload)" "snd kv = PDict d"
  then have "(fst kv, PDict d) \<in> set payload" by (metis prod.collapse set_sort)
  then show "((dotted pre (fst kv), d), (pre, payload)) \<in> measure (\<lambda>(_, d). size (PDict d))" using size_entry by fastforce
qed

declare flatten_dict.simps [simp del]

text \<open>\<open>v if isinstance(v, list) else default\<close>.\<close>

definition list_or :: "pyval \<Rightarrow> pyval list \<Rightarrow> pyval list" where
  "list_or v dflt = (case v of PList xs \<Rightarrow> xs | _ \<Rightarrow> dflt)"

text \<open>\<open>[item for item in sot.get(k, []) if isinstance(item, dict)]\<close>.\<close>

definition dict_items :: "pydict \<Rightarrow> string \<Rightarrow> pyexc + pydict list" where
  "dict_items sot k = ebind (iter_val (dget_or sot k (PList []))) (\<lambda>vs. Inr (map dict_of (filter is_dict vs)))"

definition ids_in :: "pydict list \<Rightarrow> string list" where
  "ids_in ds = normalize_list (map (\<lambda>d. dget d ''id'') ds)"

definition device_networks :: "pydict list \<Rightarrow> pyexc + pydict" where
  "device_networks ds =
     ebind (emap (\<lambda>d. ebind (iter_val (dget_or d ''allowed_networks'' (PList []))) (\<lambda>vs. Inr (text_of (dget d ''id''), PList (map PStr (normalize_list vs)))))
              (filter (\<lambda>d. text_of (dget d ''id'') \<noteq> []) ds)) (\<lambda>kvs. Inr (dupdate [] kvs))"

definition path_targets_of :: "pydict \<Rightarrow> pyval list" where
  "path_targets_of state =
     (let targets = list_or (dget state ''path_targets'') EXTERNAL_PATH_TARGETS; gw = py_strip (text_of (dget state ''gateway_ip''))
      in if gw \<noteq> [] then PStr gw # filter (\<lambda>v. py_strip (py_str v) \<noteq> [] \<and> py_strip (py_str v) \<noteq> gw) targets else targets)"

definition extract_health_config_snapshot :: "pyval \<Rightarrow> pyval \<Rightarrow> pyexc + pydict" where
  "extract_health_config_snapshot runtime sot =
     (let state = dict_of runtime; truth = dict_of sot;
          preferred = text_of (py_or (dget state ''preferred_uplink'') (dget state ''up_if''));
          order = list_or (dget state ''uplink_order'') (if preferred \<noteq> [] then [PStr preferred] else []);
          mode = dict_of (dget state ''mode'') in
      ebind (dict_items truth ''networks'') (\<lambda>networks.
      ebind (dict_items truth ''services'') (\<lambda>services.
      ebind (dict_items truth ''devices'') (\<lambda>devices.
      ebind (device_networks devices) (\<lambda>device_nets.
      ebind (dict_items truth ''expected_paths'') (\<lambda>paths.
        Inr [(''schema'', PStr HEALTH_CONFIG_SCHEMA),
          (''uplink_preference'', PDict [(''preferred_uplink'', PStr preferred), (''failover_order'', texts_val (normalize_list order))]),
          (''probe_targets'', PDict [(''path_targets'', texts_val (normalize_list (path_targets_of state))),
             (''resolution_targets'', texts_val (normalize_list (list_or (dget state ''resolution_targets'') DEFAULT_RESOLUTION_TARGETS))),
             (''service_targets'', texts_val (normalize_service_targets (list_or (dget state ''service_probe_targets'') DEFAULT_SERVICE_PROBE_TARGETS)))]),
          (''dhcp_settings'', PDict [(''gateway_ip'', PStr (text_of (dget state ''gateway_ip''))),
             (''lease_sources'', texts_val (normalize_list (list_or (dget state ''dhcp_lease_paths'') DEFAULT_DHCP_LEASE_PATHS))),
             (''managed_networks'', texts_val (ids_in networks))]),
          (''segment_membership'', PDict [(''network_ids'', texts_val (ids_in networks)), (''service_ids'', texts_val (ids_in services)),
             (''device_networks'', PDict device_nets)]),
          (''policy_markers'', PDict [(''current_mode'', PStr (text_of (py_or (dget mode ''current_mode'') (dget state ''current_mode'')))),
             (''policy_version'', PStr (text_of (py_or (dget state ''policy_version'') (dget state ''defaults_version'')))),
             (''expected_path_count'', PInt (int (length paths))), (''service_count'', PInt (int (length services)))])]))))))"

definition health_sections :: "(string \<times> (string \<times> bool) list) list" where
  "health_sections =
     [(''uplink_preference'', [(''failover_order'', False)]),
      (''probe_targets'', [(''path_targets'', False), (''resolution_targets'', False), (''service_targets'', False)]),
      (''dhcp_settings'', [(''lease_sources'', False), (''managed_networks'', False)]),
      (''segment_membership'', [(''network_ids'', False), (''service_ids'', False), (''device_networks'', True)]),
      (''policy_markers'', [])]"

text \<open>All failures of the validation raise the same error, so the tests are one conjunction.\<close>

definition valid_health_config :: "pyval \<Rightarrow> bool" where
  "valid_health_config v =
     (case v of
        PDict s \<Rightarrow>
          text_of (dget s ''schema'') = HEALTH_CONFIG_SCHEMA
          \<and> list_all (\<lambda>(sec, fields). is_dict (dget s sec)
                \<and> list_all (\<lambda>(f, dictp). let x = dget (dict_of (dget s sec)) f in if dictp then is_dict x else is_list x) fields) health_sections
      | _ \<Rightarrow> False)"

definition validate_health_config_snapshot :: "pyval \<Rightarrow> pyexc + pyval" where
  "validate_health_config_snapshot v = (if valid_health_config v then Inr v else Inl (ValueError ''health_config_snapshot_invalid''))"

definition flat_health :: "pydict \<Rightarrow> pydict" where
  "flat_health s = flatten_dict [] (filter (\<lambda>kv. fst kv \<noteq> ''schema'') s)"

definition changed_fields :: "pydict \<Rightarrow> pydict \<Rightarrow> string list" where
  "changed_fields b c = sort (dedup (filter (\<lambda>f. \<not> py_eq (dget b f) (dget c f)) (map fst b @ map fst c)))"

definition no_baseline :: "string \<Rightarrow> string \<Rightarrow> string \<Rightarrow> pydict" where
  "no_baseline status state hint =
     [(''status'', PStr status), (''baseline_state'', PStr state), (''changed_fields'', PList []), (''baseline_values'', PDict []),
      (''current_values'', PDict []), (''rollback_hint'', PStr hint)]"

text \<open>\<open>current or {}\<close> is what is validated.\<close>

definition diff_health_config_snapshots :: "pyval \<Rightarrow> pydict \<Rightarrow> pyexc + pydict" where
  "diff_health_config_snapshots baseline current =
     (case baseline of
        PDict b \<Rightarrow>
          (if \<not> valid_health_config (PDict b) then Inr (no_baseline ''baseline_invalid'' ''invalid'' ''repair_or_replace_invalid_baseline'')
           else
             ebind (validate_health_config_snapshot (PDict current)) (\<lambda>_.
               let bf = flat_health b; cf = flat_health current; changed = changed_fields bf cf in
               Inr [(''status'', PStr (if changed \<noteq> [] then ''drift'' else ''baseline_match'')), (''baseline_state'', PStr ''present''), (''changed_fields'', texts_val changed),
                 (''baseline_values'', PDict (map (\<lambda>f. (f, dget bf f)) changed)), (''current_values'', PDict (map (\<lambda>f. (f, dget cf f)) changed)),
                 (''rollback_hint'', PStr (if changed \<noteq> [] then ''review_changed_fields_and_restore_last_known_good'' else ''baseline_matches_current''))]))
      | _ \<Rightarrow> Inr (no_baseline ''baseline_missing'' ''missing'' ''create_last_known_good_baseline''))"

section \<open>Files\<close>

text \<open>What looking at a path gives: nothing there, its bytes and modification time, or an exception.\<close>

datatype fstate = FMissing | FRead string string | FFails pyexc

datatype bfile = NoFile | BadFile pyexc | Json pyval

record drift_world =
  dw_files :: "string \<Rightarrow> fstate"
  dw_baseline_path :: string
  dw_baseline :: bfile

text \<open>A write succeeds, fails before the file is touched, or leaves a part of the text.\<close>

datatype write_result = Written | NotOpened pyexc | Torn pyexc

definition file_entry :: "(string \<Rightarrow> string) \<Rightarrow> drift_world \<Rightarrow> string \<Rightarrow> pyexc + pydict" where
  "file_entry sha w path =
     (case dw_files w path of
        FMissing \<Rightarrow> Inr [(''path'', PStr path), (''exists'', PBool False), (''sha256'', PStr []), (''size'', PInt 0), (''mtime'', PStr [])]
      | FRead data mtime \<Rightarrow>
          Inr [(''path'', PStr path), (''exists'', PBool True), (''sha256'', PStr (sha data)), (''size'', PInt (int (length data))), (''mtime'', PStr mtime)]
      | FFails x \<Rightarrow> Inl x)"

definition default_config_targets :: "path_env \<Rightarrow> string option \<Rightarrow> string list" where
  "default_config_targets e repo_root =
     dedupe_paths ([fst (defaults_file_candidates e []), snd (defaults_file_candidates e [])] @ first_minute_config_candidates e [] @ mode_state_candidates e []
       @ opencanary_config_candidates e [] repo_root
       @ [''/etc/default/azazel-edge-web'', ''/etc/default/azazel-edge-ai-agent'', ''/etc/systemd/system/azazel-edge-web.service'',
          ''/etc/systemd/system/azazel-edge-ai-agent.service''])"

definition file_snapshot :: "(string \<Rightarrow> string) \<Rightarrow> drift_world \<Rightarrow> string list \<Rightarrow> pyexc + pydict list" where
  "file_snapshot sha w targets =
     ebind (emap (\<lambda>t. file_entry sha w (path_text t)) targets) (\<lambda>rows. Inr (sort_key (\<lambda>r. text_of (dget r ''path'')) rows))"

definition write_baseline :: "write_result \<Rightarrow> pydict \<Rightarrow> drift_world \<Rightarrow> (pyexc + pydict) \<times> drift_world" where
  "write_baseline out payload w =
     (case out of
        Written \<Rightarrow> (Inr payload, w\<lparr>dw_baseline := Json (PDict payload)\<rparr>)
      | NotOpened x \<Rightarrow> (Inl x, w)
      | Torn x \<Rightarrow> (Inl x, w\<lparr>dw_baseline := BadFile (ValueError [])\<rparr>))"

definition create_baseline :: "(string \<Rightarrow> string) \<Rightarrow> string \<Rightarrow> string list \<Rightarrow> write_result \<Rightarrow> drift_world \<Rightarrow> (pyexc + pydict) \<times> drift_world" where
  "create_baseline sha now targets out w =
     (case file_snapshot sha w targets of
        Inl x \<Rightarrow> (Inl x, w)
      | Inr rows \<Rightarrow> write_baseline out [(''ts'', PStr now), (''entries'', PList (map PDict rows))] w)"

definition load_baseline :: "drift_world \<Rightarrow> pyexc + pydict" where
  "load_baseline w =
     (case dw_baseline w of
        NoFile \<Rightarrow> Inr [(''ts'', PStr []), (''entries'', PList [])]
      | BadFile x \<Rightarrow> Inl x
      | Json (PDict d) \<Rightarrow> if is_list (dget_or d ''entries'' (PList [])) then Inr d else Inl (ValueError ''config_drift_baseline_invalid'')
      | Json _ \<Rightarrow> Inl (ValueError ''config_drift_baseline_invalid''))"

text \<open>\<open>{item['path']: item ...}\<close>: a list or a dictionary is no key, and equal numbers are one key.\<close>

definition path_key :: "pydict \<Rightarrow> pyexc + pyval" where
  "path_key item =
     (if \<not> has_key item ''path'' then Inl (KeyError ''path'')
      else if is_list (dget item ''path'') \<or> is_dict (dget item ''path'') then Inl (TypeError [])
      else Inr (same_value (dget item ''path'')))"

definition path_map :: "pydict list \<Rightarrow> pyexc + (pyval \<times> pydict) list" where
  "path_map items = ebind (emap (\<lambda>i. ebind (path_key i) (\<lambda>k. Inr (k, i))) items) (\<lambda>kvs. Inr (dupdate [] kvs))"

datatype drift_mark = Added | Removed | Modified | Unchanged

definition drift_of :: "(pyval \<times> pydict) list \<Rightarrow> pyval \<times> pydict \<Rightarrow> drift_mark" where
  "drift_of baseline pe =
     (case map_of baseline (fst pe) of
        None \<Rightarrow> Added
      | Some before \<Rightarrow>
          (let was = truthy (dget before ''exists''); is = truthy (dget (snd pe) ''exists'') in
           if was \<noteq> is then (if is then Added else Removed)
           else if is \<and> \<not> py_eq (dget before ''sha256'') (dget (snd pe) ''sha256'') then Modified else Unchanged))"

definition marked :: "drift_mark \<Rightarrow> (pyval \<times> pydict) list \<Rightarrow> (pyval \<times> pydict) list \<Rightarrow> pyval list" where
  "marked m baseline current = map fst (filter (\<lambda>pe. drift_of baseline pe = m) current)"

text \<open>\<open>sorted\<close> on keys: texts among themselves and numbers among themselves compare, nothing else does. A NaN has no fixed place; here it comes last.\<close>

definition number_key :: "pyval \<Rightarrow> (nat \<times> rat) option" where
  "number_key v =
     (case v of
        PInt i \<Rightarrow> Some (1, of_int i)
      | PFloat (FFin q _) \<Rightarrow> Some (1, q)
      | PFloat (FInf neg) \<Rightarrow> Some (if neg then (0, 0) else (2, 0))
      | PFloat FNan \<Rightarrow> Some (3, 0)
      | _ \<Rightarrow> None)"

definition sorted_keys :: "pyval list \<Rightarrow> pyexc + pyval list" where
  "sorted_keys ks =
     (if list_all is_text ks then Inr (map PStr (sort (map py_str ks)))
      else if list_all (\<lambda>k. number_key k \<noteq> None) ks
      then Inr (sort_key (\<lambda>k. snd (the (number_key k))) (sort_key (\<lambda>k. fst (the (number_key k))) ks))
      else if length ks \<le> 1 then Inr ks
      else Inl (TypeError []))"

definition detect_drift :: "(string \<Rightarrow> string) \<Rightarrow> string list \<Rightarrow> drift_world \<Rightarrow> pyexc + pydict" where
  "detect_drift sha targets w =
     ebind (load_baseline w) (\<lambda>baseline.
     ebind (file_snapshot sha w targets) (\<lambda>entries.
     ebind (path_map (map dict_of (filter is_dict (list_val (dget_or baseline ''entries'' (PList [])))))) (\<lambda>bmap.
     ebind (path_map entries) (\<lambda>cmap.
       let added = marked Added bmap cmap;
           removed = marked Removed bmap cmap @ map fst (filter (\<lambda>pe. \<not> has_key cmap (fst pe) \<and> truthy (dget (snd pe) ''exists'')) bmap);
           modified = marked Modified bmap cmap in
       ebind (sorted_keys (dedup added)) (\<lambda>added'.
       ebind (sorted_keys (dedup removed)) (\<lambda>removed'.
       ebind (sorted_keys (dedup modified)) (\<lambda>modified'.
         Inr [(''status'', PStr (if added \<noteq> [] \<or> removed \<noteq> [] \<or> modified \<noteq> [] then ''drift'' else ''baseline_match'')),
           (''added'', PList added'), (''removed'', PList removed'), (''modified'', PList modified'), (''baseline_path'', PStr (dw_baseline_path w)),
           (''baseline_ts'', dget_or baseline ''ts'' (PStr [])), (''current_entries'', PList (map PDict entries))])))))))"

section \<open>The health baseline\<close>

definition create_health_baseline :: "string \<Rightarrow> pydict \<Rightarrow> write_result \<Rightarrow> drift_world \<Rightarrow> (pyexc + pydict) \<times> drift_world" where
  "create_health_baseline now snapshot out w =
     (case validate_health_config_snapshot (PDict snapshot) of
        Inl x \<Rightarrow> (Inl x, w)
      | Inr v \<Rightarrow> write_baseline out [(''ts'', PStr now), (''schema'', PStr HEALTH_CONFIG_SCHEMA), (''snapshot'', v)] w)"

definition load_health_baseline :: "drift_world \<Rightarrow> pyexc + pydict" where
  "load_health_baseline w =
     (case dw_baseline w of
        NoFile \<Rightarrow> Inr [(''ts'', PStr []), (''snapshot'', PNone)]
      | BadFile x \<Rightarrow> Inl x
      | Json (PDict d) \<Rightarrow>
          (if dget d ''snapshot'' = PNone then Inr [(''ts'', PStr []), (''snapshot'', PNone)]
           else ebind (validate_health_config_snapshot (dget d ''snapshot'')) (\<lambda>_. Inr [(''ts'', PStr (text_of (dget d ''ts''))), (''snapshot'', dget d ''snapshot'')]))
      | Json _ \<Rightarrow> Inl (ValueError ''config_drift_baseline_invalid''))"

definition detect_health_drift :: "pydict \<Rightarrow> drift_world \<Rightarrow> pyexc + pydict" where
  "detect_health_drift snapshot w =
     (case load_health_baseline w of
        Inl (ValueError _) \<Rightarrow>
          ebind (diff_health_config_snapshots (PDict [(''schema'', PStr ''invalid'')]) snapshot) (\<lambda>d.
            Inr (d @ [(''baseline_path'', PStr (dw_baseline_path w)), (''baseline_ts'', PStr [])]))
      | Inl x \<Rightarrow> Inl x
      | Inr baseline \<Rightarrow>
          ebind (diff_health_config_snapshots (dget baseline ''snapshot'') snapshot) (\<lambda>d.
            Inr (d @ [(''baseline_path'', PStr (dw_baseline_path w)), (''baseline_ts'', dget baseline ''ts'')])))"

definition audit_drift :: "(string \<Rightarrow> string) \<Rightarrow> sys \<Rightarrow> string \<Rightarrow> pydict \<Rightarrow> alog option \<Rightarrow> (pyexc + pydict) \<times> alog option" where
  "audit_drift sha y trace drift audit =
     (case audit of
        None \<Rightarrow> (Inr drift, None)
      | Some l \<Rightarrow>
          (case log_evaluation sha y trace ''config_drift_audit''
                  [(''status'', PStr (text_of (dget drift ''status''))), (''added'', dget_or drift ''added'' (PList [])), (''removed'', dget_or drift ''removed'' (PList [])),
                   (''modified'', dget_or drift ''modified'' (PList [])), (''baseline_path'', PStr (text_of (dget drift ''baseline_path'')))] l of
             (r, l') \<Rightarrow> (r, Some l')))"

end
