(* ===== verification/ConfigDriftProperties.thy ===== *)
theory ConfigDriftProperties
  imports ConfigDrift
begin

text \<open>
  What a drift report says: of files, exactly which of the targets appeared, went or changed since the baseline; of the health configuration, a match means a valid
  baseline that agrees with the present in every field.
\<close>

section \<open>Sorted keys\<close>

lemma sorted_text_keys:
  assumes "set xs = PStr ` set ys"
  shows "sorted_keys (dedup xs) = Inr (map PStr (sort (dedup ys)))"
proof -
  have t: "list_all is_text (dedup xs)" using assms by (auto simp: list_all_iff)
  have "inj_on py_str (set (dedup xs))" using assms by (auto simp: inj_on_def)
  then have "sort (map py_str (dedup xs)) = sort (dedup ys)" using assms
    by (intro sorted_distinct_set_unique) (auto simp: distinct_map image_image)
  then show ?thesis using t by (simp add: sorted_keys_def)
qed

section \<open>Files\<close>

definition present :: "drift_world \<Rightarrow> string \<Rightarrow> bool" where
  "present w p = (case dw_files w p of FRead _ _ \<Rightarrow> True | _ \<Rightarrow> False)"

definition digest_at :: "(string \<Rightarrow> string) \<Rightarrow> drift_world \<Rightarrow> string \<Rightarrow> string" where
  "digest_at sha w p = (case dw_files w p of FRead d _ \<Rightarrow> sha d | _ \<Rightarrow> [])"

definition readable :: "drift_world \<Rightarrow> string list \<Rightarrow> bool" where
  "readable w ps = (\<forall>p \<in> set ps. \<forall>x. dw_files w p \<noteq> FFails x)"

definition entry_at :: "(string \<Rightarrow> string) \<Rightarrow> drift_world \<Rightarrow> string \<Rightarrow> pydict" where
  "entry_at sha w p = projr (file_entry sha w p)"

lemma entry_fields:
  assumes "file_entry sha w p = Inr r"
  shows "dget r ''path'' = PStr p" "has_key r ''path''" "dget r ''exists'' = PBool (present w p)" "dget r ''sha256'' = PStr (digest_at sha w p)"
  using assms by (auto simp: file_entry_def present_def digest_at_def dget_Cons has_key_def split: fstate.splits)

lemma entry_readable: "readable w ps \<Longrightarrow> p \<in> set ps \<Longrightarrow> file_entry sha w p = Inr (entry_at sha w p)"
  by (auto simp: readable_def entry_at_def file_entry_def split: fstate.splits)

lemma entry_at_fields:
  assumes "readable w ps" "p \<in> set ps"
  shows "dget (entry_at sha w p) ''path'' = PStr p" "has_key (entry_at sha w p) ''path''" "dget (entry_at sha w p) ''exists'' = PBool (present w p)"
    "dget (entry_at sha w p) ''sha256'' = PStr (digest_at sha w p)"
  using entry_fields [OF entry_readable [OF assms]] by simp_all

text \<open>The rows of a snapshot and the map by path that the comparison makes of them.\<close>

lemma snapshot_rows:
  assumes "readable w (map path_text targets)"
  shows "\<exists>rows. file_snapshot sha w targets = Inr rows \<and> set rows = entry_at sha w ` set (map path_text targets)"
proof -
  have "emap (\<lambda>t. file_entry sha w (path_text t)) targets = Inr (map (\<lambda>t. entry_at sha w (path_text t)) targets)"
    by (rule emap_Inr) (simp add: entry_readable [OF assms])
  then show ?thesis by (simp add: file_snapshot_def image_image)
qed

lemma snapshot_readable:
  assumes "file_snapshot sha w targets = Inr rows"
  shows "readable w (map path_text targets)"
proof -
  have "emap (\<lambda>t. file_entry sha w (path_text t)) ts = Inr rs \<Longrightarrow> readable w (map path_text ts)" for ts rs
    by (induction ts arbitrary: rs) (auto simp: readable_def ebind_Inr_iff file_entry_def split: fstate.splits)
  then show ?thesis using assms by (auto simp: file_snapshot_def ebind_Inr_iff)
qed

lemma rows_map:
  assumes r: "readable w ps" and rows: "set rows = entry_at sha w ` set ps"
  shows "\<exists>m. path_map rows = Inr m \<and> (\<forall>p. map_of m (PStr p) = (if p \<in> set ps then Some (entry_at sha w p) else None)) \<and> distinct (map fst m) \<and> fst ` set m = PStr ` set ps"
proof -
  let ?kv = "\<lambda>row. (dget row ''path'', row)"
  have k: "path_key row = Inr (dget row ''path'')" if row: "row \<in> set rows" for row
  proof -
    obtain p where "p \<in> set ps" "row = entry_at sha w p" using row rows by auto
    then show ?thesis using entry_at_fields [OF r] by (simp add: path_key_def)
  qed
  then have e: "emap (\<lambda>i. ebind (path_key i) (\<lambda>k. Inr (k, i))) rows = Inr (map ?kv rows)" by (intro emap_Inr) simp
  let ?m = "dupdate [] (map ?kv rows)"
  have d: "distinct (map fst ?m)" unfolding dupdate_def
    by (induction rows rule: rev_induct) (simp_all add: distinct_update_keys)
  have keys: "fst ` set ?m = PStr ` set ps"
  proof -
    have "fst ` set (dupdate [] (map ?kv rs)) = (\<lambda>row. dget row ''path'') ` set rs" for rs
      by (induction rs rule: rev_induct) (simp_all add: dupdate_def keys_update)
    then show ?thesis using rows entry_at_fields(1) [OF r] by (auto simp: image_image cong: image_cong)
  qed
  have "map_of ?m (PStr p) = (if p \<in> set ps then Some (entry_at sha w p) else None)" for p
  proof (cases "p \<in> set ps")
    case True
    then have "PStr p \<in> fst ` set ?m" using keys by simp
    then obtain row where row: "map_of ?m (PStr p) = Some row" by (cases "map_of ?m (PStr p)") (auto simp: map_of_eq_None_iff)
    moreover have "map_of (rev (map ?kv rs)) k = Some row \<Longrightarrow> row \<in> set rs \<and> dget row ''path'' = k" for rs k by (auto dest!: map_of_SomeD)
    ultimately have "row \<in> set rows" "dget row ''path'' = PStr p" by (auto simp: map_of_dupdate split: option.splits)
    then show ?thesis using True row rows entry_at_fields(1) [OF r] by auto
  next
    case False
    then show ?thesis using keys by (auto simp: map_of_eq_None_iff)
  qed
  then show ?thesis using e d keys by (intro exI [of _ ?m]) (simp add: path_map_def)
qed

definition mark_of :: "(string \<Rightarrow> string) \<Rightarrow> drift_world \<Rightarrow> drift_world \<Rightarrow> string \<Rightarrow> drift_mark" where
  "mark_of sha w0 w2 q =
     (if present w0 q \<noteq> present w2 q then (if present w2 q then Added else Removed)
      else if present w2 q \<and> digest_at sha w0 q \<noteq> digest_at sha w2 q then Modified else Unchanged)"

lemma set_marked:
  assumes r: "readable w0 ps" "readable w2 ps"
    and bm: "\<And>p. map_of bm (PStr p) = (if p \<in> set ps then Some (entry_at sha w0 p) else None)"
    and cm: "\<And>p. map_of cm (PStr p) = (if p \<in> set ps then Some (entry_at sha w2 p) else None)" "distinct (map fst cm)" "fst ` set cm = PStr ` set ps"
  shows "set (marked m bm cm) = PStr ` set (filter (\<lambda>q. mark_of sha w0 w2 q = m) ps)"
proof -
  have d: "drift_of bm (PStr q, entry_at sha w2 q) = mark_of sha w0 w2 q" if "q \<in> set ps" for q
    using that entry_at_fields [OF r(1) that] entry_at_fields [OF r(2) that]
    by (auto simp: drift_of_def mark_of_def bm Let_def py_eq_def)
  have e: "(k, x) \<in> set cm \<longleftrightarrow> (\<exists>q \<in> set ps. k = PStr q \<and> x = entry_at sha w2 q)" for k x
  proof
    assume "(k, x) \<in> set cm"
    moreover obtain q where "q \<in> set ps" "k = PStr q" using calculation cm(3) by (metis fst_conv image_iff)
    ultimately show "\<exists>q \<in> set ps. k = PStr q \<and> x = entry_at sha w2 q" using cm(1) [of q] in_set_map_of [OF cm(2)] by auto
  next
    assume "\<exists>q \<in> set ps. k = PStr q \<and> x = entry_at sha w2 q"
    then show "(k, x) \<in> set cm" using cm(1) in_set_map_of [OF cm(2)] by auto
  qed
  show ?thesis using d by (auto simp: marked_def e image_iff)
qed

text \<open>C29. A file drift report compares each target now with the baseline: added are exactly the targets that are there now and were not, removed those that were and are not,
  modified those there both times with another digest, each sorted and once; there is drift exactly if one of the three is not empty. Comparing never fails while every
  target can be looked at.\<close>

theorem file_drift_is_exact:
  assumes c: "create_baseline sha now targets Written w0 = (Inr p, w1)"
    and w2: "w2 = w1\<lparr>dw_files := files\<rparr>" and r2: "readable w2 (map path_text targets)"
    and ps: "ps = map path_text targets"
  shows "\<exists>d. detect_drift sha targets w2 = Inr d
    \<and> dget d ''added'' = texts_val (sort (dedup (filter (\<lambda>p. present w2 p \<and> \<not> present w0 p) ps)))
    \<and> dget d ''removed'' = texts_val (sort (dedup (filter (\<lambda>p. present w0 p \<and> \<not> present w2 p) ps)))
    \<and> dget d ''modified'' = texts_val (sort (dedup (filter (\<lambda>p. present w0 p \<and> present w2 p \<and> digest_at sha w0 p \<noteq> digest_at sha w2 p) ps)))
    \<and> (dget d ''status'' = PStr ''baseline_match'' \<longleftrightarrow> (\<forall>p \<in> set ps. present w2 p = present w0 p \<and> digest_at sha w2 p = digest_at sha w0 p))"
proof -
  obtain rows0 where s0: "file_snapshot sha w0 targets = Inr rows0" and pl: "p = [(''ts'', PStr now), (''entries'', PList (map PDict rows0))]"
      and w1: "w1 = w0\<lparr>dw_baseline := Json (PDict p)\<rparr>"
    using c by (auto simp: create_baseline_def write_baseline_def split: sum.splits)
  have r0: "readable w0 ps" using snapshot_readable [OF s0] ps by simp
  have rows0: "set rows0 = entry_at sha w0 ` set ps" using snapshot_rows [of w0 targets sha] r0 s0 ps by auto
  obtain rows2 where s2: "file_snapshot sha w2 targets = Inr rows2" "set rows2 = entry_at sha w2 ` set ps" using snapshot_rows [OF r2, of sha] unfolding ps by blast
  have r2': "readable w2 ps" using r2 ps by simp
  obtain bm where bm: "path_map rows0 = Inr bm" "\<And>p. map_of bm (PStr p) = (if p \<in> set ps then Some (entry_at sha w0 p) else None)" "fst ` set bm = PStr ` set ps"
    using rows_map [OF r0 rows0] by blast
  obtain cm where cm: "path_map rows2 = Inr cm" "\<And>p. map_of cm (PStr p) = (if p \<in> set ps then Some (entry_at sha w2 p) else None)" "distinct (map fst cm)"
      "fst ` set cm = PStr ` set ps" using rows_map [OF r2' s2(2)] by blast
  have lb: "load_baseline w2 = Inr p" by (simp add: w2 w1 load_baseline_def pl dget_or_def has_key_def dget_Cons)
  have items: "map dict_of (filter is_dict (list_val (dget_or p ''entries'' (PList [])))) = rows0"
    by (simp add: pl dget_or_def has_key_def dget_Cons filter_map o_def)
  have marks: "set (marked m bm cm) = PStr ` set (filter (\<lambda>q. mark_of sha w0 w2 q = m) ps)" for m
    by (rule set_marked [OF r0 r2' bm(2) cm(2-4)])
  have gone: "filter (\<lambda>pe. \<not> has_key cm (fst pe) \<and> truthy (dget (snd pe) ''exists'')) bm = []"
    using bm(3) cm(4) by (auto simp: has_key_def filter_empty_conv)
  have none: "marked m bm cm = [] \<longleftrightarrow> (\<forall>q \<in> set ps. mark_of sha w0 w2 q \<noteq> m)" for m
  proof -
    have "marked m bm cm = [] \<longleftrightarrow> set (marked m bm cm) = {}" by simp
    then show ?thesis by (simp add: marks Ball_def)
  qed
  have keys: "sorted_keys (dedup (marked m bm cm)) = Inr (map PStr (sort (dedup (filter (\<lambda>q. mark_of sha w0 w2 q = m) ps))))" for m
    by (rule sorted_text_keys [OF marks])
  have absent: "digest_at sha w q = []" if "\<not> present w q" for w q using that by (auto simp: present_def digest_at_def split: fstate.splits)
  have only_four: "x = Unchanged \<longleftrightarrow> x \<noteq> Added \<and> x \<noteq> Removed \<and> x \<noteq> Modified" for x by (cases x) simp_all
  have "(\<forall>q \<in> set ps. present w2 q = present w0 q \<and> digest_at sha w2 q = digest_at sha w0 q) \<longleftrightarrow> (\<forall>q \<in> set ps. mark_of sha w0 w2 q = Unchanged)"
    using absent by (auto simp: mark_of_def)
  moreover have "(\<forall>q \<in> set ps. mark_of sha w0 w2 q = Unchanged) \<longleftrightarrow> marked Added bm cm = [] \<and> marked Removed bm cm = [] \<and> marked Modified bm cm = []"
    unfolding none using only_four by blast
  moreover have "mark_of sha w0 w2 q = Added \<longleftrightarrow> present w2 q \<and> \<not> present w0 q" "mark_of sha w0 w2 q = Removed \<longleftrightarrow> present w0 q \<and> \<not> present w2 q"
    "mark_of sha w0 w2 q = Modified \<longleftrightarrow> present w0 q \<and> present w2 q \<and> digest_at sha w0 q \<noteq> digest_at sha w2 q" for q by (auto simp: mark_of_def)
  ultimately show ?thesis
    by (simp add: detect_drift_def lb s2(1) items bm(1) cm(1) gone keys texts_val_def Let_def dget_Cons)
qed

text \<open>A target that the baseline does not name counts as added even where nothing is there.\<close>

lemma absent_new_target_is_added:
  assumes "dw_files w q = FMissing" "path_text q = q" "dw_baseline w = Json (PDict [(''ts'', PStr []), (''entries'', PList [])])"
  shows "\<exists>d. detect_drift sha [q] w = Inr d \<and> dget d ''status'' = PStr ''drift'' \<and> dget d ''added'' = texts_val [q]"
  using assms by (simp add: detect_drift_def load_baseline_def dget_or_def has_key_def dget_Cons file_snapshot_def file_entry_def path_map_def path_key_def dupdate_def
    marked_def drift_of_def sorted_keys_def texts_val_def Let_def)

section \<open>Health configuration\<close>

lemma py_eq_none: "py_eq PNone PNone"
  by (simp add: py_eq_def)

lemma dget_absent: "k \<notin> set (map fst d) \<Longrightarrow> dget d k = PNone"
  by (simp add: dget_def map_of_eq_None_iff [THEN iffD2])

lemma set_changed_fields: "set (changed_fields b c) = {f. \<not> py_eq (dget b f) (dget c f)}"
proof -
  have "f \<in> set (map fst b @ map fst c)" if "\<not> py_eq (dget b f) (dget c f)" for f
  proof (rule ccontr)
    assume "f \<notin> set (map fst b @ map fst c)"
    then show False using that py_eq_none dget_absent [of f b] dget_absent [of f c] by simp
  qed
  then show ?thesis by (auto simp: changed_fields_def)
qed

text \<open>The snapshot a comparison uses: the one of a baseline file that can be read and is valid.\<close>

definition stored_snapshot :: "drift_world \<Rightarrow> pydict option" where
  "stored_snapshot w =
     (case dw_baseline w of
        Json (PDict d) \<Rightarrow> (case dget d ''snapshot'' of PDict b \<Rightarrow> if valid_health_config (PDict b) then Some b else None | _ \<Rightarrow> None)
      | _ \<Rightarrow> None)"

lemma valid_is_dict: "valid_health_config v \<Longrightarrow> \<exists>d. v = PDict d"
  by (cases v) (simp_all add: valid_health_config_def)

lemma diff_of_valid:
  assumes "valid_health_config (PDict b)" "valid_health_config (PDict c)"
  shows "\<exists>d. diff_health_config_snapshots (PDict b) c = Inr d \<and> dget d ''changed_fields'' = texts_val (changed_fields (flat_health b) (flat_health c))
    \<and> dget d ''status'' = PStr (if changed_fields (flat_health b) (flat_health c) \<noteq> [] then ''drift'' else ''baseline_match'')"
  using assms by (simp add: diff_health_config_snapshots_def validate_health_config_snapshot_def Let_def dget_Cons)

lemma no_baseline_status: "dget (no_baseline s b h @ rest) ''status'' = PStr s"
  by (simp add: no_baseline_def dget_Cons)

lemma diff_status_key: "diff_health_config_snapshots b c = Inr d \<Longrightarrow> ''status'' \<in> set (map fst d) \<and> ''changed_fields'' \<in> set (map fst d)"
  by (auto simp: diff_health_config_snapshots_def no_baseline_def ebind_Inr_iff Let_def split: pyval.splits if_splits)

lemma missing_or_invalid:
  assumes "stored_snapshot w = None" "detect_health_drift c w = Inr d"
  shows "dget d ''status'' \<noteq> PStr ''baseline_match'' \<and> dget d ''changed_fields'' = PList []"
  using assms
  by (auto simp: stored_snapshot_def detect_health_drift_def load_health_baseline_def diff_health_config_snapshots_def validate_health_config_snapshot_def
      valid_health_config_def [of "PDict [(''schema'', PStr ''invalid'')]"] HEALTH_CONFIG_SCHEMA_def ebind_Inr_iff no_baseline_def dget_Cons Let_def
      split: bfile.splits pyval.splits pyexc.splits if_splits)

lemma stored_compared:
  assumes "stored_snapshot w = Some b" "detect_health_drift c w = Inr d"
  shows "valid_health_config (PDict c) \<and> dget d ''changed_fields'' = texts_val (changed_fields (flat_health b) (flat_health c))
    \<and> (dget d ''status'' = PStr ''baseline_match'' \<longleftrightarrow> changed_fields (flat_health b) (flat_health c) = [])"
proof -
  obtain s where s: "dw_baseline w = Json (PDict s)" "dget s ''snapshot'' = PDict b" "valid_health_config (PDict b)"
    using assms(1) by (auto simp: stored_snapshot_def split: bfile.splits pyval.splits if_splits)
  then obtain d0 where d0: "diff_health_config_snapshots (PDict b) c = Inr d0"
      "d = d0 @ [(''baseline_path'', PStr (dw_baseline_path w)), (''baseline_ts'', PStr (text_of (dget s ''ts'')))]"
    using assms(2) by (auto simp: detect_health_drift_def load_health_baseline_def validate_health_config_snapshot_def ebind_Inr_iff dget_Cons)
  have c: "valid_health_config (PDict c)" using d0(1) s(3)
    by (auto simp: diff_health_config_snapshots_def validate_health_config_snapshot_def ebind_Inr_iff split: if_splits)
  then show ?thesis using diff_of_valid [OF s(3) c] d0 diff_status_key [OF d0(1)] by (auto simp: dget_append_left)
qed


section \<open>Examples\<close>

definition ex_health :: pydict where
  "ex_health =
     [(''schema'', PStr HEALTH_CONFIG_SCHEMA), (''uplink_preference'', PDict [(''failover_order'', PList [PStr ''eth0''])]),
      (''probe_targets'', PDict [(''path_targets'', PList []), (''resolution_targets'', PList []), (''service_targets'', PList [])]),
      (''dhcp_settings'', PDict [(''lease_sources'', PList []), (''managed_networks'', PList [])]),
      (''segment_membership'', PDict [(''network_ids'', PList []), (''service_ids'', PList []), (''device_networks'', PDict [])]), (''policy_markers'', PDict [])]"

definition ex_drift :: drift_world where
  "ex_drift = \<lparr>dw_files = (\<lambda>p. if p = ''/a'' then FRead ''x'' ''t'' else FMissing), dw_baseline_path = ''/b'',
     dw_baseline = Json (PDict [(''ts'', PStr []), (''snapshot'', PDict ex_health)])\<rparr>"

lemma ex_health_valid: "valid_health_config (PDict ex_health)"
  by (simp add: valid_health_config_def ex_health_def health_sections_def dget_Cons)

lemma ex_stored: "stored_snapshot ex_drift = Some ex_health"
  by (simp add: stored_snapshot_def ex_drift_def dget_Cons ex_health_valid)


lemma ex_created: "create_baseline id ''now'' [''/a''] Written ex_drift =
    (Inr [(''ts'', PStr ''now''), (''entries'', PList [PDict (entry_at id ex_drift ''/a'')])],
     ex_drift\<lparr>dw_baseline := Json (PDict [(''ts'', PStr ''now''), (''entries'', PList [PDict (entry_at id ex_drift ''/a'')])])\<rparr>)"
  by (simp add: create_baseline_def file_snapshot_def file_entry_def ex_drift_def write_baseline_def entry_at_def path_text_def Let_def)

theorem file_drift_is_exact_witness:
  "\<exists>d. detect_drift id [''/a''] (snd (create_baseline id ''now'' [''/a''] Written ex_drift)\<lparr>dw_files := \<lambda>_. FMissing\<rparr>) = Inr d \<and> dget d ''removed'' = texts_val [''/a'']"
proof -
  let ?w = "snd (create_baseline id ''now'' [''/a''] Written ex_drift)\<lparr>dw_files := \<lambda>_. FMissing\<rparr>"
  have p: "map path_text [''/a''] = [''/a'']" by (simp add: path_text_def Let_def)
  have "readable ?w (map path_text [''/a''])" by (simp add: readable_def ex_created)
  then obtain d where d: "detect_drift id [''/a''] ?w = Inr d"
      "dget d ''removed'' = texts_val (sort (dedup (filter (\<lambda>p. present ex_drift p \<and> \<not> present ?w p) [''/a''])))"
    using file_drift_is_exact [OF ex_created, of ?w "\<lambda>_. FMissing" "map path_text [''/a'']"] unfolding p by (auto simp: ex_created)
  then show ?thesis by (simp add: present_def ex_created ex_drift_def)
qed

end
