(* ===== verification/DeceptionDecisions.thy ===== *)
theory DeceptionDecisions
  imports PyTime
begin

text \<open>
  The producers of signed decisions about deception environments (\<open>deception_transition.py\<close>, \<open>deception_activation.py\<close>): a decision made elsewhere is checked, given an
  id that binds its fields, and signed. The Fabric models and the signature belong to another package: fields of the environment.
\<close>

section \<open>Text of an id\<close>

text \<open>\<open>json.dumps(..., ensure_ascii=False, separators=(',', ':'))\<close>: only quotes, backslashes and control characters are escaped.\<close>

definition raw_json_char :: "char \<Rightarrow> string" where
  "raw_json_char c = (if 127 \<le> (of_char c :: nat) then [c] else json_char c)"

definition raw_json_str :: "string \<Rightarrow> string" where
  "raw_json_str s = CHR 0x22 # concat (map raw_json_char s) @ [CHR 0x22]"

fun raw_json :: "pyval \<Rightarrow> string" where
  "raw_json (PStr s) = raw_json_str s"
| "raw_json (PList xs) = ''['' @ join '','' (map raw_json xs) @ '']''"
| "raw_json (PDict d) = ''{'' @ join '','' (map (\<lambda>kv. raw_json_str (fst kv) @ '':'' @ raw_json (snd kv)) d) @ ''}''"
| "raw_json v = json_text v"

section \<open>The environment\<close>

text \<open>What Fabric makes of the fields of a decision: the text of a validation error, or the JSON form of the model.\<close>

record fabric_env =
  fe_sha :: "string \<Rightarrow> string"
  fe_iso :: "string \<Rightarrow> stamp option"
  fe_isoformat :: "rat \<Rightarrow> string"
  fe_printable :: "string \<Rightarrow> bool"
  fe_model :: "string \<Rightarrow> pydict \<Rightarrow> string + pydict"
  fe_budget :: "pydict \<Rightarrow> string + pydict"
  fe_sign :: "(pydict \<Rightarrow> string \<Rightarrow> pyexc + pydict) option"

definition EXECUTABLE_STATUSES :: "string list" where
  "EXECUTABLE_STATUSES = [''accepted'', ''modified'']"

section \<open>Times\<close>

text \<open>\<open>astimezone\<close> raises outside the years a \<open>datetime\<close> can hold; the call is not guarded.\<close>

definition parse_iso_aware :: "fabric_env \<Rightarrow> pyval \<Rightarrow> string \<Rightarrow> pyexc + rat" where
  "parse_iso_aware e v fld =
     (case v of
        PStr s \<Rightarrow>
          (let t = py_strip s;
               text = (if t \<noteq> [] \<and> (last t = CHR ''Z'' \<or> last t = CHR ''z'') then butlast t @ ''+00:00'' else t)
           in if t = [] then Inl (ValueError (fld @ '' must be a non-empty ISO-8601 timestamp string''))
              else (case fe_iso e text of
                      None \<Rightarrow> Inl (ValueError (fld @ '' is not a valid ISO-8601 timestamp: '' @ str_repr s))
                    | Some st \<Rightarrow> if in_range (instant st) then Inr (instant st) else Inl (OverflowError [])))
      | _ \<Rightarrow> Inl (ValueError (fld @ '' must be a non-empty ISO-8601 timestamp string'')))"

definition positive_ttl :: "pyval \<Rightarrow> bool" where
  "positive_ttl v = (case v of PInt i \<Rightarrow> 0 < i | _ \<Rightarrow> False)"

definition decision_window :: "fabric_env \<Rightarrow> pyval \<Rightarrow> pyval \<Rightarrow> pyexc + rat \<times> rat" where
  "decision_window e as_of ttl =
     (if \<not> positive_ttl ttl then Inl (ValueError ''ttl_seconds must be a positive integer'')
      else ebind (parse_iso_aware e as_of ''as_of'') (\<lambda>start.
        let stop = start + of_int (int_val ttl) in
        if in_range stop then Inr (start, stop) else Inl (ValueError (''ttl_seconds is out of range for a valid expiry: '' @ py_repr ttl))))"

definition bad_status :: "string \<Rightarrow> pyexc" where
  "bad_status status = ValueError (''status must be one of ['' @ join '', '' (map str_repr EXECUTABLE_STATUSES) @ ''], got '' @ str_repr status)"

definition sign :: "fabric_env \<Rightarrow> pydict \<Rightarrow> string option \<Rightarrow> pyexc + pydict" where
  "sign e payload key =
     (case key of
        None \<Rightarrow> Inr payload
      | Some k \<Rightarrow>
          (case fe_sign e of
             None \<Rightarrow> Inl (ValueError ''signing a decision requires azazel_fabric >= 0.8.0 (deception_contracts.decision_signing, Fabric#9)'')
           | Some f \<Rightarrow> f payload k))"

definition digest_id :: "fabric_env \<Rightarrow> string \<Rightarrow> pyval list \<Rightarrow> string" where
  "digest_id e prefix parts = prefix @ ''-'' @ take 24 (fe_sha e (raw_json (PList parts)))"

section \<open>Transitions\<close>

record transition =
  tn_environment :: string
  tn_current :: string
  tn_target :: string
  tn_as_of :: string
  tn_status :: string
  tn_expires :: "string option"
  tn_evidence :: "string list"
  tn_reasons :: "string list"

definition transition_parts :: "transition \<Rightarrow> pyval list" where
  "transition_parts t =
     [PStr (tn_environment t), PStr (tn_current t), PStr (tn_target t), PStr (tn_as_of t), PStr (tn_status t),
      (case tn_expires t of None \<Rightarrow> PNone | Some x \<Rightarrow> PStr x), texts_val (tn_evidence t), texts_val (tn_reasons t)]"

definition derive_decision_id :: "fabric_env \<Rightarrow> transition \<Rightarrow> string" where
  "derive_decision_id e t = digest_id e ''edge-transition'' (transition_parts t)"

definition build_transition_decision ::
    "fabric_env \<Rightarrow> string \<Rightarrow> string \<Rightarrow> string \<Rightarrow> string \<Rightarrow> pyval \<Rightarrow> string \<Rightarrow> string list \<Rightarrow> string list \<Rightarrow> string \<Rightarrow> string option \<Rightarrow> pyexc + pydict" where
  "build_transition_decision e environment current target as_of ttl status evidence reasons decision_id key =
     (if status \<notin> set EXECUTABLE_STATUSES then Inl (bad_status status)
      else ebind (decision_window e (PStr as_of) ttl) (\<lambda>(start, stop).
        let did = (if decision_id \<noteq> [] then decision_id
                   else derive_decision_id e \<lparr>tn_environment = environment, tn_current = current, tn_target = target, tn_as_of = as_of, tn_status = status,
                          tn_expires = Some (fe_isoformat e stop), tn_evidence = evidence, tn_reasons = reasons\<rparr>) in
        case fe_model e ''EnvironmentTransitionDecision''
               [(''decision_id'', PStr did), (''status'', PStr status), (''environment_id'', PStr environment), (''current_state'', PStr current),
                (''target_state'', PStr target), (''effective_at'', PStr (fe_isoformat e start)), (''expires_at'', PStr (fe_isoformat e stop)),
                (''evidence_refs'', texts_val evidence), (''reason_codes'', texts_val reasons)] of
          Inl x \<Rightarrow> Inl (ValueError (''invalid transition decision: '' @ x))
        | Inr payload \<Rightarrow> sign e payload key))"

definition transition_decision_from_arbiter ::
    "fabric_env \<Rightarrow> pyval \<Rightarrow> string \<Rightarrow> string \<Rightarrow> string \<Rightarrow> string \<Rightarrow> pyval \<Rightarrow> string \<Rightarrow> string option \<Rightarrow> pyexc + pydict" where
  "transition_decision_from_arbiter e arbiter environment current target as_of ttl status key =
     (case arbiter of
        PDict d \<Rightarrow>
          (case py_or (dget d ''chosen_evidence_ids'') (PList []) of
             PList chosen \<Rightarrow>
               build_transition_decision e environment current target as_of ttl status (map py_str chosen)
                 (if truthy (dget d ''reason'') then [py_str (dget d ''reason'')] else []) [] key
           | _ \<Rightarrow> Inl (ValueError ''arbiter_decision.chosen_evidence_ids must be a list''))
      | _ \<Rightarrow> Inl (ValueError ''arbiter_decision must be a mapping''))"

section \<open>References\<close>

definition opaque_char :: "char \<Rightarrow> bool" where
  "opaque_char c = (is_digit c \<or> is_lower c \<or> is_upper c \<or> c \<in> set ''._~@=+:-'')"

definition has_prefix :: "string \<Rightarrow> string \<Rightarrow> bool" where
  "has_prefix p s = (take (length p) s = p)"

text \<open>A prefix followed by 1 to \<open>n\<close> opaque characters.\<close>

definition opaque_ref :: "string \<Rightarrow> nat \<Rightarrow> string \<Rightarrow> bool" where
  "opaque_ref p n s = (has_prefix p s \<and> (let body = drop (length p) s in 1 \<le> length body \<and> length body \<le> n \<and> list_all opaque_char body))"

definition DIGEST_PREFIX :: string where
  "DIGEST_PREFIX = ''advisory:mio-objective-digest-''"

definition is_digest_ref :: "string \<Rightarrow> bool" where
  "is_digest_ref s = (has_prefix DIGEST_PREFIX s \<and> (let body = drop (length DIGEST_PREFIX) s in
     length body = 32 \<and> list_all (\<lambda>c. is_digit c \<or> c \<in> set ''abcdef'') body))"

definition is_objective_ref :: "string \<Rightarrow> bool" where
  "is_objective_ref = opaque_ref ''advisory:mio-objective-'' 186"

definition is_hypothesis_ref :: "string \<Rightarrow> bool" where
  "is_hypothesis_ref = opaque_ref ''advisory:mio-hypothesis-'' 185"

definition is_frame_ref :: "string \<Rightarrow> bool" where
  "is_frame_ref = opaque_ref ''advisory:mio-frame-'' 190"

definition is_reason_code :: "string \<Rightarrow> bool" where
  "is_reason_code s = (1 \<le> length s \<and> length s \<le> 64 \<and> list_all (\<lambda>c. is_digit c \<or> is_lower c \<or> is_upper c \<or> c \<in> set ''._-'') s)"

definition DIRECTIVE_SEGMENTS :: "string list" where
  "DIRECTIVE_SEGMENTS =
     [''activate'', ''activation'', ''deactivate'', ''execute'', ''exec'', ''run'', ''start'', ''stop'', ''open'', ''allow'', ''authorize'', ''authorized'', ''approve'',
      ''approved'', ''enable'', ''extend'', ''terminate'', ''withdraw'', ''block'', ''isolate'', ''quarantine'', ''redirect'', ''expose'', ''command'', ''shell'', ''sudo'',
      ''deploy'', ''install'', ''delete'', ''kill'', ''override'', ''enforce'', ''grant'', ''granted'', ''bypass'']"

definition ADVISORY_KINDS :: "string list" where
  "ADVISORY_KINDS = [''advisory'', ''observation_objective'', ''hypothesis'', ''frame'']"

text \<open>Runs of separators may leave empty segments, which no test below notices.\<close>

fun segments :: "string \<Rightarrow> string list" where
  "segments [] = [[]]"
| "segments (c # s) = (if c \<in> set ''-._~:'' then [] # segments s else (case segments s of [] \<Rightarrow> [[c]] | w # ws \<Rightarrow> (c # w) # ws))"

text \<open>White space and what is not printable; outside ASCII a parameter decides.\<close>

definition plain_text :: "fabric_env \<Rightarrow> string \<Rightarrow> bool" where
  "plain_text e s =
     (if list_all (\<lambda>c. (of_char c :: nat) < 128) s then list_all (\<lambda>c. 33 \<le> (of_char c :: nat) \<and> (of_char c :: nat) \<le> 126) s else fe_printable e s)"

fun each_ref :: "fabric_env \<Rightarrow> string \<Rightarrow> pyval list \<Rightarrow> pyexc + string list" where
  "each_ref e fld [] = Inr []"
| "each_ref e fld (v # vs) =
     (case v of
        PStr s \<Rightarrow>
          (if s = [] \<or> 200 < char_count s then Inl (ValueError (fld @ '' entries must be non-empty strings of at most 200 characters''))
           else if \<not> plain_text e s then Inl (ValueError (fld @ '' entries must not contain whitespace or control characters''))
           else ebind (each_ref e fld vs) (\<lambda>ss. Inr (s # ss)))
      | _ \<Rightarrow> Inl (ValueError (fld @ '' entries must be non-empty strings of at most 200 characters'')))"

definition ref_list :: "fabric_env \<Rightarrow> pyval \<Rightarrow> string \<Rightarrow> nat \<Rightarrow> pyexc + string list" where
  "ref_list e values fld limit =
     (case values of
        PNone \<Rightarrow> Inr []
      | PStr _ \<Rightarrow> Inl (ValueError (fld @ '' must be a list of strings''))
      | PDict _ \<Rightarrow> Inl (ValueError (fld @ '' must be a list of strings''))
      | PList vs \<Rightarrow>
          (if limit < length vs then Inl (ValueError (fld @ '' has more than '' @ nat_str limit @ '' entries'')) else each_ref e fld vs)
      | _ \<Rightarrow> Inl (TypeError []))"

definition reject_directive :: "string \<Rightarrow> pyexc + unit" where
  "reject_directive ref =
     (case find (\<lambda>s. s \<in> set DIRECTIVE_SEGMENTS) (segments (py_lower (drop 1 (dropWhile (\<lambda>c. c \<noteq> CHR '':'') ref)))) of
        None \<Rightarrow> Inr ()
      | Some s \<Rightarrow> Inl (ValueError (''objective ref reads as an instruction ('' @ str_repr s @ ''); refs must be opaque identifiers'')))"

datatype ref_kind = Digest | Objective | Hypothesis | Frame

definition ref_kind_of :: "string \<Rightarrow> pyexc + ref_kind" where
  "ref_kind_of ref =
     (if is_digest_ref ref then Inr Digest
      else if has_prefix DIGEST_PREFIX ref then Inl (ValueError ''objective digest ref must be 32 lowercase hex characters'')
      else if is_objective_ref ref then ebind (reject_directive ref) (\<lambda>_. Inr Objective)
      else if is_hypothesis_ref ref then ebind (reject_directive ref) (\<lambda>_. Inr Hypothesis)
      else if is_frame_ref ref then ebind (reject_directive ref) (\<lambda>_. Inr Frame)
      else Inl (ValueError ''objective_refs accepts only advisory:mio-objective-*, advisory:mio-hypothesis-*, advisory:mio-frame-* and advisory:mio-objective-digest-<hex32> references''))"

definition count_kind :: "ref_kind \<Rightarrow> ref_kind list \<Rightarrow> nat" where
  "count_kind k ks = length (filter (\<lambda>x. x = k) ks)"

definition validate_objective_refs :: "fabric_env \<Rightarrow> pyval \<Rightarrow> pyexc + string list" where
  "validate_objective_refs e v =
     ebind (ref_list e v ''objective_refs'' 16) (\<lambda>refs.
       if refs = [] then Inr []
       else if \<not> distinct refs then Inl (ValueError ''objective_refs must not contain duplicates'')
       else ebind (emap ref_kind_of refs) (\<lambda>kinds.
         if count_kind Objective kinds \<noteq> 1 \<or> count_kind Frame kinds \<noteq> 1
         then Inl (ValueError ''objective_refs must carry exactly one objective ref and one frame ref'')
         else if 8 < count_kind Hypothesis kinds then Inl (ValueError ''objective_refs has more than 8 hypothesis refs'')
         else if 1 < count_kind Digest kinds then Inl (ValueError ''objective_refs must carry at most one objective digest ref'')
         else Inr (sort refs)))"

definition ref_kind_text :: "string \<Rightarrow> string" where
  "ref_kind_text ref = (if CHR '':'' \<in> set ref then py_lower (py_strip (takeWhile (\<lambda>c. c \<noteq> CHR '':'') ref)) else [])"

definition is_advice :: "string \<Rightarrow> bool" where
  "is_advice ref = (ref_kind_text ref \<in> set ADVISORY_KINDS)"

definition compose_evidence :: "fabric_env \<Rightarrow> pyval \<Rightarrow> string list \<Rightarrow> pyval \<Rightarrow> pyexc + string list" where
  "compose_evidence e evidence reasons objective =
     ebind (ref_list e evidence ''evidence_refs'' 32) (\<lambda>own.
       if list_ex is_advice own
       then Inl (ValueError ''evidence_refs must not carry advisory kinds (advisory, observation_objective, hypothesis, frame); MIO refs go through objective_refs only'')
       else ebind (validate_objective_refs e objective) (\<lambda>refs.
         if refs \<noteq> [] \<and> (own = [] \<or> reasons = [])
         then Inl (ValueError (''objective_refs may only annotate a decision that already has Edge'' @ [CHR 0x27]
                @ ''s own evidence_refs and reason_codes; an advisory alone cannot be the basis''))
         else Inr (own @ refs)))"

definition reason_code_list :: "fabric_env \<Rightarrow> pyval \<Rightarrow> pyexc + string list" where
  "reason_code_list e v =
     ebind (ref_list e v ''reason_codes'' 16) (\<lambda>out.
       case find (\<lambda>s. \<not> is_reason_code s) out of
         None \<Rightarrow> Inr out
       | Some s \<Rightarrow> Inl (ValueError (''reason_codes entry is not a short opaque code: '' @ str_repr s)))"

section \<open>Activation and termination\<close>

text \<open>\<open>_digest\<close> of the activation module sorts the keys of the budget.\<close>

record activation =
  an_package :: string
  an_digest :: string
  an_target :: string
  an_tier :: string
  an_budget :: pyval
  an_as_of :: pyval
  an_ttl :: pyval
  an_status :: string
  an_evidence :: pyval
  an_reasons :: pyval
  an_objective :: pyval

record activation_fields =
  af_start :: rat
  af_stop :: rat
  af_reasons :: "string list"
  af_evidence :: "string list"
  af_budget :: pydict

text \<open>What is checked before the decision is made up.\<close>

definition activation_checks :: "fabric_env \<Rightarrow> activation \<Rightarrow> pyexc + activation_fields" where
  "activation_checks e a =
     (if an_status a \<notin> set EXECUTABLE_STATUSES then Inl (bad_status (an_status a))
      else ebind (decision_window e (an_as_of a) (an_ttl a)) (\<lambda>(start, stop).
        ebind (reason_code_list e (an_reasons a)) (\<lambda>reasons.
        ebind (compose_evidence e (an_evidence a) reasons (an_objective a)) (\<lambda>evidence.
          case an_budget a of
            PDict b \<Rightarrow>
              (case fe_budget e b of
                 Inl x \<Rightarrow> Inl (ValueError (''invalid activation decision: '' @ x))
               | Inr budget \<Rightarrow>
                   (if dget budget ''bandwidth_kbps'' = PNone then Inl (ValueError ''budget must declare a finite bandwidth_kbps'')
                    else Inr \<lparr>af_start = start, af_stop = stop, af_reasons = reasons, af_evidence = evidence, af_budget = budget\<rparr>))
          | _ \<Rightarrow> Inl (ValueError ''budget must be a mapping or ResourceBudget'')))))"

definition activation_parts :: "fabric_env \<Rightarrow> activation \<Rightarrow> activation_fields \<Rightarrow> pyval list" where
  "activation_parts e a f =
     [PStr (an_package a), PStr (an_digest a), PStr (an_target a), PStr (an_tier a), sort_keys (PDict (af_budget f)), PStr (an_status a),
      PStr (fe_isoformat e (af_start f)), PStr (fe_isoformat e (af_stop f)), texts_val (af_evidence f), texts_val (af_reasons f)]"

definition derive_activation_decision_id :: "fabric_env \<Rightarrow> activation \<Rightarrow> activation_fields \<Rightarrow> string" where
  "derive_activation_decision_id e a f = digest_id e ''edge-activation'' (activation_parts e a f)"

definition build_activation_decision :: "fabric_env \<Rightarrow> activation \<Rightarrow> string \<Rightarrow> string option \<Rightarrow> pyexc + pydict" where
  "build_activation_decision e a decision_id key =
     ebind (activation_checks e a) (\<lambda>f.
       case fe_model e ''EnvironmentActivationDecision''
              [(''decision_id'', PStr (if decision_id \<noteq> [] then decision_id else derive_activation_decision_id e a f)), (''status'', PStr (an_status a)),
               (''package_id'', PStr (an_package a)), (''package_digest'', PStr (an_digest a)), (''target_node_id'', PStr (an_target a)),
               (''selected_tier'', PStr (an_tier a)), (''budget'', PDict (af_budget f)), (''effective_at'', PStr (fe_isoformat e (af_start f))),
               (''expires_at'', PStr (fe_isoformat e (af_stop f))), (''evidence_refs'', texts_val (af_evidence f)), (''reason_codes'', texts_val (af_reasons f))] of
         Inl x \<Rightarrow> Inl (ValueError (''invalid activation decision: '' @ x))
       | Inr payload \<Rightarrow> sign e payload key)"

definition derive_termination_decision_id :: "fabric_env \<Rightarrow> string \<Rightarrow> string \<Rightarrow> string \<Rightarrow> string \<Rightarrow> string list \<Rightarrow> string" where
  "derive_termination_decision_id e environment reason issued expires evidence =
     digest_id e ''edge-termination'' [PStr environment, PStr reason, PStr issued, PStr expires, texts_val evidence]"

definition build_termination_decision ::
    "fabric_env \<Rightarrow> string \<Rightarrow> pyval \<Rightarrow> pyval \<Rightarrow> pyval \<Rightarrow> pyval \<Rightarrow> pyval \<Rightarrow> string \<Rightarrow> string option \<Rightarrow> pyexc + pydict" where
  "build_termination_decision e environment reason as_of ttl evidence_refs objective_refs decision_id key =
     (case reason of
        PStr r \<Rightarrow>
          (if \<not> is_reason_code r then Inl (ValueError ''reason must be a short opaque code ([A-Za-z0-9._-]{1,64})'')
           else ebind (decision_window e as_of ttl) (\<lambda>(issued, stop).
             ebind (compose_evidence e evidence_refs [r] objective_refs) (\<lambda>evidence.
               case fe_model e ''EnvironmentTerminationDecision''
                      [(''decision_id'', PStr (if decision_id \<noteq> [] then decision_id
                           else derive_termination_decision_id e environment r (fe_isoformat e issued) (fe_isoformat e stop) evidence)),
                       (''environment_id'', PStr environment), (''reason'', PStr r), (''issued_at'', PStr (fe_isoformat e issued)),
                       (''expires_at'', PStr (fe_isoformat e stop)), (''evidence_refs'', texts_val evidence)] of
                 Inl x \<Rightarrow> Inl (ValueError (''invalid termination decision: '' @ x))
               | Inr payload \<Rightarrow> sign e payload key)))
      | _ \<Rightarrow> Inl (ValueError ''reason must be a short opaque code ([A-Za-z0-9._-]{1,64})''))"

end
