(* ===== verification/DeceptionProperties.thy ===== *)
theory DeceptionProperties
  imports DeceptionDecisions
begin

text \<open>
  What a decision record says: its id binds its fields, its window lies in the years a time can hold, and advice is only ever listed beside evidence and reasons of Edge.
\<close>

section \<open>The text of an id determines its parts\<close>

text \<open>Escaping what the raw text leaves as it is gives the ASCII text, whose injectivity is known.\<close>

definition hi_escape :: "char \<Rightarrow> string" where
  "hi_escape c = (if 127 \<le> (of_char c :: nat) then json_char c else [c])"

abbreviation escaped :: "string \<Rightarrow> string" where
  "escaped s \<equiv> concat (map hi_escape s)"

fun no_floats :: "pyval \<Rightarrow> bool" where
  "no_floats (PFloat _) = False"
| "no_floats (PList xs) = list_all no_floats xs"
| "no_floats (PDict d) = list_all (\<lambda>kv. no_floats (snd kv)) d"
| "no_floats v = True"

lemma low_unchanged: "list_all (\<lambda>c. (of_char c :: nat) < 127) s \<Longrightarrow> escaped s = s"
  by (induction s) (auto simp: hi_escape_def)

lemma low_hex: "n < 16 \<Longrightarrow> (of_char (hex_char n) :: nat) < 127"
  by (auto simp: hex_char_def)

lemma low_json_char: "(of_char c :: nat) < 127 \<Longrightarrow> list_all (\<lambda>c. (of_char c :: nat) < 127) (json_char c)"
  by (auto simp: json_char_def Let_def low_hex)

lemma escaped_char: "escaped (raw_json_char c) = json_char c"
proof (cases "127 \<le> (of_char c :: nat)")
  case True then show ?thesis by (simp add: raw_json_char_def hi_escape_def)
next
  case False then show ?thesis using low_unchanged [OF low_json_char] by (simp add: raw_json_char_def)
qed

lemma escaped_concat: "escaped (concat (map raw_json_char s)) = concat (map json_char s)"
  by (induction s) (simp_all add: escaped_char)

lemma escaped_str: "escaped (raw_json_str s) = json_str s"
  by (simp add: raw_json_str_def json_str_def escaped_concat hi_escape_def)

lemma escaped_join: "escaped (join sep xs) = join (escaped sep) (map escaped xs)"
  by (induction sep xs rule: join.induct) simp_all

lemma low_digits: "list_all (\<lambda>c. (of_char c :: nat) < 127) (nat_str n)"
  using nat_str_digits by (fastforce simp: list_all_iff is_digit_def Let_def)

lemma escaped_int: "escaped (int_str i) = int_str i"
  by (rule low_unchanged) (simp add: int_str_def low_digits)

lemma hi_marks [simp]: "hi_escape CHR ''['' = ''[''" "hi_escape CHR '']'' = '']''" "hi_escape CHR ''{'' = ''{''" "hi_escape CHR ''}'' = ''}''" "hi_escape CHR '','' = '',''"
  "hi_escape CHR '':'' = '':''"
  by (simp_all add: hi_escape_def)

lemma escaped_raw: "no_floats v \<Longrightarrow> escaped (raw_json v) = json_text v"
proof (induction v)
  case (PList xs)
  then have "map (\<lambda>x. escaped (raw_json x)) xs = map json_text xs" by (simp add: list_all_iff)
  then show ?case by (simp add: escaped_join o_def cong: map_cong)
next
  case (PDict d)
  then have "map (\<lambda>kv. escaped (raw_json_str (fst kv) @ '':'' @ raw_json (snd kv))) d = map (\<lambda>kv. json_str (fst kv) @ '':'' @ json_text (snd kv)) d"
    by (auto simp: list_all_iff escaped_str Basic_BNFs.snds.simps)
  then show ?case by (simp add: escaped_join o_def cong: map_cong)
qed (simp_all add: escaped_str escaped_int hi_escape_def)

lemma no_floats_wf: "no_floats v \<Longrightarrow> wf_json v"
  by (induction v rule: wf_json.induct) (auto simp: list_all_iff)

lemma raw_json_tree:
  assumes "no_floats v" "no_floats v'" "raw_json v = raw_json v'"
  shows "jtree_of v = jtree_of v'"
proof -
  have "json_text v = json_text v'" using escaped_raw [OF assms(1)] escaped_raw [OF assms(2)] assms(3) by simp
  then show ?thesis using json_text_prefix [of v v' "[]" "[]"] no_floats_wf assms(1,2) by (simp add: closes_def)
qed

lemma texts_tree: "map jtree_of (map PStr xs) = map jtree_of (map PStr ys) \<Longrightarrow> xs = ys"
  by (simp add: o_def) (metis jtree.inject(2) list.inj_map_strong)

text \<open>C31. Two transitions share a decision id only if they agree in every field the id is derived from, whatever characters the fields hold, or their different canonical texts
  collide in the shortened digest.\<close>

theorem transition_id_binds_its_fields:
  assumes "derive_decision_id e s = derive_decision_id e t"
  shows "s = t \<or> (raw_json (PList (transition_parts s)) \<noteq> raw_json (PList (transition_parts t))
    \<and> take 24 (fe_sha e (raw_json (PList (transition_parts s)))) = take 24 (fe_sha e (raw_json (PList (transition_parts t)))))"
proof (cases "raw_json (PList (transition_parts s)) = raw_json (PList (transition_parts t))")
  case True
  have "no_floats (PList (transition_parts u))" for u by (simp add: transition_parts_def texts_val_def list_all_iff split: option.splits)
  then have "map jtree_of (transition_parts s) = map jtree_of (transition_parts t)" using raw_json_tree True by fastforce
  then have "s = t" using texts_tree
    by (intro transition.equality) (auto simp: transition_parts_def texts_val_def split: option.splits)
  then show ?thesis ..
next
  case False
  then show ?thesis using assms by (simp add: derive_decision_id_def digest_id_def)
qed

section \<open>Advice\<close>

lemma advisory_ref: "has_prefix ''advisory:'' r \<Longrightarrow> is_advice r"
proof -
  assume "has_prefix ''advisory:'' r"
  then obtain b where "r = ''advisory:'' @ b" by (metis append_take_drop_id has_prefix_def)
  then show ?thesis by (simp add: is_advice_def ref_kind_text_def ADVISORY_KINDS_def py_lower_def py_strip_def is_space_def char_lower_def is_upper_def Let_def)
qed

lemma longer_prefix: "has_prefix (p @ q) r \<Longrightarrow> has_prefix p r"
  unfolding has_prefix_def by (metis append_eq_conv_conj append_take_drop_id take_append append_assoc)

lemma kind_is_advice: "ref_kind_of r = Inr k \<Longrightarrow> is_advice r"
proof (rule advisory_ref)
  assume "ref_kind_of r = Inr k"
  then have "has_prefix (''advisory:'' @ ''mio-objective-digest-'') r \<or> has_prefix (''advisory:'' @ ''mio-objective-'') r \<or> has_prefix (''advisory:'' @ ''mio-hypothesis-'') r
      \<or> has_prefix (''advisory:'' @ ''mio-frame-'') r"
    by (auto simp: ref_kind_of_def is_digest_ref_def DIGEST_PREFIX_def is_objective_ref_def is_hypothesis_ref_def is_frame_ref_def opaque_ref_def split: if_splits)
  then show "has_prefix ''advisory:'' r" using longer_prefix by blast
qed

definition refs_of :: "ref_kind \<Rightarrow> string list \<Rightarrow> string list" where
  "refs_of k refs = filter (\<lambda>r. ref_kind_of r = Inr k) refs"

lemma count_refs: "emap ref_kind_of refs = Inr ks \<Longrightarrow> count_kind k ks = length (refs_of k refs)"
  by (induction refs arbitrary: ks) (auto simp: ebind_Inr_iff count_kind_def refs_of_def)

text \<open>A set of references that is accepted is whole and opaque.\<close>

definition whole_chain :: "string list \<Rightarrow> bool" where
  "whole_chain refs = (sorted refs \<and> distinct refs \<and> (\<forall>r \<in> set refs. \<exists>k. ref_kind_of r = Inr k) \<and> length (refs_of Objective refs) = 1 \<and> length (refs_of Frame refs) = 1
     \<and> length (refs_of Hypothesis refs) \<le> 8 \<and> length (refs_of Digest refs) \<le> 1)"

lemma validated_refs: "validate_objective_refs e v = Inr refs \<Longrightarrow> refs = [] \<or> whole_chain refs"
proof -
  assume "validate_objective_refs e v = Inr refs"
  then obtain rs where r: "(if rs = [] then Inr [] else if \<not> distinct rs then Inl (ValueError ''objective_refs must not contain duplicates'')
       else ebind (emap ref_kind_of rs) (\<lambda>kinds.
         if count_kind Objective kinds \<noteq> 1 \<or> count_kind Frame kinds \<noteq> 1
         then Inl (ValueError ''objective_refs must carry exactly one objective ref and one frame ref'')
         else if 8 < count_kind Hypothesis kinds then Inl (ValueError ''objective_refs has more than 8 hypothesis refs'')
         else if 1 < count_kind Digest kinds then Inl (ValueError ''objective_refs must carry at most one objective digest ref'')
         else Inr (sort rs))) = Inr refs"
    by (auto simp: validate_objective_refs_def ebind_Inr_iff)
  show ?thesis
  proof (cases "rs = []")
    case True then show ?thesis using r by simp
  next
    case False
    then obtain ks where d: "distinct rs" and k: "emap ref_kind_of rs = Inr ks" and c: "count_kind Objective ks = 1" "count_kind Frame ks = 1"
        "\<not> 8 < count_kind Hypothesis ks" "\<not> 1 < count_kind Digest ks" "refs = sort rs"
      using r by (auto simp: ebind_Inr_iff split: if_splits)
    have "length (refs_of x (sort rs)) = count_kind x ks" for x using count_refs [OF k] by (simp add: refs_of_def filter_sort)
    then show ?thesis using d c emap_ok [OF k] by (auto simp: whole_chain_def)
  qed
qed

lemma chain_is_advice: "whole_chain refs \<Longrightarrow> filter is_advice refs = refs \<and> filter (\<lambda>r. \<not> is_advice r) refs = []"
  using kind_is_advice by (fastforce simp: whole_chain_def filter_empty_conv intro: filter_True)

lemma composed:
  assumes "compose_evidence e ev reasons obj = Inr out"
  shows "\<exists>own refs. out = own @ refs \<and> filter is_advice out = refs \<and> filter (\<lambda>r. \<not> is_advice r) out = own
    \<and> (refs \<noteq> [] \<longrightarrow> own \<noteq> [] \<and> reasons \<noteq> [] \<and> whole_chain refs) \<and> compose_evidence e ev reasons PNone = Inr own"
proof -
  obtain own refs where o: "ref_list e ev ''evidence_refs'' 32 = Inr own" "\<not> list_ex is_advice own" "validate_objective_refs e obj = Inr refs"
      "\<not> (refs \<noteq> [] \<and> (own = [] \<or> reasons = []))" "out = own @ refs"
    using assms by (auto simp: compose_evidence_def ebind_Inr_iff split: if_splits)
  have f: "filter is_advice own = []" "filter (\<lambda>r. \<not> is_advice r) own = own" using o(2) by (auto simp: list_ex_iff filter_empty_conv intro: filter_True)
  have g: "filter is_advice refs = refs" "filter (\<lambda>r. \<not> is_advice r) refs = []" using validated_refs [OF o(3)] chain_is_advice by auto
  have n: "compose_evidence e ev reasons PNone = Inr own" using o(1,2) by (simp add: compose_evidence_def validate_objective_refs_def ref_list_def)
  show ?thesis using o f g n validated_refs [OF o(3)] by (intro exI [of _ own] exI [of _ refs]) auto
qed

lemma window_bounds: "decision_window e v ttl = Inr (start, stop) \<Longrightarrow> start < stop \<and> in_range start \<and> in_range stop"
  by (auto simp: decision_window_def parse_iso_aware_def positive_ttl_def ebind_Inr_iff Let_def split: pyval.splits option.splits if_splits)

lemma activation_parts_ok:
  assumes "activation_checks e a = Inr f"
  shows "\<exists>start stop reasons evidence b budget. an_status a \<in> set EXECUTABLE_STATUSES \<and> decision_window e (an_as_of a) (an_ttl a) = Inr (start, stop)
    \<and> reason_code_list e (an_reasons a) = Inr reasons \<and> compose_evidence e (an_evidence a) reasons (an_objective a) = Inr evidence \<and> an_budget a = PDict b
    \<and> fe_budget e b = Inr budget \<and> dget budget ''bandwidth_kbps'' \<noteq> PNone
    \<and> f = \<lparr>af_start = start, af_stop = stop, af_reasons = reasons, af_evidence = evidence, af_budget = budget\<rparr>"
proof (cases "an_budget a")
  case (PDict b)
  then show ?thesis using assms by (cases "fe_budget e b") (auto simp: activation_checks_def ebind_Inr_iff split: if_splits)
qed (use assms in \<open>auto simp: activation_checks_def ebind_Inr_iff split: if_splits\<close>)


section \<open>Examples\<close>

definition ex_fabric :: fabric_env where
  "ex_fabric = \<lparr>fe_sha = id, fe_iso = (\<lambda>_. Some (Naive 0)), fe_isoformat = (\<lambda>_. ''t''), fe_printable = (\<lambda>_. True), fe_model = (\<lambda>_ d. Inr d), fe_budget = Inr, fe_sign = None\<rparr>"

definition ex_activation :: activation where
  "ex_activation = \<lparr>an_package = ''p'', an_digest = ''d'', an_target = ''n'', an_tier = ''low'', an_budget = PDict [(''bandwidth_kbps'', PInt 64)], an_as_of = PStr ''now'',
     an_ttl = PInt 300, an_status = ''accepted'', an_evidence = texts_val [''e1''], an_reasons = texts_val [''drift''],
     an_objective = texts_val [''advisory:mio-objective-o1'', ''advisory:mio-frame-f1'']\<rparr>"

lemma ex_activation_checks: "case activation_checks ex_fabric ex_activation of Inl _ \<Rightarrow> False
    | Inr f \<Rightarrow> af_evidence f = [''e1'', ''advisory:mio-frame-f1'', ''advisory:mio-objective-o1'']"
  by code_simp


definition ex_transition :: transition where
  "ex_transition = \<lparr>tn_environment = ''e'', tn_current = ''a'', tn_target = ''b'', tn_as_of = ''t'', tn_status = ''accepted'', tn_expires = None, tn_evidence = [], tn_reasons = []\<rparr>"

theorem transition_id_binds_its_fields_witness:
  "\<exists>t. derive_decision_id ex_fabric ex_transition = derive_decision_id ex_fabric t \<and> (ex_transition = t \<or> raw_json (PList (transition_parts ex_transition)) \<noteq> raw_json (PList (transition_parts t)))"
  using transition_id_binds_its_fields [of ex_fabric ex_transition ex_transition] by blast

text \<open>A time whose offset takes it out of the years a time can hold is not refused with the module's error: the interpreter's own error escapes.\<close>

lemma unguarded_offset:
  "decision_window (ex_fabric\<lparr>fe_iso := \<lambda>_. Some (Aware (MIN_TIME - 3600))\<rparr>) (PStr ''0001-01-01T00:00:00+01:00'') (PInt 300) = Inl (OverflowError [])"
  by (simp add: decision_window_def positive_ttl_def parse_iso_aware_def py_strip_def is_space_def in_range_def Let_def)

end
