(* ===== verification/EvidencePlane.thy ===== *)
theory EvidencePlane
  imports Values "HOL-Library.Product_Lexorder"
begin

text \<open>
  The events the evaluators read (\<open>evidence_plane/schema.py\<close>) and the client inventory made from them (\<open>evidence_plane/noc_inventory.py\<close>): leases, neighbour entries
  and flows become sessions, and the sessions are held against the devices of the source of truth. The module \<open>ipaddress\<close>, the clock and the reading of times are
  fields of the environment.
\<close>

section \<open>Events\<close>

record evidence_event =
  ee_id :: string
  ee_ts :: string
  ee_source :: string
  ee_kind :: string
  ee_subject :: string
  ee_severity :: int
  ee_confidence :: pyfloat
  ee_attrs :: pydict
  ee_status :: string
  ee_refs :: "pyval list"

definition REQUIRED_EVENT_FIELDS :: "string list" where
  "REQUIRED_EVENT_FIELDS = [''event_id'', ''ts'', ''source'', ''kind'', ''subject'', ''severity'', ''confidence'', ''attrs'']"

definition make_event_id :: "(string \<Rightarrow> string) \<Rightarrow> string \<Rightarrow> string \<Rightarrow> string \<Rightarrow> string \<Rightarrow> pydict \<Rightarrow> string" where
  "make_event_id sha ts source kind subject attrs =
     ''sha256:'' @ sha (json_dumps (PDict [(''ts'', PStr ts), (''source'', PStr source), (''kind'', PStr kind), (''subject'', PStr subject), (''attrs'', PDict attrs)]))"

text \<open>\<open>max(0.0, min(c, 1.0))\<close>: the first argument stays unless the second is below or above it, so NaN becomes 0.\<close>

definition clamp_unit :: "pyfloat \<Rightarrow> pyfloat" where
  "clamp_unit c =
     (let m = (if float_less (FFin 1 ''1.0'') c \<or> c = FNan then (if c = FNan then FNan else FFin 1 ''1.0'') else c)
      in if float_less (FFin 0 ''0.0'') m then m else FFin 0 ''0.0'')"

definition build_event ::
    "(string \<Rightarrow> string) \<Rightarrow> string \<Rightarrow> string \<Rightarrow> string \<Rightarrow> string \<Rightarrow> int \<Rightarrow> pyfloat \<Rightarrow> pydict \<Rightarrow> string \<Rightarrow> pyval list \<Rightarrow> evidence_event" where
  "build_event sha ts source kind subject severity confidence attrs status refs =
     \<lparr>ee_id = make_event_id sha ts source kind subject attrs, ee_ts = ts, ee_source = source, ee_kind = kind, ee_subject = subject,
      ee_severity = max 0 (min severity 100), ee_confidence = clamp_unit confidence, ee_attrs = attrs, ee_status = status, ee_refs = refs\<rparr>"

definition event_to_dict :: "(pyfloat \<Rightarrow> pyfloat) \<Rightarrow> evidence_event \<Rightarrow> pydict" where
  "event_to_dict round4 v =
     [(''event_id'', PStr (ee_id v)), (''ts'', PStr (ee_ts v)), (''source'', PStr (ee_source v)), (''kind'', PStr (ee_kind v)), (''subject'', PStr (ee_subject v)),
      (''severity'', PInt (ee_severity v)), (''confidence'', PFloat (round4 (ee_confidence v))), (''attrs'', PDict (ee_attrs v))]
     @ (if ee_status v \<noteq> [] then [(''status'', PStr (ee_status v))] else []) @ (if ee_refs v \<noteq> [] then [(''evidence_refs'', PList (ee_refs v))] else [])"

definition event_from_dict :: "(string \<Rightarrow> pyfloat option) \<Rightarrow> pydict \<Rightarrow> pyexc + evidence_event" where
  "event_from_dict read payload =
     (let missing = filter (\<lambda>k. \<not> has_key payload k) REQUIRED_EVENT_FIELDS in
      if missing \<noteq> [] then Inl (ValueError (''missing_required_fields:'' @ join ''|'' missing))
      else if \<not> is_dict (dget payload ''attrs'') then Inl (ValueError ''attrs_must_be_object'')
      else
        ebind (py_int (dget payload ''severity'')) (\<lambda>severity.
        ebind (py_float read (dget payload ''confidence'')) (\<lambda>confidence.
          Inr \<lparr>ee_id = text_of (dget payload ''event_id''), ee_ts = text_of (dget payload ''ts''), ee_source = text_of (dget payload ''source''),
               ee_kind = text_of (dget payload ''kind''), ee_subject = text_of (dget payload ''subject''), ee_severity = max 0 (min severity 100),
               ee_confidence = clamp_unit confidence, ee_attrs = dict_of (dget payload ''attrs''), ee_status = text_of (dget payload ''status''),
               ee_refs = (case dget payload ''evidence_refs'' of PList xs \<Rightarrow> map (\<lambda>x. PStr (py_str x)) xs | _ \<Rightarrow> [])\<rparr>)))"

section \<open>Devices and networks\<close>

record inv_env =
  iv_sha :: "string \<Rightarrow> string"
  iv_ip_ok :: "string \<Rightarrow> bool"
  iv_net_ok :: "string \<Rightarrow> bool"
  iv_in_net :: "string \<Rightarrow> string \<Rightarrow> bool"
  iv_global :: "string \<Rightarrow> bool"
  iv_timestamp :: "string \<Rightarrow> rat option"
  iv_now :: string
  iv_clock :: rat
  iv_cidrs :: string
  iv_interfaces :: string
  iv_float :: "string \<Rightarrow> pyfloat option"

definition replace_z :: "string \<Rightarrow> string" where
  "replace_z s = concat (map (\<lambda>c. if c = CHR ''Z'' then ''+00:00'' else [c]) s)"

definition epoch :: "inv_env \<Rightarrow> string \<Rightarrow> rat option" where
  "epoch e s = (let raw = py_strip s in if raw = [] then None else iv_timestamp e (replace_z raw))"

text \<open>\<open>_epoch(s) or default\<close>: a time of zero counts as none.\<close>

definition epoch_or :: "inv_env \<Rightarrow> string \<Rightarrow> rat \<Rightarrow> rat" where
  "epoch_or e s dflt = (case epoch e s of None \<Rightarrow> dflt | Some q \<Rightarrow> if q = 0 then dflt else q)"

definition network_id :: "inv_env \<Rightarrow> pydict list \<Rightarrow> string \<Rightarrow> string" where
  "network_id e networks ip =
     (if \<not> iv_ip_ok e ip then []
      else (case find (\<lambda>n. iv_net_ok e (text_of (dget n ''cidr'')) \<and> iv_in_net e ip (text_of (dget n ''cidr''))) networks of
              None \<Rightarrow> [] | Some n \<Rightarrow> text_of (dget n ''id'')))"

definition interface_family :: "string \<Rightarrow> string" where
  "interface_family name =
     (let t = py_lower (py_strip name) in
      if t = [] then ''unknown'' else if take 2 t = ''wl'' then ''wlan'' else if take 3 t = ''eth'' then ''eth'' else ''other'')"

definition comma_parts :: "string \<Rightarrow> string list" where
  "comma_parts raw = filter (\<lambda>s. s \<noteq> []) (map py_strip (split_on (CHR '','') (py_strip raw)))"

definition managed_client_cidrs :: "inv_env \<Rightarrow> string list option \<Rightarrow> string list" where
  "managed_client_cidrs e configured = filter (iv_net_ok e) (case configured of None \<Rightarrow> comma_parts (iv_cidrs e) | Some xs \<Rightarrow> xs)"

definition managed_client_interfaces :: "inv_env \<Rightarrow> string list option \<Rightarrow> string list" where
  "managed_client_interfaces e configured =
     filter (\<lambda>s. s \<noteq> []) (map (\<lambda>s. py_lower (py_strip s)) (case configured of None \<Rightarrow> map py_lower (comma_parts (iv_interfaces e)) | Some xs \<Rightarrow> xs))"

definition ip_in_managed_scope :: "inv_env \<Rightarrow> string list \<Rightarrow> string \<Rightarrow> bool" where
  "ip_in_managed_scope e cidrs ip = (let t = py_strip ip in t \<noteq> [] \<and> iv_ip_ok e t \<and> list_ex (iv_in_net e t) cidrs)"

definition dict_list :: "pydict \<Rightarrow> string \<Rightarrow> pydict list" where
  "dict_list d k = (case dget d k of PList xs \<Rightarrow> map dict_of (filter is_dict xs) | _ \<Rightarrow> [])"

definition devices_by :: "string \<Rightarrow> (string \<Rightarrow> string) \<Rightarrow> pydict list \<Rightarrow> (string \<times> pydict) list" where
  "devices_by key f devices = fold (\<lambda>d m. let k = f (text_of (dget d key)) in if k \<noteq> [] then AList.update k d m else m) devices []"

definition monitoring_scope :: "pydict \<Rightarrow> string" where
  "monitoring_scope device =
     (let s = py_lower (py_strip (py_str (py_or (dget device ''monitoring_scope'') (py_or (dget device ''managed_scope'') (PStr ''managed'')))))
      in if s \<noteq> [] then s else ''managed'')"

definition device_ignored :: "pydict \<Rightarrow> bool" where
  "device_ignored device = (monitoring_scope device = ''ignore'')"

definition device_key :: "pydict \<Rightarrow> string" where
  "device_key d = text_of (py_or (dget d ''id'') (py_or (dget d ''ip'') (dget d ''mac'')))"

section \<open>Sessions\<close>

record session =
  ss_mac :: string
  ss_ip :: string
  ss_hostname :: string
  ss_iface :: string
  ss_first :: string
  ss_last :: string
  ss_sources :: "string list"
  ss_hints :: "string list"
  ss_evidence :: "string list"
  ss_states :: "(string \<times> string) list"
  ss_arp :: string

definition no_session :: session where
  "no_session = \<lparr>ss_mac = [], ss_ip = [], ss_hostname = [], ss_iface = [], ss_first = [], ss_last = [], ss_sources = [], ss_hints = [], ss_evidence = [], ss_states = [], ss_arp = []\<rparr>"

type_synonym sessions = "(string \<times> session) list"

definition merge_seen :: "inv_env \<Rightarrow> (rat \<Rightarrow> rat \<Rightarrow> bool) \<Rightarrow> string \<Rightarrow> string \<Rightarrow> string" where
  "merge_seen e better seen ts =
     (if seen = [] then ts
      else (case (epoch e seen, epoch e ts) of
              (None, _) \<Rightarrow> ts
            | (Some c, Some t) \<Rightarrow> if better t c then ts else seen
            | (Some _, None) \<Rightarrow> seen))"

definition merge_ts :: "inv_env \<Rightarrow> string \<Rightarrow> session \<Rightarrow> session" where
  "merge_ts e ts s =
     (if ts = [] then s
      else s\<lparr>ss_first := merge_seen e (\<lambda>t c. t < c) (ss_first s) ts, ss_last := merge_seen e (\<lambda>t c. c < t) (ss_last s) ts\<rparr>)"

definition find_session :: "string \<Rightarrow> string \<Rightarrow> sessions \<Rightarrow> string option" where
  "find_session ip mac ss =
     map_option fst (find (\<lambda>(_, s). (mac \<noteq> [] \<and> ss_mac s \<noteq> [] \<and> ss_mac s = mac) \<or> (ip \<noteq> [] \<and> ss_ip s \<noteq> [] \<and> ss_ip s = ip)) ss)"

definition ensure_session :: "string \<Rightarrow> sessions \<Rightarrow> sessions" where
  "ensure_session key ss = (if has_key ss key then ss else ss @ [(key, no_session)])"

definition on_session :: "string \<Rightarrow> (session \<Rightarrow> session) \<Rightarrow> sessions \<Rightarrow> sessions" where
  "on_session key f ss = map (\<lambda>(k, s). (k, if k = key then f s else s)) ss"

text \<open>\<open>a or b\<close> on texts, and adding to a set of texts.\<close>

definition str_or :: "string \<Rightarrow> string \<Rightarrow> string" where
  "str_or a b = (if a \<noteq> [] then a else b)"

definition add_text :: "string \<Rightarrow> string list \<Rightarrow> string list" where
  "add_text x xs = (if x = [] \<or> x \<in> set xs then xs else xs @ [x])"

definition session_key :: "string \<Rightarrow> string \<Rightarrow> string \<Rightarrow> string" where
  "session_key ip mac iface = str_or mac (ip @ ''|'' @ str_or iface ''unknown'')"

text \<open>What a lease or a neighbour entry changes of its session.\<close>

definition sighting :: "inv_env \<Rightarrow> pydict list \<Rightarrow> string \<Rightarrow> string \<Rightarrow> string \<Rightarrow> string \<Rightarrow> string \<Rightarrow> pydict \<Rightarrow> session \<Rightarrow> session" where
  "sighting e networks source ip mac hostname iface payload s =
     (let attrs = dict_of (dget payload ''attrs''); state = text_of (dget attrs ''state'');
          where = (if iface \<noteq> [] \<and> py_lower (py_strip (ss_iface s)) \<in> {[], ''unknown''} then iface
                   else str_or (ss_iface s) (str_or iface (str_or (network_id e networks ip) ''unknown'')))
      in merge_ts e (text_of (dget payload ''ts''))
           (s\<lparr>ss_ip := str_or (ss_ip s) ip, ss_mac := str_or (ss_mac s) mac, ss_hostname := str_or (ss_hostname s) hostname, ss_iface := where,
              ss_arp := (if source = ''arp'' then state else ss_arp s), ss_sources := add_text source (ss_sources s),
              ss_states := AList.update source state (ss_states s), ss_evidence := add_text (text_of (dget payload ''event_id'')) (ss_evidence s)\<rparr>))"

definition on_lease :: "inv_env \<Rightarrow> pydict list \<Rightarrow> string list \<Rightarrow> pydict \<Rightarrow> sessions \<Rightarrow> sessions" where
  "on_lease e networks cidrs payload ss =
     (let attrs = dict_of (dget payload ''attrs''); ip = text_of (dget attrs ''ip''); mac = py_lower (text_of (dget attrs ''mac''));
          iface = text_of (dget attrs ''interface''); hostname = text_of (dget attrs ''hostname'') in
      if \<not> ip_in_managed_scope e cidrs ip then ss
      else
        (case find_session ip mac ss of
           Some k \<Rightarrow> on_session k (sighting e networks ''dhcp'' ip mac hostname iface payload) ss
         | None \<Rightarrow>
             (let k = session_key ip mac iface
              in on_session k (sighting e networks ''dhcp'' ip mac hostname iface payload) (ensure_session k ss))))"

definition on_arp :: "inv_env \<Rightarrow> pydict list \<Rightarrow> string list \<Rightarrow> string list \<Rightarrow> pydict \<Rightarrow> sessions \<Rightarrow> sessions" where
  "on_arp e networks cidrs interfaces payload ss =
     (let attrs = dict_of (dget payload ''attrs''); ip = text_of (dget attrs ''ip''); mac = py_lower (text_of (dget attrs ''mac''));
          iface = text_of (py_or (dget attrs ''bridge_port'') (py_or (dget attrs ''dev'') (dget attrs ''interface''))) in
      if \<not> ip_in_managed_scope e cidrs ip then ss
      else
        (let ss1 =
           (if find_session ip mac ss \<noteq> None then Some ss
            else if py_lower (py_strip iface) \<notin> set interfaces then None
            else (let k = session_key ip mac iface
                  in Some (on_session k (\<lambda>s. s\<lparr>ss_ip := ip, ss_mac := mac, ss_iface := str_or iface (ss_iface s)\<rparr>) (ensure_session k ss))))
         in case ss1 of
              None \<Rightarrow> ss
            | Some ss2 \<Rightarrow>
                (case find_session ip mac ss2 of
                   None \<Rightarrow> ss2
                 | Some k \<Rightarrow> on_session k (sighting e networks ''arp'' ip mac [] iface payload) ss2)))"

definition on_flow :: "inv_env \<Rightarrow> pydict list \<Rightarrow> string list \<Rightarrow> pydict \<Rightarrow> sessions \<Rightarrow> pyexc + sessions" where
  "on_flow e networks cidrs payload ss =
     (let attrs = dict_of (dget payload ''attrs''); ip = text_of (dget attrs ''src_ip'') in
      if ip = [] \<or> \<not> ip_in_managed_scope e cidrs ip then Inr ss
      else ebind (py_int (py_or (dget attrs ''dst_port'') (PInt 0))) (\<lambda>port.
        let hint = py_str (py_or (dget attrs ''app_proto'') (py_or (dget attrs ''proto'') (PStr ''unknown''))) @ '':'' @ int_str port in
        case find_session ip [] ss of
          None \<Rightarrow> Inr ss
        | Some k \<Rightarrow>
            Inr (on_session k (\<lambda>s. merge_ts e (text_of (dget payload ''ts''))
              (s\<lparr>ss_ip := str_or (ss_ip s) ip, ss_hints := add_text hint (ss_hints s),
                 ss_iface := str_or (ss_iface s) (str_or (network_id e networks ip) ''unknown''), ss_sources := add_text ''flow'' (ss_sources s),
                 ss_evidence := add_text (text_of (dget payload ''event_id'')) (ss_evidence s)\<rparr>)) ss)))"

definition inventory_step :: "inv_env \<Rightarrow> pydict list \<Rightarrow> string list \<Rightarrow> string list \<Rightarrow> pydict \<Rightarrow> sessions \<Rightarrow> pyexc + sessions" where
  "inventory_step e networks cidrs interfaces payload ss =
     (let kind = text_of (dget payload ''kind'') in
      if kind = ''dhcp_lease'' then Inr (on_lease e networks cidrs payload ss)
      else if kind = ''arp_entry'' then Inr (on_arp e networks cidrs interfaces payload ss)
      else if kind = ''flow_summary'' then on_flow e networks cidrs payload ss
      else Inr ss)"

fun efold :: "('a \<Rightarrow> 's \<Rightarrow> 'e + 's) \<Rightarrow> 'a list \<Rightarrow> 's \<Rightarrow> 'e + 's" where
  "efold f [] s = Inr s"
| "efold f (x # xs) s = ebind (f x s) (efold f xs)"

section \<open>The inventory\<close>

record inventory_limits =
  il_stale :: int
  il_new :: int
  il_cidrs :: "string list option"
  il_interfaces :: "string list option"

definition device_of :: "(string \<times> pydict) list \<Rightarrow> (string \<times> pydict) list \<Rightarrow> session \<Rightarrow> pydict" where
  "device_of by_mac by_ip s =
     (case map_of by_mac (ss_mac s) of Some d \<Rightarrow> d | None \<Rightarrow> (case map_of by_ip (ss_ip s) of Some d \<Rightarrow> d | None \<Rightarrow> []))"

definition link_mismatch :: "pydict \<Rightarrow> session \<Rightarrow> bool" where
  "link_mismatch device s =
     (let expected = py_strip (text_of (dget device ''expected_interface_or_segment'')); seen = py_strip (ss_iface s)
      in device \<noteq> [] \<and> expected \<noteq> [] \<and> seen \<noteq> [] \<and> py_lower expected \<noteq> py_lower seen)"

definition base_state :: "pydict \<Rightarrow> string" where
  "base_state device =
     (if device = [] then ''unknown_present'' else if truthy (dget_or device ''authorized'' (PBool True)) then ''authorized_present'' else ''unauthorized_present'')"

definition session_state :: "inv_env \<Rightarrow> int \<Rightarrow> rat \<Rightarrow> pydict \<Rightarrow> session \<Rightarrow> string" where
  "session_state e stale now device s =
     (if of_int (max 60 stale) < now - epoch_or e (ss_last s) now then ''stale_session''
      else if ''dhcp'' \<in> set (ss_sources s) \<and> ''arp'' \<notin> set (ss_sources s) then ''inventory_mismatch''
      else if link_mismatch device s \<and> base_state device = ''authorized_present'' then ''inventory_mismatch''
      else base_state device)"

text \<open>The counters a session raises.\<close>

definition session_counts :: "string \<Rightarrow> bool \<Rightarrow> bool \<Rightarrow> string list" where
  "session_counts state mismatch fresh =
     (if state = ''authorized_present'' then [''current_client_count'']
      else if state = ''unknown_present'' then [''current_client_count'', ''unknown_client_count'']
      else if state = ''unauthorized_present'' then [''current_client_count'', ''unauthorized_client_count'']
      else if state = ''inventory_mismatch'' then [''current_client_count'', ''inventory_mismatch_count''] @ (if mismatch then [''expected_link_mismatch_count''] else [])
      else if state = ''stale_session'' then [''stale_session_count'']
      else [])
     @ (if fresh then [''new_client_count''] else [])"

definition session_row :: "inv_env \<Rightarrow> string \<Rightarrow> string \<Rightarrow> pydict \<Rightarrow> string \<times> session \<Rightarrow> pyexc + pydict" where
  "session_row e now_text state device ks =
     (let s = snd ks in
      ebind (iter_val (py_or (dget device ''allowed_networks'') (PList []))) (\<lambda>nets.
        Inr [(''session_key'', PStr (fst ks)), (''mac'', PStr (ss_mac s)), (''ip'', PStr (ss_ip s)), (''hostname'', PStr (ss_hostname s)),
          (''interface_or_segment'', PStr (str_or (ss_iface s) ''unknown'')), (''interface_family'', PStr (interface_family (ss_iface s))),
          (''first_seen'', PStr (str_or (ss_first s) now_text)), (''last_seen'', PStr (str_or (ss_last s) now_text)),
          (''sources_present'', texts_val (sort (ss_sources s))),
          (''session_origin'', PStr (if ''dhcp'' \<in> set (ss_sources s) \<and> ''arp'' \<in> set (ss_sources s) then ''dhcp_arp''
             else if ''dhcp'' \<in> set (ss_sources s) then ''dhcp'' else if ''arp'' \<in> set (ss_sources s) then ''arp_only'' else ''unknown'')),
          (''service_hints'', texts_val (sort (ss_hints s))), (''sot_status'', PStr (if device \<noteq> [] then ''known'' else ''unknown'')),
          (''session_state'', PStr state), (''arp_state'', PStr (ss_arp s)), (''evidence_ids'', texts_val (sort (ss_evidence s))),
          (''monitoring_scope'', PStr (if device \<noteq> [] then monitoring_scope device else ''managed'')), (''notes'', PStr (text_of (dget device ''notes''))),
          (''allowed_networks'', texts_val (filter (\<lambda>t. t \<noteq> []) (map py_str nets))),
          (''expected_interface_or_segment'', PStr (py_strip (text_of (dget device ''expected_interface_or_segment'')))),
          (''expected_link_mismatch'', PBool (link_mismatch device s))]))"

text \<open>A session of an ignored device is counted as such and has no row.\<close>

definition session_entry ::
    "inv_env \<Rightarrow> inventory_limits \<Rightarrow> rat \<Rightarrow> (string \<times> pydict) list \<Rightarrow> (string \<times> pydict) list \<Rightarrow> string \<times> session \<Rightarrow> pyexc + (pydict list \<times> string list \<times> string list)" where
  "session_entry e limits now by_mac by_ip ks =
     (let s = snd ks; device = device_of by_mac by_ip s in
      if device \<noteq> [] \<and> device_ignored device then Inr ([], [''ignored_client_count''], [])
      else
        (let state = session_state e (il_stale limits) now device s;
             fresh = (now - epoch_or e (ss_first s) now \<le> of_int (max 60 (il_new limits)))
         in ebind (session_row e (iv_now e) state device ks) (\<lambda>row.
              Inr ([row], session_counts state (link_mismatch device s) fresh, if device_key device \<noteq> [] then [device_key device] else []))))"

definition missing_row :: "inv_env \<Rightarrow> pydict list \<Rightarrow> pydict \<Rightarrow> pydict" where
  "missing_row e networks d =
     [(''session_key'', PStr (''sot:'' @ device_key d)), (''mac'', PStr (py_lower (text_of (dget d ''mac'')))), (''ip'', PStr (text_of (dget d ''ip''))),
      (''hostname'', PStr (text_of (dget d ''hostname''))), (''interface_or_segment'', PStr (str_or (network_id e networks (text_of (dget d ''ip''))) ''expected'')),
      (''first_seen'', PStr []), (''last_seen'', PStr []), (''sources_present'', PList []), (''service_hints'', PList []), (''sot_status'', PStr ''known''),
      (''session_state'', PStr ''authorized_missing''), (''arp_state'', PStr []), (''evidence_ids'', PList [])]"

definition COUNTERS :: "string list" where
  "COUNTERS = [''current_client_count'', ''new_client_count'', ''unknown_client_count'', ''unauthorized_client_count'', ''inventory_mismatch_count'',
     ''expected_link_mismatch_count'', ''stale_session_count'', ''authorized_missing_count'', ''ignored_client_count'']"

record inventory =
  in_summary :: "(string \<times> int) list"
  in_sessions :: "pydict list"
  in_evidence :: "string list"

definition row_key :: "pydict \<Rightarrow> string \<times> string \<times> string" where
  "row_key r = (text_of (dget r ''session_state''), text_of (dget r ''ip''), text_of (dget r ''mac''))"

definition build_client_inventory :: "inv_env \<Rightarrow> inventory_limits \<Rightarrow> pydict list \<Rightarrow> pydict \<Rightarrow> pyexc + inventory" where
  "build_client_inventory e limits payloads sot =
     (let devices = dict_list sot ''devices''; networks = dict_list sot ''networks'';
          by_ip = devices_by ''ip'' id devices; by_mac = devices_by ''mac'' py_lower devices;
          now = epoch_or e (iv_now e) (iv_clock e) in
      ebind (efold (inventory_step e networks (managed_client_cidrs e (il_cidrs limits)) (managed_client_interfaces e (il_interfaces limits))) payloads []) (\<lambda>ss.
      ebind (emap (session_entry e limits now by_mac by_ip) ss) (\<lambda>entries.
        let seen = concat (map (\<lambda>t. snd (snd t)) entries);
            missing = filter (\<lambda>d. \<not> device_ignored d \<and> device_key d \<noteq> [] \<and> device_key d \<notin> set seen) devices;
            raised = concat (map (\<lambda>t. fst (snd t)) entries) @ map (\<lambda>_. ''authorized_missing_count'') missing;
            rows = sort_key row_key (concat (map fst entries) @ map (missing_row e networks) missing)
        in Inr \<lparr>in_summary = map (\<lambda>k. (k, int (length (filter (\<lambda>r. r = k) raised)))) COUNTERS, in_sessions = rows,
             in_evidence = sort (dedup (filter (\<lambda>s. s \<noteq> []) (concat (map (\<lambda>r. map py_str (list_val (dget r ''evidence_ids''))) rows))))\<rparr>)))"

section \<open>Inventory events\<close>

text \<open>\<open>ts\<close> is the time of the events; it is read again where the caller gives none.\<close>

definition row_severity :: "string \<Rightarrow> int" where
  "row_severity state =
     (if state \<in> {''unauthorized_present'', ''inventory_mismatch''} then 60
      else if state \<in> {''unknown_present'', ''stale_session'', ''authorized_missing''} then 35 else 0)"

definition session_event :: "inv_env \<Rightarrow> string \<Rightarrow> pydict \<Rightarrow> evidence_event" where
  "session_event e ts row =
     (let state = py_str (py_or (dget row ''session_state'') (PStr ''unknown_present'')); severity = row_severity state in
      build_event (iv_sha e) ts ''noc_probe'' ''client_session''
        (text_of (py_or (dget row ''ip'') (py_or (dget row ''mac'') (py_or (dget row ''session_key'') (PStr ''client'')))))
        severity (FFin (85 / 100) ''0.85'') row (if 0 < severity then ''warn'' else ''info'') (list_val (dget row ''evidence_ids'')))"

definition counter :: "inventory \<Rightarrow> string \<Rightarrow> int" where
  "counter i k = (case map_of (in_summary i) k of None \<Rightarrow> 0 | Some n \<Rightarrow> n)"

definition summary_event :: "inv_env \<Rightarrow> string \<Rightarrow> inventory \<Rightarrow> evidence_event" where
  "summary_event e ts i =
     (let bad = (counter i ''unauthorized_client_count'' \<noteq> 0 \<or> counter i ''inventory_mismatch_count'' \<noteq> 0);
          odd_ones = (counter i ''unknown_client_count'' \<noteq> 0 \<or> counter i ''stale_session_count'' \<noteq> 0)
      in build_event (iv_sha e) ts ''noc_probe'' ''client_inventory_summary'' ''client_inventory'' (if bad then 60 else if odd_ones then 35 else 0)
           (FFin (9 / 10) ''0.9'') (map (\<lambda>kn. (fst kn, PInt (snd kn))) (in_summary i) @ [(''sessions'', PList (map PDict (take 10 (in_sessions i))))])
           (if bad \<or> counter i ''unknown_client_count'' \<noteq> 0 then ''warn'' else ''info'') (map PStr (in_evidence i)))"

definition build_client_inventory_events :: "inv_env \<Rightarrow> string \<Rightarrow> inventory_limits \<Rightarrow> pydict list \<Rightarrow> pydict \<Rightarrow> pyexc + evidence_event list" where
  "build_client_inventory_events e ts limits payloads sot =
     ebind (build_client_inventory e limits payloads sot) (\<lambda>i. Inr (map (session_event e ts) (in_sessions i) @ [summary_event e ts i]))"

end
