(* ===== verification/NocEvaluator.thy ===== *)
theory NocEvaluator
  imports EvidencePlane NocSupport Correlation
begin

text \<open>
  The NOC evaluator (\<open>evaluators/noc.py\<close>): nine dimensions of health from 0 to 100, the scope an incident affects, its summary, and the input of the arbiter. A
  dimension starts from a base score; what the events take from it is a list of marks, one per event and loop, in the order of the code.
\<close>

section \<open>Configuration\<close>

type_synonym noc_config = "(string \<times> (string \<times> int) list) list"

definition NOC_CONFIG :: noc_config where
  "NOC_CONFIG =
     [(''availability'', [(''icmp_unreachable_penalty'', 60), (''service_off_penalty'', 15), (''collector_failure_penalty'', 10)]),
      (''path_health'', [(''probe_failed_penalty'', 40), (''iface_degraded_penalty'', 25), (''collector_failure_penalty'', 10)]),
      (''device_health'', [(''cpu_hot_threshold'', 90), (''cpu_elevated_threshold'', 75), (''cpu_hot_penalty'', 25), (''cpu_elevated_penalty'', 10),
         (''mem_pressure_threshold'', 90), (''mem_elevated_threshold'', 75), (''mem_pressure_penalty'', 30), (''mem_elevated_penalty'', 15), (''temp_hot_threshold'', 80),
         (''temp_elevated_threshold'', 65), (''temp_hot_penalty'', 25), (''temp_elevated_penalty'', 10), (''collector_failure_penalty'', 10)]),
      (''client_health'', [(''no_client_evidence_score'', 70), (''inventory_mismatch_penalty_per_client'', 5), (''inventory_mismatch_penalty_cap'', 25),
         (''stale_arp_penalty_per_entry'', 5), (''stale_arp_penalty_cap'', 25), (''unknown_client_penalty_per_client'', 5), (''unknown_client_penalty_cap'', 20)]),
      (''capacity_health'', [(''elevated_penalty'', 15), (''congested_penalty'', 35), (''unknown_penalty'', 10), (''high_concentration_penalty'', 10)]),
      (''client_inventory_health'', [(''unknown_client_penalty_per_client'', 8), (''unknown_client_penalty_cap'', 24), (''unauthorized_client_penalty_per_client'', 12),
         (''unauthorized_client_penalty_cap'', 36), (''inventory_mismatch_penalty_per_client'', 10), (''inventory_mismatch_penalty_cap'', 30),
         (''stale_session_penalty_per_client'', 5), (''stale_session_penalty_cap'', 20), (''authorized_missing_penalty_per_client'', 4), (''authorized_missing_penalty_cap'', 16)]),
      (''service_health'', [(''probe_failed_penalty'', 20), (''window_degraded_penalty'', 10), (''window_down_penalty'', 25), (''collector_failure_penalty'', 10)]),
      (''resolution_health'', [(''probe_failed_penalty'', 25), (''window_degraded_penalty'', 10), (''window_failed_penalty'', 30), (''collector_failure_penalty'', 10)]),
      (''config_drift_health'', [(''drift_penalty_per_field'', 8), (''drift_penalty_cap'', 32), (''baseline_missing_penalty'', 12), (''baseline_invalid_penalty'', 20)])]"

text \<open>Every key that is read is in the default, so a lookup always succeeds.\<close>

definition cfg :: "noc_config \<Rightarrow> string \<Rightarrow> string \<Rightarrow> int" where
  "cfg c sec key = (case map_of c sec of None \<Rightarrow> 0 | Some s \<Rightarrow> (case map_of s key of None \<Rightarrow> 0 | Some n \<Rightarrow> n))"

fun is_number :: "pyval \<Rightarrow> bool" where
  "is_number (PInt _) = True"
| "is_number (PBool _) = True"
| "is_number (PFloat _) = True"
| "is_number _ = False"

definition set_config :: "string \<Rightarrow> string \<times> pyval \<Rightarrow> noc_config \<Rightarrow> pyexc + noc_config" where
  "set_config sec kv c =
     (if \<not> is_number (snd kv) then Inr c
      else ebind (py_int (snd kv)) (\<lambda>n. Inr (AList.update sec (AList.update (fst kv) n (case map_of c sec of None \<Rightarrow> [] | Some s \<Rightarrow> s)) c)))"

definition merge_section :: "string \<times> pyval \<Rightarrow> noc_config \<Rightarrow> pyexc + noc_config" where
  "merge_section sv c =
     (case snd sv of PDict values \<Rightarrow> if has_key c (fst sv) then efold (set_config (fst sv)) values c else Inr c | _ \<Rightarrow> Inr c)"

definition merge_config :: "pyval \<Rightarrow> pyexc + noc_config" where
  "merge_config v =
     (case v of
        PDict d \<Rightarrow>
          ebind (efold merge_section d NOC_CONFIG) (\<lambda>c.
            if cfg c ''capacity_health'' ''elevated_penalty'' < 0 \<or> cfg c ''capacity_health'' ''congested_penalty'' < cfg c ''capacity_health'' ''elevated_penalty''
            then Inl (ValueError ''invalid_capacity_health_config'')
            else if cfg c ''client_inventory_health'' ''unauthorized_client_penalty_per_client'' < cfg c ''client_inventory_health'' ''unknown_client_penalty_per_client''
            then Inl (ValueError ''invalid_client_inventory_health_config'')
            else if cfg c ''service_health'' ''window_down_penalty'' < cfg c ''service_health'' ''window_degraded_penalty'' then Inl (ValueError ''invalid_service_health_config'')
            else if cfg c ''resolution_health'' ''window_failed_penalty'' < cfg c ''resolution_health'' ''window_degraded_penalty''
            then Inl (ValueError ''invalid_resolution_health_config'')
            else if cfg c ''config_drift_health'' ''drift_penalty_cap'' < cfg c ''config_drift_health'' ''drift_penalty_per_field''
            then Inl (ValueError ''invalid_config_drift_health_config'')
            else Inr c)
      | _ \<Rightarrow> Inr NOC_CONFIG)"

section \<open>Dimensions\<close>

definition bucket :: "int \<Rightarrow> string" where
  "bucket score = (if 90 \<le> score then ''good'' else if 70 \<le> score then ''degraded'' else if 40 \<le> score then ''poor'' else ''critical'')"

record dimension =
  dm_score :: int
  dm_label :: string
  dm_reasons :: "string list"
  dm_ids :: "string list"
  dm_hint :: "string option"

definition make_dimension :: "int \<Rightarrow> string list \<Rightarrow> string list \<Rightarrow> dimension" where
  "make_dimension score reasons ids =
     \<lparr>dm_score = max 0 (min 100 score), dm_label = bucket score, dm_reasons = reasons, dm_ids = sort (dedup ids), dm_hint = None\<rparr>"

record penalty =
  mk_cost :: int
  mk_reasons :: "string list"
  mk_ids :: "string list"

definition mark :: "int \<Rightarrow> string list \<Rightarrow> string list \<Rightarrow> penalty" where
  "mark cost reasons ids = \<lparr>mk_cost = cost, mk_reasons = reasons, mk_ids = ids\<rparr>"

definition dimension_of :: "int \<Rightarrow> penalty list \<Rightarrow> dimension" where
  "dimension_of base ms = make_dimension (base - sum_list (map mk_cost ms)) (concat (map mk_reasons ms)) (concat (map mk_ids ms))"

definition of_kind :: "string \<Rightarrow> pydict list \<Rightarrow> pydict list" where
  "of_kind k payloads = filter (\<lambda>p. text_of (dget p ''kind'') = k) payloads"

definition event_id :: "pydict \<Rightarrow> string" where
  "event_id p = text_of (dget p ''event_id'')"

definition upper :: "string \<Rightarrow> string" where
  "upper = map (\<lambda>c. if is_lower c then char_of (of_char c - 32 :: nat) else c)"

text \<open>A mark without condition for the evidence, with one for the penalty.\<close>

definition mark_if :: "bool \<Rightarrow> int \<Rightarrow> string \<Rightarrow> pydict \<Rightarrow> penalty" where
  "mark_if b cost reason p = mark (if b then cost else 0) (if b then [reason] else []) [event_id p]"

definition nothing :: penalty where
  "nothing = mark 0 [] []"

definition collector_mark :: "noc_config \<Rightarrow> string \<Rightarrow> string list \<Rightarrow> pydict \<Rightarrow> penalty" where
  "collector_mark c sec collectors p =
     (let collector = text_of (dget (attrs_of p) ''collector'') in
      if collector \<in> set collectors then mark (cfg c sec ''collector_failure_penalty'') [''collector_failure:'' @ collector] [event_id p] else nothing)"

definition collector_marks :: "noc_config \<Rightarrow> string \<Rightarrow> string list \<Rightarrow> pydict list \<Rightarrow> penalty list" where
  "collector_marks c sec collectors payloads = map (collector_mark c sec collectors) (of_kind ''collector_failure'' payloads)"

definition target_name :: "pydict \<Rightarrow> string \<Rightarrow> string" where
  "target_name p k = py_str (py_or (dget (attrs_of p) k) (dget p ''subject''))"

definition service_mark :: "noc_config \<Rightarrow> pydict \<Rightarrow> penalty" where
  "service_mark c p =
     (let attrs = attrs_of p; name = target_name p ''target'' in
      if upper (text_of (dget attrs ''state'')) \<noteq> ''ON'' then mark (cfg c ''availability'' ''service_off_penalty'') [''service_off:'' @ name] [event_id p]
      else if py_lower (text_of (dget attrs ''substate'')) \<notin> {''running'', ''listening'', ''unknown''} then mark 5 [''service_degraded:'' @ name] [event_id p]
      else if py_lower (text_of (dget attrs ''result'')) \<notin> {''success'', ''unknown''} then mark 5 [''service_result:'' @ name] [event_id p]
      else mark 0 [] [event_id p])"

definition reachable :: "pydict \<Rightarrow> bool" where
  "reachable p = truthy (dget (attrs_of p) ''reachable'')"

definition evaluate_availability :: "noc_config \<Rightarrow> pydict list \<Rightarrow> dimension" where
  "evaluate_availability c payloads =
     dimension_of 100
       (map (\<lambda>p. mark_if (\<not> reachable p) (cfg c ''availability'' ''icmp_unreachable_penalty'') ''icmp_unreachable'' p) (of_kind ''icmp_probe'' payloads)
        @ map (service_mark c) (of_kind ''service_health'' payloads)
        @ collector_marks c ''availability'' [''icmp'', ''service_health''] payloads)"

definition path_probe_mark :: "pydict \<Rightarrow> penalty" where
  "path_probe_mark p =
     (let scope = text_of (dget (attrs_of p) ''scope'')
      in mark_if (\<not> reachable p) (if scope = ''external'' then 20 else 10) (''path_probe_failed:'' @ (if scope \<noteq> [] then scope else ''unknown'')) p)"

text \<open>Probes that disagree, and interfaces that disagree on being wholly reachable.\<close>

definition divergence_marks :: "pydict list \<Rightarrow> penalty list" where
  "divergence_marks probes =
     (let named = filter (\<lambda>p. text_of (dget (attrs_of p) ''interface'') \<noteq> []) probes;
          ifaces = dedup (map (\<lambda>p. text_of (dget (attrs_of p) ''interface'')) named);
          healthy = (\<lambda>i. list_all reachable (filter (\<lambda>p. text_of (dget (attrs_of p) ''interface'') = i) named))
      in (if 1 < length (dedup (map reachable probes)) then [mark 15 [''path_target_divergence''] []] else [])
         @ (if 1 < length ifaces \<and> 1 < length (dedup (map healthy ifaces)) then [mark 10 [''uplink_divergence''] []] else []))"

definition iface_mark :: "noc_config \<Rightarrow> pydict \<Rightarrow> pyexc + penalty" where
  "iface_mark c p =
     ebind (py_int (py_or (dget (attrs_of p) ''carrier'') (PInt 0))) (\<lambda>carrier.
       Inr (mark_if (py_lower (text_of (dget (attrs_of p) ''operstate'')) \<noteq> ''up'' \<or> carrier \<noteq> 1) (cfg c ''path_health'' ''iface_degraded_penalty'')
              (''iface_degraded:'' @ target_name p ''interface'') p))"

definition evaluate_path_health :: "noc_config \<Rightarrow> pydict list \<Rightarrow> pyexc + dimension" where
  "evaluate_path_health c payloads =
     ebind (emap (iface_mark c) (of_kind ''iface_stats'' payloads)) (\<lambda>ifaces.
       Inr (dimension_of 100
         (map (\<lambda>p. mark_if (\<not> reachable p) (cfg c ''path_health'' ''probe_failed_penalty'') ''path_probe_failed'' p) (of_kind ''icmp_probe'' payloads)
          @ map path_probe_mark (of_kind ''path_probe'' payloads) @ divergence_marks (of_kind ''path_probe'' payloads) @ ifaces
          @ map (\<lambda>p. mark_if (py_lower (text_of (dget (attrs_of p) ''flow_state'')) \<in> {''failed'', ''reset'', ''timeout''}) 10 ''flow_path_instability'' p)
              (of_kind ''flow_summary'' payloads)
          @ collector_marks c ''path_health'' [''icmp'', ''iface_stats'', ''path_probes''] payloads)))"

text \<open>\<open>f >= n\<close> for a float and an integer.\<close>

fun float_at_least :: "pyfloat \<Rightarrow> int \<Rightarrow> bool" where
  "float_at_least (FFin q _) n = (of_int n \<le> q)"
| "float_at_least FNan n = False"
| "float_at_least (FInf neg) n = (\<not> neg)"

definition level_mark :: "bool \<Rightarrow> int \<Rightarrow> string \<Rightarrow> bool \<Rightarrow> int \<Rightarrow> string \<Rightarrow> penalty" where
  "level_mark high hc hr elevated ec er = (if high then mark hc [hr] [] else if elevated then mark ec [er] [] else nothing)"

definition device_marks :: "noc_config \<Rightarrow> inv_env \<Rightarrow> pydict \<Rightarrow> pyexc + penalty list" where
  "device_marks c e p =
     (let attrs = attrs_of p; g = cfg c ''device_health'' in
      ebind (py_float (iv_float e) (py_or (dget attrs ''cpu_percent'') (PFloat (FFin 0 ''0.0'')))) (\<lambda>cpu.
      ebind (case py_or (dget attrs ''memory'') (PDict []) of PDict m \<Rightarrow> py_int (py_or (dget m ''percent'') (PInt 0)) | _ \<Rightarrow> Inl (AttributeError [])) (\<lambda>mem.
      ebind (py_float (iv_float e) (py_or (dget attrs ''temperature_c'') (PFloat (FFin 0 ''0.0'')))) (\<lambda>temp.
        Inr [mark 0 [] [event_id p],
          level_mark (float_at_least cpu (g ''cpu_hot_threshold'')) (g ''cpu_hot_penalty'') ''cpu_hot''
            (float_at_least cpu (g ''cpu_elevated_threshold'')) (g ''cpu_elevated_penalty'') ''cpu_elevated'',
          level_mark (g ''mem_pressure_threshold'' \<le> mem) (g ''mem_pressure_penalty'') ''memory_pressure''
            (g ''mem_elevated_threshold'' \<le> mem) (g ''mem_elevated_penalty'') ''memory_elevated'',
          level_mark (float_at_least temp (g ''temp_hot_threshold'')) (g ''temp_hot_penalty'') ''device_hot''
            (float_at_least temp (g ''temp_elevated_threshold'')) (g ''temp_elevated_penalty'') ''temperature_elevated'']))))"

definition evaluate_device_health :: "noc_config \<Rightarrow> inv_env \<Rightarrow> pydict list \<Rightarrow> pyexc + dimension" where
  "evaluate_device_health c e payloads =
     ebind (emap (device_marks c e) (of_kind ''cpu_mem_temp'' payloads)) (\<lambda>ms.
       Inr (dimension_of 100 (concat ms @ collector_marks c ''device_health'' [''cpu_mem_temp''] payloads)))"

definition pressure_mark :: "noc_config \<Rightarrow> pydict \<Rightarrow> penalty" where
  "pressure_mark c p =
     (let attrs = attrs_of p; state = py_str (py_or (dget attrs ''state'') (PStr ''unknown'')); mode = py_str (py_or (dget attrs ''mode'') (PStr ''unknown''))
      in if state = ''congested'' then mark (cfg c ''capacity_health'' ''congested_penalty'') [''capacity_congested:'' @ mode] [event_id p]
         else if state = ''elevated'' then mark (cfg c ''capacity_health'' ''elevated_penalty'') [''capacity_elevated:'' @ mode] [event_id p]
         else if state = ''unknown'' then mark (cfg c ''capacity_health'' ''unknown_penalty'') [''capacity_unknown:'' @ mode] [event_id p]
         else mark 0 [] [event_id p])"

definition evaluate_capacity_health :: "noc_config \<Rightarrow> pydict list \<Rightarrow> dimension" where
  "evaluate_capacity_health c payloads =
     dimension_of 100
       (map (pressure_mark c) (of_kind ''capacity_pressure'' payloads)
        @ map (\<lambda>p. mark_if (truthy (dget (attrs_of p) ''high_concentration'')) (cfg c ''capacity_health'' ''high_concentration_penalty'') ''traffic_concentration_high'' p)
            (of_kind ''traffic_concentration'' payloads))"

section \<open>Clients\<close>

definition one_way_mark :: "pydict \<Rightarrow> pyexc + penalty" where
  "one_way_mark p =
     ebind (py_int (py_or (dget (attrs_of p) ''pkts_toserver'') (PInt 0))) (\<lambda>sent.
       if sent < 20 then Inr (mark 0 [] [event_id p])
       else ebind (py_int (py_or (dget (attrs_of p) ''pkts_toclient'') (PInt 0))) (\<lambda>got.
         Inr (mark_if (got = 0) 10 ''one_way_client_flow'' p)))"

definition ips_of :: "pydict list \<Rightarrow> string list" where
  "ips_of ps = dedup (filter (\<lambda>s. s \<noteq> []) (map (\<lambda>p. text_of (dget (attrs_of p) ''ip'')) ps))"

definition capped_mark :: "noc_config \<Rightarrow> string \<Rightarrow> string \<Rightarrow> string \<Rightarrow> int \<Rightarrow> string \<Rightarrow> penalty list" where
  "capped_mark c sec cap per n reason = (if n = 0 then [] else [mark (min (cfg c sec cap) (cfg c sec per * n)) [reason] []])"

definition unauthorized_devices :: "pydict \<Rightarrow> pyval list" where
  "unauthorized_devices sot_diff = (case dget sot_diff ''unauthorized_devices'' of PList xs \<Rightarrow> xs | _ \<Rightarrow> [])"

definition text_items :: "pyval list \<Rightarrow> string list" where
  "text_items xs = filter (\<lambda>s. s \<noteq> []) (map py_str xs)"

text \<open>An empty dictionary stands for a source of truth, or a difference from it, that is not given.\<close>

definition known_ips :: "pydict \<Rightarrow> string list" where
  "known_ips sot = filter (\<lambda>s. s \<noteq> []) (map (\<lambda>d. text_of (dget d ''ip'')) (dict_list sot ''devices''))"

definition diff_marks :: "noc_config \<Rightarrow> pydict \<Rightarrow> pyexc + penalty list" where
  "diff_marks c sot_diff =
     (let n = int (length (unauthorized_devices sot_diff)) in
      if n = 0 then Inr []
      else ebind (iter_val (dget_or sot_diff ''evidence_ids'' (PList []))) (\<lambda>xs.
        Inr [mark (min (cfg c ''client_health'' ''unknown_client_penalty_cap'') (cfg c ''client_health'' ''unknown_client_penalty_per_client'' * n))
               [''unauthorized_devices_present''] (text_items xs)]))"

text \<open>Without any client address the score starts again from the configured one, whatever the flows took before.\<close>

definition evaluate_client_health :: "noc_config \<Rightarrow> pydict list \<Rightarrow> pydict \<Rightarrow> pydict \<Rightarrow> pyexc + dimension" where
  "evaluate_client_health c payloads sot sot_diff =
     (let leases = of_kind ''dhcp_lease'' payloads; arps = of_kind ''arp_entry'' payloads; dhcp = ips_of leases; arp = ips_of arps;
          stale = length (filter (\<lambda>p. upper (text_of (dget (attrs_of p) ''state'')) \<in> {''STALE'', ''FAILED'', ''INCOMPLETE''}) arps);
          seen = dedup (dhcp @ arp);
          mismatched = length (filter (\<lambda>i. (i \<in> set dhcp) \<noteq> (i \<in> set arp)) seen);
          known = known_ips sot;
          unknown = (if known = [] then 0 else length (filter (\<lambda>i. i \<notin> set known) seen));
          ids = [mark 0 [] (map event_id leases @ map event_id arps)];
          later = capped_mark c ''client_health'' ''unknown_client_penalty_cap'' ''unknown_client_penalty_per_client'' (int unknown) ''unknown_clients_present'' in
      ebind (emap one_way_mark (of_kind ''flow_summary'' payloads)) (\<lambda>flows.
      ebind (diff_marks c sot_diff) (\<lambda>diffs.
        Inr (if seen = []
             then dimension_of (cfg c ''client_health'' ''no_client_evidence_score'')
                    (ids @ map (\<lambda>m. m\<lparr>mk_cost := 0\<rparr>) flows @ [mark 0 [''no_client_evidence''] []] @ later @ diffs)
             else dimension_of 100
                    (ids @ flows
                     @ capped_mark c ''client_health'' ''inventory_mismatch_penalty_cap'' ''inventory_mismatch_penalty_per_client'' (int mismatched) ''client_inventory_mismatch''
                     @ capped_mark c ''client_health'' ''stale_arp_penalty_cap'' ''stale_arp_penalty_per_entry'' (int stale) ''stale_arp_entries'' @ later @ diffs)))))"

definition DEFAULT_LIMITS :: inventory_limits where
  "DEFAULT_LIMITS = \<lparr>il_stale = 900, il_new = 300, il_cidrs = None, il_interfaces = None\<rparr>"

text \<open>The counts of the last summary event, or of an inventory made here.\<close>

definition inventory_attrs :: "inv_env \<Rightarrow> pydict list \<Rightarrow> pydict \<Rightarrow> pyexc + pydict \<times> string list" where
  "inventory_attrs e payloads sot =
     (let summaries = of_kind ''client_inventory_summary'' payloads in
      if summaries \<noteq> [] then Inr (attrs_of (last summaries), map event_id summaries)
      else ebind (build_client_inventory e DEFAULT_LIMITS payloads sot) (\<lambda>i.
        Inr (map (\<lambda>kn. (fst kn, PInt (snd kn))) (in_summary i), filter (\<lambda>s. s \<noteq> []) (in_evidence i))))"

definition INVENTORY_PENALTIES :: "(string \<times> string \<times> string \<times> string) list" where
  "INVENTORY_PENALTIES =
     [(''unknown_client_count'', ''unknown_client_penalty_cap'', ''unknown_client_penalty_per_client'', ''client_inventory_unknown_present''),
      (''unauthorized_client_count'', ''unauthorized_client_penalty_cap'', ''unauthorized_client_penalty_per_client'', ''client_inventory_unauthorized_present''),
      (''inventory_mismatch_count'', ''inventory_mismatch_penalty_cap'', ''inventory_mismatch_penalty_per_client'', ''client_inventory_mismatch''),
      (''stale_session_count'', ''stale_session_penalty_cap'', ''stale_session_penalty_per_client'', ''client_inventory_stale_sessions''),
      (''authorized_missing_count'', ''authorized_missing_penalty_cap'', ''authorized_missing_penalty_per_client'', ''client_inventory_authorized_missing'')]"

definition evaluate_client_inventory_health :: "noc_config \<Rightarrow> inv_env \<Rightarrow> pydict list \<Rightarrow> pydict \<Rightarrow> pydict \<Rightarrow> pyexc + dimension" where
  "evaluate_client_inventory_health c e payloads sot sot_diff =
     ebind (inventory_attrs e payloads sot) (\<lambda>(attrs, ids).
     ebind (emap (\<lambda>(k, cap, per, reason). ebind (py_int (py_or (dget attrs k) (PInt 0))) (\<lambda>n.
              Inr (capped_mark c ''client_inventory_health'' cap per n reason))) INVENTORY_PENALTIES) (\<lambda>ms.
       let marks = concat ms; present = ''client_inventory_unauthorized_present'';
           extra = (if unauthorized_devices sot_diff \<noteq> [] \<and> present \<notin> set (concat (map mk_reasons marks)) then [mark 0 [present] []] else [])
       in Inr (dimension_of 100 (mark 0 [] ids # marks @ extra))))"

section \<open>Services, resolution, configuration\<close>

definition probe_name :: "pydict \<Rightarrow> string list \<Rightarrow> string" where
  "probe_name p ks = py_str (foldr (\<lambda>k v. py_or (dget (attrs_of p) k) v) ks (py_or (dget p ''subject'') (PStr ''unknown'')))"

definition window_mark :: "noc_config \<Rightarrow> string \<Rightarrow> string list \<Rightarrow> string \<Rightarrow> string \<Rightarrow> string \<Rightarrow> pydict \<Rightarrow> penalty" where
  "window_mark c sec names what worst penalty p =
     (let state = py_str (py_or (dget (attrs_of p) ''state'') (PStr ''unknown'')) in
      if state = ''degraded'' then mark (cfg c sec ''window_degraded_penalty'') [what @ ''_window_degraded:'' @ probe_name p names] [event_id p]
      else if state = worst then mark (cfg c sec penalty) [what @ ''_window_'' @ worst @ '':'' @ probe_name p names] [event_id p]
      else mark 0 [] [event_id p])"

definition evaluate_service_health :: "noc_config \<Rightarrow> pydict list \<Rightarrow> dimension" where
  "evaluate_service_health c payloads =
     dimension_of 100
       (map (\<lambda>p. mark_if (\<not> reachable p) (cfg c ''service_health'' ''probe_failed_penalty'') (''service_probe_failed:'' @ probe_name p [''name'', ''target'']) p)
          (of_kind ''service_probe'' payloads)
        @ map (window_mark c ''service_health'' [''name'', ''target''] ''service'' ''down'' ''window_down_penalty'') (of_kind ''service_probe_window'' payloads)
        @ collector_marks c ''service_health'' [''service_probes''] payloads)"

definition evaluate_resolution_health :: "noc_config \<Rightarrow> pydict list \<Rightarrow> dimension" where
  "evaluate_resolution_health c payloads =
     dimension_of 100
       (map (\<lambda>p. mark_if (\<not> truthy (dget (attrs_of p) ''resolved'')) (cfg c ''resolution_health'' ''probe_failed_penalty'') (''resolution_failed:'' @ probe_name p [''name'']) p)
          (of_kind ''resolution_probe'' payloads)
        @ map (window_mark c ''resolution_health'' [''name''] ''resolution'' ''failed'' ''window_failed_penalty'') (of_kind ''resolution_probe_window'' payloads)
        @ collector_marks c ''resolution_health'' [''resolution_probes''] payloads)"

definition drift_mark_of :: "noc_config \<Rightarrow> pydict \<Rightarrow> pyexc + penalty" where
  "drift_mark_of c p =
     ebind (iter_val (dget_or (attrs_of p) ''changed_fields'' (PList []))) (\<lambda>xs.
       let fields = text_items xs; g = cfg c ''config_drift_health''; status = py_str (py_or (dget (attrs_of p) ''status'') (PStr ''baseline_missing'')) in
       Inr (if status = ''drift''
            then mark (min (g ''drift_penalty_cap'') (g ''drift_penalty_per_field'' * max 1 (int (length fields))))
                   (''config_drift_detected'' # map (\<lambda>f. ''config_drift:'' @ f) (take 4 fields)) [event_id p]
            else if status = ''baseline_missing'' then mark (g ''baseline_missing_penalty'') [''config_baseline_missing''] [event_id p]
            else if status = ''baseline_invalid'' then mark (g ''baseline_invalid_penalty'') [''config_baseline_invalid''] [event_id p]
            else mark 0 [] [event_id p]))"

definition evaluate_config_drift_health :: "noc_config \<Rightarrow> pydict list \<Rightarrow> pyexc + dimension" where
  "evaluate_config_drift_health c payloads =
     (let drifts = of_kind ''config_drift'' payloads; hints = filter (\<lambda>s. s \<noteq> []) (map (\<lambda>p. text_of (dget (attrs_of p) ''rollback_hint'')) drifts) in
      ebind (emap (drift_mark_of c) drifts) (\<lambda>ms. Inr ((dimension_of 100 ms)\<lparr>dm_hint := Some (case hints of [] \<Rightarrow> [] | h # _ \<Rightarrow> h)\<rparr>)))"

end
