(* ===== verification/NocReport.thy ===== *)
theory NocReport
  imports NocEvaluator
begin

text \<open>
  The evaluation as a whole: the scope an incident affects, its probable cause, the summary, and the input of the arbiter (\<open>evaluators/noc.py\<close>, from \<open>evaluate\<close>).
\<close>

section \<open>Addresses\<close>

definition flow_ends :: "string \<Rightarrow> string \<times> string" where
  "flow_ends subject =
     (let src = takeWhile (\<lambda>c. c \<noteq> CHR ''-'') subject; arrow = drop (length src) subject; rest = drop 2 arrow; dst = takeWhile (\<lambda>c. c \<noteq> CHR '':'') rest
      in if src = [] \<or> take 2 arrow \<noteq> ''->'' \<or> dst = [] \<or> length dst = length rest then ([], []) else (src, dst))"

text \<open>The networks are taken as they come; one that is no dictionary raises where it is reached.\<close>

fun first_network :: "inv_env \<Rightarrow> string \<Rightarrow> pyval list \<Rightarrow> pyexc + string" where
  "first_network e ip [] = Inr (if iv_global e ip then ''wan'' else [])"
| "first_network e ip (v # vs) =
     (case v of
        PDict n \<Rightarrow>
          (let cidr = text_of (dget n ''cidr'') in
           if iv_net_ok e cidr \<and> iv_in_net e ip cidr then Inr (text_of (dget n ''id'')) else first_network e ip vs)
      | _ \<Rightarrow> Inl (AttributeError []))"

definition network_id_for_ip :: "inv_env \<Rightarrow> pyval list \<Rightarrow> string \<Rightarrow> pyexc + string" where
  "network_id_for_ip e networks ip = (if iv_ip_ok e ip then first_network e ip networks else Inr [])"

definition segment_for :: "inv_env \<Rightarrow> pyval list \<Rightarrow> string \<Rightarrow> pyexc + string list" where
  "segment_for e networks ip =
     (if ip = [] then Inr [] else ebind (network_id_for_ip e networks ip) (\<lambda>s. Inr (if s \<noteq> [] then [s] else [])))"

text \<open>\<open>v in {...}\<close> for texts: a list or a dictionary cannot be looked up in a set.\<close>

definition in_texts :: "pyval \<Rightarrow> string set \<Rightarrow> pyexc + bool" where
  "in_texts v xs = (case v of PStr s \<Rightarrow> Inr (s \<in> xs) | PList _ \<Rightarrow> Inl (TypeError []) | PDict _ \<Rightarrow> Inl (TypeError []) | _ \<Rightarrow> Inr False)"

definition FLOW_SOURCES :: "string set" where
  "FLOW_SOURCES = {''suricata_eve'', ''flow_min''}"

definition segments_of :: "inv_env \<Rightarrow> pyval list \<Rightarrow> pydict \<Rightarrow> pyexc + string list" where
  "segments_of e networks p =
     (if text_of (dget p ''source'') \<in> FLOW_SOURCES
      then (let (src, dst) = flow_ends (text_of (dget p ''subject'')) in
            ebind (segment_for e networks src) (\<lambda>a. ebind (segment_for e networks dst) (\<lambda>b. Inr (a @ b))))
      else if text_of (dget p ''kind'') \<in> {''dhcp_lease'', ''arp_entry''} then segment_for e networks (text_of (dget (attrs_of p) ''ip''))
      else Inr [])"

definition evaluate_segment_scope :: "inv_env \<Rightarrow> pydict list \<Rightarrow> pyval list \<Rightarrow> pyexc + pydict" where
  "evaluate_segment_scope e payloads networks =
     ebind (emap (segments_of e networks) payloads) (\<lambda>ss.
       let segs = sort (dedup (concat ss)) in Inr [(''affected_segments'', texts_val segs), (''multi_segment'', PBool (1 < length segs))])"

section \<open>The affected scope\<close>

record scope =
  sc_uplinks :: "string list"
  sc_segments :: "string list"
  sc_targets :: "string list"
  sc_ids :: "string list"

definition no_scope :: scope where
  "no_scope = \<lparr>sc_uplinks = [], sc_segments = [], sc_targets = [], sc_ids = []\<rparr>"

definition scope_join :: "scope \<Rightarrow> scope \<Rightarrow> scope" where
  "scope_join a b = \<lparr>sc_uplinks = sc_uplinks a @ sc_uplinks b, sc_segments = sc_segments a @ sc_segments b, sc_targets = sc_targets a @ sc_targets b,
     sc_ids = sc_ids a @ sc_ids b\<rparr>"

definition own_id :: "pydict \<Rightarrow> string list" where
  "own_id p = (if event_id p \<noteq> [] then [event_id p] else [])"

definition uplink_scope :: "string set \<Rightarrow> bool \<Rightarrow> pydict \<Rightarrow> scope" where
  "uplink_scope states probed p =
     (let iface = py_strip (text_of (dget (attrs_of p) ''interface'')); state = py_lower (text_of (dget (attrs_of p) ''state'')) in
      if iface \<noteq> [] \<and> ((probed \<and> \<not> truthy (dget_or (attrs_of p) ''reachable'' (PBool True))) \<or> state \<in> states)
      then no_scope\<lparr>sc_uplinks := [iface], sc_ids := own_id p\<rparr> else no_scope)"

definition service_degraded :: "string \<Rightarrow> pydict \<Rightarrow> bool" where
  "service_degraded kind p =
     (if kind = ''service_health''
      then upper (text_of (dget (attrs_of p) ''state'')) \<noteq> ''ON'' \<or> py_lower (text_of (dget (attrs_of p) ''substate'')) \<notin> {''running'', ''listening'', ''unknown''}
      else if kind = ''service_probe'' then \<not> reachable p
      else py_lower (text_of (dget (attrs_of p) ''state'')) \<in> {''degraded'', ''down''})"

definition target_scope :: "bool \<Rightarrow> pyval \<Rightarrow> pydict \<Rightarrow> scope" where
  "target_scope degraded v p =
     (let target = py_strip (text_of v) in if target \<noteq> [] \<and> degraded then no_scope\<lparr>sc_targets := [target], sc_ids := own_id p\<rparr> else no_scope)"

definition service_scope :: "string \<Rightarrow> pydict \<Rightarrow> scope" where
  "service_scope kind p =
     target_scope (service_degraded kind p) (py_or (dget (attrs_of p) ''target'') (py_or (dget (attrs_of p) ''name'') (dget p ''subject''))) p"

definition payload_scope :: "inv_env \<Rightarrow> pyval list \<Rightarrow> pydict \<Rightarrow> pyexc + scope" where
  "payload_scope e networks p =
     ebind (in_texts (dget p ''source'') FLOW_SOURCES) (\<lambda>flow.
       if flow then
         (let (src, dst) = flow_ends (text_of (dget p ''subject'')); proto = py_strip (text_of (dget (attrs_of p) ''app_proto'')) in
          ebind (segment_for e networks src) (\<lambda>a. ebind (segment_for e networks dst) (\<lambda>b.
            Inr \<lparr>sc_uplinks = [], sc_segments = a @ b, sc_targets = (if proto \<noteq> [] then [proto] else []), sc_ids = (if a @ b \<noteq> [] then own_id p else [])\<rparr>)))
       else ebind (in_texts (dget p ''kind'') {''dhcp_lease'', ''arp_entry'', ''client_session''}) (\<lambda>client.
         if \<not> client then Inr no_scope
         else
           (let ip = text_of (dget (attrs_of p) ''ip''); seg = text_of (dget (attrs_of p) ''interface_or_segment'') in
            ebind (if seg = [] then segment_for e networks ip else Inr [seg]) (\<lambda>ss.
              Inr (no_scope\<lparr>sc_segments := ss, sc_ids := (if ss \<noteq> [] then own_id p else [])\<rparr>)))))"

text \<open>A client session counts where its segment or its interface is affected, unless the client is away.\<close>

definition client_impact :: "inv_env \<Rightarrow> pyval list \<Rightarrow> scope \<Rightarrow> pydict \<Rightarrow> pyexc + bool" where
  "client_impact e networks s p =
     (let attrs = attrs_of p; ip = text_of (dget attrs ''ip''); seg = text_of (dget attrs ''interface_or_segment'') in
      ebind (if seg = [] then segment_for e networks ip else Inr [seg]) (\<lambda>ss.
        Inr ((set ss \<inter> set (sc_segments s) \<noteq> {} \<or> (truthy (dget attrs ''interface_or_segment'') \<and> py_str (dget attrs ''interface_or_segment'') \<in> set (sc_uplinks s)))
             \<and> text_of (dget attrs ''session_state'') \<notin> {''authorized_missing'', ''stale_session''})))"

definition criticality_of :: "(string \<times> pydict) list \<Rightarrow> pydict \<Rightarrow> string" where
  "criticality_of by_ip p =
     (case map_of by_ip (text_of (dget (attrs_of p) ''ip'')) of None \<Rightarrow> [] | Some d \<Rightarrow> py_lower (text_of (dget d ''criticality'')))"

definition CRITICAL_CLIENTS :: "string set" where
  "CRITICAL_CLIENTS = {''critical'', ''high'', ''core'', ''mission''}"

definition sot_list :: "pydict \<Rightarrow> string \<Rightarrow> pyval list" where
  "sot_list sot k = (case dget sot k of PList xs \<Rightarrow> xs | _ \<Rightarrow> [])"

definition service_ids :: "pydict \<Rightarrow> string list" where
  "service_ids sot = filter (\<lambda>s. s \<noteq> []) (map (\<lambda>d. py_strip (text_of (py_or (dget d ''id'') (dget d ''name'')))) (dict_list sot ''services''))"

definition evaluate_affected_scope :: "inv_env \<Rightarrow> pydict list \<Rightarrow> pydict \<Rightarrow> pyexc + pydict" where
  "evaluate_affected_scope e payloads sot =
     (let networks = sot_list sot ''networks'';
          direct = map (uplink_scope {''degraded'', ''down''} True) (of_kind ''path_probe'' payloads @ of_kind ''path_probe_window'' payloads)
            @ map (uplink_scope {''elevated'', ''congested''} False) (of_kind ''capacity_pressure'' payloads)
            @ concat (map (\<lambda>k. map (service_scope k) (of_kind k payloads)) [''service_health'', ''service_probe'', ''service_probe_window''])
            @ map (\<lambda>p. target_scope (py_lower (text_of (dget (attrs_of p) ''state'')) \<in> {''degraded'', ''failed''}) (py_or (dget (attrs_of p) ''name'') (dget p ''subject'')) p)
                (of_kind ''resolution_probe_window'' payloads) in
      ebind (emap (payload_scope e networks) payloads) (\<lambda>more.
        let s = fold (\<lambda>b a. scope_join a b) (direct @ more) no_scope; by_ip = devices_by ''ip'' id (dict_list sot ''devices'') in
        ebind (emap (\<lambda>p. ebind (client_impact e networks s p) (\<lambda>hit. Inr (hit, criticality_of by_ip p))) (of_kind ''client_session'' payloads)) (\<lambda>clients.
          let crits = map snd (filter fst clients); ids = service_ids sot;
              targets = filter (\<lambda>t. ids = [] \<or> t \<in> set ids \<or> CHR '':'' \<in> set t \<or> CHR ''.'' \<in> set t) (sc_targets s);
              groups = map (\<lambda>cr. if cr \<in> CRITICAL_CLIENTS then ''critical'' else cr) (filter (\<lambda>cr. cr \<noteq> []) crits);
              segs = sorted_set (sc_segments s)
          in Inr (if segs = [] \<and> sc_uplinks s = [] \<and> targets = [] then []
                  else [(''affected_uplinks'', texts_val (sorted_set (sc_uplinks s))), (''affected_segments'', texts_val segs),
                    (''related_service_targets'', texts_val (sorted_set targets)), (''affected_client_count'', PInt (int (length crits))),
                    (''critical_client_count'', PInt (int (length (filter (\<lambda>cr. cr \<in> CRITICAL_CLIENTS) crits)))), (''client_groups'', texts_val (sorted_set groups)),
                    (''multi_segment'', PBool (1 < length segs)), (''evidence_ids'', texts_val (sorted_set (sc_ids s)))]))))"

section \<open>The incident\<close>

type_synonym dimensions = "(string \<times> dimension) list"

definition label_in :: "dimensions \<Rightarrow> string \<Rightarrow> string" where
  "label_in ds name = (case map_of ds name of None \<Rightarrow> ''good'' | Some d \<Rightarrow> dm_label d)"

definition CAUSES :: "(string \<times> string) list" where
  "CAUSES =
     [(''config_drift_health'', ''misconfiguration_drift''), (''resolution_health'', ''resolution_failure''), (''service_health'', ''service_assurance_failure''),
      (''capacity_health'', ''capacity_pressure''), (''path_health'', ''uplink_or_path_instability''), (''client_inventory_health'', ''client_inventory_anomaly''),
      (''device_health'', ''device_resource_pressure''), (''client_health'', ''client_connectivity_anomaly'')]"

definition probable_cause :: "dimensions \<Rightarrow> string" where
  "probable_cause ds = (case find (\<lambda>nc. label_in ds (fst nc) \<noteq> ''good'') CAUSES of None \<Rightarrow> ''general_noc_degradation'' | Some nc \<Rightarrow> snd nc)"

definition severity_of_label :: "string \<Rightarrow> nat" where
  "severity_of_label l =
     (if l = ''critical'' then 4 else if l = ''poor'' then 3 else if l = ''degraded'' then 2 else if l = ''good'' then 1 else 0)"

definition scope_texts :: "pydict \<Rightarrow> string \<Rightarrow> string list" where
  "scope_texts scope k = sort (map py_str (list_val (dget scope k)))"

definition build_incident_summary :: "(string \<Rightarrow> string) \<Rightarrow> dimensions \<Rightarrow> pydict \<Rightarrow> pydict" where
  "build_incident_summary sha ds affected =
     (let bad = filter (\<lambda>nd. dm_label (snd nd) \<noteq> ''good'') ds in
      if bad = []
      then [(''incident_id'', PStr ''incident:none''), (''probable_cause'', PStr ''stable''), (''confidence'', PFloat (FFin (95 / 100) ''0.95'')),
            (''supporting_symptoms'', PList []), (''affected_scope'', PDict affected), (''evidence_ids'', PList []),
            (''drill_down'', PDict [(''dimension_reasons'', PDict []), (''evidence_ids'', PList [])])]
      else
        (let cause = probable_cause ds;
             told = map (\<lambda>nd. (fst nd, filter (\<lambda>r. r \<noteq> []) (dm_reasons (snd nd)))) bad;
             symptoms = concat (map (\<lambda>nr. map (\<lambda>r. fst nr @ '':'' @ r) (take 3 (snd nr))) told);
             ids = sorted_set (filter (\<lambda>i. i \<noteq> []) (concat (map (\<lambda>nd. dm_ids (snd nd)) bad)));
             weight = foldl max 0 (map (\<lambda>nd. severity_of_label (dm_label (snd nd))) bad);
             confidence = (if cause \<in> {''misconfiguration_drift'', ''resolution_failure'', ''service_assurance_failure'', ''capacity_pressure''} then FFin (88 / 100) ''0.88''
               else if 3 \<le> weight then FFin (8 / 10) ''0.8'' else if 2 \<le> length bad then FFin (74 / 100) ''0.74'' else FFin (6 / 10) ''0.6'');
             basis = join ''|'' [cause, join '','' (scope_texts affected ''affected_uplinks''), join '','' (scope_texts affected ''affected_segments''), join '','' (take 8 ids)]
         in [(''incident_id'', PStr (''incident:'' @ take 12 (sha basis))), (''probable_cause'', PStr cause), (''confidence'', PFloat confidence),
             (''supporting_symptoms'', texts_val (take 8 symptoms)), (''affected_scope'', PDict affected), (''evidence_ids'', texts_val ids),
             (''drill_down'', PDict [(''dimension_reasons'', PDict (map (\<lambda>nr. (fst nr, texts_val (snd nr))) (filter (\<lambda>nr. snd nr \<noteq> []) told))),
                (''evidence_ids'', texts_val ids)])]))"

definition apply_sot_diff :: "pydict \<Rightarrow> dimension \<Rightarrow> pyexc + dimension" where
  "apply_sot_diff sot_diff d =
     (let d1 = (if truthy (dget sot_diff ''path_deviations'')
                then d\<lparr>dm_score := max 0 (dm_score d - 20), dm_reasons := dm_reasons d @ [''path_deviation_detected'']\<rparr> else d);
          d2 = (if truthy (dget sot_diff ''unauthorized_services'')
                then d1\<lparr>dm_score := max 0 (dm_score d1 - 10), dm_reasons := dm_reasons d1 @ [''unauthorized_services_present'']\<rparr> else d1) in
      ebind (iter_val (dget_or sot_diff ''evidence_ids'' (PList []))) (\<lambda>xs.
        Inr (d2\<lparr>dm_ids := sorted_set (filter (\<lambda>i. i \<noteq> []) (dm_ids d2) @ text_items xs), dm_label := bucket (dm_score d2)\<rparr>)))"

section \<open>The evaluation\<close>

definition dimension_dict :: "dimension \<Rightarrow> pydict" where
  "dimension_dict d =
     [(''score'', PInt (dm_score d)), (''label'', PStr (dm_label d)), (''reasons'', texts_val (dm_reasons d)), (''evidence_ids'', texts_val (dm_ids d))]
     @ (case dm_hint d of None \<Rightarrow> [] | Some h \<Rightarrow> [(''rollback_hint'', PStr h)])"

text \<open>The nine dimensions under their names, in the order of the code; the source of truth's absence is a reason of the clients' health.\<close>

definition evaluate_dimensions :: "noc_config \<Rightarrow> inv_env \<Rightarrow> pydict list \<Rightarrow> pydict \<Rightarrow> pydict \<Rightarrow> pyexc + dimensions" where
  "evaluate_dimensions c e payloads sot sot_diff =
     ebind (evaluate_path_health c payloads) (\<lambda>path.
     ebind (evaluate_device_health c e payloads) (\<lambda>device.
     ebind (evaluate_client_health c payloads sot sot_diff) (\<lambda>client.
     ebind (evaluate_client_inventory_health c e payloads sot sot_diff) (\<lambda>inv.
     ebind (evaluate_config_drift_health c payloads) (\<lambda>drift.
     ebind (if sot_diff = [] then Inr path else apply_sot_diff sot_diff path) (\<lambda>path1.
       let client1 = (if sot = [] \<and> ''sot_missing'' \<notin> set (dm_reasons client) then client\<lparr>dm_reasons := dm_reasons client @ [''sot_missing'']\<rparr> else client) in
       Inr [(''availability'', evaluate_availability c payloads), (''path_health'', path1), (''device_health'', device), (''client_health'', client1),
         (''capacity_health'', evaluate_capacity_health c payloads), (''client_inventory_health'', inv), (''service_health'', evaluate_service_health c payloads),
         (''resolution_health'', evaluate_resolution_health c payloads), (''config_drift_health'', drift)]))))))"

definition worst_score :: "dimensions \<Rightarrow> int" where
  "worst_score ds = foldl min 100 (map (\<lambda>nd. dm_score (snd nd)) ds)"

definition summary_reasons :: "pydict \<Rightarrow> dimensions \<Rightarrow> string list" where
  "summary_reasons sot ds =
     (if sot = [] then [''sot_missing''] else [])
     @ (if worst_score ds < 90 then map (\<lambda>nd. fst nd @ '':'' @ dm_label (snd nd)) (filter (\<lambda>nd. dm_label (snd nd) \<noteq> ''good'') ds) else [])"

definition noc_evaluate :: "noc_config \<Rightarrow> inv_env \<Rightarrow> cevent list \<Rightarrow> pydict \<Rightarrow> pydict \<Rightarrow> pyexc + pydict" where
  "noc_evaluate c e events sot sot_diff =
     (let payloads = to_payloads events in
      ebind (evaluate_dimensions c e payloads sot sot_diff) (\<lambda>ds.
      ebind (evaluate_affected_scope e payloads sot) (\<lambda>affected.
        let incident = build_incident_summary (iv_sha e) ds affected in
        ebind (if is_list (dget sot ''networks'') then ebind (evaluate_segment_scope e payloads (list_val (dget sot ''networks''))) (\<lambda>s. Inr [(''segment_scope'', PDict s)])
               else Inr []) (\<lambda>segment.
          let summary = [(''status'', PStr (bucket (worst_score ds))), (''degraded_mode'', PBool (sot = [])), (''reasons'', texts_val (sorted_set (summary_reasons sot ds)))]
                @ segment @ (if affected \<noteq> [] then [(''blast_radius'', PDict affected)] else []) @ [(''incident_summary'', PDict incident)]
          in Inr (map (\<lambda>nd. (fst nd, PDict (dimension_dict (snd nd)))) ds
                @ [(''affected_scope'', PDict affected), (''incident_summary'', PDict incident), (''summary'', PDict summary),
                   (''evidence_ids'', texts_val (sorted_set (filter (\<lambda>i. i \<noteq> []) (map event_id payloads))))])))))"

definition config_val :: "noc_config \<Rightarrow> pyval" where
  "config_val c = PDict (map (\<lambda>s. (fst s, PDict (map (\<lambda>kn. (fst kn, PInt (snd kn))) (snd s)))) c)"

definition ARBITER_KEYS :: "string list" where
  "ARBITER_KEYS =
     [''summary'', ''availability'', ''path_health'', ''device_health'', ''client_health'', ''capacity_health'', ''client_inventory_health'', ''service_health'',
      ''resolution_health'', ''config_drift_health'', ''affected_scope'', ''incident_summary'']"

definition to_arbiter_input :: "noc_config \<Rightarrow> pydict \<Rightarrow> pydict" where
  "to_arbiter_input c evaluation =
     [(''source'', PStr ''noc_evaluator''), (''config'', config_val c)] @ map (\<lambda>k. (k, dget_or evaluation k (PDict []))) ARBITER_KEYS
     @ [(''evidence_ids'', dget_or evaluation ''evidence_ids'' (PList []))]"

end
