(* ===== verification/NocProperties.thy ===== *)
theory NocProperties
  imports NocReport Arbiter "HOL-Library.Multiset"
begin

text \<open>
  What the NOC evaluation gives: scores within their range with the label of the score, counts that are the rows they count, and an input the arbiter always accepts,
  on which an unreachable probe stops every control action.
\<close>

section \<open>Dimensions\<close>

lemma member_le_sum_list_int: "(x :: int) \<in> set xs \<Longrightarrow> \<forall>n \<in> set xs. 0 \<le> n \<Longrightarrow> x \<le> sum_list xs"
proof (induction xs)
  case (Cons a xs)
  have "0 \<le> sum_list xs" using Cons.prems(2) by (intro sum_list_nonneg) simp
  then show ?case using Cons by auto
qed simp

lemma bucket_clamped: "bucket (max 0 (min 100 s)) = bucket s"
  by (auto simp: bucket_def)

definition sound_dimension :: "dimension \<Rightarrow> bool" where
  "sound_dimension d = (0 \<le> dm_score d \<and> dm_score d \<le> 100 \<and> dm_label d = bucket (dm_score d))"

lemma dimension_of_sound [simp]: "sound_dimension (dimension_of base ms)"
  by (simp add: sound_dimension_def dimension_of_def make_dimension_def bucket_clamped)

lemma sound_updates [simp]:
  "sound_dimension (d\<lparr>dm_reasons := x\<rparr>) = sound_dimension d" "sound_dimension (d\<lparr>dm_hint := h\<rparr>) = sound_dimension d"
  by (simp_all add: sound_dimension_def)

lemma path_sound: "evaluate_path_health c ps = Inr d \<Longrightarrow> sound_dimension d"
  by (auto simp: evaluate_path_health_def ebind_Inr_iff)

lemma device_sound: "evaluate_device_health c e ps = Inr d \<Longrightarrow> sound_dimension d"
  by (auto simp: evaluate_device_health_def ebind_Inr_iff)

lemma client_sound: "evaluate_client_health c ps sot diff = Inr d \<Longrightarrow> sound_dimension d"
  by (auto simp: evaluate_client_health_def Let_def ebind_Inr_iff split: if_splits)

lemma inventory_sound: "evaluate_client_inventory_health c e ps sot diff = Inr d \<Longrightarrow> sound_dimension d"
  by (auto simp: evaluate_client_inventory_health_def Let_def ebind_Inr_iff)

lemma drift_sound: "evaluate_config_drift_health c ps = Inr d \<Longrightarrow> sound_dimension d"
  by (auto simp: evaluate_config_drift_health_def Let_def ebind_Inr_iff)

lemma diff_sound: "apply_sot_diff diff d = Inr d' \<Longrightarrow> sound_dimension d \<Longrightarrow> sound_dimension d'"
  by (auto simp: apply_sot_diff_def Let_def ebind_Inr_iff sound_dimension_def)

definition DIMENSIONS :: "string list" where
  "DIMENSIONS =
     [''availability'', ''path_health'', ''device_health'', ''client_health'', ''capacity_health'', ''client_inventory_health'', ''service_health'', ''resolution_health'',
      ''config_drift_health'']"

lemma dimensions_sound:
  assumes "evaluate_dimensions c e ps sot diff = Inr ds"
  shows "map fst ds = DIMENSIONS \<and> list_all (\<lambda>nd. sound_dimension (snd nd)) ds \<and> map_of ds ''availability'' = Some (evaluate_availability c ps)"
proof -
  obtain path device client inv drift path1 where p: "evaluate_path_health c ps = Inr path" "evaluate_device_health c e ps = Inr device"
      "evaluate_client_health c ps sot diff = Inr client" "evaluate_client_inventory_health c e ps sot diff = Inr inv" "evaluate_config_drift_health c ps = Inr drift"
      "(if diff = [] then Inr path else apply_sot_diff diff path) = Inr path1"
    and ds: "ds = (let client1 = (if sot = [] \<and> ''sot_missing'' \<notin> set (dm_reasons client) then client\<lparr>dm_reasons := dm_reasons client @ [''sot_missing'']\<rparr> else client) in
       [(''availability'', evaluate_availability c ps), (''path_health'', path1), (''device_health'', device), (''client_health'', client1),
         (''capacity_health'', evaluate_capacity_health c ps), (''client_inventory_health'', inv), (''service_health'', evaluate_service_health c ps),
         (''resolution_health'', evaluate_resolution_health c ps), (''config_drift_health'', drift)])"
    using assms by (auto simp: evaluate_dimensions_def ebind_Inr_iff Let_def)
  have "sound_dimension path1" using p(6) path_sound [OF p(1)] diff_sound by (auto split: if_splits)
  then show ?thesis using device_sound [OF p(2)] client_sound [OF p(3)] inventory_sound [OF p(4)] drift_sound [OF p(5)]
    by (simp add: ds Let_def DIMENSIONS_def evaluate_availability_def evaluate_capacity_health_def evaluate_service_health_def evaluate_resolution_health_def)
qed

lemma evaluate_parts:
  assumes "noc_evaluate c e events sot diff = Inr r"
  obtains ds rest where "evaluate_dimensions c e (to_payloads events) sot diff = Inr ds" "r = map (\<lambda>nd. (fst nd, PDict (dimension_dict (snd nd)))) ds @ rest"
    "map fst rest = [''affected_scope'', ''incident_summary'', ''summary'', ''evidence_ids'']" "is_dict (dget rest ''summary'')"
    "dget (dict_of (dget rest ''summary'')) ''status'' = PStr (bucket (worst_score ds))"
  using assms by (auto simp: noc_evaluate_def Let_def ebind_Inr_iff dget_Cons)

section \<open>The evaluation is sound\<close>

lemma evaluated_dimension:
  assumes "noc_evaluate c e events sot diff = Inr r" "evaluate_dimensions c e (to_payloads events) sot diff = Inr ds" "map_of ds name = Some d"
  shows "dget r name = PDict (dimension_dict d)"
proof -
  obtain rest where r: "r = map (\<lambda>nd. (fst nd, PDict (dimension_dict (snd nd)))) ds @ rest"
    using evaluate_parts [OF assms(1)] assms(2) by (metis sum.inject(2))
  have "name \<in> set (map fst (map (\<lambda>nd. (fst nd, PDict (dimension_dict (snd nd)))) ds))" using map_of_SomeD [OF assms(3)] by force
  then have "dget r name = dget (map (\<lambda>nd. (fst nd, PDict (dimension_dict (snd nd)))) ds) name" unfolding r by (rule dget_append_left)
  then show ?thesis using assms(3) by (simp add: dget_def map_of_map_snd [where f = "\<lambda>d. PDict (dimension_dict d)"])
qed

lemma worst_is_min: "list_all (\<lambda>nd. sound_dimension (snd nd)) ds \<Longrightarrow> ds \<noteq> [] \<Longrightarrow> worst_score ds = Min (set (map (\<lambda>nd. dm_score (snd nd)) ds))"
proof -
  assume s: "list_all (\<lambda>nd. sound_dimension (snd nd)) ds" and n: "ds \<noteq> []"
  have f: "foldl min b xs = (if xs = [] then b else min b (Min (set xs)))" for b :: int and xs
    by (induction xs arbitrary: b) (simp_all add: min.assoc)
  obtain nd where "nd \<in> set ds" using n by (cases ds) auto
  then have "Min (dm_score ` snd ` set ds) \<le> 100" using s
    by (intro order_trans [OF Min_le [of _ "dm_score (snd nd)"]]) (auto simp: list_all_iff sound_dimension_def)
  then show ?thesis using n by (simp add: worst_score_def f image_image)
qed

lemma arbiter_input_keys: "k \<in> set ARBITER_KEYS \<Longrightarrow> dget (to_arbiter_input c r) k = dget_or r k (PDict [])"
  by (auto simp: to_arbiter_input_def ARBITER_KEYS_def dget_Cons)

lemma arbiter_accepts: "validate_schema (PDict (to_arbiter_input c r)) REQUIRED_NOC_KEYS ''noc'' = Inr (to_arbiter_input c r)"
  by (simp add: validate_schema_Inr REQUIRED_NOC_KEYS_def to_arbiter_input_def ARBITER_KEYS_def has_key_def)

text \<open>C27. An evaluation that returns has all nine dimensions, each with a score from 0 to 100 and the label of that score, its status is the label of the worst of them, and
  the input made from it is one the arbiter's schema accepts.\<close>

theorem noc_evaluation_is_sound:
  assumes "noc_evaluate c e events sot diff = Inr r"
  shows "(\<exists>ds. map fst ds = DIMENSIONS \<and> (\<forall>(name, d) \<in> set ds. sound_dimension d \<and> dget r name = PDict (dimension_dict d))
      \<and> dget (dict_of (dget r ''summary'')) ''status'' = PStr (bucket (Min ((\<lambda>nd. dm_score (snd nd)) ` set ds))))
    \<and> validate_schema (PDict (to_arbiter_input c r)) REQUIRED_NOC_KEYS ''noc'' = Inr (to_arbiter_input c r)"
proof -
  obtain ds rest where ds: "evaluate_dimensions c e (to_payloads events) sot diff = Inr ds" and r: "r = map (\<lambda>nd. (fst nd, PDict (dimension_dict (snd nd)))) ds @ rest"
    and rest: "map fst rest = [''affected_scope'', ''incident_summary'', ''summary'', ''evidence_ids'']" "is_dict (dget rest ''summary'')"
      "dget (dict_of (dget rest ''summary'')) ''status'' = PStr (bucket (worst_score ds))"
    by (rule evaluate_parts [OF assms])
  note s = dimensions_sound [OF ds]
  have dist: "distinct (map fst ds)" using s by (simp add: DIMENSIONS_def)
  have each: "sound_dimension d \<and> dget r name = PDict (dimension_dict d)" if "(name, d) \<in> set ds" for name d
    using that s evaluated_dimension [OF assms ds map_of_is_SomeI [OF dist that]] by (fastforce simp: list_all_iff)
  have "''summary'' \<notin> set (map fst (map (\<lambda>nd. (fst nd, PDict (dimension_dict (snd nd)))) ds))" using s by (simp add: o_def DIMENSIONS_def flip: set_map)
  then have "dget r ''summary'' = dget rest ''summary''" unfolding r by (rule dget_append_right)
  moreover have "worst_score ds = Min ((\<lambda>nd. dm_score (snd nd)) ` set ds)" using s worst_is_min [of ds] by (cases ds) (auto simp: DIMENSIONS_def)
  ultimately show ?thesis using s each rest(3) arbiter_accepts by (intro conjI exI [of _ ds]) auto
qed

section \<open>From a probe to the decision\<close>

lemma availability_costs:
  "m \<in> set (map (\<lambda>p. mark_if (\<not> reachable p) (cfg NOC_CONFIG ''availability'' ''icmp_unreachable_penalty'') ''icmp_unreachable'' p) xs
      @ map (service_mark NOC_CONFIG) ys @ collector_marks NOC_CONFIG ''availability'' cs ps) \<Longrightarrow> 0 \<le> mk_cost m"
  by (auto simp: mark_if_def mark_def service_mark_def collector_marks_def collector_mark_def nothing_def cfg_def NOC_CONFIG_def Let_def)

lemma unreachable_availability:
  assumes "p \<in> set ps" "text_of (dget p ''kind'') = ''icmp_probe''" "\<not> reachable p"
  shows "dm_score (evaluate_availability NOC_CONFIG ps) \<le> 40"
proof -
  let ?f = "\<lambda>p. mark_if (\<not> reachable p) (cfg NOC_CONFIG ''availability'' ''icmp_unreachable_penalty'') ''icmp_unreachable'' p"
  let ?ms = "map ?f (of_kind ''icmp_probe'' ps) @ map (service_mark NOC_CONFIG) (of_kind ''service_health'' ps) @ collector_marks NOC_CONFIG ''availability'' [''icmp'', ''service_health''] ps"
  have "?f p \<in> set ?ms" using assms(1,2) by (simp add: of_kind_def)
  moreover have "mk_cost (?f p) = 60" using assms(3) by (simp add: mark_if_def mark_def cfg_def NOC_CONFIG_def)
  ultimately have "60 \<in> set (map mk_cost ?ms)" using imageI [of "?f p" "set ?ms" mk_cost] by (simp only: list.set_map)
  moreover have "\<forall>n \<in> set (map mk_cost ?ms). 0 \<le> n" using availability_costs unfolding list.set_map by blast
  ultimately have "60 \<le> sum_list (map mk_cost ?ms)" by (rule member_le_sum_list_int)
  then show ?thesis by (simp add: evaluate_availability_def dimension_of_def make_dimension_def)
qed

lemma section_dimension: "dget noc k = PDict (dimension_dict d) \<Longrightarrow> health_label noc k = (if dm_label d = [] then ''unknown'' else dm_label d)"
  by (simp add: health_label_def section_of_def dimension_dict_def dget_Cons)

lemma low_availability_is_fragile:
  assumes "noc_evaluate NOC_CONFIG e events sot diff = Inr r" "dm_score (evaluate_availability NOC_CONFIG (to_payloads events)) \<le> 40"
  shows "noc_fragile (to_arbiter_input NOC_CONFIG r)"
proof -
  let ?d = "evaluate_availability NOC_CONFIG (to_payloads events)"
  obtain ds rest where ds: "evaluate_dimensions NOC_CONFIG e (to_payloads events) sot diff = Inr ds"
    and rest: "r = map (\<lambda>nd. (fst nd, PDict (dimension_dict (snd nd)))) ds @ rest"
      "map fst rest = [''affected_scope'', ''incident_summary'', ''summary'', ''evidence_ids'']" "is_dict (dget rest ''summary'')"
      "dget (dict_of (dget rest ''summary'')) ''status'' = PStr (bucket (worst_score ds))"
    by (rule evaluate_parts [OF assms(1)])
  have "map_of ds ''availability'' = Some ?d" using dimensions_sound [OF ds] by simp
  then have "dget r ''availability'' = PDict (dimension_dict ?d)" by (rule evaluated_dimension [OF assms(1) ds])
  then have "dget_or r ''availability'' (PDict []) = PDict (dimension_dict ?d)" by (force dest: map_of_SomeD simp: dget_or_def dget_def has_key_def split: option.splits if_splits)
  then have "dget (to_arbiter_input NOC_CONFIG r) ''availability'' = PDict (dimension_dict ?d)"
    by (subst arbiter_input_keys) (simp_all add: ARBITER_KEYS_def)
  moreover have "sound_dimension ?d" by (simp add: evaluate_availability_def)
  ultimately have "health_label (to_arbiter_input NOC_CONFIG r) ''availability'' = bucket (dm_score ?d) \<or> bucket (dm_score ?d) = []"
    by (simp add: section_dimension sound_dimension_def)
  then show ?thesis using assms(2) by (auto simp: noc_fragile_def FRAGILE_LABELS_def bucket_def split: if_splits)
qed

lemma fragile_notifies:
  assumes "noc_fragile noc" "validate_schema (PDict noc) REQUIRED_NOC_KEYS ''noc'' = Inr noc" "list_all (has_key soc) REQUIRED_SOC_KEYS"
  shows "\<exists>d. decide self (PDict noc) (PDict soc) PNone = Inr d \<and> act d = Notify \<and> control_mode d = ''none''"
proof -
  obtain rsn where sel: "selection self noc soc = (Notify, rsn, ''none'')" using selection_fragile [OF assms(1)] by blast
  have s: "validate_schema (PDict soc) REQUIRED_SOC_KEYS ''soc'' = Inr soc" using assms(3) by (simp add: validate_schema_Inr list_all_iff)
  have "\<exists>tr. decision_trace_of noc soc Notify rsn (noc_fragile noc) (is_strong self soc) (soc_score soc ''blast_radius'') (soc_score soc ''confidence'') PNone = Inr tr"
    by (rule decision_trace_defined) (simp add: py_or_def)
  then show ?thesis by (auto simp: decide_def assms(2) s sel impact_check_no_dict)
qed

text \<open>C7. Under the shipped settings one unreachable ICMP probe among the events of an evaluation that returns is enough: whatever the security side reports, the arbiter
  fed with its input returns a decision, and it is to notify without any control.\<close>

theorem unreachable_probe_stops_control:
  assumes "noc_evaluate NOC_CONFIG e events sot diff = Inr r"
    and "p \<in> set (to_payloads events)" "text_of (dget p ''kind'') = ''icmp_probe''" "\<not> reachable p"
    and "list_all (has_key soc) REQUIRED_SOC_KEYS"
  shows "\<exists>d. decide self (PDict (to_arbiter_input NOC_CONFIG r)) (PDict soc) PNone = Inr d \<and> act d = Notify \<and> control_mode d = ''none''"
  using low_availability_is_fragile [OF assms(1) unreachable_availability [OF assms(2-4)]] arbiter_accepts assms(5) by (rule fragile_notifies)

section \<open>The inventory's counts\<close>

definition in_state :: "string list \<Rightarrow> pydict \<Rightarrow> bool" where
  "in_state states r = (\<exists>s \<in> set states. dget r ''session_state'' = PStr s)"

lemma session_row_state: "session_row e t state device ks = Inr row \<Longrightarrow> dget row ''session_state'' = PStr state"
  by (auto simp: session_row_def Let_def ebind_Inr_iff dget_Cons)

definition SESSION_STATES :: "string list" where
  "SESSION_STATES = [''stale_session'', ''inventory_mismatch'', ''unknown_present'', ''authorized_present'', ''unauthorized_present'']"

lemma session_state_cases:
  "session_state e n now device s \<in> set SESSION_STATES"
  by (simp add: session_state_def base_state_def SESSION_STATES_def)

lemma emap_Inr_mem:
  assumes "emap f xs = Inr ys" "y \<in> set ys"
  shows "\<exists>x. f x = Inr y"
proof -
  have "Inr y \<in> set (map f xs)" using assms unfolding emap_Inr_iff by simp
  then show ?thesis by auto
qed

lemma length_filter_concat:
  "\<forall>t \<in> set ts. length (filter P (f t)) = length (filter Q (g t)) \<Longrightarrow> length (filter P (concat (map f ts))) = length (filter Q (concat (map g ts)))"
  by (induction ts) simp_all

definition PRESENT_STATES :: "string list" where
  "PRESENT_STATES = [''authorized_present'', ''unknown_present'', ''unauthorized_present'', ''inventory_mismatch'']"

text \<open>The counters that stand for a state, and the states each of them counts.\<close>

definition COUNTED :: "(string \<times> string list) list" where
  "COUNTED =
     [(''current_client_count'', PRESENT_STATES), (''unknown_client_count'', [''unknown_present'']), (''unauthorized_client_count'', [''unauthorized_present'']),
      (''inventory_mismatch_count'', [''inventory_mismatch'']), (''stale_session_count'', [''stale_session'']), (''authorized_missing_count'', [''authorized_missing''])]"

lemma states_counted:
  "list_all (\<lambda>(m, f). list_all (\<lambda>st. list_all (\<lambda>(c, states). length (filter (\<lambda>r. r = c) (session_counts st m f)) = (if st \<in> set states then 1 else 0))
     COUNTED) SESSION_STATES) [(True, True), (True, False), (False, True), (False, False)]"
  by code_simp

lemma state_counted:
  "st \<in> set SESSION_STATES \<Longrightarrow> (c, states) \<in> set COUNTED \<Longrightarrow>
     length (filter (\<lambda>r. r = c) (session_counts st m f)) = (if st \<in> set states then 1 else 0)"
  using states_counted unfolding list_all_iff by (cases m; cases f) fastforce+

lemma entry_counted:
  assumes "session_entry e limits now by_mac by_ip ks = Inr t" "(c, states) \<in> set COUNTED"
  shows "length (filter (\<lambda>r. r = c) (fst (snd t))) = length (filter (in_state states) (fst t))"
proof (cases "device_of by_mac by_ip (snd ks) \<noteq> [] \<and> device_ignored (device_of by_mac by_ip (snd ks))")
  case True
  then show ?thesis using assms by (auto simp: session_entry_def COUNTED_def)
next
  case False
  let ?d = "device_of by_mac by_ip (snd ks)" and ?s = "session_state e (il_stale limits) now (device_of by_mac by_ip (snd ks)) (snd ks)"
  obtain row m f where t: "fst t = [row]" "fst (snd t) = session_counts ?s m f" "session_row e (iv_now e) ?s ?d ks = Inr row"
    using assms(1) False by (auto simp: session_entry_def Let_def ebind_Inr_iff)
  have "in_state states row \<longleftrightarrow> ?s \<in> set states" by (simp add: in_state_def session_row_state [OF t(3)])
  then show ?thesis using state_counted [OF session_state_cases assms(2), of e "il_stale limits" now ?d "snd ks" m f] by (simp only: t(1,2) filter.simps) simp
qed

lemma inventory_parts:
  assumes "build_client_inventory e limits payloads sot = Inr i"
  shows "\<exists>ss now by_mac by_ip entries missing networks. emap (session_entry e limits now by_mac by_ip) ss = Inr entries
    \<and> in_summary i = map (\<lambda>k. (k, int (length (filter (\<lambda>r. r = k) (concat (map (\<lambda>t. fst (snd t)) entries) @ map (\<lambda>_. ''authorized_missing_count'') missing))))) COUNTERS
    \<and> in_sessions i = sort_key row_key (concat (map fst entries) @ map (missing_row e networks) missing)"
  using assms unfolding build_client_inventory_def Let_def ebind_Inr_iff sum.inject
  apply (elim exE conjE)
  apply hypsubst
  apply (intro exI conjI)
    apply assumption
   apply (rule inventory.select_convs)
  apply (rule inventory.select_convs)
  done

text \<open>C32. The counts of the client inventory are its rows: for every state there are as many rows in it as its counter says, and the clients counted as present are the rows in
  one of the four present states.\<close>

theorem inventory_counts_its_rows:
  assumes "build_client_inventory e limits payloads sot = Inr i"
  shows "list_all (\<lambda>(c, states). counter i c = int (length (filter (in_state states) (in_sessions i)))) COUNTED"
proof -
  have "counter i c = int (length (filter (in_state states) (in_sessions i)))" if m: "(c, states) \<in> set COUNTED" for c states
  proof -
    obtain ss now by_mac by_ip entries missing networks where en: "emap (session_entry e limits now by_mac by_ip) ss = Inr entries"
      and i: "in_summary i = map (\<lambda>k. (k, int (length (filter (\<lambda>r. r = k) (concat (map (\<lambda>t. fst (snd t)) entries) @ map (\<lambda>_. ''authorized_missing_count'') missing))))) COUNTERS"
        "in_sessions i = sort_key row_key (concat (map fst entries) @ map (missing_row e networks) missing)"
      using inventory_parts [OF assms] by (elim exE conjE) (rule that)
    have "c \<in> set COUNTERS" using m by (auto simp: COUNTED_def COUNTERS_def)
    then have "counter i c = int (length (filter (\<lambda>r. r = c) (concat (map (\<lambda>t. fst (snd t)) entries) @ map (\<lambda>_. ''authorized_missing_count'') missing)))"
      by (simp add: counter_def i(1) map_of_map_restrict)
    moreover have "length (filter (\<lambda>r. r = c) (concat (map (\<lambda>t. fst (snd t)) entries))) = length (filter (in_state states) (concat (map fst entries)))"
      using entry_counted [OF _ m] emap_Inr_mem [OF en] by (intro length_filter_concat) blast
    moreover have "length (filter (\<lambda>r. r = c) (map (\<lambda>_. ''authorized_missing_count'') missing)) = length (filter (in_state states) (map (missing_row e networks) missing))"
      using m by (auto simp: COUNTED_def PRESENT_STATES_def in_state_def missing_row_def dget_Cons filter_map o_def)
    ultimately show ?thesis by (simp add: i(2) filter_sort)
  qed
  then show ?thesis by (auto simp: list_all_iff)
qed


section \<open>Examples\<close>

definition ex_inv_env :: inv_env where
  "ex_inv_env = \<lparr>iv_sha = take 12, iv_ip_ok = (\<lambda>s. CHR ''.'' \<in> set s), iv_net_ok = (\<lambda>s. CHR ''.'' \<in> set s), iv_in_net = (\<lambda>ip net. take 3 ip = take 3 net), iv_global = (\<lambda>_. False),
     iv_timestamp = (\<lambda>_. Some 0), iv_now = ''2026-01-01T00:00:00+00:00'', iv_clock = 0, iv_cidrs = ''10.0.0.0/8'', iv_interfaces = ''br0'', iv_float = (\<lambda>_. None)\<rparr>"

definition ex_probe_payload :: pydict where
  "ex_probe_payload = [(''event_id'', PStr ''e1''), (''source'', PStr ''noc_probe''), (''kind'', PStr ''icmp_probe''), (''subject'', PStr ''gw''),
     (''attrs'', PDict [(''reachable'', PBool False)])]"

definition ex_arp_payload :: pydict where
  "ex_arp_payload = [(''event_id'', PStr ''e2''), (''source'', PStr ''noc_probe''), (''kind'', PStr ''arp_entry''), (''subject'', PStr ''10.0.0.7''),
     (''ts'', PStr ''t''), (''attrs'', PDict [(''ip'', PStr ''10.0.0.7''), (''mac'', PStr ''aa''), (''state'', PStr ''REACHABLE''), (''dev'', PStr ''br0'')])]"

definition ex_banned :: pydict where
  "ex_banned = [(''devices'', PList [PDict [(''id'', PStr ''d1''), (''ip'', PStr ''10.0.0.9''), (''authorized'', PBool False)]])]"

lemma ex_noc_runs: "case noc_evaluate NOC_CONFIG ex_inv_env [EObj ex_probe_payload, EVal (PDict ex_arp_payload)] [] [] of Inl _ \<Rightarrow> False | Inr _ \<Rightarrow> True"
  by code_simp

lemma ex_noc_result: "\<exists>r. noc_evaluate NOC_CONFIG ex_inv_env [EObj ex_probe_payload, EVal (PDict ex_arp_payload)] [] [] = Inr r"
  using ex_noc_runs by (cases "noc_evaluate NOC_CONFIG ex_inv_env [EObj ex_probe_payload, EVal (PDict ex_arp_payload)] [] []") simp_all

lemma ex_probe_there: "ex_probe_payload \<in> set (to_payloads [EObj ex_probe_payload, EVal (PDict ex_arp_payload)])"
  by (simp add: to_payloads_def ex_probe_payload_def dget_Cons)

theorem noc_evaluation_is_sound_witness:
  "\<exists>r ds. noc_evaluate NOC_CONFIG ex_inv_env [EObj ex_probe_payload, EVal (PDict ex_arp_payload)] [] [] = Inr r
     \<and> map fst ds = DIMENSIONS \<and> (\<forall>(name, d) \<in> set ds. dget r name = PDict (dimension_dict d))"
proof -
  obtain r where r: "noc_evaluate NOC_CONFIG ex_inv_env [EObj ex_probe_payload, EVal (PDict ex_arp_payload)] [] [] = Inr r" using ex_noc_result ..
  obtain ds where "map fst ds = DIMENSIONS" "\<forall>(name, d) \<in> set ds. sound_dimension d \<and> dget r name = PDict (dimension_dict d)"
    using noc_evaluation_is_sound [OF r] by (elim conjE exE) (rule that)
  then show ?thesis by (intro exI [of _ r] exI [of _ ds]) (auto simp: r)
qed

theorem unreachable_probe_stops_control_witness:
  "\<exists>r d. noc_evaluate NOC_CONFIG ex_inv_env [EObj ex_probe_payload, EVal (PDict ex_arp_payload)] [] [] = Inr r
     \<and> decide default_arbiter (PDict (to_arbiter_input NOC_CONFIG r)) (PDict (ex_soc 99 99 99)) PNone = Inr d \<and> act d = Notify"
proof -
  obtain r where r: "noc_evaluate NOC_CONFIG ex_inv_env [EObj ex_probe_payload, EVal (PDict ex_arp_payload)] [] [] = Inr r" using ex_noc_result ..
  have "list_all (has_key (ex_soc 99 99 99)) REQUIRED_SOC_KEYS" by (simp add: ex_soc_def REQUIRED_SOC_KEYS_def has_key_def)
  moreover have "text_of (dget ex_probe_payload ''kind'') = ''icmp_probe''" "\<not> reachable ex_probe_payload"
    by (simp_all add: ex_probe_payload_def reachable_def attrs_of_def dget_Cons)
  ultimately show ?thesis using r unreachable_probe_stops_control [OF r ex_probe_there] by blast
qed

lemma ex_inventory_counts:
  "(case build_client_inventory ex_inv_env DEFAULT_LIMITS [ex_arp_payload] ex_banned of Inl _ \<Rightarrow> False
     | Inr i \<Rightarrow> counter i ''unknown_client_count'' = 1 \<and> counter i ''authorized_missing_count'' = 1 \<and> counter i ''unauthorized_client_count'' = 0
         \<and> map (\<lambda>r. dget r ''ip'') (filter (in_state [''authorized_missing'']) (in_sessions i)) = [PStr ''10.0.0.9''])"
  by code_simp

theorem inventory_counts_its_rows_witness:
  "\<exists>i. build_client_inventory ex_inv_env DEFAULT_LIMITS [ex_arp_payload] ex_banned = Inr i \<and> counter i ''unknown_client_count'' = 1
     \<and> list_all (\<lambda>(c, states). counter i c = int (length (filter (in_state states) (in_sessions i)))) COUNTED"
  using ex_inventory_counts inventory_counts_its_rows [of ex_inv_env DEFAULT_LIMITS "[ex_arp_payload]" ex_banned]
  by (cases "build_client_inventory ex_inv_env DEFAULT_LIMITS [ex_arp_payload] ex_banned") auto

text \<open>A device the source of truth does not authorize, and which nobody has seen, is reported as an authorized device that is missing.\<close>

lemma banned_device_is_missed_as_authorized:
  "dget (dict_of (hd (list_val (dget ex_banned ''devices'')))) ''authorized'' = PBool False
     \<and> (case build_client_inventory ex_inv_env DEFAULT_LIMITS [] ex_banned of Inl _ \<Rightarrow> False
        | Inr i \<Rightarrow> counter i ''authorized_missing_count'' = 1 \<and> map (\<lambda>r. (dget r ''ip'', dget r ''session_state'')) (in_sessions i) = [(PStr ''10.0.0.9'', PStr ''authorized_missing'')])"
  by code_simp

end
