(* ===== verification/Spec2Isabelle.thy ===== *)
theory Spec2Isabelle
  imports Prelude Arbiter Scorer Hypotheses Coordinator Coordination CoordinatorProperties Json AuditChain AuditChainProperties Broker BrokerPool BrokerThreads BrokerResults BrokerProperties
    AlertQueue AlertQueueProperties AlertRelay AlertRelayProperties CoreDecisions CoreDecisionsProperties LiveAlerts Values Aggregator AggregatorProperties
    Delivery DeliveryProperties Runbooks RunbookProperties RunbookReview RunbookReviewProperties TriageFlows Triage TriageProperties NocSupport NocSupportProperties AiGovernance AiGovernanceProperties
    PyTime Correlation CorrelationProperties PathSchema ControlPlane ControlPlaneProperties ConfigDrift ConfigDriftProperties DeceptionDecisions DeceptionProperties
    EvidencePlane EvidenceProperties NocEvaluator NocReport NocProperties
begin

text \<open>
  A verification of the decision, audit, alerting and operator-support logic of Azazel-Edge, a defensive network appliance.

  \<^bold>\<open>The program.\<close> The Rust core and Suricata raise events. The tactical scorer rates them, evaluators sum them up, and the action arbiter decides what is done
  under a policy. Every decision is written to a hash-chained audit log. The recorder of core decisions brings the core's own decisions onto such a chain; the P0 relay
  follows the durable records of a chain into the P0 alert queue, from which two channels announce them; the decision notifier sends other notifications through the
  first adapter that works or an offline queue. Beside this path a language model may reason about a situation: the coordinator admits one cycle per trace and serves
  only results that are still current, the capability broker lets the model ask for read-only evidence under budgets, hypotheses only change on evidence, and the AI
  gate decides whether a model is asked at all and what it sees. Operators work with runbooks, their review, and triage sessions that walk a flow of questions to
  runbooks. An aggregator collects signed summaries of the nodes of a fleet. Sensors write evidence events; from them the client inventory and the correlator draw sessions
  and clusters, and the network evaluator the health sections the arbiter reads. Configuration is compared with baselines, clients reach the control daemon over a
  socket, and decisions about deception environments are checked, named and signed for another service.

  \<^bold>\<open>Theories and sources\<close> (paths under \<open>src/\<close>):
  \<^item> \<open>Prelude\<close>, \<open>Json\<close>, \<open>Values\<close>: Python values, dictionaries, coercions and exceptions; \<open>json.dumps\<close> and that its text determines the value; reachable states
    and the interfaces below.
  \<^item> \<open>Scorer\<close> (\<open>py/azazel_edge/tactics_engine/scorer.py\<close>) and \<open>Arbiter\<close> (\<open>py/azazel_edge/arbiter/action.py\<close>): pure functions from an event and from a policy with
    two evaluations to a score and to a decision.
  \<^item> \<open>AuditChain\<close>, \<open>AuditChainProperties\<close> (\<open>audit/logger.py\<close>, \<open>audit/segments.py\<close>): the logger's state is the record \<open>alog\<close>, its directory \<open>adir\<close>; one \<open>log\<close>
    call is one step with the answers of the operating system as its argument.
  \<^item> \<open>AlertQueue\<close>, \<open>AlertRelay\<close> and their properties (\<open>notify/p0_alert.py\<close>); \<open>CoreDecisions\<close> (\<open>notify/core_decisions.py\<close>); \<open>LiveAlerts\<close>, which composes
    recorder, chain, relay and queue; \<open>Delivery\<close> (\<open>notify/delivery.py\<close>).
  \<^item> \<open>Hypotheses\<close>, \<open>Coordinator\<close>, \<open>Coordination\<close>, \<open>CoordinatorProperties\<close> (\<open>mio/lifecycle.py\<close>); \<open>Broker\<close>, \<open>BrokerPool\<close>, \<open>BrokerThreads\<close>, \<open>BrokerResults\<close>,
    \<open>BrokerProperties\<close> (\<open>mio/broker.py\<close>); \<open>AiGovernance\<close> (\<open>ai_governance.py\<close>).
  \<^item> \<open>Runbooks\<close> (\<open>runbooks.py\<close>, lookups of \<open>i18n.py\<close>), \<open>RunbookReview\<close> (\<open>runbook_review.py\<close>), \<open>TriageFlows\<close>, \<open>Triage\<close>, \<open>NocSupport\<close> (\<open>triage/\<close>).
  \<^item> \<open>Aggregator\<close> (\<open>aggregator.py\<close>).
  \<^item> \<open>EvidencePlane\<close>, \<open>EvidenceProperties\<close> (\<open>evidence_plane/schema.py\<close>, \<open>evidence_plane/noc_inventory.py\<close>); \<open>NocEvaluator\<close> (settings and dimensions) and \<open>NocReport\<close> (scope,
    incident, evaluation, input of the arbiter) of \<open>evaluators/noc.py\<close>, with \<open>NocProperties\<close>, which also composes the evaluation with the arbiter; \<open>Correlation\<close>
    (\<open>correlation/advanced.py\<close>), whose times are those of \<open>PyTime\<close>. A penalty of the evaluator (points, reasons, evidence) is the record \<open>penalty\<close>, a dimension the list of them.
  \<^item> \<open>PathSchema\<close> (\<open>path_schema.py\<close>), \<open>ControlPlane\<close> (\<open>control_plane.py\<close>: what left the client is the list \<open>cp_effects\<close>), \<open>ConfigDrift\<close> (\<open>config_drift.py\<close>: the baseline
    file and the files compared are the record \<open>drift_world\<close>), \<open>DeceptionDecisions\<close> (\<open>deception_transition.py\<close>, \<open>deception_activation.py\<close>).

  Each \<open>...Properties\<close> theory holds the invariants of its component and what follows from them; this theory holds what spans the audit chain and the alert queue.

  \<^bold>\<open>How the model reads the code.\<close> A method is a function on the state record of its object, with a sum type for what it returns or raises. What runs under a lock is
  one step; the interleavings of the broker's worker threads, of several writers of the alert queue and of the threads of the relay and the recorder are step relations.
  Clock readings, file system outcomes and network answers are arguments, so a theorem holds for all of them, failures included. Digests (SHA-256, HMAC), the
  ISO 8601 parser, float texts, YAML parsing, the language model, shell commands and the network are parameters; a theorem that needs more of one (no empty digest, no
  collision) says so.

  \<^bold>\<open>Interfaces.\<close> \<open>invariant_system\<close> (an initial condition, a step relation and an invariant give the invariant of every reachable state) is interpreted for the logger, the
  alert queue, the relay, the recorder, the coordinator, the worker pool and the triage sessions; \<open>bounded_log\<close> for the audit rings of coordinator and broker and the
  dropped records of the logger; \<open>relay_invariant\<close>, \<open>core_invariant\<close> and \<open>registry_invariant\<close> reduce an invariant of a whole component to its few operations that
  change what the invariant speaks of, and are interpreted once per invariant. \<open>cluster_kind\<close> and its extensions \<open>named_kind\<close> and \<open>walked_kind\<close> state what the correlator
  needs of one way of grouping and scoring events; they are interpreted on pairs, addresses and targets.

  \<^bold>\<open>What is shown.\<close>
  \<^item> Audit: what the logger leaves on disk verifies over rotations, failures and restarts; two verifying chains with one end have one content; results say what is
    on disk; durable records are delivered, waiting or counted.
  \<^item> Alerts: a decision on the chain is alerted at the next start, a live one within a turn of each thread; the queue file is a bounded list in order, whatever
    fails; nothing is alerted twice while writes succeed; a stopped relay ends. Delivery: the first working adapter sends, a flush loses only what was delivered.
  \<^item> Reasoning: completions are exact and accepted once, an advisory is never stale, a restart keeps no authority; handlers see what their schema allows, results
    are sanitised, running handlers are bounded under every interleaving; the model sees only what was allowed and audited, and its answer is bounded.
  \<^item> Decisions: control needs its gates, missing health only notifies, detection is earned.
  \<^item> Operators: commands run only through their gates; the review rejects exactly what is unacceptable; a triage session stands in its flow, is never stuck,
    moves only after its answer is audited and is read back as saved; an assistant never changes the proposed runbook.
  \<^item> Evidence: an event is read back as written; the counts of the inventory are its rows; every evaluation is within its scores and accepted by the arbiter, and one
    unreachable probe keeps the arbiter from any control; clusters are exactly the supported groups, in whatever order addresses are walked.
  \<^item> Configuration: drift reports name exactly what changed. Control: an action leaves the client once and a success is the daemon's own; the snapshot stream does not depend
    on how it is cut. Deception: an id binds the fields of a decision, and advice only annotates one.
  \<^item> Fleet: stored summaries are authentic and not replayed, a quarantine holds until registration.

  \<^bold>\<open>Bounds and termination.\<close> Loops over data are structural. The retry and thread loops are single turns under step relations; that a stopped relay
  finishes is proved with the number of its records as the measure. Flattening a configuration terminates by its size. Substitution in commands has a termination proof by the length of the text. No definition
  uses fuel. Where the code bounds its memory of seen records (8192 alerts, 65536 core events), the theorems carry that bound.

  \<^bold>\<open>Not modelled.\<close> The web application, the AI agent's socket loop and prompts, the control daemon and Wi-Fi control (system commands), sensors, the
  security evaluator, the clients of the deception service, the migration of the path schema, outcome assessment, explanations, service-objective measurements, displays, the command line and the translation tables; within modelled modules, thread
  start, log messages and constructors that only store their arguments. Characters outside ASCII stand as UTF-8 bytes; white space, digits and case are those of ASCII.
\<close>

section \<open>From the audit chain to the alert queue\<close>

lemma logged_last:
  assumes "log_inv sha s" and "log_action_decision sha y trace source payload s = (Inr r, s')"
  obtains f xs where "current_file s' = Some f" and "flines f = xs @ [Row (PDict r)]" and "dget r ''chain_hash'' = PStr (last_chain_hash s')" and "last_chain_hash s' \<noteq> []"
proof -
  define s1 where "s1 = (if is_full s then rotate y s else s)"
  define r1 where "r1 = seal sha (chain_record (sys_ts y) ''action_decision'' trace source payload (current_file s1 = None) s1)"
  have inv1: "log_inv sha s1" using assms(1) inv_rotate by (simp add: s1_def)
  obtain d where "log_reporting_durability sha y ''action_decision'' trace source payload s = (Inr (r, d), s')"
    using assms(2) by (auto simp: log_action_decision_def log_audit_def Let_def split: prod.splits sum.splits)
  then have res: "settle y ''action_decision'' (current_file s1 = None) r1 (written sha r1 s1) = (Inr (r, d), s')"
    by (auto simp: log_reporting_durability_def Let_def s1_def r1_def written_def VALID_KINDS_def split: if_splits)
  then have r: "r = r1" by (auto simp: settle_def split: if_splits sync.splits)
  have s': "dir s' = dir (written sha r1 s1)" "last_chain_hash s' = last_chain_hash (written sha r1 s1)"
    using settle_simps(1,3) [of y "''action_decision''" "current_file s1 = None" r1 "written sha r1 s1"] res by simp_all
  have tidy1: "current_file s1 = None \<or> torn (the (current_file s1)) = None"
    using inv1 by (auto simp: log_inv_def opt_good_def tidy_def split: option.splits)
  have ch: "dget r1 ''chain_hash'' = PStr (compute_chain_hash sha (chain_record (sys_ts y) ''action_decision'' trace source payload (current_file s1 = None) s1))"
    by (simp add: r1_def seal_def dget_update)
  have cf: "current_file s' = Some (append_line (PDict r1) (current_file s1))" by (simp add: s' written_def)
  show thesis
  proof (rule that [OF cf, of "butlast (flines (append_line (PDict r1) (current_file s1)))"])
    have "flines (append_line (PDict r1) (current_file s1)) \<noteq> []" by (simp add: append_line_def split: option.split)
    with append_line_tidy [OF tidy1] show "flines (append_line (PDict r1) (current_file s1)) = butlast (flines (append_line (PDict r1) (current_file s1))) @ [Row (PDict r)]"
      by (metis append_butlast_last_id r)
    show "dget r ''chain_hash'' = PStr (last_chain_hash s')" using ch by (simp add: r s'(2) written_def)
    show "last_chain_hash s' \<noteq> []" using ch inv1 by (simp add: s'(2) written_def log_inv_def compute_nonempty)
  qed
qed

text \<open>The active file always ends the lines of a chain.\<close>

lemma linked_head: "\<exists>gs. linked_files (f # fs) = f # gs"
  by (cases fs) (simp_all add: linked_files_def)

lemma chain_ends_active:
  assumes "active d = Some f"
  shows "\<exists>ls. cv_lines (read_chain None sy d) = ls @ flines f"
proof -
  obtain gs where "linked_files (fst (open_snapshot d)) = f # gs"
    using linked_head [of f "segs_from (seg d) 1 MAX_SEGMENTS"] assms by (auto simp: open_snapshot_def Let_def)
  then show ?thesis by (simp add: read_chain_def Let_def)
qed

lemma after_last: "dget r ''chain_hash'' = PStr h \<Longrightarrow> after_hash h (xs @ [r]) = Some (Suc (length xs))"
  by (simp add: after_hash_def enumerate_append_eq)

lemma cv_lines_sync: "cv_lines (read_chain mb sy d) = cv_lines (read_chain mb sy' d)"
  by (simp add: read_chain_def Let_def)

text \<open>A relay that starts on an empty queue sets out to replay every P0 record up to the point it was registered at.\<close>

lemma fresh_resume:
  assumes "rw_disk w = \<lparr>dfile = None, dino = 0\<rparr>" and "seen (rw_relay w) = []" and "resume cv w = (s, u)"
  shows "u = \<lparr>cu_cursor = [], cu_path = [], cu_legacy = [], cu_other = False, cu_hashes = []\<rparr>" and "seen s = []"
    and "reconcile_until s = reconcile_until (rw_relay w)"
  using assms by (auto simp: resume_def Let_def read_entries_def queue_cursor_and_hashes_def remember_all_def)

lemma fresh_missed:
  assumes "u = \<lparr>cu_cursor = [], cu_path = [], cu_legacy = [], cu_other = False, cu_hashes = []\<rparr>" and "seen s = []"
    and "cut_rows (reconcile_until s) (parse_rows (cv_lines cv)) = (rows, None)"
  shows "pl_missed (reconcile_plan s cv u) = filter (\<lambda>r. classify_p0 r \<noteq> []) rows"
  using assms by (simp add: reconcile_plan_def Let_def scope_of_def unseen_p0_def)


text \<open>A redirect decision is the first record of a log; a relay is attached to it.\<close>

definition ex_logged :: pydict where
  "ex_logged = [(''ts'', PStr ''t''), (''kind'', PStr ''action_decision''), (''trace_id'', PStr ''t1''), (''source'', PStr ''core''), (''chain_prev'', PStr []),
     (''action'', PStr ''redirect''), (''chain_hash'', PStr ''h'')]"

definition ex_log_after :: alog where
  "ex_log_after = snd (log_action_decision ex_hash ex_sys ''t1'' ''core'' [(''action'', PStr ''redirect'')] ex_log0)"

lemma ex_logged_ok: "log_action_decision ex_hash ex_sys ''t1'' ''core'' [(''action'', PStr ''redirect'')] ex_log0 = (Inr ex_logged, ex_log_after)"
  by (simp add: ex_log_after_def prod_eq_iff)
    (simp add: log_action_decision_def log_audit_def log_reporting_durability_def VALID_KINDS_def DURABLE_KINDS_def Let_def is_full_def ex_log0_def ex_dir_def ex_sys_def
      settle_def sync_result_def chain_record_def seal_def dupdate_simps compute_chain_hash_def ex_hash_def ex_logged_def)

lemma ex_log_after_fields: "last_chain_hash ex_log_after = ''h''" "dir ex_log_after = \<lparr>active = Some \<lparr>flines = row_lines [ex_logged], torn = None\<rparr>, seg = (\<lambda>_. None)\<rparr>"
  by (simp_all add: ex_log_after_def log_action_decision_def log_audit_def log_reporting_durability_def VALID_KINDS_def Let_def is_full_def ex_log0_def ex_dir_def ex_sys_def
      case_prod_beta chain_record_def seal_def dupdate_simps compute_chain_hash_def ex_hash_def ex_logged_def append_line_def dict_simps)

definition ex_attached :: "relay \<times> alog" where
  "ex_attached = ((init_relay ex_q0 (Some ''/audit'') 4 8 1 4)\<lparr>reconcile_until := Some ''h''\<rparr>, ex_log_after\<lparr>listeners := Suc (listeners ex_log_after)\<rparr>)"


end
